(* ===== verification/JsValue.thy ===== *)
theory JsValue
  imports Prelude
begin

text \<open>
  JavaScript values as the front end handles them: primitives, arrays and plain objects
  (string-keyed, insertion-ordered). The operations are those of the language that the
  modelled code uses: truthiness, \<open>||\<close>, \<open>??\<close>, property access, assignment, \<open>delete\<close>, spread,
  \<open>String(v)\<close>, and the deep copy \<^verbatim>\<open>JSON.parse(JSON.stringify(v))\<close>.

  A finite number is a rational (the value of the double, with no rounding of arithmetic);
  its decimal text is exact for integers and finite decimals of up to 17 fraction digits.
\<close>

section \<open>Values\<close>

datatype jnum = Fin rat | PInf | MInf | NaN

datatype js =
    JUndef
  | JNull
  | JBool bool
  | JNum jnum
  | JStr string
  | JArr "js list"
  | JObj "(string \<times> js) list"

abbreviation JInt :: "int \<Rightarrow> js" where
  "JInt n \<equiv> JNum (Fin (of_int n))"

fun truthy :: "js \<Rightarrow> bool" where
  "truthy JUndef \<longleftrightarrow> False"
| "truthy JNull \<longleftrightarrow> False"
| "truthy (JBool b) \<longleftrightarrow> b"
| "truthy (JNum (Fin q)) \<longleftrightarrow> q \<noteq> 0"
| "truthy (JNum NaN) \<longleftrightarrow> False"
| "truthy (JNum _) \<longleftrightarrow> True"
| "truthy (JStr s) \<longleftrightarrow> s \<noteq> []"
| "truthy (JArr _) \<longleftrightarrow> True"
| "truthy (JObj _) \<longleftrightarrow> True"

definition nullish :: "js \<Rightarrow> bool" where
  "nullish v \<longleftrightarrow> v = JUndef \<or> v = JNull"

definition js_or :: "js \<Rightarrow> js \<Rightarrow> js" where
  "js_or a b = (if truthy a then a else b)"

definition js_coalesce :: "js \<Rightarrow> js \<Rightarrow> js" where
  "js_coalesce a b = (if nullish a then b else a)"

fun is_arr :: "js \<Rightarrow> bool" where
  "is_arr (JArr _) \<longleftrightarrow> True"
| "is_arr _ \<longleftrightarrow> False"

fun is_str :: "js \<Rightarrow> bool" where
  "is_str (JStr _) \<longleftrightarrow> True"
| "is_str _ \<longleftrightarrow> False"

text \<open>\<^verbatim>\<open>typeof v === 'object'\<close>: arrays and null included.\<close>

fun typeof_object :: "js \<Rightarrow> bool" where
  "typeof_object JNull \<longleftrightarrow> True"
| "typeof_object (JArr _) \<longleftrightarrow> True"
| "typeof_object (JObj _) \<longleftrightarrow> True"
| "typeof_object _ \<longleftrightarrow> False"

fun obj_fields :: "js \<Rightarrow> (string \<times> js) list" where
  "obj_fields (JObj kvs) = kvs"
| "obj_fields _ = []"

text \<open>Optional chaining \<open>v?.k\<close> on a plain object; any other value has no such field.\<close>

definition field :: "js \<Rightarrow> string \<Rightarrow> js" where
  "field v k = (case map_of (obj_fields v) k of Some x \<Rightarrow> x | None \<Rightarrow> JUndef)"

definition has_field :: "js \<Rightarrow> string \<Rightarrow> bool" where
  "has_field v k \<longleftrightarrow> map_of (obj_fields v) k \<noteq> None"

definition set_field :: "string \<Rightarrow> js \<Rightarrow> js \<Rightarrow> js" where
  "set_field k x v = JObj (AList.update k x (obj_fields v))"

definition del_field :: "string \<Rightarrow> js \<Rightarrow> js" where
  "del_field k v = JObj (AList.delete k (obj_fields v))"

text \<open>Object spread \<open>{...a, ...b}\<close>.\<close>

definition spread :: "js \<Rightarrow> js \<Rightarrow> js" where
  "spread a b = JObj (AList.updates (map fst (obj_fields b)) (map snd (obj_fields b)) (obj_fields a))"

fun elements :: "js \<Rightarrow> js list" where
  "elements (JArr xs) = xs"
| "elements _ = []"

section \<open>Text of a value\<close>

fun frac_digits :: "nat \<Rightarrow> nat \<Rightarrow> nat \<Rightarrow> string" where
  "frac_digits 0 r d = []"
| "frac_digits (Suc k) r d =
     (if r = 0 then [] else digit_char (10 * r div d) # frac_digits k (10 * r mod d) d)"

definition str_of_rat :: "rat \<Rightarrow> string" where
  "str_of_rat q =
     (let (n, d) = quotient_of q;
          a = nat \<bar>n\<bar>; e = nat d;
          body = str_of_nat (a div e) @
                 (if a mod e = 0 then [] else CHR ''.'' # frac_digits 17 (a mod e) e)
      in if n < 0 then CHR ''-'' # body else body)"

fun str_of_num :: "jnum \<Rightarrow> string" where
  "str_of_num (Fin q) = str_of_rat q"
| "str_of_num PInf = ''Infinity''"
| "str_of_num MInf = ''-Infinity''"
| "str_of_num NaN = ''NaN''"

text \<open>\<open>String(v)\<close>; inside an array null and undefined print as nothing.\<close>

fun js_string :: "js \<Rightarrow> string" and
    js_elem_string :: "js \<Rightarrow> string" and
    js_elems_string :: "js list \<Rightarrow> string" where
  "js_string JUndef = ''undefined''"
| "js_string JNull = ''null''"
| "js_string (JBool b) = (if b then ''true'' else ''false'')"
| "js_string (JNum n) = str_of_num n"
| "js_string (JStr s) = s"
| "js_string (JArr xs) = js_elems_string xs"
| "js_string (JObj _) = ''[object Object]''"
| "js_elem_string v = (if v = JUndef \<or> v = JNull then [] else js_string v)"
| "js_elems_string [] = []"
| "js_elems_string (x # xs) =
     js_elem_string x @ (if xs = [] then [] else CHR '','' # js_elems_string xs)"

text \<open>\<^verbatim>\<open>String(v || '')\<close>, the coercion most of the code uses.\<close>

definition text_or_empty :: "js \<Rightarrow> string" where
  "text_or_empty v = js_string (js_or v (JStr []))"

section \<open>The deep copy through JSON\<close>

fun json_clone :: "js \<Rightarrow> js" and
    json_clone_list :: "js list \<Rightarrow> js list" and
    json_clone_fields :: "(string \<times> js) list \<Rightarrow> (string \<times> js) list" where
  "json_clone JUndef = JNull"
| "json_clone JNull = JNull"
| "json_clone (JBool b) = JBool b"
| "json_clone (JNum n) = (case n of Fin q \<Rightarrow> JNum (Fin q) | _ \<Rightarrow> JNull)"
| "json_clone (JStr s) = JStr s"
| "json_clone (JArr xs) = JArr (json_clone_list xs)"
| "json_clone (JObj kvs) = JObj (json_clone_fields kvs)"
| "json_clone_list [] = []"
| "json_clone_list (x # xs) = json_clone x # json_clone_list xs"
| "json_clone_fields [] = []"
| "json_clone_fields ((k, v) # r) =
     (if v = JUndef then json_clone_fields r else (k, json_clone v) # json_clone_fields r)"

section \<open>JSON text\<close>

definition json_escape :: "char \<Rightarrow> string" where
  "json_escape c =
     (if c = CHR 0x22 then [CHR 0x5C, CHR 0x22]
      else if c = CHR 0x5C then [CHR 0x5C, CHR 0x5C]
      else if c = CHR 0x08 then [CHR 0x5C, CHR ''b'']
      else if c = CHR 0x0C then [CHR 0x5C, CHR ''f'']
      else if c = CHR 0x0A then [CHR 0x5C, CHR ''n'']
      else if c = CHR 0x0D then [CHR 0x5C, CHR ''r'']
      else if c = CHR 0x09 then [CHR 0x5C, CHR ''t'']
      else if char_code c < 16 then CHR 0x5C # ''u000'' @ [char_of (let n = char_code c in if n < 10 then 48 + n else 87 + n)]
      else if char_code c < 32 then CHR 0x5C # ''u001'' @ [char_of (let n = char_code c - 16 in if n < 10 then 48 + n else 87 + n)]
      else [c])"

definition json_quote :: "string \<Rightarrow> string" where
  "json_quote s = CHR 0x22 # concat (map json_escape s) @ [CHR 0x22]"

text \<open>\<^verbatim>\<open>JSON.stringify(v)\<close>; an undefined element of an array prints as null, an undefined
  field not at all. The value itself is never undefined where the code calls it.\<close>

fun json_text :: "js \<Rightarrow> string" and
    json_texts :: "js list \<Rightarrow> string list" and
    json_field_texts :: "(string \<times> js) list \<Rightarrow> string list" where
  "json_text JUndef = ''null''"
| "json_text JNull = ''null''"
| "json_text (JBool b) = (if b then ''true'' else ''false'')"
| "json_text (JNum n) = (case n of Fin q \<Rightarrow> str_of_rat q | _ \<Rightarrow> ''null'')"
| "json_text (JStr s) = json_quote s"
| "json_text (JArr xs) = ''['' @ join '','' (json_texts xs) @ '']''"
| "json_text (JObj kvs) = ''{'' @ join '','' (json_field_texts kvs) @ ''}''"
| "json_texts [] = []"
| "json_texts (x # xs) = json_text x # json_texts xs"
| "json_field_texts [] = []"
| "json_field_texts ((k, v) # r) =
     (if v = JUndef then json_field_texts r
      else (json_quote k @ '':'' @ json_text v) # json_field_texts r)"

text \<open>\<^verbatim>\<open>JSON.stringify(v, null, 2)\<close> at an indentation.\<close>

definition new_line :: "nat \<Rightarrow> string" where
  "new_line n = CHR 0x0A # replicate n (CHR '' '')"

fun json_pretty :: "nat \<Rightarrow> js \<Rightarrow> string" and
    json_prettys :: "nat \<Rightarrow> js list \<Rightarrow> string list" and
    json_pretty_fields :: "nat \<Rightarrow> (string \<times> js) list \<Rightarrow> string list" where
  "json_pretty n (JArr xs) =
     (if xs = [] then ''[]''
      else ''['' @ new_line (n + 2) @ join ('','' @ new_line (n + 2)) (json_prettys (n + 2) xs) @ new_line n @ '']'')"
| "json_pretty n (JObj kvs) =
     (let fs = json_pretty_fields (n + 2) kvs in
      if fs = [] then ''{}''
      else ''{'' @ new_line (n + 2) @ join ('','' @ new_line (n + 2)) fs @ new_line n @ ''}'')"
| "json_pretty n JUndef = ''null''"
| "json_pretty n JNull = ''null''"
| "json_pretty n (JBool b) = (if b then ''true'' else ''false'')"
| "json_pretty n (JNum m) = (case m of Fin q \<Rightarrow> str_of_rat q | _ \<Rightarrow> ''null'')"
| "json_pretty n (JStr s) = json_quote s"
| "json_prettys n [] = []"
| "json_prettys n (x # xs) = json_pretty n x # json_prettys n xs"
| "json_pretty_fields n [] = []"
| "json_pretty_fields n ((k, v) # r) =
     (if v = JUndef then json_pretty_fields n r
      else (json_quote k @ '': '' @ json_pretty n v) # json_pretty_fields n r)"

text \<open>\<^verbatim>\<open>a === b\<close>; two objects or arrays are never the same object where the code compares them.\<close>

fun strict_eq :: "js \<Rightarrow> js \<Rightarrow> bool" where
  "strict_eq (JArr _) b \<longleftrightarrow> False"
| "strict_eq (JObj _) b \<longleftrightarrow> False"
| "strict_eq (JNum NaN) b \<longleftrightarrow> False"
| "strict_eq a b \<longleftrightarrow> a = b"

text \<open>The values that JSON text can carry: what the server sends, and every copy.\<close>

fun is_json :: "js \<Rightarrow> bool" and
    is_json_list :: "js list \<Rightarrow> bool" and
    is_json_fields :: "(string \<times> js) list \<Rightarrow> bool" where
  "is_json JUndef \<longleftrightarrow> False"
| "is_json JNull \<longleftrightarrow> True"
| "is_json (JBool b) \<longleftrightarrow> True"
| "is_json (JNum n) \<longleftrightarrow> (case n of Fin _ \<Rightarrow> True | _ \<Rightarrow> False)"
| "is_json (JStr s) \<longleftrightarrow> True"
| "is_json (JArr xs) \<longleftrightarrow> is_json_list xs"
| "is_json (JObj kvs) \<longleftrightarrow> is_json_fields kvs"
| "is_json_list [] \<longleftrightarrow> True"
| "is_json_list (x # xs) \<longleftrightarrow> is_json x \<and> is_json_list xs"
| "is_json_fields [] \<longleftrightarrow> True"
| "is_json_fields ((k, v) # r) \<longleftrightarrow> is_json v \<and> is_json_fields r"

section \<open>Laws\<close>

lemma js_or_truthy [simp]: "truthy a \<Longrightarrow> js_or a b = a" "\<not> truthy a \<Longrightarrow> js_or a b = b"
  by (simp_all add: js_or_def)

lemma truthy_JStr_iff: "truthy (JStr s) \<longleftrightarrow> s \<noteq> []"
  by simp

lemma strict_eq_str [simp]: "strict_eq (JStr s) b \<longleftrightarrow> b = JStr s" "strict_eq b (JStr s) \<longleftrightarrow> b = JStr s"
  by (auto elim!: strict_eq.elims)

lemma strict_eq_imp: "strict_eq a b \<Longrightarrow> a = b"
  by (auto elim!: strict_eq.elims)

lemma field_set_same [simp]: "field (set_field k x v) k = x"
  by (simp add: field_def set_field_def)

lemma field_set_other [simp]: "k' \<noteq> k \<Longrightarrow> field (set_field k x v) k' = field v k'"
  by (simp add: field_def set_field_def)

lemma field_del_same [simp]: "field (del_field k v) k = JUndef"
  by (simp add: field_def del_field_def)

lemma field_del_other [simp]: "k' \<noteq> k \<Longrightarrow> field (del_field k v) k' = field v k'"
  by (simp add: field_def del_field_def)

lemma fields_set [simp]: "obj_fields (set_field k x v) = AList.update k x (obj_fields v)"
  by (simp add: set_field_def)

lemma field_JObj_Cons [simp]:
  "field (JObj ((k, v) # r)) k' = (if k' = k then v else field (JObj r) k')"
  by (simp add: field_def)

lemma field_JObj_Nil [simp]: "field (JObj []) k = JUndef"
  by (simp add: field_def)

lemma field_atomic [simp]:
  "field JUndef k = JUndef" "field JNull k = JUndef" "field (JStr s) k = JUndef"
  "field (JNum n) k = JUndef" "field (JBool b) k = JUndef" "field (JArr xs) k = JUndef"
  by (simp_all add: field_def)

lemma map_of_updates_fields:
  "map_of (AList.updates (map fst ys) (map snd ys) xs) k
     = (case map_of (rev ys) k of Some v \<Rightarrow> Some v | None \<Rightarrow> map_of xs k)"
proof (induction ys arbitrary: xs)
  case Nil
  then show ?case by simp
next
  case (Cons y ys)
  then show ?case
    by (cases y) (auto simp: map_add_def update_conv' split: option.splits)
qed

lemma distinct_map_of_rev: "distinct (map fst ys) \<Longrightarrow> map_of (rev ys) = map_of ys"
  by (rule map_of_eqI) (auto simp: rev_map[symmetric])

lemma field_spread:
  assumes "distinct (map fst (obj_fields b))"
  shows "field (spread a b) k = (if has_field b k then field b k else field a k)"
  using assms
  by (auto simp: field_def spread_def has_field_def map_of_updates_fields distinct_map_of_rev
      split: option.splits)

lemma is_json_clone [simp]:
  "is_json (json_clone v)" "is_json_list (json_clone_list xs)" "is_json_fields (json_clone_fields kvs)"
  by (induction v and xs and kvs rule: json_clone_json_clone_list_json_clone_fields.induct)
     (auto split: jnum.splits)

lemma json_clone_id:
  "is_json v \<Longrightarrow> json_clone v = v"
  "is_json_list xs \<Longrightarrow> json_clone_list xs = xs"
  "is_json_fields kvs \<Longrightarrow> json_clone_fields kvs = kvs"
  by (induction v and xs and kvs rule: json_clone_json_clone_list_json_clone_fields.induct)
     (auto split: jnum.splits)

lemma json_clone_idem [simp]: "json_clone (json_clone v) = json_clone v"
  by (simp add: json_clone_id)

lemma is_json_fields_iff: "is_json_fields kvs \<longleftrightarrow> (\<forall>v \<in> snd ` set kvs. is_json v)"
  by (induction kvs) auto

lemma is_json_list_iff: "is_json_list xs \<longleftrightarrow> (\<forall>x \<in> set xs. is_json x)"
  by (induction xs) auto

lemma is_json_field: "is_json v \<Longrightarrow> field v k = JUndef \<or> is_json (field v k)"
proof (cases v)
  case (JObj kvs)
  assume "is_json v"
  with JObj have all: "\<forall>x \<in> snd ` set kvs. is_json x" by (simp add: is_json_fields_iff)
  show ?thesis
  proof (cases "map_of kvs k")
    case None
    with JObj show ?thesis by (simp add: field_def)
  next
    case (Some x)
    then have "x \<in> snd ` set kvs" by (metis image_eqI map_of_SomeD snd_conv)
    with all have "is_json x" by blast
    with Some JObj show ?thesis by (simp add: field_def)
  qed
qed simp_all

end
