(* ===== verification/JsNumber.thy ===== *)
theory JsNumber
  imports JsValue
begin

text \<open>
  Numbers and their texts: \<^verbatim>\<open>Number(s)\<close>, \<^verbatim>\<open>parseFloat(s)\<close>, \<^verbatim>\<open>toFixed\<close>, \<^verbatim>\<open>Math.round\<close> and comparison, on
  exact rationals (the double's rounding of a quotient is not modelled).
\<close>

section \<open>Reading\<close>

definition digits_value :: "string \<Rightarrow> rat" where
  "digits_value ds = of_nat (nat_of_str ds)"

definition scan_exponent :: "string \<Rightarrow> int \<times> string" where
  "scan_exponent s =
     (case s of
        c # r \<Rightarrow>
          (let neg = (case r of d # _ \<Rightarrow> d = CHR ''-'' | [] \<Rightarrow> False);
               r' = (case r of d # t \<Rightarrow> if d = CHR ''-'' \<or> d = CHR ''+'' then t else r | [] \<Rightarrow> []);
               ds = takeWhile is_digit r'
           in if (c = CHR ''e'' \<or> c = CHR ''E'') \<and> ds \<noteq> []
              then (if neg then - int (nat_of_str ds) else int (nat_of_str ds), dropWhile is_digit r')
              else (0, s))
      | [] \<Rightarrow> (0, []))"

definition scale10 :: "rat \<Rightarrow> int \<Rightarrow> rat" where
  "scale10 q e = (if 0 \<le> e then q * 10 ^ nat e else q / 10 ^ nat (- e))"

text \<open>The longest decimal literal at the start of a text.\<close>

definition scan_decimal :: "string \<Rightarrow> (jnum \<times> string) option" where
  "scan_decimal s =
     (let neg = (case s of c # _ \<Rightarrow> c = CHR ''-'' | [] \<Rightarrow> False);
          s1 = (case s of c # r \<Rightarrow> if c = CHR ''-'' \<or> c = CHR ''+'' then r else s | [] \<Rightarrow> []);
          ds = takeWhile is_digit s1; s2 = dropWhile is_digit s1;
          fs = (case s2 of c # r \<Rightarrow> if c = CHR ''.'' then takeWhile is_digit r else [] | [] \<Rightarrow> []);
          s3 = (case s2 of c # r \<Rightarrow> if c = CHR ''.'' \<and> (ds \<noteq> [] \<or> fs \<noteq> []) then dropWhile is_digit r else s2 | [] \<Rightarrow> []);
          (e, s4) = scan_exponent s3;
          q = scale10 (digits_value (ds @ fs)) (e - int (length fs))
      in if starts_with s1 ''Infinity'' then Some (if neg then MInf else PInf, drop 8 s1)
         else if ds = [] \<and> fs = [] then None
         else Some (Fin (if neg then - q else q), s4))"

definition parse_float_str :: "string \<Rightarrow> jnum" where
  "parse_float_str s = (case scan_decimal (dropWhile is_ws s) of Some (n, _) \<Rightarrow> n | None \<Rightarrow> NaN)"

text \<open>\<^verbatim>\<open>Number(s)\<close> for decimal texts; the hexadecimal, octal and binary literals are not read.\<close>

definition number_of_str :: "string \<Rightarrow> jnum" where
  "number_of_str s =
     (let t = trim s in
      if t = [] then Fin 0 else (case scan_decimal t of Some (n, []) \<Rightarrow> n | _ \<Rightarrow> NaN))"

text \<open>\<^verbatim>\<open>parseInt(s, 10)\<close>.\<close>

definition parse_int_str :: "string \<Rightarrow> jnum" where
  "parse_int_str s =
     (let t = dropWhile is_ws s;
          neg = (case t of c # _ \<Rightarrow> c = CHR ''-'' | [] \<Rightarrow> False);
          u = (case t of c # r \<Rightarrow> if c = CHR ''-'' \<or> c = CHR ''+'' then r else t | [] \<Rightarrow> []);
          ds = takeWhile is_digit u
      in if ds = [] then NaN
         else Fin (if neg then - of_nat (nat_of_str ds) else of_nat (nat_of_str ds)))"

fun to_number :: "js \<Rightarrow> jnum" where
  "to_number JUndef = NaN"
| "to_number JNull = Fin 0"
| "to_number (JBool b) = Fin (if b then 1 else 0)"
| "to_number (JNum n) = n"
| "to_number (JStr s) = number_of_str s"
| "to_number v = number_of_str (js_string v)"

fun parse_float :: "js \<Rightarrow> jnum" where
  "parse_float (JNum n) = n"
| "parse_float v = parse_float_str (js_string v)"

fun is_num :: "js \<Rightarrow> bool" where
  "is_num (JNum _) \<longleftrightarrow> True"
| "is_num _ \<longleftrightarrow> False"

section \<open>Comparing\<close>

fun num_less :: "jnum \<Rightarrow> jnum \<Rightarrow> bool" where
  "num_less (Fin a) (Fin b) \<longleftrightarrow> a < b"
| "num_less (Fin a) PInf \<longleftrightarrow> True"
| "num_less MInf (Fin b) \<longleftrightarrow> True"
| "num_less MInf PInf \<longleftrightarrow> True"
| "num_less _ _ \<longleftrightarrow> False"

definition num_ge :: "jnum \<Rightarrow> jnum \<Rightarrow> bool" where
  "num_ge a b \<longleftrightarrow> a \<noteq> NaN \<and> b \<noteq> NaN \<and> \<not> num_less a b"

fun num_scale :: "rat \<Rightarrow> jnum \<Rightarrow> jnum" where
  "num_scale k (Fin a) = Fin (k * a)"
| "num_scale k n = n"

section \<open>Printing\<close>

text \<open>\<^verbatim>\<open>x.toFixed(d)\<close> below \<open>10 ^ 21\<close>.\<close>

definition fixed_digits :: "nat \<Rightarrow> rat \<Rightarrow> string" where
  "fixed_digits d q =
     (let n = nat \<lfloor>q * 10 ^ d + 1/2\<rfloor>
      in str_of_nat (n div 10 ^ d) @ (if d = 0 then [] else CHR ''.'' # pad_start d (CHR ''0'') (str_of_nat (n mod 10 ^ d))))"

fun to_fixed :: "nat \<Rightarrow> jnum \<Rightarrow> string" where
  "to_fixed d (Fin q) = (if q < 0 then CHR ''-'' # fixed_digits d (- q) else fixed_digits d q)"
| "to_fixed d n = str_of_num n"

fun js_round :: "jnum \<Rightarrow> jnum" where
  "js_round (Fin q) = Fin (of_int \<lfloor>q + 1/2\<rfloor>)"
| "js_round n = n"

fun js_floor :: "jnum \<Rightarrow> jnum" where
  "js_floor (Fin q) = Fin (of_int \<lfloor>q\<rfloor>)"
| "js_floor n = n"

fun js_abs :: "jnum \<Rightarrow> jnum" where
  "js_abs (Fin q) = Fin \<bar>q\<bar>"
| "js_abs MInf = PInf"
| "js_abs n = n"

lemma fixed_digits_close:
  assumes "0 \<le> q"
  shows "\<exists>n. fixed_digits 1 q = str_of_nat (n div 10) @ CHR ''.'' # str_of_nat (n mod 10)
     \<and> \<bar>of_nat n / 10 - q\<bar> \<le> 1/20"
proof -
  let ?n = "nat \<lfloor>q * 10 + 1/2\<rfloor>"
  have p: "0 \<le> \<lfloor>q * 10 + 1/2\<rfloor>" using assms by simp
  have "(of_nat ?n :: rat) = of_int \<lfloor>q * 10 + 1/2\<rfloor>" using p by simp
  moreover have "of_int \<lfloor>q * 10 + 1/2\<rfloor> \<le> q * 10 + 1/2" "q * 10 + 1/2 < of_int \<lfloor>q * 10 + 1/2\<rfloor> + 1"
    by linarith+
  ultimately have "of_nat ?n / 10 - q \<le> 1/20" "- (of_nat ?n / 10 - q) \<le> 1/20" by linarith+
  then have "\<bar>of_nat ?n / 10 - q\<bar> \<le> 1/20" by (rule abs_leI)
  moreover have "length (str_of_nat (?n mod 10)) \<noteq> 0" by simp
  then have "1 - length (str_of_nat (?n mod 10)) = 0" by linarith
  then have "fixed_digits 1 q = str_of_nat (?n div 10) @ CHR ''.'' # str_of_nat (?n mod 10)"
    by (simp add: fixed_digits_def pad_start_def Let_def)
  ultimately show ?thesis by blast
qed

lemma digit_not_ws: "is_digit c \<Longrightarrow> \<not> is_ws c \<and> c \<noteq> CHR ''-'' \<and> c \<noteq> CHR ''+''"
  by (auto simp: char_class_defs)

lemma parse_int_of_nat: "parse_int_str (str_of_nat n) = Fin (of_nat n)"
proof -
  obtain c r where c: "str_of_nat n = c # r" using str_of_nat_nonempty [of n] by (cases "str_of_nat n") auto
  have d: "\<forall>x \<in> set (str_of_nat n). is_digit x" by (rule str_of_nat_digits)
  then have "is_digit c" using c by simp
  from digit_not_ws [OF this] have "dropWhile is_ws (str_of_nat n) = str_of_nat n" using c by simp
  moreover have "takeWhile is_digit (str_of_nat n) = str_of_nat n" using d by (simp add: takeWhile_eq_all_conv)
  ultimately show ?thesis using digit_not_ws [OF \<open>is_digit c\<close>] c nat_of_str_of_nat [of n]
    by (simp add: parse_int_str_def Let_def)
qed

end
