(* ===== verification/Calendar.thy ===== *)
theory Calendar
  imports Prelude
begin

text \<open>
  The proleptic Gregorian calendar of the language's \<^verbatim>\<open>Date\<close>: day numbers since 1 January 1970,
  \<^verbatim>\<open>Date\<close> field arithmetic with overflowing months and days, and the fields of a day. The lemmas show
  that the two directions are inverse on real dates.
\<close>

definition leap_year :: "int \<Rightarrow> bool" where
  "leap_year y \<longleftrightarrow> y mod 4 = 0 \<and> (y mod 100 \<noteq> 0 \<or> y mod 400 = 0)"

definition year_start :: "int \<Rightarrow> int" where
  "year_start y = 365 * (y - 1970) + (y - 1969) div 4 - (y - 1901) div 100 + (y - 1601) div 400"

definition month_lengths :: "bool \<Rightarrow> int list" where
  "month_lengths leap = [31, if leap then 29 else 28, 31, 30, 31, 30, 31, 31, 30, 31, 30, 31]"

text \<open>Days of the year before month \<open>m\<close> (0 is January).\<close>

definition month_start :: "bool \<Rightarrow> int \<Rightarrow> int" where
  "month_start leap m = sum_list (take (nat m) (month_lengths leap))"

text \<open>The day with the given year, month and day, each of which may overflow.\<close>

definition make_day :: "int \<Rightarrow> int \<Rightarrow> int \<Rightarrow> int" where
  "make_day y m d =
     (let y' = y + m div 12; m' = m mod 12 in year_start y' + month_start (leap_year y') m' + d - 1)"

definition year_of_day :: "int \<Rightarrow> int" where
  "year_of_day n =
     (let g = 1970 + (400 * n) div 146097
      in if n < year_start g then g - 1 else if year_start (g + 1) \<le> n then g + 1 else g)"

fun month_scan :: "int \<Rightarrow> int list \<Rightarrow> int \<Rightarrow> int \<times> int" where
  "month_scan m [] n = (m, n + 1)"
| "month_scan m (l # ls) n = (if n < l \<or> ls = [] then (m, n + 1) else month_scan (m + 1) ls (n - l))"

text \<open>Year, month and day of a day number.\<close>

definition civil_of_day :: "int \<Rightarrow> int \<times> int \<times> int" where
  "civil_of_day n =
     (let y = year_of_day n; (m, d) = month_scan 0 (month_lengths (leap_year y)) (n - year_start y)
      in (y, m, d))"

definition weekday :: "int \<Rightarrow> int" where
  "weekday n = (n + 4) mod 7"

definition days_in_month :: "int \<Rightarrow> int \<Rightarrow> int" where
  "days_in_month y m = month_lengths (leap_year y) ! nat m"

section \<open>Years\<close>

lemma div_succ: "0 < k \<Longrightarrow> (x + 1) div k = x div k + (if (x + 1) mod k = 0 then 1 else (0::int))"
proof -
  assume k: "0 < k"
  have x: "x = k * (x div k) + x mod k" "0 \<le> x mod k" "x mod k < k" using k by auto
  show ?thesis
  proof (cases "x mod k = k - 1")
    case True
    have "x + 1 = k * (x div k) + (x mod k + 1)" using x(1) by linarith
    with True have e: "x + 1 = k * (x div k + 1)" by (simp add: distrib_left)
    then have "(x + 1) div k = x div k + 1" "(x + 1) mod k = 0" using k by simp_all
    then show ?thesis by simp
  next
    case False
    have e: "x + 1 = k * (x div k) + (x mod k + 1)" by simp
    have s: "0 \<le> x mod k + 1" "x mod k + 1 < k" using x False by linarith+
    have "(x + 1) div k = x div k" by (rule int_div_pos_eq [OF e s])
    moreover have "(x + 1) mod k = x mod k + 1" by (rule int_mod_pos_eq [OF e s])
    ultimately show ?thesis using s(1) x(2) by simp
  qed
qed

lemma year_start_succ: "year_start (y + 1) = year_start y + (if leap_year y then 366 else 365)"
proof -
  have m: "(y - 1968) mod 4 = y mod 4" "(y - 1900) mod 100 = y mod 100" "(y - 1600) mod 400 = y mod 400"
    using mod_mult_self2 [of y 4 "-492"] mod_mult_self2 [of y 100 "-19"] mod_mult_self2 [of y 400 "-4"] by simp_all
  have a: "(y + 1 - 1969) div 4 = (y - 1969) div 4 + (if y mod 4 = 0 then 1 else 0)"
    using div_succ [of 4 "y - 1969"] m(1) by simp
  have b: "(y + 1 - 1901) div 100 = (y - 1901) div 100 + (if y mod 100 = 0 then 1 else 0)"
    using div_succ [of 100 "y - 1901"] m(2) by simp
  have c: "(y + 1 - 1601) div 400 = (y - 1601) div 400 + (if y mod 400 = 0 then 1 else 0)"
    using div_succ [of 400 "y - 1601"] m(3) by simp
  have d: "y mod 100 = 0 \<Longrightarrow> y mod 4 = 0" "y mod 400 = 0 \<Longrightarrow> y mod 100 = 0"
    using mod_mod_cancel [of 4 100 y] mod_mod_cancel [of 100 400 y] by simp_all
  show ?thesis
    unfolding year_start_def a b c leap_year_def using d
    by (cases "y mod 4 = 0"; cases "y mod 100 = 0"; cases "y mod 400 = 0") simp_all
qed

lemma year_start_mono: "y < z \<Longrightarrow> year_start y + 365 \<le> year_start z"
proof (induction "nat (z - y)" arbitrary: z)
  case 0
  then show ?case by simp
next
  case (Suc n)
  then have z: "z = (z - 1) + 1" by simp
  show ?case
  proof (cases "y = z - 1")
    case True
    then show ?thesis using year_start_succ [of y] by (auto split: if_splits)
  next
    case False
    then have "y < z - 1" "n = nat (z - 1 - y)" using Suc by auto
    with Suc(1) have "year_start y + 365 \<le> year_start (z - 1)" by blast
    then show ?thesis using year_start_succ [of "z - 1"] by (auto split: if_splits)
  qed
qed

lemma year_unique:
  assumes "year_start y \<le> n" "n < year_start (y + 1)" "year_start z \<le> n" "n < year_start (z + 1)"
  shows "y = z"
proof (rule ccontr)
  assume "y \<noteq> z"
  then consider "y + 1 \<le> z" | "z + 1 \<le> y" by linarith
  then show False
  proof cases
    case 1
    then have "year_start (y + 1) \<le> year_start z" using year_start_mono [of "y + 1" z] by fastforce
    with assms show False by linarith
  next
    case 2
    then have "year_start (z + 1) \<le> year_start y" using year_start_mono [of "z + 1" y] by fastforce
    with assms show False by linarith
  qed
qed

text \<open>The estimate of the year is off by at most one.\<close>

lemma year_start_bounds:
  "146097 * (y - 1970) - 800 \<le> 400 * year_start y" "400 * year_start y \<le> 146097 * (y - 1970) + 800"
proof -
  have k: "k * (x div k) \<le> x \<and> x \<le> k * (x div k) + (k - 1)" if "0 < k" for k x :: int
    using mult_div_mod_eq [of k x] pos_mod_bound [OF that, of x] pos_mod_sign [OF that, of x] by linarith
  have a: "4 * ((y - 1969) div 4) \<le> y - 1969 \<and> y - 1969 \<le> 4 * ((y - 1969) div 4) + 3"
    and b: "100 * ((y - 1901) div 100) \<le> y - 1901 \<and> y - 1901 \<le> 100 * ((y - 1901) div 100) + 99"
    and c: "400 * ((y - 1601) div 400) \<le> y - 1601 \<and> y - 1601 \<le> 400 * ((y - 1601) div 400) + 399"
    using k [of 4 "y - 1969"] k [of 100 "y - 1901"] k [of 400 "y - 1601"] by simp_all
  have "100 * y - 197200 \<le> 400 * ((y - 1969) div 4)" "400 * ((y - 1901) div 100) \<le> 4 * y - 7604"
    "y - 2000 \<le> 400 * ((y - 1601) div 400)"
    using a b c by simp_all
  then show "146097 * (y - 1970) - 800 \<le> 400 * year_start y"
    unfolding year_start_def by (simp add: algebra_simps)
  have "400 * ((y - 1969) div 4) \<le> 100 * y - 196900" "4 * y - 8000 \<le> 400 * ((y - 1901) div 100)"
    "400 * ((y - 1601) div 400) \<le> y - 1601"
    using a b c by simp_all
  then show "400 * year_start y \<le> 146097 * (y - 1970) + 800"
    unfolding year_start_def by (simp add: algebra_simps)
qed

lemma year_of_day_correct: "year_start (year_of_day n) \<le> n \<and> n < year_start (year_of_day n + 1)"
proof -
  define q where "q = (400 * n) div 146097"
  have q: "146097 * q \<le> 400 * n" "400 * n < 146097 * q + 146097"
    unfolding q_def
    using mult_div_mod_eq [of 146097 "400 * n"] pos_mod_bound [of 146097 "400 * n"] pos_mod_sign [of 146097 "400 * n"]
    by linarith+
  have lo: "year_start y \<le> n" if "y = 1970 + q - 1" for y
    using year_start_bounds(2) [of y] q that by (simp add: algebra_simps)
  have hi: "n < year_start y" if "y = 1970 + q + 1 + 1" for y
    using year_start_bounds(1) [of y] q that by (simp add: algebra_simps)
  show ?thesis
    using lo [OF refl] hi [OF refl] unfolding year_of_day_def q_def [symmetric] by (auto simp: Let_def)
qed

section \<open>Round trips\<close>

lemma month_cases:
  "0 \<le> m \<Longrightarrow> m < 12 \<Longrightarrow> m = 0 \<or> m = 1 \<or> m = 2 \<or> m = 3 \<or> m = 4 \<or> m = 5 \<or> m = 6 \<or> m = 7
     \<or> m = 8 \<or> m = 9 \<or> m = 10 \<or> m = (11 :: int)"
  by presburger

lemma month_start_bounds:
  assumes "0 \<le> m" "m < 12" "1 \<le> d" "d \<le> month_lengths lp ! nat m"
  shows "0 \<le> month_start lp m + d - 1 \<and> month_start lp m + d - 1 < (if lp then 366 else 365)"
  using month_cases [OF assms(1,2)] assms(3,4)
  by (cases lp; elim disjE) (simp_all add: month_lengths_def month_start_def)

lemma month_scan_start:
  assumes "0 \<le> m" "m < 12" "1 \<le> d" "d \<le> month_lengths lp ! nat m"
  shows "month_scan 0 (month_lengths lp) (month_start lp m + d - 1) = (m, d)"
  using month_cases [OF assms(1,2)] assms(3,4)
  by (cases lp; elim disjE) (simp_all add: month_lengths_def month_start_def)

theorem civil_of_make_day:
  assumes "0 \<le> m" "m < 12" "1 \<le> d" "d \<le> days_in_month y m"
  shows "civil_of_day (make_day y m d) = (y, m, d)"
proof -
  let ?lp = "leap_year y"
  have d: "d \<le> month_lengths ?lp ! nat m" using assms(4) by (simp add: days_in_month_def)
  have n: "make_day y m d = year_start y + (month_start ?lp m + d - 1)"
    using assms(1,2) by (simp add: make_day_def Let_def div_pos_pos_trivial mod_pos_pos_trivial)
  have "year_start y \<le> make_day y m d \<and> make_day y m d < year_start (y + 1)"
    using month_start_bounds [OF assms(1-3) d] year_start_succ [of y] unfolding n by auto
  then have "year_of_day (make_day y m d) = y"
    using year_unique year_of_day_correct by blast
  then show ?thesis
    using month_scan_start [OF assms(1-3) d] by (simp add: civil_of_day_def n Let_def)
qed

lemma month_scan_inverse:
  assumes "0 \<le> n" "n < (if lp then 366 else 365)" "month_scan 0 (month_lengths lp) n = (m, d)"
  shows "0 \<le> m \<and> m < 12 \<and> 1 \<le> d \<and> d \<le> month_lengths lp ! nat m \<and> month_start lp m + d - 1 = n"
  using assms
  by (cases lp) (auto simp: month_lengths_def month_start_def eval_nat_numeral split: if_splits)

theorem make_day_of_civil:
  assumes "civil_of_day n = (y, m, d)"
  shows "make_day y m d = n \<and> 0 \<le> m \<and> m < 12 \<and> 1 \<le> d \<and> d \<le> days_in_month y m"
proof -
  let ?y = "year_of_day n" and ?lp = "leap_year (year_of_day n)"
  obtain m' d' where md: "month_scan 0 (month_lengths ?lp) (n - year_start ?y) = (m', d')" by fastforce
  with assms have e: "y = ?y" "m = m'" "d = d'" by (auto simp: civil_of_day_def Let_def)
  have r: "0 \<le> n - year_start ?y" "n - year_start ?y < (if ?lp then 366 else 365)"
    using year_of_day_correct [of n] year_start_succ [of ?y] by auto
  from month_scan_inverse [OF r md] show ?thesis
    by (simp add: e make_day_def days_in_month_def Let_def div_pos_pos_trivial mod_pos_pos_trivial)
qed

end
