(* ===== verification/Format.thy ===== *)
theory Format
  imports JsNumber Calendar "HOL-Library.Monad_Syntax"
begin

text \<open>
  \<^verbatim>\<open>frontend/js/utils/format.js\<close>: the texts of database types, dates, sizes, rates, durations, and
  \<^verbatim>\<open>Utils.escapeHtml\<close>. A time is a number of milliseconds. What depends on the host's locale data
  (number, date and relative-time formats) and its parser of other date texts are arguments.
\<close>

section \<open>Database types\<close>

definition db_type_labels :: "(string \<times> string) list" where
  "db_type_labels =
    [(''mysql'', ''MySQL''), (''postgresql'', ''PostgreSQL''), (''sqlserver'', ''SQL Server''), (''oracle'', ''Oracle''),
     (''tdsql-c-mysql'', ''TDSQL-C MySQL''), (''oceanbase-mysql'', ''OceanBase MySQL''), (''opengauss'', ''openGauss''),
     (''hana'', ''SAP HANA'')]"

definition format_db_type :: "js \<Rightarrow> js" where
  "format_db_type v =
     (case map_of db_type_labels (js_string v) of
        Some l \<Rightarrow> JStr l | None \<Rightarrow> js_or v (JStr ''-''))"

section \<open>Dates\<close>

text \<open>A value that may be a \<^verbatim>\<open>Date\<close> object, valid or not.\<close>

datatype date_input = DateObject "int option" | PlainInput js

definition time_clip :: "rat \<Rightarrow> int option" where
  "time_clip q =
     (let t = (if 0 \<le> q then \<lfloor>q\<rfloor> else \<lceil>q\<rceil>) in if \<bar>t\<bar> \<le> 8640000000000000 then Some t else None)"

definition date_utc :: "int \<Rightarrow> int \<Rightarrow> int \<Rightarrow> int \<Rightarrow> int \<Rightarrow> int \<Rightarrow> int \<Rightarrow> int" where
  "date_utc y m d h mi s ms =
     make_day (if 0 \<le> y \<and> y \<le> 99 then 1900 + y else y) m d * 86400000 + h * 3600000 + mi * 60000 + s * 1000 + ms"

fun cut_fraction :: "string \<Rightarrow> string" where
  "cut_fraction [] = []"
| "cut_fraction (c # cs) =
     (if c = CHR ''.'' \<and> length (takeWhile is_digit cs) > 3
      then c # take 3 cs @ dropWhile is_digit cs
      else c # cut_fraction cs)"

definition sign_char :: "char \<Rightarrow> bool" where
  "sign_char c \<longleftrightarrow> c = CHR ''+'' \<or> c = CHR ''-''"

text \<open>Does the text end in the given shape? Each entry tests one character.\<close>

definition ends_with :: "(char \<Rightarrow> bool) list \<Rightarrow> string \<Rightarrow> bool" where
  "ends_with ps s \<longleftrightarrow> length ps \<le> length s \<and> list_all2 (\<lambda>p c. p c) ps (drop (length s - length ps) s)"

definition eq_ci :: "char \<Rightarrow> char \<Rightarrow> bool" where
  "eq_ci a c \<longleftrightarrow> lower_char c = a"

definition without_last :: "nat \<Rightarrow> string \<Rightarrow> string" where
  "without_last n s = take (length s - n) s"

definition last_chars :: "nat \<Rightarrow> string \<Rightarrow> string" where
  "last_chars n s = drop (length s - n) s"

definition replace_space :: "string \<Rightarrow> string" where
  "replace_space s = (let a = takeWhile (\<lambda>c. c \<noteq> CHR '' '') s in
     if length a < length s then a @ CHR ''T'' # drop (Suc (length a)) s else s)"

definition normalize_date_text :: "string \<Rightarrow> string" where
  "normalize_date_text raw =
     (let n1 = replace_space raw;
          n2 = cut_fraction n1;
          n3 = (if ends_with [sign_char, is_digit, is_digit, is_digit, is_digit] n2
                then without_last 2 n2 @ '':'' @ last_chars 2 n2 else n2);
          n4 = (if ends_with [sign_char, is_digit, is_digit] n3 then n3 @ '':00'' else n3);
          n5 = (if ends_with [eq_ci (CHR ''u''), eq_ci (CHR ''t''), eq_ci (CHR ''c'')] n4 then without_last 3 n4 @ ''Z'' else n4);
          n6 = (if ends_with [(=) (CHR '' ''), eq_ci (CHR ''g''), eq_ci (CHR ''m''), eq_ci (CHR ''t'')] n5
                then without_last 4 n5 @ ''Z'' else n5);
          n7 = (if ends_with [sign_char, is_digit, is_digit, (=) (CHR '':''), is_digit, is_digit, eq_ci (CHR ''z'')] n6
                then without_last 1 n6 else n6)
      in (if ends_with [sign_char, is_digit, is_digit, eq_ci (CHR ''z'')] n7 then without_last 1 n7 @ '':00'' else n7))"

definition eat :: "(char \<Rightarrow> bool) \<Rightarrow> string \<Rightarrow> string option" where
  "eat p s = (case s of c # r \<Rightarrow> if p c then Some r else None | [] \<Rightarrow> None)"

definition eat_digits :: "nat \<Rightarrow> string \<Rightarrow> (int \<times> string) option" where
  "eat_digits n s =
     (if n \<le> length s \<and> list_all is_digit (take n s) then Some (int (nat_of_str (take n s)), drop n s) else None)"

text \<open>The zone at the end of a text, in minutes.\<close>

definition zone_offset :: "string \<Rightarrow> int option" where
  "zone_offset tz =
     (let u = to_lower tz in
      if u = [] \<or> u = ''z'' \<or> u = ''utc'' then Some 0
      else (case tz of
              c # r \<Rightarrow>
                (if sign_char c then
                   (do { (h, r1) \<leftarrow> eat_digits 2 r;
                         (if r1 = [] then Some ((if c = CHR ''-'' then -1 else 1) * (h * 60))
                          else do { (m, r2) \<leftarrow> eat_digits 2 (if hd r1 = CHR '':'' then tl r1 else r1);
                                    (if r2 = [] then Some ((if c = CHR ''-'' then -1 else 1) * (h * 60 + m)) else None) }) })
                 else None)
            | [] \<Rightarrow> None))"

text \<open>The text read field by field, when the host's parser has refused it.\<close>

definition manual_date :: "string \<Rightarrow> int option" where
  "manual_date raw = do {
     (y, s1) \<leftarrow> eat_digits 4 raw;
     s2 \<leftarrow> eat ((=) (CHR ''-'')) s1;
     (mo, s3) \<leftarrow> eat_digits 2 s2;
     s4 \<leftarrow> eat ((=) (CHR ''-'')) s3;
     (d, s5) \<leftarrow> eat_digits 2 s4;
     s6 \<leftarrow> eat (\<lambda>c. c = CHR '' '' \<or> c = CHR ''T'' \<or> c = CHR ''t'') s5;
     (h, s7) \<leftarrow> eat_digits 2 s6;
     s8 \<leftarrow> eat ((=) (CHR '':'')) s7;
     (mi, s9) \<leftarrow> eat_digits 2 s8;
     (sec, s10) \<leftarrow> (case eat ((=) (CHR '':'')) s9 of
                     Some r \<Rightarrow> (case eat_digits 2 r of Some x \<Rightarrow> Some x | None \<Rightarrow> Some (0, s9)) | None \<Rightarrow> Some (0, s9));
     (ms, s11) \<leftarrow> (case eat ((=) (CHR ''.'')) s10 of
                    Some r \<Rightarrow> (let ds = takeWhile is_digit r in
                       if ds = [] then Some (0, s10)
                       else Some (int (nat_of_str (take 3 ds @ replicate (3 - length ds) (CHR ''0''))), dropWhile is_digit r))
                  | None \<Rightarrow> Some (0, s10));
     off \<leftarrow> (if s11 = [] then Some 0
            else (let tz = dropWhile is_ws s11 in if tz = [] then None else zone_offset tz));
     time_clip (of_int (date_utc y (mo - 1) d h mi sec ms - off * 60 * 1000))
   }"

text \<open>\<open>host\<close> is the host's \<^verbatim>\<open>Date.parse\<close>.\<close>

definition parse_date :: "(string \<Rightarrow> int option) \<Rightarrow> date_input \<Rightarrow> int option" where
  "parse_date host v = (case v of
      DateObject t \<Rightarrow> t
    | PlainInput (JNum (Fin q)) \<Rightarrow> if q = 0 then None else time_clip q
    | PlainInput (JStr s) \<Rightarrow>
        (let raw = trim s in
         if raw = [] then None
         else
           (let numeric = (if list_all is_digit raw
                           then time_clip (digits_value raw * (if length raw = 10 then 1000 else 1)) else None)
            in case numeric of
                 Some t \<Rightarrow> Some t
               | None \<Rightarrow>
                   (case host (normalize_date_text raw) of
                      Some t \<Rightarrow> Some t
                    | None \<Rightarrow> (case manual_date raw of Some t \<Rightarrow> Some t | None \<Rightarrow> host raw))))
    | _ \<Rightarrow> None)"

section \<open>Sizes, rates and durations\<close>

function log1024_up :: "rat \<Rightarrow> nat" where
  "log1024_up q = (if q < 1024 then 0 else Suc (log1024_up (q / 1024)))"
  by pat_completeness auto
termination
proof (relation "measure (\<lambda>q. nat \<lfloor>q\<rfloor>)")
  fix q :: rat
  assume q: "\<not> q < 1024"
  have "\<lfloor>q / 1024\<rfloor> < \<lfloor>q\<rfloor>"
  proof -
    have "q / 1024 \<le> q - 1" using q by (simp add: field_simps)
    then have "\<lfloor>q / 1024\<rfloor> \<le> \<lfloor>q - 1\<rfloor>" by (rule floor_mono)
    then show ?thesis by simp
  qed
  moreover have "0 < \<lfloor>q\<rfloor>" using q by simp
  ultimately show "(q / 1024, q) \<in> measure (\<lambda>q. nat \<lfloor>q\<rfloor>)" by simp
qed simp

declare log1024_up.simps [simp del]

text \<open>The index \<^verbatim>\<open>Math.floor(Math.log(|b|) / Math.log(1024))\<close>; below 1 it is negative and names no unit.\<close>

definition size_units :: "string list" where
  "size_units = [''B'', ''KB'', ''MB'', ''GB'', ''TB'']"

function log1024_down :: "rat \<Rightarrow> nat" where
  "log1024_down q = (if q \<le> 0 \<or> 1 \<le> q then 0 else Suc (log1024_down (q * 1024)))"
  by pat_completeness auto
termination
proof (relation "measure (\<lambda>q. nat \<lceil>1 / q\<rceil>)")
  fix q :: rat
  assume q: "\<not> (q \<le> 0 \<or> 1 \<le> q)"
  then have "1 / (q * 1024) \<le> 1 / q - 1 + 1 / 1024" by (simp add: field_simps)
  then have "1 / (q * 1024) \<le> 1 / q - 1 / 2" by simp
  have "1 / q > 1" using q by simp
  show "(q * 1024, q) \<in> measure (\<lambda>q. nat \<lceil>1 / q\<rceil>)"
  proof -
    have "1 / (q * 1024) = (1 / q) / 1024" by simp
    with \<open>1 / q > 1\<close> have le: "1 / (q * 1024) \<le> 1 / q - 1 \<or> 1 / (q * 1024) \<le> 1" by linarith
    have two: "\<lceil>1 / q\<rceil> \<ge> 2" using \<open>1 / q > 1\<close> by linarith
    from le have "\<lceil>1 / (q * 1024)\<rceil> < \<lceil>1 / q\<rceil>" using two by linarith
    with two q show ?thesis by simp
  qed
qed simp

declare log1024_down.simps [simp del]

definition format_bytes :: "jnum \<Rightarrow> string" where
  "format_bytes b = (case b of
      Fin q \<Rightarrow>
        if q = 0 then ''0 B''
        else if 1 \<le> \<bar>q\<bar> then
          (let i = log1024_up \<bar>q\<bar> in
           str_of_num (parse_float_str (to_fixed 1 (Fin (q / 1024 ^ i)))) @ '' '' @
             (if i < length size_units then size_units ! i else ''undefined''))
        else str_of_num (parse_float_str (to_fixed 1 (Fin (q * 1024 ^ log1024_down \<bar>q\<bar>)))) @ '' undefined''
    | NaN \<Rightarrow> ''0 B''
    | _ \<Rightarrow> ''NaN undefined'')"

definition format_network_rate :: "js \<Rightarrow> string" where
  "format_network_rate v =
     (if nullish v then ''--''
      else (let n = parse_float v in
        if n = NaN then ''--''
        else if num_ge (js_abs n) (Fin 1048576) then to_fixed 2 (num_scale (1 / 1048576) n) @ '' MB/s''
        else if num_ge (js_abs n) (Fin 1024) then to_fixed 2 (num_scale (1 / 1024) n) @ '' KB/s''
        else str_of_num (js_round n) @ '' Bytes/s''))"

text \<open>\<open>intl\<close> is the host's number format for the current locale.\<close>

definition format_number :: "(jnum \<Rightarrow> string) \<Rightarrow> js \<Rightarrow> string" where
  "format_number intl v =
     (if nullish v then ''0''
      else (let n = (case v of JNum x \<Rightarrow> x | _ \<Rightarrow> (case parse_float v of NaN \<Rightarrow> Fin 0 | x \<Rightarrow> x)) in
        if num_ge n (Fin 1000000000) then to_fixed 1 (num_scale (1 / 1000000000) n) @ ''B''
        else if num_ge n (Fin 1000000) then to_fixed 1 (num_scale (1 / 1000000) n) @ ''M''
        else if num_ge n (Fin 1000) then to_fixed 1 (num_scale (1 / 1000) n) @ ''K''
        else intl n))"

definition format_percent :: "js \<Rightarrow> string" where
  "format_percent v = (if nullish v then ''0%'' else to_fixed 1 (parse_float v) @ ''%'')"

definition format_duration :: "jnum \<Rightarrow> string" where
  "format_duration ms =
     (if num_less ms (Fin 1) then ''<1ms''
      else if num_less ms (Fin 1000) then str_of_num (js_round ms) @ ''ms''
      else if num_less ms (Fin 60000) then to_fixed 1 (num_scale (1 / 1000) ms) @ ''s''
      else to_fixed 1 (num_scale (1 / 60000) ms) @ ''min'')"

text \<open>\<open>rel\<close> is the host's relative-time format.\<close>

definition format_time_ago :: "(string \<Rightarrow> int option) \<Rightarrow> (int \<Rightarrow> string \<Rightarrow> string) \<Rightarrow> int \<Rightarrow> date_input \<Rightarrow> string" where
  "format_time_ago host rel now v =
     (case parse_date host v of
        None \<Rightarrow> ''N/A''
      | Some t \<Rightarrow>
          (let s = (now - t) div 1000 in
           if s < 0 then ''N/A''
           else if s < 60 then rel 0 ''second''
           else if s < 3600 then rel (- (s div 60)) ''minute''
           else if s < 86400 then rel (- (s div 3600)) ''hour''
           else rel (- (s div 86400)) ''day''))"

definition format_datetime :: "(string \<Rightarrow> int option) \<Rightarrow> (int \<Rightarrow> string) \<Rightarrow> date_input \<Rightarrow> string" where
  "format_datetime host fmt v =
     (case parse_date host v of
        Some t \<Rightarrow> fmt t
      | None \<Rightarrow> (case v of PlainInput (JStr s) \<Rightarrow> if trim s \<noteq> [] then s else ''N/A'' | _ \<Rightarrow> ''N/A''))"

definition format_uptime :: "js \<Rightarrow> string" where
  "format_uptime v =
     (if nullish v then ''N/A''
      else (case to_number v of
        Fin q \<Rightarrow>
          (let s = \<lfloor>q\<rfloor>; days = s div 86400; hours = s mod 86400 div 3600; mins = s mod 3600 div 60 in
           if s < 0 then ''N/A''
           else if days > 0 then str_of_int days @ ''d '' @ str_of_int hours @ ''h''
           else if hours > 0 then str_of_int hours @ ''h '' @ str_of_int mins @ ''m''
           else if mins > 0 then str_of_int mins @ ''m''
           else str_of_int s @ ''s'')
      | MInf \<Rightarrow> ''N/A''
      | PInf \<Rightarrow> ''Infinityd NaNh''
      | NaN \<Rightarrow> ''NaNs''))"

text \<open>\<^verbatim>\<open>Utils.escapeHtml\<close>: the serialisation of a text node.\<close>

definition escape_char :: "char \<Rightarrow> string" where
  "escape_char c =
     (if c = CHR ''&'' then ''&amp;''
      else if c = CHR ''<'' then ''&lt;''
      else if c = CHR ''>'' then ''&gt;''
      else if c = CHR 0xA0 then ''&nbsp;''
      else [c])"

definition escape_html :: "string \<Rightarrow> string" where
  "escape_html s = concat (map escape_char s)"

section \<open>Properties\<close>

lemma log1024_up_spec: "1 \<le> q \<Longrightarrow> 1024 ^ log1024_up q \<le> q \<and> q < 1024 ^ Suc (log1024_up q)"
proof (induction q rule: log1024_up.induct)
  case (1 q)
  show ?case
  proof (cases "q < 1024")
    case True
    with 1 show ?thesis by (simp add: log1024_up.simps [of q])
  next
    case False
    then have "1 \<le> q / 1024" by simp
    with False 1 have "1024 ^ log1024_up (q / 1024) \<le> q / 1024 \<and> q / 1024 < 1024 ^ Suc (log1024_up (q / 1024))"
      by blast
    with False show ?thesis by (simp add: log1024_up.simps [of q] field_simps)
  qed
qed

lemma log1024_up_bound: "1 \<le> q \<Longrightarrow> log1024_up q < 5 \<longleftrightarrow> q < 1024 ^ 5"
proof
  assume q: "1 \<le> q"
  note s = log1024_up_spec [OF q]
  {
    assume "log1024_up q < 5"
    then have "(1024::rat) ^ Suc (log1024_up q) \<le> 1024 ^ 5" by (intro power_increasing) auto
    with s show "q < 1024 ^ 5" by linarith
  next
    assume "q < 1024 ^ 5"
    show "log1024_up q < 5"
    proof (rule ccontr)
      assume "\<not> log1024_up q < 5"
      then have "(1024::rat) ^ 5 \<le> 1024 ^ log1024_up q" by (intro power_increasing) auto
      with s \<open>q < 1024 ^ 5\<close> show False by linarith
    qed
  }
qed

text \<open>
  Sizes: from one byte up to 1024 to the power 5 the unit is the one whose range the size is in,
  so the number in front of it lies between 1 and 1024; a fraction of a byte and a size beyond have no
  unit, and the text ends in the word for an undefined value.
\<close>

theorem format_bytes_unit:
  assumes "b \<noteq> 0"
  shows "if 1 \<le> \<bar>b\<bar> \<and> \<bar>b\<bar> < 1024 ^ 5
         then (\<exists>k < length size_units. 1024 ^ k \<le> \<bar>b\<bar> \<and> \<bar>b\<bar> < 1024 ^ Suc k
                 \<and> format_bytes (Fin b) = str_of_num (parse_float_str (to_fixed 1 (Fin (b / 1024 ^ k)))) @ '' '' @ size_units ! k)
         else (\<exists>m. format_bytes (Fin b) = m @ '' undefined'')"
proof (cases "1 \<le> \<bar>b\<bar>")
  case True
  note s = log1024_up_spec [OF True] and k = log1024_up_bound [OF True]
  show ?thesis
  proof (cases "\<bar>b\<bar> < 1024 ^ 5")
    case True2: True
    then have "log1024_up \<bar>b\<bar> < length size_units" using k by (simp add: size_units_def)
    with s True True2 assms show ?thesis by (auto simp: format_bytes_def Let_def)
  next
    case False
    then have "\<not> log1024_up \<bar>b\<bar> < length size_units" using k by (simp add: size_units_def)
    with False True assms show ?thesis by (auto simp: format_bytes_def Let_def)
  qed
next
  case False
  with assms show ?thesis by (auto simp: format_bytes_def)
qed

theorem format_bytes_unit_witness:
  "(\<exists>m. format_bytes (Fin (1 / 2)) = m @ '' undefined'') \<and> (\<exists>m k. format_bytes (Fin 1536) = m @ '' '' @ size_units ! k)"
proof
  show "\<exists>m. format_bytes (Fin (1 / 2)) = m @ '' undefined''"
    using format_bytes_unit [of "1 / 2"] by simp
  show "\<exists>m k. format_bytes (Fin 1536) = m @ '' '' @ size_units ! k"
    using format_bytes_unit [of 1536] by (simp del: to_fixed.simps append.simps) blast
qed

text \<open>
  Escaping makes text safe between tags and only there: the result has no angle bracket, and every
  quotation mark of the text is still in it, in its place among the quotation marks.
\<close>

theorem escape_html_text_only:
  "CHR ''<'' \<notin> set (escape_html s) \<and> CHR ''>'' \<notin> set (escape_html s)
   \<and> filter (\<lambda>c. c = CHR 0x22 \<or> c = CHR 0x27) (escape_html s) = filter (\<lambda>c. c = CHR 0x22 \<or> c = CHR 0x27) s"
proof (induction s)
  case Nil
  show ?case by (simp add: escape_html_def)
next
  case (Cons c s)
  have "CHR ''<'' \<notin> set (escape_char c) \<and> CHR ''>'' \<notin> set (escape_char c)
    \<and> filter (\<lambda>c. c = CHR 0x22 \<or> c = CHR 0x27) (escape_char c) = filter (\<lambda>c. c = CHR 0x22 \<or> c = CHR 0x27) [c]"
    by (simp add: escape_char_def)
  with Cons show ?case by (simp add: escape_html_def)
qed

end
