(* ===== verification/AiPrompts.thy ===== *)
theory AiPrompts
  imports JsNumber Format
begin

text \<open>
  The questions the pages put to the chat on their own: about a session, about an expensive statement
  (pages/instance-detail.js) and about the statement in the editor (pages/sqlConsole.js), with the texts they
  are made of, the version of the database cut down to its number, and the dialogs the chats run in.
  \<open>tr\<close> is the table of texts of the page: the last part of a key and the values to insert.
\<close>

type_synonym texts = "string \<Rightarrow> (string \<times> js) list \<Rightarrow> string"

section \<open>The version of a database\<close>

text \<open>
  A pattern is a word, in any case, white space after it or not, and a number: digits and dots.
\<close>

definition version_patterns :: "(string \<times> string \<times> bool) list" where
  "version_patterns =
     [(''postgresql'', ''PostgreSQL'', True), (''mysql'', [], False), (''oracle'', ''Oracle Database '', False),
      (''sqlserver'', ''Microsoft SQL Server'', True), (''opengauss'', ''openGauss'', True), (''hana'', ''HDB'', True),
      (''tdsql'', [], False), (''oceanbasemysql'', [], False)]"

definition version_names :: "(string \<times> string) list" where
  "version_names =
     [(''postgresql'', ''PostgreSQL''), (''mysql'', ''MySQL''), (''oracle'', ''Oracle''), (''sqlserver'', ''SQL Server''),
      (''opengauss'', ''openGauss''), (''hana'', ''SAP HANA''), (''tdsql'', ''TDSQL-C''), (''oceanbasemysql'', ''OceanBase MySQL'')]"

definition version_char :: "char \<Rightarrow> bool" where
  "version_char c \<longleftrightarrow> is_digit c \<or> c = CHR ''.''"

text \<open>A pattern at the start of a text: the number and what follows it.\<close>

definition match_here :: "string \<times> bool \<Rightarrow> string \<Rightarrow> (string \<times> string) option" where
  "match_here pat s =
     (let (word, spaces) = pat; rest = drop (length word) s; body = (if spaces then dropWhile is_ws rest else rest);
          n = takeWhile version_char body
      in if to_lower (take (length word) s) = to_lower word \<and> (spaces \<longrightarrow> rest \<noteq> body) \<and> n \<noteq> []
         then Some (n, dropWhile version_char body) else None)"

fun find_match :: "string \<times> bool \<Rightarrow> string \<Rightarrow> (string \<times> string) option" where
  "find_match pat [] = match_here pat []"
| "find_match pat (c # cs) = (case match_here pat (c # cs) of Some m \<Rightarrow> Some m | None \<Rightarrow> find_match pat cs)"

record version_info =
  vi_short :: string
  vi_full :: string
  vi_details :: string

definition normal_type :: "js \<Rightarrow> string" where
  "normal_type t = filter (\<lambda>c. c \<noteq> CHR ''_'' \<and> c \<noteq> CHR ''-'') (to_lower (text_or_empty t))"

definition cut_version :: "string \<Rightarrow> version_info" where
  "cut_version s =
     (if 50 < length s then \<lparr>vi_short = take 50 s @ ''...'', vi_full = s, vi_details = drop 50 s\<rparr>
      else \<lparr>vi_short = s, vi_full = s, vi_details = []\<rparr>)"

definition simplify_version :: "string \<Rightarrow> js \<Rightarrow> js \<Rightarrow> version_info" where
  "simplify_version unknown full_version db_type =
     (if \<not> truthy full_version then \<lparr>vi_short = unknown, vi_full = [], vi_details = []\<rparr>
      else let s = js_string full_version; t = normal_type db_type
           in case map_of version_patterns t of
                None \<Rightarrow> cut_version s
              | Some pat \<Rightarrow>
                  (case find_match pat s of
                     None \<Rightarrow> cut_version s
                   | Some (n, rest) \<Rightarrow>
                       \<lparr>vi_short = the (map_of version_names t) @ '' '' @ n, vi_full = s,
                        vi_details = dropWhile (\<lambda>c. c = CHR '','' \<or> is_ws c) (trim rest)\<rparr>))"

text \<open>The same code stands in the page of the SQL console and in the page of the datasources.\<close>

definition console_version :: "texts \<Rightarrow> js \<Rightarrow> js \<Rightarrow> version_info" where
  "console_version tr = simplify_version (tr ''unknownVersion'' [])"

definition datasources_version :: "texts \<Rightarrow> js \<Rightarrow> js \<Rightarrow> version_info" where
  "datasources_version tr = simplify_version (tr ''unknownVersion'' [])"

section \<open>Values of a session\<close>

definition analysis_text :: "js \<Rightarrow> string" where
  "analysis_text v = (if nullish v then ''-'' else let s = trim (js_string v) in if s = [] then ''-'' else s)"

fun first_text :: "js list \<Rightarrow> js" where
  "first_text [] = JNull"
| "first_text (v # vs) =
     (if nullish v then first_text vs else let s = trim (js_string v) in if s \<noteq> [] then JStr s else first_text vs)"

fun first_number :: "js list \<Rightarrow> js" where
  "first_number [] = JNull"
| "first_number (v # vs) =
     (if nullish v \<or> v = JStr [] then first_number vs
      else (case to_number v of Fin q \<Rightarrow> JNum (Fin q) | _ \<Rightarrow> first_number vs))"

definition compare_text :: "js \<Rightarrow> string" where
  "compare_text v = (if nullish v then [] else if is_num v then js_string v else trim (js_string v))"

definition truncated_block :: "texts \<Rightarrow> nat \<Rightarrow> js \<Rightarrow> string" where
  "truncated_block tr n v =
     (let s = trim (if nullish v then [] else js_string v)
      in if s = [] then [] else if length s \<le> n then s else trim_end (take n s) @ CHR 0x0A # tr ''truncated'' [])"

text \<open>The fields of the raw record that say something the prompt does not say yet.\<close>

definition raw_field_extra :: "(string \<times> js) list \<Rightarrow> string \<times> js \<Rightarrow> bool" where
  "raw_field_extra shown kv \<longleftrightarrow>
     \<not> nullish (snd kv) \<and> \<not> (is_str (snd kv) \<and> trim (js_string (snd kv)) = [])
   \<and> (case map_of shown (to_upper (fst kv)) of
        None \<Rightarrow> True
      | Some v \<Rightarrow> compare_text (snd kv) \<noteq> compare_text v)"

definition raw_extra :: "texts \<Rightarrow> js \<Rightarrow> (string \<times> js) list \<Rightarrow> string" where
  "raw_extra tr raw shown =
     (let extras = filter (raw_field_extra shown) (obj_fields raw)
      in if extras = [] then [] else truncated_block tr 1600 (JStr (json_pretty 0 (JObj extras))))"

section \<open>The prompts\<close>

definition host_text :: "js \<Rightarrow> string" where
  "host_text ds =
     (if truthy (field ds ''host'')
      then js_string (field ds ''host'') @ '':'' @ js_string (js_or (field ds ''port'') (JStr ''-'')) else ''-'')"

definition version_text :: "texts \<Rightarrow> js \<Rightarrow> string" where
  "version_text tr ds =
     (if truthy (field ds ''db_version'')
      then vi_short (simplify_version (tr ''unknownVersion'' []) (field ds ''db_version'') (field ds ''db_type'')) else ''-'')"

definition said :: "texts \<Rightarrow> string \<Rightarrow> js \<Rightarrow> js" where
  "said tr k v = JStr (tr k [(''value0'', v)])"

text \<open>The full-width comma between the parts of a line, as UTF-8.\<close>

definition wide_comma :: string where
  "wide_comma = [CHR 0xEF, CHR 0xBC, CHR 0x8C]"

text \<open>\<^verbatim>\<open>lines.filter(Boolean).join('\n')\<close>\<close>

definition joined_lines :: "js list \<Rightarrow> string" where
  "joined_lines ls = join [CHR 0x0A] (map js_string (filter truthy ls))"

definition instance_lines :: "texts \<Rightarrow> (js \<Rightarrow> string) \<Rightarrow> js \<Rightarrow> js list" where
  "instance_lines tr type_label ds =
     [JStr (tr ''instanceInformation'' []),
      said tr ''instanceNameValue'' (JStr (analysis_text (field ds ''name''))),
      said tr ''databaseTypeValue'' (JStr (analysis_text (js_or (JStr (type_label (field ds ''db_type''))) (field ds ''db_type'')))),
      said tr ''hostValue'' (JStr (host_text ds)),
      said tr ''databaseValue'' (JStr (analysis_text (field ds ''database''))),
      (if version_text tr ds \<noteq> ''-'' then said tr ''versionValue'' (JStr (version_text tr ds)) else JNull)]"

definition session_raw :: "js \<Rightarrow> js" where
  "session_raw s = (if truthy (field s ''raw'') \<and> typeof_object (field s ''raw'') then field s ''raw'' else JObj [])"

text \<open>What the prompt shows of a session: its own fields, and those of the raw record where they are empty.\<close>

definition session_shown :: "js \<Rightarrow> (string \<times> js) list" where
  "session_shown s =
     (let raw = session_raw s
      in [(''ID'', first_text [field s ''session_id'', field raw ''ID'']), (''USER'', first_text [field s ''user'', field raw ''USER'']),
          (''DB'', first_text [field s ''database'', field raw ''DB'']), (''HOST'', first_text [field s ''client'', field raw ''HOST'']),
          (''COMMAND'', first_text [field s ''status'', field raw ''COMMAND'']),
          (''TIME'', first_number [field s ''duration_seconds'', field raw ''TIME'']),
          (''STATE'', first_text [field s ''wait_event'', field raw ''STATE'']), (''INFO'', first_text [field s ''sql_text'', field raw ''INFO''])])"

definition shown_of :: "js \<Rightarrow> string \<Rightarrow> js" where
  "shown_of s k = (case map_of (session_shown s) k of Some v \<Rightarrow> v | None \<Rightarrow> JNull)"

definition session_prompt :: "texts \<Rightarrow> (js \<Rightarrow> string) \<Rightarrow> js \<Rightarrow> js \<Rightarrow> string" where
  "session_prompt tr type_label ds s =
     (let sql = truncated_block tr 3200 (shown_of s ''INFO'');
          extra = raw_extra tr (session_raw s) (session_shown s);
          duration = (if shown_of s ''TIME'' = JNull then ''-''
                      else tr ''durationWithUptime'' [(''value0'', shown_of s ''TIME''), (''value1'', JStr (format_uptime (shown_of s ''TIME'')))]);
          database = analysis_text (field ds ''database''); own = analysis_text (shown_of s ''DB'');
          summary = [tr ''sessionIdValue'' [(''value0'', JStr (analysis_text (shown_of s ''ID'')))],
                     tr ''userValue'' [(''value0'', JStr (analysis_text (shown_of s ''USER'')))],
                     tr ''clientValue'' [(''value0'', JStr (analysis_text (shown_of s ''HOST'')))]];
          state = [tr ''statusValue'' [(''value0'', JStr (analysis_text (shown_of s ''COMMAND'')))],
                   tr ''waitEventValue'' [(''value0'', JStr (analysis_text (shown_of s ''STATE'')))],
                   tr ''durationValue'' [(''value0'', JStr duration)]]
      in joined_lines
           ([JStr (tr ''asASeniorDatabaseOperationAndMaintenance'' []), JStr [], JStr (tr ''analysisTarget'' []),
             JStr (tr ''pleaseDetermineWhetherTheCurrentSessionIs'' []), JStr []] @
            instance_lines tr type_label ds @
            [JStr [], JStr (tr ''sessionInformation'' []), JStr (''- '' @ join wide_comma summary),
             (if own \<noteq> ''-'' \<and> own \<noteq> database then said tr ''sessionDatabaseValue'' (JStr own) else JNull),
             JStr (''- '' @ join wide_comma state), JStr [], JStr (tr ''sqlText'' []),
             JStr (if sql = [] then tr ''noSqlText'' [] else sql),
             (if extra \<noteq> [] then JStr [] else JNull), (if extra \<noteq> [] then JStr (tr ''supplementaryFields'' []) else JNull),
             (if extra \<noteq> [] then JStr extra else JNull), JStr []] @
            map (\<lambda>k. JStr (tr k []))
              [''outputRequirements'', ''sessionAssessmentRequirement'', ''sessionRiskRequirement'', ''sessionRootCauseRequirement'',
               ''sessionResolutionRequirement'', ''sessionMissingInfoRequirement'']))"

text \<open>The numbers of a statement that are there, on one line of a kind.\<close>

definition present_parts :: "texts \<Rightarrow> js \<Rightarrow> (string \<times> string) list \<Rightarrow> js" where
  "present_parts tr sql ks =
     (let parts = map (\<lambda>(f, k). tr k [(''value0'', field sql f)]) (filter (\<lambda>(f, k). \<not> nullish (field sql f)) ks)
      in if parts = [] then JNull else JStr (''- '' @ join wide_comma parts))"

definition top_sql_prompt :: "texts \<Rightarrow> (js \<Rightarrow> string) \<Rightarrow> js \<Rightarrow> js \<Rightarrow> string" where
  "top_sql_prompt tr type_label ds sql =
     joined_lines
       ([JStr (tr ''asASeniorDatabaseOperationAndMaintenance2'' []), JStr [], JStr (tr ''analysisTarget'' []),
         JStr (tr ''pleaseDetermineWhetherThereArePerformanceProblems'' []), JStr []] @
        instance_lines tr type_label ds @
        [JStr [], JStr (tr ''sqlStatistics'' []),
         present_parts tr sql [(''exec_count'', ''executionCountValue''), (''avg_time_sec'', ''elapsedValue''), (''total_time_sec'', ''elapsedValue2'')],
         present_parts tr sql [(''avg_rows_scanned'', ''averageRowsScannedValue''), (''total_rows_scanned'', ''totalRowsScannedValue'')],
         present_parts tr sql [(''total_wait_time_sec'', ''totalWaitingTimeValue'')],
         JStr [], JStr (tr ''sqlText'' []), JStr (truncated_block tr 2400 (js_or (field sql ''sql_text'') (JStr []))), JStr []] @
        map (\<lambda>k. JStr (tr k []))
          [''outputRequirements'', ''sqlAssessmentRequirement'', ''sqlBottleneckRequirement'', ''sqlRootCauseRequirement'',
           ''sqlOptimizationRequirement'', ''sqlMissingInfoRequirement''])"

section \<open>The prompt of the SQL console\<close>

definition console_type_labels :: "texts \<Rightarrow> (string \<times> string) list" where
  "console_type_labels tr =
     [(''mysql'', ''MySQL''), (''postgresql'', ''PostgreSQL''), (''oracle'', ''Oracle''), (''sqlserver'', ''SQL Server''),
      (''tdsql-c-mysql'', ''TDSQL-C MySQL''), (''mongodb'', ''MongoDB''), (''redis'', ''Redis''), (''clickhouse'', ''ClickHouse''),
      (''tidb'', ''TiDB''), (''oceanbase'', ''OceanBase''), (''oceanbase-mysql'', ''OceanBase MySQL''), (''dameng'', tr ''dameng'' []),
      (''kingbase'', tr ''renminUniversityOfFinanceAndEconomics'' []), (''gbase'', ''GBase''), (''hana'', ''SAP HANA'')]"

definition console_type_label :: "texts \<Rightarrow> js \<Rightarrow> js" where
  "console_type_label tr t =
     (case map_of (console_type_labels tr) (js_string t) of Some l \<Rightarrow> js_or (JStr l) JNull | None \<Rightarrow> JNull)"

text \<open>The full-width colon, as UTF-8.\<close>

definition wide_colon :: string where
  "wide_colon = [CHR 0xEF, CHR 0xBC, CHR 0x9A]"

definition console_opening :: "texts \<Rightarrow> js \<Rightarrow> js \<Rightarrow> bool \<Rightarrow> js \<Rightarrow> js list" where
  "console_opening tr database schema supports_schema ds =
     (let label = js_or (js_or (console_type_label tr (field ds ''db_type'')) (field ds ''db_type'')) (JStr (tr ''unknown'' []));
          version = (if truthy (field ds ''db_version'') then vi_short (console_version tr (field ds ''db_version'') (field ds ''db_type'')) else ''-'');
          schema_text = js_string (js_or schema (JStr ''-''))
      in [JStr (tr ''asASeniorDatabasePerformanceOptimizationExpert'' []), JStr [], JStr (tr ''analysisTarget'' [])] @
         map (\<lambda>k. JStr (tr k []))
           [''performanceBottleneckRequirement'', ''indexUsageRequirement'', ''rewritePracticeRequirement'', ''optimizationOutcomeRequirement''] @
         [JStr [], JStr (tr ''databaseInformation'' []), said tr ''instanceNameValue'' (js_or (field ds ''name'') (JStr ''-'')),
          said tr ''databaseTypeValue'' label, said tr ''hostValue'' (JStr (host_text ds)),
          said tr ''databaseValue'' (js_or database (js_or (field ds ''database'') (JStr ''-''))),
          (if supports_schema \<and> schema_text \<noteq> ''-'' then JStr (''- Schema'' @ wide_colon @ schema_text) else JNull),
          (if version \<noteq> ''-'' then said tr ''versionValue'' (JStr version) else JNull),
          JStr [], JStr (tr ''sqlToBeOptimized'' [])])"

definition console_closing :: "texts \<Rightarrow> js list" where
  "console_closing tr =
     JStr [] # map (\<lambda>k. JStr (tr k []))
       [''pleaseAnalyzeFromTheFollowingAspects'', ''structureAnalysisRequirement'', ''performanceIssueRequirement'',
        ''indexOptimizationRequirement'', ''sqlRewriteRequirement'', ''otherOptimizationRequirement'']"

definition console_prompt :: "texts \<Rightarrow> js \<Rightarrow> js \<Rightarrow> bool \<Rightarrow> js \<Rightarrow> string \<Rightarrow> string" where
  "console_prompt tr database schema supports_schema ds sql =
     join [CHR 0x0A] (map js_string (filter (\<lambda>l. l \<noteq> JNull)
       (console_opening tr database schema supports_schema ds @ [JStr ''```sql'', JStr sql, JStr ''```''] @ console_closing tr)))"

section \<open>The dialogs of a chat\<close>

text \<open>The options of the chat that runs in a dialog and asks on its own.\<close>

definition dialog_options :: "js \<Rightarrow> string \<Rightarrow> string \<Rightarrow> js" where
  "dialog_options datasource_id ask title =
     JObj [(''embedded'', JBool True), (''hideEmbeddedTitle'', JBool True), (''compactEmbeddedToolbar'', JBool True),
           (''fixedDatasourceId'', datasource_id), (''hideSessionSidebar'', JBool True), (''autoCreateSession'', JBool True),
           (''autoSendInitialAsk'', JBool True), (''hideInitialAskMessage'', JBool True), (''initialAsk'', JStr ask),
           (''initialSessionTitle'', JStr (trim title)), (''hideToolSafetyButton'', JBool True), (''hideClearSessionButton'', JBool True)]"

definition session_dialog_options :: "texts \<Rightarrow> (js \<Rightarrow> string) \<Rightarrow> js \<Rightarrow> js \<Rightarrow> js" where
  "session_dialog_options tr type_label ds s =
     dialog_options (field ds ''id'') (session_prompt tr type_label ds s)
       (tr ''sessionAnalysisTitle'' [(''name'', js_or (js_or (field ds ''name'') (field ds ''id'')) (JStr [])),
                                     (''sessionId'', js_or (field s ''session_id'') (JStr []))])"

definition sql_preview :: "js \<Rightarrow> string" where
  "sql_preview sql = js_string (js_or (case field sql ''sql_text'' of JStr t \<Rightarrow> JStr (take 50 t) | _ \<Rightarrow> JUndef) (JStr ''SQL''))"

definition top_sql_dialog_options :: "texts \<Rightarrow> (js \<Rightarrow> string) \<Rightarrow> js \<Rightarrow> js \<Rightarrow> js" where
  "top_sql_dialog_options tr type_label ds sql =
     dialog_options (field ds ''id'') (top_sql_prompt tr type_label ds sql)
       (tr ''sqlAnalysisTitle'' [(''name'', js_or (js_or (field ds ''name'') (field ds ''id'')) (JStr [])), (''sql'', JStr (sql_preview sql))])"

definition console_dialog_options :: "texts \<Rightarrow> js \<Rightarrow> js \<Rightarrow> bool \<Rightarrow> js \<Rightarrow> string \<Rightarrow> js" where
  "console_dialog_options tr database schema supports_schema ds sql =
     dialog_options (field ds ''id'') (console_prompt tr database schema supports_schema ds sql)
       (tr ''sqlDiagnosticOptimizationValue2'' [(''value0'', js_or (js_or (field ds ''name'') (field ds ''id'')) (JStr []))])"

text \<open>
  The dialogs by number: the one on display, those whose chat is ready, the chats that run, and the cleanup
  functions the page of the instance keeps for itself.
\<close>

datatype dialog_kind = SessionDialog | TopSqlDialog | ConsoleDialog

record ai_dialogs =
  dg_shown :: "(dialog_kind \<times> nat) option"
  dg_ready :: "nat list"
  dg_running :: "nat list"
  dg_session :: "nat option"
  dg_top_sql :: "nat option"

definition dialog_cleanup :: "nat \<Rightarrow> ai_dialogs \<Rightarrow> ai_dialogs" where
  "dialog_cleanup n d = d\<lparr>dg_running := filter (\<lambda>m. m \<noteq> n) (dg_running d)\<rparr>"

definition open_dialog :: "dialog_kind \<Rightarrow> nat \<Rightarrow> ai_dialogs \<Rightarrow> ai_dialogs" where
  "open_dialog k n d =
     (let d1 = (case k of
                  SessionDialog \<Rightarrow> (case dg_session d of Some m \<Rightarrow> (dialog_cleanup m d)\<lparr>dg_session := None\<rparr> | None \<Rightarrow> d)
                | TopSqlDialog \<Rightarrow> (case dg_top_sql d of Some m \<Rightarrow> (dialog_cleanup m d)\<lparr>dg_top_sql := None\<rparr> | None \<Rightarrow> d)
                | ConsoleDialog \<Rightarrow> d)
      in d1\<lparr>dg_shown := Some (k, n)\<rparr>)"

text \<open>The chat of a dialog is ready; the dialog may have been closed before.\<close>

definition dialog_ready :: "dialog_kind \<Rightarrow> nat \<Rightarrow> ai_dialogs \<Rightarrow> ai_dialogs" where
  "dialog_ready k n d =
     (let d1 = d\<lparr>dg_ready := n # dg_ready d, dg_running := n # dg_running d\<rparr>
      in case k of
           SessionDialog \<Rightarrow> d1\<lparr>dg_session := Some n\<rparr>
         | TopSqlDialog \<Rightarrow> d1\<lparr>dg_top_sql := Some n\<rparr>
         | ConsoleDialog \<Rightarrow> d1)"

definition hide_dialog :: "ai_dialogs \<Rightarrow> ai_dialogs" where
  "hide_dialog d =
     (case dg_shown d of
        None \<Rightarrow> d
      | Some (k, n) \<Rightarrow>
          let d1 = d\<lparr>dg_shown := None\<rparr>
          in if n \<notin> set (dg_ready d) then d1
             else (let d2 = dialog_cleanup n d1
                   in case k of
                        SessionDialog \<Rightarrow> if dg_session d = Some n then d2\<lparr>dg_session := None\<rparr> else d2
                      | TopSqlDialog \<Rightarrow> if dg_top_sql d = Some n then d2\<lparr>dg_top_sql := None\<rparr> else d2
                      | ConsoleDialog \<Rightarrow> d2))"

text \<open>What the page of the instance does for its dialogs when it is left.\<close>

definition leave_dialogs :: "ai_dialogs \<Rightarrow> ai_dialogs" where
  "leave_dialogs d =
     (case dg_session d of
        None \<Rightarrow> d
      | Some m \<Rightarrow> (if dg_shown d \<noteq> None then hide_dialog d else dialog_cleanup m d)\<lparr>dg_session := None\<rparr>)"

section \<open>The execution plan as a table\<close>

definition plan_columns :: "js list \<Rightarrow> string list" where
  "plan_columns rows =
     filter (\<lambda>c. c \<notin> {''OPERATOR_ID'', ''PARENT_OPERATOR_ID'', ''id'', ''parent_id''}) (map fst (obj_fields (hd rows)))"

definition plan_cells :: "js list \<Rightarrow> string list list" where
  "plan_cells rows =
     (if rows = [] then [] else map (\<lambda>row. map (\<lambda>c. js_string (js_coalesce (field row c) (JStr ''-''))) (plan_columns rows)) rows)"

datatype plan_view = PlanText string | PlanTable "string list" "string list list" | NoPlanData | NoPlan | PlanFailed string

definition explain_view :: "string + js \<Rightarrow> plan_view" where
  "explain_view answer =
     (case answer of
        Inl msg \<Rightarrow> PlanFailed msg
      | Inr response \<Rightarrow>
          let plan = field response ''explain_result'' in
          if \<not> truthy plan then NoPlan
          else if field plan ''format'' = JStr ''json'' then PlanText (json_pretty 0 (field plan ''plan''))
          else if field plan ''format'' = JStr ''table''
          then (let rows = elements (field plan ''plan'') in if rows = [] then NoPlanData else PlanTable (plan_columns rows) (plan_cells rows))
          else PlanText (json_pretty 0 plan))"

section \<open>Versions\<close>

lemma pattern_types: "\<forall>e \<in> set version_patterns. normal_type (JStr (fst e)) = fst e \<and> map_of version_patterns (fst e) = Some (snd e)"
  by code_simp

lemma take_word: "to_lower (take (length w) (w @ s)) = to_lower w"
  by simp

lemma takeWhile_number: "list_all version_char n \<Longrightarrow> (case rest of [] \<Rightarrow> True | c # _ \<Rightarrow> \<not> version_char c) \<Longrightarrow>
     takeWhile version_char (n @ rest) = n \<and> dropWhile version_char (n @ rest) = rest"
  by (induction n) (auto split: list.splits)

lemma find_match_here: "match_here pat s = Some m \<Longrightarrow> find_match pat s = Some m"
  by (cases s) auto

text \<open>
  From the version text of every database with a pattern, the page takes the number: the short text is the
  name of the database and the number as the server wrote it, the details are what follows it, and nothing is
  lost from the full text.
\<close>

theorem version_number_found:
  assumes "(t, word, spaces) \<in> set version_patterns" and "list_all version_char n" and "n \<noteq> []"
    and "case rest of [] \<Rightarrow> True | c # _ \<Rightarrow> \<not> version_char c"
  shows "let s = word @ (if spaces then '' '' else []) @ n @ rest
         in simplify_version unknown (JStr s) (JStr t)
          = \<lparr>vi_short = the (map_of version_names t) @ '' '' @ n, vi_full = s,
             vi_details = dropWhile (\<lambda>c. c = CHR '','' \<or> is_ws c) (trim rest)\<rparr>"
proof -
  let ?s = "word @ (if spaces then '' '' else []) @ n @ rest"
  note tw = takeWhile_number [OF assms(2,4)]
  have v: "\<not> is_ws c" if "version_char c" for c using that by (auto simp: version_char_def char_class_defs)
  have "dropWhile is_ws (n @ rest) = n @ rest"
    using assms(2,3) v by (cases n) auto
  moreover have "is_ws (CHR '' '')" by (simp add: is_ws_def)
  ultimately have "match_here (word, spaces) ?s = Some (n, rest)"
    using assms(3) tw by (simp add: match_here_def take_word Let_def)
  then have "find_match (word, spaces) ?s = Some (n, rest)" by (rule find_match_here)
  moreover have "normal_type (JStr t) = t \<and> map_of version_patterns t = Some (word, spaces)"
    using pattern_types assms(1) by fastforce
  ultimately show ?thesis
    using assms(3) by (simp add: simplify_version_def Let_def)
qed

theorem version_number_found_witness:
  "vi_short (simplify_version ''?'' (JStr ''PostgreSQL 14.5 on x86_64'') (JStr ''postgresql'')) = ''PostgreSQL 14.5''"
proof -
  have d: "(''postgresql'', ''PostgreSQL'', True) \<in> set version_patterns" by (simp add: version_patterns_def)
  have n: "list_all version_char ''14.5''" and r: "case '' on x86_64'' of [] \<Rightarrow> True | c # _ \<Rightarrow> \<not> version_char c"
    by (simp_all add: version_char_def char_class_defs)
  have "the (map_of version_names ''postgresql'') = ''PostgreSQL''" by (simp add: version_names_def)
  then show ?thesis
    using version_number_found [OF d n _ r, of "''?''"] by (simp add: Let_def)
qed

text \<open>The type of the TDSQL-C databases is not the key their pattern has: their versions are never cut down.\<close>

theorem tdsql_version_unsimplified:
  "s \<noteq> [] \<Longrightarrow> simplify_version unknown (JStr s) (JStr ''tdsql-c-mysql'') = cut_version s"
proof -
  have "map_of version_patterns (normal_type (JStr ''tdsql-c-mysql'')) = None" by code_simp
  then show "s \<noteq> [] \<Longrightarrow> ?thesis" by (simp add: simplify_version_def Let_def)
qed

section \<open>What a prompt tells\<close>

text \<open>
  The console's question quotes the statement unchanged, fenced as SQL, whatever it contains and whatever
  is known of the datasource.
\<close>

theorem console_prompt_quotes:
  "\<exists>a b. console_prompt tr database schema supports_schema ds sql
     = a @ ''```sql'' @ [CHR 0x0A] @ sql @ [CHR 0x0A] @ ''```'' @ b"
proof -
  have j: "\<exists>a b. join nl (xs @ x # y # z # ys) = a @ x @ nl @ y @ nl @ z @ b" for nl and xs ys :: "string list" and x y z
  proof (induction xs)
    case Nil
    have "join nl (x # y # z # ys) = [] @ x @ nl @ y @ nl @ z @ (if ys = [] then [] else nl @ join nl ys)"
      by (cases ys) auto
    then show ?case by (metis append_Nil)
  next
    case (Cons w xs)
    then obtain a b where "join nl (xs @ x # y # z # ys) = a @ x @ nl @ y @ nl @ z @ b" by blast
    then have "join nl ((w # xs) @ x # y # z # ys) = (w @ nl @ a) @ x @ nl @ y @ nl @ z @ b"
      using join_Cons [of "xs @ x # y # z # ys" nl w] by simp
    then show ?case by blast
  qed
  let ?xs = "map js_string (filter (\<lambda>l. l \<noteq> JNull) (console_opening tr database schema supports_schema ds))"
    and ?ys = "map js_string (filter (\<lambda>l. l \<noteq> JNull) (console_closing tr))"
  have "console_prompt tr database schema supports_schema ds sql = join [CHR 0x0A] (?xs @ ''```sql'' # sql # ''```'' # ?ys)"
    by (simp add: console_prompt_def)
  then show ?thesis using j [of "[CHR 0x0A]" ?xs "''```sql''" sql "''```''" ?ys] by presburger
qed

section \<open>Chats and their dialogs\<close>

definition dialogs_fresh :: "nat \<Rightarrow> ai_dialogs \<Rightarrow> bool" where
  "dialogs_fresh n d \<longleftrightarrow> n \<notin> set (dg_ready d) \<and> n \<notin> set (dg_running d) \<and> dg_session d \<noteq> Some n \<and> dg_top_sql d \<noteq> Some n"

text \<open>
  A dialog closed while its chat is still loading does not stop it: the chat runs on without a dialog, and
  leaving the page stops the chat about a session only, not the one about a statement and not the console's.
\<close>

theorem closed_dialog_keeps_chat:
  assumes "dialogs_fresh n d"
  shows "let d' = dialog_ready k n (hide_dialog (open_dialog k n d))
         in dg_shown d' = None \<and> n \<in> set (dg_running d') \<and> (n \<in> set (dg_running (leave_dialogs d')) \<longleftrightarrow> k \<noteq> SessionDialog)"
  using assms
  by (cases k) (auto simp: dialogs_fresh_def open_dialog_def hide_dialog_def dialog_ready_def leave_dialogs_def dialog_cleanup_def
      Let_def split: option.splits)

theorem closed_dialog_keeps_chat_witness:
  "let d' = dialog_ready ConsoleDialog 1 (hide_dialog (open_dialog ConsoleDialog 1
       \<lparr>dg_shown = None, dg_ready = [], dg_running = [], dg_session = None, dg_top_sql = None\<rparr>))
   in 1 \<in> set (dg_running (leave_dialogs d'))"
  using closed_dialog_keeps_chat [of 1 "\<lparr>dg_shown = None, dg_ready = [], dg_running = [], dg_session = None, dg_top_sql = None\<rparr>" ConsoleDialog]
  by (simp add: dialogs_fresh_def Let_def)

text \<open>
  A dialog closed after its chat is ready stops exactly that chat.
\<close>

theorem hide_stops_chat:
  assumes "dialogs_fresh n d"
  shows "let d' = hide_dialog (dialog_ready k n (open_dialog k n d))
         in dg_shown d' = None \<and> set (dg_running d') = set (dg_running (open_dialog k n d))"
  using assms
  by (cases k) (auto simp: dialogs_fresh_def open_dialog_def hide_dialog_def dialog_ready_def dialog_cleanup_def
      Let_def split: option.splits)

theorem hide_stops_chat_witness:
  "dg_running (hide_dialog (dialog_ready TopSqlDialog 1 (open_dialog TopSqlDialog 1
       \<lparr>dg_shown = None, dg_ready = [], dg_running = [], dg_session = None, dg_top_sql = None\<rparr>))) = []"
  using hide_stops_chat [of 1 "\<lparr>dg_shown = None, dg_ready = [], dg_running = [], dg_session = None, dg_top_sql = None\<rparr>" TopSqlDialog]
  by (simp add: dialogs_fresh_def Let_def open_dialog_def)

end
