(* ===== verification/HtmlForm.thy ===== *)
theory HtmlForm
  imports JsNumber
begin

text \<open>
  The controls of an HTML form as the pages read them back: what the value of an input is after it was written
  as an attribute. Browsers strip line breaks from one-line inputs, empty a number input whose text is not a
  floating-point number, normalise line breaks of a text area and drop its first one, and select the last
  option marked as selected, or the first one of a select box that marks none.
\<close>

definition is_newline :: "char \<Rightarrow> bool" where
  "is_newline c \<longleftrightarrow> c = CHR 0x0A \<or> c = CHR 0x0D"

definition text_input :: "string \<Rightarrow> string" where
  "text_input s = filter (\<lambda>c. \<not> is_newline c) s"

definition valid_float :: "string \<Rightarrow> bool" where
  "valid_float s \<longleftrightarrow> s \<noteq> [] \<and> hd s \<noteq> CHR ''+'' \<and> last s \<noteq> CHR ''.'' \<and> trim s = s
     \<and> (case number_of_str s of Fin _ \<Rightarrow> True | _ \<Rightarrow> False)"

definition number_input :: "string \<Rightarrow> string" where
  "number_input s = (if valid_float s then s else [])"

fun unix_newlines :: "string \<Rightarrow> string" where
  "unix_newlines [] = []"
| "unix_newlines [c] = [if c = CHR 0x0D then CHR 0x0A else c]"
| "unix_newlines (c # d # cs) =
     (if c = CHR 0x0D then CHR 0x0A # unix_newlines (if d = CHR 0x0A then cs else d # cs)
      else c # unix_newlines (d # cs))"

definition textarea_value :: "string \<Rightarrow> string" where
  "textarea_value s = (case unix_newlines s of [] \<Rightarrow> [] | c # cs \<Rightarrow> if c = CHR 0x0A then cs else c # cs)"

text \<open>A select box: its option values, and those written with the attribute \<^verbatim>\<open>selected\<close>.\<close>

definition select_value :: "string list \<Rightarrow> (string \<Rightarrow> bool) \<Rightarrow> string" where
  "select_value options chosen =
     (case filter chosen options of
        [] \<Rightarrow> (case options of [] \<Rightarrow> [] | opt # _ \<Rightarrow> opt)
      | opts \<Rightarrow> last opts)"

text \<open>\<^verbatim>\<open>String(v || '')\<close> written into an attribute and escaped: the browser reads the same text back.\<close>

definition attr_text :: "js \<Rightarrow> string" where
  "attr_text v = text_or_empty v"

section \<open>Laws\<close>

lemma text_input_plain: "list_all (\<lambda>c. \<not> is_newline c) s \<Longrightarrow> text_input s = s"
  by (induction s) (auto simp: text_input_def)

lemma text_input_idem [simp]: "text_input (text_input s) = text_input s"
  by (simp add: text_input_def)

lemma newline_ws: "is_newline c \<Longrightarrow> is_ws c"
  by (auto simp: is_newline_def is_ws_def)

lemma trim_member: "c \<in> set (trim s) \<Longrightarrow> c \<in> set s"
  unfolding trim_def trim_end_def by (auto dest!: set_dropWhileD)

lemma text_input_trim [simp]: "text_input (trim (text_input s)) = trim (text_input s)"
proof (rule text_input_plain)
  have "\<not> is_newline c" if "c \<in> set (trim (text_input s))" for c
    using trim_member [OF that] by (simp add: text_input_def)
  then show "list_all (\<lambda>c. \<not> is_newline c) (trim (text_input s))" by (simp add: list_all_iff)
qed

lemma select_unique:
  assumes "x \<in> set options" and "\<And>y. y \<in> set options \<Longrightarrow> chosen y = (y = x)"
  shows "select_value options chosen = x"
proof -
  have "filter chosen options \<noteq> []" using assms by (auto simp: filter_empty_conv)
  moreover from last_in_set [OF this] have "last (filter chosen options) = x" using assms(2) by auto
  ultimately show ?thesis unfolding select_value_def by (cases "filter chosen options") simp_all
qed

lemmas select_chosen = select_unique [where chosen = "\<lambda>y. y = x" for x, OF _ HOL.refl]

section \<open>Integers written and read back\<close>

lemma str_of_rat_int: "str_of_rat (of_int i) = str_of_int i"
  by (simp add: str_of_rat_def str_of_int_def quotient_of_int)

lemma trim_plain:
  assumes "s = [] \<or> (\<not> is_ws (hd s) \<and> \<not> is_ws (last s))"
  shows "trim s = s"
proof (cases s rule: rev_cases)
  case Nil
  then show ?thesis by simp
next
  case (snoc ys y)
  then have "dropWhile is_ws s = s" using assms by (intro dropWhile_hd_not) (auto split: list.splits)
  then show ?thesis using assms snoc by (simp add: trim_def trim_end_def)
qed

lemma str_of_nat_ends: "is_digit (hd (str_of_nat n))" "is_digit (last (str_of_nat n))"
  using str_of_nat_digits [of n] str_of_nat_nonempty [of n] by (meson hd_in_set last_in_set)+

lemma trim_str_of_int: "trim (str_of_int i) = str_of_int i"
  using str_of_nat_ends [of "nat (- i)"] str_of_nat_ends [of "nat i"] digit_not_ws
  by (intro trim_plain) (auto simp: str_of_int_def is_ws_def)

lemma all_digits_span:
  "takeWhile is_digit (str_of_nat n) = str_of_nat n" "dropWhile is_digit (str_of_nat n) = []"
  using str_of_nat_digits [of n] by (simp_all add: takeWhile_eq_all_conv dropWhile_eq_Nil_conv)

lemma digits_not_infinity: "\<not> starts_with (str_of_nat n) ''Infinity''"
proof
  assume "starts_with (str_of_nat n) ''Infinity''"
  then obtain t where "str_of_nat n = ''Infinity'' @ t" by (auto simp: starts_with_iff)
  then have "CHR ''I'' \<in> set (str_of_nat n)" by simp
  then show False using str_of_nat_digits [of n] by (auto simp: is_digit_def char_code_def)
qed

lemma number_of_str_int [simp]: "number_of_str (str_of_int i) = Fin (of_int i)"
proof -
  have e: "scan_exponent [] = (0, [])" by (simp add: scan_exponent_def)
  show ?thesis
  proof (cases "i < 0")
    case True
    then have "scan_decimal (str_of_int i) = Some (Fin (of_int i), [])"
      by (simp add: scan_decimal_def str_of_int_def all_digits_span digits_not_infinity e digits_value_def
          scale10_def Let_def)
    moreover have "str_of_int i \<noteq> []" using True by (simp add: str_of_int_def)
    ultimately show ?thesis by (simp add: number_of_str_def trim_str_of_int Let_def)
  next
    case False
    obtain c r where c: "str_of_nat (nat i) = c # r" using str_of_nat_nonempty by (cases "str_of_nat (nat i)") auto
    then have "c \<noteq> CHR ''-'' \<and> c \<noteq> CHR ''+''" using str_of_nat_ends(1) [of "nat i"] digit_not_ws by simp
    moreover have "nat_of_str (c # r) = nat i" using c by (metis nat_of_str_of_nat)
    ultimately have "scan_decimal (str_of_int i) = Some (Fin (of_int i), [])"
      using False c all_digits_span [of "nat i"] digits_not_infinity [of "nat i"]
      by (simp add: scan_decimal_def str_of_int_def e digits_value_def scale10_def Let_def)
    moreover have "str_of_int i \<noteq> []" using False by (simp add: str_of_int_def)
    ultimately show ?thesis by (simp add: number_of_str_def trim_str_of_int Let_def)
  qed
qed

lemma number_input_int [simp]: "number_input (str_of_int i) = str_of_int i"
proof -
  have "hd (str_of_int i) \<noteq> CHR ''+'' \<and> last (str_of_int i) \<noteq> CHR ''.'' \<and> str_of_int i \<noteq> []"
    using str_of_nat_ends [of "nat (- i)"] str_of_nat_ends [of "nat i"] digit_not_ws
    by (auto simp: str_of_int_def char_class_defs)
  then show ?thesis by (simp add: number_input_def valid_float_def trim_str_of_int)
qed

lemma str_of_int_nonempty [simp]: "str_of_int i \<noteq> []"
  by (simp add: str_of_int_def)

lemma parse_int_int [simp]: "parse_int_str (str_of_int i) = Fin (of_int i)"
proof (cases "i < 0")
  case True
  have s: "\<not> is_ws (CHR ''-'')" by (simp add: is_ws_def)
  have "digits_value (str_of_nat n) = of_nat n" for n by (simp add: digits_value_def)
  then show ?thesis using True s by (simp add: str_of_int_def parse_int_str_def Let_def all_digits_span)
next
  case False
  then show ?thesis using parse_int_of_nat [of "nat i"] by (simp add: str_of_int_def)
qed

lemma str_of_int_inject [simp]: "str_of_int i = str_of_int j \<longleftrightarrow> i = j"
proof
  assume "str_of_int i = str_of_int j"
  then have "Fin (of_int i) = Fin (of_int j)" by (metis parse_int_int)
  then show "i = j" by simp
qed simp

lemma js_string_int: "js_string (JInt i) = str_of_int i"
  by (simp add: str_of_rat_int)

lemma text_or_empty_str [simp]: "text_or_empty (JStr s) = s" "text_or_empty JNull = []"
  by (cases s) (simp_all add: text_or_empty_def js_or_def)

lemma attr_text_int: "attr_text (JInt i) = (if i = 0 then [] else str_of_int i)"
  using str_of_rat_int [of i] by (simp add: attr_text_def text_or_empty_def js_or_def)

end
