(* ===== verification/AlertSilence.thy ===== *)
theory AlertSilence
  imports HtmlForm
begin

text \<open>
  Silencing the alerts of a datasource, from the page of the alerts (pages/alerts.js) and from the list of the
  datasources (pages/datasources.js): what is known of the present silence, the hours a dialog proposes, and the
  check of the hours typed.  \<open>parse\<close> is the browser's reading of a date, in milliseconds.
\<close>

record silence_state =
  ss_silenced :: bool
  ss_remaining :: "rat option"
  ss_until :: "int option"
  ss_reason :: js

definition silence_of :: "(string \<Rightarrow> int option) \<Rightarrow> int \<Rightarrow> js \<Rightarrow> js \<Rightarrow> silence_state" where
  "silence_of parse now until reason =
     (if \<not> truthy until then \<lparr>ss_silenced = False, ss_remaining = None, ss_until = None, ss_reason = js_or reason JNull\<rparr>
      else case parse (js_string until) of
             None \<Rightarrow> \<lparr>ss_silenced = False, ss_remaining = None, ss_until = None, ss_reason = js_or reason JNull\<rparr>
           | Some t \<Rightarrow>
               if t - now \<le> 0
               then \<lparr>ss_silenced = False, ss_remaining = None, ss_until = Some t, ss_reason = js_or reason JNull\<rparr>
               else \<lparr>ss_silenced = True, ss_remaining = Some (of_int \<lfloor>(of_int (t - now) :: rat) / 3600000 * 100 + 1/2\<rfloor> / 100),
                     ss_until = Some t, ss_reason = js_or reason JNull\<rparr>)"

definition event_silence :: "(string \<Rightarrow> int option) \<Rightarrow> int \<Rightarrow> js \<Rightarrow> silence_state" where
  "event_silence parse now event = silence_of parse now (field event ''datasource_silence_until'') (field event ''datasource_silence_reason'')"

definition datasource_silence :: "(string \<Rightarrow> int option) \<Rightarrow> int \<Rightarrow> js \<Rightarrow> silence_state" where
  "datasource_silence parse now ds = silence_of parse now (field ds ''silence_until'') (field ds ''silence_reason'')"

text \<open>The hours as the two pages print them: one digit after the point, or as many as there are, at most two.\<close>

definition alert_hours :: "rat option \<Rightarrow> string" where
  "alert_hours h = (case h of None \<Rightarrow> ''0'' | Some q \<Rightarrow> to_fixed 1 (Fin q))"

definition datasource_hours :: "rat option \<Rightarrow> string" where
  "datasource_hours h = (case h of None \<Rightarrow> ''0'' | Some q \<Rightarrow> str_of_num (parse_float_str (to_fixed 2 (Fin q))))"

definition alert_default_hours :: "silence_state \<Rightarrow> string" where
  "alert_default_hours s = (if ss_silenced s then alert_hours (ss_remaining s) else ''1'')"

definition datasource_default_hours :: "silence_state \<Rightarrow> string" where
  "datasource_default_hours s = (if ss_silenced s then datasource_hours (ss_remaining s) else ''1'')"

text \<open>The check of the dialog, the same on both pages: an error, or the request.\<close>

datatype silence_answer = InvalidDuration | OutOfRange | SetSilence rat js

definition set_silence :: "string \<Rightarrow> string \<Rightarrow> silence_answer" where
  "set_silence hours reason =
     (case parse_float_str hours of
        Fin q \<Rightarrow> if q < 1/2 \<or> 240 < q then OutOfRange else SetSilence q (js_or (JStr (trim reason)) JNull)
      | _ \<Rightarrow> InvalidDuration)"

definition set_datasource_silence :: "string \<Rightarrow> string \<Rightarrow> silence_answer" where
  "set_datasource_silence = set_silence"

section \<open>Reading a number with one digit after the point\<close>

lemma scan_fixed: "scan_decimal (str_of_nat n @ CHR ''.'' # str_of_nat d) = Some (Fin (of_nat (nat_of_str (str_of_nat n @ str_of_nat d)) / 10 ^ length (str_of_nat d)), [])"
proof -
  have dn: "\<forall>c \<in> set (str_of_nat n). is_digit c" and dd: "\<forall>c \<in> set (str_of_nat d). is_digit c"
    by (rule str_of_nat_digits)+
  have p: "\<not> is_digit (CHR ''.'')" by (simp add: is_digit_def char_code_def)
  obtain c r where c: "str_of_nat n = c # r" using str_of_nat_nonempty [of n] by (cases "str_of_nat n") auto
  then have cd: "is_digit c" using dn by simp
  then have cw: "c \<noteq> CHR ''-''" "c \<noteq> CHR ''+''" "c \<noteq> CHR ''I''" using digit_not_ws [OF cd] by (auto simp: is_digit_def char_code_def)
  have dr: "\<forall>c \<in> set r. is_digit c" using dn c by simp
  have tw: "takeWhile is_digit (r @ CHR ''.'' # str_of_nat d) = r"
    "dropWhile is_digit (r @ CHR ''.'' # str_of_nat d) = CHR ''.'' # str_of_nat d"
    using dr p by (simp_all add: takeWhile_append2 dropWhile_append2)
  have td: "takeWhile is_digit (str_of_nat d) = str_of_nat d" "dropWhile is_digit (str_of_nat d) = []"
    using dd by simp_all
  have i: "\<not> starts_with (c # r @ CHR ''.'' # str_of_nat d) ''Infinity''"
    using cw(3) by (simp add: starts_with_def)
  show ?thesis
    unfolding c scan_decimal_def
    by (simp add: Let_def scan_exponent_def scale10_def digits_value_def cd cw tw td i power_int_def)
qed

text \<open>
  The dialog of a silence that is about to end proposes hours it refuses itself: with less than 26.7 minutes
  left the proposed text is below the least duration, and confirming it unchanged is an error.
\<close>

theorem ending_silence_refused:
  assumes "s \<noteq> []" and "parse s = Some t" and "0 < t - now" and "t - now < 1602000"
  shows "set_silence (alert_default_hours (silence_of parse now (JStr s) reason)) typed = OutOfRange"
proof -
  define k where "k = \<lfloor>(of_int (t - now) :: rat) / 3600000 * 100 + 1/2\<rfloor>"
  define x :: rat where "x = of_int (t - now)"
  have "x < of_int 1602000" "of_int 0 < x" unfolding x_def using assms(3,4) by (simp_all only: of_int_less_iff)
  then have "x < 1602000" "0 < x" by (simp_all only: of_int_numeral of_int_0)
  then have r: "x / 3600000 * 100 + 1/2 < 45" "0 \<le> x / 3600000 * 100 + 1/2" by simp_all
  then have k: "0 \<le> k" "k \<le> 44" unfolding k_def x_def [symmetric] by linarith+
  define q :: rat where "q = of_int k / 100"
  have q: "0 \<le> q" "q \<le> 44/100" using k by (simp_all add: q_def)
  obtain n where n: "fixed_digits 1 q = str_of_nat (n div 10) @ CHR ''.'' # str_of_nat (n mod 10)" "\<bar>of_nat n / 10 - q\<bar> \<le> 1/20"
    using fixed_digits_close [OF q(1)] by blast
  have "(of_nat n :: rat) / 10 \<le> 49/100" using n(2) q by linarith
  then have "(of_nat n :: rat) \<le> of_nat 4 + 9/10" by simp
  then have n4: "n \<le> 4" by linarith
  have "\<forall>n \<in> set [0..<5]. nat_of_str (str_of_nat 0 @ str_of_nat n) = n \<and> length (str_of_nat n) = 1" by code_simp
  then have one: "nat_of_str (str_of_nat 0 @ str_of_nat n) = n" "length (str_of_nat n) = 1" using n4 by simp_all
  obtain c r where c: "str_of_nat 0 = c # r" "\<not> is_ws c"
    using str_of_nat_digits [of 0] digit_not_ws str_of_nat_nonempty [of 0] by (cases "str_of_nat 0") auto
  have "parse_float_str (fixed_digits 1 q) = Fin (of_nat n / 10)"
    using scan_fixed [of 0 n] n4 c unfolding n(1) one by (simp add: parse_float_str_def one)
  moreover have "silence_of parse now (JStr s) reason = \<lparr>ss_silenced = True, ss_remaining = Some q, ss_until = Some t, ss_reason = js_or reason JNull\<rparr>"
    using assms by (simp add: silence_of_def q_def k_def)
  ultimately show ?thesis
    using q n4 by (simp add: set_silence_def alert_default_hours_def alert_hours_def)
qed

theorem ending_silence_refused_witness:
  "set_silence (alert_default_hours (silence_of (\<lambda>s. Some 1600000) 0 (JStr ''soon'') JNull)) [] = OutOfRange"
  using ending_silence_refused [of "''soon''" "\<lambda>s. Some 1600000" 1600000 0] by simp

end
