(* ===== verification/AlertTemplates.thy ===== *)
theory AlertTemplates
  imports HtmlForm
begin

text \<open>
  \<^verbatim>\<open>frontend/js/pages/alert-templates.js\<close>: the editor of an alert template. A stored configuration is
  normalised, its threshold rules are written into the controls of a form, and submitting reads the controls
  back, checks them and builds the payload of the request. The catalog of texts is a parameter \<open>tr\<close>; an error
  is a value, with what its text names. Stored levels are objects; template names are not those of
  \<^verbatim>\<open>Object.prototype\<close>.
\<close>

section \<open>Defaults\<close>

definition severities :: "string list" where
  "severities = [''low'', ''medium'', ''high'', ''critical'']"

definition level_of :: "js \<Rightarrow> js \<Rightarrow> js \<Rightarrow> js" where
  "level_of severity threshold duration =
     JObj [(''severity'', severity), (''threshold'', threshold), (''duration'', duration)]"

text \<open>A rule with a threshold and a duration for each severity.\<close>

definition four_levels :: "(int \<times> int) list \<Rightarrow> js" where
  "four_levels ps =
     JObj [(''levels'', JArr (map2 (\<lambda>s (t, d). level_of (JStr s) (JInt t) (JInt d)) severities ps))]"

definition default_rules :: js where
  "default_rules = JObj
     [(''cpu_usage'', four_levels [(60, 300), (80, 60), (85, 60), (90, 60)]),
      (''disk_usage'', four_levels [(80, 0), (85, 0), (90, 0), (95, 0)]),
      (''connections_active'', four_levels [(20, 60), (30, 60), (40, 60), (50, 60)])]"

definition default_template :: js where
  "default_template = JObj
     [(''alert_engine_mode'', JStr ''threshold''), (''threshold_rules'', default_rules),
      (''baseline_config'', JObj [(''enabled'', JBool True)]),
      (''event_ai_config'', JObj [(''enabled'', JBool True), (''trigger_on_create'', JBool True),
         (''trigger_on_severity_upgrade'', JBool True), (''trigger_on_recovery'', JBool False),
         (''stale_recheck_minutes'', JInt 30)]),
      (''ai_policy_text'', JNull), (''alert_ai_model_id'', JNull)]"

section \<open>Normalising a stored configuration\<close>

text \<open>\<^verbatim>\<open>parseInt(String(v || '60'), 10) || 60\<close>.\<close>

definition duration_or_60 :: "js \<Rightarrow> js" where
  "duration_or_60 v = js_or (JNum (parse_int_str (js_string (js_or v (JStr ''60''))))) (JInt 60)"

definition normalize_level :: "js \<Rightarrow> js" where
  "normalize_level level =
     level_of (field level ''severity'') (JNum (parse_int_str (js_string (field level ''threshold''))))
       (duration_or_60 (field level ''duration''))"

definition metric_keys :: "string list" where
  "metric_keys = [''cpu_usage'', ''disk_usage'', ''connections_active'']"

definition normalize_metric :: "js \<Rightarrow> string \<Rightarrow> (string \<times> js) list" where
  "normalize_metric rules key =
     (case field (field rules key) ''levels'' of
        JArr levels \<Rightarrow> [(key, JObj [(''levels'', JArr (map normalize_level levels))])]
      | _ \<Rightarrow> [])"

definition normalize_rules :: "js \<Rightarrow> js" where
  "normalize_rules rules =
     (let custom = field rules ''custom_expression'' in
      if \<not> truthy rules \<or> \<not> typeof_object rules then json_clone default_rules
      else if truthy custom \<and> typeof_object custom
      then JObj [(''custom_expression'',
                  JObj [(''expression'', JStr (trim (text_or_empty (field custom ''expression'')))),
                        (''duration'', duration_or_60 (field custom ''duration''))])]
      else JObj (concat (map (normalize_metric rules) metric_keys)))"

definition normalize_template :: "js \<Rightarrow> js" where
  "normalize_template config =
     (let payload = (if truthy config \<and> typeof_object config then config else JObj []);
          over = (\<lambda>k. spread (field default_template k) (js_or (field payload k) (JObj [])))
      in JObj
        [(''alert_engine_mode'', if field payload ''alert_engine_mode'' = JStr ''ai'' then JStr ''ai'' else JStr ''threshold''),
         (''threshold_rules'', normalize_rules (field payload ''threshold_rules'')),
         (''baseline_config'', over ''baseline_config''), (''event_ai_config'', over ''event_ai_config''),
         (''ai_policy_text'', js_or (field payload ''ai_policy_text'') JNull),
         (''alert_ai_model_id'', js_or (field payload ''alert_ai_model_id'') JNull)])"

section \<open>The rules in the form\<close>

text \<open>What the editor shows of one metric: whether it is on, and threshold and duration of each severity.\<close>

record metric_state =
  ms_enabled :: bool
  ms_levels :: "(string \<times> js \<times> js) list"

definition fallback_levels :: "bool \<Rightarrow> (string \<times> js \<times> js) list" where
  "fallback_levels configured =
     (if configured
      then [(''low'', JInt 80, JInt 60), (''medium'', JInt 80, JInt 60), (''high'', JInt 90, JInt 60), (''critical'', JInt 95, JInt 60)]
      else [(''low'', JInt 80, JInt 60), (''medium'', JInt 80, JInt 120), (''high'', JInt 85, JInt 60), (''critical'', JInt 90, JInt 120)])"

text \<open>Of two levels of the same severity the last one counts; a missing one is filled in.\<close>

definition metric_rule_state :: "js \<Rightarrow> metric_state" where
  "metric_rule_state rule =
     (case field rule ''levels'' of
        JArr levels \<Rightarrow>
          \<lparr>ms_enabled = True,
           ms_levels = map (\<lambda>(s, t, d). case find (\<lambda>l. js_string (field l ''severity'') = s) (rev levels) of
                Some l \<Rightarrow> (s, field l ''threshold'', field l ''duration'')
              | None \<Rightarrow> (s, t, d)) (fallback_levels True)\<rparr>
      | _ \<Rightarrow> \<lparr>ms_enabled = False, ms_levels = fallback_levels False\<rparr>)"

record editor_state =
  es_custom :: bool
  es_expression :: js
  es_duration :: js
  es_metrics :: "metric_state list"

definition threshold_editor_state :: "js \<Rightarrow> editor_state" where
  "threshold_editor_state rules =
     (let norm = normalize_rules rules; custom = field norm ''custom_expression'' in
      \<lparr>es_custom = truthy (field custom ''expression''),
       es_expression = js_or (field custom ''expression'') (JStr []),
       es_duration = js_or (field custom ''duration'') (JInt 60),
       es_metrics = map (\<lambda>k. metric_rule_state (field norm k)) metric_keys\<rparr>)"

text \<open>The controls: a row for each severity with its check box and its two number inputs.\<close>

record level_row =
  lv_severity :: string
  lv_enabled :: bool
  lv_threshold :: string
  lv_duration :: string

record metric_rows =
  mr_enabled :: bool
  mr_levels :: "level_row list"

record rules_form =
  rf_custom :: bool
  rf_expression :: string
  rf_duration :: string
  rf_metrics :: "metric_rows list"

text \<open>\<^verbatim>\<open>this._escapeAttr(value)\<close> as the browser reads it back.\<close>

definition attr_value :: "js \<Rightarrow> string" where
  "attr_value v = js_string (js_coalesce v (JStr []))"

definition level_editor :: "string \<times> js \<times> js \<Rightarrow> level_row" where
  "level_editor = (\<lambda>(s, t, d).
     \<lparr>lv_severity = s, lv_enabled = (t \<noteq> JStr []), lv_threshold = number_input (attr_value t),
      lv_duration = number_input (attr_value d)\<rparr>)"

definition metric_level_editor :: "metric_state \<Rightarrow> metric_rows" where
  "metric_level_editor state =
     \<lparr>mr_enabled = ms_enabled state, mr_levels = map level_editor (ms_levels state)\<rparr>"

definition show_rules :: "js \<Rightarrow> rules_form" where
  "show_rules rules =
     (let state = threshold_editor_state rules in
      \<lparr>rf_custom = es_custom state, rf_expression = textarea_value (attr_value (es_expression state)),
       rf_duration = number_input (attr_value (es_duration state)),
       rf_metrics = map metric_level_editor (es_metrics state)\<rparr>)"

section \<open>The form read back\<close>

datatype template_error =
    CustomExpressionRequired
  | ThresholdOrder string string string
  | BaseThresholdRequired
  | NameRequired
  | ThresholdRequired
  | AiRuleRequired

definition metric_fields :: "(string \<times> string \<times> rat option) list" where
  "metric_fields = [(''cpu_usage'', ''cpu'', Some 100), (''disk_usage'', ''disk'', Some 100),
     (''connections_active'', ''connections_active'', None)]"

text \<open>A level that counts: its severity, threshold and duration.\<close>

definition collect_level :: "rat option \<Rightarrow> level_row \<Rightarrow> (string \<times> rat \<times> rat) option" where
  "collect_level limit row =
     (if \<not> lv_enabled row then None
      else case parse_int_str (lv_threshold row) of
             Fin t \<Rightarrow>
               if t \<le> 0 \<or> (case limit of Some m \<Rightarrow> t > m | None \<Rightarrow> False) then None
               else Some (lv_severity row, t,
                      case parse_int_str (lv_duration row) of Fin d \<Rightarrow> if d > 0 then d else 60 | _ \<Rightarrow> 60)
           | _ \<Rightarrow> None)"

definition severity_order :: "string \<Rightarrow> nat" where
  "severity_order s = (case map_of (zip severities [1, 2, 3, 4]) s of Some n \<Rightarrow> n | None \<Rightarrow> 0)"

text \<open>The first neighbours whose thresholds decrease.\<close>

fun misordered :: "(string \<times> rat \<times> rat) list \<Rightarrow> (string \<times> string) option" where
  "misordered (a # b # ls) = (if fst (snd a) > fst (snd b) then Some (fst a, fst b) else misordered (b # ls))"
| "misordered _ = None"

definition level_js :: "string \<times> rat \<times> rat \<Rightarrow> js" where
  "level_js = (\<lambda>(s, t, d). level_of (JStr s) (JNum (Fin t)) (JNum (Fin d)))"

text \<open>
  The callback for one metric. Its \<^verbatim>\<open>return null\<close> for decreasing thresholds ends the callback only: the metric
  is left out and the others go on.
\<close>

definition collect_metric ::
  "template_error list \<times> (string \<times> js) list \<Rightarrow> (string \<times> string \<times> rat option) \<times> metric_rows
   \<Rightarrow> template_error list \<times> (string \<times> js) list" where
  "collect_metric acc fm =
     (case (acc, fm) of ((errs, rules), ((metric, name, limit), rows)) \<Rightarrow>
        if \<not> mr_enabled rows then (errs, rules)
        else let levels = List.map_filter (collect_level limit) (mr_levels rows) in
          if levels = [] then (errs, rules)
          else case misordered (sort_key (\<lambda>l. severity_order (fst l)) levels) of
                 Some (lower, upper) \<Rightarrow> (errs @ [ThresholdOrder name lower upper], rules)
               | None \<Rightarrow> (errs, AList.update metric (JObj [(''levels'', JArr (map level_js levels))]) rules))"

text \<open>The errors shown, and the rules, if any.\<close>

definition build_rules :: "rules_form \<Rightarrow> template_error list \<times> js option" where
  "build_rules f =
     (if rf_custom f
      then let expression = trim (rf_expression f);
               duration = js_or (JNum (parse_int_str (if rf_duration f = [] then ''60'' else rf_duration f))) (JInt 60)
           in if expression = [] then ([CustomExpressionRequired], None)
              else ([], Some (JObj [(''custom_expression'', JObj [(''expression'', JStr expression), (''duration'', duration)])]))
      else case foldl collect_metric ([], []) (zip metric_fields (rf_metrics f)) of
             (errs, rules) \<Rightarrow> if rules = [] then (errs @ [BaseThresholdRequired], None) else (errs, Some (JObj rules)))"

section \<open>Built-in texts\<close>

text \<open>
  The names, descriptions and rules of the templates that the server creates, stored in Chinese, as UTF-8: they
  are shown in the language of the user, and stored again as they were unless the user changed them.
\<close>

definition builtin_texts :: "(string \<times> string) list" where
  "builtin_texts =
     [(utf8 [
        230, 160, 135, 229, 135, 134, 231, 148, 159, 228, 186, 167, 229, 145, 138, 232, 173, 166],
       ''standardName''),
      (utf8 [
        233, 128, 130, 229, 144, 136, 229, 164, 167, 229, 164, 154, 230, 149, 176, 231, 148, 159, 228, 186, 167,
        229, 186, 147, 239, 188, 140, 229, 144, 175, 231, 148, 168, 233, 152, 136, 229, 128, 188, 229, 145, 138,
        232, 173, 166, 227, 128, 129, 229, 174, 158, 228, 190, 139, 229, 159, 186, 231, 186, 191, 229, 146, 140,
        228, 186, 139, 228, 187, 182, 231, 186, 167, 32, 65, 73, 32, 232, 175, 138, 230, 150, 173, 227, 128, 130],
       ''standardDescription''),
      (utf8 [
        65, 73, 32, 230, 153, 186, 232, 131, 189, 229, 136, 164, 232, 173, 166],
       ''aiName''),
      (utf8 [
        233, 128, 130, 229, 144, 136, 229, 184, 140, 230, 156, 155, 229, 135, 143, 229, 176, 145, 231, 161, 172,
        231, 188, 150, 231, 160, 129, 233, 152, 136, 229, 128, 188, 231, 154, 132, 229, 156, 186, 230, 153, 175,
        239, 188, 140, 231, 148, 177, 32, 65, 73, 32, 231, 187, 147, 229, 144, 136, 232, 182, 139, 229, 138,
        191, 228, 184, 142, 228, 184, 138, 228, 184, 139, 230, 150, 135, 229, 129, 154, 230, 156, 128, 231, 187,
        136, 229, 136, 164, 232, 173, 166, 227, 128, 130],
       ''aiDescription''),
      (utf8 [
        232, 189, 187, 233, 135, 143, 229, 188, 128, 229, 143, 145, 229, 145, 138, 232, 173, 166],
       ''devName''),
      (utf8 [
        233, 128, 130, 229, 144, 136, 230, 181, 139, 232, 175, 149, 47, 229, 188, 128, 229, 143, 145, 231, 142,
        175, 229, 162, 131, 239, 188, 140, 233, 152, 136, 229, 128, 188, 230, 155, 180, 229, 174, 189, 230, 157,
        190, 239, 188, 140, 233, 187, 152, 232, 174, 164, 229, 133, 179, 233, 151, 173, 229, 159, 186, 231, 186,
        191, 227, 128, 130],
       ''devDescription''),
      (utf8 [
        232, 175, 183, 231, 187, 147, 229, 144, 136, 32, 67, 80, 85, 227, 128, 129, 231, 163, 129, 231, 155,
        152, 228, 189, 191, 231, 148, 168, 231, 142, 135, 227, 128, 129, 230, 180, 187, 232, 183, 131, 232, 191,
        158, 230, 142, 165, 230, 149, 176, 229, 143, 138, 230, 156, 128, 232, 191, 145, 32, 49, 53, 32, 229,
        136, 134, 233, 146, 159, 232, 182, 139, 229, 138, 191, 229, 136, 164, 230, 150, 173, 232, 175, 165, 229,
        174, 158, 228, 190, 139, 230, 152, 175, 229, 144, 166, 229, 164, 132, 228, 186, 142, 230, 152, 142, 230,
        152, 190, 229, 188, 130, 229, 184, 184, 231, 138, 182, 230, 128, 129, 227, 128, 130, 229, 143, 170, 230,
        156, 137, 229, 156, 168, 229, 188, 130, 229, 184, 184, 230, 140, 129, 231, 187, 173, 227, 128, 129, 229,
        189, 177, 229, 147, 141, 230, 137, 169, 229, 164, 167, 230, 136, 150, 233, 163, 142, 233, 153, 169, 232,
        190, 131, 233, 171, 152, 230, 151, 182, 230, 137, 141, 232, 167, 166, 229, 143, 145, 229, 145, 138, 232,
        173, 166, 239, 188, 155, 232, 139, 165, 229, 143, 170, 230, 152, 175, 231, 159, 173, 230, 151, 182, 230,
        138, 150, 229, 138, 168, 230, 136, 150, 230, 142, 165, 232, 191, 145, 233, 152, 136, 229, 128, 188, 228,
        189, 134, 232, 175, 129, 230, 141, 174, 228, 184, 141, 232, 182, 179, 239, 188, 140, 229, 136, 153, 228,
        184, 141, 232, 167, 166, 229, 143, 145, 229, 145, 138, 232, 173, 166, 227, 128, 130],
       ''aiPolicy'')]"


definition localized_text :: "(string \<Rightarrow> string) \<Rightarrow> js \<Rightarrow> string" where
  "localized_text tr v =
     (let source = text_or_empty v in
      case map_of builtin_texts source of Some key \<Rightarrow> tr (''builtIns.'' @ key) | None \<Rightarrow> source)"

definition restore_text :: "(string \<Rightarrow> string) \<Rightarrow> js \<Rightarrow> string \<Rightarrow> string" where
  "restore_text tr v submitted =
     (let original = text_or_empty v
      in if original \<noteq> [] \<and> submitted = localized_text tr (JStr original) then original else submitted)"

section \<open>The whole form\<close>

record template_form =
  tp_name :: string
  tp_description :: string
  tp_mode :: string
  tp_rules :: rules_form
  tp_policy :: string
  tp_model :: string
  tp_baseline :: bool
  tp_event_ai :: bool
  tp_enabled :: bool
  tp_default :: bool

definition open_template_form :: "(string \<Rightarrow> string) \<Rightarrow> js list \<Rightarrow> js \<Rightarrow> template_form" where
  "open_template_form tr models template =
     (let config = normalize_template (field template ''template_config'') in
      \<lparr>tp_name = text_input (localized_text tr (field template ''name'')),
       tp_description = text_input (localized_text tr (field template ''description'')),
       tp_mode = select_value [''threshold'', ''ai''] (\<lambda>opt. (opt = ''ai'') = (field config ''alert_engine_mode'' = JStr ''ai'')),
       tp_rules = show_rules (field config ''threshold_rules''),
       tp_policy = textarea_value (localized_text tr (field config ''ai_policy_text'')),
       tp_model = select_value ([] # map (\<lambda>m. js_string (field m ''id'')) models)
         (\<lambda>opt. opt \<noteq> [] \<and> text_or_empty (field config ''alert_ai_model_id'') = opt),
       tp_baseline = truthy (field (field config ''baseline_config'') ''enabled''),
       tp_event_ai = (\<not> strict_eq (field (field config ''event_ai_config'') ''enabled'') (JBool False)),
       tp_enabled = (\<not> strict_eq (field template ''enabled'') (JBool False)),
       tp_default = truthy (field template ''is_default'')\<rparr>)"

definition next_config :: "(string \<Rightarrow> string) \<Rightarrow> js \<Rightarrow> js \<Rightarrow> template_form \<Rightarrow> js" where
  "next_config tr config rules f =
     (let mode = (if tp_mode f = [] then ''threshold'' else tp_mode f);
          policy = restore_text tr (field config ''ai_policy_text'') (trim (tp_policy f));
          c1 = set_field ''threshold_rules'' rules (set_field ''alert_engine_mode'' (JStr mode) (json_clone config));
          c2 = set_field ''baseline_config''
                 (spread (js_or (field c1 ''baseline_config'') (JObj [])) (JObj [(''enabled'', JBool (tp_baseline f))])) c1;
          c3 = set_field ''event_ai_config''
                 (spread (js_or (field c2 ''event_ai_config'') (JObj [])) (JObj [(''enabled'', JBool (tp_event_ai f)),
                    (''trigger_on_create'', JBool True), (''trigger_on_severity_upgrade'', JBool True)])) c2;
          c4 = set_field ''ai_policy_text'' (if mode = ''ai'' \<and> policy \<noteq> [] then JStr policy else JNull) c3;
          c5 = set_field ''alert_ai_model_id''
                 (if mode = ''ai'' \<and> tp_model f \<noteq> [] then JNum (parse_int_str (tp_model f)) else JNull) c4
      in set_field ''ai_shadow_enabled'' (JBool False) c5)"

datatype template_request = UpdateTemplate js js | CreateTemplate js | ToggleTemplate js js

text \<open>Submitting: the errors shown, and the request sent, if any.\<close>

definition submit_template ::
  "(string \<Rightarrow> string) \<Rightarrow> js \<Rightarrow> template_form \<Rightarrow> template_error list \<times> template_request option" where
  "submit_template tr template f =
     (let config = normalize_template (field template ''template_config'') in
      case build_rules (tp_rules f) of
        (errs, None) \<Rightarrow> (errs, None)
      | (errs, Some rules) \<Rightarrow>
          let conf = next_config tr config rules f;
              name = restore_text tr (field template ''name'') (trim (tp_name f));
              description = restore_text tr (field template ''description'') (trim (tp_description f));
              payload = JObj [(''name'', JStr name), (''description'', if description = [] then JNull else JStr description),
                (''enabled'', JBool (tp_enabled f)), (''is_default'', JBool (tp_default f)), (''template_config'', conf)]
          in if name = [] then (errs @ [NameRequired], None)
             else if obj_fields (field conf ''threshold_rules'') = [] then (errs @ [ThresholdRequired], None)
             else if field conf ''alert_engine_mode'' = JStr ''ai'' \<and> \<not> truthy (field conf ''ai_policy_text'')
             then (errs @ [AiRuleRequired], None)
             else (errs, Some (if truthy template then UpdateTemplate (field template ''id'') payload else CreateTemplate payload)))"

text \<open>The buttons of a card.\<close>

definition set_default_template :: "js list \<Rightarrow> js \<Rightarrow> template_request option" where
  "set_default_template templates template_id =
     map_option (\<lambda>t. UpdateTemplate template_id (JObj
         [(''name'', field t ''name''), (''description'', field t ''description''), (''enabled'', field t ''enabled''),
          (''is_default'', JBool True), (''template_config'', field t ''template_config'')]))
       (find (\<lambda>t. strict_eq (field t ''id'') template_id) templates)"

definition toggle_template :: "js \<Rightarrow> bool \<Rightarrow> template_request" where
  "toggle_template template_id enabled = ToggleTemplate template_id (JBool enabled)"

section \<open>The summary on a card\<close>

datatype summary_part = Expression string | Levels string nat | Threshold string js string

definition metric_summary :: "js \<Rightarrow> string \<Rightarrow> summary_part option" where
  "metric_summary rules key =
     (let rule = field rules key in
      case field rule ''levels'' of
        JArr levels \<Rightarrow> Some (Levels key (length levels))
      | _ \<Rightarrow> if nullish (field rule ''threshold'') then None
             else Some (Threshold key (field rule ''threshold'') (js_string (js_or (field rule ''duration'') (JStr ''-'')))))"

definition threshold_summary :: "js \<Rightarrow> summary_part list" where
  "threshold_summary rules =
     (let expression = field (field rules ''custom_expression'') ''expression'' in
      if truthy expression
      then let expr = join '' '' (filter (\<lambda>w. w \<noteq> []) (split_ws (js_string expression)))
           in [Expression (if length expr > 72 then take 72 expr @ ''...'' else expr)]
      else List.map_filter (metric_summary rules) metric_keys)"

section \<open>Rules that survive the editor\<close>

lemma parse_int_nonneg: "0 \<le> i \<Longrightarrow> parse_int_str (str_of_int i) = Fin (of_int i)"
  using parse_int_of_nat [of "nat i"] by (simp add: str_of_int_def)

lemma str_of_num_int [simp]: "str_of_rat (of_int i) = str_of_int i"
  by (rule str_of_rat_int)

lemma attr_value_int: "attr_value (JInt i) = str_of_int i"
  by (simp add: attr_value_def js_coalesce_def nullish_def)

lemma shown_int: "number_input (attr_value (JInt i)) = str_of_int i"
  by (simp add: attr_value_int)

definition plain_levels :: "(string \<times> int \<times> int) list \<Rightarrow> js list" where
  "plain_levels ls = map (\<lambda>(s, t, d). level_of (JStr s) (JInt t) (JInt d)) ls"

definition level_ok :: "rat option \<Rightarrow> int \<times> int \<Rightarrow> bool" where
  "level_ok limit p \<longleftrightarrow> 0 < fst p \<and> 0 < snd p \<and> (case limit of Some m \<Rightarrow> of_int (fst p) \<le> m | None \<Rightarrow> True)"

lemma level_of_fields [simp]:
  "field (level_of s t d) ''severity'' = s" "field (level_of s t d) ''threshold'' = t" "field (level_of s t d) ''duration'' = d"
  by (simp_all add: level_of_def)

lemma duration_kept: "0 < d \<Longrightarrow> duration_or_60 (JInt d) = JInt d"
  by (simp add: duration_or_60_def js_or_def parse_int_nonneg)

lemma normalize_level_int: "0 < t \<Longrightarrow> 0 < d \<Longrightarrow> normalize_level (level_of s (JInt t) (JInt d)) = level_of s (JInt t) (JInt d)"
  by (simp add: normalize_level_def duration_kept parse_int_nonneg)

text \<open>A row of the form that shows a level, read back.\<close>

lemma collect_shown:
  assumes "level_ok limit (t, d)"
  shows "collect_level limit (level_editor (s, JInt t, JInt d)) = Some (s, of_int t, of_int d)"
  using assms
  by (cases limit) (simp_all add: level_ok_def collect_level_def level_editor_def shown_int parse_int_nonneg)

lemma four_cases:
  assumes "length ps = 4"
  obtains a b c d where "ps = [a, b, c, d]"
  using assms by (auto simp: eval_nat_numeral length_Suc_conv)

lemma four_state:
  assumes "length ps = 4" and "list_all (level_ok limit) ps"
  shows "metric_rule_state (JObj [(''levels'', JArr (map normalize_level (plain_levels (zip severities ps))))])
    = \<lparr>ms_enabled = True, ms_levels = map (\<lambda>(s, t, d). (s, JInt t, JInt d)) (zip severities ps)\<rparr>"
proof -
  obtain a b c d where ps: "ps = [a, b, c, d]" using four_cases [OF assms(1)] .
  then show ?thesis using assms(2)
    by (cases a; cases b; cases c; cases d)
       (simp add: metric_rule_state_def plain_levels_def severities_def normalize_level_int level_ok_def
         fallback_levels_def)
qed

lemma four_levels_plain: "four_levels ps = JObj [(''levels'', JArr (plain_levels (zip severities ps)))]"
  by (simp add: four_levels_def plain_levels_def)

lemma collect_four:
  assumes "length ps = 4" and "list_all (level_ok limit) ps" and "sorted (map fst ps)"
  shows "collect_metric (errs, rules) ((metric, name, limit),
      metric_level_editor \<lparr>ms_enabled = True, ms_levels = map (\<lambda>(s, t, d). (s, JInt t, JInt d)) (zip severities ps)\<rparr>)
    = (errs, AList.update metric (four_levels ps) rules)"
proof -
  obtain a b c d where ps: "ps = [a, b, c, d]" using four_cases [OF assms(1)] .
  then show ?thesis using assms(2,3)
    by (cases a; cases b; cases c; cases d)
       (simp add: collect_metric_def metric_level_editor_def severities_def collect_shown level_js_def
         List.map_filter_def four_levels_def severity_order_def)
qed

text \<open>The rules as the server stores them after a save: for some of the metrics, a level for every severity.\<close>

definition stored_rules :: "(string \<Rightarrow> (int \<times> int) list option) \<Rightarrow> js" where
  "stored_rules f = JObj (concat (map (\<lambda>k. case f k of Some ps \<Rightarrow> [(k, four_levels ps)] | None \<Rightarrow> []) metric_keys))"

definition levels_valid :: "rat option \<Rightarrow> (int \<times> int) list \<Rightarrow> bool" where
  "levels_valid limit ps \<longleftrightarrow> length ps = 4 \<and> list_all (level_ok limit) ps \<and> sorted (map fst ps)"

definition rules_valid :: "(string \<Rightarrow> (int \<times> int) list option) \<Rightarrow> bool" where
  "rules_valid f \<longleftrightarrow> (\<exists>k \<in> set metric_keys. f k \<noteq> None)
     \<and> (\<forall>(k, _, limit) \<in> set metric_fields. case f k of Some ps \<Rightarrow> levels_valid limit ps | None \<Rightarrow> True)"

definition state_of :: "(int \<times> int) list option \<Rightarrow> metric_state" where
  "state_of o1 = (case o1 of
      Some ps \<Rightarrow> \<lparr>ms_enabled = True, ms_levels = map (\<lambda>(s, t, d). (s, JInt t, JInt d)) (zip severities ps)\<rparr>
    | None \<Rightarrow> \<lparr>ms_enabled = False, ms_levels = fallback_levels False\<rparr>)"

lemma metric_state_of:
  assumes "case o1 of Some ps \<Rightarrow> levels_valid limit ps | None \<Rightarrow> True"
    and "rule = (case o1 of Some ps \<Rightarrow> JObj [(''levels'', JArr (map normalize_level (plain_levels (zip severities ps))))] | None \<Rightarrow> JUndef)"
  shows "metric_rule_state rule = state_of o1"
proof (cases o1)
  case None
  then show ?thesis using assms(2) by (simp add: metric_rule_state_def state_of_def)
next
  case (Some ps)
  then show ?thesis using assms four_state [of ps limit] by (simp add: state_of_def levels_valid_def)
qed

lemma collect_state:
  assumes "case o1 of Some ps \<Rightarrow> levels_valid limit ps | None \<Rightarrow> True"
  shows "collect_metric (errs, rules) ((metric, name, limit), metric_level_editor (state_of o1))
    = (errs, case o1 of Some ps \<Rightarrow> AList.update metric (four_levels ps) rules | None \<Rightarrow> rules)"
proof (cases o1)
  case None
  then show ?thesis by (simp add: collect_metric_def metric_level_editor_def state_of_def)
next
  case (Some ps)
  then show ?thesis using assms collect_four [of ps limit] by (simp add: state_of_def levels_valid_def)
qed

lemma normalize_stored:
  "normalize_rules (stored_rules f) = JObj (concat (map (\<lambda>k. case f k of
      Some ps \<Rightarrow> [(k, JObj [(''levels'', JArr (map normalize_level (plain_levels (zip severities ps))))])] | None \<Rightarrow> []) metric_keys))"
  by (simp add: normalize_rules_def stored_rules_def metric_keys_def normalize_metric_def four_levels_plain Let_def
      split: option.splits)

lemma editor_of_stored:
  assumes "rules_valid f"
  shows "threshold_editor_state (stored_rules f)
    = \<lparr>es_custom = False, es_expression = JStr [], es_duration = JInt 60, es_metrics = map (\<lambda>k. state_of (f k)) metric_keys\<rparr>"
proof -
  let ?n = "normalize_rules (stored_rules f)"
  have v: "case f k of Some ps \<Rightarrow> levels_valid limit ps | None \<Rightarrow> True" if "(k, n, limit) \<in> set metric_fields" for k n limit
    using assms that by (fastforce simp: rules_valid_def)
  have r: "field ?n k = (case f k of Some ps \<Rightarrow> JObj [(''levels'', JArr (map normalize_level (plain_levels (zip severities ps))))]
      | None \<Rightarrow> JUndef)" if "k \<in> set metric_keys" for k
    using that by (auto simp: normalize_stored metric_keys_def split: option.splits)
  have "metric_rule_state (field ?n k) = state_of (f k)" if k: "(k, n, limit) \<in> set metric_fields" for k n limit
    by (rule metric_state_of [OF v [OF k] r]) (use k in \<open>auto simp: metric_fields_def metric_keys_def\<close>)
  then have "map (\<lambda>k. metric_rule_state (field ?n k)) metric_keys = map (\<lambda>k. state_of (f k)) metric_keys"
    by (simp add: metric_fields_def metric_keys_def)
  moreover have "field ?n ''custom_expression'' = JUndef"
    by (simp add: normalize_stored metric_keys_def split: option.splits)
  ultimately show ?thesis by (simp add: threshold_editor_state_def Let_def)
qed

lemma show_stored:
  assumes "rules_valid f"
  shows "rf_metrics (show_rules (stored_rules f)) = map (\<lambda>k. metric_level_editor (state_of (f k))) metric_keys"
    and "\<not> rf_custom (show_rules (stored_rules f))"
  unfolding show_rules_def editor_of_stored [OF assms] by (simp_all add: Let_def)

lemma stored_rules_some:
  assumes "rules_valid f"
  shows "obj_fields (stored_rules f) \<noteq> []"
proof -
  have "f ''cpu_usage'' \<noteq> None \<or> f ''disk_usage'' \<noteq> None \<or> f ''connections_active'' \<noteq> None"
    using assms by (simp add: rules_valid_def metric_keys_def)
  then show ?thesis by (auto simp: stored_rules_def metric_keys_def split: option.splits)
qed

lemma rules_kept:
  assumes "rules_valid f"
  shows "build_rules (show_rules (stored_rules f)) = ([], Some (stored_rules f))"
proof -
  have v: "case f k of Some ps \<Rightarrow> levels_valid limit ps | None \<Rightarrow> True" if "(k, n, limit) \<in> set metric_fields" for k n limit
    using assms that by (fastforce simp: rules_valid_def)
  have c: "case f ''cpu_usage'' of Some ps \<Rightarrow> levels_valid (Some 100) ps | None \<Rightarrow> True"
    "case f ''disk_usage'' of Some ps \<Rightarrow> levels_valid (Some 100) ps | None \<Rightarrow> True"
    "case f ''connections_active'' of Some ps \<Rightarrow> levels_valid None ps | None \<Rightarrow> True"
    using v [of "''cpu_usage''" "''cpu''"] v [of "''disk_usage''" "''disk''"]
      v [of "''connections_active''" "''connections_active''"] by (simp_all add: metric_fields_def)
  have "foldl collect_metric ([], []) (zip metric_fields (map (\<lambda>k. metric_level_editor (state_of (f k))) metric_keys))
    = ([], obj_fields (stored_rules f))"
    using c by (simp add: metric_fields_def metric_keys_def collect_state stored_rules_def split: option.splits)
  moreover have "obj_fields (stored_rules f) \<noteq> []" using stored_rules_some [OF assms] .
  moreover have "JObj (obj_fields (stored_rules f)) = stored_rules f" by (simp add: stored_rules_def)
  ultimately show ?thesis by (simp add: build_rules_def show_stored [OF assms])
qed

text \<open>
  Opening the rules of a template and saving them unchanged keeps them: every metric with its four levels,
  thresholds and durations, when they are ones the form accepts, that is positive, in order of severity and, for
  the two percentages, at most a hundred.
\<close>

theorem rules_edit_roundtrip:
  assumes "rules_valid f"
  shows "build_rules (show_rules (stored_rules f)) = ([], Some (stored_rules f))"
  using rules_kept [OF assms] .

theorem rules_edit_roundtrip_witness:
  "let f = [''cpu_usage'' \<mapsto> [(60, 300), (80, 60), (85, 60), (90, 60)]]
   in build_rules (show_rules (stored_rules f)) = ([], Some (stored_rules f))"
proof -
  have "rules_valid [''cpu_usage'' \<mapsto> [(60, 300), (80, 60), (85, 60), (90, 60)]]"
    by (simp add: rules_valid_def metric_keys_def metric_fields_def levels_valid_def level_ok_def)
  from rules_edit_roundtrip [OF this] show ?thesis by (simp add: Let_def)
qed

section \<open>What the form saves\<close>

definition levels_sound :: "rat option \<Rightarrow> (string \<times> rat \<times> rat) list \<Rightarrow> bool" where
  "levels_sound limit ls \<longleftrightarrow> ls \<noteq> []
     \<and> (\<forall>(s, t, d) \<in> set ls. 0 < t \<and> 0 < d \<and> (case limit of Some m \<Rightarrow> t \<le> m | None \<Rightarrow> True))
     \<and> (\<forall>(s, t, d) \<in> set ls. \<forall>(s', t', d') \<in> set ls. severity_order s < severity_order s' \<longrightarrow> t \<le> t')"

lemma misordered_sorted: "misordered ls = None \<Longrightarrow> sorted (map (\<lambda>l. fst (snd l)) ls)"
  by (induction ls rule: misordered.induct) (auto split: if_splits simp: le_less_trans)

lemma sorted_two:
  assumes "sorted (map f xs)" and "sorted (map g xs)" and "x \<in> set xs" and "y \<in> set xs" and "f x < (f y :: nat)"
  shows "g x \<le> (g y :: rat)"
proof -
  obtain i j where ij: "i < length xs" "j < length xs" "x = xs ! i" "y = xs ! j"
    using assms(3,4) by (metis in_set_conv_nth)
  have "i \<le> j"
  proof (rule ccontr)
    assume "\<not> i \<le> j"
    then have "f (xs ! j) \<le> f (xs ! i)" using assms(1) ij sorted_nth_mono [of "map f xs" j i] by simp
    then show False using assms(5) ij by simp
  qed
  then show ?thesis using assms(2) ij sorted_nth_mono [of "map g xs" i j] by simp
qed

lemma collect_level_sound:
  assumes "collect_level limit row = Some (s, t, d)"
  shows "0 < t \<and> 0 < d \<and> (case limit of Some m \<Rightarrow> t \<le> m | None \<Rightarrow> True)"
  using assms by (auto simp: collect_level_def not_le split: if_splits jnum.splits option.splits)

lemma collected_sound:
  assumes "levels = List.map_filter (collect_level limit) rows" and "levels \<noteq> []"
    and "misordered (sort_key (\<lambda>l. severity_order (fst l)) levels) = None"
  shows "levels_sound limit levels"
proof -
  let ?s = "sort_key (\<lambda>l. severity_order (fst l)) levels"
  have "sorted (map (\<lambda>l. severity_order (fst l)) ?s)" by simp
  moreover have "sorted (map (\<lambda>l. fst (snd l)) ?s)" using misordered_sorted [OF assms(3)] .
  ultimately have "fst (snd x) \<le> fst (snd y)"
    if "x \<in> set levels" "y \<in> set levels" "severity_order (fst x) < severity_order (fst y)" for x y
    using sorted_two [of "\<lambda>l. severity_order (fst l)" ?s "\<lambda>l. fst (snd l)" x y] that by simp
  moreover have "0 < t \<and> 0 < d \<and> (case limit of Some m \<Rightarrow> t \<le> m | None \<Rightarrow> True)" if "(s, t, d) \<in> set levels" for s t d
    using that assms(1) collect_level_sound by (fastforce simp: List.map_filter_def)
  ultimately show ?thesis using assms(2) by (fastforce simp: levels_sound_def)
qed

definition saved_sound :: "(string \<times> js) list \<Rightarrow> bool" where
  "saved_sound rules \<longleftrightarrow> distinct (map fst rules)
     \<and> (\<forall>(k, rule) \<in> set rules. \<exists>n limit ls. (k, n, limit) \<in> set metric_fields
          \<and> rule = JObj [(''levels'', JArr (map level_js ls))] \<and> levels_sound limit ls)"

lemma saved_update:
  assumes "saved_sound rules" and "(k, n, limit) \<in> set metric_fields" and "levels_sound limit ls"
  shows "saved_sound (AList.update k (JObj [(''levels'', JArr (map level_js ls))]) rules)"
proof -
  let ?v = "JObj [(''levels'', JArr (map level_js ls))]"
  let ?ok = "\<lambda>(k, rule). \<exists>n limit ls. (k, n, limit) \<in> set metric_fields
          \<and> rule = JObj [(''levels'', JArr (map level_js ls))] \<and> levels_sound limit ls"
  have "?ok (k, ?v)" using assms(2,3) by blast
  moreover have "\<forall>r \<in> set rules. ?ok r" using assms(1) unfolding saved_sound_def by blast
  ultimately have "\<forall>r \<in> set (AList.update k ?v rules). ?ok r" using update_members [of k ?v rules] by blast
  moreover have "distinct (map fst (AList.update k ?v rules))"
    using assms(1) by (simp add: saved_sound_def distinct_update)
  ultimately show ?thesis unfolding saved_sound_def by blast
qed

lemma collect_metric_sound:
  assumes "saved_sound (snd acc)" and "fst fm \<in> set metric_fields"
  shows "saved_sound (snd (collect_metric acc fm))"
proof -
  obtain errs rules k n limit rows where e: "acc = (errs, rules)" "fm = ((k, n, limit), rows)"
    by (metis surj_pair)
  let ?ls = "List.map_filter (collect_level limit) (mr_levels rows)"
  have "saved_sound (AList.update k (JObj [(''levels'', JArr (map level_js ?ls))]) rules)"
    if "?ls \<noteq> []" "misordered (sort_key (\<lambda>l. severity_order (fst l)) ?ls) = None"
    using saved_update [OF _ _ collected_sound [OF HOL.refl that]] assms e by simp
  then show ?thesis using assms(1) e by (auto simp: collect_metric_def Let_def split: option.splits)
qed

lemma collect_all_sound:
  "saved_sound (snd acc) \<Longrightarrow> fst ` set fms \<subseteq> set metric_fields \<Longrightarrow> saved_sound (snd (foldl collect_metric acc fms))"
proof (induction fms arbitrary: acc)
  case (Cons fm fms)
  then have "saved_sound (snd (collect_metric acc fm))" by (intro collect_metric_sound) auto
  then show ?case using Cons by simp
qed simp

lemma build_rules_saved:
  assumes "build_rules f = (errs, Some rules)" and "\<not> rf_custom f"
  shows "\<exists>ms. rules = JObj ms \<and> ms \<noteq> [] \<and> saved_sound ms"
proof -
  let ?r = "foldl collect_metric ([], []) (zip metric_fields (rf_metrics f))"
  have "fst ` set (zip metric_fields (rf_metrics f)) \<subseteq> set metric_fields"
    by (auto dest: set_zip_leftD)
  from collect_all_sound [OF _ this, of "([], [])"] have "saved_sound (snd ?r)" by (simp add: saved_sound_def)
  then show ?thesis using assms by (auto simp: build_rules_def case_prod_unfold split: if_splits)
qed



section \<open>Rules that the editor changes\<close>

text \<open>
  A template with fewer levels is saved with more: a rule that alarms on critical load only is opened with
  the other severities filled in and switched on, so that saving it untouched makes it alarm at 80 as well.
\<close>

theorem missing_levels_added:
  assumes "90 \<le> t" and "t \<le> 100" and "0 < d"
  shows "build_rules (show_rules (JObj [(''cpu_usage'', JObj [(''levels'', JArr (plain_levels [(''critical'', t, d)]))])]))
    = ([], Some (JObj [(''cpu_usage'', four_levels [(80, 60), (80, 60), (90, 60), (t, d)])]))"
proof -
  let ?r = "JObj [(''cpu_usage'', JObj [(''levels'', JArr (plain_levels [(''critical'', t, d)]))])]"
  let ?ps = "[(80, 60), (80, 60), (90, 60), (t, d)]"
  have "normalize_rules ?r = ?r"
    using assms by (simp add: normalize_rules_def normalize_metric_def metric_keys_def plain_levels_def normalize_level_int Let_def)
  then have "es_metrics (threshold_editor_state ?r) = [state_of (Some ?ps), state_of None, state_of None]"
    and c: "es_custom (threshold_editor_state ?r) = False"
    by (simp_all add: threshold_editor_state_def metric_keys_def metric_rule_state_def state_of_def plain_levels_def
        fallback_levels_def severities_def Let_def)
  then have m: "rf_metrics (show_rules ?r) = map metric_level_editor [state_of (Some ?ps), state_of None, state_of None]"
    and c: "\<not> rf_custom (show_rules ?r)"
    unfolding show_rules_def by (simp_all add: Let_def)
  have "levels_valid (Some 100) ?ps" using assms by (simp add: levels_valid_def level_ok_def)
  then show ?thesis unfolding build_rules_def m
    using c collect_state [of "Some 100" "Some ?ps"] collect_state [of _ None] by (simp add: metric_fields_def)
qed

theorem missing_levels_added_witness:
  "build_rules (show_rules (JObj [(''cpu_usage'', JObj [(''levels'', JArr (plain_levels [(''critical'', 95, 120)]))])]))
    = ([], Some (JObj [(''cpu_usage'', four_levels [(80, 60), (80, 60), (90, 60), (95, 120)])]))"
  using missing_levels_added [of 95 120] by simp

text \<open>
  The defaults of a new template are not the ones saved: the levels of the disk usage alarm at once, with a
  duration of zero, but the form shows and saves sixty seconds for them.
\<close>

theorem default_durations_lost:
  "build_rules (show_rules default_rules) = ([], Some (stored_rules
     [''cpu_usage'' \<mapsto> [(60, 300), (80, 60), (85, 60), (90, 60)], ''disk_usage'' \<mapsto> [(80, 60), (85, 60), (90, 60), (95, 60)],
      ''connections_active'' \<mapsto> [(20, 60), (30, 60), (40, 60), (50, 60)]]))
   \<and> field default_rules ''disk_usage'' = four_levels [(80, 0), (85, 0), (90, 0), (95, 0)]"
proof -
  have sixty: "parse_int_str ''60'' = Fin 60" by code_simp
  then have z: "duration_or_60 (JNum (Fin 0)) = JNum (Fin 60)" "duration_or_60 (JNum (Fin 60)) = JNum (Fin 60)"
    using duration_kept [of 60] by (simp_all add: duration_or_60_def js_or_def)
  let ?c = "[(60, 300), (80, 60), (85, 60), (90, 60)]" and ?d = "[(80, 60), (85, 60), (90, 60), (95, 60)]"
    and ?n = "[(20, 60), (30, 60), (40, 60), (50, 60)]"
  let ?f = "[''cpu_usage'' \<mapsto> ?c, ''disk_usage'' \<mapsto> ?d, ''connections_active'' \<mapsto> ?n]"
  have v: "rules_valid ?f" by (simp add: rules_valid_def metric_keys_def metric_fields_def levels_valid_def level_ok_def)
  have "normalize_rules default_rules = normalize_rules (stored_rules ?f)"
    by (simp add: normalize_rules_def default_rules_def stored_rules_def metric_keys_def normalize_metric_def
        four_levels_plain plain_levels_def severities_def normalize_level_def z)
  then have "show_rules default_rules = show_rules (stored_rules ?f)"
    by (simp add: show_rules_def threshold_editor_state_def)
  then show ?thesis using rules_kept [OF v] by (simp add: default_rules_def)
qed

section \<open>Submitting\<close>

lemma next_config_fields:
  "field (next_config tr config rules f) ''threshold_rules'' = rules"
  "field (next_config tr config rules f) ''alert_engine_mode'' = JStr (if tp_mode f = [] then ''threshold'' else tp_mode f)"
  "field (next_config tr config rules f) ''ai_policy_text''
     = (let policy = restore_text tr (field config ''ai_policy_text'') (trim (tp_policy f))
        in if tp_mode f = ''ai'' \<and> policy \<noteq> [] then JStr policy else JNull)"
  by (simp_all add: next_config_def Let_def)

lemma collect_metric_keeps:
  assumes "collect_metric (errs, rules) ((k, n, limit), rows) = (errs', rules')" and "k' \<noteq> k"
  shows "(\<exists>es. errs' = errs @ es) \<and> field (JObj rules') k' = field (JObj rules) k'"
  using assms by (auto simp: collect_metric_def Let_def field_def split: if_splits option.splits)

lemma first_metric_dropped:
  assumes "rf_metrics r = [cpu, disk, conn]" and "\<not> rf_custom r"
    and "mr_enabled cpu" and "List.map_filter (collect_level (Some 100)) (mr_levels cpu) \<noteq> []"
    and "misordered (sort_key (\<lambda>l. severity_order (fst l)) (List.map_filter (collect_level (Some 100)) (mr_levels cpu))) = Some (lower, upper)"
    and "mr_enabled disk" and "List.map_filter (collect_level (Some 100)) (mr_levels disk) \<noteq> []"
    and "misordered (sort_key (\<lambda>l. severity_order (fst l)) (List.map_filter (collect_level (Some 100)) (mr_levels disk))) = None"
  obtains errs ms where "build_rules r = (ThresholdOrder ''cpu'' lower upper # errs, Some (JObj ms))"
    "field (JObj ms) ''cpu_usage'' = JUndef" "field (JObj ms) ''disk_usage'' \<noteq> JUndef" "ms \<noteq> []"
proof -
  let ?e = "ThresholdOrder ''cpu'' lower upper"
  let ?d = "JObj [(''levels'', JArr (map level_js (List.map_filter (collect_level (Some 100)) (mr_levels disk))))]"
  have 1: "collect_metric ([], []) ((''cpu_usage'', ''cpu'', Some 100), cpu) = ([?e], [])"
    using assms(3,4,5) by (simp add: collect_metric_def Let_def)
  have 2: "collect_metric ([?e], []) ((''disk_usage'', ''disk'', Some 100), disk) = ([?e], [(''disk_usage'', ?d)])"
    using assms(6,7,8) by (simp add: collect_metric_def Let_def)
  obtain errs ms where 3: "collect_metric ([?e], [(''disk_usage'', ?d)])
      ((''connections_active'', ''connections_active'', None), conn) = (errs, ms)" by (metis surj_pair)
  from collect_metric_keeps [OF 3, of "''cpu_usage''"] collect_metric_keeps [OF 3, of "''disk_usage''"]
  obtain es where k: "errs = [?e] @ es" "field (JObj ms) ''cpu_usage'' = JUndef" "field (JObj ms) ''disk_usage'' = ?d"
    by auto
  then have "ms \<noteq> []" by auto
  then have "build_rules r = (?e # es, Some (JObj ms))"
    using assms(1,2) 1 2 3 k(1) by (simp add: build_rules_def metric_fields_def)
  then show ?thesis using that k \<open>ms \<noteq> []\<close> by simp
qed

text \<open>
  An error does not stop the save: when the thresholds of the processor decrease with the severity, and the
  disk has a valid rule, the error is shown, but the request is sent all the same, without the rule for the
  processor, whatever that rule was before.
\<close>

theorem misordered_metric_dropped:
  assumes "rf_metrics (tp_rules f) = [cpu, disk, conn]" and "\<not> rf_custom (tp_rules f)"
    and "mr_enabled cpu" and "List.map_filter (collect_level (Some 100)) (mr_levels cpu) \<noteq> []"
    and "misordered (sort_key (\<lambda>l. severity_order (fst l)) (List.map_filter (collect_level (Some 100)) (mr_levels cpu))) = Some (lower, upper)"
    and "mr_enabled disk" and "List.map_filter (collect_level (Some 100)) (mr_levels disk) \<noteq> []"
    and "misordered (sort_key (\<lambda>l. severity_order (fst l)) (List.map_filter (collect_level (Some 100)) (mr_levels disk))) = None"
    and "tp_mode f = ''threshold''" and "trim (tp_name f) \<noteq> []" and "truthy template"
  shows "\<exists>errs payload. submit_template tr template f
      = (ThresholdOrder ''cpu'' lower upper # errs, Some (UpdateTemplate (field template ''id'') payload))
    \<and> field (field (field payload ''template_config'') ''threshold_rules'') ''cpu_usage'' = JUndef
    \<and> field (field (field payload ''template_config'') ''threshold_rules'') ''disk_usage'' \<noteq> JUndef"
proof -
  obtain errs ms where b: "build_rules (tp_rules f) = (ThresholdOrder ''cpu'' lower upper # errs, Some (JObj ms))"
    and ms: "field (JObj ms) ''cpu_usage'' = JUndef" "field (JObj ms) ''disk_usage'' \<noteq> JUndef" "ms \<noteq> []"
    using first_metric_dropped [OF assms(1-8)] by blast
  have "restore_text tr (field template ''name'') (trim (tp_name f)) \<noteq> []"
    using assms(10) by (simp add: restore_text_def Let_def)
  then show ?thesis using b ms assms(9,11) by (simp add: submit_template_def next_config_fields Let_def)
qed

definition demo_rows :: "bool \<Rightarrow> (string \<times> string) list \<Rightarrow> metric_rows" where
  "demo_rows on ps = \<lparr>mr_enabled = on,
     mr_levels = map (\<lambda>(s, t). \<lparr>lv_severity = s, lv_enabled = True, lv_threshold = t, lv_duration = ''60''\<rparr>) ps\<rparr>"

lemma demo_levels:
  "List.map_filter (collect_level (Some 100)) (mr_levels (demo_rows True [(''high'', ''90''), (''critical'', ''85'')]))
     = [(''high'', 90, 60), (''critical'', 85, 60)]"
  "List.map_filter (collect_level (Some 100)) (mr_levels (demo_rows True [(''critical'', ''90'')])) = [(''critical'', 90, 60)]"
  by code_simp+

theorem misordered_metric_dropped_witness:
  "let f = \<lparr>tp_name = ''T'', tp_description = [], tp_mode = ''threshold'',
        tp_rules = \<lparr>rf_custom = False, rf_expression = [], rf_duration = [],
          rf_metrics = [demo_rows True [(''high'', ''90''), (''critical'', ''85'')], demo_rows True [(''critical'', ''90'')], demo_rows False []]\<rparr>,
        tp_policy = [], tp_model = [], tp_baseline = True, tp_event_ai = True, tp_enabled = True, tp_default = False\<rparr>
   in \<exists>errs payload. submit_template (\<lambda>k. k) (JObj [(''id'', JInt 4)]) f
        = (ThresholdOrder ''cpu'' ''high'' ''critical'' # errs, Some (UpdateTemplate (JInt 4) payload))"
proof -
  let ?cpu = "demo_rows True [(''high'', ''90''), (''critical'', ''85'')]" and ?disk = "demo_rows True [(''critical'', ''90'')]"
  let ?f = "\<lparr>tp_name = ''T'', tp_description = [], tp_mode = ''threshold'',
        tp_rules = \<lparr>rf_custom = False, rf_expression = [], rf_duration = [], rf_metrics = [?cpu, ?disk, demo_rows False []]\<rparr>,
        tp_policy = [], tp_model = [], tp_baseline = True, tp_event_ai = True, tp_enabled = True, tp_default = False\<rparr>"
  have on: "mr_enabled ?cpu" "mr_enabled ?disk" by (simp_all add: demo_rows_def)
  have o: "misordered (sort_key (\<lambda>l. severity_order (fst l)) [(''high'', 90, 60), (''critical'', 85, 60)]) = Some (''high'', ''critical'')"
    "misordered (sort_key (\<lambda>l. severity_order (fst l)) [(''critical'', 90, 60)]) = None"
    by (simp_all add: severity_order_def severities_def)
  have n: "trim (tp_name ?f) \<noteq> []" by (simp add: trim_plain is_ws_def)
  show ?thesis
    using misordered_metric_dropped [of ?f ?cpu ?disk "demo_rows False []" "''high''" "''critical''" "JObj [(''id'', JInt 4)]" "\<lambda>k. k"]
      on o n by (auto simp: demo_levels Let_def)
qed

section \<open>A template saved as it was\<close>

definition one_line :: "string \<Rightarrow> bool" where
  "one_line s \<longleftrightarrow> text_input s = s \<and> trim s = s"

definition plain_area :: "string \<Rightarrow> bool" where
  "plain_area s \<longleftrightarrow> textarea_value s = s \<and> trim s = s"

lemma restore_shown: "restore_text tr (JStr s) (localized_text tr (JStr s)) = (if s = [] then localized_text tr (JStr []) else s)"
  by (simp add: restore_text_def text_or_empty_def Let_def)

lemma localized_nothing [simp]: "localized_text tr (JStr []) = []"
  by (simp add: localized_text_def text_or_empty_def builtin_texts_def utf8_def)

lemma normalize_valid:
  assumes "rules_valid g"
  shows "normalize_rules (stored_rules g) = stored_rules g"
proof -
  have "map normalize_level (plain_levels (zip severities ps)) = plain_levels (zip severities ps)" if "levels_valid limit ps" for limit ps
  proof -
    have "length ps = 4" using that by (simp add: levels_valid_def)
    from four_cases [OF this] obtain a b c d where "ps = [a, b, c, d]" .
    then show ?thesis using that
      by (cases a; cases b; cases c; cases d) (simp add: plain_levels_def severities_def levels_valid_def level_ok_def normalize_level_int)
  qed
  moreover have "\<exists>limit. levels_valid limit ps" if "k \<in> set metric_keys" "g k = Some ps" for k ps
    using assms that by (fastforce simp: rules_valid_def metric_keys_def metric_fields_def)
  ultimately have "map (\<lambda>k. case g k of Some ps \<Rightarrow> [(k, JObj [(''levels'', JArr (map normalize_level (plain_levels (zip severities ps))))])] | None \<Rightarrow> []) metric_keys
    = map (\<lambda>k. case g k of Some ps \<Rightarrow> [(k, four_levels ps)] | None \<Rightarrow> []) metric_keys"
    by (auto simp: four_levels_plain split: option.splits) blast
  then show ?thesis unfolding normalize_stored by (simp only: stored_rules_def)
qed

text \<open>
  A template opened and saved untouched is sent as it is stored, in the language it is stored in: its name,
  its description, its mode, its rules, its AI rule and its flags, although the built-in texts are shown
  translated.
\<close>

theorem untouched_template_saved:
  assumes "field t ''name'' = JStr name" and "name \<noteq> []" and "one_line (localized_text tr (JStr name))"
    and "field t ''description'' = JStr desc" and "one_line (localized_text tr (JStr desc))"
    and "field t ''enabled'' = JBool on" and "field t ''is_default'' = JBool dflt"
    and "field t ''template_config'' = config" and "typeof_object config" and "truthy config"
    and "field config ''threshold_rules'' = stored_rules g" and "rules_valid g"
    and "field config ''alert_engine_mode'' = JStr mode" and "mode = ''threshold'' \<or> mode = ''ai''"
    and "field config ''ai_policy_text'' = JStr policy" and "policy \<noteq> []" and "plain_area (localized_text tr (JStr policy))"
  shows "\<exists>payload. submit_template tr t (open_template_form tr models t) = ([], Some (UpdateTemplate (field t ''id'') payload))
    \<and> field payload ''name'' = JStr name \<and> field payload ''description'' = (if desc = [] then JNull else JStr desc)
    \<and> field payload ''enabled'' = JBool on \<and> field payload ''is_default'' = JBool dflt
    \<and> field (field payload ''template_config'') ''threshold_rules'' = stored_rules g
    \<and> field (field payload ''template_config'') ''alert_engine_mode'' = JStr mode
    \<and> field (field payload ''template_config'') ''ai_policy_text'' = (if mode = ''ai'' then JStr policy else JNull)"
proof -
  let ?c = "normalize_template config" and ?f = "open_template_form tr models t"
  have m: "field ?c ''alert_engine_mode'' = JStr mode" and r: "field ?c ''threshold_rules'' = stored_rules g"
    and p: "field ?c ''ai_policy_text'' = JStr policy"
    using assms(9-16) by (auto simp: normalize_template_def normalize_valid Let_def)
  have f: "tp_name ?f = localized_text tr (JStr name)" "tp_description ?f = localized_text tr (JStr desc)"
    "tp_policy ?f = localized_text tr (JStr policy)" "tp_rules ?f = show_rules (stored_rules g)"
    "tp_enabled ?f = on" "tp_default ?f = dflt"
    using assms(1,3-8,17) r p by (auto simp: open_template_form_def one_line_def plain_area_def Let_def)
  have "tp_mode ?f = mode"
    using assms(8,14) m by (auto simp: open_template_form_def select_value_def Let_def)
  moreover have "build_rules (tp_rules ?f) = ([], Some (stored_rules g))" using f rules_kept [OF assms(12)] by simp
  moreover have "obj_fields (stored_rules g) \<noteq> []" using stored_rules_some [OF assms(12)] .
  moreover have "truthy t" using assms(1) by (cases t) simp_all
  moreover have "trim (localized_text tr (JStr name)) = localized_text tr (JStr name)"
    "trim (localized_text tr (JStr desc)) = localized_text tr (JStr desc)"
    "trim (localized_text tr (JStr policy)) = localized_text tr (JStr policy)"
    using assms(3,5,17) by (simp_all add: one_line_def plain_area_def)
  ultimately show ?thesis using assms(1,2,4,8,14,16) f p
    by (auto simp: submit_template_def next_config_fields restore_shown Let_def)
qed

theorem untouched_template_saved_witness:
  "let t = JObj [(''id'', JInt 4), (''name'', JStr ''Prod''), (''description'', JStr []), (''enabled'', JBool True),
        (''is_default'', JBool False), (''template_config'', JObj [(''alert_engine_mode'', JStr ''ai''),
          (''threshold_rules'', stored_rules [''cpu_usage'' \<mapsto> [(60, 300), (80, 60), (85, 60), (90, 60)]]),
          (''ai_policy_text'', JStr ''Watch'')])]
   in \<exists>payload. submit_template (\<lambda>k. k) t (open_template_form (\<lambda>k. k) [] t) = ([], Some (UpdateTemplate (JInt 4) payload))
      \<and> field payload ''name'' = JStr ''Prod''"
proof -
  let ?g = "[''cpu_usage'' \<mapsto> [(60, 300), (80, 60), (85, 60), (90, 60 :: int)]]"
  let ?c = "JObj [(''alert_engine_mode'', JStr ''ai''), (''threshold_rules'', stored_rules ?g), (''ai_policy_text'', JStr ''Watch'')]"
  let ?t = "JObj [(''id'', JInt 4), (''name'', JStr ''Prod''), (''description'', JStr []), (''enabled'', JBool True),
        (''is_default'', JBool False), (''template_config'', ?c)]"
  have v: "rules_valid ?g" by (simp add: rules_valid_def metric_keys_def metric_fields_def levels_valid_def level_ok_def)
  have b: "localized_text (\<lambda>k. k) (JStr ''Prod'') = ''Prod''" "localized_text (\<lambda>k. k) (JStr ''Watch'') = ''Watch''"
    unfolding localized_text_def text_or_empty_def by (simp_all add: builtin_texts_def utf8_def)
  then have l: "one_line (localized_text (\<lambda>k. k) (JStr ''Prod''))" "one_line (localized_text (\<lambda>k. k) (JStr []))"
    "plain_area (localized_text (\<lambda>k. k) (JStr ''Watch''))"
    by (simp_all add: one_line_def plain_area_def text_input_def is_newline_def textarea_value_def trim_plain is_ws_def)
  have i: "field ?t ''id'' = JInt 4" by simp
  have f: "field ?t ''name'' = JStr ''Prod''" "field ?t ''description'' = JStr []" "field ?t ''enabled'' = JBool True"
    "field ?t ''is_default'' = JBool False" "field ?t ''template_config'' = ?c" "typeof_object ?c" "truthy ?c"
    "field ?c ''threshold_rules'' = stored_rules ?g" "field ?c ''alert_engine_mode'' = JStr ''ai''"
    "field ?c ''ai_policy_text'' = JStr ''Watch''" by simp_all
  obtain payload where "submit_template (\<lambda>k. k) ?t (open_template_form (\<lambda>k. k) [] ?t) = ([], Some (UpdateTemplate (field ?t ''id'') payload))"
    and "field payload ''name'' = JStr ''Prod''"
    using untouched_template_saved [OF f(1) _ l(1) f(2) l(2) f(3-8) v f(9) _ f(10) _ l(3), of "[]"] by blast
  then show ?thesis unfolding Let_def i by blast
qed

end
