(* ===== verification/ScheduledTasks.thy ===== *)
theory ScheduledTasks
  imports HtmlForm
begin

text \<open>
  \<^verbatim>\<open>frontend/js/pages/scheduled-tasks.js\<close>: the editor of a scheduled task. A stored task is written into the
  controls of a form, the user edits them, and saving reads them back into the payload of the request. The
  catalog of texts is a parameter \<open>tr\<close>; the list of notification integrations is the one last loaded.
\<close>

section \<open>Schedules\<close>

text \<open>\<^verbatim>\<open>Math.max(1, Math.floor(Number(seconds) || 60))\<close>; None is the number Infinity.\<close>

definition interval_seconds :: "jnum \<Rightarrow> int option" where
  "interval_seconds n =
     (case n of Fin q \<Rightarrow> Some (if q = 0 then 60 else max 1 \<lfloor>q\<rfloor>) | NaN \<Rightarrow> Some 60 | MInf \<Rightarrow> Some 1 | PInf \<Rightarrow> None)"

definition interval_cron :: "jnum \<Rightarrow> string" where
  "interval_cron n =
     (case interval_seconds n of
        None \<Rightarrow> ''0 * * * * *''
      | Some sec \<Rightarrow>
          if sec \<le> 59 then ''*/'' @ str_of_int sec @ '' * * * * *''
          else if sec mod 60 = 0 \<and> 0 < sec div 60 \<and> sec div 60 < 1440
          then ''0 */'' @ str_of_int (sec div 60) @ '' * * * *''
          else if sec mod 3600 = 0 \<and> 0 < sec div 3600 \<and> sec div 3600 \<le> 23
          then ''0 0 */'' @ str_of_int (sec div 3600) @ '' * * *''
          else if sec mod 86400 = 0 \<and> 0 < sec div 86400
          then ''0 0 0 */'' @ str_of_int (sec div 86400) @ '' * *''
          else ''0 * * * * *'')"

record schedule_view =
  sv_preset :: string
  sv_expression :: string
  sv_minute :: jnum
  sv_second :: jnum
  sv_time :: js
  sv_weekday :: jnum
  sv_day :: jnum

definition schedule_presets :: "string list" where
  "schedule_presets = [''hourly'', ''daily'', ''weekly'', ''monthly'', ''custom'']"

definition default_expression :: string where
  "default_expression = ''0 */5 * * * *''"

definition base_view :: schedule_view where
  "base_view = \<lparr>sv_preset = ''custom'', sv_expression = default_expression, sv_minute = Fin 0, sv_second = Fin 0,
     sv_time = JStr ''00:00:00'', sv_weekday = Fin 0, sv_day = Fin 1\<rparr>"

definition num_default :: "rat \<Rightarrow> jnum \<Rightarrow> jnum" where
  "num_default d n = (if truthy (JNum n) then n else Fin d)"

definition number_or :: "rat \<Rightarrow> js \<Rightarrow> jnum" where
  "number_or d v = to_number (js_coalesce v (JNum (Fin d)))"

text \<open>The parts of a cron expression of six fields, as the form shows them.\<close>

definition cron_view :: "string \<Rightarrow> schedule_view" where
  "cron_view expr =
     (let fs = filter (\<lambda>w. w \<noteq> []) (split_ws expr);
          part = (\<lambda>d i. num_default d (number_of_str (fs ! i)));
          two = (\<lambda>n. pad_start 2 (CHR ''0'') (str_of_num n))
      in if length fs = 6
         then base_view\<lparr>sv_expression := expr, sv_second := part 0 0, sv_minute := part 0 1, sv_day := part 1 3,
                sv_weekday := part 0 5, sv_time := JStr (two (part 0 2) @ '':'' @ two (part 0 1) @ '':'' @ two (part 0 0))\<rparr>
         else base_view\<lparr>sv_expression := expr\<rparr>)"

definition denormalize_schedule :: "js \<Rightarrow> schedule_view" where
  "denormalize_schedule task =
     (if \<not> truthy task then base_view\<lparr>sv_preset := ''hourly'', sv_minute := Fin 0, sv_second := Fin 0\<rparr>
      else let config = js_or (field task ''schedule_config'') (JObj []);
               expr = trim (js_string (js_or (field config ''expression'') (JStr default_expression)))
           in if strict_eq (field task ''schedule_type'') (JStr ''interval'')
              then base_view\<lparr>sv_expression := interval_cron (to_number (js_or (field config ''interval_seconds'') (JInt 300)))\<rparr>
              else case field config ''preset'' of
                     JStr p \<Rightarrow>
                       if p \<in> set schedule_presets \<and> p \<noteq> ''custom''
                       then \<lparr>sv_preset = p, sv_expression = expr, sv_minute = number_or 0 (field config ''minute''),
                              sv_second = number_or 0 (field config ''second''),
                              sv_time = js_or (field config ''time'') (JStr ''00:00:00''),
                              sv_weekday = number_or 0 (field config ''day_of_week''), sv_day = number_or 1 (field config ''day'')\<rparr>
                       else cron_view expr
                   | _ \<Rightarrow> cron_view expr)"

text \<open>The schedule part of the form: the texts of its controls.\<close>

record schedule_form =
  sf_preset :: string
  sf_minute :: string
  sf_second :: string
  sf_time :: string
  sf_weekday :: string
  sf_day :: string
  sf_expression :: string

definition show_schedule :: "schedule_view \<Rightarrow> schedule_form" where
  "show_schedule v =
     \<lparr>sf_preset = select_value schedule_presets (\<lambda>opt. opt = sv_preset v),
      sf_minute = number_input (str_of_num (sv_minute v)), sf_second = number_input (str_of_num (sv_second v)),
      sf_time = text_input (attr_text (sv_time v)),
      sf_weekday = select_value (map str_of_int [0..6]) (\<lambda>opt. sv_weekday v = number_of_str opt),
      sf_day = number_input (str_of_num (sv_day v)),
      sf_expression = text_input (sv_expression v)\<rparr>"

text \<open>\<^verbatim>\<open>Number(input.value || d)\<close> and \<^verbatim>\<open>(input.value || d).trim()\<close>.\<close>

definition number_value :: "int \<Rightarrow> string \<Rightarrow> jnum" where
  "number_value d s = (if s = [] then Fin (of_int d) else number_of_str s)"

definition time_value :: "string \<Rightarrow> string" where
  "time_value s = trim (if s = [] then ''00:00:00'' else s)"

definition collect_schedule :: "(string \<Rightarrow> string) \<Rightarrow> schedule_form \<Rightarrow> string + js" where
  "collect_schedule tr f =
     (let preset = (if sf_preset f = [] then ''hourly'' else sf_preset f) in
      if preset = ''hourly''
      then Inr (JObj [(''preset'', JStr preset), (''minute'', JNum (number_value 0 (sf_minute f))),
                      (''second'', JNum (number_value 0 (sf_second f)))])
      else if preset = ''daily'' then Inr (JObj [(''preset'', JStr preset), (''time'', JStr (time_value (sf_time f)))])
      else if preset = ''weekly''
      then Inr (JObj [(''preset'', JStr preset), (''time'', JStr (time_value (sf_time f))),
                      (''day_of_week'', JNum (number_value 0 (sf_weekday f)))])
      else if preset = ''monthly''
      then Inr (JObj [(''preset'', JStr preset), (''time'', JStr (time_value (sf_time f))),
                      (''day'', JNum (number_value 1 (sf_day f)))])
      else if trim (sf_expression f) = [] then Inl (tr ''cronExpressionCannotBeEmptyInCustom'')
      else Inr (JObj [(''expression'', JStr (trim (sf_expression f)))]))"

section \<open>Intervals as the list shows them\<close>

definition weekday_label :: "(string \<Rightarrow> string) \<Rightarrow> js \<Rightarrow> string" where
  "weekday_label tr day =
     (let labels = map tr [''mondayShort'', ''tuesdayShort'', ''wednesdayShort'', ''thursdayShort'', ''fridayShort'',
                           ''saturdayShort'', ''sundayShort'']
      in case num_default 0 (to_number day) of
           Fin q \<Rightarrow> if q = of_int \<lfloor>q\<rfloor> \<and> 0 \<le> q \<and> q \<le> 6 \<and> labels ! nat \<lfloor>q\<rfloor> \<noteq> [] then labels ! nat \<lfloor>q\<rfloor> else tr ''mondayShort''
         | _ \<Rightarrow> tr ''mondayShort'')"

text \<open>The schedule column of the list: the text's key and its parameters.\<close>

definition format_schedule :: "(string \<Rightarrow> string) \<Rightarrow> js \<Rightarrow> string \<times> string list" where
  "format_schedule tr task =
     (let config = js_or (field task ''schedule_config'') (JObj []); preset = field config ''preset'';
          two = (\<lambda>v. pad_start 2 (CHR ''0'') (js_string (js_coalesce v (JInt 0))));
          time = js_string (js_or (field config ''time'') (JStr ''00:00:00''));
          expr = trim (text_or_empty (field config ''expression''))
      in if strict_eq (field task ''schedule_type'') (JStr ''interval'')
         then (''cronValueOriginalInterval'',
               [interval_cron (num_default 60 (to_number (js_or (field config ''interval_seconds'') (JInt 0))))])
         else if preset = JStr ''hourly'' then (''hourlyValueValue'', [two (field config ''minute''), two (field config ''second'')])
         else if preset = JStr ''daily'' then (''everyDayValue'', [time])
         else if preset = JStr ''weekly'' then (''weeklyValueValue'', [weekday_label tr (field config ''day_of_week''), time])
         else if preset = JStr ''monthly'' then (''monthlyValueValue'', [js_string (js_coalesce (field config ''day'') (JInt 1)), time])
         else (''cron'', [if expr = [] then ''-'' else expr]))"

section \<open>Notification targets\<close>

text \<open>A parameter's control: its key, its format and its text.\<close>

record target_row =
  tr_integration :: string
  tr_enabled :: bool
  tr_params :: "(string \<times> string \<times> string) list"

definition find_integration :: "js list \<Rightarrow> string \<Rightarrow> js option" where
  "find_integration integrations chosen =
     find (\<lambda>i. strict_eq (field i ''id'') (JNum (parse_int_str chosen))) integrations"

definition param_row :: "js \<Rightarrow> string \<times> js \<Rightarrow> string \<times> string \<times> string" where
  "param_row existing kp =
     (case kp of (key, prop) \<Rightarrow>
        let password = (field prop ''format'' = JStr ''password'')
        in (key, text_or_empty (field prop ''format''),
            if password then [] else text_input (attr_text (js_or (field existing key) (field prop ''default'')))))"

definition param_rows :: "js list \<Rightarrow> string \<Rightarrow> js \<Rightarrow> (string \<times> string \<times> string) list" where
  "param_rows integrations chosen existing =
     (case find_integration integrations chosen of
        None \<Rightarrow> []
      | Some i \<Rightarrow> map (param_row existing) (obj_fields (field (field i ''config_schema'') ''properties'')))"

definition empty_target :: "js list \<Rightarrow> string \<Rightarrow> js" where
  "empty_target integrations now =
     JObj [(''target_id'', JStr (''target_'' @ now)),
           (''integration_id'', case integrations of [] \<Rightarrow> JNull | i # _ \<Rightarrow> field i ''id''),
           (''name'', case integrations of [] \<Rightarrow> JStr [] | i # _ \<Rightarrow> field i ''name''),
           (''enabled'', JBool True), (''params'', JObj [])]"

definition target_row_of :: "js list \<Rightarrow> js \<Rightarrow> target_row" where
  "target_row_of integrations target =
     (let chosen = select_value ([] # map (\<lambda>i. js_string (field i ''id'')) integrations)
            (\<lambda>opt. opt \<noteq> [] \<and> opt = js_string (field target ''integration_id''))
      in \<lparr>tr_integration = chosen, tr_enabled = (\<not> strict_eq (field target ''enabled'') (JBool False)),
          tr_params = param_rows integrations chosen (js_or (field target ''params'') (JObj []))\<rparr>)"

definition show_targets :: "js list \<Rightarrow> string \<Rightarrow> js list \<Rightarrow> target_row list" where
  "show_targets integrations now targets =
     map (target_row_of integrations) (if targets = [] then [empty_target integrations now] else targets)"

text \<open>Choosing another integration clears the parameters; the last row is never removed without a new one.\<close>

definition choose_integration :: "js list \<Rightarrow> nat \<Rightarrow> string \<Rightarrow> target_row list \<Rightarrow> target_row list" where
  "choose_integration integrations i chosen rows =
     (if i < length rows
      then rows[i := (rows ! i)\<lparr>tr_integration := chosen, tr_params := param_rows integrations chosen (JObj [])\<rparr>]
      else rows)"

definition remove_target :: "js list \<Rightarrow> string \<Rightarrow> nat \<Rightarrow> target_row list \<Rightarrow> target_row list" where
  "remove_target integrations now i rows =
     (let rest = take i rows @ drop (Suc i) rows
      in if rest = [] then [target_row_of integrations (empty_target integrations now)] else rest)"

definition add_target :: "js list \<Rightarrow> string \<Rightarrow> target_row list \<Rightarrow> target_row list" where
  "add_target integrations now rows = rows @ [target_row_of integrations (empty_target integrations now)]"

definition integration_name :: "(string \<Rightarrow> (string \<times> string) list \<Rightarrow> string) \<Rightarrow> js list \<Rightarrow> string \<Rightarrow> string" where
  "integration_name trp integrations chosen =
     (case find_integration integrations chosen of
        Some i \<Rightarrow> js_string (field i ''name'')
      | None \<Rightarrow> trim (trp ''notificationEndpointValue'' [(''value0'', text_or_empty (JNum (parse_int_str chosen)))]))"

definition collect_param :: "js \<Rightarrow> js \<Rightarrow> string \<times> string \<times> string \<Rightarrow> js" where
  "collect_param existing acc row =
     (case row of (key, format, value) \<Rightarrow>
        if key = [] then acc
        else if format = ''password''
        then (if value \<noteq> [] then set_field key (JStr (''ENCRYPT:'' @ value)) acc
              else if truthy (field (field existing ''params'') key) then set_field key (field (field existing ''params'') key) acc
              else acc)
        else set_field key (JStr value) acc)"

text \<open>A row is completed from the stored target at the same position.\<close>

definition collect_target ::
  "(string \<Rightarrow> (string \<times> string) list \<Rightarrow> string) \<Rightarrow> js list \<Rightarrow> string \<Rightarrow> js \<Rightarrow> nat \<Rightarrow> target_row \<Rightarrow> js" where
  "collect_target trp integrations now task index row =
     (let stored = elements (field task ''notification_targets'');
          existing = (if index < length stored then stored ! index else JUndef);
          name = integration_name trp integrations (tr_integration row) @ '' #'' @ str_of_nat (index + 1)
      in JObj [(''target_id'', js_or (field existing ''target_id'') (JStr (''target_'' @ now @ ''_'' @ str_of_nat index))),
               (''integration_id'', JNum (parse_int_str (tr_integration row))),
               (''name'', js_or (field existing ''name'') (JStr name)),
               (''enabled'', JBool (tr_enabled row)),
               (''params'', foldl (collect_param existing) (JObj []) (tr_params row))])"

definition has_integration :: "js \<Rightarrow> bool" where
  "has_integration target = (case field target ''integration_id'' of JNum (Fin q) \<Rightarrow> True | _ \<Rightarrow> False)"

definition collect_targets ::
  "(string \<Rightarrow> (string \<times> string) list \<Rightarrow> string) \<Rightarrow> js list \<Rightarrow> string \<Rightarrow> js \<Rightarrow> target_row list \<Rightarrow> js list" where
  "collect_targets trp integrations now task rows =
     filter has_integration
       (map (\<lambda>(i, r). collect_target trp integrations now task i r) (enumerate 0 rows))"

section \<open>The whole form\<close>

record task_form =
  tf_name :: string
  tf_description :: string
  tf_script :: string
  tf_enabled :: bool
  tf_timeout :: string
  tf_policy :: string
  tf_schedule :: schedule_form
  tf_rows :: "target_row list"

definition default_script :: string where
  "default_script = ''async def run(context):'' @ [CHR 0x0A] @ ''    print('' @ [CHR 0x22] @ ''Task initiated'' @ [CHR 0x22]
     @ '')'' @ [CHR 0x0A] @ ''    return {'' @ [CHR 0x22] @ ''success'' @ [CHR 0x22] @ '': True}'' @ [CHR 0x0A]"

definition open_task_form :: "js list \<Rightarrow> string \<Rightarrow> js \<Rightarrow> task_form" where
  "open_task_form integrations now task =
     \<lparr>tf_name = text_input (attr_text (js_or (field task ''name'') (JStr []))),
      tf_description = textarea_value (text_or_empty (field task ''description'')),
      tf_script = textarea_value (js_string (js_or (field task ''script_code'') (JStr default_script))),
      tf_enabled = (\<not> strict_eq (field task ''enabled'') (JBool False)),
      tf_timeout = number_input (js_string (js_or (field task ''timeout_seconds'') (JInt 60))),
      tf_policy = select_value [''never'', ''on_failure'', ''on_success'', ''always'']
        (\<lambda>opt. js_or (field task ''notification_policy'') (JStr ''never'') = JStr opt),
      tf_schedule = show_schedule (denormalize_schedule task),
      tf_rows = show_targets integrations now (elements (js_or (field task ''notification_targets'') (JArr [])))\<rparr>"

definition collect_task ::
  "(string \<Rightarrow> (string \<times> string) list \<Rightarrow> string) \<Rightarrow> js list \<Rightarrow> string \<Rightarrow> js \<Rightarrow> task_form \<Rightarrow> string + js" where
  "collect_task trp integrations now task f =
     (case collect_schedule (\<lambda>k. trp k []) (tf_schedule f) of
        Inl e \<Rightarrow> Inl e
      | Inr schedule \<Rightarrow>
          let targets = collect_targets trp integrations now task (tf_rows f);
              policy = (if tf_policy f = [] then ''never'' else tf_policy f)
          in if policy \<noteq> ''never'' \<and> targets = []
             then Inl (trp ''pleaseSelectAtLeastOneNotificationInterface'' [])
             else Inr (JObj
               [(''name'', JStr (trim (tf_name f))),
                (''description'', if trim (tf_description f) = [] then JNull else JStr (trim (tf_description f))),
                (''script_code'', JStr (tf_script f)), (''schedule_type'', JStr ''cron''), (''schedule_config'', schedule),
                (''enabled'', JBool (tf_enabled f)), (''timeout_seconds'', JNum (number_value 60 (tf_timeout f))),
                (''max_concurrent_runs'', JInt 1), (''notification_policy'', JStr policy),
                (''notification_targets'', JArr targets)]))"

text \<open>Saving: the request that is sent, or the error shown; the dialog stays open on an error.\<close>

datatype task_request = UpdateTask js js | CreateTask js

definition save_task ::
  "(string \<Rightarrow> (string \<times> string) list \<Rightarrow> string) \<Rightarrow> js list \<Rightarrow> string \<Rightarrow> js \<Rightarrow> js \<Rightarrow> task_form \<Rightarrow> string + task_request" where
  "save_task trp integrations now task task_id f =
     (case collect_task trp integrations now task f of
        Inl e \<Rightarrow> Inl e
      | Inr data \<Rightarrow>
          if field data ''name'' = JStr [] then Inl (trp ''taskNameCannotBeEmpty'' [])
          else if trim (js_string (field data ''script_code'')) = [] then Inl (trp ''pythonScriptCannotBeEmpty'' [])
          else if truthy task_id then Inr (UpdateTask task_id data)
          else Inr (CreateTask data))"

section \<open>Laws of the schedule\<close>

lemma shown_number [simp]: "number_value d (number_input (str_of_rat (of_int k))) = Fin (of_int k)"
  by (simp add: str_of_rat_int number_value_def)

lemma number_or_num [simp]: "number_or d (JNum n) = n"
  by (simp add: number_or_def js_coalesce_def nullish_def)

lemma Fin_int_text: "Fin (of_int k) = number_of_str (str_of_int i) \<longleftrightarrow> str_of_int i = str_of_int k"
  by (metis jnum.inject number_of_str_int of_int_eq_iff)

lemma weekday_select:
  assumes "0 \<le> k" and "k \<le> (6 :: int)"
  shows "select_value (map str_of_int [0..6]) (\<lambda>opt. Fin (of_int k) = number_of_str opt) = str_of_int k"
  using assms by (intro select_unique) (auto simp: Fin_int_text)

text \<open>A form as the browser lets the user fill it: whole numbers, a day of the week, a time of day.\<close>

definition whole :: "jnum \<Rightarrow> bool" where
  "whole n \<longleftrightarrow> (case n of Fin q \<Rightarrow> q = of_int \<lfloor>q\<rfloor> | _ \<Rightarrow> False)"

definition filled_schedule :: "schedule_form \<Rightarrow> bool" where
  "filled_schedule f \<longleftrightarrow> sf_preset f \<in> set schedule_presets
     \<and> whole (number_value 0 (sf_minute f)) \<and> whole (number_value 0 (sf_second f)) \<and> whole (number_value 1 (sf_day f))
     \<and> sf_weekday f \<in> set (map str_of_int [0..6])
     \<and> text_input (sf_time f) = sf_time f \<and> time_value (sf_time f) \<noteq> []
     \<and> text_input (sf_expression f) = sf_expression f"

lemma whole_int: "whole n \<Longrightarrow> \<exists>k. n = Fin (of_int k)"
  by (auto simp: whole_def split: jnum.splits)

lemma time_input: "text_input s = s \<Longrightarrow> text_input (time_value s) = time_value s"
  using text_input_trim [of s] by (auto simp: time_value_def text_input_def is_newline_def trim_def trim_end_def is_ws_def)

lemma time_value_idem: "time_value s \<noteq> [] \<Longrightarrow> time_value (time_value s) = time_value s"
  by (simp add: time_value_def)

lemma denormalize_preset:
  assumes "truthy task" and "\<not> strict_eq (field task ''schedule_type'') (JStr ''interval'')"
    and "field task ''schedule_config'' = JObj kvs" and "field (JObj kvs) ''preset'' = JStr p"
    and "p \<in> set schedule_presets" and "p \<noteq> ''custom''"
  shows "sv_preset (denormalize_schedule task) = p"
    and "sv_minute (denormalize_schedule task) = number_or 0 (field (JObj kvs) ''minute'')"
    and "sv_second (denormalize_schedule task) = number_or 0 (field (JObj kvs) ''second'')"
    and "sv_time (denormalize_schedule task) = js_or (field (JObj kvs) ''time'') (JStr ''00:00:00'')"
    and "sv_weekday (denormalize_schedule task) = number_or 0 (field (JObj kvs) ''day_of_week'')"
    and "sv_day (denormalize_schedule task) = number_or 1 (field (JObj kvs) ''day'')"
  using assms by (simp_all add: denormalize_schedule_def Let_def)



section \<open>Intervals become cron expressions\<close>

lemma interval_hours_unreachable: "interval_cron n \<noteq> ''0 0 */'' @ str_of_int h @ '' * * *''"
proof -
  have "\<not> (sec mod 3600 = 0 \<and> 0 < sec div 3600 \<and> sec div 3600 \<le> 23)"
    if "\<not> sec \<le> 59" "\<not> (sec mod 60 = 0 \<and> 0 < sec div 60 \<and> sec div 60 < 1440)" for sec :: int
  proof
    assume h: "sec mod 3600 = 0 \<and> 0 < sec div 3600 \<and> sec div 3600 \<le> 23"
    then obtain k where k: "sec = 60 * (60 * k)" by (auto elim!: dvdE simp: mod_eq_0_iff_dvd)
    moreover have "sec div 60 = 60 * k" "sec mod 60 = 0" "sec div 3600 = k" using k by simp_all
    ultimately show False using that h by simp
  qed
  then show ?thesis by (auto simp: interval_cron_def split: option.splits)
qed

text \<open>
  An old task that runs every hour or every few hours is converted to a cron expression no scheduler accepts:
  for every interval of whole minutes from one hour to a day the minute field gets a step of 60 or more, beyond
  the 59 that a minute field can hold, because the branch for hours is tried after the one for minutes.
\<close>

theorem hourly_interval_out_of_range:
  assumes "3600 \<le> sec" and "sec < 86400" and "60 dvd sec"
  shows "interval_cron (Fin (of_int sec)) = ''0 */'' @ str_of_int (sec div 60) @ '' * * * *'' \<and> 60 \<le> sec div 60"
proof -
  obtain m where m: "sec = 60 * m" using assms(3) by (elim dvdE)
  have "interval_seconds (Fin (of_int sec)) = Some sec" using assms(1) by (simp add: interval_seconds_def)
  moreover have "sec mod 60 = 0" "60 \<le> sec div 60" "sec div 60 < 1440" using assms(1,2) by (simp_all add: m)
  ultimately show ?thesis using assms(1) by (simp add: interval_cron_def)
qed

theorem hourly_interval_out_of_range_witness: "interval_cron (Fin 7200) = ''0 */'' @ str_of_int 120 @ '' * * * *''"
  using hourly_interval_out_of_range [of 7200] by simp

section \<open>Laws of the targets\<close>

lemma collect_params_other:
  "key \<notin> fst ` set rows \<Longrightarrow> field (foldl (collect_param ex) acc rows) key = field acc key"
proof (induction rows arbitrary: acc)
  case (Cons r rows)
  obtain k f v where r: "r = (k, f, v)" by (cases r) auto
  with Cons.prems have k: "key \<noteq> k" "key \<notin> fst ` set rows" by auto
  have "field (collect_param ex acc r) key = field acc key" using k r by (simp add: collect_param_def)
  with Cons.IH [OF k(2)] show ?case by simp
qed simp

lemma collect_params_field:
  assumes "distinct (map fst rows)" and "(key, fmt, v) \<in> set rows" and "key \<noteq> []" and "field acc key = JUndef"
  shows "field (foldl (collect_param ex) acc rows) key =
    (if fmt = ''password'' then (if v \<noteq> [] then JStr (''ENCRYPT:'' @ v)
       else if truthy (field (field ex ''params'') key) then field (field ex ''params'') key else JUndef)
     else JStr v)"
  using assms
proof (induction rows arbitrary: acc)
  case (Cons r rows)
  show ?case
  proof (cases "r = (key, fmt, v)")
    case True
    with Cons.prems(1) have "key \<notin> fst ` set rows" by auto
    then have "field (foldl (collect_param ex) acc (r # rows)) key = field (collect_param ex acc r) key"
      by (simp add: collect_params_other)
    also have "\<dots> = (if fmt = ''password'' then (if v \<noteq> [] then JStr (''ENCRYPT:'' @ v)
        else if truthy (field (field ex ''params'') key) then field (field ex ''params'') key else JUndef)
      else JStr v)" using True Cons.prems(3,4) by (simp add: collect_param_def)
    finally show ?thesis .
  next
    case False
    obtain k f w where r: "r = (k, f, w)" by (cases r) auto
    have m: "(key, fmt, v) \<in> set rows" using False Cons.prems(2) by auto
    then have "key \<noteq> k" using Cons.prems(1) r by force
    then have "field (collect_param ex acc r) key = JUndef" using Cons.prems(4) r by (simp add: collect_param_def)
    from Cons.IH [OF _ m Cons.prems(3) this] show ?thesis using Cons.prems(1) by simp
  qed
qed simp

text \<open>A stored target whose integration is on offer: its row shows that integration and its parameters.\<close>

definition offered :: "js list \<Rightarrow> js \<Rightarrow> js \<Rightarrow> bool" where
  "offered integrations target i \<longleftrightarrow>
     (\<exists>n. field target ''integration_id'' = JInt (int n) \<and> field i ''id'' = JInt (int n)) \<and> i \<in> set integrations
   \<and> (\<forall>j \<in> set integrations. field j ''id'' = field i ''id'' \<longrightarrow> j = i)"

lemma find_unique:
  assumes "x \<in> set xs" and "P x" and "\<And>y. y \<in> set xs \<Longrightarrow> P y \<Longrightarrow> y = x"
  shows "find P xs = Some x"
proof (cases "find P xs")
  case None
  then show ?thesis using assms(1,2) by (simp add: find_None_iff)
next
  case (Some y)
  then obtain i where "i < length xs" "P (xs ! i)" "y = xs ! i" by (auto simp: find_Some_iff)
  then have "y = x" using assms(3) [of y] nth_mem by blast
  with Some show ?thesis by simp
qed

lemma offered_row:
  assumes "offered integrations target i"
  shows "tr_integration (target_row_of integrations target) = js_string (field i ''id'')"
    and "find_integration integrations (js_string (field i ''id'')) = Some i"
    and "parse_int_str (js_string (field i ''id'')) = (case field target ''integration_id'' of JNum n \<Rightarrow> n | _ \<Rightarrow> NaN)"
    and "field target ''integration_id'' = field i ''id''"
proof -
  obtain n where n: "field target ''integration_id'' = JInt (int n)" "field i ''id'' = JInt (int n)"
      and i: "i \<in> set integrations" "\<And>j. j \<in> set integrations \<Longrightarrow> field j ''id'' = field i ''id'' \<Longrightarrow> j = i"
    using assms unfolding offered_def by blast
  have s: "js_string (JInt (int n)) = str_of_nat n" using str_of_rat_int [of "int n"] by (simp add: str_of_int_def)
  have p: "parse_int_str (str_of_nat n) = Fin (of_int (int n))" using parse_int_of_nat [of n] by simp
  show "tr_integration (target_row_of integrations target) = js_string (field i ''id'')"
  proof -
    have "js_string (field i ''id'') \<in> (\<lambda>i. js_string (field i ''id'')) ` set integrations" using i(1) by (rule imageI)
    then have "str_of_nat n \<in> set ([] # map (\<lambda>i. js_string (field i ''id'')) integrations)" using n s by simp
    then have "select_value ([] # map (\<lambda>i. js_string (field i ''id'')) integrations)
        (\<lambda>opt. opt \<noteq> [] \<and> opt = js_string (field target ''integration_id'')) = str_of_nat n"
      unfolding n(1) s by (rule select_unique) (metis str_of_nat_nonempty)
    then show ?thesis using n s by (simp add: target_row_of_def Let_def)
  qed
  show "parse_int_str (js_string (field i ''id'')) = (case field target ''integration_id'' of JNum n \<Rightarrow> n | _ \<Rightarrow> NaN)"
    using n s p by simp
  show "field target ''integration_id'' = field i ''id''" using n by simp
  show "find_integration integrations (js_string (field i ''id'')) = Some i"
    unfolding find_integration_def
  proof (rule find_unique)
    show "strict_eq (field i ''id'') (JNum (parse_int_str (js_string (field i ''id''))))" using n(2) s p by simp
    fix y
    assume "y \<in> set integrations" and "strict_eq (field y ''id'') (JNum (parse_int_str (js_string (field i ''id''))))"
    then have "field y ''id'' = JNum (parse_int_str (js_string (field i ''id'')))" by (metis strict_eq_imp)
    also have "\<dots> = field i ''id''" using n(2) s p by simp
    finally show "y = i" by (rule i(2) [OF \<open>y \<in> set integrations\<close>])
  qed (rule i(1))
qed

lemma row_params:
  assumes "offered integrations target i"
  shows "tr_params (target_row_of integrations target)
    = map (param_row (js_or (field target ''params'') (JObj []))) (obj_fields (field (field i ''config_schema'') ''properties''))"
  using offered_row [OF assms] by (simp add: target_row_of_def Let_def param_rows_def)

text \<open>What is read back from an untouched row at some position of the form.\<close>

lemma collect_untouched:
  assumes "offered integrations target i" and "elements (field task ''notification_targets'') = stored"
    and "j < length stored" and "obj_fields (field (field i ''config_schema'') ''properties'') = props"
    and "distinct (map fst props)" and "(key, prop) \<in> set props" and "key \<noteq> []"
    and "is_str (field prop ''format'') \<or> field prop ''format'' = JUndef"
  shows "let t = collect_target trp integrations now task j (target_row_of integrations target) in
      field t ''integration_id'' = field target ''integration_id''
    \<and> field t ''target_id'' = js_or (field (stored ! j) ''target_id'') (JStr (''target_'' @ now @ ''_'' @ str_of_nat j))
    \<and> field (field t ''params'') key =
        (if field prop ''format'' = JStr ''password''
         then (if truthy (field (field (stored ! j) ''params'') key) then field (field (stored ! j) ''params'') key else JUndef)
         else JStr (text_input (attr_text (js_or (field (js_or (field target ''params'') (JObj [])) key) (field prop ''default'')))))"
proof -
  note o = offered_row [OF assms(1)]
  obtain n where n: "field target ''integration_id'' = JInt (int n)" using assms(1) by (auto simp: offered_def)
  let ?rows = "tr_params (target_row_of integrations target)" and ?ex = "stored ! j"
  have d: "distinct (map fst ?rows)"
    unfolding row_params [OF assms(1)] assms(4) using assms(5) by (simp add: param_row_def case_prod_unfold comp_def)
  have m: "param_row (js_or (field target ''params'') (JObj [])) (key, prop) \<in> set ?rows"
    unfolding row_params [OF assms(1)] assms(4) using assms(6) by simp
  have fmt: "(text_or_empty (field prop ''format'') = ''password'') = (field prop ''format'' = JStr ''password'')"
    using assms(8) by (cases "field prop ''format''") (simp_all add: text_or_empty_def js_or_def)
  have "field (foldl (collect_param ?ex) (JObj []) ?rows) key =
      (if field prop ''format'' = JStr ''password''
       then (if truthy (field (field ?ex ''params'') key) then field (field ?ex ''params'') key else JUndef)
       else JStr (text_input (attr_text (js_or (field (js_or (field target ''params'') (JObj [])) key) (field prop ''default'')))))"
    using collect_params_field [OF d m [unfolded param_row_def, simplified] assms(7)] fmt by simp
  moreover have "JNum (parse_int_str (js_string (field i ''id''))) = field target ''integration_id''" using o(3) n by simp
  ultimately show ?thesis
    using o(1) assms(2,3) by (simp add: collect_target_def Let_def)
qed

text \<open>
  C35. Removing a notification target hands its credentials to the next one: a row is completed from the stored
  target at its position, so after a row is removed every row behind it is saved under the identity and with the
  secret parameters of the target before it, and sends them to its own integration.
\<close>

theorem removal_shifts_credentials:
  assumes "elements (field task ''notification_targets'') = stored" and "i \<le> j" and "Suc j < length stored"
    and "offered integrations (stored ! Suc j) integration"
    and "obj_fields (field (field integration ''config_schema'') ''properties'') = props" and "distinct (map fst props)"
    and "(key, prop) \<in> set props" and "key \<noteq> []" and "field prop ''format'' = JStr ''password''"
    and "truthy (field (stored ! j) ''target_id'')" and "truthy (field (field (stored ! j) ''params'') key)"
  shows "let rows = remove_target integrations now i (show_targets integrations now stored);
             t = collect_target trp integrations now task j (rows ! j) in
      field t ''integration_id'' = field (stored ! Suc j) ''integration_id''
    \<and> field t ''target_id'' = field (stored ! j) ''target_id''
    \<and> field (field t ''params'') key = field (field (stored ! j) ''params'') key"
proof -
  let ?all = "map (target_row_of integrations) stored"
  have all: "show_targets integrations now stored = ?all" using assms(3) by (auto simp: show_targets_def)
  let ?rest = "take i ?all @ drop (Suc i) ?all"
  have "length ?rest \<noteq> 0" using assms(2,3) by simp
  then have r: "remove_target integrations now i ?all = ?rest" by (auto simp: remove_target_def Let_def)
  have "?rest ! j = target_row_of integrations (stored ! Suc j)" using assms(2,3) by (simp add: nth_append)
  then show ?thesis
    using collect_untouched [OF assms(4,1) _ assms(5-8), of j trp now] assms(3,9-11) unfolding all r by (simp add: Let_def)
qed

definition demo_integration :: js where
  "demo_integration = JObj [(''id'', JInt 7), (''name'', JStr ''mail''),
     (''config_schema'', JObj [(''properties'', JObj [(''token'', JObj [(''format'', JStr ''password'')])])])]"

definition demo_target :: "string \<Rightarrow> string \<Rightarrow> js" where
  "demo_target i secret = JObj [(''target_id'', JStr i), (''integration_id'', JInt 7), (''params'', JObj [(''token'', JStr secret)])]"

lemma demo_offered: "offered [demo_integration] (demo_target i secret) demo_integration"
  unfolding offered_def by (intro conjI exI [of _ 7]) (simp_all add: demo_integration_def demo_target_def)

theorem removal_shifts_credentials_witness:
  "let task = JObj [(''notification_targets'', JArr [demo_target ''a'' ''s1'', demo_target ''b'' ''s2''])];
       rows = remove_target [demo_integration] [] 0 (show_targets [demo_integration] [] [demo_target ''a'' ''s1'', demo_target ''b'' ''s2''])
   in field (field (collect_target (\<lambda>k ps. k) [demo_integration] [] task 0 (rows ! 0)) ''params'') ''token'' = JStr ''s1''"
proof -
  let ?stored = "[demo_target ''a'' ''s1'', demo_target ''b'' ''s2'']"
  have "offered [demo_integration] (?stored ! Suc 0) demo_integration" by (simp add: demo_offered)
  moreover have "obj_fields (field (field demo_integration ''config_schema'') ''properties'') = [(''token'', JObj [(''format'', JStr ''password'')])]"
    by (simp add: demo_integration_def)
  moreover have "field (?stored ! 0) ''target_id'' = JStr ''a''" "field (?stored ! 0) ''params'' = JObj [(''token'', JStr ''s1'')]"
    by (simp_all add: demo_target_def)
  ultimately show ?thesis
    using removal_shifts_credentials [of "JObj [(''notification_targets'', JArr ?stored)]" ?stored 0 0 "[demo_integration]"
        demo_integration _ "''token''" "JObj [(''format'', JStr ''password'')]" "[]" "\<lambda>k ps. k"] by (simp add: Let_def)
qed

text \<open>
  An untouched form keeps every notification target: opening a task whose integrations are all on offer and
  saving it sends back each target with its id, its integration and, for every parameter that was set, the stored
  value; secrets are kept although the form never shows them.
\<close>

theorem edit_keeps_targets:
  assumes "elements (field task ''notification_targets'') = stored" and "j < length stored"
    and "offered integrations (stored ! j) integration"
    and "obj_fields (field (field integration ''config_schema'') ''properties'') = props" and "distinct (map fst props)"
    and "(key, prop) \<in> set props" and "key \<noteq> []"
    and "is_str (field prop ''format'') \<or> field prop ''format'' = JUndef"
    and "truthy (field (stored ! j) ''target_id'')" and "field (field (stored ! j) ''params'') key = JStr v" and "v \<noteq> []"
    and "text_input v = v"
  shows "let t = collect_target trp integrations now task j (show_targets integrations now stored ! j) in
      field t ''integration_id'' = field (stored ! j) ''integration_id''
    \<and> field t ''target_id'' = field (stored ! j) ''target_id''
    \<and> field (field t ''params'') key = JStr v"
proof -
  have all: "show_targets integrations now stored ! j = target_row_of integrations (stored ! j)"
    using assms(2) by (auto simp: show_targets_def)
  have "truthy (field (stored ! j) ''params'')" using assms(10) by (cases "field (stored ! j) ''params''") auto
  then show ?thesis
    using collect_untouched [OF assms(3,1,2,4-8), of trp now] assms(9-12)
    unfolding all by (simp add: Let_def attr_text_def text_or_empty_def)
qed

theorem edit_keeps_targets_witness:
  "field (field (collect_target (\<lambda>k ps. k) [demo_integration] [] (JObj [(''notification_targets'', JArr [demo_target ''a'' ''s1''])]) 0
     (show_targets [demo_integration] [] [demo_target ''a'' ''s1''] ! 0)) ''params'') ''token'' = JStr ''s1''"
proof -
  let ?stored = "[demo_target ''a'' ''s1'']"
  have "offered [demo_integration] (?stored ! 0) demo_integration" by (simp add: demo_offered)
  moreover have "obj_fields (field (field demo_integration ''config_schema'') ''properties'') = [(''token'', JObj [(''format'', JStr ''password'')])]"
    by (simp add: demo_integration_def)
  moreover have "field (?stored ! 0) ''target_id'' = JStr ''a''" "field (?stored ! 0) ''params'' = JObj [(''token'', JStr ''s1'')]"
    by (simp_all add: demo_target_def)
  moreover have "text_input ''s1'' = ''s1''" by (simp add: text_input_def is_newline_def)
  ultimately show ?thesis
    using edit_keeps_targets [of "JObj [(''notification_targets'', JArr ?stored)]" ?stored 0 "[demo_integration]"
        demo_integration _ "''token''" "JObj [(''format'', JStr ''password'')]" "''s1''" "\<lambda>k ps. k" "[]"] by (simp add: Let_def)
qed

end
