(* ===== verification/UrlCodec.thy ===== *)
theory UrlCodec
  imports Prelude
begin

text \<open>
  The URL functions of the host language that the front end calls: \<^verbatim>\<open>encodeURIComponent\<close>
  and \<^verbatim>\<open>URLSearchParams\<close> (serialising a list of pairs, parsing a query string, \<^verbatim>\<open>get\<close>).
  They work on the UTF-8 bytes of a string, written out for code units below 256.
  The lemmas give the round trip of the form encoding and the characters that an encoded
  component can never contain.
\<close>

section \<open>Percent encoding\<close>

definition utf8_bytes :: "char \<Rightarrow> nat list" where
  "utf8_bytes c =
     (if char_code c < 128 then [char_code c]
      else [192 + char_code c div 64, 128 + char_code c mod 64])"

definition hex_char :: "nat \<Rightarrow> char" where
  "hex_char n = (if n < 10 then char_of (48 + n) else char_of (55 + n))"

definition hex_val :: "char \<Rightarrow> nat option" where
  "hex_val c =
     (let n = char_code c in
      if 48 \<le> n \<and> n \<le> 57 then Some (n - 48)
      else if 65 \<le> n \<and> n \<le> 70 then Some (n - 55)
      else if 97 \<le> n \<and> n \<le> 102 then Some (n - 87)
      else None)"

definition pct :: "nat \<Rightarrow> string" where
  "pct b = [CHR ''%'', hex_char (b div 16), hex_char (b mod 16)]"

definition uri_unreserved :: "char \<Rightarrow> bool" where
  "uri_unreserved c \<longleftrightarrow> is_alnum c \<or> c \<in> set ''-_.!~*()'' \<or> c = CHR 0x27"

definition encode_uri_component :: "string \<Rightarrow> string" where
  "encode_uri_component s =
     concat (map (\<lambda>c. if uri_unreserved c then [c] else concat (map pct (utf8_bytes c))) s)"

definition form_unreserved :: "char \<Rightarrow> bool" where
  "form_unreserved c \<longleftrightarrow> is_alnum c \<or> c \<in> set ''*-._''"

definition form_encode_char :: "char \<Rightarrow> string" where
  "form_encode_char c =
     (if c = CHR '' '' then ''+'' else if form_unreserved c then [c]
      else concat (map pct (utf8_bytes c)))"

definition form_encode :: "string \<Rightarrow> string" where
  "form_encode s = concat (map form_encode_char s)"

text \<open>\<^verbatim>\<open>new URLSearchParams(pairs).toString()\<close>.\<close>

definition form_serialize :: "(string \<times> string) list \<Rightarrow> string" where
  "form_serialize kvs = join ''&'' (map (\<lambda>(k, v). form_encode k @ ''='' @ form_encode v) kvs)"

section \<open>Decoding\<close>

fun form_bytes :: "string \<Rightarrow> nat list" where
  "form_bytes [] = []"
| "form_bytes (c # r) =
     (if c = CHR ''+'' then 32 # form_bytes r
      else if c = CHR ''%'' then
        (case r of
           a # b # r' \<Rightarrow>
             (case (hex_val a, hex_val b) of
                (Some x, Some y) \<Rightarrow> (16 * x + y) # form_bytes r'
              | _ \<Rightarrow> 37 # form_bytes r)
         | _ \<Rightarrow> 37 # form_bytes r)
      else utf8_bytes c @ form_bytes r)"

text \<open>A byte sequence that encodes no code unit below 256 decodes to a replacement character.\<close>

fun utf8_decode :: "nat list \<Rightarrow> string" where
  "utf8_decode [] = []"
| "utf8_decode (b # r) =
     (if b < 128 then char_of b # utf8_decode r
      else (case r of
              b' # r' \<Rightarrow>
                (if (b = 194 \<or> b = 195) \<and> 128 \<le> b' \<and> b' < 192
                 then char_of ((b - 192) * 64 + (b' - 128)) # utf8_decode r'
                 else CHR ''?'' # utf8_decode r)
            | [] \<Rightarrow> [CHR ''?'']))"

definition form_decode :: "string \<Rightarrow> string" where
  "form_decode s = utf8_decode (form_bytes s)"

fun break_at :: "char \<Rightarrow> string \<Rightarrow> string \<times> string" where
  "break_at d [] = ([], [])"
| "break_at d (c # cs) = (if c = d then ([], cs) else (let (a, b) = break_at d cs in (c # a, b)))"

definition parse_pair :: "string \<Rightarrow> string \<times> string" where
  "parse_pair p = (let (k, v) = break_at (CHR ''='') p in (form_decode k, form_decode v))"

text \<open>\<^verbatim>\<open>new URLSearchParams(query)\<close>: one leading question mark is skipped, so are empty pieces.\<close>

definition form_parse :: "string \<Rightarrow> (string \<times> string) list" where
  "form_parse q =
     (let q' = (case q of c # r \<Rightarrow> if c = CHR ''?'' then r else q | [] \<Rightarrow> [])
      in map parse_pair (filter (\<lambda>p. p \<noteq> []) (split_on (CHR ''&'') q')))"

text \<open>\<^verbatim>\<open>params.get(k)\<close>: the first value, \<open>None\<close> for null.\<close>

definition params_get :: "(string \<times> string) list \<Rightarrow> string \<Rightarrow> string option" where
  "params_get kvs k = map_of kvs k"

text \<open>\<^verbatim>\<open>params.set(k, v)\<close>: the first entry is replaced and the others removed, else appended.\<close>

fun params_set :: "string \<Rightarrow> string \<Rightarrow> (string \<times> string) list \<Rightarrow> (string \<times> string) list" where
  "params_set k v [] = [(k, v)]"
| "params_set k v ((k', v') # r) =
     (if k' = k then (k, v) # filter (\<lambda>p. fst p \<noteq> k) r else (k', v') # params_set k v r)"

text \<open>
  \<^verbatim>\<open>decodeURIComponent\<close>: \<open>None\<close> where it throws. A well-formed sequence for a code point above
  255 decodes to a replacement character, since strings hold code units below 256.
\<close>

fun uri_bytes :: "string \<Rightarrow> nat list option" where
  "uri_bytes [] = Some []"
| "uri_bytes (c # r) =
     (if c = CHR ''%'' then
        (case r of
           a # b # r' \<Rightarrow>
             (case (hex_val a, hex_val b) of
                (Some x, Some y) \<Rightarrow> map_option ((#) (16 * x + y)) (uri_bytes r')
              | _ \<Rightarrow> None)
         | _ \<Rightarrow> None)
      else map_option ((@) (utf8_bytes c)) (uri_bytes r))"

definition utf8_cont :: "nat \<Rightarrow> bool" where
  "utf8_cont b \<longleftrightarrow> 128 \<le> b \<and> b < 192"

fun utf8_strict :: "nat list \<Rightarrow> string option" where
  "utf8_strict [] = Some []"
| "utf8_strict (b # r) =
     (if b < 128 then map_option ((#) (char_of b)) (utf8_strict r)
      else if b = 194 \<or> b = 195 then
        (case r of
           c # r' \<Rightarrow> if utf8_cont c then map_option ((#) (char_of ((b - 192) * 64 + (c - 128)))) (utf8_strict r') else None
         | [] \<Rightarrow> None)
      else if 196 \<le> b \<and> b < 224 then
        (case r of
           c # r' \<Rightarrow> if utf8_cont c then map_option ((#) (CHR ''?'')) (utf8_strict r') else None
         | [] \<Rightarrow> None)
      else if 224 \<le> b \<and> b < 240 then
        (case r of
           c # d # r' \<Rightarrow> if utf8_cont c \<and> utf8_cont d then map_option ((#) (CHR ''?'')) (utf8_strict r') else None
         | _ \<Rightarrow> None)
      else if 240 \<le> b \<and> b < 245 then
        (case r of
           c # d # e # r' \<Rightarrow>
             if utf8_cont c \<and> utf8_cont d \<and> utf8_cont e
             then map_option ((#) (CHR ''?'')) (utf8_strict r') else None
         | _ \<Rightarrow> None)
      else None)"

definition decode_uri_component :: "string \<Rightarrow> string option" where
  "decode_uri_component s = (case uri_bytes s of Some bs \<Rightarrow> utf8_strict bs | None \<Rightarrow> None)"

section \<open>Laws\<close>

lemma hex_val_char [simp]: "n < 16 \<Longrightarrow> hex_val (hex_char n) = Some n"
  by (auto simp: hex_val_def hex_char_def Let_def)

lemma utf8_bytes_bound: "b \<in> set (utf8_bytes c) \<Longrightarrow> b < 256"
proof -
  have "char_code c div 64 < 4"
    using char_code_less[of c] by linarith
  then show "b \<in> set (utf8_bytes c) \<Longrightarrow> b < 256"
    by (auto simp: utf8_bytes_def split: if_splits)
qed

lemma form_bytes_pct: "b < 256 \<Longrightarrow> form_bytes (pct b @ r) = b # form_bytes r"
  by (simp add: pct_def)

lemma form_bytes_pcts:
  "\<forall>b \<in> set bs. b < 256 \<Longrightarrow> form_bytes (concat (map pct bs) @ r) = bs @ form_bytes r"
  by (induction bs) (auto simp: form_bytes_pct)

lemma form_unreserved_plain:
  "form_unreserved c \<Longrightarrow> c \<noteq> CHR ''+'' \<and> c \<noteq> CHR ''%'' \<and> c \<noteq> CHR ''&'' \<and> c \<noteq> CHR ''='' \<and> c \<noteq> CHR ''?''"
  by (auto simp: form_unreserved_def char_class_defs)

lemma form_bytes_encode_char: "form_bytes (form_encode_char c @ r) = utf8_bytes c @ form_bytes r"
proof (cases "c = CHR '' ''")
  case True
  then show ?thesis by (simp add: form_encode_char_def utf8_bytes_def char_code_def)
next
  case False
  show ?thesis
  proof (cases "form_unreserved c")
    case True
    with False form_unreserved_plain[OF True] show ?thesis by (simp add: form_encode_char_def)
  next
    case False2: False
    have "form_bytes (concat (map pct (utf8_bytes c)) @ r) = utf8_bytes c @ form_bytes r"
      by (rule form_bytes_pcts) (auto intro: utf8_bytes_bound)
    with False False2 show ?thesis by (simp add: form_encode_char_def)
  qed
qed

lemma form_bytes_encode: "form_bytes (form_encode s) = concat (map utf8_bytes s)"
  by (induction s) (auto simp: form_encode_def form_bytes_encode_char)

lemma utf8_decode_bytes: "utf8_decode (utf8_bytes c @ r) = c # utf8_decode r"
proof (cases "char_code c < 128")
  case True
  then show ?thesis by (simp add: utf8_bytes_def)
next
  case False
  let ?n = "char_code c"
  have n: "128 \<le> ?n" "?n < 256" using False by auto
  then have d: "?n div 64 = 2 \<or> ?n div 64 = 3" by arith
  have "?n div 64 * 64 + ?n mod 64 = ?n" by simp
  with d False show ?thesis by (auto simp: utf8_bytes_def)
qed

lemma form_decode_encode [simp, string_laws]: "form_decode (form_encode s) = s"
proof -
  have "utf8_decode (concat (map utf8_bytes s)) = s"
    by (induction s) (auto simp: utf8_decode_bytes)
  then show ?thesis by (simp add: form_decode_def form_bytes_encode)
qed

lemma pct_chars: "b < 256 \<Longrightarrow> x \<in> set (pct b) \<Longrightarrow> x = CHR ''%'' \<or> is_alnum x"
proof -
  assume b: "b < 256" and x: "x \<in> set (pct b)"
  have h: "n < 16 \<Longrightarrow> is_alnum (hex_char n)" for n
    by (auto simp: is_alnum_def is_digit_def is_upper_ascii_def hex_char_def)
  have "b div 16 < 16" using b by linarith
  with x h[of "b div 16"] h[of "b mod 16"] show ?thesis
    by (auto simp: pct_def)
qed

lemma alnum_plain: "is_alnum c \<Longrightarrow> c \<notin> set ''&=?/#:+% ''"
  by (auto simp: char_class_defs)

lemma form_encode_chars:
  assumes "x \<in> set (form_encode s)"
  shows "x \<noteq> CHR ''&'' \<and> x \<noteq> CHR ''=''" "x \<noteq> CHR ''?''"
proof -
  from assms obtain c where c: "x \<in> set (form_encode_char c)"
    by (auto simp: form_encode_def)
  have "x \<noteq> CHR ''&'' \<and> x \<noteq> CHR ''='' \<and> x \<noteq> CHR ''?''"
  proof (cases "c = CHR '' '' \<or> form_unreserved c")
    case True
    with c form_unreserved_plain[of c] show ?thesis
      by (auto simp: form_encode_char_def split: if_splits)
  next
    case False
    with c obtain b where "b \<in> set (utf8_bytes c)" "x \<in> set (pct b)"
      by (auto simp: form_encode_char_def)
    then have "x = CHR ''%'' \<or> is_alnum x"
      using pct_chars utf8_bytes_bound by metis
    then show ?thesis using alnum_plain[of x] by auto
  qed
  then show "x \<noteq> CHR ''&'' \<and> x \<noteq> CHR ''=''" "x \<noteq> CHR ''?''" by auto
qed

lemma break_at_append: "d \<notin> set a \<Longrightarrow> break_at d (a @ d # b) = (a, b)"
  by (induction a) auto

lemma parse_pair_encode: "parse_pair (form_encode k @ ''='' @ form_encode v) = (k, v)"
proof -
  have "CHR ''='' \<notin> set (form_encode k)" using form_encode_chars(1) by blast
  then show ?thesis by (simp add: parse_pair_def break_at_append)
qed

lemma form_parse_serialize [string_laws]: "form_parse (form_serialize kvs) = kvs"
proof (cases kvs)
  case Nil
  then show ?thesis by (simp add: form_parse_def form_serialize_def)
next
  case (Cons kv rest)
  let ?e = "\<lambda>(k, v). form_encode k @ ''='' @ form_encode v"
  let ?ws = "map ?e kvs"
  have noamp: "\<forall>w \<in> set ?ws. CHR ''&'' \<notin> set w"
    using form_encode_chars(1) by auto
  have hd: "hd (form_serialize kvs) \<noteq> CHR ''?'' \<and> form_serialize kvs \<noteq> []"
  proof -
    obtain k v where kv: "kv = (k, v)" by (cases kv)
    have "\<exists>t. form_serialize kvs = form_encode k @ CHR ''='' # t"
      using Cons kv by (cases rest) (auto simp: form_serialize_def)
    then obtain t where t: "form_serialize kvs = form_encode k @ CHR ''='' # t" by blast
    then show ?thesis using form_encode_chars(2)[of _ k] by (cases "form_encode k") auto
  qed
  then have "form_parse (form_serialize kvs)
      = map parse_pair (filter (\<lambda>p. p \<noteq> []) (split_on (CHR ''&'') (form_serialize kvs)))"
    by (cases "form_serialize kvs") (auto simp: form_parse_def)
  also have "split_on (CHR ''&'') (form_serialize kvs) = ?ws"
    unfolding form_serialize_def by (rule split_on_join) (use noamp Cons in auto)
  also have "filter (\<lambda>p. p \<noteq> []) ?ws = ?ws"
    by (auto simp: filter_id_conv)
  also have "map parse_pair ?ws = kvs"
    unfolding map_map by (rule map_idI) (auto simp: parse_pair_encode[simplified])
  finally show ?thesis .
qed

lemma params_set_fresh: "k \<notin> fst ` set kvs \<Longrightarrow> params_set k v kvs = kvs @ [(k, v)]"
  by (induction kvs) auto

lemma params_get_set: "params_get (params_set k v kvs) k' = (if k' = k then Some v else params_get kvs k')"
  by (induction kvs) (auto simp: params_get_def filter_keys_map_of[of "\<lambda>x. x \<noteq> k"])

text \<open>An encoded component cannot leave its place in a URL.\<close>

lemma encode_uri_component_chars [string_laws]:
  assumes "x \<in> set (encode_uri_component s)"
  shows "x \<notin> set ''/?&#=:+ ''"
proof -
  let ?f = "\<lambda>c. if uri_unreserved c then [c] else concat (map pct (utf8_bytes c))"
  from assms have "\<exists>c. x \<in> set (?f c)"
    unfolding encode_uri_component_def set_concat set_map by blast
  then obtain c where c: "x \<in> set (?f c)" by blast
  show ?thesis
  proof (cases "uri_unreserved c")
    case True
    with c alnum_plain[of x] show ?thesis by (auto simp: uri_unreserved_def)
  next
    case False
    with c obtain b where "b \<in> set (utf8_bytes c)" "x \<in> set (pct b)" by auto
    then have "x = CHR ''%'' \<or> is_alnum x"
      using pct_chars utf8_bytes_bound by metis
    then show ?thesis using alnum_plain[of x] by auto
  qed
qed

lemma encode_uri_component_no_semicolon: "CHR '';'' \<notin> set (encode_uri_component s)"
proof
  let ?f = "\<lambda>c. if uri_unreserved c then [c] else concat (map pct (utf8_bytes c))"
  assume "CHR '';'' \<in> set (encode_uri_component s)"
  then obtain c where c: "CHR '';'' \<in> set (?f c)"
    unfolding encode_uri_component_def set_concat set_map by blast
  show False
  proof (cases "uri_unreserved c")
    case True
    with c show False by (auto simp: uri_unreserved_def char_class_defs)
  next
    case False
    with c obtain b where "b \<in> set (utf8_bytes c)" "CHR '';'' \<in> set (pct b)" by auto
    then have "is_alnum (CHR '';'')"
      using pct_chars [OF utf8_bytes_bound] by fastforce
    then show False by (simp add: char_class_defs)
  qed
qed

section \<open>Round trip of \<^verbatim>\<open>encodeURIComponent\<close>\<close>

lemma uri_unreserved_plain: "uri_unreserved c \<Longrightarrow> c \<noteq> CHR ''%'' \<and> c \<noteq> CHR ''+''"
  by (auto simp: uri_unreserved_def char_class_defs)

lemma uri_bytes_pct: "b < 256 \<Longrightarrow> uri_bytes (pct b @ r) = map_option ((#) b) (uri_bytes r)"
proof -
  assume "b < 256"
  then have "b div 16 < 16" by linarith
  then show ?thesis by (simp add: pct_def)
qed

lemma uri_bytes_pcts:
  "\<forall>b \<in> set bs. b < 256 \<Longrightarrow> uri_bytes (concat (map pct bs) @ r) = map_option ((@) bs) (uri_bytes r)"
proof (induction bs)
  case Nil
  show ?case by (simp add: option.map_ident)
next
  case (Cons b bs)
  then show ?case
    by (simp add: uri_bytes_pct option.map_comp comp_def)
qed

lemma uri_bytes_encode: "uri_bytes (encode_uri_component s) = Some (concat (map utf8_bytes s))"
proof (induction s)
  case Nil
  show ?case by (simp add: encode_uri_component_def)
next
  case (Cons c s)
  have b: "\<forall>b \<in> set (utf8_bytes c). b < 256" by (auto intro: utf8_bytes_bound)
  have e: "encode_uri_component (c # s)
      = (if uri_unreserved c then [c] else concat (map pct (utf8_bytes c))) @ encode_uri_component s"
    by (simp add: encode_uri_component_def)
  show ?case
    unfolding e using Cons uri_unreserved_plain [of c] uri_bytes_pcts [OF b] by simp
qed

lemma utf8_strict_bytes: "utf8_strict (utf8_bytes c @ r) = map_option ((#) c) (utf8_strict r)"
proof (cases "char_code c < 128")
  case True
  then show ?thesis by (simp add: utf8_bytes_def)
next
  case False
  let ?n = "char_code c"
  have n: "128 \<le> ?n" "?n < 256" using False by auto
  then have d: "?n div 64 = 2 \<or> ?n div 64 = 3" by arith
  have "?n div 64 * 64 + ?n mod 64 = ?n" by simp
  with d False show ?thesis by (auto simp: utf8_bytes_def utf8_cont_def)
qed

lemma decode_encode_uri [simp, string_laws]: "decode_uri_component (encode_uri_component s) = Some s"
proof -
  have "utf8_strict (concat (map utf8_bytes s)) = Some s"
    by (induction s) (auto simp: utf8_strict_bytes)
  then show ?thesis by (simp add: decode_uri_component_def uri_bytes_encode)
qed

text \<open>What a server's query parser reads back is the text that was encoded.\<close>

lemma form_serialize_no_question: "CHR ''?'' \<notin> set (form_serialize kvs)"
proof -
  have e: "CHR ''?'' \<notin> set (form_encode s)" for s using form_encode_chars [of _ s] by fastforce
  show ?thesis
    unfolding form_serialize_def
  proof (induction kvs)
    case (Cons kv kvs)
    obtain k v where "kv = (k, v)" by (cases kv)
    with Cons e [of k] e [of v] show ?case by (cases kvs) auto
  qed simp
qed

lemma form_bytes_uri_encode: "form_bytes (encode_uri_component s) = concat (map utf8_bytes s)"
proof (induction s)
  case Nil
  show ?case by (simp add: encode_uri_component_def)
next
  case (Cons c s)
  have b: "\<forall>b \<in> set (utf8_bytes c). b < 256" by (auto intro: utf8_bytes_bound)
  have e: "encode_uri_component (c # s)
      = (if uri_unreserved c then [c] else concat (map pct (utf8_bytes c))) @ encode_uri_component s"
    by (simp add: encode_uri_component_def)
  show ?case
    unfolding e using Cons uri_unreserved_plain [of c] form_bytes_pcts [OF b] by simp
qed

lemma form_decode_uri_encode [simp, string_laws]: "form_decode (encode_uri_component s) = s"
proof -
  have "utf8_decode (concat (map utf8_bytes s)) = s"
    by (induction s) (auto simp: utf8_decode_bytes)
  then show ?thesis by (simp add: form_decode_def form_bytes_uri_encode)
qed

lemma encode_uri_component_Nil [simp]: "encode_uri_component [] = []"
  by (simp add: encode_uri_component_def)

lemma encode_uri_component_eq_Nil [simp]: "encode_uri_component s = [] \<longleftrightarrow> s = []"
  using decode_encode_uri [of s] decode_encode_uri [of "[]"] by (metis encode_uri_component_Nil option.inject)

end
