(* ===== verification/Pager.thy ===== *)
theory Pager
  imports Complex_Main
begin

text \<open>
  The buttons below a list of pages, as the lists of events (pages/alerts.js) and of reports (pages/inspection.js)
  write them: an arrow, the first page, the last, those near the one on display with dots around them, an arrow.
\<close>

datatype pager_item = Arrow bool int | PageButton bool int | Dots

definition pager_entry :: "int \<Rightarrow> int \<Rightarrow> int \<Rightarrow> pager_item list" where
  "pager_entry current last_page i =
     (if i = 1 \<or> i = last_page \<or> (current - 2 \<le> i \<and> i \<le> current + 2) then [PageButton (i = current) i]
      else if i = current - 3 \<or> i = current + 3 then [Dots] else [])"

definition page_buttons :: "int \<Rightarrow> int \<Rightarrow> pager_item list" where
  "page_buttons current last_page =
     (if last_page \<le> 1 then []
      else Arrow (current = 1) (current - 1) # concat (map (pager_entry current last_page) [1..last_page]) @
           [Arrow (current = last_page) (current + 1)])"

lemma length_concat_sparse:
  "(\<And>i. length (f i) \<le> 1) \<Longrightarrow> length (concat (map f xs)) = length (filter (\<lambda>i. f i \<noteq> []) xs)"
proof (induction xs)
  case (Cons x xs)
  from Cons.prems [of x] have "length (f x) = (if f x \<noteq> [] then 1 else 0)" by (cases "f x") simp_all
  then show ?case using Cons by simp
qed simp

lemma pager_entry_one: "length (pager_entry c n i) \<le> 1"
  by (simp add: pager_entry_def)

lemma pager_entry_where: "pager_entry c n i \<noteq> [] \<Longrightarrow> i \<in> set [1, n, c - 3, c - 2, c - 1, c, c + 1, c + 2, c + 3]"
  by (auto simp: pager_entry_def split: if_splits)

lemma pager_entries_few: "length (concat (map (pager_entry c n) [1..n])) \<le> 9"
proof -
  let ?s = "[1, n, c - 3, c - 2, c - 1, c, c + 1, c + 2, c + 3]"
  let ?xs = "filter (\<lambda>i. pager_entry c n i \<noteq> []) [1..n]"
  have "length ?xs = card (set ?xs)" by (rule distinct_card [symmetric]) simp
  also have "\<dots> \<le> card (set ?s)" using pager_entry_where by (intro card_mono) auto
  also have "\<dots> \<le> length ?s" by (rule card_length)
  finally show ?thesis unfolding length_concat_sparse [OF pager_entry_one] by simp
qed

lemma page_buttons_in_range:
  assumes "1 \<le> c" and "c \<le> n" and "1 < n"
  shows "length (page_buttons c n) \<le> 11
     \<and> {PageButton (c = 1) 1, PageButton (c = n) n, PageButton True c} \<subseteq> set (page_buttons c n)
     \<and> list_all (\<lambda>b. case b of
           PageButton marked i \<Rightarrow> 1 \<le> i \<and> i \<le> n \<and> marked = (i = c)
         | Arrow disabled i \<Rightarrow> disabled \<or> (1 \<le> i \<and> i \<le> n)
         | Dots \<Rightarrow> True) (page_buttons c n)"
proof -
  let ?es = "concat (map (pager_entry c n) [1..n])"
  have p: "page_buttons c n = Arrow (c = 1) (c - 1) # ?es @ [Arrow (c = n) (c + 1)]"
    using assms(3) by (simp add: page_buttons_def)
  have m: "PageButton (i = c) i \<in> set (page_buttons c n)" if "i \<in> {1, n, c}" for i
  proof -
    have "i \<in> set [1..n]" using that assms by auto
    moreover have "PageButton (i = c) i \<in> set (pager_entry c n i)" using that by (auto simp: pager_entry_def)
    ultimately have "PageButton (i = c) i \<in> set ?es" unfolding set_concat set_map by blast
    then show ?thesis by (simp add: p)
  qed
  have e: "list_all (\<lambda>b. case b of
           PageButton marked i \<Rightarrow> 1 \<le> i \<and> i \<le> n \<and> marked = (i = c)
         | Arrow disabled i \<Rightarrow> disabled \<or> (1 \<le> i \<and> i \<le> n)
         | Dots \<Rightarrow> True) ?es"
    by (auto simp: list_all_iff pager_entry_def split: if_splits)
  have "length (page_buttons c n) \<le> 11" using pager_entries_few [of c n] by (simp add: p)
  moreover have "{PageButton (c = 1) 1, PageButton (c = n) n, PageButton True c} \<subseteq> set (page_buttons c n)"
    using m [of 1] m [of n] m [of c] by (simp add: eq_commute [of _ c])
  moreover have "list_all (\<lambda>b. case b of
           PageButton marked i \<Rightarrow> 1 \<le> i \<and> i \<le> n \<and> marked = (i = c)
         | Arrow disabled i \<Rightarrow> disabled \<or> (1 \<le> i \<and> i \<le> n)
         | Dots \<Rightarrow> True) (page_buttons c n)"
    unfolding p using e assms(1-2) by simp linarith
  ultimately show ?thesis by blast
qed

end
