(* ===== verification/AlertsPage.thy ===== *)
theory AlertsPage
  imports AlertSilence ScheduledTasks UrlCodec Pager
begin

text \<open>
  The page of the alerts (pages/alerts.js): the list of events with its filters, its order and its pages, the
  details of an event, the labels, and the editor of a subscription, whose rows of targets are those of a
  scheduled task.
\<close>

section \<open>Filters, order, pages\<close>

record alert_filters =
  af_datasource :: js
  af_status :: string
  af_severity :: js
  af_search :: string
  af_start :: js
  af_end :: js

record alerts_page =
  al_filters :: alert_filters
  al_sort :: string
  al_order :: string
  al_page :: int
  al_size :: int
  al_total :: int
  al_events :: "js list"
  al_expanded :: "js list"
  al_alerts :: "(string, js) jsmap"
  al_contexts :: "(string, js) jsmap"
  al_timer :: bool

definition no_filters :: alert_filters where
  "no_filters = \<lparr>af_datasource = JNull, af_status = ''all'', af_severity = JNull, af_search = [], af_start = JNull, af_end = JNull\<rparr>"

definition alerts_init :: alerts_page where
  "alerts_init = \<lparr>al_filters = no_filters, al_sort = [], al_order = ''desc'', al_page = 1, al_size = 10, al_total = 0,
     al_events = [], al_expanded = [], al_alerts = [], al_contexts = [], al_timer = False\<rparr>"

text \<open>The parameters of the request for the events, in the order they are appended.\<close>

definition given :: "string \<Rightarrow> js \<Rightarrow> (string \<times> string) list" where
  "given k v = (if truthy v then [(k, js_string v)] else [])"

definition events_params :: "alerts_page \<Rightarrow> (string \<times> string) list" where
  "events_params p =
     (let f = al_filters p
      in given ''datasource_ids'' (af_datasource f) @
         (if af_status f \<noteq> [] \<and> af_status f \<noteq> ''all'' then [(''status'', af_status f)] else []) @
         given ''severity'' (af_severity f) @ given ''search'' (JStr (af_search f)) @
         given ''start_time'' (af_start f) @ given ''end_time'' (af_end f) @
         given ''sort_by'' (JStr (al_sort p)) @ given ''sort_order'' (JStr (al_order p)) @
         [(''limit'', str_of_int (al_size p)), (''offset'', str_of_int ((al_page p - 1) * al_size p))])"

definition events_path :: "alerts_page \<Rightarrow> string" where
  "events_path p = ''/api/alerts/events?'' @ form_serialize (events_params p)"

text \<open>The answer, or none when the request or reading it failed.\<close>

definition whole_number :: "js \<Rightarrow> int" where
  "whole_number v = (case v of JNum (Fin q) \<Rightarrow> \<lfloor>q\<rfloor> | _ \<Rightarrow> 0)"

definition events_loaded :: "js option \<Rightarrow> alerts_page \<Rightarrow> alerts_page" where
  "events_loaded answer p =
     (case answer of
        Some r \<Rightarrow> if nullish r then p\<lparr>al_events := [], al_total := 0\<rparr>
                  else p\<lparr>al_events := elements (js_or (field r ''events'') (JArr [])),
                         al_total := whole_number (js_or (field r ''total'') (JInt 0))\<rparr>
      | None \<Rightarrow> p\<lparr>al_events := [], al_total := 0\<rparr>)"

definition reset_pagination :: "alerts_page \<Rightarrow> alerts_page" where
  "reset_pagination p = p\<lparr>al_page := 1\<rparr>"

text \<open>The controls of the header; each resets the page and loads the events.\<close>

definition filter_datasource :: "js \<Rightarrow> alerts_page \<Rightarrow> alerts_page" where
  "filter_datasource ds p =
     reset_pagination (p\<lparr>al_filters := (al_filters p)\<lparr>af_datasource := (if truthy ds then field ds ''id'' else JNull)\<rparr>\<rparr>)"

definition filter_status :: "string \<Rightarrow> alerts_page \<Rightarrow> alerts_page" where
  "filter_status v p = reset_pagination (p\<lparr>al_filters := (al_filters p)\<lparr>af_status := v\<rparr>\<rparr>)"

definition filter_severity :: "string \<Rightarrow> alerts_page \<Rightarrow> alerts_page" where
  "filter_severity v p = reset_pagination (p\<lparr>al_filters := (al_filters p)\<lparr>af_severity := js_or (JStr v) JNull\<rparr>\<rparr>)"

definition filter_start :: "string \<Rightarrow> alerts_page \<Rightarrow> alerts_page" where
  "filter_start v p = reset_pagination (p\<lparr>al_filters := (al_filters p)\<lparr>af_start := js_or (JStr v) JNull\<rparr>\<rparr>)"

definition filter_end :: "string \<Rightarrow> alerts_page \<Rightarrow> alerts_page" where
  "filter_end v p = reset_pagination (p\<lparr>al_filters := (al_filters p)\<lparr>af_end := js_or (JStr v) JNull\<rparr>\<rparr>)"

text \<open>The search waits half a second: the filter is set at once, the page is reset when the timer fires.\<close>

definition type_search :: "string \<Rightarrow> alerts_page \<Rightarrow> alerts_page" where
  "type_search v p = p\<lparr>al_filters := (al_filters p)\<lparr>af_search := v\<rparr>, al_timer := True\<rparr>"

definition search_fires :: "alerts_page \<Rightarrow> alerts_page" where
  "search_fires p = (if al_timer p then reset_pagination (p\<lparr>al_timer := False\<rparr>) else p)"

definition go_to_page :: "int \<Rightarrow> alerts_page \<Rightarrow> alerts_page" where
  "go_to_page n p = p\<lparr>al_page := n\<rparr>"

definition toggle_alert_sort :: "string \<Rightarrow> alerts_page \<Rightarrow> alerts_page" where
  "toggle_alert_sort k p =
     reset_pagination (if al_sort p = k then p\<lparr>al_order := (if al_order p = ''asc'' then ''desc'' else ''asc'')\<rparr>
                       else p\<lparr>al_sort := k, al_order := ''desc''\<rparr>)"

text \<open>The buttons below the list: a number, dots, and the two arrows with their state.\<close>

definition total_pages :: "alerts_page \<Rightarrow> int" where
  "total_pages p = \<lceil>(of_int (al_total p) :: rat) / of_int (al_size p)\<rceil>"

definition pager :: "alerts_page \<Rightarrow> pager_item list" where
  "pager p = page_buttons (al_page p) (total_pages p)"

section \<open>Details of an event\<close>

text \<open>What is known of an event is kept; only what is missing is asked for.\<close>

definition event_details_missing :: "js \<Rightarrow> alerts_page \<Rightarrow> bool \<times> bool" where
  "event_details_missing i p =
     (map_of (al_alerts p) (js_string i) = None, map_of (al_contexts p) (js_string i) = None)"

definition event_alerts_loaded :: "js \<Rightarrow> js option \<Rightarrow> alerts_page \<Rightarrow> alerts_page" where
  "event_alerts_loaded i answer p =
     (case answer of
        Some r \<Rightarrow> if nullish r then p
                  else p\<lparr>al_alerts := AList.update (js_string i) (js_or (field r ''alerts'') (JArr [])) (al_alerts p)\<rparr>
      | None \<Rightarrow> p)"

definition event_context_loaded :: "js \<Rightarrow> js option \<Rightarrow> alerts_page \<Rightarrow> alerts_page" where
  "event_context_loaded i answer p =
     (case answer of
        Some r \<Rightarrow> p\<lparr>al_contexts := AList.update (js_string i) (js_or r (JObj [])) (al_contexts p)\<rparr>
      | None \<Rightarrow> p)"

text \<open>Opening an event asks for what is missing; closing it asks for nothing.\<close>

definition toggle_event :: "js \<Rightarrow> alerts_page \<Rightarrow> (bool \<times> bool) option \<times> alerts_page" where
  "toggle_event i p =
     (if i \<in> set (al_expanded p) then (None, p\<lparr>al_expanded := filter (\<lambda>j. j \<noteq> i) (al_expanded p)\<rparr>)
      else (Some (event_details_missing i p), p\<lparr>al_expanded := al_expanded p @ [i]\<rparr>))"

text \<open>Acknowledging and resolving: the request, then the events are loaded again.\<close>

definition acknowledge_path :: "js \<Rightarrow> string" where
  "acknowledge_path i = ''/api/alerts/events/'' @ js_string i @ ''/acknowledge''"

definition resolve_path :: "js \<Rightarrow> string" where
  "resolve_path i = ''/api/alerts/events/'' @ js_string i @ ''/resolve''"

section \<open>Tabs and links\<close>

definition normalize_alert_tab :: "js \<Rightarrow> string" where
  "normalize_alert_tab t =
     (case t of JStr s \<Rightarrow> if s \<in> {''alerts'', ''subscriptions'', ''templates''} then s else ''alerts'' | _ \<Rightarrow> ''alerts'')"

definition initial_alert_tab :: "js \<Rightarrow> string" where
  "initial_alert_tab options =
     (if truthy (field options ''hideSubscriptions'') then ''alerts''
      else normalize_alert_tab (js_or (field options ''initialTab'')
             (case params_get (form_parse (text_or_empty (field options ''routeParam''))) ''tab'' of Some s \<Rightarrow> JStr s | None \<Rightarrow> JNull)))"

text \<open>Where the diagnosis of an event leads: to the chat of its instance when the page is embedded there.\<close>

definition embedded_diagnosis_link :: "js \<Rightarrow> string \<Rightarrow> string" where
  "embedded_diagnosis_link event prompt =
     ''instance-detail?'' @ form_serialize
       (params_set ''ask'' prompt (params_set ''event'' (js_string (field event ''id''))
         (params_set ''tab'' ''ai'' (params_set ''datasource'' (js_string (field event ''datasource_id'')) []))))"

definition report_link :: "bool \<Rightarrow> js \<Rightarrow> js \<Rightarrow> string" where
  "report_link embedded datasource report =
     (if embedded \<and> truthy datasource
      then ''instance-detail?'' @ form_serialize
             (params_set ''report'' (js_string report) (params_set ''tab'' ''inspections'' (params_set ''datasource'' (js_string datasource) [])))
      else ''inspection?report='' @ encode_uri_component (js_string report))"

section \<open>Labels\<close>

text \<open>\<open>tr\<close> is the table of texts of the page, with the values to insert.\<close>

type_synonym alert_texts = "string \<Rightarrow> (string \<times> js) list \<Rightarrow> string"

definition known_label :: "alert_texts \<Rightarrow> string \<Rightarrow> (string \<times> string) list \<Rightarrow> js \<Rightarrow> js \<Rightarrow> js" where
  "known_label tr family labels v otherwise =
     (case v of
        JStr s \<Rightarrow> (case map_of labels s of Some k \<Rightarrow> JStr (tr (family @ CHR ''.'' # k) []) | None \<Rightarrow> otherwise)
      | _ \<Rightarrow> otherwise)"

definition same_names :: "string list \<Rightarrow> (string \<times> string) list" where
  "same_names ks = map (\<lambda>k. (k, k)) ks"

definition severity_label :: "alert_texts \<Rightarrow> js \<Rightarrow> js" where
  "severity_label tr v = known_label tr ''severity'' (same_names [''critical'', ''high'', ''medium'', ''low'']) v v"

definition status_label :: "alert_texts \<Rightarrow> js \<Rightarrow> js" where
  "status_label tr v = known_label tr ''statuses'' (same_names [''active'', ''acknowledged'', ''resolved'']) v v"

definition alert_type_label :: "alert_texts \<Rightarrow> js \<Rightarrow> js" where
  "alert_type_label tr v = known_label tr ''alertTypes''
     [(''threshold_violation'', ''thresholdViolation''), (''baseline_deviation'', ''baselineDeviation''), (''custom_expression'', ''customExpression''),
      (''system_error'', ''systemError''), (''ai_policy_violation'', ''aiPolicyViolation'')] v v"

definition fault_domain_label :: "alert_texts \<Rightarrow> js \<Rightarrow> js" where
  "fault_domain_label tr v = known_label tr ''faultDomains'' (same_names [''availability'', ''performance'', ''storage'', ''replication'', ''general''])
     v (js_or v (JStr (tr ''faultDomains.general'' [])))"

definition lifecycle_label :: "alert_texts \<Rightarrow> js \<Rightarrow> js" where
  "lifecycle_label tr v = known_label tr ''lifecycle'' (same_names [''created'', ''active'', ''escalated'', ''acknowledged'', ''recovered''])
     v (js_or v (JStr (tr ''lifecycle.active'' [])))"

definition baseline_label :: "alert_texts \<Rightarrow> js \<Rightarrow> js" where
  "baseline_label tr v = known_label tr ''baseline''
     [(''above_baseline'', ''above''), (''within_baseline'', ''within''), (''no_profile'', ''noProfile''), (''unknown'', ''unknown'')]
     v (js_or v (JStr (tr ''baseline.unknown'' [])))"

definition report_status_label :: "alert_texts \<Rightarrow> js \<Rightarrow> js" where
  "report_status_label tr v = known_label tr ''reportStatus'' (same_names [''pending'', ''running'', ''completed'', ''failed'']) v (js_or v (JStr ''-''))"

definition alert_connection_label :: "alert_texts \<Rightarrow> js \<Rightarrow> js" where
  "alert_connection_label tr v = known_label tr ''connectionStatus'' (same_names [''normal'', ''warning'', ''failed'']) v
     (JStr (tr ''connectionStatus.unknown'' []))"

definition alert_connection_class :: "js \<Rightarrow> string" where
  "alert_connection_class v =
     (if v = JStr ''normal'' then ''status-normal'' else if v = JStr ''warning'' then ''status-warning''
      else if v = JStr ''failed'' then ''status-failed'' else ''status-unknown'')"

definition metric_names :: "(string \<times> string) list" where
  "metric_names =
     [(''cpu_usage'', ''cpu''), (''memory_usage'', ''memory''), (''disk_usage'', ''disk''), (''connections_active'', ''activeConnections''),
      (''active_connections'', ''activeConnections''), (''connection_count'', ''activeConnections''), (''threads_running'', ''activeConnections''),
      (''connections_total'', ''totalConnections''), (''total_connections'', ''totalConnections''), (''threads_connected'', ''totalConnections''),
      (''connection_status'', ''connectionStatus'')]"

definition metric_label :: "alert_texts \<Rightarrow> js \<Rightarrow> js" where
  "metric_label tr v =
     (if v = JStr ''qps'' then JStr ''QPS'' else if v = JStr ''tps'' then JStr ''TPS''
      else known_label tr ''metrics'' metric_names v (js_or v (JStr ''-'')))"

text \<open>The text of a failed connection as older servers wrote it, in Chinese, as UTF-8.\<close>

definition legacy_failure :: string where
  "legacy_failure = [CHR 0xE6, CHR 0x95, CHR 0xB0, CHR 0xE6, CHR 0x8D, CHR 0xAE, CHR 0xE5, CHR 0xBA, CHR 0x93, CHR 0xE8, CHR 0xBF, CHR 0x9E,
     CHR 0xE6, CHR 0x8E, CHR 0xA5, CHR 0xE5, CHR 0xA4, CHR 0xB1, CHR 0xE8, CHR 0xB4, CHR 0xA5]"

definition alert_title :: "alert_texts \<Rightarrow> js \<Rightarrow> string" where
  "alert_title tr a =
     (let t = field a ''alert_type''; metric = field a ''metric_name''; stored = trim (text_or_empty (field a ''title''))
      in if (t = JStr ''system_error'' \<and> metric = JStr ''connection_status'')
            \<or> to_lower stored = ''database connection failed'' \<or> stored = legacy_failure then tr ''titles.connectionFailure'' []
         else if t = JStr ''threshold_violation'' \<and> truthy metric then tr ''titles.thresholdAlert'' [(''metric'', metric_label tr metric)]
         else if t = JStr ''baseline_deviation'' \<and> truthy metric then tr ''titles.baselineAlert'' [(''metric'', metric_label tr metric)]
         else if stored = [] then ''-'' else stored)"

text \<open>What follows the words for a failed connection at the start of a text.\<close>

definition drop_ci :: "string \<Rightarrow> string \<Rightarrow> string option" where
  "drop_ci p s = (if to_lower (take (length p) s) = p then Some (drop (length p) s) else None)"

definition after_failure :: "string \<Rightarrow> string option" where
  "after_failure s =
     (case drop_ci ''database connection failed'' s of
        Some r \<Rightarrow> Some r
      | None \<Rightarrow> (case drop_ci ''connection failed'' s of
                   Some r \<Rightarrow> Some r
                 | None \<Rightarrow> if starts_with s legacy_failure then Some (drop (length legacy_failure) s) else None))"

definition drop_colon :: "string \<Rightarrow> string" where
  "drop_colon s =
     (let t = dropWhile is_ws s
      in dropWhile is_ws (if starts_with t '':'' then drop 1 t
                          else if starts_with t [CHR 0xEF, CHR 0xBC, CHR 0x9A] then drop 3 t else t))"

definition alert_reason :: "alert_texts \<Rightarrow> js \<Rightarrow> string" where
  "alert_reason tr a =
     (let reason = trim (text_or_empty (field a ''trigger_reason''))
      in if reason = [] then ''-''
         else if field a ''alert_type'' = JStr ''system_error'' \<and> field a ''metric_name'' = JStr ''connection_status''
         then (case after_failure reason of
                 None \<Rightarrow> reason
               | Some r \<Rightarrow> let detail = drop_colon r in
                   if (\<exists>c \<in> set detail. is_newline c) then reason
                   else if detail = [] then tr ''reasons.connectionFailure'' []
                   else tr ''reasons.connectionFailureDetail'' [(''detail'', JStr detail)])
         else reason)"

fun first_defined :: "js list \<Rightarrow> js" where
  "first_defined [] = JNull"
| "first_defined (v # vs) = (if nullish v \<or> v = JStr [] then first_defined vs else v)"

definition alert_time :: "js \<Rightarrow> js" where
  "alert_time a = first_defined (map (field a) [''created_at'', ''event_time'', ''alert_time'', ''triggered_at'', ''occurred_at''])"

definition alert_metric_value :: "js \<Rightarrow> js" where
  "alert_metric_value a = first_defined (map (field a) [''metric_value'', ''current_value'', ''value''])"

definition alert_threshold_value :: "js \<Rightarrow> js" where
  "alert_threshold_value a = first_defined (map (field a) [''threshold_value'', ''threshold'', ''rule_threshold''])"

text \<open>The question of a diagnosis.\<close>

definition alert_question :: "alert_texts \<Rightarrow> js \<Rightarrow> string" where
  "alert_question tr event =
     tr ''prompt'' [(''title'', JStr (alert_title tr event)),
       (''severity'', js_or (severity_label tr (field event ''severity'')) (JStr ''-'')),
       (''type'', js_or (alert_type_label tr (field event ''alert_type'')) (JStr ''-'')),
       (''metric'', js_or (metric_label tr (field event ''metric_name'')) (JStr ''-'')),
       (''count'', js_or (field event ''alert_count'') (JInt 0))]"

section \<open>The editor of a subscription\<close>

text \<open>
  \<^verbatim>\<open>DOM.el\<close> (utils/dom.js): everything that is not a class, content, a handler or a style becomes an attribute,
  with its value printed. An attribute like \<^verbatim>\<open>checked\<close> or \<^verbatim>\<open>selected\<close> counts as soon as it is there.
\<close>

definition el_attributes :: "(string \<times> js) list \<Rightarrow> (string \<times> string) list" where
  "el_attributes attrs =
     map (\<lambda>(k, v). (k, js_string v))
       (filter (\<lambda>(k, v). k \<notin> {''className'', ''innerHTML'', ''textContent'', ''dataset''} \<and> \<not> starts_with k ''on''
                  \<and> \<not> (k = ''style'' \<and> typeof_object v)) attrs)"

definition has_attribute :: "string \<Rightarrow> (string \<times> js) list \<Rightarrow> bool" where
  "has_attribute k attrs \<longleftrightarrow> map_of (el_attributes attrs) k \<noteq> None"

record subscription_form =
  uf_datasources :: "(string \<times> bool) list"
  uf_severities :: "(string \<times> bool) list"
  uf_enabled :: bool
  uf_targets :: "target_row list"

definition usable_integrations :: "js list \<Rightarrow> js list" where
  "usable_integrations items =
     filter (\<lambda>i. field i ''integration_type'' = JStr ''outbound_notification'' \<and> truthy (field i ''enabled'')) items"

definition new_subscription :: js where
  "new_subscription = JObj [(''datasource_ids'', JArr []), (''severity_levels'', JArr []), (''time_ranges'', JArr []),
     (''integration_targets'', JArr []), (''enabled'', JBool True), (''aggregation_script'', JStr [])]"

definition empty_sub_target :: "js list \<Rightarrow> js" where
  "empty_sub_target integrations =
     JObj [(''target_id'', JStr []), (''integration_id'', case integrations of [] \<Rightarrow> JNull | i # _ \<Rightarrow> field i ''id''),
           (''name'', JStr []), (''enabled'', JBool True), (''notify_on'', JArr [JStr ''alert'', JStr ''recovery'']), (''params'', JObj [])]"

text \<open>A row of a target shows what the row of a scheduled task shows.\<close>

definition sub_target_row :: "js list \<Rightarrow> js \<Rightarrow> target_row" where
  "sub_target_row integrations target = target_row_of integrations target"

definition open_subscription :: "js list \<Rightarrow> js list \<Rightarrow> js \<Rightarrow> subscription_form" where
  "open_subscription dss integrations subscription =
     (let data = (if truthy subscription then subscription else new_subscription);
          stored = elements (field data ''integration_targets'');
          chosen = (\<lambda>k v. JBool (\<exists>x \<in> set (elements (field data k)). strict_eq x v))
      in \<lparr>uf_datasources = map (\<lambda>d. (js_string (field d ''id''),
            has_attribute ''selected'' [(''value'', field d ''id''), (''textContent'', field d ''name''),
                                        (''selected'', chosen ''datasource_ids'' (field d ''id''))])) dss,
          uf_severities = map (\<lambda>l. (l,
            has_attribute ''checked'' [(''type'', JStr ''checkbox''), (''value'', JStr l), (''checked'', chosen ''severity_levels'' (JStr l)),
                                       (''className'', JStr ''severity-checkbox'')])) [''critical'', ''high'', ''medium'', ''low''],
          uf_enabled = has_attribute ''checked'' [(''type'', JStr ''checkbox''), (''id'', JStr ''sub-enabled''), (''checked'', field data ''enabled'')],
          uf_targets = map (sub_target_row integrations) (if stored = [] then [empty_sub_target integrations] else stored)\<rparr>)"

definition add_sub_target :: "js list \<Rightarrow> subscription_form \<Rightarrow> subscription_form" where
  "add_sub_target integrations f = f\<lparr>uf_targets := uf_targets f @ [sub_target_row integrations (empty_sub_target integrations)]\<rparr>"

definition remove_sub_target :: "js list \<Rightarrow> nat \<Rightarrow> subscription_form \<Rightarrow> subscription_form" where
  "remove_sub_target integrations i f =
     (let rest = take i (uf_targets f) @ drop (Suc i) (uf_targets f)
      in f\<lparr>uf_targets := (if rest = [] then [sub_target_row integrations (empty_sub_target integrations)] else rest)\<rparr>)"

definition choose_sub_integration :: "js list \<Rightarrow> nat \<Rightarrow> string \<Rightarrow> subscription_form \<Rightarrow> subscription_form" where
  "choose_sub_integration integrations i chosen f = f\<lparr>uf_targets := choose_integration integrations i chosen (uf_targets f)\<rparr>"

definition collect_sub_param :: "js \<Rightarrow> string \<times> string \<times> string \<Rightarrow> js" where
  "collect_sub_param acc row =
     (case row of (key, format, v) \<Rightarrow>
        if key = [] then acc
        else if format = ''password'' then (if v \<noteq> [] then set_field key (JStr (''ENCRYPT:'' @ v)) acc else acc)
        else set_field key (JStr v) acc)"

definition sub_integration_name :: "js list \<Rightarrow> string \<Rightarrow> string" where
  "sub_integration_name integrations chosen =
     (case find_integration integrations chosen of
        Some i \<Rightarrow> js_string (field i ''name'')
      | None \<Rightarrow> ''Integration #'' @ js_string (JNum (parse_int_str chosen)))"

definition collect_sub_target :: "js list \<Rightarrow> string \<Rightarrow> js \<Rightarrow> nat \<Rightarrow> target_row \<Rightarrow> js" where
  "collect_sub_target integrations now subscription index row =
     (let stored = elements (field subscription ''integration_targets'');
          existing = (if index < length stored then stored ! index else JUndef);
          name = trim (text_or_empty (field existing ''name''))
      in JObj [(''target_id'', js_or (field existing ''target_id'') (JStr (''target_'' @ now @ ''_'' @ str_of_nat index))),
               (''integration_id'', JNum (parse_int_str (tr_integration row))),
               (''name'', JStr (if name \<noteq> [] then name
                               else sub_integration_name integrations (tr_integration row) @ '' #'' @ str_of_nat (index + 1))),
               (''enabled'', JBool (tr_enabled row)),
               (''notify_on'', JArr [JStr ''alert'', JStr ''recovery'']),
               (''params'', foldl collect_sub_param (JObj []) (tr_params row))])"

text \<open>What is sent, or none when no row has an integration.\<close>

definition collect_subscription :: "js list \<Rightarrow> string \<Rightarrow> js \<Rightarrow> subscription_form \<Rightarrow> js option" where
  "collect_subscription integrations now subscription f =
     (let targets = filter has_integration (map (\<lambda>(i, r). collect_sub_target integrations now subscription i r) (enumerate 0 (uf_targets f)))
      in if targets = [] then None
         else Some (JObj [(''datasource_ids'', JArr (map (\<lambda>x. JNum (parse_int_str (fst x))) (filter snd (uf_datasources f)))),
                          (''severity_levels'', JArr (map (\<lambda>x. JStr (fst x)) (filter snd (uf_severities f)))),
                          (''integration_targets'', JArr targets), (''enabled'', JBool (uf_enabled f))]))"

definition subscription_request :: "js \<Rightarrow> string \<times> string" where
  "subscription_request subscription =
     (if truthy subscription then (''PUT'', ''/api/alerts/subscriptions/'' @ js_string (field subscription ''id''))
      else (''POST'', ''/api/alerts/subscriptions''))"

section \<open>The pages of the list\<close>

text \<open>
  C29. The buttons below the list: at most eleven, whatever the number of pages; the first page, the last and the
  one on display are among them, the one on display alone is marked, and neither a number nor an arrow that can
  be pressed leads outside the pages there are.
\<close>

theorem pager_in_range:
  assumes "1 \<le> al_page p" and "al_page p \<le> total_pages p" and "1 < total_pages p"
  shows "length (pager p) \<le> 11
     \<and> {PageButton (al_page p = 1) 1, PageButton (al_page p = total_pages p) (total_pages p), PageButton True (al_page p)} \<subseteq> set (pager p)
     \<and> list_all (\<lambda>b. case b of
           PageButton marked i \<Rightarrow> 1 \<le> i \<and> i \<le> total_pages p \<and> marked = (i = al_page p)
         | Arrow disabled i \<Rightarrow> disabled \<or> (1 \<le> i \<and> i \<le> total_pages p)
         | Dots \<Rightarrow> True) (pager p)"
  unfolding pager_def using page_buttons_in_range [OF assms] .

theorem pager_in_range_witness:
  "length (pager (alerts_init\<lparr>al_page := 20, al_total := 5000\<rparr>)) \<le> 11"
proof -
  have "total_pages (alerts_init\<lparr>al_page := 20, al_total := 5000\<rparr>) = 500" by (simp add: total_pages_def alerts_init_def)
  then show ?thesis
    using pager_in_range [of "alerts_init\<lparr>al_page := 20, al_total := 5000\<rparr>"] by (simp add: alerts_init_def)
qed

text \<open>
  When the events left fit one page while a later page is on display, as after resolving the last event of
  that page under a filter, the list is empty and there is no button to leave the page.
\<close>

theorem stuck_on_empty_page:
  assumes "1 < al_page p" and "0 < al_size p" and "whole_number (js_or (field r ''total'') (JInt 0)) \<le> al_size p"
    and "\<not> nullish r" and "elements (js_or (field r ''events'') (JArr [])) = []"
  shows "let q = events_loaded (Some r) p in al_events q = [] \<and> al_page q = al_page p \<and> pager q = []"
proof -
  have "(of_int (whole_number (js_or (field r ''total'') (JInt 0))) :: rat) \<le> of_int (al_size p)"
    using assms(3) by (simp only: of_int_le_iff)
  then have "total_pages (events_loaded (Some r) p) \<le> 1"
    using assms(2,4) by (simp add: total_pages_def events_loaded_def ceiling_le_iff divide_le_eq)
  then show ?thesis using assms(4,5) by (simp add: events_loaded_def pager_def page_buttons_def)
qed

theorem stuck_on_empty_page_witness:
  "pager (events_loaded (Some (JObj [(''events'', JArr []), (''total'', JInt 10)])) (alerts_init\<lparr>al_page := 2\<rparr>)) = []"
  using stuck_on_empty_page [of "alerts_init\<lparr>al_page := 2\<rparr>" "JObj [(''events'', JArr []), (''total'', JInt 10)]"]
  by (simp add: alerts_init_def field_def js_or_def whole_number_def nullish_def Let_def)

section \<open>Editing a subscription\<close>

lemma marked_whatever: "k \<notin> {''className'', ''innerHTML'', ''textContent'', ''dataset'', ''style''} \<Longrightarrow> \<not> starts_with k ''on'' \<Longrightarrow>
     has_attribute k (as @ (k, v) # bs)"
  by (auto simp: has_attribute_def el_attributes_def map_of_eq_None_iff image_iff)

text \<open>
  The editor of a subscription marks everything: whatever the subscription says, each datasource is selected,
  each severity is checked and the subscription is enabled, and saving the form as it was opened stores that.
\<close>

theorem subscription_form_marks_all:
  assumes "collect_subscription integrations now subscription (open_subscription dss integrations subscription) = Some data"
  shows "field data ''datasource_ids'' = JArr (map (\<lambda>d. JNum (parse_int_str (js_string (field d ''id'')))) dss)
     \<and> field data ''severity_levels'' = JArr (map JStr [''critical'', ''high'', ''medium'', ''low''])
     \<and> field data ''enabled'' = JBool True"
proof -
  have s: "\<not> starts_with ''selected'' ''on''" "\<not> starts_with ''checked'' ''on''" by (simp_all add: starts_with_def)
  note m = marked_whatever [OF _ s(1), of "[(''value'', a), (''textContent'', b)]" _ "[]" for a b]
    marked_whatever [OF _ s(2), of "[(''type'', JStr ''checkbox''), (''value'', JStr l)]" _ "[(''className'', c)]" for l c]
    marked_whatever [OF _ s(2), of "[(''type'', JStr ''checkbox''), (''id'', i)]" _ "[]" for i]
  let ?f = "open_subscription dss integrations subscription"
  have f: "uf_datasources ?f = map (\<lambda>d. (js_string (field d ''id''), True)) dss"
    "uf_severities ?f = map (\<lambda>l. (l, True)) [''critical'', ''high'', ''medium'', ''low'']" "uf_enabled ?f"
    using m by (simp_all add: open_subscription_def Let_def)
  show ?thesis
    using assms unfolding collect_subscription_def Let_def
    by (auto simp: f field_def comp_def split: if_splits)
qed

theorem subscription_form_marks_all_witness:
  "\<exists>data. collect_subscription [demo_integration] ''0'' JNull (open_subscription [JObj [(''id'', JInt 1)]] [demo_integration] JNull) = Some data
     \<and> field data ''enabled'' = JBool True"
proof -
  have "collect_subscription [demo_integration] ''0'' JNull (open_subscription [JObj [(''id'', JInt 1)]] [demo_integration] JNull) \<noteq> None"
    by code_simp
  then obtain data where d: "collect_subscription [demo_integration] ''0'' JNull (open_subscription [JObj [(''id'', JInt 1)]] [demo_integration] JNull) = Some data"
    by blast
  show ?thesis using subscription_form_marks_all [OF d] d by blast
qed

text \<open>
  Targets whose integration is no longer on offer, because it was switched off, are dropped from the form: a
  subscription that has no other target cannot be saved any more.
\<close>

theorem unoffered_targets_dropped:
  assumes "truthy subscription" and "elements (field subscription ''integration_targets'') = stored" and "stored \<noteq> []"
    and "\<forall>t \<in> set stored. \<forall>i \<in> set integrations. js_string (field i ''id'') \<noteq> js_string (field t ''integration_id'')"
  shows "collect_subscription integrations now subscription (open_subscription dss integrations subscription) = None"
proof -
  have r: "tr_integration (sub_target_row integrations t) = []" if "t \<in> set stored" for t
  proof -
    have "filter (\<lambda>opt. opt \<noteq> [] \<and> opt = js_string (field t ''integration_id'')) ([] # map (\<lambda>i. js_string (field i ''id'')) integrations) = []"
      using assms(4) that by (auto simp: filter_empty_conv)
    then show ?thesis by (simp add: sub_target_row_def target_row_of_def Let_def select_value_def)
  qed
  have "\<not> has_integration (collect_sub_target integrations now subscription i row)" if "tr_integration row = []" for i row
    using that by (simp add: has_integration_def collect_sub_target_def Let_def field_def parse_int_str_def)
  moreover have "uf_targets (open_subscription dss integrations subscription) = map (sub_target_row integrations) stored"
    using assms(1-3) by (simp add: open_subscription_def Let_def)
  then have "tr_integration row = []" if "row \<in> set (uf_targets (open_subscription dss integrations subscription))" for row
    using that r by auto
  ultimately have "filter has_integration (map (\<lambda>(i, r). collect_sub_target integrations now subscription i r)
      (enumerate 0 (uf_targets (open_subscription dss integrations subscription)))) = []"
    by (auto simp: filter_empty_conv dest!: in_set_enumerate_eq [THEN iffD1])
  then show ?thesis by (simp add: collect_subscription_def Let_def)
qed

theorem unoffered_targets_dropped_witness:
  "collect_subscription [] ''0'' (JObj [(''integration_targets'', JArr [demo_target ''a'' ''s''])])
     (open_subscription [] [] (JObj [(''integration_targets'', JArr [demo_target ''a'' ''s''])])) = None"
  by (rule unoffered_targets_dropped [of _ "[demo_target ''a'' ''s'']"]) (simp_all add: field_def)

end
