(* ===== verification/Listeners.thy ===== *)
theory Listeners
  imports Prelude
begin

text \<open>
  The publish/subscribe contract that the state store and the WebSocket manager both
  implement: a list of callbacks per event name, called in registration order. The locale
  states what registering and removing promise; the delivery functions are the two loops of
  the code, one that catches what a callback throws and one that does not. A callback is
  run in a world \<open>'w\<close> and may throw; it does not change the list it is called from.
\<close>

section \<open>The registry interface\<close>

locale listener_registry =
  fixes callbacks :: "'s \<Rightarrow> 'k \<Rightarrow> 'c list"
    and add :: "'k \<Rightarrow> 'c \<Rightarrow> 's \<Rightarrow> 's"
    and remove :: "'k \<Rightarrow> 'c \<Rightarrow> 's \<Rightarrow> 's"
  assumes add_same: "callbacks (add k c s) k = callbacks s k @ [c]"
    and add_other: "k' \<noteq> k \<Longrightarrow> callbacks (add k c s) k' = callbacks s k'"
    and remove_same: "callbacks (remove k c s) k = filter (\<lambda>x. x \<noteq> c) (callbacks s k)"
    and remove_other: "k' \<noteq> k \<Longrightarrow> callbacks (remove k c s) k' = callbacks s k'"
begin

lemma removed_not_called: "c \<notin> set (callbacks (remove k c s) k)"
  by (simp add: remove_same)

lemma added_is_called: "c \<in> set (callbacks (add k c s) k)"
  by (simp add: add_same)

lemma remove_undoes_add:
  "c \<notin> set (callbacks s k) \<Longrightarrow> callbacks (remove k c (add k c s)) k' = callbacks s k'"
  by (cases "k' = k")
     (auto simp: remove_same remove_other add_same add_other filter_id_conv)

lemma add_add_order: "callbacks (add k d (add k c s)) k = callbacks s k @ [c, d]"
  by (simp add: add_same)

lemma remove_keeps_others:
  "d \<noteq> c \<Longrightarrow> d \<in> set (callbacks (remove k c s) k') \<longleftrightarrow> d \<in> set (callbacks s k')"
  by (cases "k' = k") (auto simp: remove_same remove_other)

end

section \<open>Delivery\<close>

type_synonym ('c, 'v, 'w, 'e) runner = "'c \<Rightarrow> 'v \<Rightarrow> 'w \<Rightarrow> ('e + unit) \<times> 'w"

text \<open>Every callback runs; the exceptions are collected (they are only logged).\<close>

fun deliver_all :: "('c, 'v, 'w, 'e) runner \<Rightarrow> 'c list \<Rightarrow> 'v \<Rightarrow> 'w \<Rightarrow> 'e list \<times> 'w" where
  "deliver_all run [] v w = ([], w)"
| "deliver_all run (c # cs) v w =
     (case run c v w of
        (Inl e, w') \<Rightarrow> (let (es, w'') = deliver_all run cs v w' in (e # es, w''))
      | (Inr _, w') \<Rightarrow> deliver_all run cs v w')"

text \<open>The first exception ends the loop and is thrown to the caller.\<close>

fun deliver_until :: "('c, 'v, 'w, 'e) runner \<Rightarrow> 'c list \<Rightarrow> 'v \<Rightarrow> 'w \<Rightarrow> ('e + unit) \<times> 'w" where
  "deliver_until run [] v w = (Inr (), w)"
| "deliver_until run (c # cs) v w =
     (case run c v w of
        (Inl e, w') \<Rightarrow> (Inl e, w')
      | (Inr _, w') \<Rightarrow> deliver_until run cs v w')"

text \<open>A runner that records its calls in the world, used to count deliveries.\<close>

definition recorder :: "('c \<Rightarrow> 'v \<Rightarrow> bool) \<Rightarrow> ('c, 'v, ('c \<times> 'v) list, unit) runner" where
  "recorder throws c v w = (if throws c v then Inl () else Inr (), w @ [(c, v)])"

lemma deliver_all_recorder:
  "snd (deliver_all (recorder throws) cs v w) = w @ map (\<lambda>c. (c, v)) cs"
  by (induction cs arbitrary: w) (auto simp: recorder_def Let_def case_prod_beta)

lemma deliver_until_recorder:
  "deliver_until (recorder throws) cs v w =
     (if \<exists>c \<in> set cs. throws c v
      then (Inl (), w @ map (\<lambda>c. (c, v)) (takeWhile (\<lambda>c. \<not> throws c v) cs)
              @ [(hd (dropWhile (\<lambda>c. \<not> throws c v) cs), v)])
      else (Inr (), w @ map (\<lambda>c. (c, v)) cs))"
  by (induction cs arbitrary: w) (auto simp: recorder_def)

lemma deliver_until_no_throw:
  "\<forall>c \<in> set cs. \<forall>w. fst (run c v w) = Inr () \<Longrightarrow> fst (deliver_until run cs v w) = Inr ()"
proof (induction cs arbitrary: w)
  case Nil
  then show ?case by simp
next
  case (Cons c cs)
  then have "fst (run c v w) = Inr ()" by simp
  with Cons show ?case by (cases "run c v w") auto
qed

end
