(* ===== verification/StateStore.thy ===== *)
theory StateStore
  imports Listeners JsValue
begin

text \<open>
  \<^verbatim>\<open>frontend/js/state.js\<close>: the global publish/subscribe store. A key holds a value and a
  list of listeners; \<^verbatim>\<open>set\<close> stores first and then calls the key's listeners with the new
  value, catching what each of them throws.
\<close>

record 'c store =
  st_values :: "(string, js) jsmap"
  st_listeners :: "(string, 'c list) jsmap"

definition init_store :: "'c store" where
  "init_store = \<lparr>st_values =
      [(''connections'', JArr []), (''currentConnection'', JNull), (''currentInstance'', JNull),
       (''currentInstanceId'', JNull), (''currentPage'', JStr ''dashboard''), (''hosts'', JArr []),
       (''chatSessions'', JArr []), (''currentSession'', JNull)],
     st_listeners = []\<rparr>"

definition store_get :: "string \<Rightarrow> 'c store \<Rightarrow> js" where
  "store_get k s = (case map_of (st_values s) k of Some v \<Rightarrow> v | None \<Rightarrow> JUndef)"

definition store_callbacks :: "'c store \<Rightarrow> string \<Rightarrow> 'c list" where
  "store_callbacks s k = (case map_of (st_listeners s) k of Some cs \<Rightarrow> cs | None \<Rightarrow> [])"

definition store_notify ::
  "('c, js, 'w, 'e) runner \<Rightarrow> string \<Rightarrow> js \<Rightarrow> 'c store \<Rightarrow> 'w \<Rightarrow> 'e list \<times> 'w" where
  "store_notify run k v s w = deliver_all run (store_callbacks s k) v w"

text \<open>The stored value; the listeners run afterwards, see \<open>store_set\<close>.\<close>

definition store_put :: "string \<Rightarrow> js \<Rightarrow> 'c store \<Rightarrow> 'c store" where
  "store_put k v s = s\<lparr>st_values := AList.update k v (st_values s)\<rparr>"

definition store_set ::
  "('c, js, 'w, 'e) runner \<Rightarrow> string \<Rightarrow> js \<Rightarrow> 'c store \<Rightarrow> 'w \<Rightarrow> 'c store \<times> 'e list \<times> 'w" where
  "store_set run k v s w = (let s' = store_put k v s in (s', store_notify run k v s' w))"

definition store_subscribe :: "string \<Rightarrow> 'c \<Rightarrow> 'c store \<Rightarrow> 'c store" where
  "store_subscribe k c s =
     (let ls = (if map_of (st_listeners s) k = None then AList.update k [] (st_listeners s)
                else st_listeners s)
      in s\<lparr>st_listeners := AList.update k (the (map_of ls k) @ [c]) ls\<rparr>)"

text \<open>
  The function \<^verbatim>\<open>subscribe\<close> returns. It reads the listeners of the key, which exist once
  somebody has subscribed.
\<close>

definition store_unsubscribe :: "string \<Rightarrow> 'c \<Rightarrow> 'c store \<Rightarrow> 'c store" where
  "store_unsubscribe k c s =
     s\<lparr>st_listeners := AList.update k (filter (\<lambda>x. x \<noteq> c) (store_callbacks s k)) (st_listeners s)\<rparr>"

lemmas store_defs = store_get_def store_callbacks_def store_notify_def store_put_def store_set_def
  store_subscribe_def store_unsubscribe_def

lemma store_get_put_same [simp]: "store_get k (store_put k v s) = v"
  by (simp add: store_defs)

lemma store_get_put_other [simp]: "k' \<noteq> k \<Longrightarrow> store_get k' (store_put k v s) = store_get k' s"
  by (simp add: store_defs)

lemma store_callbacks_put [simp]: "store_callbacks (store_put k v s) k' = store_callbacks s k'"
  by (simp add: store_defs)

lemma store_get_subscribe [simp]: "store_get k' (store_subscribe k c s) = store_get k' s"
  by (simp add: store_defs Let_def)

interpretation st: listener_registry store_callbacks store_subscribe store_unsubscribe
  by unfold_locales (auto simp: store_defs Let_def split: option.splits)

text \<open>
  \<^verbatim>\<open>Store.set\<close> never loses a notification: the value is readable, every listener of the key
  is called exactly once with the new value, in subscription order, whatever the listeners
  throw, and no other key changes.
\<close>

theorem store_set_notifies_all:
  assumes "store_set (recorder throws) k v s [] = (s', errs, calls)"
  shows "store_get k s' = v
       \<and> calls = map (\<lambda>c. (c, v)) (store_callbacks s k)
       \<and> (k' \<noteq> k \<longrightarrow> store_get k' s' = store_get k' s)"
proof -
  from assms have s': "s' = store_put k v s"
    and calls: "calls = snd (store_notify (recorder throws) k v (store_put k v s) [])"
    by (auto simp: store_set_def Let_def prod_eq_iff)
  show ?thesis
    unfolding s' calls by (simp add: store_notify_def deliver_all_recorder)
qed

theorem store_set_notifies_all_witness:
  "\<exists>s' errs. store_set (recorder (\<lambda>c v. c = (1::nat))) ''hosts'' (JStr ''h'')
        (store_subscribe ''hosts'' 2 (store_subscribe ''hosts'' 1 init_store)) []
      = (s', errs, [(1, JStr ''h''), (2, JStr ''h'')])
     \<and> store_get ''hosts'' s' = JStr ''h'' \<and> errs = [()]"
proof -
  let ?s = "store_subscribe ''hosts'' 2 (store_subscribe ''hosts'' (1::nat) init_store)"
  obtain s' errs calls where r:
    "store_set (recorder (\<lambda>c v. c = 1)) ''hosts'' (JStr ''h'') ?s [] = (s', errs, calls)"
    by (metis prod_cases3)
  have "store_callbacks ?s ''hosts'' = [1, 2]"
    by (simp add: store_defs init_store_def)
  with store_set_notifies_all [OF r, of "''hosts''"] r show ?thesis
    by (auto simp: store_set_def store_notify_def recorder_def Let_def)
qed

text \<open>
  A listener whose subscription was cancelled is never called again, and cancelling a
  subscription leaves the other listeners, in their order, as they were.
\<close>

theorem store_unsubscribe_silences:
  "store_callbacks (store_unsubscribe k c s) k = filter (\<lambda>x. x \<noteq> c) (store_callbacks s k)
   \<and> (c, v) \<notin> set (snd (snd (store_set (recorder throws) k v (store_unsubscribe k c s) [])))"
proof
  show "store_callbacks (store_unsubscribe k c s) k = filter (\<lambda>x. x \<noteq> c) (store_callbacks s k)"
    by (rule st.remove_same)
  show "(c, v) \<notin> set (snd (snd (store_set (recorder throws) k v (store_unsubscribe k c s) [])))"
    using st.removed_not_called [of c k s]
    by (auto simp: store_set_def store_notify_def deliver_all_recorder Let_def)
qed

end
