(* ===== verification/HttpClient.thy ===== *)
theory HttpClient
  imports StateStore UrlCodec
begin

text \<open>
  The transport half of \<^verbatim>\<open>frontend/js/api.js\<close>: the locale header, the session mark, \<^verbatim>\<open>request\<close>,
  \<^verbatim>\<open>postFormData\<close> and \<^verbatim>\<open>downloadFile\<close>. The network is a parameter: a function from the call and
  the world \<open>'w\<close> to what \<^verbatim>\<open>fetch\<close> settles with. The state is the browser's part the code
  changes: the store, the session mark and the location hash.
\<close>

section \<open>Data\<close>

datatype req_body =
    NoBody
  | PlainBody js
  | FormBody "(string \<times> string) list"

datatype sent_body =
    SentNothing
  | SentText string
  | SentForm "(string \<times> string) list"

record req_options =
  ro_method :: "string option"
  ro_body :: req_body
  ro_headers :: "(string, string) jsmap"
  ro_credentials :: "string option"
  ro_signal :: js
  ro_keepalive :: js

record fetch_call =
  fc_url :: string
  fc_method :: "string option"
  fc_body :: sent_body
  fc_headers :: "(string, string) jsmap"
  fc_credentials :: string
  fc_signal :: js
  fc_keepalive :: js

text \<open>A settled response; \<open>rs_json\<close> is \<open>None\<close> where \<^verbatim>\<open>response.json()\<close> rejects.\<close>

record http_response =
  rs_status :: nat
  rs_status_text :: string
  rs_json :: "js option"
  rs_text :: string
  rs_content_type :: "string option"
  rs_disposition :: "string option"

datatype fetch_result = Responded http_response | Unreachable string

record request_error =
  re_message :: string
  re_status :: "nat option"
  re_code :: js
  re_params :: js

text \<open>What a call can throw: an error the code builds, \<^verbatim>\<open>fetch\<close>'s own, or a script error (a
  property of null, a body that is no JSON).\<close>

datatype api_failure =
    RequestFailed request_error
  | FetchFailed string
  | ScriptError

text \<open>The environment: \<^verbatim>\<open>window.I18n\<close> when it is there (the locale and the lookup), and whether
  \<^verbatim>\<open>localStorage\<close> works.\<close>

record api_env =
  ae_i18n :: "(string \<times> (string \<Rightarrow> string)) option"
  ae_storage :: bool

record ('w, 'l) client =
  cl_world :: 'w
  cl_store :: "'l store"
  cl_mark :: "string option"
  cl_hash :: string

type_synonym 'w network = "fetch_call \<Rightarrow> 'w \<Rightarrow> fetch_result \<times> 'w"

definition no_options :: req_options where
  "no_options = \<lparr>ro_method = None, ro_body = NoBody, ro_headers = [], ro_credentials = None,
     ro_signal = JUndef, ro_keepalive = JUndef\<rparr>"

section \<open>Headers and the session mark\<close>

definition env_locale :: "api_env \<Rightarrow> string" where
  "env_locale env = (case ae_i18n env of Some (loc, _) \<Rightarrow> loc | None \<Rightarrow> ''zh-CN'')"

definition env_text :: "api_env \<Rightarrow> string \<Rightarrow> string \<Rightarrow> string" where
  "env_text env key fallback = (case ae_i18n env of Some (_, tr) \<Rightarrow> tr key | None \<Rightarrow> fallback)"

definition merge_headers :: "(string, string) jsmap \<Rightarrow> (string, string) jsmap \<Rightarrow> (string, string) jsmap" where
  "merge_headers a b = AList.updates (map fst b) (map snd b) a"

definition locale_headers :: "api_env \<Rightarrow> (string, string) jsmap \<Rightarrow> (string, string) jsmap" where
  "locale_headers env hs = merge_headers [(''X-DBClaw-Locale'', env_locale env)] hs"

definition mark_session_available :: "api_env \<Rightarrow> ('w, 'l) client \<Rightarrow> ('w, 'l) client" where
  "mark_session_available env c = (if ae_storage env then c\<lparr>cl_mark := Some ''1''\<rparr> else c)"

definition clear_session_mark :: "api_env \<Rightarrow> ('w, 'l) client \<Rightarrow> ('w, 'l) client" where
  "clear_session_mark env c = (if ae_storage env then c\<lparr>cl_mark := None\<rparr> else c)"

definition should_restore_session :: "api_env \<Rightarrow> ('w, 'l) client \<Rightarrow> bool" where
  "should_restore_session env c \<longleftrightarrow> ae_storage env \<and> cl_mark c = Some ''1''"

section \<open>Sending\<close>

definition send_body :: "req_body \<Rightarrow> sent_body" where
  "send_body b = (case b of
      NoBody \<Rightarrow> SentNothing
    | FormBody f \<Rightarrow> SentForm f
    | PlainBody v \<Rightarrow>
        if truthy v \<and> typeof_object v then SentText (json_text v)
        else if nullish v then SentNothing else SentText (js_string v))"

definition wire_call :: "api_env \<Rightarrow> string \<Rightarrow> req_options \<Rightarrow> fetch_call" where
  "wire_call env url opts =
     \<lparr>fc_url = url, fc_method = ro_method opts, fc_body = send_body (ro_body opts),
      fc_headers = locale_headers env (ro_headers opts),
      fc_credentials = (case ro_credentials opts of Some s \<Rightarrow> s | None \<Rightarrow> ''same-origin''),
      fc_signal = ro_signal opts, fc_keepalive = ro_keepalive opts\<rparr>"

definition api_fetch :: "api_env \<Rightarrow> 'w network \<Rightarrow> string \<Rightarrow> req_options \<Rightarrow> ('w, 'l) client \<Rightarrow>
    fetch_result \<times> ('w, 'l) client" where
  "api_fetch env net url opts c =
     (let (r, w) = net (wire_call env url opts) (cl_world c) in (r, c\<lparr>cl_world := w\<rparr>))"

definition rs_ok :: "http_response \<Rightarrow> bool" where
  "rs_ok r \<longleftrightarrow> 200 \<le> rs_status r \<and> rs_status r < 300"

section \<open>The message of a failed response\<close>

text \<open>One entry of a validation list; \<open>None\<close> where reading it throws.\<close>

definition detail_entry :: "js \<Rightarrow> string option" where
  "detail_entry e =
     (if nullish e then None
      else let loc = field e ''loc''; msg = js_string (field e ''msg'')
           in if truthy loc then
                (case loc of JArr xs \<Rightarrow> Some (join ''.'' (map js_elem_string xs) @ '': '' @ msg) | _ \<Rightarrow> None)
              else Some ('': '' @ msg))"

definition error_text :: "api_env \<Rightarrow> js \<Rightarrow> string option" where
  "error_text env err =
     (if nullish err then None
      else let detail = field err ''detail''; message = field err ''message''
           in if truthy detail then
                (case detail of
                   JStr s \<Rightarrow> Some s
                 | JArr es \<Rightarrow> map_option (join ''; '') (those (map detail_entry es))
                 | JObj _ \<Rightarrow> Some (json_text detail)
                 | _ \<Rightarrow> Some (env_text env ''common.requestFailed'' ''Request failed''))
              else if truthy message then
                Some (case message of JStr s \<Rightarrow> s | _ \<Rightarrow> json_text message)
              else Some (env_text env ''common.requestFailed'' ''Request failed''))"

definition error_body :: "http_response \<Rightarrow> js" where
  "error_body r = (case rs_json r of Some v \<Rightarrow> v | None \<Rightarrow> JObj [(''detail'', JStr (rs_status_text r))])"

text \<open>What a 401 does: the user is forgotten, the mark cleared and the login page shown. The
  listeners of the store key run after the assignment, see \<open>store_set\<close>.\<close>

definition expire_session :: "api_env \<Rightarrow> ('w, 'l) client \<Rightarrow> ('w, 'l) client" where
  "expire_session env c =
     (clear_session_mark env (c\<lparr>cl_store := store_put ''currentUser'' JNull (cl_store c)\<rparr>))\<lparr>cl_hash := ''login''\<rparr>"

section \<open>Requests\<close>

definition request_options :: "api_env \<Rightarrow> req_options \<Rightarrow> req_options" where
  "request_options env opts = opts
     \<lparr>ro_headers := merge_headers
        [(''Content-Type'', ''application/json''), (''X-DBClaw-Locale'', env_locale env)] (ro_headers opts),
      ro_credentials := (case ro_credentials opts of Some s \<Rightarrow> Some s | None \<Rightarrow> Some ''same-origin'')\<rparr>"

definition api_request :: "api_env \<Rightarrow> 'w network \<Rightarrow> string \<Rightarrow> req_options \<Rightarrow> ('w, 'l) client \<Rightarrow>
    (api_failure + js) \<times> ('w, 'l) client" where
  "api_request env net url opts c =
     (let (res, c') = api_fetch env net url (request_options env opts) c
      in case res of
           Unreachable e \<Rightarrow> (Inl (FetchFailed e), c')
         | Responded r \<Rightarrow>
             if \<not> rs_ok r then
               if rs_status r = 401 \<and> url \<noteq> ''/api/auth/login'' then
                 (Inl (RequestFailed \<lparr>re_message = env_text env ''auth.sessionExpired'' ''Session expired'',
                        re_status = Some (rs_status r), re_code = JUndef, re_params = JUndef\<rparr>),
                  expire_session env c')
               else
                 (case error_text env (error_body r) of
                    None \<Rightarrow> (Inl ScriptError, c')
                  | Some m \<Rightarrow>
                      (Inl (RequestFailed \<lparr>re_message = m, re_status = Some (rs_status r),
                              re_code = js_or (field (error_body r) ''error_code'') JNull,
                              re_params = js_or (field (error_body r) ''params'') (JObj [])\<rparr>), c'))
             else if (case rs_content_type r of Some t \<Rightarrow> includes_str t ''application/json'' | None \<Rightarrow> False)
             then (case rs_json r of Some v \<Rightarrow> (Inr v, c') | None \<Rightarrow> (Inl ScriptError, c'))
             else (Inr (JStr (rs_text r)), c'))"

definition api_post_form :: "api_env \<Rightarrow> 'w network \<Rightarrow> string \<Rightarrow> (string \<times> string) list \<Rightarrow> ('w, 'l) client \<Rightarrow>
    (api_failure + js) \<times> ('w, 'l) client" where
  "api_post_form env net url form c =
     (let (res, c') = api_fetch env net url
            (no_options\<lparr>ro_method := Some ''POST'', ro_credentials := Some ''same-origin'', ro_body := FormBody form\<rparr>) c
      in case res of
           Unreachable e \<Rightarrow> (Inl (FetchFailed e), c')
         | Responded r \<Rightarrow>
             if \<not> rs_ok r then
               if rs_status r = 401 then
                 (Inl (RequestFailed \<lparr>re_message = env_text env ''auth.sessionExpired'' ''Session expired'',
                        re_status = None, re_code = JUndef, re_params = JUndef\<rparr>), expire_session env c')
               else
                 (case error_text env (error_body r) of
                    None \<Rightarrow> (Inl ScriptError, c')
                  | Some m \<Rightarrow>
                      (Inl (RequestFailed \<lparr>re_message = m, re_status = None, re_code = JUndef, re_params = JUndef\<rparr>), c'))
             else (case rs_json r of Some v \<Rightarrow> (Inr v, c') | None \<Rightarrow> (Inl ScriptError, c')))"

section \<open>Downloads\<close>

text \<open>The first place where the text, read without case, has the marker followed by at least one
  character that does not stop; the group is the run of such characters.\<close>

fun match_marker :: "string \<Rightarrow> string \<Rightarrow> bool \<Rightarrow> string \<Rightarrow> string option" where
  "match_marker marker stops opt_quote [] = None"
| "match_marker marker stops opt_quote (c # cs) =
     (let n = length marker;
          rest = drop n (c # cs);
          rest' = (if opt_quote then (case rest of q # r \<Rightarrow> if q = CHR 0x22 then r else rest | [] \<Rightarrow> []) else rest);
          g = takeWhile (\<lambda>x. x \<notin> set stops) rest'
      in if to_lower (take n (c # cs)) = marker \<and> g \<noteq> [] then Some g
         else match_marker marker stops opt_quote cs)"

definition disposition_filename :: "string option \<Rightarrow> string \<Rightarrow> string" where
  "disposition_filename header fallback =
     (let disposition = (case header of Some d \<Rightarrow> d | None \<Rightarrow> []);
          encoded = match_marker (''filename*=utf-8'' @ [CHR 0x27, CHR 0x27]) '';'' False disposition;
          plain = match_marker ''filename='' [CHR 0x22, CHR '';''] True disposition
      in case encoded of
           Some e \<Rightarrow> (case decode_uri_component e of Some f \<Rightarrow> f | None \<Rightarrow> fallback)
         | None \<Rightarrow> (case plain of Some p \<Rightarrow> p | None \<Rightarrow> fallback))"

text \<open>The name under which the file is saved.\<close>

definition api_download :: "api_env \<Rightarrow> 'w network \<Rightarrow> string \<Rightarrow> string \<Rightarrow> ('w, 'l) client \<Rightarrow>
    (api_failure + string) \<times> ('w, 'l) client" where
  "api_download env net url fallback c =
     (let (res, c') = api_fetch env net url
            (no_options\<lparr>ro_method := Some ''GET'', ro_credentials := Some ''same-origin''\<rparr>) c
      in case res of
           Unreachable e \<Rightarrow> (Inl (FetchFailed e), c')
         | Responded r \<Rightarrow>
             if \<not> rs_ok r then
               (if nullish (error_body r) then (Inl ScriptError, c')
                else (Inl (RequestFailed
                   \<lparr>re_message = js_string (js_or (field (error_body r) ''detail'')
                                  (JStr (env_text env ''pageCopy.api.downloadFailed'' []))),
                    re_status = None, re_code = JUndef, re_params = JUndef\<rparr>), c'))
             else (Inr (disposition_filename (rs_disposition r) fallback), c'))"

section \<open>Properties\<close>

lemmas api_ops = api_fetch_def api_request_def api_post_form_def api_download_def Let_def case_prod_beta

text \<open>The two client states a request can end in.\<close>

lemma api_request_responded:
  assumes "api_fetch env net url (request_options env opts) c = (Responded r, d)"
  shows "api_request env net url opts c =
     (if \<not> rs_ok r then
        if rs_status r = 401 \<and> url \<noteq> ''/api/auth/login'' then
          (Inl (RequestFailed \<lparr>re_message = env_text env ''auth.sessionExpired'' ''Session expired'',
                 re_status = Some 401, re_code = JUndef, re_params = JUndef\<rparr>), expire_session env d)
        else (case error_text env (error_body r) of
                None \<Rightarrow> Inl ScriptError
              | Some m \<Rightarrow> Inl (RequestFailed \<lparr>re_message = m, re_status = Some (rs_status r),
                    re_code = js_or (field (error_body r) ''error_code'') JNull,
                    re_params = js_or (field (error_body r) ''params'') (JObj [])\<rparr>), d)
      else (if (case rs_content_type r of Some t \<Rightarrow> includes_str t ''application/json'' | None \<Rightarrow> False)
            then (case rs_json r of Some v \<Rightarrow> Inr v | None \<Rightarrow> Inl ScriptError)
            else Inr (JStr (rs_text r)), d))"
  using assms by (simp add: api_request_def split: option.splits)

lemma api_fetch_keeps:
  "api_fetch env net url opts c = (res, d) \<Longrightarrow>
     cl_store d = cl_store c \<and> cl_mark d = cl_mark c \<and> cl_hash d = cl_hash c"
  by (auto simp: api_fetch_def case_prod_beta Let_def)

lemma expire_session_world [simp]: "cl_world (expire_session env c) = cl_world c"
  by (simp add: expire_session_def clear_session_mark_def)

text \<open>One request is one call of the network.\<close>

lemma api_request_world:
  "cl_world (snd (api_request env net url opts c))
     = snd (net (wire_call env url (request_options env opts)) (cl_world c))"
proof -
  obtain res d where f: "api_fetch env net url (request_options env opts) c = (res, d)" by fastforce
  then have d: "cl_world d = snd (net (wire_call env url (request_options env opts)) (cl_world c))"
    by (auto simp: api_fetch_def case_prod_beta Let_def)
  show ?thesis
  proof (cases res)
    case (Responded r)
    with f d api_request_responded [of env net url opts c r d] show ?thesis by (simp split: option.splits)
  next
    case (Unreachable e)
    with f d show ?thesis by (simp add: api_request_def)
  qed
qed

lemma expire_session_effects [simp]:
  "store_get ''currentUser'' (cl_store (expire_session env c)) = JNull"
  "cl_hash (expire_session env c) = ''login''"
  "\<not> should_restore_session env (expire_session env c)"
  by (simp_all add: expire_session_def clear_session_mark_def should_restore_session_def)

text \<open>
  C15. Session expiry: whatever the endpoint, a 401 answer of a request other than the login
  request forgets the user, clears the session mark, sends the browser to the login page and
  fails with the status 401; nothing of this happens for any other answer.
\<close>

theorem request_session_expiry:
  assumes "api_fetch env net url (request_options env opts) c = (Responded r, d)"
    and "api_request env net url opts c = (res, c')"
  shows "if rs_status r = 401 \<and> url \<noteq> ''/api/auth/login''
         then (\<exists>e. res = Inl (RequestFailed e) \<and> re_status e = Some 401)
              \<and> store_get ''currentUser'' (cl_store c') = JNull
              \<and> \<not> should_restore_session env c' \<and> cl_hash c' = ''login''
         else cl_store c' = cl_store c \<and> cl_mark c' = cl_mark c \<and> cl_hash c' = cl_hash c"
proof (cases "rs_status r = 401 \<and> url \<noteq> ''/api/auth/login''")
  case True
  with assms(2) api_request_responded [OF assms(1)] show ?thesis
    by (auto simp: rs_ok_def)
next
  case False
  with assms(2) api_request_responded [OF assms(1)] have "c' = d"
    by (auto split: if_splits)
  with False api_fetch_keeps [OF assms(1)] show ?thesis by (simp only: if_False)
qed

definition demo_response :: "nat \<Rightarrow> js \<Rightarrow> http_response" where
  "demo_response st body = \<lparr>rs_status = st, rs_status_text = ''status'', rs_json = Some body, rs_text = [],
     rs_content_type = Some ''application/json'', rs_disposition = None\<rparr>"

definition demo_env :: api_env where
  "demo_env = \<lparr>ae_i18n = None, ae_storage = True\<rparr>"

definition demo_net :: "http_response \<Rightarrow> fetch_call list network" where
  "demo_net r call w = (Responded r, w @ [call])"

definition demo_client :: "(fetch_call list, nat) client" where
  "demo_client = \<lparr>cl_world = [], cl_store = store_put ''currentUser'' (JObj [(''id'', JInt 1)]) init_store,
     cl_mark = Some ''1'', cl_hash = ''hosts''\<rparr>"

theorem request_session_expiry_witness:
  "\<exists>e c'. api_request demo_env (demo_net (demo_response 401 JNull)) ''/api/hosts'' no_options demo_client
      = (Inl (RequestFailed e), c') \<and> re_status e = Some 401 \<and> cl_hash c' = ''login''
      \<and> should_restore_session demo_env demo_client \<and> \<not> should_restore_session demo_env c'"
proof -
  let ?net = "demo_net (demo_response 401 JNull)"
  obtain res c' where r: "api_request demo_env ?net ''/api/hosts'' no_options demo_client = (res, c')"
    by fastforce
  obtain d where d: "api_fetch demo_env ?net ''/api/hosts'' (request_options demo_env no_options) demo_client
      = (Responded (demo_response 401 JNull), d)"
    by (simp add: api_fetch_def demo_net_def Let_def)
  from request_session_expiry [OF d r] show ?thesis
    unfolding r by (auto simp: demo_response_def should_restore_session_def demo_client_def demo_env_def)
qed

definition failure_text :: "api_failure + js \<Rightarrow> string option" where
  "failure_text res = (case res of Inl (RequestFailed e) \<Rightarrow> Some (re_message e) | _ \<Rightarrow> None)"

text \<open>
  The two copies of the error handling agree: for every failing answer of the server, the
  message a caller of \<^verbatim>\<open>request\<close> sees is the message a caller of \<^verbatim>\<open>postFormData\<close> sees, and both
  leave the same session behind; a caller of \<^verbatim>\<open>postFormData\<close> is not told the status.
\<close>

theorem request_post_form_agree:
  assumes "\<not> rs_ok r" and "rs_status r = 401 \<longrightarrow> url \<noteq> ''/api/auth/login''"
    and "api_request env (\<lambda>_ w. (Responded r, w)) url opts c = (res, c')"
    and "api_post_form env (\<lambda>_ w. (Responded r, w)) url' form c = (res', c'')"
  shows "failure_text res = failure_text res' \<and> c' = c''
       \<and> (case res' of Inl (RequestFailed e) \<Rightarrow> re_status e = None | _ \<Rightarrow> True)"
proof -
  let ?net = "\<lambda>_ w. (Responded r, w)"
  have f: "api_fetch env ?net u o' c = (Responded r, c)" for u o'
    by (simp add: api_fetch_def)
  from assms(1,2) assms(3) [unfolded api_request_responded [OF f]]
  have 1: "res = (if rs_status r = 401 then Inl (RequestFailed \<lparr>re_message = env_text env ''auth.sessionExpired'' ''Session expired'',
                 re_status = Some 401, re_code = JUndef, re_params = JUndef\<rparr>)
        else (case error_text env (error_body r) of
                None \<Rightarrow> Inl ScriptError
              | Some m \<Rightarrow> Inl (RequestFailed \<lparr>re_message = m, re_status = Some (rs_status r),
                    re_code = js_or (field (error_body r) ''error_code'') JNull,
                    re_params = js_or (field (error_body r) ''params'') (JObj [])\<rparr>)))"
    and 2: "c' = (if rs_status r = 401 then expire_session env c else c)"
    by (auto split: if_splits)
  from assms(1,4) have 3: "c'' = (if rs_status r = 401 then expire_session env c else c)"
    by (auto simp: api_post_form_def f split: option.splits if_splits)
  show ?thesis
    using assms(1,4) unfolding 1 2 3
    by (auto simp: api_post_form_def f failure_text_def split: option.splits if_splits)
qed

theorem request_post_form_agree_witness:
  "failure_text (fst (api_request demo_env (\<lambda>_ w. (Responded (demo_response 422 (JObj [(''detail'',
       JArr [JObj [(''loc'', JArr [JStr ''body'', JStr ''port'']), (''msg'', JStr ''too big'')]])])), w))
       ''/api/hosts'' no_options demo_client)) = Some ''body.port: too big''
   \<and> failure_text (fst (api_post_form demo_env (\<lambda>_ w. (Responded (demo_response 422 (JObj [(''detail'',
       JArr [JObj [(''loc'', JArr [JStr ''body'', JStr ''port'']), (''msg'', JStr ''too big'')]])])), w))
       ''/api/docs'' [] demo_client)) = Some ''body.port: too big''"
proof -
  let ?r = "demo_response 422 (JObj [(''detail'',
       JArr [JObj [(''loc'', JArr [JStr ''body'', JStr ''port'']), (''msg'', JStr ''too big'')]])])"
  let ?net = "\<lambda>_ w. (Responded ?r, w)"
  have f: "api_fetch demo_env ?net u o' demo_client = (Responded ?r, demo_client)" for u o'
    by (simp add: api_fetch_def)
  obtain res c' where a: "api_request demo_env ?net ''/api/hosts'' no_options demo_client = (res, c')"
    by fastforce
  obtain res' c'' where b: "api_post_form demo_env ?net ''/api/docs'' [] demo_client = (res', c'')"
    by fastforce
  have "failure_text res = Some ''body.port: too big''"
    using a unfolding api_request_responded [OF f]
    by (auto simp: demo_response_def rs_ok_def error_body_def error_text_def detail_entry_def nullish_def
        failure_text_def Let_def)
  moreover have "failure_text res = failure_text res'"
    using request_post_form_agree [OF _ _ a b] by (simp add: demo_response_def rs_ok_def)
  ultimately show ?thesis by (simp add: a b)
qed

lemma match_marker_here:
  assumes "to_lower m' = marker" and "m' \<noteq> []" and "g \<noteq> []" and "\<forall>x \<in> set g. x \<notin> set stops"
    and "rest = [] \<or> hd rest \<in> set stops"
  shows "match_marker marker stops False (m' @ g @ rest) = Some g"
proof -
  have tw: "takeWhile (\<lambda>x. x \<notin> set stops) (g @ rest) = g"
    using assms(4,5) by (cases rest) (simp_all add: takeWhile_append2)
  have len: "length marker = length m'" using assms(1) by (metis length_to_lower)
  obtain a m'' where m': "m' = a # m''" using assms(2) by (cases m') auto
  have "match_marker marker stops False (a # m'' @ g @ rest) = Some g"
    using tw assms(1,3) len by (simp add: m' Let_def)
  then show ?thesis by (simp add: m')
qed

text \<open>
  A download keeps the name the server gives: whatever the name, when the server sends it in
  the extended form of the content-disposition header the file is saved under exactly that name,
  and without such a header the file is saved under the fallback name.
\<close>

theorem disposition_roundtrip:
  assumes "name \<noteq> []"
  shows "disposition_filename (Some (''filename*=UTF-8'' @ [CHR 0x27, CHR 0x27] @ encode_uri_component name)) fallback = name
       \<and> disposition_filename None fallback = fallback"
proof -
  let ?e = "encode_uri_component name"
  have lower: "to_lower (''filename*=UTF-8'' @ [CHR 0x27, CHR 0x27]) = ''filename*=utf-8'' @ [CHR 0x27, CHR 0x27]"
    by code_simp
  have semi: "CHR '';'' \<notin> set ?e" by (rule encode_uri_component_no_semicolon)
  have "match_marker (''filename*=utf-8'' @ [CHR 0x27, CHR 0x27]) '';'' False
          ((''filename*=UTF-8'' @ [CHR 0x27, CHR 0x27]) @ ?e @ []) = Some ?e"
    by (rule match_marker_here) (use assms semi lower in \<open>auto simp del: append.simps\<close>)
  then show ?thesis by (simp add: disposition_filename_def)
qed

theorem disposition_roundtrip_witness:
  "disposition_filename (Some (''filename*=UTF-8'' @ [CHR 0x27, CHR 0x27] @ encode_uri_component ''a;b 1.md'')) ''report''
     = ''a;b 1.md''"
  using disposition_roundtrip [of "''a;b 1.md''" "''report''"] by simp

end
