(* ===== verification/ApiCalls.thy ===== *)
theory ApiCalls
  imports HttpClient
begin

text \<open>
  The endpoint half of \<^verbatim>\<open>frontend/js/api.js\<close>: one datatype of calls per section of the file and the
  method, URL and body each call sends; the calls that are more than one request
  (\<^verbatim>\<open>deleteEvalRun\<close>, \<^verbatim>\<open>getKnowledgeBases\<close>) and the downloads. Path and number arguments are texts,
  as a template literal prints them.
\<close>

section \<open>Endpoints\<close>

type_synonym endpoint = "string \<times> req_options"

definition ep_get :: "string \<Rightarrow> endpoint" where
  "ep_get url = (url, no_options)"

definition ep_post :: "string \<Rightarrow> js \<Rightarrow> endpoint" where
  "ep_post url body = (url, no_options\<lparr>ro_method := Some ''POST'', ro_body := PlainBody body\<rparr>)"

definition ep_put :: "string \<Rightarrow> js \<Rightarrow> endpoint" where
  "ep_put url body = (url, no_options\<lparr>ro_method := Some ''PUT'', ro_body := PlainBody body\<rparr>)"

definition ep_delete :: "string \<Rightarrow> endpoint" where
  "ep_delete url = (url, no_options\<lparr>ro_method := Some ''DELETE''\<rparr>)"

lemmas ep_defs = ep_get_def ep_post_def ep_put_def ep_delete_def

text \<open>\<^verbatim>\<open>params ? `?${new URLSearchParams(params)}` : ''\<close>, its raw form, and an optional parameter.\<close>

definition query_suffix :: "(string \<times> string) list option \<Rightarrow> string" where
  "query_suffix ps = (case ps of Some kvs \<Rightarrow> ''?'' @ form_serialize kvs | None \<Rightarrow> [])"

definition raw_suffix :: "string \<Rightarrow> string" where
  "raw_suffix p = (if p \<noteq> [] then ''?'' @ p else [])"

definition opt_param :: "string \<Rightarrow> string \<Rightarrow> string" where
  "opt_param k v = (if v \<noteq> [] then ''&'' @ k @ ''='' @ encode_uri_component v else [])"

text \<open>Sessions and users.\<close>

datatype user_call =
    Login js js
  | GetMe
  | UpdateMe js
  | UpdateLocale js js
  | Logout
  | LogoutAll
  | ChangePassword js js
  | GetUsers
  | CreateUser js
  | UpdateUser string js
  | DeleteUser string
  | ResetUserPassword string js
  | ToggleUserStatus string
  | GetUserLoginLogs string

fun user_endpoint :: "user_call \<Rightarrow> endpoint" where
  "user_endpoint (Login u p) = ep_post (''/api/auth/login'') (JObj [(''username'', u), (''password'', p)])"
| "user_endpoint GetMe = ep_get (''/api/auth/me'')"
| "user_endpoint (UpdateMe d) = ep_put (''/api/auth/me'') d"
| "user_endpoint (UpdateLocale loc tz) = ep_put (''/api/auth/me/locale'') (if truthy tz then JObj [(''locale'', loc), (''timezone'', tz)] else JObj [(''locale'', loc)])"
| "user_endpoint Logout = ep_post (''/api/auth/logout'') (JObj [])"
| "user_endpoint LogoutAll = ep_post (''/api/auth/logout-all'') (JObj [])"
| "user_endpoint (ChangePassword ow n) = ep_post (''/api/auth/change-password'') (JObj [(''old_password'', ow), (''new_password'', n)])"
| "user_endpoint GetUsers = ep_get (''/api/users'')"
| "user_endpoint (CreateUser d) = ep_post (''/api/users'') d"
| "user_endpoint (UpdateUser i d) = ep_put (''/api/users/'' @ i) d"
| "user_endpoint (DeleteUser i) = ep_delete (''/api/users/'' @ i)"
| "user_endpoint (ResetUserPassword i n) = ep_post (''/api/users/'' @ i @ ''/reset-password'') (JObj [(''new_password'', n)])"
| "user_endpoint (ToggleUserStatus i) = ep_post (''/api/users/'' @ i @ ''/toggle-status'') JUndef"
| "user_endpoint (GetUserLoginLogs i) = ep_get (''/api/users/'' @ i @ ''/login-logs'')"

text \<open>Datasources and their silences.\<close>

datatype datasource_call =
    GetDatasources "(string \<times> string) list option"
  | CreateDatasource js
  | UpdateDatasource string js
  | DeleteDatasource string
  | TestDatasource string
  | TestDatasourceConnection js
  | CheckDatasourceStatus
  | SetDatasourceSilence string js
  | CancelDatasourceSilence string
  | GetDatasourceSilenceStatus string
  | CheckAllDatasourceStatus
  | GetDatasourcesLatestMetrics

fun datasource_endpoint :: "datasource_call \<Rightarrow> endpoint" where
  "datasource_endpoint (GetDatasources ps) = ep_get (''/api/datasources'' @ query_suffix ps)"
| "datasource_endpoint (CreateDatasource d) = ep_post (''/api/datasources'') d"
| "datasource_endpoint (UpdateDatasource i d) = ep_put (''/api/datasources/'' @ i) d"
| "datasource_endpoint (DeleteDatasource i) = ep_delete (''/api/datasources/'' @ i)"
| "datasource_endpoint (TestDatasource i) = ep_post (''/api/datasources/'' @ i @ ''/test'') JUndef"
| "datasource_endpoint (TestDatasourceConnection d) = ep_post (''/api/datasources/test'') d"
| "datasource_endpoint CheckDatasourceStatus = ep_post (''/api/datasources/check-status'') JUndef"
| "datasource_endpoint (SetDatasourceSilence i d) = ep_post (''/api/datasources/'' @ i @ ''/silence'') d"
| "datasource_endpoint (CancelDatasourceSilence i) = ep_delete (''/api/datasources/'' @ i @ ''/silence'')"
| "datasource_endpoint (GetDatasourceSilenceStatus i) = ep_get (''/api/datasources/'' @ i @ ''/silence'')"
| "datasource_endpoint CheckAllDatasourceStatus = ep_post (''/api/datasources/check-status'') JUndef"
| "datasource_endpoint GetDatasourcesLatestMetrics = ep_get (''/api/datasources/latest-metrics'')"

text \<open>Hosts.\<close>

datatype host_call =
    GetHosts
  | CreateHost js
  | UpdateHost string js
  | DeleteHost string
  | TestHostConnection js
  | TestHost string
  | GetHostSummary string
  | GetHostMetrics string string
  | GetHostProcesses string
  | GetProcessDetail string string
  | KillHostProcess string string
  | GetHostConnections string
  | GetHostNetworkTopology string
  | GetHostConfig string
  | RefreshHostConfig string

fun host_endpoint :: "host_call \<Rightarrow> endpoint" where
  "host_endpoint GetHosts = ep_get (''/api/hosts'')"
| "host_endpoint (CreateHost d) = ep_post (''/api/hosts'') d"
| "host_endpoint (UpdateHost i d) = ep_put (''/api/hosts/'' @ i) d"
| "host_endpoint (DeleteHost i) = ep_delete (''/api/hosts/'' @ i)"
| "host_endpoint (TestHostConnection d) = ep_post (''/api/hosts/test'') d"
| "host_endpoint (TestHost i) = ep_post (''/api/hosts/'' @ i @ ''/test'') JUndef"
| "host_endpoint (GetHostSummary i) = ep_get (''/api/host-detail/'' @ i @ ''/summary'')"
| "host_endpoint (GetHostMetrics i p) = ep_get (''/api/host-detail/'' @ i @ ''/metrics'' @ raw_suffix p)"
| "host_endpoint (GetHostProcesses i) = ep_get (''/api/hosts/'' @ i @ ''/processes'')"
| "host_endpoint (GetProcessDetail i p) = ep_get (''/api/hosts/'' @ i @ ''/processes/'' @ p)"
| "host_endpoint (KillHostProcess i p) = ep_post (''/api/host-detail/'' @ i @ ''/processes/'' @ p @ ''/kill'') JUndef"
| "host_endpoint (GetHostConnections i) = ep_get (''/api/host-detail/'' @ i @ ''/connections'')"
| "host_endpoint (GetHostNetworkTopology i) = ep_get (''/api/host-detail/'' @ i @ ''/network-topology'')"
| "host_endpoint (GetHostConfig i) = ep_get (''/api/host-detail/'' @ i @ ''/config'')"
| "host_endpoint (RefreshHostConfig i) = ep_post (''/api/host-detail/'' @ i @ ''/config/refresh'') JUndef"

text \<open>Metrics and the instance page.\<close>

datatype instance_call =
    GetMetrics string string
  | GetLatestMetric string "string option"
  | GetDatasourceHealth string
  | GetBatchDashboard js
  | RefreshMetrics string
  | GetInstanceAlertSummary
  | GetInstanceSummary string
  | GetInstanceTraffic string
  | GetInstanceVariables string
  | GetInstanceSessions string
  | TerminateInstanceSession string string
  | GetInstanceTopSql string "string option"
  | ExplainSql string js
  | DiagnoseSql string js "js option"

fun instance_endpoint :: "instance_call \<Rightarrow> endpoint" where
  "instance_endpoint (GetMetrics i p) = ep_get (''/api/metrics/'' @ i @ raw_suffix p)"
| "instance_endpoint (GetLatestMetric i ty) = ep_get (''/api/metrics/'' @ i @ ''/latest?metric_type='' @ (case ty of Some t \<Rightarrow> t | None \<Rightarrow> ''db_status''))"
| "instance_endpoint (GetDatasourceHealth i) = ep_get (''/api/metrics/'' @ i @ ''/health'')"
| "instance_endpoint (GetBatchDashboard ids) = ep_post (''/api/metrics/batch/dashboard'') (JObj [(''conn_ids'', ids)])"
| "instance_endpoint (RefreshMetrics i) = ep_post (''/api/metrics/'' @ i @ ''/refresh'') JUndef"
| "instance_endpoint GetInstanceAlertSummary = ep_get (''/api/instances/alert-summary'')"
| "instance_endpoint (GetInstanceSummary i) = ep_get (''/api/instances/'' @ i @ ''/summary'')"
| "instance_endpoint (GetInstanceTraffic i) = ep_get (''/api/instances/'' @ i @ ''/traffic'')"
| "instance_endpoint (GetInstanceVariables i) = ep_get (''/api/instances/'' @ i @ ''/variables'')"
| "instance_endpoint (GetInstanceSessions i) = ep_get (''/api/instances/'' @ i @ ''/sessions'')"
| "instance_endpoint (TerminateInstanceSession i s) = ep_post (''/api/instances/'' @ i @ ''/sessions/'' @ encode_uri_component s @ ''/terminate'') (JObj [])"
| "instance_endpoint (GetInstanceTopSql i mx) = ep_get (''/api/datasources/'' @ i @ ''/top-sql?limit='' @ (case mx of Some n \<Rightarrow> n | None \<Rightarrow> ''100''))"
| "instance_endpoint (ExplainSql i q) = ep_post (''/api/datasources/'' @ i @ ''/explain-sql'') (JObj [(''sql_text'', q)])"
| "instance_endpoint (DiagnoseSql i q st) = ep_post (''/api/datasources/'' @ i @ ''/diagnose-sql'') (JObj [(''sql_text'', q), (''sql_stats'', case st of Some v \<Rightarrow> v | None \<Rightarrow> JObj [])])"

text \<open>Chat sessions.\<close>

datatype chat_call =
    GetChatSessions "(string \<times> string) list option"
  | CreateChatSession js
  | DeleteChatSession string
  | ClearSessionMessages string
  | GetSessionMessages string
  | GetSessionInsights string
  | GetChatSkillAuthorizations
  | ResolveChatApproval string string js

fun chat_endpoint :: "chat_call \<Rightarrow> endpoint" where
  "chat_endpoint (GetChatSessions ps) = ep_get (''/api/chat/sessions'' @ query_suffix ps)"
| "chat_endpoint (CreateChatSession d) = ep_post (''/api/chat/sessions'') d"
| "chat_endpoint (DeleteChatSession i) = ep_delete (''/api/chat/sessions/'' @ i)"
| "chat_endpoint (ClearSessionMessages i) = ep_delete (''/api/chat/sessions/'' @ i @ ''/messages'')"
| "chat_endpoint (GetSessionMessages i) = ep_get (''/api/chat/sessions/'' @ i @ ''/messages'')"
| "chat_endpoint (GetSessionInsights i) = ep_get (''/api/chat/sessions/'' @ i @ ''/insights'')"
| "chat_endpoint GetChatSkillAuthorizations = ep_get (''/api/chat/skill-authorizations'')"
| "chat_endpoint (ResolveChatApproval i a d) = ep_post (''/api/chat/sessions/'' @ i @ ''/approvals/'' @ a @ ''/resolve'') d"

text \<open>Queries and the schema browser; a text that is absent is the empty text, which the code treats alike.\<close>

datatype query_call =
    ExecuteQuery js js
  | CancelQuery js js
  | ExplainQuery js
  | GetQueryHistory
  | GetQueryContext string string
  | GetSchemas string string
  | GetTables string string string
  | GetColumns string string string string

fun query_endpoint :: "query_call \<Rightarrow> endpoint" where
  "query_endpoint (ExecuteQuery d sig) = (''/api/query/execute'', no_options\<lparr>ro_method := Some ''POST'', ro_body := PlainBody d, ro_signal := sig\<rparr>)"
| "query_endpoint (CancelQuery d keep) = (''/api/query/cancel'', no_options\<lparr>ro_method := Some ''POST'', ro_body := PlainBody d, ro_keepalive := JBool (truthy keep)\<rparr>)"
| "query_endpoint (ExplainQuery d) = ep_post (''/api/query/explain'') d"
| "query_endpoint GetQueryHistory = ep_get (''/api/query/history'')"
| "query_endpoint (GetQueryContext i db) = ep_get (''/api/query/context?datasource_id='' @ i @ opt_param ''database'' db)"
| "query_endpoint (GetSchemas i db) = ep_get (''/api/query/schema/databases?datasource_id='' @ i @ opt_param ''database'' db)"
| "query_endpoint (GetTables i sc db) = ep_get (''/api/query/schema/tables?datasource_id='' @ i @ opt_param ''schema'' sc @ opt_param ''database'' db)"
| "query_endpoint (GetColumns i tb sc db) = ep_get (''/api/query/schema/columns?datasource_id='' @ i @ ''&table='' @ encode_uri_component tb @ opt_param ''schema'' sc @ opt_param ''database'' db)"

text \<open>Reports and AI models.\<close>

datatype report_call =
    GetReports
  | GenerateReport js
  | GetReport string
  | GetAIModels
  | CreateAIModel js
  | UpdateAIModel string js
  | DeleteAIModel string
  | SetDefaultAIModel string
  | TestAIModelChat string js

fun report_endpoint :: "report_call \<Rightarrow> endpoint" where
  "report_endpoint GetReports = ep_get (''/api/reports'')"
| "report_endpoint (GenerateReport d) = ep_post (''/api/reports/generate'') d"
| "report_endpoint (GetReport i) = ep_get (''/api/reports/'' @ i)"
| "report_endpoint GetAIModels = ep_get (''/api/ai-models'')"
| "report_endpoint (CreateAIModel d) = ep_post (''/api/ai-models'') d"
| "report_endpoint (UpdateAIModel i d) = ep_put (''/api/ai-models/'' @ i) d"
| "report_endpoint (DeleteAIModel i) = ep_delete (''/api/ai-models/'' @ i)"
| "report_endpoint (SetDefaultAIModel i) = ep_post (''/api/ai-models/'' @ i @ ''/set-default'') JUndef"
| "report_endpoint (TestAIModelChat i d) = ep_post (''/api/ai-models/'' @ i @ ''/test-chat'') d"

text \<open>Scheduled tasks and alert templates.\<close>

datatype task_call =
    GetScheduledTasks "(string \<times> string) list option"
  | CreateScheduledTask js
  | UpdateScheduledTask string js
  | DeleteScheduledTask string
  | RunScheduledTask string
  | GetScheduledTaskRuns string "(string \<times> string) list option"
  | GetScheduledTaskRun string
  | GetAlertTemplates
  | CreateAlertTemplate js
  | UpdateAlertTemplate string js
  | ToggleAlertTemplate string js

fun task_endpoint :: "task_call \<Rightarrow> endpoint" where
  "task_endpoint (GetScheduledTasks ps) = ep_get (''/api/scheduled-tasks'' @ query_suffix ps)"
| "task_endpoint (CreateScheduledTask d) = ep_post (''/api/scheduled-tasks'') d"
| "task_endpoint (UpdateScheduledTask i d) = ep_put (''/api/scheduled-tasks/'' @ i) d"
| "task_endpoint (DeleteScheduledTask i) = ep_delete (''/api/scheduled-tasks/'' @ i)"
| "task_endpoint (RunScheduledTask i) = ep_post (''/api/scheduled-tasks/'' @ i @ ''/run'') (JObj [])"
| "task_endpoint (GetScheduledTaskRuns i ps) = ep_get (''/api/scheduled-tasks/'' @ i @ ''/runs'' @ query_suffix ps)"
| "task_endpoint (GetScheduledTaskRun i) = ep_get (''/api/scheduled-task-runs/'' @ i)"
| "task_endpoint GetAlertTemplates = ep_get (''/api/inspections/templates'')"
| "task_endpoint (CreateAlertTemplate d) = ep_post (''/api/inspections/templates'') d"
| "task_endpoint (UpdateAlertTemplate i d) = ep_put (''/api/inspections/templates/'' @ i) d"
| "task_endpoint (ToggleAlertTemplate i en) = ep_post (''/api/inspections/templates/'' @ i @ ''/toggle'') (JObj [(''enabled'', en)])"

text \<open>Documents and skills.\<close>

datatype doc_call =
    GetDocCategories string
  | GetCategoryDocuments string
  | GetDocument string
  | CreateDocument js
  | UpdateDocument string js
  | RecompileDocument string
  | DeleteDocument string
  | ImportDocument js js js
  | GetSkills

fun doc_endpoint :: "doc_call \<Rightarrow> endpoint" where
  "doc_endpoint (GetDocCategories ty) = ep_get (''/api/docs/categories'' @ (if ty \<noteq> [] then ''?db_type='' @ ty else []))"
| "doc_endpoint (GetCategoryDocuments i) = ep_get (''/api/docs/categories/'' @ i @ ''/documents'')"
| "doc_endpoint (GetDocument i) = ep_get (''/api/docs/'' @ i)"
| "doc_endpoint (CreateDocument d) = ep_post (''/api/docs'') d"
| "doc_endpoint (UpdateDocument i d) = ep_put (''/api/docs/'' @ i) d"
| "doc_endpoint (RecompileDocument i) = ep_post (''/api/docs/'' @ i @ ''/recompile'') (JObj [])"
| "doc_endpoint (DeleteDocument i) = ep_delete (''/api/docs/'' @ i)"
| "doc_endpoint (ImportDocument c ti m) = ep_post (''/api/docs'') (JObj [(''category_id'', c), (''title'', ti), (''content'', m)])"
| "doc_endpoint GetSkills = ep_get (''/api/skills'')"

text \<open>Alerts, subscriptions and the bot bindings.\<close>

datatype alert_call =
    GetAlerts "(string \<times> string) list option"
  | GetAlert string
  | GetAlertContext string
  | GetAlertEventContext string
  | AcknowledgeAlert string
  | ResolveAlert string
  | GetSubscriptions
  | CreateSubscription js
  | UpdateSubscription string js
  | DeleteSubscription string
  | TestNotification string
  | GetInspectionReportDetail string
  | GetWeixinBotBindings
  | UpdateWeixinBotBinding string js
  | GetWeixinBotStatus
  | CreateWeixinLoginQrcode
  | PollWeixinLoginStatus js

fun alert_endpoint :: "alert_call \<Rightarrow> endpoint" where
  "alert_endpoint (GetAlerts ps) = ep_get (''/api/alerts'' @ query_suffix ps)"
| "alert_endpoint (GetAlert i) = ep_get (''/api/alerts/'' @ i)"
| "alert_endpoint (GetAlertContext i) = ep_get (''/api/alerts/'' @ i @ ''/context'')"
| "alert_endpoint (GetAlertEventContext i) = ep_get (''/api/alerts/events/'' @ i @ ''/context'')"
| "alert_endpoint (AcknowledgeAlert i) = ep_post (''/api/alerts/'' @ i @ ''/acknowledge'') (JObj [])"
| "alert_endpoint (ResolveAlert i) = ep_post (''/api/alerts/'' @ i @ ''/resolve'') (JObj [])"
| "alert_endpoint GetSubscriptions = ep_get (''/api/alerts/subscriptions/list'')"
| "alert_endpoint (CreateSubscription d) = ep_post (''/api/alerts/subscriptions'') d"
| "alert_endpoint (UpdateSubscription i d) = ep_put (''/api/alerts/subscriptions/'' @ i) d"
| "alert_endpoint (DeleteSubscription i) = ep_delete (''/api/alerts/subscriptions/'' @ i)"
| "alert_endpoint (TestNotification i) = ep_post (''/api/alerts/subscriptions/'' @ i @ ''/test'') (JObj [])"
| "alert_endpoint (GetInspectionReportDetail i) = ep_get (''/api/inspections/reports/detail/'' @ i)"
| "alert_endpoint GetWeixinBotBindings = ep_get (''/api/integration-bots'')"
| "alert_endpoint (UpdateWeixinBotBinding i d) = ep_put (''/api/integration-bots/'' @ i) d"
| "alert_endpoint GetWeixinBotStatus = ep_get (''/api/weixin/bot/binding/status'')"
| "alert_endpoint CreateWeixinLoginQrcode = ep_post (''/api/weixin/bot/login/qrcode'') (JObj [])"
| "alert_endpoint (PollWeixinLoginStatus q) = ep_post (''/api/weixin/bot/login/status'') (JObj [(''qrcode'', q)])"

text \<open>AI evaluation.\<close>

datatype eval_call =
    ListEvalCases "(string \<times> string) list option"
  | GetEvalCase string
  | ListEvalSuites
  | CreateEvalRun js
  | ListEvalRuns
  | GetEvalRun string
  | DeleteEvalRun string
  | DeleteEvalRunByPost string
  | ListEvalRunResults string
  | GetEvalRunResult string string
  | GetEvalRunReplay string string

fun eval_endpoint :: "eval_call \<Rightarrow> endpoint" where
  "eval_endpoint (ListEvalCases ps) = ep_get (''/api/eval/cases'' @ query_suffix ps)"
| "eval_endpoint (GetEvalCase i) = ep_get (''/api/eval/cases/'' @ i)"
| "eval_endpoint ListEvalSuites = ep_get (''/api/eval/suites'')"
| "eval_endpoint (CreateEvalRun d) = ep_post (''/api/eval/runs'') d"
| "eval_endpoint ListEvalRuns = ep_get (''/api/eval/runs'')"
| "eval_endpoint (GetEvalRun i) = ep_get (''/api/eval/runs/'' @ i)"
| "eval_endpoint (DeleteEvalRun i) = ep_delete (''/api/eval/runs/'' @ i)"
| "eval_endpoint (DeleteEvalRunByPost i) = ep_post (''/api/eval/runs/'' @ i @ ''/delete'') (JObj [])"
| "eval_endpoint (ListEvalRunResults i) = ep_get (''/api/eval/runs/'' @ i @ ''/results'')"
| "eval_endpoint (GetEvalRunResult i cs) = ep_get (''/api/eval/runs/'' @ i @ ''/results/'' @ cs)"
| "eval_endpoint (GetEvalRunReplay i cs) = ep_get (''/api/eval/runs/'' @ i @ ''/results/'' @ cs @ ''/replay'')"

definition api_call :: "api_env \<Rightarrow> 'w network \<Rightarrow> endpoint \<Rightarrow> ('w, 'l) client \<Rightarrow>
    (api_failure + js) \<times> ('w, 'l) client" where
  "api_call env net ep c = api_request env net (fst ep) (snd ep) c"

section \<open>Calls of more than one step\<close>

definition delete_eval_run :: "api_env \<Rightarrow> 'w network \<Rightarrow> string \<Rightarrow> ('w, 'l) client \<Rightarrow>
    (api_failure + js) \<times> ('w, 'l) client" where
  "delete_eval_run env net i c =
     (case api_call env net (eval_endpoint (DeleteEvalRun i)) c of
        (Inl (RequestFailed e), c') \<Rightarrow>
          (if re_status e = Some 405 then api_call env net (eval_endpoint (DeleteEvalRunByPost i)) c'
           else (Inl (RequestFailed e), c'))
      | res \<Rightarrow> res)"

text \<open>The item of a category, and the category with its descendants in document order; \<open>None\<close>
  where a null category or children that cannot be iterated throw.\<close>

definition kb_item :: "js \<Rightarrow> js" where
  "kb_item c = JObj [(''id'', field c ''id''), (''name'', field c ''name''), (''db_type'', field c ''db_type''),
     (''is_active'', JBool True), (''document_count'', js_coalesce (field c ''document_count'') (JInt 0))]"

lemma size_map_of: "map_of kvs k = Some v \<Longrightarrow> size v < size_list (size_prod (\<lambda>_. 0) size) kvs"
  by (induction kvs) (auto split: if_splits)

lemma size_field [simp]: "field c k = JArr xs \<Longrightarrow> x \<in> set xs \<Longrightarrow> size x < size c"
proof (cases c)
  case (JObj kvs)
  assume f: "field c k = JArr xs" and x: "x \<in> set xs"
  from f JObj have "map_of kvs k = Some (JArr xs)"
    by (auto simp: field_def split: option.splits)
  then have "size (JArr xs) < size_list (size_prod (\<lambda>_. 0) size) kvs" by (rule size_map_of)
  moreover from x have "size x < size (JArr xs)"
    by (induction xs) auto
  ultimately show ?thesis using JObj by simp
qed simp_all

function kb_append :: "js \<Rightarrow> js list option" where
  "kb_append c =
     (if nullish c then None
      else (case field c ''children'' of
              JArr xs \<Rightarrow> map_option (\<lambda>ys. kb_item c # concat ys) (those (map kb_append xs))
            | JStr s \<Rightarrow> Some (kb_item c # map (\<lambda>ch. kb_item (JStr [ch])) s)
            | v \<Rightarrow> if truthy v then None else Some [kb_item c]))"
  by pat_completeness auto
termination by (relation "measure size") (auto dest: size_field)

declare kb_append.simps [simp del]

definition knowledge_bases :: "js list \<Rightarrow> js list option" where
  "knowledge_bases categories = map_option concat (those (map kb_append categories))"

section \<open>Downloads\<close>

definition report_download_url :: "string \<Rightarrow> string \<Rightarrow> string" where
  "report_download_url i fmt = ''/api/reports/'' @ i @ ''/download?format='' @ fmt"

text \<open>The URL and the fallback name of each download.\<close>

definition download_report :: "string \<Rightarrow> string \<Rightarrow> string \<times> string" where
  "download_report i fmt = (report_download_url i fmt, ''report_'' @ i @ ''.'' @ fmt)"

definition download_inspection_report :: "string \<Rightarrow> string \<Rightarrow> string \<times> string" where
  "download_inspection_report i fmt =
     (''/api/inspections/reports/export/'' @ i @ ''/'' @ fmt,
      ''inspection_report_'' @ i @ ''.'' @ (if fmt = ''markdown'' then ''md'' else fmt))"

definition export_document :: "string \<Rightarrow> string \<times> string" where
  "export_document i = (''/api/docs/'' @ i @ ''/export'', ''document_'' @ i @ ''.md'')"

definition export_skill :: "string \<Rightarrow> string \<times> string" where
  "export_skill i = (''/api/skills/'' @ i @ ''/export'', i @ ''.yaml'')"

section \<open>Properties\<close>

lemma encode_digits: "\<forall>c \<in> set s. is_digit c \<Longrightarrow> encode_uri_component s = s"
proof -
  assume "\<forall>c \<in> set s. is_digit c"
  then have "\<forall>c \<in> set s. uri_unreserved c" by (auto simp: uri_unreserved_def is_alnum_def)
  then show ?thesis unfolding encode_uri_component_def
    by (induction s) auto
qed

lemma encode_nat [simp]: "encode_uri_component (str_of_nat n) = str_of_nat n"
  by (rule encode_digits) (rule str_of_nat_digits)

text \<open>A query of plain keys and encoded values is read back as written.\<close>

lemma form_parse_encoded:
  assumes "kvs \<noteq> []" and "\<forall>(k, v) \<in> set kvs. form_decode k = k \<and> k \<noteq> [] \<and> CHR ''&'' \<notin> set k \<and> CHR ''='' \<notin> set k \<and> CHR ''?'' \<notin> set k"
  shows "form_parse (join ''&'' (map (\<lambda>(k, v). k @ ''='' @ encode_uri_component v) kvs)) = kvs"
proof -
  let ?e = "\<lambda>(k, v). k @ ''='' @ encode_uri_component v"
  let ?ws = "map ?e kvs"
  have plain: "CHR ''&'' \<notin> set (encode_uri_component v)" for v
    using encode_uri_component_chars [of "CHR ''&''" v] by auto
  have noamp: "\<forall>w \<in> set ?ws. CHR ''&'' \<notin> set w"
    using assms(2) plain by fastforce
  obtain k v rest where kvs: "kvs = (k, v) # rest" using assms(1) by (cases kvs) auto
  have "\<exists>t. join ''&'' ?ws = k @ t"
    unfolding kvs by (cases rest) auto
  then obtain t where t: "join ''&'' ?ws = k @ t" by blast
  have "hd (join ''&'' ?ws) \<noteq> CHR ''?'' \<and> join ''&'' ?ws \<noteq> []"
    using assms(2) t kvs by (cases k) auto
  then have "form_parse (join ''&'' ?ws) = map parse_pair (filter (\<lambda>p. p \<noteq> []) (split_on (CHR ''&'') (join ''&'' ?ws)))"
    by (cases "join ''&'' ?ws") (auto simp: form_parse_def)
  also have "split_on (CHR ''&'') (join ''&'' ?ws) = ?ws"
    by (rule split_on_join) (use noamp assms(1) in auto)
  also have "filter (\<lambda>p. p \<noteq> []) ?ws = ?ws"
    by (auto simp: filter_id_conv)
  also have "map parse_pair ?ws = kvs"
    unfolding map_map
    by (rule map_idI) (use assms(2) in \<open>auto simp: parse_pair_def break_at_append\<close>)
  finally show ?thesis .
qed

definition query_of :: "string \<Rightarrow> string" where
  "query_of url = snd (break_at (CHR ''?'') url)"

definition path_of :: "string \<Rightarrow> string" where
  "path_of url = fst (break_at (CHR ''?'') url)"

lemma break_at_prefix: "d \<notin> set p \<Longrightarrow> break_at d (p @ d # q) = (p, q)"
  by (rule break_at_append)

text \<open>
  The schema browser cannot be led astray by a name: whatever the table, schema and database
  are called, a column request goes to the columns endpoint and the server reads back exactly the
  datasource, the table, and the schema and database that were given.
\<close>

theorem columns_query_roundtrip:
  "path_of (fst (query_endpoint (GetColumns (str_of_nat n) tb sc db))) = ''/api/query/schema/columns''
   \<and> form_parse (query_of (fst (query_endpoint (GetColumns (str_of_nat n) tb sc db))))
      = [(''datasource_id'', str_of_nat n), (''table'', tb)]
        @ (if sc = [] then [] else [(''schema'', sc)])
        @ (if db = [] then [] else [(''database'', db)])"
proof -
  let ?kvs = "[(''datasource_id'', str_of_nat n), (''table'', tb)]
        @ (if sc = [] then [] else [(''schema'', sc)]) @ (if db = [] then [] else [(''database'', db)])"
  let ?q = "join ''&'' (map (\<lambda>(k, v). k @ ''='' @ encode_uri_component v) ?kvs)"
  have "fst (query_endpoint (GetColumns (str_of_nat n) tb sc db)) = ''/api/query/schema/columns'' @ CHR ''?'' # ?q"
    by (simp add: ep_defs opt_param_def)
  then have "break_at (CHR ''?'') (fst (query_endpoint (GetColumns (str_of_nat n) tb sc db)))
      = (''/api/query/schema/columns'', ?q)"
    by (simp only:) (rule break_at_prefix, simp)
  moreover have "form_parse ?q = ?kvs"
  proof (rule form_parse_encoded)
    have "form_decode ''datasource_id'' = ''datasource_id''" "form_decode ''table'' = ''table''"
      "form_decode ''schema'' = ''schema''" "form_decode ''database'' = ''database''"
      by code_simp+
    then show "\<forall>(k, v) \<in> set ?kvs. form_decode k = k \<and> k \<noteq> [] \<and> CHR ''&'' \<notin> set k \<and> CHR ''='' \<notin> set k \<and> CHR ''?'' \<notin> set k"
      by auto
  qed simp
  ultimately show ?thesis by (simp add: path_of_def query_of_def)
qed

text \<open>
  A session identifier cannot leave its place in the path of the terminate request: the URL has
  seven segments whatever the identifier is, has no query, and the sixth decodes to the identifier.
\<close>

theorem terminate_session_path:
  "let url = fst (instance_endpoint (TerminateInstanceSession (str_of_nat n) s))
   in split_on (CHR ''/'') url
        = [[], ''api'', ''instances'', str_of_nat n, ''sessions'', encode_uri_component s, ''terminate'']
      \<and> CHR ''?'' \<notin> set url \<and> CHR ''#'' \<notin> set url
      \<and> decode_uri_component (split_on (CHR ''/'') url ! 5) = Some s"
proof -
  have d: "CHR ''/'' \<notin> set (str_of_nat n) \<and> CHR ''?'' \<notin> set (str_of_nat n) \<and> CHR ''#'' \<notin> set (str_of_nat n)"
    using str_of_nat_digits [of n] by (auto simp: char_class_defs)
  have e: "CHR ''/'' \<notin> set (encode_uri_component s)" "CHR ''?'' \<notin> set (encode_uri_component s)"
      "CHR ''#'' \<notin> set (encode_uri_component s)"
    using encode_uri_component_chars [of _ s] by auto
  let ?ws = "[[], ''api'', ''instances'', str_of_nat n, ''sessions'', encode_uri_component s, ''terminate'']"
  have url: "fst (instance_endpoint (TerminateInstanceSession (str_of_nat n) s)) = join ''/'' ?ws"
    by (simp add: ep_defs)
  have "split_on (CHR ''/'') (join ''/'' ?ws) = ?ws"
    by (rule split_on_join) (use d e in auto)
  moreover have "CHR ''?'' \<notin> set (join ''/'' ?ws)" "CHR ''#'' \<notin> set (join ''/'' ?ws)"
    using d e by auto
  ultimately show ?thesis by (simp only: url Let_def) simp
qed

text \<open>A network that answers by the call alone and keeps the list of calls.\<close>

definition logged_net :: "(fetch_call \<Rightarrow> fetch_result) \<Rightarrow> fetch_call list network" where
  "logged_net ans call w = (ans call, w @ [call])"

definition method_urls :: "fetch_call list \<Rightarrow> (string option \<times> string) list" where
  "method_urls calls = map (\<lambda>k. (fc_method k, fc_url k)) calls"

lemma api_call_log:
  "method_urls (cl_world (snd (api_call env (logged_net ans) ep c)))
     = method_urls (cl_world c) @ [(ro_method (snd ep), fst ep)]"
  by (simp add: api_call_def api_request_world logged_net_def method_urls_def wire_call_def request_options_def)

lemma api_call_status:
  assumes "fst (net (wire_call env (fst ep) (request_options env (snd ep))) (cl_world c)) = Responded r"
    and "rs_status r = 405" and "error_text env (error_body r) \<noteq> None"
  shows "\<exists>e. fst (api_call env net ep c) = Inl (RequestFailed e) \<and> re_status e = Some 405"
proof -
  obtain d where "api_fetch env net (fst ep) (request_options env (snd ep)) c = (Responded r, d)"
    using assms(1) by (auto simp: api_fetch_def case_prod_beta Let_def)
  from api_request_responded [OF this] assms(2,3) show ?thesis
    by (auto simp: api_call_def rs_ok_def)
qed

text \<open>
  Deleting an evaluation run: the first request is the DELETE; when the server answers that the
  method is not allowed, exactly one more request is sent, the POST form of the deletion, and its
  result is the result of the call.
\<close>

theorem delete_eval_run_fallback:
  assumes "ans (wire_call env (''/api/eval/runs/'' @ i) (request_options env (no_options\<lparr>ro_method := Some ''DELETE''\<rparr>))) = Responded r"
    and "rs_status r = 405" and "error_text env (error_body r) \<noteq> None"
    and "delete_eval_run env (logged_net ans) i c = (res, c')"
  shows "method_urls (cl_world c') = method_urls (cl_world c)
      @ [(Some ''DELETE'', ''/api/eval/runs/'' @ i), (Some ''POST'', ''/api/eval/runs/'' @ i @ ''/delete'')]
    \<and> (\<exists>d. api_call env (logged_net ans) (eval_endpoint (DeleteEvalRunByPost i)) d = (res, c'))"
proof -
  let ?net = "logged_net ans"
  obtain res1 c1 where one: "api_call env ?net (eval_endpoint (DeleteEvalRun i)) c = (res1, c1)" by fastforce
  have "\<exists>e. fst (api_call env ?net (eval_endpoint (DeleteEvalRun i)) c) = Inl (RequestFailed e) \<and> re_status e = Some 405"
    by (rule api_call_status [where r = r]) (use assms(1-3) in \<open>simp_all add: logged_net_def ep_defs\<close>)
  then obtain e where e: "res1 = Inl (RequestFailed e)" "re_status e = Some 405"
    unfolding one by auto
  with one assms(4) have two: "api_call env ?net (eval_endpoint (DeleteEvalRunByPost i)) c1 = (res, c')"
    by (simp add: delete_eval_run_def)
  have "method_urls (cl_world c1) = method_urls (cl_world c) @ [(Some ''DELETE'', ''/api/eval/runs/'' @ i)]"
    using api_call_log [of env ans "eval_endpoint (DeleteEvalRun i)" c] unfolding one by (simp add: ep_defs)
  moreover have "method_urls (cl_world c') = method_urls (cl_world c1) @ [(Some ''POST'', ''/api/eval/runs/'' @ i @ ''/delete'')]"
    using api_call_log [of env ans "eval_endpoint (DeleteEvalRunByPost i)" c1] unfolding two by (simp add: ep_defs)
  ultimately show ?thesis using two by (simp del: eval_endpoint.simps) blast
qed

definition old_server :: "fetch_call \<Rightarrow> fetch_result" where
  "old_server call = Responded (demo_response (if fc_method call = Some ''DELETE'' then 405 else 200) (JObj []))"

theorem delete_eval_run_fallback_witness:
  "\<exists>res c'. delete_eval_run demo_env (logged_net old_server) ''9'' demo_client = (res, c')
     \<and> method_urls (cl_world c') = [(Some ''DELETE'', ''/api/eval/runs/9''), (Some ''POST'', ''/api/eval/runs/9/delete'')]"
proof -
  obtain res c' where r: "delete_eval_run demo_env (logged_net old_server) ''9'' demo_client = (res, c')" by fastforce
  have "old_server (wire_call demo_env (''/api/eval/runs/'' @ ''9'')
          (request_options demo_env (no_options\<lparr>ro_method := Some ''DELETE''\<rparr>)))
        = Responded (demo_response 405 (JObj []))"
    by (simp add: old_server_def wire_call_def request_options_def)
  from delete_eval_run_fallback [OF this _ _ r] r show ?thesis
    by (simp add: demo_response_def error_text_def error_body_def nullish_def Let_def demo_client_def method_urls_def)
qed

text \<open>The categories below a category, itself included.\<close>

fun kb_children :: "js \<Rightarrow> js set" where
  "kb_children c = (case field c ''children'' of
      JArr xs \<Rightarrow> set xs | JStr s \<Rightarrow> (\<lambda>ch. JStr [ch]) ` set s | _ \<Rightarrow> {})"

inductive kb_below :: "js \<Rightarrow> js \<Rightarrow> bool" for c where
  self: "kb_below c c"
| child: "kb_below c d \<Longrightarrow> x \<in> kb_children d \<Longrightarrow> kb_below c x"

lemma kb_below_trans: "kb_below d e \<Longrightarrow> kb_below c d \<Longrightarrow> kb_below c e"
  by (induction rule: kb_below.induct) (auto intro: kb_below.child)

lemma kb_below_unfold: "kb_below c e \<longleftrightarrow> e = c \<or> (\<exists>x \<in> kb_children c. kb_below x e)"
proof
  assume "kb_below c e"
  then show "e = c \<or> (\<exists>x \<in> kb_children c. kb_below x e)"
  proof (induction rule: kb_below.induct)
    case self
    then show ?case by simp
  next
    case (child d x)
    then show ?case using kb_below.self kb_below.child by metis
  qed
next
  assume "e = c \<or> (\<exists>x \<in> kb_children c. kb_below x e)"
  then show "kb_below c e"
    using kb_below_trans kb_below.child [OF kb_below.self] kb_below.self by metis
qed

lemma those_map_Some: "those (map f xs) = Some ys \<Longrightarrow> \<forall>x \<in> set xs. \<exists>y \<in> set ys. f x = Some y"
  by (induction xs arbitrary: ys) (auto split: option.splits)

lemma those_map_set: "those (map f xs) = Some ys \<Longrightarrow> set ys = {y. \<exists>x \<in> set xs. f x = Some y}"
proof (induction xs arbitrary: ys)
  case Nil
  then show ?case by simp
next
  case (Cons x xs)
  then obtain y zs where "f x = Some y" "those (map f xs) = Some zs" "ys = y # zs"
    by (auto split: option.splits)
  with Cons.IH [of zs] show ?case by auto
qed

lemma kb_leaf: "kb_below (JStr s) e \<longleftrightarrow> e = JStr s"
  by (subst kb_below_unfold) simp

lemma kb_append_set: "kb_append c = Some items \<Longrightarrow> set items = kb_item ` {e. kb_below c e}"
proof (induction c arbitrary: items rule: kb_append.induct)
  case (1 c)
  have nn: "\<not> nullish c" using "1.prems" by (auto simp: kb_append.simps [of c] split: if_splits)
  consider (arr) xs where "field c ''children'' = JArr xs" | (str) s where "field c ''children'' = JStr s"
    | (other) "\<not> truthy (field c ''children'')" "kb_children c = {}" "items = [kb_item c]"
    using "1.prems" nn by (auto simp: kb_append.simps [of c] split: js.splits if_splits)
  then show ?case
  proof cases
    case arr
    with "1.prems" nn obtain ys where ys: "those (map kb_append xs) = Some ys" "items = kb_item c # concat ys"
      by (auto simp: kb_append.simps [of c])
    have IH: "set y = kb_item ` {e. kb_below x e}" if "x \<in> set xs" "kb_append x = Some y" for x y
      using "1.IH" [OF nn arr that(1)] that(2) by blast
    have "set (concat ys) = (\<Union>x \<in> set xs. kb_item ` {e. kb_below x e})"
      using those_map_set [OF ys(1)] those_map_Some [OF ys(1)] IH by fastforce
    moreover have "{e. kb_below c e} = insert c (\<Union>x \<in> set xs. {e. kb_below x e})"
      using arr by (auto simp: kb_below_unfold [of c])
    ultimately show ?thesis using ys(2) by (simp add: image_UN)
  next
    case str
    with "1.prems" nn have "items = kb_item c # map (\<lambda>ch. kb_item (JStr [ch])) s"
      by (auto simp: kb_append.simps [of c])
    moreover have "{e. kb_below c e} = insert c ((\<lambda>ch. JStr [ch]) ` set s)"
      using str by (auto simp: kb_below_unfold [of c] kb_leaf)
    ultimately show ?thesis by (auto simp: image_image)
  next
    case other
    then show ?thesis by (simp add: kb_below_unfold [of c])
  qed
qed

text \<open>
  The flat list of knowledge bases is exactly the category tree: a category of any depth is in
  it, with its document count, and nothing else is.
\<close>

theorem knowledge_bases_complete:
  assumes "knowledge_bases cs = Some items"
  shows "set items = kb_item ` {e. \<exists>c \<in> set cs. kb_below c e}"
proof -
  from assms obtain ys where ys: "those (map kb_append cs) = Some ys" "items = concat ys"
    by (auto simp: knowledge_bases_def)
  have "set items = (\<Union>c \<in> set cs. kb_item ` {e. kb_below c e})"
    unfolding ys(2) set_concat
    using those_map_set [OF ys(1)] those_map_Some [OF ys(1)] kb_append_set by fastforce
  then show ?thesis by auto
qed

definition demo_categories :: "js list" where
  "demo_categories = [JObj [(''id'', JInt 1), (''children'', JArr [JObj [(''id'', JInt 2), (''document_count'', JInt 4)]])]]"

theorem knowledge_bases_complete_witness:
  "\<exists>items. knowledge_bases demo_categories = Some items
     \<and> kb_item (JObj [(''id'', JInt 2), (''document_count'', JInt 4)]) \<in> set items \<and> length items = 2"
proof -
  have k: "\<exists>items. knowledge_bases demo_categories = Some items \<and> length items = 2"
    by (simp add: demo_categories_def knowledge_bases_def kb_append.simps nullish_def)
  then obtain items where i: "knowledge_bases demo_categories = Some items" "length items = 2" by blast
  have "kb_below (hd demo_categories) (JObj [(''id'', JInt 2), (''document_count'', JInt 4)])"
    by (rule kb_below.child [OF kb_below.self]) (simp add: demo_categories_def)
  moreover have "hd demo_categories \<in> set demo_categories" by (simp add: demo_categories_def)
  ultimately show ?thesis using knowledge_bases_complete [OF i(1)] i by blast
qed

end
