(* ===== verification/AppRouter.thy ===== *)
theory AppRouter
  imports StateStore
begin

text \<open>
  \<^verbatim>\<open>frontend/js/router.js\<close> and \<^verbatim>\<open>frontend/js/app.js\<close>: the hash router and the application
  start. A page handler is asynchronous, so \<^verbatim>\<open>_handleRoute\<close> has two halves: \<open>route_begin\<close> runs
  up to the \<^verbatim>\<open>await\<close> of the handler and \<open>route_finish\<close> is what remains when the handler
  returns its cleanup function. What the router does to the rest of the page is the list of
  actions it returns.
\<close>

section \<open>State\<close>

text \<open>\<open>'h\<close> are page handlers, \<open>'c\<close> cleanup functions, \<open>'l\<close> the store's listeners.\<close>

record ('h, 'c, 'l) router =
  rt_routes :: "(string, 'h) jsmap"
  rt_cleanup :: "'c option"
  rt_hash :: string
  rt_store :: "'l store"
  rt_dirty :: "string list"

datatype ('h, 'c) route_action =
    RunCleanup 'c
  | RunHandler 'h string
  | ShowNotFound string
  | MarkActive string

datatype 'h route_outcome =
    Redirected
  | Pending string
  | Done

definition route_register :: "string \<Rightarrow> 'h \<Rightarrow> ('h, 'c, 'l) router \<Rightarrow> ('h, 'c, 'l) router" where
  "route_register path h r = r\<lparr>rt_routes := AList.update path h (rt_routes r)\<rparr>"

definition route_navigate :: "string \<Rightarrow> ('h, 'c, 'l) router \<Rightarrow> ('h, 'c, 'l) router" where
  "route_navigate path r = r\<lparr>rt_hash := path\<rparr>"

section \<open>Reading the hash\<close>

text \<open>
  \<^verbatim>\<open>window.location.hash.slice(1) || 'dashboard'\<close>, split at the question marks and at the
  slashes; the first query piece is kept, a path tail is used when there is no query.
\<close>

definition route_hash :: "string \<Rightarrow> string" where
  "route_hash h = (if h = [] then ''dashboard'' else h)"

definition route_parse :: "string \<Rightarrow> string \<times> string" where
  "route_parse h =
     (let pieces = split_on (CHR ''?'') (route_hash h);
          query = (case pieces of _ # q # _ \<Rightarrow> q | _ \<Rightarrow> []);
          segs = split_on (CHR ''/'') (hd pieces)
      in (hd segs, if query \<noteq> [] then query else join ''/'' (tl segs)))"

definition route_console_target :: "'l store \<Rightarrow> string" where
  "route_console_target s =
     (let first = (case elements (js_or (store_get ''datasources'' s) (JArr [])) of
                     x # _ \<Rightarrow> x | [] \<Rightarrow> JUndef);
          ds = js_or (js_or (js_or (store_get ''currentConnection'' s) (store_get ''currentDatasource'' s)) first) JNull
      in if truthy (field ds ''id'')
         then ''instance-detail?datasource='' @ js_string (field ds ''id'') @ ''&tab=sqlConsole''
         else ''datasources'')"

section \<open>Routing\<close>

definition route_begin :: "('h, 'c, 'l) router \<Rightarrow>
    ('h, 'c, 'l) router \<times> ('h, 'c) route_action list \<times> 'h route_outcome" where
  "route_begin r =
     (let (page, param) = route_parse (rt_hash r) in
      if page \<noteq> ''login'' \<and> \<not> truthy (store_get ''currentUser'' (rt_store r))
      then (r\<lparr>rt_hash := ''login''\<rparr>, [], Redirected)
      else if page = ''sqlConsole''
      then (r\<lparr>rt_hash := route_console_target (rt_store r)\<rparr>, [], Redirected)
      else
        (let cleanup_acts = (case rt_cleanup r of Some c \<Rightarrow> [RunCleanup c] | None \<Rightarrow> []);
             r' = r\<lparr>rt_cleanup := None, rt_dirty := [],
                    rt_store := store_put ''currentPage'' (JStr page) (rt_store r)\<rparr>
         in case map_of (rt_routes r) page of
              Some h \<Rightarrow> (r', cleanup_acts @ [RunHandler h param], Pending page)
            | None \<Rightarrow> (r', cleanup_acts @ [ShowNotFound page, MarkActive page], Done)))"

definition route_finish :: "string \<Rightarrow> 'c option \<Rightarrow> ('h, 'c, 'l) router \<Rightarrow>
    ('h, 'c, 'l) router \<times> ('h, 'c) route_action list" where
  "route_finish page result r =
     ((case result of Some c \<Rightarrow> r\<lparr>rt_cleanup := Some c\<rparr> | None \<Rightarrow> r), [MarkActive page])"

text \<open>
  Assigning \<^verbatim>\<open>location.hash\<close> raises \<^verbatim>\<open>hashchange\<close>, which routes again; \<open>None\<close> is running out of
  the redirect budget.
\<close>

fun route_settle :: "nat \<Rightarrow> ('h, 'c, 'l) router \<Rightarrow>
    (('h, 'c, 'l) router \<times> ('h, 'c) route_action list \<times> 'h route_outcome) option" where
  "route_settle 0 r = None"
| "route_settle (Suc n) r =
     (case route_begin r of
        (r', acts, Redirected) \<Rightarrow> route_settle n r'
      | res \<Rightarrow> Some res)"

definition logged_in :: "('h, 'c, 'l) router \<Rightarrow> bool" where
  "logged_in r \<longleftrightarrow> truthy (store_get ''currentUser'' (rt_store r))"

section \<open>Application start\<close>

text \<open>What \<^verbatim>\<open>app.js\<close> registers: the page method called, whether it gets the route parameter, and
  the two aliases that only navigate.\<close>

datatype page_handler =
    Render string bool
  | GoTo string

definition app_routes :: "(string \<times> page_handler) list" where
  "app_routes =
    [(''login'', Render ''LoginPage.render'' False),
     (''dashboard'', Render ''DashboardPage.render'' False),
     (''datasources'', Render ''DatasourcesPage.render'' False),
     (''hosts'', Render ''HostsPage.render'' False),
     (''monitor'', Render ''MonitorPage.render'' False),
     (''diagnosis'', Render ''DiagnosisPage.renderFromRoute'' True),
     (''ai-models'', Render ''AIModelsPage.render'' False),
     (''documents'', Render ''DocumentsPage.render'' False),
     (''skills'', Render ''SkillsPage.render'' False),
     (''system-configs'', Render ''SystemConfigsPage.render'' False),
     (''scheduled-tasks'', Render ''ScheduledTasksPage.render'' False),
     (''evaluation'', Render ''EvaluationPage.render'' False),
     (''users'', Render ''UsersPage.render'' False),
     (''inspection'', Render ''InspectionPage.renderFromRoute'' True),
     (''alerts'', Render ''AlertsPage.init'' True),
     (''alert-ai-policies'', GoTo ''alerts?tab=templates''),
     (''alert-templates'', GoTo ''alerts?tab=templates''),
     (''integrations'', Render ''integrationsPage.init'' False),
     (''instance-detail'', Render ''InstanceDetailPage.render'' True),
     (''host-detail'', Render ''HostDetailPage.render'' True)]"

definition register_all :: "(page_handler, 'c, 'l) router \<Rightarrow> (page_handler, 'c, 'l) router" where
  "register_all r = fold (\<lambda>(p, h). route_register p h) app_routes r"

text \<open>
  The session part of \<^verbatim>\<open>app.js\<close>: whether the browser holds a session mark, and what the
  identity request returned (\<open>None\<close> when it threw). The result is the router's state and the
  locale the session asks for.
\<close>

definition app_restore_session ::
  "bool \<Rightarrow> js option \<Rightarrow> string \<Rightarrow> ('h, 'c, 'l) router \<Rightarrow> ('h, 'c, 'l) router \<times> string option" where
  "app_restore_session marked me default_locale r =
     (if marked then
        (case me of
           Some user \<Rightarrow>
             (r\<lparr>rt_store := store_put ''currentUser'' user (rt_store r)\<rparr>,
              Some (js_string (js_or (field user ''locale'') (JStr default_locale))))
         | None \<Rightarrow> (r\<lparr>rt_store := store_put ''currentUser'' JNull (rt_store r)\<rparr>, None))
      else (r\<lparr>rt_store := store_put ''currentUser'' JNull (rt_store r)\<rparr>, None))"

section \<open>Properties\<close>

lemma route_parse_plain:
  assumes "CHR ''?'' \<notin> set page" "CHR ''/'' \<notin> set page" "page \<noteq> []"
  shows "route_parse page = (page, [])"
  using assms by (simp add: route_parse_def route_hash_def split_on_no_sep)

lemma route_parse_query:
  assumes "CHR ''?'' \<notin> set page" "CHR ''/'' \<notin> set page" "CHR ''?'' \<notin> set q"
  shows "route_parse (page @ ''?'' @ q) = (page, q)"
  using assms by (simp add: route_parse_def route_hash_def split_on_no_sep split_on_append)


definition demo_router :: "(page_handler, nat, nat) router" where
  "demo_router = register_all
     \<lparr>rt_routes = [], rt_cleanup = Some 7, rt_hash = ''hosts'', rt_store = init_store, rt_dirty = []\<rparr>"


lemma console_target_page: "fst (route_parse (route_console_target s)) \<in> {''instance-detail'', ''datasources''}"
proof -
  have "\<exists>i. route_console_target s = ''instance-detail?datasource='' @ i \<or> route_console_target s = ''datasources''"
    by (auto simp: route_console_target_def Let_def)
  then show ?thesis
    by (auto simp: route_parse_def route_hash_def Let_def split: list.splits)
qed

lemma route_begin_settled:
  "fst (route_parse (rt_hash r)) = ''login'' \<or> (logged_in r \<and> fst (route_parse (rt_hash r)) \<noteq> ''sqlConsole'')
   \<Longrightarrow> \<exists>r' acts out. route_begin r = (r', acts, out) \<and> out \<noteq> Redirected"
  by (auto simp: route_begin_def logged_in_def case_prod_beta Let_def split: option.splits)

text \<open>
  C33. Following redirects always ends: three rounds are enough from any hash, whoever is logged
  in, and the router then either waits for a handler or has shown the not-found page.
\<close>

theorem route_redirects_terminate:
  "\<exists>r' acts out. route_settle 3 r = Some (r', acts, out) \<and> out \<noteq> Redirected"
proof -
  have one: "\<exists>r' acts out. route_settle (Suc n) s = Some (r', acts, out) \<and> out \<noteq> Redirected"
    if "fst (route_parse (rt_hash s)) = ''login'' \<or>
        (logged_in s \<and> fst (route_parse (rt_hash s)) \<noteq> ''sqlConsole'')" for n and s :: "('a, 'b, 'c) router"
    using route_begin_settled [OF that] by (auto split: route_outcome.splits)
  have three: "(3::nat) = Suc (Suc (Suc 0))" by simp
  show ?thesis
  proof (cases "fst (route_parse (rt_hash r)) = ''login'' \<or>
      (logged_in r \<and> fst (route_parse (rt_hash r)) \<noteq> ''sqlConsole'')")
    case True
    then show ?thesis unfolding three by (rule one)
  next
    case False
    define r' where "r' = (if logged_in r then r\<lparr>rt_hash := route_console_target (rt_store r)\<rparr>
                           else r\<lparr>rt_hash := ''login''\<rparr>)"
    from False have "route_begin r = (r', [], Redirected)"
      by (auto simp: route_begin_def r'_def logged_in_def case_prod_beta Let_def)
    moreover have "fst (route_parse (rt_hash r')) = ''login'' \<or>
        (logged_in r' \<and> fst (route_parse (rt_hash r')) \<noteq> ''sqlConsole'')"
      using console_target_page [of "rt_store r"]
      by (auto simp: r'_def logged_in_def route_parse_def route_hash_def)
    ultimately show ?thesis unfolding three using one [of r' "Suc 0"] by simp
  qed
qed

text \<open>
  One cleanup per visit: when a page is entered the cleanup function the previous page left
  is run exactly once, before the new page's handler, and is forgotten; finishing a handler that
  returns a function installs that function.
\<close>

theorem route_cleanup_once:
  assumes "route_begin r = (r', acts, out)" and "out \<noteq> Redirected"
  shows "filter (\<lambda>a. case a of RunCleanup _ \<Rightarrow> True | _ \<Rightarrow> False) acts
           = (case rt_cleanup r of Some c \<Rightarrow> [RunCleanup c] | None \<Rightarrow> [])
       \<and> rt_cleanup r' = None
       \<and> (\<exists>rest. acts = (case rt_cleanup r of Some c \<Rightarrow> [RunCleanup c] | None \<Rightarrow> []) @ rest)
       \<and> rt_cleanup (fst (route_finish page (Some d) r')) = Some d"
  using assms
  by (auto simp: route_begin_def route_finish_def case_prod_beta Let_def split: if_splits option.splits)

definition user_router :: "(page_handler, nat, nat) router" where
  "user_router = fst (app_restore_session True (Some (JObj [(''id'', JInt 1)])) ''zh-CN'' demo_router)"

theorem route_cleanup_once_witness:
  "\<exists>r' acts out. route_begin user_router = (r', acts, out) \<and> rt_cleanup r' = None
     \<and> (\<exists>rest. acts = [RunCleanup 7] @ rest)"
proof -
  obtain r' acts out where b: "route_begin user_router = (r', acts, out)" by (metis prod_cases3)
  have l: "logged_in user_router" "rt_hash user_router = ''hosts''" "rt_cleanup user_router = Some 7"
    by (simp_all add: user_router_def app_restore_session_def demo_router_def register_all_def
        app_routes_def route_register_def logged_in_def)
  have "fst (route_parse (rt_hash user_router)) \<noteq> ''sqlConsole''"
    by (simp add: l route_parse_def route_hash_def)
  with l b route_begin_settled [of user_router] have "out \<noteq> Redirected" by auto
  from route_cleanup_once [OF b this] b l show ?thesis by auto
qed

text \<open>
  Two navigations may overlap, since a handler is awaited: when the second page's handler
  returns before the first one's, the router ends with the first page's cleanup, and the cleanup
  function of the page that is shown is lost.
\<close>

theorem route_overlap_loses_cleanup:
  "let (r1, _, _) = route_begin (route_navigate p1 r);
       (r2, _, _) = route_begin (route_navigate p2 r1);
       (r3, _) = route_finish page2 (Some c2) r2;
       (r4, _) = route_finish page1 (Some c1) r3
   in rt_cleanup r4 = Some c1 \<and> store_get ''currentPage'' (rt_store r4) = store_get ''currentPage'' (rt_store r2)"
  by (simp add: route_finish_def case_prod_beta Let_def)

text \<open>
  The route table: every page name is registered once, the start page and the login page are
  there, and each alias navigates to a page that is registered itself.
\<close>

theorem app_routes_consistent:
  "distinct (map fst app_routes)
   \<and> {''login'', ''dashboard'', fst (route_parse (route_console_target s))} \<subseteq> fst ` set app_routes
   \<and> list_all (\<lambda>(p, h). case h of
        GoTo t \<Rightarrow> map_of app_routes (fst (route_parse t)) = Some (Render ''AlertsPage.init'' True)
                    \<and> snd (route_parse t) = ''tab=templates''
      | Render _ _ \<Rightarrow> True) app_routes"
proof -
  have "distinct (map fst app_routes)" by (simp add: app_routes_def)
  moreover have "{''login'', ''dashboard'', fst (route_parse (route_console_target s))} \<subseteq> fst ` set app_routes"
    using console_target_page [of s] by (auto simp: app_routes_def)
  moreover have "route_parse ''alerts?tab=templates'' = (''alerts'', ''tab=templates'')"
    by (simp add: route_parse_def route_hash_def)
  moreover have "map_of app_routes ''alerts'' = Some (Render ''AlertsPage.init'' True)"
    by (simp add: app_routes_def)
  ultimately show ?thesis by (auto simp: app_routes_def)
qed

end
