(* ===== verification/JsSort.thy ===== *)
theory JsSort
  imports JsNumber
begin

text \<open>
  \<^verbatim>\<open>Array.prototype.sort\<close> with a comparison function: a stable sort, whose result is determined when the function
  is consistent, which the locale states: it changes its sign with its arguments, and it is transitive.
  Comparison functions of the pages are built from differences of keys, one key after another, and a direction.
\<close>

fun insert_by :: "('a \<Rightarrow> 'a \<Rightarrow> rat) \<Rightarrow> 'a \<Rightarrow> 'a list \<Rightarrow> 'a list" where
  "insert_by c x [] = [x]"
| "insert_by c x (y # ys) = (if c x y \<le> 0 then x # y # ys else y # insert_by c x ys)"

definition js_sort :: "('a \<Rightarrow> 'a \<Rightarrow> rat) \<Rightarrow> 'a list \<Rightarrow> 'a list" where
  "js_sort c xs = foldr (insert_by c) xs []"

lemma mset_insert_by [simp]: "mset (insert_by c x ys) = add_mset x (mset ys)"
  by (induction ys) auto

lemma mset_js_sort [simp]: "mset (js_sort c xs) = mset xs"
  by (induction xs) (simp_all add: js_sort_def)

lemma set_js_sort [simp]: "set (js_sort c xs) = set xs"
  by (metis mset_js_sort set_mset_mset)

lemma length_js_sort [simp]: "length (js_sort c xs) = length xs"
  by (metis mset_js_sort size_mset)

lemma insert_by_cong: "(\<And>y. y \<in> set ys \<Longrightarrow> c x y = d x y) \<Longrightarrow> insert_by c x ys = insert_by d x ys"
  by (induction ys) auto

locale comparator =
  fixes cmp :: "'a \<Rightarrow> 'a \<Rightarrow> rat"
  assumes flip: "cmp y x = - cmp x y"
    and trans: "cmp x y \<le> 0 \<Longrightarrow> cmp y z \<le> 0 \<Longrightarrow> cmp x z \<le> 0"
begin

lemma refl [simp]: "cmp x x = 0"
  using flip [of x x] by simp

definition same :: "'a \<Rightarrow> 'a \<Rightarrow> bool" where
  "same x y \<longleftrightarrow> cmp x y = 0"

lemma sorted_insert: "sorted_wrt (\<lambda>x y. cmp x y \<le> 0) ys \<Longrightarrow> sorted_wrt (\<lambda>x y. cmp x y \<le> 0) (insert_by cmp x ys)"
proof (induction ys)
  case (Cons y ys)
  show ?case
  proof (cases "cmp x y \<le> 0")
    case True
    then show ?thesis using Cons.prems trans [OF True] by auto
  next
    case False
    then have "cmp y x \<le> 0" using flip [of y x] by simp
    moreover have "set (insert_by cmp x ys) = insert x (set ys)" by (metis mset_insert_by set_mset_mset set_mset_add_mset_insert)
    ultimately show ?thesis using False Cons by simp
  qed
qed simp

lemma sorted_sort: "sorted_wrt (\<lambda>x y. cmp x y \<le> 0) (js_sort cmp xs)"
  by (induction xs) (simp_all add: js_sort_def sorted_insert)

lemma insert_filter:
  "filter (same a) (insert_by cmp x ys) = (if same a x then x # filter (same a) ys else filter (same a) ys)"
  if "sorted_wrt (\<lambda>x y. cmp x y \<le> 0) ys" for ys
  using that
proof (induction ys)
  case (Cons y ys)
  show ?case
  proof (cases "cmp x y \<le> 0")
    case False
    have "\<not> (same a x \<and> same a y)"
    proof
      assume "same a x \<and> same a y"
      then have "cmp x a \<le> 0" "cmp a y \<le> 0" using flip [of a x] by (simp_all add: same_def)
      from trans [OF this] False show False by simp
    qed
    then show ?thesis using False Cons by auto
  qed simp
qed simp

text \<open>Elements that compare equal keep their order.\<close>

lemma stable: "filter (same a) (js_sort cmp xs) = filter (same a) xs"
proof (induction xs)
  case (Cons x xs)
  have "js_sort cmp (x # xs) = insert_by cmp x (js_sort cmp xs)" by (simp add: js_sort_def)
  then show ?case using insert_filter [OF sorted_sort, of a x xs] Cons by simp
qed (simp add: js_sort_def)

end

lemma comparator_diff: "comparator (\<lambda>x y. f x - f y)"
  by unfold_locales simp_all

lemma comparator_lex:
  assumes "comparator c" and "comparator d"
  shows "comparator (\<lambda>x y. if c x y = 0 then d x y else c x y)"
proof -
  note cf = comparator.flip [OF assms(1)] and ct = comparator.trans [OF assms(1)]
    and df = comparator.flip [OF assms(2)] and dt = comparator.trans [OF assms(2)]
  have c0: "c x z = 0" if "c x y = 0" "c y z = 0" for x y z
    using ct [of x y z] ct [of z y x] cf [of x y] cf [of y z] cf [of x z] that by simp
  have cl: "c x z < 0" if "c x y \<le> 0" "c y z \<le> 0" "c x y < 0 \<or> c y z < 0" for x y z
  proof (rule ccontr)
    assume "\<not> c x z < 0"
    then have e: "c z x \<le> 0" using cf [of x z] by simp
    from ct [OF that(2) e] ct [OF e that(1)] show False using that(3) cf [of x y] cf [of y z] by auto
  qed
  show ?thesis
  proof
    fix x y z
    show "(if c y x = 0 then d y x else c y x) = - (if c x y = 0 then d x y else c x y)"
      using cf [of x y] df [of x y] by auto
    assume a: "(if c x y = 0 then d x y else c x y) \<le> 0" "(if c y z = 0 then d y z else c y z) \<le> 0"
    show "(if c x z = 0 then d x z else c x z) \<le> 0"
    proof (cases "c x y = 0 \<and> c y z = 0")
      case True
      then show ?thesis using c0 a dt by auto
    next
      case False
      then have "c x z < 0" using cl [of x y z] a by (auto split: if_splits)
      then show ?thesis by simp
    qed
  qed
qed

lemma comparator_flip: "comparator c \<Longrightarrow> comparator (\<lambda>x y. c y x)"
  unfolding comparator_def by blast

lemma comparator_negate:
  assumes "comparator c"
  shows "comparator (\<lambda>x y. - c x y)"
proof -
  have "- c x y = c y x" for x y
    using comparator.flip [OF assms, of x y] by linarith
  then show ?thesis using comparator_flip [OF assms] by presburger
qed

lemma comparator_on: "comparator c \<Longrightarrow> comparator (\<lambda>x y. c (f x) (f y))"
  unfolding comparator_def by blast

text \<open>Only the comparisons of the elements count.\<close>

lemma js_sort_cong: "(\<And>x y. x \<in> set xs \<Longrightarrow> y \<in> set xs \<Longrightarrow> c x y = d x y) \<Longrightarrow> js_sort c xs = js_sort d xs"
proof (induction xs)
  case (Cons x xs)
  have "insert_by c x (js_sort d xs) = insert_by d x (js_sort d xs)"
    by (rule insert_by_cong) (simp add: Cons.prems)
  then show ?case using Cons by (simp add: js_sort_def)
qed (simp add: js_sort_def)

section \<open>Results of a comparison function\<close>

text \<open>A result is a number, of which the sort looks at the sign; NaN counts as 0.\<close>

fun cmp_value :: "jnum \<Rightarrow> rat" where
  "cmp_value (Fin q) = q"
| "cmp_value PInf = 1"
| "cmp_value MInf = -1"
| "cmp_value NaN = 0"

fun num_minus :: "jnum \<Rightarrow> jnum \<Rightarrow> jnum" where
  "num_minus (Fin a) (Fin b) = Fin (a - b)"
| "num_minus (Fin a) PInf = MInf"
| "num_minus (Fin a) MInf = PInf"
| "num_minus PInf (Fin b) = PInf"
| "num_minus PInf MInf = PInf"
| "num_minus MInf (Fin b) = MInf"
| "num_minus MInf PInf = MInf"
| "num_minus _ _ = NaN"

fun num_negate :: "jnum \<Rightarrow> jnum" where
  "num_negate (Fin q) = Fin (- q)"
| "num_negate PInf = MInf"
| "num_negate MInf = PInf"
| "num_negate NaN = NaN"

lemma cmp_negate [simp]: "cmp_value (num_negate n) = - cmp_value n"
  by (cases n) auto

end
