(* ===== verification/BaselineProfiles.thy ===== *)
theory BaselineProfiles
  imports JsSort HtmlForm
begin

text \<open>
  The details of a baseline (pages/datasources.js): the profiles of the time slots of a week, grouped by metric,
  the metrics in a fixed order, and for each a heat map of seven days by twenty-four hours.  \<open>collate\<close> is the
  comparison of texts in the current locale; a metric has not the name of an array index.
\<close>

section \<open>Groups\<close>

definition profile_metric :: "js \<Rightarrow> string" where
  "profile_metric p = js_string (js_or (field p ''metric_name'') (JStr ''unknown''))"

definition add_profile :: "(string \<times> js list) list \<Rightarrow> js \<Rightarrow> (string \<times> js list) list" where
  "add_profile groups p =
     (let m = profile_metric p
      in AList.update m ((case map_of groups m of Some ps \<Rightarrow> ps | None \<Rightarrow> []) @ [p]) groups)"

definition slot_number :: "string \<Rightarrow> js \<Rightarrow> jnum" where
  "slot_number key p = to_number (js_or (field p key) (JInt 0))"

definition compare_slots :: "js \<Rightarrow> js \<Rightarrow> jnum" where
  "compare_slots a b =
     (let weekdays = num_minus (slot_number ''weekday'' a) (slot_number ''weekday'' b)
      in if weekdays \<noteq> Fin 0 then weekdays else num_minus (slot_number ''hour'' a) (slot_number ''hour'' b))"

definition group_profiles :: "js list \<Rightarrow> (string \<times> js list) list" where
  "group_profiles profiles =
     map (\<lambda>(m, ps). (m, js_sort (\<lambda>a b. cmp_value (compare_slots a b)) ps)) (foldl add_profile [] profiles)"

definition preferred_metrics :: "string list" where
  "preferred_metrics = [''cpu_usage'', ''disk_usage'', ''connections_active'', ''qps'', ''tps'']"

fun index_of :: "'a \<Rightarrow> 'a list \<Rightarrow> nat option" where
  "index_of x [] = None"
| "index_of x (y # ys) = (if x = y then Some 0 else map_option Suc (index_of x ys))"

definition compare_metrics :: "(string \<Rightarrow> string \<Rightarrow> rat) \<Rightarrow> string \<Rightarrow> string \<Rightarrow> rat" where
  "compare_metrics collate l r =
     (case (index_of l preferred_metrics, index_of r preferred_metrics) of
        (None, None) \<Rightarrow> collate l r
      | (None, Some _) \<Rightarrow> 1
      | (Some _, None) \<Rightarrow> -1
      | (Some i, Some j) \<Rightarrow> of_nat i - of_nat j)"

definition ordered_groups :: "(string \<Rightarrow> string \<Rightarrow> rat) \<Rightarrow> (string \<times> js list) list \<Rightarrow> (string \<times> js list) list" where
  "ordered_groups collate groups =
     map (\<lambda>m. (m, case map_of groups m of Some ps \<Rightarrow> ps | None \<Rightarrow> []))
       (js_sort (compare_metrics collate) (map fst groups))"

section \<open>The heat map\<close>

definition slot_key :: "js \<Rightarrow> string" where
  "slot_key p = str_of_num (slot_number ''weekday'' p) @ ''-'' @ str_of_num (slot_number ''hour'' p)"

definition slot_map :: "js list \<Rightarrow> (string \<times> js) list" where
  "slot_map items = foldl (\<lambda>acc p. AList.update (slot_key p) p acc) [] items"

datatype load = Low | Medium | High

definition load_between :: "rat \<Rightarrow> rat \<Rightarrow> rat \<Rightarrow> load" where
  "load_between low high v = (if v < low then Low else if v \<le> high then Medium else High)"

definition cell_level :: "string \<Rightarrow> js \<Rightarrow> js \<Rightarrow> load" where
  "cell_level metric p config =
     (case to_number (js_coalesce (field p ''p95_value'') (js_coalesce (field p ''avg_value'')
             (js_coalesce (field p ''max_value'') (JInt 0)))) of
        Fin v \<Rightarrow>
          if metric = ''cpu_usage'' \<or> metric = ''disk_usage'' then load_between 20 80 v
          else if metric = ''connections_active'' then load_between 5 20 v
          else (case to_number (field config ''minimum'') of
                  Fin m \<Rightarrow> if m > 0 then load_between m (m * 2) v else load_between 20 80 v
                | _ \<Rightarrow> load_between 20 80 v)
      | _ \<Rightarrow> Low)"

definition heatmap_cell :: "js list \<Rightarrow> nat \<Rightarrow> nat \<Rightarrow> js option" where
  "heatmap_cell items weekday hour = map_of (slot_map items) (str_of_nat weekday @ ''-'' @ str_of_nat hour)"

definition heatmap :: "string \<Rightarrow> js list \<Rightarrow> js \<Rightarrow> load option list list" where
  "heatmap metric items config =
     map (\<lambda>w. map (\<lambda>h. map_option (\<lambda>p. cell_level metric p config) (heatmap_cell items w h)) [0..<24]) [0..<7]"

section \<open>The texts of a card\<close>

definition baseline_number :: "js \<Rightarrow> string" where
  "baseline_number v =
     (let n = to_number v
      in if nullish v \<or> n = NaN then ''-''
         else if num_ge (js_abs n) (Fin 100) then to_fixed 0 n
         else if num_ge (js_abs n) (Fin 10) then to_fixed 1 n
         else to_fixed 2 n)"

definition metric_unit :: "string \<Rightarrow> string" where
  "metric_unit metric = (if metric = ''cpu_usage'' \<or> metric = ''disk_usage'' then ''%'' else [])"

definition finite_number :: "jnum \<Rightarrow> rat option" where
  "finite_number n = (case n of Fin q \<Rightarrow> Some q | _ \<Rightarrow> None)"

definition baseline_range :: "js list \<Rightarrow> string \<Rightarrow> string \<Rightarrow> string" where
  "baseline_range items key metric =
     (case List.map_filter (\<lambda>p. finite_number (to_number (field p key))) items of
        [] \<Rightarrow> ''-''
      | v # vs \<Rightarrow>
          baseline_number (JNum (Fin (fold min vs v))) @ metric_unit metric @ '' - ''
            @ baseline_number (JNum (Fin (fold max vs v))) @ metric_unit metric)"

text \<open>The label of a day, from the catalog; one that is no day of the week is shown as a number.\<close>

definition weekday_names :: "string list" where
  "weekday_names = [''monday'', ''tuesday'', ''wednesday'', ''thursday'', ''friday'', ''saturday'', ''sunday'']"

definition weekday_label :: "(string \<Rightarrow> string) \<Rightarrow> nat \<Rightarrow> string" where
  "weekday_label tr weekday =
     (if weekday < 7 then tr (weekday_names ! weekday) else tr ''weekValue'' @ str_of_nat weekday)"

definition metric_label :: "(string \<Rightarrow> string) \<Rightarrow> string \<Rightarrow> string" where
  "metric_label tr metric =
     (case map_of [(''cpu_usage'', tr ''cpuUsage''), (''disk_usage'', tr ''diskUsage''),
          (''connections_active'', tr ''activeConnections''), (''qps'', ''QPS''), (''tps'', ''TPS'')] metric of
        Some l \<Rightarrow> if l = [] then metric else l
      | None \<Rightarrow> if metric = [] then ''-'' else metric)"

text \<open>The newest profile of a card; \<open>parse\<close> reads a date, a text that is none gives NaN.\<close>

definition profile_time :: "(string \<Rightarrow> int option) \<Rightarrow> js \<Rightarrow> jnum" where
  "profile_time parse p =
     (if truthy (field p ''updated_at'')
      then (case parse (js_string (field p ''updated_at'')) of Some t \<Rightarrow> Fin (of_int t) | None \<Rightarrow> NaN)
      else Fin 0)"

definition latest_profile :: "(string \<Rightarrow> int option) \<Rightarrow> js list \<Rightarrow> js option" where
  "latest_profile parse items =
     (case js_sort (\<lambda>l r. cmp_value (num_minus (profile_time parse r) (profile_time parse l))) items of
        [] \<Rightarrow> None | p # _ \<Rightarrow> Some p)"

record metric_card =
  mc_metric :: string
  mc_slots :: nat
  mc_updated :: "js option"
  mc_average :: string
  mc_p95 :: string
  mc_cells :: "load option list list"

definition baseline_card :: "(string \<Rightarrow> int option) \<Rightarrow> string \<Rightarrow> js list \<Rightarrow> js \<Rightarrow> metric_card" where
  "baseline_card parse metric items config =
     \<lparr>mc_metric = metric, mc_slots = length items,
      mc_updated = (case latest_profile parse items of
          Some p \<Rightarrow> if truthy (field p ''updated_at'') then Some (field p ''updated_at'') else None | None \<Rightarrow> None),
      mc_average = baseline_range items ''avg_value'' metric, mc_p95 = baseline_range items ''p95_value'' metric,
      mc_cells = heatmap metric items config\<rparr>"

datatype baseline_detail = BaselineOff | NoProfiles | MetricsBoard "metric_card list"

definition baseline_content :: "(string \<Rightarrow> string \<Rightarrow> rat) \<Rightarrow> (string \<Rightarrow> int option) \<Rightarrow> js \<Rightarrow> baseline_detail" where
  "baseline_content collate parse summary =
     (if \<not> truthy (field summary ''enabled'') then BaselineOff
      else if elements (field summary ''profiles'') = [] then NoProfiles
      else MetricsBoard (map (\<lambda>(m, items). baseline_card parse m items
             (js_or (field (js_or (field (field summary ''baseline_config'') ''metrics'') (JObj [])) m) (JObj [])))
           (ordered_groups collate (group_profiles (elements (field summary ''profiles''))))))"

section \<open>Groups hold the profiles of their metric\<close>

definition of_metric :: "string \<Rightarrow> js list \<Rightarrow> js list" where
  "of_metric m profiles = filter (\<lambda>p. profile_metric p = m) profiles"

lemma groups_of_metric:
  "map_of (foldl add_profile [] profiles) m = (if of_metric m profiles = [] then None else Some (of_metric m profiles))"
  by (induction profiles rule: rev_induct) (auto simp: of_metric_def add_profile_def Let_def)

lemma groups_distinct: "distinct (map fst (foldl add_profile [] profiles))"
  by (induction profiles rule: rev_induct) (simp_all add: add_profile_def Let_def distinct_update)

lemma map_of_group_profiles:
  "map_of (group_profiles profiles) m = (if of_metric m profiles = [] then None
     else Some (js_sort (\<lambda>a b. cmp_value (compare_slots a b)) (of_metric m profiles)))"
  by (simp add: group_profiles_def map_of_map groups_of_metric)

lemma group_keys: "set (map fst (group_profiles profiles)) = profile_metric ` set profiles"
proof -
  have "m \<in> set (map fst (group_profiles profiles)) \<longleftrightarrow> of_metric m profiles \<noteq> []" for m
    using map_of_group_profiles [of profiles m] map_of_eq_None_iff [of "group_profiles profiles" m] by (simp split: if_splits)
  then have "set (map fst (group_profiles profiles)) = {m. of_metric m profiles \<noteq> []}" by blast
  then show ?thesis by (auto simp: of_metric_def filter_empty_conv)
qed

lemma slot_map_last:
  "map_of (slot_map items) k = find (\<lambda>p. slot_key p = k) (rev items)"
  by (induction items rule: rev_induct) (auto simp: slot_map_def)

section \<open>The last profile of a slot is the one shown\<close>

text \<open>Profiles as the server sends them: the day and the hour are numbers, from zero.\<close>

definition slot_of :: "js \<Rightarrow> nat \<Rightarrow> nat \<Rightarrow> bool" where
  "slot_of p w h \<longleftrightarrow> slot_number ''weekday'' p = Fin (of_nat w) \<and> slot_number ''hour'' p = Fin (of_nat h)"

definition has_slot :: "js \<Rightarrow> bool" where
  "has_slot p \<longleftrightarrow> (\<exists>w h. slot_of p w h)"

lemma str_of_rat_nat: "str_of_rat (of_nat n) = str_of_nat n"
  using str_of_rat_int [of "int n"] by (simp add: str_of_int_def)

lemma dash_split:
  assumes "\<forall>c \<in> set a. is_digit c" and "\<forall>c \<in> set c. is_digit c" and "a @ CHR ''-'' # b = c @ CHR ''-'' # d"
  shows "a = c \<and> b = d"
proof -
  have n: "\<not> is_digit (CHR ''-'')" by (simp add: is_digit_def char_code_def)
  have "takeWhile is_digit (a @ CHR ''-'' # b) = a" "takeWhile is_digit (c @ CHR ''-'' # d) = c"
    using assms(1,2) n by (simp_all add: takeWhile_append2)
  then show ?thesis using assms(3) by simp
qed

lemma slot_key_eq:
  assumes "has_slot p"
  shows "slot_key p = str_of_nat w @ ''-'' @ str_of_nat h \<longleftrightarrow> slot_of p w h"
proof -
  obtain w' h' where s: "slot_of p w' h'" using assms by (auto simp: has_slot_def)
  then have "slot_key p = str_of_nat w' @ CHR ''-'' # str_of_nat h'" by (simp add: slot_key_def slot_of_def str_of_rat_nat)
  moreover have "slot_of p w h \<longleftrightarrow> w = w' \<and> h = h'" using s by (auto simp: slot_of_def)
  ultimately show ?thesis
    using dash_split [of "str_of_nat w'" "str_of_nat w" "str_of_nat h'" "str_of_nat h"] str_of_nat_digits by auto
qed

fun slot_rat :: "jnum \<Rightarrow> rat" where
  "slot_rat (Fin q) = q"
| "slot_rat _ = 0"

definition slot_order :: "js \<Rightarrow> js \<Rightarrow> rat" where
  "slot_order a b =
     (let w = slot_rat (slot_number ''weekday'' a) - slot_rat (slot_number ''weekday'' b)
      in if w = 0 then slot_rat (slot_number ''hour'' a) - slot_rat (slot_number ''hour'' b) else w)"

lemma comparator_slot_order: "comparator slot_order"
  using comparator_lex [OF comparator_diff [of "\<lambda>a. slot_rat (slot_number ''weekday'' a)"]
      comparator_diff [of "\<lambda>a. slot_rat (slot_number ''hour'' a)"]]
  unfolding slot_order_def Let_def .

interpretation by_slot: comparator slot_order
  by (rule comparator_slot_order)

lemma compare_slot_order: "has_slot a \<Longrightarrow> has_slot b \<Longrightarrow> cmp_value (compare_slots a b) = slot_order a b"
  by (auto simp: has_slot_def slot_of_def compare_slots_def slot_order_def Let_def)

lemma same_slot: "slot_of a w h \<Longrightarrow> has_slot b \<Longrightarrow> by_slot.same a b \<longleftrightarrow> slot_of b w h"
  by (auto simp: by_slot.same_def slot_order_def Let_def has_slot_def slot_of_def split: if_splits)

lemma sorted_slot:
  assumes "\<forall>p \<in> set ps. has_slot p"
  shows "filter (\<lambda>p. slot_of p w h) (js_sort (\<lambda>a b. cmp_value (compare_slots a b)) ps) = filter (\<lambda>p. slot_of p w h) ps"
proof -
  have e: "js_sort (\<lambda>a b. cmp_value (compare_slots a b)) ps = js_sort slot_order ps"
    by (rule js_sort_cong) (use assms compare_slot_order in blast)
  show ?thesis
  proof (cases "\<exists>a. slot_of a w h")
    case True
    then obtain a where a: "slot_of a w h" ..
    have "filter (\<lambda>p. slot_of p w h) xs = filter (by_slot.same a) xs" if "set xs = set ps" for xs
      using assms that same_slot [OF a] by (intro filter_cong) auto
    then show ?thesis unfolding e using by_slot.stable [of a ps] by simp
  qed (simp add: e)
qed

lemma find_rev_last: "find P (rev xs) = (if filter P xs = [] then None else Some (last (filter P xs)))"
  by (induction xs rule: rev_induct) auto

text \<open>
  C20. A cell of the heat map of a metric shows the load of the last profile that the server sent for this metric, day
  and hour, and is empty when there is none; profiles of other metrics and slots do not reach it.
\<close>

theorem heatmap_shows_last:
  assumes "\<forall>p \<in> set profiles. has_slot p" and "map_of (group_profiles profiles) m = Some items" and "w < 7" and "h < 24"
  shows "heatmap m items config ! w ! h
    = (let ps = filter (\<lambda>p. profile_metric p = m \<and> slot_of p w h) profiles
       in if ps = [] then None else Some (cell_level m (last ps) config))"
proof -
  let ?s = "js_sort (\<lambda>a b. cmp_value (compare_slots a b)) (of_metric m profiles)"
  have i: "items = ?s" using assms(2) by (simp add: map_of_group_profiles split: if_splits)
  have s: "\<forall>p \<in> set (of_metric m profiles). has_slot p" using assms(1) by (simp add: of_metric_def)
  have "heatmap_cell items w h = find (\<lambda>p. slot_of p w h) (rev items)"
    unfolding heatmap_cell_def slot_map_last
    by (rule find_cong) (use slot_key_eq s i in auto)
  also have "\<dots> = (let ps = filter (\<lambda>p. profile_metric p = m \<and> slot_of p w h) profiles in if ps = [] then None else Some (last ps))"
    unfolding find_rev_last i sorted_slot [OF s] by (simp add: of_metric_def Let_def conj_commute)
  finally show ?thesis using assms(3,4) by (simp add: heatmap_def Let_def)
qed

theorem heatmap_shows_last_witness:
  "let p = (\<lambda>v. JObj [(''metric_name'', JStr ''qps''), (''weekday'', JInt 2), (''hour'', JInt 3), (''p95_value'', JInt v)])
   in heatmap ''qps'' (js_sort (\<lambda>a b. cmp_value (compare_slots a b)) [p 90, p 30]) JUndef ! 2 ! 3 = Some Medium"
proof -
  let ?p = "\<lambda>v. JObj [(''metric_name'', JStr ''qps''), (''weekday'', JInt 2), (''hour'', JInt 3), (''p95_value'', JInt v)]"
  have f: "filter (\<lambda>p. profile_metric p = ''qps'' \<and> slot_of p 2 3) [?p 90, ?p 30] = [?p 90, ?p 30]"
    by (simp add: profile_metric_def slot_of_def slot_number_def js_or_def)
  then have s: "\<forall>p \<in> set [?p 90, ?p 30]. has_slot p" unfolding has_slot_def filter_id_conv by blast
  have "map_of (group_profiles [?p 90, ?p 30]) ''qps'' = Some (js_sort (\<lambda>a b. cmp_value (compare_slots a b)) [?p 90, ?p 30])"
    by (simp add: map_of_group_profiles of_metric_def profile_metric_def js_or_def)
  from heatmap_shows_last [OF s this, of 2 3 JUndef]
  have "heatmap ''qps'' (js_sort (\<lambda>a b. cmp_value (compare_slots a b)) [?p 90, ?p 30]) JUndef ! 2 ! 3 = Some (cell_level ''qps'' (?p 30) JUndef)"
    unfolding f by (simp add: Let_def)
  moreover have "cell_level ''qps'' (?p 30) JUndef = Medium"
    by (simp add: cell_level_def js_coalesce_def nullish_def load_between_def)
  ultimately show ?thesis by (simp add: Let_def)
qed

section \<open>The order of the cards\<close>

lemma index_of_nth: "index_of x xs = Some i \<Longrightarrow> i < length xs \<and> xs ! i = x"
  by (induction xs arbitrary: i) (auto split: if_splits)

lemma index_of_None: "index_of x xs = None \<longleftrightarrow> x \<notin> set xs"
  by (induction xs) auto

lemma comparator_metrics:
  assumes "comparator collate"
  shows "comparator (compare_metrics collate)"
proof
  fix x y z
  show "compare_metrics collate y x = - compare_metrics collate x y"
    using comparator.flip [OF assms, of x y] by (auto simp: compare_metrics_def split: option.splits)
  assume "compare_metrics collate x y \<le> 0" "compare_metrics collate y z \<le> 0"
  then show "compare_metrics collate x z \<le> 0"
    using comparator.trans [OF assms, of x y z] by (auto simp: compare_metrics_def split: option.splits)
qed

text \<open>
  The cards: one for every metric that has a profile and no other, each with its profiles; the five metrics known
  to the page first, in its order, and the others after them in the order of the locale.
\<close>

theorem baseline_cards_ordered:
  assumes "comparator collate"
  shows "let gs = ordered_groups collate (group_profiles profiles) in
    set (map fst gs) = profile_metric ` set profiles \<and> distinct (map fst gs)
    \<and> sorted_wrt (\<lambda>l r. case (index_of l preferred_metrics, index_of r preferred_metrics) of
          (Some i, Some j) \<Rightarrow> i \<le> j | (None, Some _) \<Rightarrow> False | (Some _, None) \<Rightarrow> True | (None, None) \<Rightarrow> collate l r \<le> 0) (map fst gs)
    \<and> (\<forall>(m, ps) \<in> set gs. mset ps = mset (of_metric m profiles))"
proof -
  let ?g = "group_profiles profiles" and ?s = "js_sort (compare_metrics collate) (map fst (group_profiles profiles))"
  have f: "map fst (ordered_groups collate ?g) = ?s" by (simp add: ordered_groups_def comp_def)
  have "map fst ?g = map fst (foldl add_profile [] profiles)" by (simp add: group_profiles_def case_prod_unfold comp_def)
  then have "distinct (map fst ?g)" using groups_distinct by simp
  then have d: "distinct ?s" by (metis mset_js_sort mset_eq_imp_distinct_iff)
  have "sorted_wrt (\<lambda>l r. compare_metrics collate l r \<le> 0) ?s" by (rule comparator.sorted_sort [OF comparator_metrics [OF assms]])
  then have o: "sorted_wrt (\<lambda>l r. case (index_of l preferred_metrics, index_of r preferred_metrics) of
      (Some i, Some j) \<Rightarrow> i \<le> j | (None, Some _) \<Rightarrow> False | (Some _, None) \<Rightarrow> True | (None, None) \<Rightarrow> collate l r \<le> 0) ?s"
    by (rule sorted_wrt_mono_rel [rotated]) (auto simp: compare_metrics_def split: option.splits)
  have "mset ps = mset (of_metric m profiles)" if "(m, ps) \<in> set (ordered_groups collate ?g)" for m ps
    using that by (auto simp: ordered_groups_def map_of_group_profiles)
  then show ?thesis using d o group_keys [of profiles] unfolding Let_def f by auto
qed

theorem baseline_cards_ordered_witness:
  "map fst (ordered_groups (\<lambda>_ _. 0) (group_profiles (map (\<lambda>m. JObj [(''metric_name'', JStr m)]) [''z'', ''tps'', ''cpu_usage''])))
     = [''cpu_usage'', ''tps'', ''z''] \<and> distinct (map fst (ordered_groups (\<lambda>_ _. 0)
         (group_profiles (map (\<lambda>m. JObj [(''metric_name'', JStr m)]) [''z'', ''tps'', ''cpu_usage'']))))"
proof
  have "comparator (\<lambda>_ _. 0 :: rat)" by unfold_locales simp_all
  from baseline_cards_ordered [OF this] show "distinct (map fst (ordered_groups (\<lambda>_ _. 0)
         (group_profiles (map (\<lambda>m. JObj [(''metric_name'', JStr m)]) [''z'', ''tps'', ''cpu_usage'']))))"
    unfolding Let_def by blast
qed code_simp

end
