(* ===== verification/BusyGuards.thy ===== *)
theory BusyGuards
  imports JsValue
begin

text \<open>
  The places where the front end keeps an asynchronous action from running twice: form submission and
  control states (\<^verbatim>\<open>frontend/js/utils/dom.js\<close>), the buttons of a dialog
  (\<^verbatim>\<open>frontend/js/components/modal.js\<close>) and the poll for a new release
  (\<^verbatim>\<open>frontend/js/utils/version-checker.js\<close>). The locale states the contract of such a guard.
\<close>

section \<open>The contract of an in-flight guard\<close>

datatype guard_event = Attempt | Settle

locale inflight_guard =
  fixes attempt :: "'s \<Rightarrow> 's"
    and settle :: "'s \<Rightarrow> 's"
    and busy :: "'s \<Rightarrow> bool"
    and running :: "'s \<Rightarrow> nat"
  assumes attempt_busy: "busy s \<Longrightarrow> attempt s = s"
    and attempt_idle: "\<not> busy s \<Longrightarrow> (attempt s = s) \<or> (busy (attempt s) \<and> running (attempt s) = Suc (running s))"
    and settle_idle: "\<not> busy (settle s)"
    and settle_running: "running (settle s) = running s - 1"
begin

fun guard_step :: "'s \<Rightarrow> guard_event \<Rightarrow> 's" where
  "guard_step s Attempt = attempt s"
| "guard_step s Settle = (if 0 < running s then settle s else s)"

definition guarded :: "'s \<Rightarrow> bool" where
  "guarded s \<longleftrightarrow> running s = (if busy s then 1 else 0)"

lemma guarded_step: "guarded s \<Longrightarrow> guarded (guard_step s e)"
proof (cases e)
  case Attempt
  assume g: "guarded s"
  show ?thesis
  proof (cases "busy s")
    case True
    with Attempt g show ?thesis by (simp add: attempt_busy)
  next
    case False
    then have "attempt s = s \<or> (busy (attempt s) \<and> running (attempt s) = Suc (running s))" by (rule attempt_idle)
    with Attempt g False show ?thesis by (auto simp: guarded_def)
  qed
next
  case Settle
  assume "guarded s"
  with Settle show ?thesis using settle_idle [of s] settle_running [of s] by (auto simp: guarded_def split: if_splits)
qed

lemma guarded_run: "guarded s \<Longrightarrow> guarded (foldl guard_step s es)"
  by (induction es arbitrary: s) (simp_all add: guarded_step)

lemma at_most_one: "guarded s \<Longrightarrow> running (foldl guard_step s es) \<le> 1"
  using guarded_run [of s es] by (auto simp: guarded_def)

end

section \<open>Controls\<close>

text \<open>The label is the value of an input element and the inner HTML of any other control; the dataset
  entries are texts.\<close>

record control =
  ct_input :: bool
  ct_label :: string
  ct_disabled :: bool
  ct_loading :: bool
  ct_loading_text :: string
  ct_saved_disabled :: "string option"
  ct_saved_label :: "string option"

text \<open>\<open>plain\<close> is the text content of an inner HTML, \<open>cjk\<close> whether a text has a Chinese character,
  \<open>tr\<close> the translation of a key with the parameter \<^verbatim>\<open>value0\<close>.\<close>

record busy_env =
  be_plain :: "string \<Rightarrow> string"
  be_cjk :: "string \<Rightarrow> bool"
  be_locale :: string
  be_tr :: "string \<Rightarrow> string \<Rightarrow> string"

definition loading_label :: "busy_env \<Rightarrow> control \<Rightarrow> string" where
  "loading_label env c =
     (if ct_loading_text c \<noteq> [] then ct_loading_text c
      else (let base = trim (if ct_input c then ct_label c else be_plain env (ct_label c)) in
        if base = [] then be_tr env ''pageCopy.dom.processing'' []
        else if be_locale env = ''en-US'' then base @ ''...''
        else if be_cjk env base then be_tr env ''pageCopy.dom.inProgress'' base
        else base @ ''...''))"

definition falsy_text :: "string option \<Rightarrow> bool" where
  "falsy_text t \<longleftrightarrow> t = None \<or> t = Some []"

definition set_busy :: "busy_env \<Rightarrow> bool \<Rightarrow> control \<Rightarrow> control" where
  "set_busy env on c =
     (if on then
        (let c1 = (if falsy_text (ct_saved_disabled c)
                   then c\<lparr>ct_saved_disabled := Some (if ct_disabled c then ''1'' else ''0'')\<rparr> else c);
             c2 = (if falsy_text (ct_saved_label c1) then c1\<lparr>ct_saved_label := Some (ct_label c1)\<rparr> else c1);
             c3 = c2\<lparr>ct_disabled := True, ct_loading := True\<rparr>;
             l = loading_label env c3
         in c3\<lparr>ct_label := (if ct_input c3 then l else ''<span class=\"spinner\"></span><span>'' @ l @ ''</span>'')\<rparr>)
      else
        c\<lparr>ct_disabled := (ct_saved_disabled c = Some ''1''), ct_loading := False,
          ct_label := (case ct_saved_label c of Some l \<Rightarrow> l | None \<Rightarrow> ct_label c),
          ct_saved_disabled := None, ct_saved_label := None\<rparr>)"

section \<open>Form submission\<close>

record form =
  fm_submitting :: bool
  fm_controls :: "control list"
  fm_running :: nat

definition form_submit :: "busy_env \<Rightarrow> form \<Rightarrow> form" where
  "form_submit env f =
     (if fm_submitting f then f
      else f\<lparr>fm_submitting := True, fm_controls := map (set_busy env True) (fm_controls f),
             fm_running := Suc (fm_running f)\<rparr>)"

text \<open>The handler's promise is fulfilled or rejected; the \<open>finally\<close> part runs in both cases.\<close>

definition form_settle :: "busy_env \<Rightarrow> form \<Rightarrow> form" where
  "form_settle env f =
     f\<lparr>fm_submitting := False, fm_controls := map (set_busy env False) (fm_controls f),
       fm_running := fm_running f - 1\<rparr>"

interpretation form_guard: inflight_guard "form_submit env" "form_settle env" fm_submitting fm_running for env
  by unfold_locales (auto simp: form_submit_def form_settle_def)

section \<open>Dialogs\<close>

record modal_button =
  mb_control :: control
  mb_busy :: bool
  mb_saved :: "string option"

record 'h modal =
  md_visible :: bool
  md_width :: string
  md_max_height :: string
  md_body_classes :: "string list"
  md_on_hide :: "'h option"
  md_overlay_closes :: bool
  md_buttons :: "modal_button list"
  md_running :: nat
  md_dirty :: bool

definition modal_sizes :: "(string \<times> string) list" where
  "modal_sizes = [(''small'', ''420px''), (''medium'', ''640px''), (''large'', ''880px''), (''xlarge'', ''1180px'')]"

definition class_list :: "string \<Rightarrow> string list" where
  "class_list s = filter (\<lambda>c. c \<noteq> []) (split_ws s)"

definition modal_show :: "string \<Rightarrow> string \<Rightarrow> string \<Rightarrow> string \<Rightarrow> 'h option \<Rightarrow> bool \<Rightarrow> (string \<times> string) list \<Rightarrow>
    'h modal \<Rightarrow> 'h modal" where
  "modal_show sz width max_height body_class on_hide overlay buttons m =
     m\<lparr>md_visible := True,
       md_width := (if width \<noteq> [] then width
                    else case map_of modal_sizes sz of Some w \<Rightarrow> w | None \<Rightarrow> ''640px''),
       md_max_height := (if max_height \<noteq> [] then max_height else ''90vh''),
       md_body_classes := ''modal-body'' # class_list body_class,
       md_on_hide := on_hide, md_overlay_closes := overlay,
       md_buttons := map (\<lambda>(variant, label). \<lparr>mb_control = \<lparr>ct_input = False, ct_label = label, ct_disabled = False,
            ct_loading = False, ct_loading_text = [], ct_saved_disabled = None, ct_saved_label = None\<rparr>,
            mb_busy = False, mb_saved = None\<rparr>) buttons,
       md_running := 0\<rparr>"

text \<open>The second result is the callback that is called, after it has been forgotten.\<close>

definition modal_hide :: "'h modal \<Rightarrow> 'h modal \<times> 'h option" where
  "modal_hide m = (m\<lparr>md_visible := False, md_on_hide := None, md_overlay_closes := False, md_dirty := False\<rparr>, md_on_hide m)"

definition modal_overlay_click :: "bool \<Rightarrow> 'h modal \<Rightarrow> 'h modal \<times> 'h option" where
  "modal_overlay_click on_overlay m = (if md_overlay_closes m \<and> on_overlay then modal_hide m else (m, None))"

text \<open>A click on a footer button whose handler returns a promise. A disabled button gets no click.\<close>

definition modal_click :: "busy_env \<Rightarrow> nat \<Rightarrow> 'h modal \<Rightarrow> 'h modal" where
  "modal_click env i m =
     (let b = md_buttons m ! i in
      if ct_disabled (mb_control b) \<or> mb_busy b then m
      else m\<lparr>md_running := Suc (md_running m),
             md_buttons := map (\<lambda>(j, x).
               if j = i then x\<lparr>mb_busy := True, mb_control := set_busy env True (mb_control x)\<rparr>
               else x\<lparr>mb_saved := Some (if ct_disabled (mb_control x) then ''1'' else ''0''),
                      mb_control := (mb_control x)\<lparr>ct_disabled := True\<rparr>\<rparr>)
               (List.enumerate 0 (md_buttons m))\<rparr>)"

text \<open>\<open>conn\<close>: the dialog still shows the buttons.\<close>

definition modal_settle :: "busy_env \<Rightarrow> bool \<Rightarrow> nat \<Rightarrow> 'h modal \<Rightarrow> 'h modal" where
  "modal_settle env conn i m =
     m\<lparr>md_running := md_running m - 1,
       md_buttons := map (\<lambda>(j, x).
         if j = i then x\<lparr>mb_busy := False, mb_control := (if conn then set_busy env False (mb_control x) else mb_control x)\<rparr>
         else x\<lparr>mb_saved := None,
                mb_control := (if conn then (mb_control x)\<lparr>ct_disabled := (mb_saved x = Some ''1'')\<rparr> else mb_control x)\<rparr>)
         (List.enumerate 0 (md_buttons m))\<rparr>"

section \<open>The release check\<close>

record version_checker =
  vc_current :: string
  vc_last :: int
  vc_prompted :: string
  vc_in_flight :: bool
  vc_banner :: "string option"
  vc_requests :: "int list"
  vc_running :: nat

definition vc_start :: "js \<Rightarrow> js \<Rightarrow> version_checker" where
  "vc_start asset_version info =
     \<lparr>vc_current = trim (text_or_empty (js_or asset_version (field info ''frontend_asset_version''))),
      vc_last = 0, vc_prompted = [], vc_in_flight = False, vc_banner = None, vc_requests = [], vc_running = 0\<rparr>"

definition asset_version :: "js \<Rightarrow> string" where
  "asset_version info = trim (text_or_empty (field info ''frontend_asset_version''))"

definition display_version :: "js \<Rightarrow> string \<Rightarrow> string" where
  "display_version info av =
     (let v = trim (text_or_empty (field info ''app_version''))
      in if v \<noteq> [] then (if starts_with v ''v'' then v else CHR ''v'' # v) else av)"

definition vc_prompt :: "js \<Rightarrow> string \<Rightarrow> version_checker \<Rightarrow> version_checker" where
  "vc_prompt info av s =
     (if av = [] \<or> vc_prompted s = av then s
      else s\<lparr>vc_prompted := av, vc_banner := Some (display_version info av)\<rparr>)"

definition vc_dismiss :: "version_checker \<Rightarrow> version_checker" where
  "vc_dismiss s = s\<lparr>vc_banner := None\<rparr>"

definition vc_begin :: "bool \<Rightarrow> int \<Rightarrow> version_checker \<Rightarrow> version_checker" where
  "vc_begin throttle now s =
     (if vc_current s = [] \<or> vc_in_flight s then s
      else if throttle \<and> now - vc_last s < 30 * 1000 then s
      else s\<lparr>vc_last := (if throttle then now else vc_last s), vc_in_flight := True,
             vc_requests := vc_requests s @ [now], vc_running := Suc (vc_running s)\<rparr>)"

text \<open>The answer: \<open>None\<close> for a failed request or one that is not a success.\<close>

definition vc_finish :: "js option \<Rightarrow> version_checker \<Rightarrow> version_checker" where
  "vc_finish answer s =
     (let s' = (case answer of
                  Some info \<Rightarrow> (let latest = asset_version info in
                    if latest \<noteq> [] \<and> latest \<noteq> vc_current s then vc_prompt info latest s else s)
                | None \<Rightarrow> s)
      in s'\<lparr>vc_in_flight := False, vc_running := vc_running s - 1\<rparr>)"

interpretation vc_guard: inflight_guard "vc_begin throttle now" "vc_finish answer" vc_in_flight vc_running
  for throttle now answer
  by unfold_locales (auto simp: vc_begin_def vc_finish_def Let_def)

section \<open>Properties\<close>

lemma busy_idle_restores:
  assumes "ct_saved_disabled c = None" "ct_saved_label c = None" "\<not> ct_loading c"
  shows "set_busy env False (set_busy env True c) = c"
  using assms by (cases c) (simp add: set_busy_def falsy_text_def Let_def)

text \<open>
  A form never runs its handler twice at once: in whatever order submit events and settled handlers
  come, at most one handler is running, and when it settles every submit control is as it was before.
\<close>

theorem form_submits_once:
  assumes "\<not> fm_submitting f" and "fm_running f = 0"
    and "list_all (\<lambda>c. ct_saved_disabled c = None \<and> ct_saved_label c = None \<and> \<not> ct_loading c) (fm_controls f)"
  shows "fm_running (foldl (form_guard.guard_step env) f es) \<le> 1
     \<and> form_submit env (form_submit env f) = form_submit env f
     \<and> form_settle env (form_submit env f) = f"
proof -
  have "form_guard.guarded f" using assms(1,2) by (simp add: form_guard.guarded_def)
  moreover have "map (set_busy env False) (map (set_busy env True) (fm_controls f)) = fm_controls f"
    using assms(3) by (auto simp: list_all_iff busy_idle_restores intro: map_idI)
  ultimately show ?thesis
    using assms form_guard.at_most_one [of f env es]
    by (cases f) (simp add: form_submit_def form_settle_def)
qed

definition demo_busy_env :: busy_env where
  "demo_busy_env = \<lparr>be_plain = (\<lambda>s. s), be_cjk = (\<lambda>s. False), be_locale = ''en-US'', be_tr = (\<lambda>k v. k @ v)\<rparr>"

definition demo_control :: control where
  "demo_control = \<lparr>ct_input = False, ct_label = ''Save'', ct_disabled = False, ct_loading = False,
     ct_loading_text = [], ct_saved_disabled = None, ct_saved_label = None\<rparr>"

definition demo_form :: form where
  "demo_form = \<lparr>fm_submitting = False, fm_controls = [demo_control], fm_running = 0\<rparr>"

theorem form_submits_once_witness:
  "fm_running (foldl (form_guard.guard_step demo_busy_env) demo_form [Attempt, Attempt]) \<le> 1
   \<and> form_settle demo_busy_env (form_submit demo_busy_env demo_form) = demo_form"
proof -
  have "\<not> fm_submitting demo_form" "fm_running demo_form = 0"
    "list_all (\<lambda>c. ct_saved_disabled c = None \<and> ct_saved_label c = None \<and> \<not> ct_loading c) (fm_controls demo_form)"
    by (simp_all add: demo_form_def demo_control_def)
  from form_submits_once [OF this, of demo_busy_env "[Attempt, Attempt]"] show ?thesis by blast
qed

definition fresh_button :: "modal_button \<Rightarrow> bool" where
  "fresh_button b \<longleftrightarrow> \<not> mb_busy b \<and> mb_saved b = None \<and> ct_saved_disabled (mb_control b) = None
     \<and> ct_saved_label (mb_control b) = None \<and> \<not> ct_loading (mb_control b)"

lemma enumerate_map_id:
  "(\<And>j x. (j, x) \<in> set (List.enumerate n xs) \<Longrightarrow> f (j, x) = x) \<Longrightarrow> map f (List.enumerate n xs) = xs"
  by (induction xs arbitrary: n) auto

lemma enumerate_mapped:
  "List.enumerate n (map f (List.enumerate n xs)) = map (\<lambda>(j, x). (j, f (j, x))) (List.enumerate n xs)"
  by (induction xs arbitrary: n) auto

lemma click_disables: "j < length (md_buttons m) \<Longrightarrow> i < length (md_buttons m) \<Longrightarrow>
    \<not> (ct_disabled (mb_control (md_buttons m ! i)) \<or> mb_busy (md_buttons m ! i)) \<Longrightarrow>
    ct_disabled (mb_control (md_buttons (modal_click env i m) ! j))"
  by (simp add: modal_click_def nth_enumerate_eq set_busy_def Let_def)

text \<open>
  One footer action at a time: after a click on an enabled button of a dialog no click on any of its
  buttons does anything until the action has settled, and then every button is as it was, the disabled
  ones included.
\<close>

theorem modal_one_action:
  assumes "i < length (md_buttons m)" and "j < length (md_buttons m)"
    and "list_all fresh_button (md_buttons m)" and "\<not> ct_disabled (mb_control (md_buttons m ! i))"
  shows "modal_click env j (modal_click env i m) = modal_click env i m
     \<and> md_running (modal_click env i m) = Suc (md_running m)
     \<and> modal_settle env True i (modal_click env i m) = m"
proof -
  have fb: "fresh_button (md_buttons m ! i)" using assms(1,3) by (simp add: list_all_length)
  then have en: "\<not> (ct_disabled (mb_control (md_buttons m ! i)) \<or> mb_busy (md_buttons m ! i))"
    using assms(4) by (simp add: fresh_button_def)
  have "modal_click env j (modal_click env i m) = modal_click env i m"
    using click_disables [OF assms(2,1) en, of env] by (simp add: modal_click_def [of env j] Let_def)
  moreover have "md_running (modal_click env i m) = Suc (md_running m)"
    using en by (simp add: modal_click_def Let_def)
  moreover have "modal_settle env True i (modal_click env i m) = m"
  proof -
    have fresh: "fresh_button x" if "(k, x) \<in> set (List.enumerate 0 (md_buttons m))" for k x
      using that assms(3) by (auto simp: in_set_enumerate_eq list_all_length)
    have "md_buttons (modal_settle env True i (modal_click env i m)) = md_buttons m"
      using en
      by (simp add: modal_settle_def modal_click_def enumerate_mapped Let_def comp_def case_prod_beta)
         (rule enumerate_map_id, drule fresh,
          auto simp: fresh_button_def busy_idle_restores intro!: modal_button.equality control.equality)
    then show ?thesis
      using en by (intro modal.equality) (simp_all add: modal_settle_def modal_click_def Let_def)
  qed
  ultimately show ?thesis by blast
qed

definition demo_modal :: "nat modal" where
  "demo_modal = modal_show ''small'' [] [] [] (Some 5) False [(''primary'', ''Delete''), (''secondary'', ''Cancel'')]
     \<lparr>md_visible = False, md_width = [], md_max_height = [], md_body_classes = [], md_on_hide = None,
      md_overlay_closes = False, md_buttons = [], md_running = 0, md_dirty = False\<rparr>"

theorem modal_one_action_witness:
  "modal_settle demo_busy_env True 0 (modal_click demo_busy_env 0 demo_modal) = demo_modal
   \<and> modal_click demo_busy_env 1 (modal_click demo_busy_env 0 demo_modal) = modal_click demo_busy_env 0 demo_modal"
proof -
  have "0 < length (md_buttons demo_modal)" "1 < length (md_buttons demo_modal)"
    "list_all fresh_button (md_buttons demo_modal)" "\<not> ct_disabled (mb_control (md_buttons demo_modal ! 0))"
    by (simp_all add: demo_modal_def modal_show_def fresh_button_def)
  from modal_one_action [OF this, of demo_busy_env] show ?thesis by blast
qed

text \<open>A dialog's callback runs once per dialog, and showing another dialog over it drops the callback.\<close>

lemma modal_on_hide_once: "snd (modal_hide (fst (modal_hide m))) = None"
  by (simp add: modal_hide_def)

lemma modal_show_drops_callback:
  "snd (modal_hide (modal_show sz w mh bc (Some h2) ov bs (modal_show sz w mh bc (Some h1) ov bs m))) = Some h2"
  by (simp add: modal_hide_def modal_show_def)

end
