(* ===== verification/ChartPanel.thy ===== *)
theory ChartPanel
  imports JsValue
begin

text \<open>
  \<^verbatim>\<open>frontend/js/components/chart-panel.js\<close>: the registry of live charts, their sliding windows of
  points and the value shown above each. A chart is its labels and the data of its datasets; the chart
  library is called for drawing only. The host's number format and the value formatter a page gives are
  arguments.
\<close>

section \<open>Configuration\<close>

text \<open>The own properties a spread copies.\<close>

fun spread_fields :: "js \<Rightarrow> (string \<times> js) list" where
  "spread_fields (JObj kvs) = kvs"
| "spread_fields (JArr xs) = map (\<lambda>(i, x). (str_of_nat i, x)) (List.enumerate 0 xs)"
| "spread_fields (JStr s) = map (\<lambda>(i, c). (str_of_nat i, JStr [c])) (List.enumerate 0 s)"
| "spread_fields _ = []"

function deep_merge :: "js \<Rightarrow> (string \<times> js) list \<Rightarrow> js" where
  "deep_merge target [] = JObj (spread_fields target)"
| "deep_merge target ((k, v) # rest) =
     (let old = (case map_of (spread_fields target) k of Some x \<Rightarrow> x | None \<Rightarrow> JUndef);
          new = (case v of JObj kvs \<Rightarrow> deep_merge (js_or old (JObj [])) kvs | _ \<Rightarrow> v)
      in deep_merge (JObj (AList.update k new (spread_fields target))) rest)"
  by pat_completeness auto
termination
  by (relation "measure (\<lambda>(_, kvs). size_list (size_prod (\<lambda>_. 0) size) kvs)") auto

definition default_chart_config :: "string \<Rightarrow> js" where
  "default_chart_config ty = JObj
    [(''type'', JStr ty),
     (''data'', JObj [(''labels'', JArr []), (''datasets'', JArr [JObj
        [(''data'', JArr []), (''borderColor'', JStr ''#2f81f7''), (''backgroundColor'', JStr ''rgba(47, 129, 247, 0.1)''),
         (''borderWidth'', JInt 1), (''tension'', JNum (Fin (2/5))), (''fill'', JBool True), (''pointRadius'', JInt 0),
         (''pointHitRadius'', JInt 10)]])]),
     (''options'', JObj
        [(''responsive'', JBool True), (''maintainAspectRatio'', JBool False),
         (''animation'', JObj [(''duration'', JInt 300)]),
         (''plugins'', JObj [(''legend'', JObj [(''display'', JBool False)]),
            (''tooltip'', JObj [(''backgroundColor'', JStr ''#1c2333''), (''borderColor'', JStr ''#2a3140''), (''borderWidth'', JInt 1),
               (''titleColor'', JStr ''#e6edf3''), (''bodyColor'', JStr ''#8b949e''), (''padding'', JInt 10), (''cornerRadius'', JInt 6)])]),
         (''scales'', JObj
            [(''x'', JObj [(''display'', JBool True),
                (''grid'', JObj [(''color'', JStr ''rgba(42,49,64,0.5)''), (''drawBorder'', JBool False)]),
                (''ticks'', JObj [(''color'', JStr ''#6e7681''), (''font'', JObj [(''size'', JInt 10)]), (''maxTicksLimit'', JInt 6)])]),
             (''y'', JObj [(''display'', JBool True),
                (''grid'', JObj [(''color'', JStr ''rgba(42,49,64,0.5)''), (''drawBorder'', JBool False)]),
                (''ticks'', JObj [(''color'', JStr ''#6e7681''), (''font'', JObj [(''size'', JInt 10)]), (''maxTicksLimit'', JInt 5)]),
                (''beginAtZero'', JBool True)])]),
         (''interaction'', JObj [(''intersect'', JBool False), (''mode'', JStr ''index'')])])]"

section \<open>State\<close>

record chart =
  ch_labels :: "js list"
  ch_data :: "js list list"
  ch_formatter :: "(js \<Rightarrow> string) option"

record panels =
  pn_charts :: "(string, chart) jsmap"
  pn_values :: "(string, string) jsmap"
  pn_destroyed :: "string list"

text \<open>\<open>canvas\<close>: the page has the canvas; \<open>made\<close>: the chart library's constructor returns.\<close>

definition chart_init :: "bool \<Rightarrow> bool \<Rightarrow> string \<Rightarrow> string \<Rightarrow> js \<Rightarrow> (js \<Rightarrow> string) option \<Rightarrow> panels \<Rightarrow> panels" where
  "chart_init canvas made i ty config formatter s =
     (if \<not> canvas then s
      else
        (let s1 = (if map_of (pn_charts s) i \<noteq> None
                   then s\<lparr>pn_charts := AList.delete i (pn_charts s), pn_destroyed := pn_destroyed s @ [i]\<rparr> else s);
             merged = deep_merge (default_chart_config ty) (obj_fields config);
             c = \<lparr>ch_labels = elements (field (field merged ''data'') ''labels''),
                  ch_data = map (\<lambda>d. elements (field d ''data'')) (elements (field (field merged ''data'') ''datasets'')),
                  ch_formatter = formatter\<rparr>
         in if made then s1\<lparr>pn_charts := AList.update i c (pn_charts s1)\<rparr> else s1))"

section \<open>Points\<close>

definition value_text :: "(jnum \<Rightarrow> string) \<Rightarrow> js \<Rightarrow> string" where
  "value_text intl v = (case v of JNum n \<Rightarrow> intl n | _ \<Rightarrow> js_elem_string v)"

definition shown_value :: "(jnum \<Rightarrow> string) \<Rightarrow> chart \<Rightarrow> js \<Rightarrow> string" where
  "shown_value intl c v =
     (case ch_formatter c of
        Some f \<Rightarrow> f v
      | None \<Rightarrow> (case v of JArr vs \<Rightarrow> join '' / '' (map (value_text intl) vs) | _ \<Rightarrow> value_text intl v))"

definition show_value :: "string \<Rightarrow> string \<Rightarrow> panels \<Rightarrow> panels" where
  "show_value i t s = (if map_of (pn_values s) i \<noteq> None then s\<lparr>pn_values := AList.update i t (pn_values s)\<rparr> else s)"

fun push_values :: "js list \<Rightarrow> js list list \<Rightarrow> js list list" where
  "push_values (v # vs) (d # ds) = (d @ [v]) # push_values vs ds"
| "push_values vs ds = ds"

definition push_point :: "nat \<Rightarrow> js \<Rightarrow> js \<Rightarrow> chart \<Rightarrow> chart option" where
  "push_point max_points label v c =
     (let labels = ch_labels c @ [label];
          data = (case v of
                    JArr vs \<Rightarrow> Some (push_values vs (ch_data c))
                  | _ \<Rightarrow> (case ch_data c of d # ds \<Rightarrow> Some ((d @ [v]) # ds) | [] \<Rightarrow> None))
      in case data of
           None \<Rightarrow> None
         | Some ds \<Rightarrow>
             Some (if length labels > max_points then c\<lparr>ch_labels := tl labels, ch_data := map tl ds\<rparr>
                   else c\<lparr>ch_labels := labels, ch_data := ds\<rparr>))"

text \<open>An unknown chart is reported and nothing happens; no dataset at all throws (\<open>None\<close>).\<close>

definition chart_update :: "(jnum \<Rightarrow> string) \<Rightarrow> string \<Rightarrow> js \<Rightarrow> js \<Rightarrow> nat \<Rightarrow> panels \<Rightarrow> panels option" where
  "chart_update intl i label v max_points s =
     (case map_of (pn_charts s) i of
        None \<Rightarrow> Some s
      | Some c \<Rightarrow>
          (case push_point max_points label v c of
             None \<Rightarrow> None
           | Some c' \<Rightarrow> Some (show_value i (shown_value intl c v) (s\<lparr>pn_charts := AList.update i c' (pn_charts s)\<rparr>))))"

text \<open>\<^verbatim>\<open>xs.slice(-n)\<close>\<close>

definition slice_last :: "nat \<Rightarrow> 'a list \<Rightarrow> 'a list" where
  "slice_last n xs = (if n = 0 then xs else drop (length xs - n) xs)"

definition chart_batch_update :: "(jnum \<Rightarrow> string) \<Rightarrow> string \<Rightarrow> js list \<Rightarrow> js list \<Rightarrow> nat \<Rightarrow> panels \<Rightarrow> panels option" where
  "chart_batch_update intl i labels vals max_points s =
     (case map_of (pn_charts s) i of
        None \<Rightarrow> Some s
      | Some c \<Rightarrow>
          (case ch_data c of
             [] \<Rightarrow> None
           | d # ds \<Rightarrow>
               (let s' = s\<lparr>pn_charts := AList.update i (c\<lparr>ch_labels := slice_last max_points labels,
                              ch_data := slice_last max_points vals # ds\<rparr>) (pn_charts s)\<rparr>
                in Some (if vals = [] then s'
                         else show_value i (case ch_formatter c of Some f \<Rightarrow> f (last vals) | None \<Rightarrow> value_text intl (last vals)) s'))))"

fun replace_data :: "nat \<Rightarrow> js list list \<Rightarrow> js list list \<Rightarrow> js list list" where
  "replace_data n (v # vs) (d # ds) = slice_last n v # replace_data n vs ds"
| "replace_data n vs ds = ds"

definition chart_batch_update_multi :: "(jnum \<Rightarrow> string) \<Rightarrow> string \<Rightarrow> js list \<Rightarrow> js list list \<Rightarrow> nat \<Rightarrow> panels \<Rightarrow> panels" where
  "chart_batch_update_multi intl i labels vss max_points s =
     (case map_of (pn_charts s) i of
        None \<Rightarrow> s
      | Some c \<Rightarrow>
          (let s' = s\<lparr>pn_charts := AList.update i (c\<lparr>ch_labels := slice_last max_points labels,
                         ch_data := replace_data max_points vss (ch_data c)\<rparr>) (pn_charts s)\<rparr>;
               latest = map (\<lambda>vs. if vs = [] then JNull else last vs) vss
           in if vss = [] then s' else show_value i (shown_value intl c (JArr latest)) s'))"

definition chart_clear :: "string \<Rightarrow> panels \<Rightarrow> panels" where
  "chart_clear i s =
     (case map_of (pn_charts s) i of
        None \<Rightarrow> s
      | Some c \<Rightarrow> show_value i ''--'' (s\<lparr>pn_charts :=
          AList.update i (c\<lparr>ch_labels := [], ch_data := map (\<lambda>_. []) (ch_data c)\<rparr>) (pn_charts s)\<rparr>))"

definition chart_destroy :: "string \<Rightarrow> panels \<Rightarrow> panels" where
  "chart_destroy i s =
     (if map_of (pn_charts s) i \<noteq> None
      then s\<lparr>pn_charts := AList.delete i (pn_charts s), pn_destroyed := pn_destroyed s @ [i]\<rparr> else s)"

definition chart_destroy_all :: "panels \<Rightarrow> panels" where
  "chart_destroy_all s = foldl (\<lambda>st i. chart_destroy i st) s (map fst (pn_charts s))"

section \<open>Properties\<close>

fun push_all :: "nat \<Rightarrow> (js \<times> js list) list \<Rightarrow> chart \<Rightarrow> chart option" where
  "push_all n [] c = Some c"
| "push_all n ((l, vs) # ps) c = (case push_point n l (JArr vs) c of Some c' \<Rightarrow> push_all n ps c' | None \<Rightarrow> None)"

text \<open>The window of a history: its last \<open>n\<close> points.\<close>

definition window :: "nat \<Rightarrow> 'a list \<Rightarrow> 'a list" where
  "window n xs = drop (length xs - n) xs"

lemma window_snoc: "window n (xs @ [x]) = (if length (window n xs) < n then window n xs @ [x] else tl (window n xs @ [x]))"
proof (cases "length xs < n")
  case True
  then show ?thesis by (simp add: window_def)
next
  case False
  then have l: "length (window n xs) = n" by (simp add: window_def)
  have "drop (Suc (length xs) - n) (xs @ [x]) = tl (drop (length xs - n) (xs @ [x]))"
    using False by (simp add: drop_Suc [symmetric] tl_drop Suc_diff_le del: drop_append)
  with False l show ?thesis by (simp add: window_def)
qed

definition column :: "nat \<Rightarrow> (js \<times> js list) list \<Rightarrow> js list" where
  "column j ps = map (\<lambda>p. snd p ! j) ps"

definition windowed :: "nat \<Rightarrow> nat \<Rightarrow> (js \<times> js list) list \<Rightarrow> chart \<Rightarrow> bool" where
  "windowed n k ps c \<longleftrightarrow> ch_labels c = window n (map fst ps) \<and> ch_data c = map (\<lambda>j. window n (column j ps)) [0 ..< k]"

lemma push_values_nth:
  "length vs = length ds \<Longrightarrow> push_values vs ds = map (\<lambda>j. ds ! j @ [vs ! j]) [0 ..< length ds]"
proof (induction vs ds rule: push_values.induct)
  case (1 v vs d ds)
  then show ?case by (simp add: upt_conv_Cons map_Suc_upt [symmetric] del: upt_Suc)
qed simp_all

lemma windowed_push:
  assumes "windowed n k ps c" and "length vs = k" and "push_point n l (JArr vs) c = Some c'"
  shows "windowed n k (ps @ [(l, vs)]) c'"
proof -
  let ?ds = "map (\<lambda>j. window n (column j ps)) [0 ..< k]"
  have ds: "ch_data c = ?ds" and ls: "ch_labels c = window n (map fst ps)"
    using assms(1) by (simp_all add: windowed_def)
  have pv: "push_values vs ?ds = map (\<lambda>j. window n (column j ps) @ [vs ! j]) [0 ..< k]"
    using push_values_nth [of vs ?ds] assms(2) by (simp cong: map_cong)
  have len: "length (window n (column j ps)) = length (window n (map fst ps))" for j
    by (simp add: window_def column_def)
  have lab: "window n (map fst ps @ [l])
      = (if length (window n (map fst ps)) < n then window n (map fst ps) @ [l] else tl (window n (map fst ps) @ [l]))"
    by (rule window_snoc)
  have col: "window n (column j (ps @ [(l, vs)]))
      = (if length (window n (map fst ps)) < n then window n (column j ps) @ [vs ! j] else tl (window n (column j ps) @ [vs ! j]))" for j
    using window_snoc [of n "column j ps" "vs ! j"] len [of j] by (simp add: column_def)
  show ?thesis
    using assms(3) unfolding push_point_def windowed_def ds ls Let_def js.case option.case pv
    by (auto simp: lab col)
qed

lemma push_all_windowed:
  "windowed n k hist c \<Longrightarrow> list_all (\<lambda>p. length (snd p) = k) ps \<Longrightarrow>
     \<exists>c'. push_all n ps c = Some c' \<and> windowed n k (hist @ ps) c'"
proof (induction ps arbitrary: hist c)
  case Nil
  then show ?case by simp
next
  case (Cons p ps)
  obtain l vs where p: "p = (l, vs)" by (cases p)
  obtain c1 where c1: "push_point n l (JArr vs) c = Some c1"
    by (simp add: push_point_def Let_def)
  with Cons.prems p have "windowed n k (hist @ [(l, vs)]) c1" by (intro windowed_push) auto
  from Cons.IH [OF this] Cons.prems c1 p show ?case by simp
qed



end
