(* ===== verification/DatasourceForm.thy ===== *)
theory DatasourceForm
  imports HtmlForm
begin

text \<open>
  The form of a datasource (components/datasource-form.js): opened empty or with a stored datasource, completed when
  the hosts and the inbound integrations have come, changed by the user, and submitted.  What a browser reads back
  from an attribute ends at the first double quote of the text written, which escaping leaves as it is; a text
  that is not escaped has no character references.  \<open>parse\<close> is \<^verbatim>\<open>JSON.parse\<close> of stored parameters, which the server sends as an object.
\<close>

section \<open>Tags\<close>

text \<open>Tags are separated by commas, also by the full-width one, three bytes in UTF-8.\<close>

fun plain_commas :: "string \<Rightarrow> string" where
  "plain_commas (a # b # c # cs) =
     (if a = CHR 0xEF \<and> b = CHR 0xBC \<and> c = CHR 0x8C then CHR '','' # plain_commas cs else a # plain_commas (b # c # cs))"
| "plain_commas cs = cs"

definition normalize_tags :: "string \<Rightarrow> string list" where
  "normalize_tags raw =
     (if raw = [] then []
      else map snd (foldl (\<lambda>m t. AList.update (to_lower t) t m) []
             (filter (\<lambda>t. t \<noteq> []) (map trim (split_on (CHR '','') (plain_commas raw))))))"

section \<open>Integrations\<close>

definition inbound_integrations :: "js \<Rightarrow> js list" where
  "inbound_integrations items =
     filter (\<lambda>i. field i ''integration_type'' = JStr ''inbound_metric'' \<and> truthy (field i ''enabled'')) (elements items)"

definition find_integration :: "js list \<Rightarrow> string \<Rightarrow> js" where
  "find_integration integrations i =
     (case find (\<lambda>x. js_string (field x ''id'') = i) integrations of Some x \<Rightarrow> x | None \<Rightarrow> JNull)"

definition requires_external_id :: "js \<Rightarrow> bool" where
  "requires_external_id integration \<longleftrightarrow>
     field integration ''integration_id''
       \<in> {JStr ''builtin_aliyun_rds'', JStr ''builtin_huaweicloud_rds'', JStr ''builtin_tencentcloud_rds''}"

definition renders_param :: "js \<Rightarrow> string \<Rightarrow> bool" where
  "renders_param integration key \<longleftrightarrow>
     \<not> (field integration ''integration_id'' = JStr ''builtin_huaweicloud_rds'' \<and> key \<in> {''access_key_id'', ''access_key_secret''})
   \<and> \<not> (field integration ''integration_id'' = JStr ''builtin_tencentcloud_rds'' \<and> key \<in> {''secret_id'', ''secret_key''})"

text \<open>The names of the texts beside the external id, and whether it is required.\<close>

definition external_id_meta :: "js \<Rightarrow> string \<times> bool" where
  "external_id_meta integration =
     (if field integration ''integration_id'' = JStr ''builtin_huaweicloud_rds'' then (''huaweiId'', True)
      else if field integration ''integration_id'' = JStr ''builtin_aliyun_rds'' then (''aliyunId'', True)
      else if field integration ''integration_id'' = JStr ''builtin_tencentcloud_rds'' then (''tencentId'', True)
      else (''externalId'', False))"

definition inbound_intro :: "js \<Rightarrow> string" where
  "inbound_intro integration =
     (if field integration ''integration_id'' = JStr ''builtin_huaweicloud_rds'' then ''huaweiParams''
      else if field integration ''integration_id'' = JStr ''builtin_aliyun_rds'' then ''aliyunParams''
      else if field integration ''integration_id'' = JStr ''builtin_tencentcloud_rds'' then ''tencentParams''
      else ''genericParams'')"

section \<open>The form\<close>

text \<open>An input of a parameter: its key, its format and its value.\<close>

record ds_form =
  fm_name :: string
  fm_type :: string
  fm_port :: string
  fm_host :: string
  fm_username :: string
  fm_password :: string
  fm_database :: string
  fm_tags :: string
  fm_remark :: string
  fm_oracle :: string
  fm_host_id :: string
  fm_source :: string
  fm_integration :: string
  fm_external :: string
  fm_external_needed :: bool
  fm_external_required :: bool
  fm_params :: "(string \<times> string \<times> string) list"
  fm_integrations :: "js list"
  fm_oracle_shown :: bool
  fm_integration_shown :: bool

definition db_types :: "string list" where
  "db_types = [''mysql'', ''postgresql'', ''oracle'', ''sqlserver'', ''tdsql-c-mysql'', ''oceanbase-mysql'', ''opengauss'', ''hana'']"

definition default_port :: "string \<Rightarrow> nat" where
  "default_port db_type =
     (case map_of (zip db_types [3306, 5432, 1521, 1433, 3306, 2883, 5432, 30015]) db_type of Some p \<Rightarrow> p | None \<Rightarrow> 3306)"

text \<open>A text in an attribute between double quotes, as the input shows it.\<close>

definition attr_input :: "string \<Rightarrow> string" where
  "attr_input s = text_input (takeWhile (\<lambda>c. c \<noteq> CHR 0x22) s)"

definition extra_param :: "(string \<Rightarrow> js option) \<Rightarrow> js \<Rightarrow> string \<Rightarrow> string \<Rightarrow> js" where
  "extra_param parse ds key dflt =
     (let raw = field ds ''extra_params'';
          params = (case raw of JStr s \<Rightarrow> parse s | v \<Rightarrow> Some v)
      in if \<not> truthy raw then JStr dflt
         else case params of
                None \<Rightarrow> JStr dflt
              | Some p \<Rightarrow> if field p key \<noteq> JUndef then field p key else JStr dflt)"

text \<open>The form when it opens; no datasource is \<open>JNull\<close>.\<close>

definition open_ds_form :: "(string \<Rightarrow> js option) \<Rightarrow> js \<Rightarrow> ds_form" where
  "open_ds_form parse ds =
     \<lparr>fm_name = attr_input (text_or_empty (field ds ''name'')),
      fm_type = select_value db_types (\<lambda>t. field ds ''db_type'' = JStr t),
      fm_port = number_input (takeWhile (\<lambda>c. c \<noteq> CHR 0x22) (js_string (js_or (field ds ''port'') (JInt (int (default_port ''mysql'')))))),
      fm_host = attr_input (text_or_empty (field ds ''host'')),
      fm_username = attr_input (text_or_empty (field ds ''username'')),
      fm_password = [],
      fm_database = attr_input (text_or_empty (field ds ''database'')),
      fm_tags = attr_input (join '', '' (map js_string (elements (js_or (field ds ''tags'') (JArr []))))),
      fm_remark = textarea_value (text_or_empty (field ds ''remark'')),
      fm_oracle = select_value [''default'', ''sysdba'', ''sysoper'']
        (\<lambda>m. extra_param parse ds ''oracle_conn_mode'' ''default'' = JStr m),
      fm_host_id = [],
      fm_source = select_value [''system'', ''integration'']
        (\<lambda>s. (s = ''system'' \<and> \<not> truthy ds) \<or> field ds ''metric_source'' = JStr s),
      fm_integration = [],
      fm_external = attr_input (text_or_empty (field ds ''external_instance_id'')),
      fm_external_needed = False, fm_external_required = False, fm_params = [], fm_integrations = [],
      fm_oracle_shown = (field ds ''db_type'' = JStr ''oracle''),
      fm_integration_shown = (field ds ''metric_source'' = JStr ''integration'')\<rparr>"

text \<open>The hosts have come: an option for each, that of the datasource selected.\<close>

definition hosts_loaded :: "js \<Rightarrow> js \<Rightarrow> ds_form \<Rightarrow> ds_form" where
  "hosts_loaded ds hosts f =
     (if is_arr hosts
      then f\<lparr>fm_host_id := foldl (\<lambda>v h. if truthy (field ds ''host_id'') \<and> js_string (field h ''id'') = js_string (field ds ''host_id'')
                                       then js_string (field h ''id'') else v) (fm_host_id f) (elements hosts)\<rparr>
      else f)"

definition update_external_field :: "ds_form \<Rightarrow> ds_form" where
  "update_external_field f =
     (let needed = snd (external_id_meta (find_integration (fm_integrations f) (fm_integration f)))
      in f\<lparr>fm_external_needed := needed, fm_external_required := (fm_source f = ''integration'' \<and> needed)\<rparr>)"

definition param_input :: "js \<Rightarrow> string \<times> js \<Rightarrow> string \<times> string \<times> string" where
  "param_input existing = (\<lambda>(key, prop).
     (key, text_or_empty (field prop ''format''),
      if field prop ''format'' = JStr ''password'' then []
      else attr_input (js_string (js_or (field existing key) (js_or (field prop ''default'') (JStr []))))))"

definition render_params :: "js \<Rightarrow> ds_form \<Rightarrow> ds_form" where
  "render_params existing f =
     (let integration = find_integration (fm_integrations f) (fm_integration f);
          properties = field (field integration ''config_schema'') ''properties''
      in f\<lparr>fm_params := (if truthy properties
                          then map (param_input existing) (filter (\<lambda>(k, _). renders_param integration k) (obj_fields properties))
                          else [])\<rparr>)"

definition inbound_source :: "js \<Rightarrow> js" where
  "inbound_source ds = js_or (field ds ''inbound_source'') (JObj [])"

definition integrations_loaded :: "js \<Rightarrow> js list \<Rightarrow> ds_form \<Rightarrow> ds_form" where
  "integrations_loaded ds items f =
     (let current = field (inbound_source ds) ''integration_id'';
          cid = (if truthy current then js_string current else []);
          f1 = f\<lparr>fm_integrations := items,
                 fm_integration := select_value ([] # map (\<lambda>i. js_string (field i ''id'')) items) (\<lambda>v. v \<noteq> [] \<and> v = cid)\<rparr>
      in update_external_field (render_params (js_or (field (inbound_source ds) ''params'') (JObj [])) f1))"

section \<open>Changes\<close>

definition change_type :: "bool \<Rightarrow> string \<Rightarrow> ds_form \<Rightarrow> ds_form" where
  "change_type is_edit t f =
     f\<lparr>fm_type := t, fm_port := (if is_edit then fm_port f else str_of_nat (default_port t)), fm_oracle_shown := (t = ''oracle'')\<rparr>"

definition change_source :: "string \<Rightarrow> ds_form \<Rightarrow> ds_form" where
  "change_source s f =
     f\<lparr>fm_source := s, fm_integration_shown := (s = ''integration''),
       fm_external_required := (s = ''integration'' \<and> fm_external_needed f)\<rparr>"

definition change_integration :: "string \<Rightarrow> ds_form \<Rightarrow> ds_form" where
  "change_integration i f = update_external_field (render_params (JObj []) (f\<lparr>fm_integration := i\<rparr>))"

section \<open>Submitting\<close>

text \<open>What the browser checks before the form is submitted.\<close>

definition form_complete :: "ds_form \<Rightarrow> bool" where
  "form_complete f \<longleftrightarrow> fm_name f \<noteq> [] \<and> fm_port f \<noteq> [] \<and> fm_host f \<noteq> [] \<and> (fm_external_required f \<longrightarrow> fm_external f \<noteq> [])"

definition collect_params :: "(string \<times> string \<times> string) list \<Rightarrow> (string \<times> js) list" where
  "collect_params inputs =
     foldl (\<lambda>ps (key, fmt, v).
       if key = [] then ps
       else if fmt = ''password'' then (if v \<noteq> [] then AList.update key (JStr (''ENCRYPT:'' @ v)) ps else ps)
       else AList.update key (JStr v) ps) [] inputs"

definition str_or_null :: "string \<Rightarrow> js" where
  "str_or_null s = (if s = [] then JNull else JStr s)"

definition oracle_params :: "ds_form \<Rightarrow> js" where
  "oracle_params f =
     (if fm_type f = ''oracle'' \<and> fm_oracle f \<noteq> [] \<and> fm_oracle f \<noteq> ''default''
      then JObj [(''oracle_conn_mode'', JStr (fm_oracle f))] else JNull)"

definition form_data :: "ds_form \<Rightarrow> js \<Rightarrow> js \<Rightarrow> js" where
  "form_data f external inbound = JObj
     ([(''name'', JStr (fm_name f)), (''db_type'', JStr (fm_type f)), (''port'', JNum (parse_int_str (fm_port f))),
       (''host'', JStr (fm_host f)), (''username'', JStr (fm_username f))]
      @ (if fm_password f = [] then [] else [(''password'', JStr (fm_password f))])
      @ [(''database'', str_or_null (fm_database f)), (''tags'', JArr (map JStr (normalize_tags (fm_tags f)))),
         (''remark'', JStr (fm_remark f)),
         (''host_id'', if fm_host_id f = [] then JNull else JNum (parse_int_str (fm_host_id f))),
         (''metric_source'', JStr (fm_source f)), (''external_instance_id'', external),
         (''extra_params'', oracle_params f), (''inbound_source'', inbound)])"

datatype submit_answer = Incomplete | IntegrationRequired | ExternalIdRequired | UpdateDatasource js js | CreateDatasource js

definition submit_ds_form :: "js \<Rightarrow> ds_form \<Rightarrow> submit_answer" where
  "submit_ds_form ds f =
     (let send = (\<lambda>data. if truthy ds then UpdateDatasource (field ds ''id'') data else CreateDatasource data);
          external = str_or_null (trim (fm_external f))
      in if \<not> form_complete f then Incomplete
         else if fm_source f = ''system'' then send (form_data f JNull JNull)
         else if fm_integration f = [] then IntegrationRequired
         else if requires_external_id (find_integration (fm_integrations f) (fm_integration f)) \<and> external = JNull
         then ExternalIdRequired
         else send (form_data f external (JObj
           [(''integration_id'', JNum (parse_int_str (fm_integration f))), (''enabled'', JBool True),
            (''params'', JObj (collect_params (fm_params f)))])))"

text \<open>The body of the request that tests the connection.\<close>

definition connection_test :: "js \<Rightarrow> ds_form \<Rightarrow> js" where
  "connection_test ds f = JObj
     ([(''db_type'', JStr (fm_type f)), (''host'', JStr (fm_host f)), (''port'', JNum (parse_int_str (fm_port f))),
       (''username'', str_or_null (fm_username f)), (''password'', str_or_null (fm_password f)),
       (''database'', str_or_null (fm_database f))]
      @ (if oracle_params f = JNull then [] else [(''extra_params'', oracle_params f)])
      @ (if truthy ds then [(''datasource_id'', field ds ''id'')] else []))"

section \<open>Tags\<close>

definition add_tag :: "(string \<times> string) list \<Rightarrow> string \<Rightarrow> (string \<times> string) list" where
  "add_tag m t = AList.update (to_lower t) t m"

definition tag_pieces :: "string \<Rightarrow> string list" where
  "tag_pieces raw = filter (\<lambda>t. t \<noteq> []) (map trim (split_on (CHR '','') (plain_commas raw)))"

lemma normalize_tags_pieces: "normalize_tags raw = map snd (foldl add_tag [] (tag_pieces raw))"
proof -
  have "(\<lambda>m t. AList.update (to_lower t) t m) = add_tag" by (intro ext) (simp add: add_tag_def)
  then show ?thesis by (simp add: normalize_tags_def tag_pieces_def)
qed

definition keyed :: "(string \<times> string) list \<Rightarrow> bool" where
  "keyed m \<longleftrightarrow> distinct (map fst m) \<and> (\<forall>(k, t) \<in> set m. k = to_lower t)"

lemma keyed_add: "keyed m \<Longrightarrow> keyed (add_tag m t)"
  using update_members [of "to_lower t" t m] by (auto simp: keyed_def distinct_update add_tag_def)

lemma keyed_tags: "keyed m \<Longrightarrow> keyed (foldl add_tag m ts)"
  by (induction ts arbitrary: m) (simp_all add: keyed_add)

lemma keyed_values: "keyed m \<Longrightarrow> map to_lower (map snd m) = map fst m"
  by (induction m) (auto simp: keyed_def)

lemma tag_keys: "fst ` set (foldl add_tag m ts) = fst ` set m \<union> to_lower ` set ts"
  by (induction ts arbitrary: m) (auto simp: add_tag_def dom_update)

lemma tag_values: "snd ` set (foldl add_tag m ts) \<subseteq> snd ` set m \<union> set ts"
proof (induction ts arbitrary: m)
  case (Cons t ts)
  have "snd ` set (add_tag m t) \<subseteq> insert t (snd ` set m)"
    using update_members [of "to_lower t" t m] by (auto simp: add_tag_def)
  then show ?case using Cons [of "add_tag m t"] by (simp add: subset_iff) blast
qed simp

lemma split_piece_no_sep: "w \<in> set (split_on d s) \<Longrightarrow> d \<notin> set w"
  by (induction s arbitrary: w) (auto split: list.splits if_splits)

text \<open>
  The tags of a datasource: none is empty or has blanks around it or a comma in it, no two differ only in the case
  of their letters, and every tag typed is there, in one spelling.
\<close>

theorem tags_normalized:
  "distinct (map to_lower (normalize_tags raw))
   \<and> list_all (\<lambda>t. t \<noteq> [] \<and> trim t = t \<and> CHR '','' \<notin> set t) (normalize_tags raw)
   \<and> to_lower ` set (normalize_tags raw) = to_lower ` set (tag_pieces raw)"
proof -
  let ?m = "foldl add_tag [] (tag_pieces raw)"
  have k: "keyed ?m" by (rule keyed_tags) (simp add: keyed_def)
  have l: "map to_lower (normalize_tags raw) = map fst ?m" unfolding normalize_tags_pieces by (rule keyed_values [OF k])
  have "set (normalize_tags raw) \<subseteq> set (tag_pieces raw)"
    using tag_values [of "[]" "tag_pieces raw"] by (simp add: normalize_tags_pieces)
  moreover have "t \<noteq> [] \<and> trim t = t \<and> CHR '','' \<notin> set t" if "t \<in> set (tag_pieces raw)" for t
    using that by (auto simp: tag_pieces_def dest: trim_member split_piece_no_sep)
  moreover have "distinct (map fst ?m)" using k by (simp add: keyed_def)
  moreover have "set (map to_lower (normalize_tags raw)) = to_lower ` set (tag_pieces raw)"
    unfolding l using tag_keys [of "[]" "tag_pieces raw"] by simp
  then have "to_lower ` set (normalize_tags raw) = to_lower ` set (tag_pieces raw)" unfolding set_map .
  ultimately show ?thesis by (simp add: l list_all_iff subset_iff)
qed

text \<open>Tags as they are stored.\<close>

definition tags_ok :: "string list \<Rightarrow> bool" where
  "tags_ok ts \<longleftrightarrow> distinct (map to_lower ts)
     \<and> (\<forall>t \<in> set ts. t \<noteq> [] \<and> trim t = t \<and> (\<forall>c \<in> set t. c \<noteq> CHR '','' \<and> c \<noteq> CHR 0xEF \<and> c \<noteq> CHR 0x22 \<and> \<not> is_newline c))"

lemma trim_space: "trim (CHR '' '' # t) = trim t"
  by (simp add: trim_def is_ws_def)

lemma plain_commas_none: "CHR 0xEF \<notin> set s \<Longrightarrow> plain_commas s = s"
  by (induction s rule: plain_commas.induct) auto

lemma joined_chars: "c \<in> set (join sep ts) \<Longrightarrow> c \<in> set sep \<or> (\<exists>t \<in> set ts. c \<in> set t)"
  by (induction sep ts rule: join.induct) auto

definition comma_pieces :: "string \<Rightarrow> string list" where
  "comma_pieces s = filter (\<lambda>t. t \<noteq> []) (map trim (split_on (CHR '','') s))"

lemma pieces_joined:
  assumes "\<forall>t \<in> set ts. t \<noteq> [] \<and> trim t = t \<and> CHR '','' \<notin> set t"
  shows "comma_pieces (join '', '' ts) = ts"
  using assms
proof (induction ts)
  case Nil
  then show ?case by (simp add: comma_pieces_def)
next
  case (Cons t ts)
  have r: "comma_pieces (CHR '' '' # s) = comma_pieces s" for s
    by (cases "split_on (CHR '','') s") (simp_all add: comma_pieces_def trim_space)
  show ?case
  proof (cases "ts = []")
    case True
    then show ?thesis using Cons.prems by (simp add: comma_pieces_def split_on_no_sep)
  next
    case False
    then have "comma_pieces (join '', '' (t # ts)) = t # comma_pieces (CHR '' '' # join '', '' ts)"
      using Cons.prems by (simp add: join_Cons comma_pieces_def split_on_append)
    then show ?thesis using r Cons by simp
  qed
qed

lemma add_fresh_tags:
  "distinct (map to_lower ts) \<Longrightarrow> to_lower ` set ts \<inter> fst ` set m = {} \<Longrightarrow> map snd (foldl add_tag m ts) = map snd m @ ts"
proof (induction ts arbitrary: m)
  case (Cons t ts)
  then have "add_tag m t = m @ [(to_lower t, t)]" unfolding add_tag_def by (intro update_fresh) auto
  then show ?case using Cons by auto
qed simp

lemma attr_input_plain:
  assumes "\<forall>c \<in> set s. c \<noteq> CHR 0x22 \<and> \<not> is_newline c"
  shows "attr_input s = s"
proof -
  have t: "takeWhile (\<lambda>c. c \<noteq> CHR 0x22) s = s" using assms by (simp add: takeWhile_eq_all_conv)
  show ?thesis unfolding attr_input_def t using assms by (simp add: text_input_plain list_all_iff)
qed

lemma tags_shown:
  assumes "tags_ok ts"
  shows "normalize_tags (attr_input (join '', '' ts)) = ts"
proof -
  have c: "\<forall>c \<in> set (join '', '' ts). c \<noteq> CHR 0xEF \<and> c \<noteq> CHR 0x22 \<and> \<not> is_newline c"
    using assms joined_chars [of _ "'', ''" ts] by (fastforce simp: tags_ok_def is_newline_def)
  then have "attr_input (join '', '' ts) = join '', '' ts" by (intro attr_input_plain) blast
  moreover have "comma_pieces (join '', '' ts) = ts" using assms by (intro pieces_joined) (auto simp: tags_ok_def)
  moreover have "plain_commas (join '', '' ts) = join '', '' ts" using c by (intro plain_commas_none) blast
  then have "tag_pieces (join '', '' ts) = comma_pieces (join '', '' ts)" by (simp add: tag_pieces_def comma_pieces_def)
  ultimately show ?thesis using add_fresh_tags [of ts "[]"] assms by (simp add: normalize_tags_pieces tags_ok_def)
qed

section \<open>Editing\<close>

text \<open>A datasource as the server sends it, measured by the system itself.\<close>

definition plain_text :: "string \<Rightarrow> bool" where
  "plain_text s \<longleftrightarrow> (\<forall>c \<in> set s. c \<noteq> CHR 0x22 \<and> \<not> is_newline c)"

definition oracle_stored :: "string \<Rightarrow> string \<Rightarrow> js" where
  "oracle_stored ty mode =
     (if ty = ''oracle'' \<and> mode \<noteq> ''default'' then JObj [(''oracle_conn_mode'', JStr mode)] else JNull)"

definition plain_ds :: "js list \<Rightarrow> js \<Rightarrow> bool" where
  "plain_ds hosts ds \<longleftrightarrow> truthy ds
   \<and> (\<forall>k \<in> {''name'', ''host''}. \<exists>s. s \<noteq> [] \<and> plain_text s \<and> field ds k = JStr s)
   \<and> (\<exists>s. plain_text s \<and> field ds ''username'' = JStr s)
   \<and> (field ds ''database'' = JNull \<or> (\<exists>s. s \<noteq> [] \<and> plain_text s \<and> field ds ''database'' = JStr s))
   \<and> (\<exists>s. textarea_value s = s \<and> field ds ''remark'' = JStr s)
   \<and> (\<exists>p :: int. p \<noteq> 0 \<and> field ds ''port'' = JInt p)
   \<and> (\<exists>ts. tags_ok ts \<and> field ds ''tags'' = JArr (map JStr ts))
   \<and> (field ds ''host_id'' = JNull \<or> (\<exists>i :: int. i \<noteq> 0 \<and> field ds ''host_id'' = JInt i \<and> (\<exists>h \<in> set hosts. field h ''id'' = JInt i)))
   \<and> (\<exists>ty \<in> set db_types. field ds ''db_type'' = JStr ty
        \<and> (\<exists>mode \<in> {''default'', ''sysdba'', ''sysoper''}. field ds ''extra_params'' = oracle_stored ty mode))
   \<and> field ds ''metric_source'' = JStr ''system'' \<and> field ds ''external_instance_id'' = JNull \<and> field ds ''inbound_source'' = JNull"

lemma selected_host:
  "foldl (\<lambda>v h. if js_string (field h ''id'') = x then js_string (field h ''id'') else v) v0 hosts
     = (if \<exists>h \<in> set hosts. js_string (field h ''id'') = x then x else v0)"
  by (induction hosts arbitrary: v0) auto

lemma plain_input: "plain_text s \<Longrightarrow> attr_input s = s"
  unfolding plain_text_def by (rule attr_input_plain)

lemma host_shown:
  assumes "plain_ds hosts ds"
  shows "(if fm_host_id (hosts_loaded ds (JArr hosts) (open_ds_form parse ds)) = [] then JNull
     else JNum (parse_int_str (fm_host_id (hosts_loaded ds (JArr hosts) (open_ds_form parse ds))))) = field ds ''host_id''"
proof (cases "field ds ''host_id'' = JNull")
  case True
  have "foldl (\<lambda>v h. v) [] hosts = ([] :: string)" by (induction hosts) simp_all
  with True show ?thesis by (simp add: hosts_loaded_def open_ds_form_def)
next
  case False
  then obtain i :: int and h where i: "field ds ''host_id'' = JInt i" "i \<noteq> 0" "h \<in> set hosts" "field h ''id'' = JInt i"
    using assms unfolding plain_ds_def by blast
  then have "\<exists>h \<in> set hosts. js_string (field h ''id'') = str_of_int i" by (metis js_string_int)
  then show ?thesis using i(1,2) by (simp add: hosts_loaded_def open_ds_form_def selected_host str_of_rat_int)
qed

definition edited_keys :: "string list" where
  "edited_keys = [''name'', ''db_type'', ''port'', ''host'', ''username'', ''database'', ''tags'', ''remark'', ''host_id'',
     ''metric_source'', ''external_instance_id'', ''extra_params'', ''inbound_source'']"

lemma hosts_loaded_fields [simp]:
  "fm_name (hosts_loaded ds hs f) = fm_name f" "fm_type (hosts_loaded ds hs f) = fm_type f"
  "fm_port (hosts_loaded ds hs f) = fm_port f" "fm_host (hosts_loaded ds hs f) = fm_host f"
  "fm_username (hosts_loaded ds hs f) = fm_username f" "fm_password (hosts_loaded ds hs f) = fm_password f"
  "fm_database (hosts_loaded ds hs f) = fm_database f" "fm_tags (hosts_loaded ds hs f) = fm_tags f"
  "fm_remark (hosts_loaded ds hs f) = fm_remark f" "fm_oracle (hosts_loaded ds hs f) = fm_oracle f"
  "fm_source (hosts_loaded ds hs f) = fm_source f" "fm_external_required (hosts_loaded ds hs f) = fm_external_required f"
  by (simp_all add: hosts_loaded_def)

lemma shown_oracle:
  assumes "field ds ''db_type'' = JStr ty" and "ty \<in> set db_types" and "mode \<in> {''default'', ''sysdba'', ''sysoper''}"
    and "field ds ''extra_params'' = oracle_stored ty mode"
  shows "fm_type (open_ds_form parse ds) = ty" and "oracle_params (open_ds_form parse ds) = field ds ''extra_params''"
proof -
  show t: "fm_type (open_ds_form parse ds) = ty" unfolding open_ds_form_def ds_form.simps assms(1)
    by (rule select_unique [OF assms(2)]) auto
  show "oracle_params (open_ds_form parse ds) = field ds ''extra_params''"
  proof (cases "ty = ''oracle'' \<and> mode \<noteq> ''default''")
    case True
    then have "extra_param parse ds ''oracle_conn_mode'' ''default'' = JStr mode"
      using assms(4) by (simp add: extra_param_def oracle_stored_def)
    then have "fm_oracle (open_ds_form parse ds) = mode" unfolding open_ds_form_def ds_form.simps
      by (intro select_unique) (use assms(3) in auto)
    then show ?thesis using True assms(3,4) t by (auto simp: oracle_params_def oracle_stored_def)
  next
    case False
    then have e: "field ds ''extra_params'' = JNull" using assms(4) by (simp add: oracle_stored_def)
    then have "extra_param parse ds ''oracle_conn_mode'' ''default'' = JStr ''default''" by (simp add: extra_param_def)
    then have "fm_oracle (open_ds_form parse ds) = ''default''" unfolding open_ds_form_def ds_form.simps
      by (intro select_unique) auto
    then show ?thesis using e by (simp add: oracle_params_def)
  qed
qed

lemma attr_input_Nil [simp]: "attr_input [] = []"
  by (simp add: attr_input_def text_input_def)

lemma port_shown:
  assumes "field ds ''port'' = JInt p" and "p \<noteq> 0"
  shows "fm_port (open_ds_form parse ds) = str_of_int p"
proof -
  have "CHR 0x22 \<notin> set (str_of_nat n)" for n using str_of_nat_digits [of n] by (auto simp: is_digit_def char_code_def)
  then have "\<forall>c \<in> set (str_of_int p). c \<noteq> CHR 0x22" by (auto simp: str_of_int_def)
  then have "takeWhile (\<lambda>c. c \<noteq> CHR 0x22) (str_of_int p) = str_of_int p" by (simp add: takeWhile_eq_all_conv)
  moreover have "js_string (js_or (JInt p) v) = str_of_int p" for v using assms(2) by (simp add: js_or_def str_of_rat_int)
  ultimately show ?thesis by (simp only: open_ds_form_def ds_form.simps assms(1) number_input_int)
qed

lemma source_shown:
  assumes "truthy ds" and "field ds ''metric_source'' = JStr s" and "s \<in> {''system'', ''integration''}"
  shows "fm_source (open_ds_form parse ds) = s"
  unfolding open_ds_form_def ds_form.simps by (rule select_unique) (use assms in auto)

lemma plain_submitted:
  assumes "plain_ds hosts ds"
  shows "fm_name (open_ds_form parse ds) \<noteq> []" "fm_port (open_ds_form parse ds) \<noteq> []" "fm_host (open_ds_form parse ds) \<noteq> []"
    "fm_source (open_ds_form parse ds) = ''system''" "\<not> fm_external_required (open_ds_form parse ds)"
proof -
  obtain name host and p :: int where v: "name \<noteq> []" "plain_text name" "field ds ''name'' = JStr name"
      "host \<noteq> []" "plain_text host" "field ds ''host'' = JStr host" "p \<noteq> 0" "field ds ''port'' = JInt p"
    using assms unfolding plain_ds_def by (metis insertCI)
  show "fm_name (open_ds_form parse ds) \<noteq> []" "fm_host (open_ds_form parse ds) \<noteq> []"
      "\<not> fm_external_required (open_ds_form parse ds)"
    using v(1-6) by (simp_all add: open_ds_form_def plain_input)
  show "fm_port (open_ds_form parse ds) \<noteq> []" using port_shown [OF v(8,7)] by simp
  show "fm_source (open_ds_form parse ds) = ''system''"
    by (rule source_shown) (use assms in \<open>simp_all add: plain_ds_def\<close>)
qed

text \<open>
  Opening a stored datasource and saving it unchanged sends what is stored: its name, type, address, user, database,
  tags, remark, host, mode and source. No password is sent, so that the stored one is kept. The texts are without
  double quotes and line breaks, and the hosts have come.
\<close>

theorem datasource_edit_roundtrip:
  assumes "plain_ds hosts ds"
  shows "\<exists>payload. submit_ds_form ds (hosts_loaded ds (JArr hosts) (open_ds_form parse ds)) = UpdateDatasource (field ds ''id'') payload
    \<and> (\<forall>k \<in> set edited_keys. field payload k = field ds k) \<and> field payload ''password'' = JUndef"
proof -
  let ?o = "open_ds_form parse ds" and ?f = "hosts_loaded ds (JArr hosts) (open_ds_form parse ds)"
  obtain name host user remark ts ty mode and p :: int where v: "name \<noteq> []" "plain_text name" "field ds ''name'' = JStr name"
      "host \<noteq> []" "plain_text host" "field ds ''host'' = JStr host" "plain_text user" "field ds ''username'' = JStr user"
      "textarea_value remark = remark" "field ds ''remark'' = JStr remark" "p \<noteq> 0" "field ds ''port'' = JInt p"
      "tags_ok ts" "field ds ''tags'' = JArr (map JStr ts)"
    and o: "field ds ''db_type'' = JStr ty" "ty \<in> set db_types" "mode \<in> {''default'', ''sysdba'', ''sysoper''}"
      "field ds ''extra_params'' = oracle_stored ty mode"
    and m: "field ds ''metric_source'' = JStr ''system''" "field ds ''external_instance_id'' = JNull"
      "field ds ''inbound_source'' = JNull" "truthy ds"
    and d: "field ds ''database'' = JNull \<or> (\<exists>s. s \<noteq> [] \<and> plain_text s \<and> field ds ''database'' = JStr s)"
    using assms unfolding plain_ds_def by (metis insertCI)
  note z = plain_submitted [OF assms, of parse] and p = port_shown [OF v(12,11), of parse]
  have f: "fm_name ?o = name" "fm_host ?o = host" "fm_username ?o = user" "fm_remark ?o = remark" "fm_password ?o = []"
    unfolding open_ds_form_def using v by (simp_all add: plain_input)
  have b: "str_or_null (fm_database ?o) = field ds ''database''"
    using d by (auto simp: open_ds_form_def str_or_null_def plain_input)
  have t: "JArr (map JStr (normalize_tags (fm_tags ?o))) = field ds ''tags''"
    using tags_shown [OF v(13)] v(14) by (simp add: open_ds_form_def js_or_def comp_def)
  have "oracle_params ?f = oracle_params ?o" by (simp only: oracle_params_def hosts_loaded_fields)
  then have x: "fm_type ?o = ty" "oracle_params ?f = field ds ''extra_params''"
    using shown_oracle [OF o, of parse] by simp_all
  have h: "(if fm_host_id ?f = [] then JNull else JNum (parse_int_str (fm_host_id ?f))) = field ds ''host_id''"
    by (rule host_shown [OF assms])
  have "submit_ds_form ds ?f = UpdateDatasource (field ds ''id'') (form_data ?f JNull JNull)"
    using m(4) z by (simp add: submit_ds_form_def form_complete_def)
  moreover have "\<forall>k \<in> set edited_keys. field (form_data ?f JNull JNull) k = field ds k"
    unfolding form_data_def edited_keys_def h x(2) using v m o(1) by (simp add: f b t p z(4) x(1))
  moreover have "field (form_data ?f JNull JNull) ''password'' = JUndef" by (simp add: form_data_def f)
  ultimately show ?thesis by blast
qed

definition demo_ds :: js where
  "demo_ds = JObj [(''id'', JInt 4), (''name'', JStr ''n''), (''host'', JStr ''h''), (''username'', JStr []), (''database'', JNull),
     (''remark'', JStr []), (''port'', JInt 1), (''tags'', JArr [JStr ''a'', JStr ''b'']), (''host_id'', JInt 2),
     (''db_type'', JStr ''oracle''), (''extra_params'', JObj [(''oracle_conn_mode'', JStr ''sysdba'')]),
     (''metric_source'', JStr ''system''), (''external_instance_id'', JNull), (''inbound_source'', JNull)]"

lemma demo_plain: "plain_ds [JObj [(''id'', JInt 2)]] demo_ds"
proof -
  have n: "plain_text ''n''" "plain_text ''h''" "plain_text []" by (simp_all add: plain_text_def is_newline_def)
  have t: "tags_ok [''a'', ''b'']"
    by (simp add: tags_ok_def trim_def trim_end_def is_ws_def is_newline_def to_lower_def lower_char_def is_upper_ascii_def char_code_def)
  have r: "textarea_value [] = []" by (simp add: textarea_value_def)
  have i: "JInt 1 = JInt i \<longleftrightarrow> i = 1" "JInt 2 = JInt i \<longleftrightarrow> i = 2" for i by auto
  have f: "field demo_ds ''name'' = JStr ''n''" "field demo_ds ''host'' = JStr ''h''" "field demo_ds ''username'' = JStr []"
      "field demo_ds ''database'' = JNull" "field demo_ds ''remark'' = JStr []" "field demo_ds ''port'' = JInt 1"
      "field demo_ds ''tags'' = JArr (map JStr [''a'', ''b''])" "field demo_ds ''host_id'' = JInt 2"
      "field demo_ds ''db_type'' = JStr ''oracle''" "field demo_ds ''extra_params'' = oracle_stored ''oracle'' ''sysdba''"
      "field demo_ds ''metric_source'' = JStr ''system''" "field demo_ds ''external_instance_id'' = JNull"
      "field demo_ds ''inbound_source'' = JNull" "truthy demo_ds" "field (JObj [(''id'', JInt 2)]) ''id'' = JInt 2"
    by (simp_all add: demo_ds_def oracle_stored_def)
  have h: "\<exists>i :: int. i \<noteq> 0 \<and> JInt 2 = JInt i \<and> (\<exists>h \<in> set [JObj [(''id'', JInt 2)]]. field h ''id'' = JInt i)"
    by (rule exI [of _ 2]) simp
  have p: "\<exists>p :: int. p \<noteq> 0 \<and> JInt 1 = JInt p" by (rule exI [of _ 1]) simp
  have g: "\<exists>ts. tags_ok ts \<and> JArr (map JStr [''a'', ''b'']) = JArr (map JStr ts)" using t by blast
  have y: "''oracle'' \<in> set db_types" by (simp add: db_types_def)
  have d: "\<exists>ty \<in> set db_types. JStr ''oracle'' = JStr ty
      \<and> (\<exists>mode \<in> {''default'', ''sysdba'', ''sysoper''}. oracle_stored ''oracle'' ''sysdba'' = oracle_stored ty mode)"
    using y by (intro bexI [of _ "''oracle''"] conjI bexI [of _ "''sysdba''"]) simp_all
  have k: "\<forall>k \<in> {''name'', ''host''}. \<exists>s. s \<noteq> [] \<and> plain_text s \<and> field demo_ds k = JStr s"
    using n f(1,2) by (simp add: f)
  have u: "\<exists>s. plain_text s \<and> JStr [] = JStr s" "\<exists>s. textarea_value s = s \<and> JStr [] = JStr s" using n r by blast+
  show ?thesis unfolding plain_ds_def f using f(14) k u p g h d by blast
qed

theorem datasource_edit_roundtrip_witness:
  "\<exists>payload. submit_ds_form demo_ds (hosts_loaded demo_ds (JArr [JObj [(''id'', JInt 2)]]) (open_ds_form (\<lambda>_. None) demo_ds))
       = UpdateDatasource (field demo_ds ''id'') payload \<and> (\<forall>k \<in> set edited_keys. field payload k = field demo_ds k)"
  using datasource_edit_roundtrip [OF demo_plain, of "\<lambda>_. None"] by blast

section \<open>What an edit loses\<close>

text \<open>
  A datasource that is edited while the hosts cannot be read, or before they have come, is taken from its host: the
  list has no option but the empty one, and no host is what is sent.
\<close>

theorem host_unlinked_without_hosts:
  assumes "submit_ds_form ds (open_ds_form parse ds) = UpdateDatasource i payload"
  shows "field payload ''host_id'' = JNull"
proof -
  have "fm_host_id (open_ds_form parse ds) = []" by (simp add: open_ds_form_def)
  then have "field (form_data (open_ds_form parse ds) e b) ''host_id'' = JNull" for e b by (simp add: form_data_def)
  then show ?thesis using assms by (auto simp: submit_ds_form_def Let_def split: if_splits)
qed

theorem host_unlinked_without_hosts_witness:
  "\<exists>payload. submit_ds_form demo_ds (open_ds_form (\<lambda>_. None) demo_ds) = UpdateDatasource (JInt 4) payload
     \<and> field payload ''host_id'' = JNull \<and> field demo_ds ''host_id'' = JInt 2"
proof -
  let ?f = "open_ds_form (\<lambda>_. None) demo_ds"
  have "submit_ds_form demo_ds ?f = UpdateDatasource (JInt 4) (form_data ?f JNull JNull)"
    using plain_submitted [OF demo_plain, of "\<lambda>_. None"] by (simp add: submit_ds_form_def form_complete_def demo_ds_def)
  from host_unlinked_without_hosts [OF this] this show ?thesis by (simp add: demo_ds_def)
qed

lemma collected_key:
  "k \<in> fst ` set (collect_params inputs) \<Longrightarrow> \<exists>fmt v. (k, fmt, v) \<in> set inputs \<and> (fmt \<noteq> ''password'' \<or> v \<noteq> [])"
proof (induction inputs rule: rev_induct)
  case (snoc x xs)
  obtain a fmt v where x: "x = (a, fmt, v)" by (cases x)
  have e: "collect_params (xs @ [x]) = (if a = [] \<or> fmt = ''password'' \<and> v = [] then collect_params xs
      else AList.update a (JStr (if fmt = ''password'' then ''ENCRYPT:'' @ v else v)) (collect_params xs))"
    unfolding x collect_params_def by simp
  have "k \<in> fst ` set (collect_params xs) \<or> k = a \<and> (fmt \<noteq> ''password'' \<or> v \<noteq> [])"
  proof (cases "a = [] \<or> fmt = ''password'' \<and> v = []")
    case True
    then show ?thesis using e snoc.prems by (simp only: if_True simp_thms)
  next
    case False
    then have "fmt \<noteq> ''password'' \<or> v \<noteq> []" by blast
    moreover have "k \<in> insert a (fst ` set (collect_params xs))"
      using e snoc.prems False by (simp only: if_False dom_update insert_is_Un [symmetric])
    ultimately show ?thesis by blast
  qed
  then show ?case
  proof
    assume "k \<in> fst ` set (collect_params xs)"
    from snoc.IH [OF this] show ?case by (metis UnCI set_append)
  next
    assume "k = a \<and> (fmt \<noteq> ''password'' \<or> v \<noteq> [])"
    moreover have "x \<in> set (xs @ [x])" by simp
    ultimately show ?case unfolding x by blast
  qed
qed (simp add: collect_params_def)

text \<open>The inputs that a form shows for an integration: those of secrets are empty.\<close>

definition chosen_properties :: "ds_form \<Rightarrow> (string \<times> js) list" where
  "chosen_properties f =
     obj_fields (field (field (find_integration (fm_integrations f) (fm_integration f)) ''config_schema'') ''properties'')"

lemma rendered_inputs:
  "(k, fmt, v) \<in> set (fm_params (integrations_loaded ds items f)) \<Longrightarrow>
    \<exists>p. (k, p) \<in> set (chosen_properties (integrations_loaded ds items f)) \<and> fmt = text_or_empty (field p ''format'')
      \<and> (field p ''format'' = JStr ''password'' \<longrightarrow> v = [])"
  by (auto simp: integrations_loaded_def update_external_field_def render_params_def Let_def chosen_properties_def
      param_input_def split: if_splits)

text \<open>
  C30. Editing a datasource measured by an integration drops the secret parameters stored with it: their inputs open
  empty, an empty one is not sent, and the parameters sent replace those stored.
\<close>

theorem edit_drops_secrets:
  assumes "f = integrations_loaded ds items g" and "distinct (map fst (chosen_properties f))"
    and "(k, p) \<in> set (chosen_properties f)" and "field p ''format'' = JStr ''password''"
    and "submit_ds_form ds f = UpdateDatasource i payload"
  shows "\<not> has_field (field (field payload ''inbound_source'') ''params'') k"
proof -
  have "k \<notin> fst ` set (collect_params (fm_params f))"
  proof
    assume "k \<in> fst ` set (collect_params (fm_params f))"
    then obtain fmt v where x: "(k, fmt, v) \<in> set (fm_params f)" "fmt \<noteq> ''password'' \<or> v \<noteq> []"
      using collected_key by blast
    obtain p' where p': "(k, p') \<in> set (chosen_properties f)" "fmt = text_or_empty (field p' ''format'')"
        "field p' ''format'' = JStr ''password'' \<longrightarrow> v = []"
      using rendered_inputs [of k fmt v ds items g] x(1) assms(1) by blast
    have "p' = p" using assms(2,3) p'(1) by (metis map_of_is_SomeI option.inject)
    then show False using x(2) p' assms(4) by simp
  qed
  then have n: "map_of (collect_params (fm_params f)) k = None" by (simp add: map_of_eq_None_iff)
  have "field payload ''inbound_source'' = JNull
      \<or> field (field payload ''inbound_source'') ''params'' = JObj (collect_params (fm_params f))"
    using assms(5) by (auto simp: submit_ds_form_def form_data_def Let_def split: if_splits)
  then show ?thesis using n by (auto simp: has_field_def)
qed

definition demo_integration :: js where
  "demo_integration = JObj [(''id'', JInt 7), (''integration_type'', JStr ''inbound_metric''), (''enabled'', JBool True),
     (''config_schema'', JObj [(''properties'', JObj [(''url'', JObj []), (''token'', JObj [(''format'', JStr ''password'')])])])]"

definition demo_measured :: js where
  "demo_measured = JObj [(''id'', JInt 4), (''name'', JStr ''n''), (''host'', JStr ''h''), (''port'', JInt 1), (''metric_source'', JStr ''integration''),
     (''inbound_source'', JObj [(''integration_id'', JInt 7),
        (''params'', JObj [(''url'', JStr ''u''), (''token'', JStr ''encrypted:x'')])])]"

theorem edit_drops_secrets_witness:
  "let f = integrations_loaded demo_measured [demo_integration] (open_ds_form (\<lambda>_. None) demo_measured)
   in \<exists>payload. submit_ds_form demo_measured f = UpdateDatasource (JInt 4) payload
     \<and> \<not> has_field (field (field payload ''inbound_source'') ''params'') ''token''
     \<and> field (field (field payload ''inbound_source'') ''params'') ''url'' = JStr ''u''"
proof -
  let ?f = "integrations_loaded demo_measured [demo_integration] (open_ds_form (\<lambda>_. None) demo_measured)"
  let ?o = "open_ds_form (\<lambda>_. None) demo_measured"
  have n: "plain_text ''n''" "plain_text ''h''" "plain_text ''u''" by (simp_all add: plain_text_def is_newline_def)
  have o: "fm_name ?o = ''n''" "fm_host ?o = ''h''" "fm_external ?o = []" using n
    by (simp_all add: open_ds_form_def demo_measured_def plain_input text_or_empty_def js_or_def)
  have q: "fm_port ?o = str_of_int 1" by (rule port_shown) (simp_all add: demo_measured_def)
  have s: "fm_source ?o = ''integration''" by (rule source_shown) (simp_all add: demo_measured_def)
  have i: "inbound_source demo_measured = JObj [(''integration_id'', JInt 7), (''params'', JObj [(''url'', JStr ''u''), (''token'', JStr ''encrypted:x'')])]"
    by (simp add: inbound_source_def demo_measured_def js_or_def)
  have w: "js_string (JNum (Fin 7)) = str_of_int 7" using js_string_int [of 7] by simp
  have v: "select_value [[], str_of_int 7] (\<lambda>v. v \<noteq> [] \<and> v = str_of_int 7) = str_of_int 7"
    by (rule select_unique) (auto simp: eq_commute [of "[]"])
  have g: "find_integration [demo_integration] (str_of_int 7) = demo_integration"
    by (simp add: find_integration_def demo_integration_def w del: js_string.simps)
  have e: "?f = ?o\<lparr>fm_integrations := [demo_integration], fm_integration := str_of_int 7,
      fm_params := [(''url'', [], ''u''), (''token'', ''password'', [])], fm_external_needed := False, fm_external_required := False\<rparr>"
    using v g n by (simp add: integrations_loaded_def i w update_external_field_def render_params_def Let_def demo_integration_def
        external_id_meta_def renders_param_def param_input_def text_or_empty_def js_or_def plain_input del: js_string.simps(4))
  have c: "chosen_properties ?f = [(''url'', JObj []), (''token'', JObj [(''format'', JStr ''password'')])]"
    unfolding e chosen_properties_def using g by (simp add: demo_integration_def)
  define payload where "payload = form_data ?f JNull (JObj [(''integration_id'', JInt 7), (''enabled'', JBool True),
      (''params'', JObj [(''url'', JStr ''u'')])])"
  have p: "submit_ds_form demo_measured ?f = UpdateDatasource (JInt 4) payload"
    unfolding payload_def e using o q s g
    by (simp add: submit_ds_form_def form_complete_def requires_external_id_def demo_integration_def demo_measured_def
        str_or_null_def collect_params_def)
  have d: "distinct (map fst (chosen_properties ?f))" and k: "(''token'', JObj [(''format'', JStr ''password'')]) \<in> set (chosen_properties ?f)"
    unfolding c by simp_all
  have t: "field (JObj [(''format'', JStr ''password'')]) ''format'' = JStr ''password''" by simp
  have "\<not> has_field (field (field payload ''inbound_source'') ''params'') ''token''"
    by (rule edit_drops_secrets [OF HOL.refl d k t p])
  moreover have "field (field (field payload ''inbound_source'') ''params'') ''url'' = JStr ''u''"
    by (simp add: payload_def form_data_def)
  ultimately show ?thesis using p unfolding Let_def by blast
qed

text \<open>
  A datasource whose name has a double quote loses the rest of the name when it is edited: escaping keeps quotes,
  and the attribute of the input ends at the first.
\<close>

theorem quoted_name_cut:
  assumes "field ds ''name'' = JStr (a @ CHR 0x22 # b)" and "plain_text a"
    and "submit_ds_form ds (open_ds_form parse ds) = UpdateDatasource i payload"
  shows "field payload ''name'' = JStr a"
proof -
  have "takeWhile (\<lambda>c. c \<noteq> CHR 0x22) (a @ CHR 0x22 # b) = a"
    using assms(2) by (subst takeWhile_append2) (auto simp: plain_text_def)
  then have "fm_name (open_ds_form parse ds) = a"
    using assms(1,2) by (simp add: open_ds_form_def attr_input_def text_input_plain plain_text_def list_all_iff)
  then have "field (form_data (open_ds_form parse ds) e v) ''name'' = JStr a" for e v by (simp add: form_data_def)
  then show ?thesis using assms(3) by (auto simp: submit_ds_form_def Let_def split: if_splits)
qed

theorem quoted_name_cut_witness:
  "\<exists>payload. submit_ds_form (set_field ''name'' (JStr [CHR ''a'', CHR 0x22, CHR ''b'']) demo_ds)
        (open_ds_form (\<lambda>_. None) (set_field ''name'' (JStr [CHR ''a'', CHR 0x22, CHR ''b'']) demo_ds)) = UpdateDatasource (JInt 4) payload
     \<and> field payload ''name'' = JStr ''a''"
proof -
  let ?d = "set_field ''name'' (JStr [CHR ''a'', CHR 0x22, CHR ''b'']) demo_ds"
  let ?f = "open_ds_form (\<lambda>_. None) ?d"
  have n: "field ?d ''name'' = JStr (''a'' @ CHR 0x22 # ''b'')" by simp
  have a: "plain_text ''a''" "plain_text ''h''" by (simp_all add: plain_text_def is_newline_def)
  have "fm_name ?f \<noteq> []" "fm_host ?f \<noteq> []" "\<not> fm_external_required ?f" using a
    by (simp_all add: open_ds_form_def attr_input_def text_input_def is_newline_def demo_ds_def)
  moreover have "fm_port ?f = str_of_int 1" by (rule port_shown) (simp_all add: demo_ds_def)
  moreover have "fm_source ?f = ''system''" by (rule source_shown) (simp_all add: demo_ds_def set_field_def)
  ultimately have p: "submit_ds_form ?d ?f = UpdateDatasource (JInt 4) (form_data ?f JNull JNull)"
    by (simp add: submit_ds_form_def form_complete_def) (simp add: demo_ds_def set_field_def)
  from quoted_name_cut [OF n a(1) p] p show ?thesis by blast
qed

end
