(* ===== verification/DatasourceSelector.thy ===== *)
theory DatasourceSelector
  imports Format "HOL-Library.List_Lexorder" "HOL-Library.Char_ord"
begin

text \<open>
  \<^verbatim>\<open>frontend/js/components/datasource-selector.js\<close>: the drop-down for choosing one or several
  datasources. The state is the component's fields; a rendering is the list of rows it puts into the
  drop-down, in order. A datasource is the object the server sends. Translated texts are named by their
  key.
\<close>

section \<open>State\<close>

record selector_options =
  so_placeholder :: string
  so_multiple :: bool
  so_searchable :: bool
  so_group :: bool
  so_status :: bool
  so_details :: bool
  so_description :: bool
  so_allow_empty :: bool
  so_empty_text :: string
  so_disabled :: bool

record selector =
  sl_options :: selector_options
  sl_datasources :: "js list"
  sl_selected :: "js list"
  sl_open :: bool
  sl_query :: string
  sl_changes :: "js list"

definition default_options :: selector_options where
  "default_options = \<lparr>so_placeholder = ''datasourceSelector.select'', so_multiple = False, so_searchable = True,
     so_group = True, so_status = True, so_details = True, so_description = False, so_allow_empty = True,
     so_empty_text = ''datasourceSelector.all'', so_disabled = False\<rparr>"

definition selector_new :: "selector_options \<Rightarrow> selector" where
  "selector_new o' = \<lparr>sl_options = o', sl_datasources = [], sl_selected = [], sl_open = False, sl_query = [], sl_changes = []\<rparr>"

text \<open>A set in insertion order.\<close>

definition set_add :: "'a \<Rightarrow> 'a list \<Rightarrow> 'a list" where
  "set_add x xs = (if x \<in> set xs then xs else xs @ [x])"

text \<open>The answer of the server, or nothing when the request failed; \<open>keep\<close> is the option \<^verbatim>\<open>filter\<close>.\<close>

definition selector_load :: "(js \<Rightarrow> bool) option \<Rightarrow> js list option \<Rightarrow> selector \<Rightarrow> selector" where
  "selector_load keep answer s =
     (case answer of
        Some data \<Rightarrow> s\<lparr>sl_datasources := (case keep of Some p \<Rightarrow> filter p data | None \<Rightarrow> data)\<rparr>
      | None \<Rightarrow> s)"

section \<open>What is shown\<close>

definition selected_datasource :: "selector \<Rightarrow> js option" where
  "selected_datasource s =
     (case sl_selected s of
        [] \<Rightarrow> None | i # _ \<Rightarrow> find (\<lambda>d. field d ''id'' = i) (sl_datasources s))"

definition selector_type_label :: "js \<Rightarrow> string" where
  "selector_type_label v =
     (case map_of db_type_labels (js_string v) of Some l \<Rightarrow> l | None \<Rightarrow> js_string (js_or v (JStr ''unknown'')))"

text \<open>The class and the key of the label of a status.\<close>

definition status_meta :: "js \<Rightarrow> string \<times> string" where
  "status_meta v =
     (if v \<in> {JStr ''connected'', JStr ''success'', JStr ''healthy'', JStr ''normal''} then (''success'', ''datasourceSelector.connectionHealthy'')
      else if v \<in> {JStr ''error'', JStr ''failed'', JStr ''disconnected''} then (''error'', ''datasourceSelector.connectionUnhealthy'')
      else if v = JStr ''warning'' then (''warning'', ''datasourceSelector.connectionWarning'')
      else (''unknown'', ''datasourceSelector.statusUnknown''))"

text \<open>\<open>count\<close> is the translation of the number of selected datasources.\<close>

definition selector_button_text :: "(nat \<Rightarrow> string) \<Rightarrow> selector \<Rightarrow> string" where
  "selector_button_text counted s =
     (let o' = sl_options s in
      if sl_selected s = [] then (if so_allow_empty o' then so_empty_text o' else so_placeholder o')
      else if so_multiple o' then counted (length (sl_selected s))
      else (case selected_datasource s of
              Some d \<Rightarrow> js_string (js_or (field d ''name'') (JStr (so_placeholder o')))
            | None \<Rightarrow> so_placeholder o'))"

record selector_item =
  si_datasource :: "js option"
  si_name :: string
  si_selected :: bool
  si_checkbox :: bool
  si_host :: "string option"
  si_description :: "string option"
  si_type :: string
  si_status :: "(string \<times> string) option"

datatype selector_row = ItemRow selector_item | GroupRow string nat | MessageRow string

definition empty_item :: "selector \<Rightarrow> selector_item" where
  "empty_item s = \<lparr>si_datasource = None, si_name = so_empty_text (sl_options s), si_selected = (sl_selected s = []),
     si_checkbox = False, si_host = None, si_description = None, si_type = [], si_status = None\<rparr>"

definition datasource_item :: "selector \<Rightarrow> js \<Rightarrow> selector_item" where
  "datasource_item s d =
     (let o' = sl_options s in
      \<lparr>si_datasource = Some d, si_name = js_string (field d ''name''),
       si_selected = (field d ''id'' \<in> set (sl_selected s)),
       si_checkbox = so_multiple o',
       si_host = (if so_details o' \<and> truthy (field d ''host'')
                  then Some (js_string (field d ''host'') @
                         (if truthy (field d ''port'') then '':'' @ js_string (field d ''port'') else []))
                  else None),
       si_description = (if so_description o' \<and> truthy (field d ''description'')
                         then Some (js_string (field d ''description'')) else None),
       si_type = selector_type_label (field d ''db_type''),
       si_status = (if so_status o' then Some (status_meta (js_or (field d ''connection_status'') (field d ''status''))) else None)\<rparr>)"

definition search_text :: "js \<Rightarrow> string" where
  "search_text d =
     to_lower (join '' '' (map js_elem_string (filter truthy
       [field d ''name'', field d ''db_type'', field d ''host'', field d ''port'', field d ''description'', field d ''database''])))"

definition filter_datasources :: "selector \<Rightarrow> js list" where
  "filter_datasources s =
     (if sl_query s = [] then sl_datasources s
      else filter (\<lambda>d. list_all (includes_str (search_text d)) (filter (\<lambda>t. t \<noteq> []) (split_ws (sl_query s))))
             (sl_datasources s))"

definition group_type :: "js \<Rightarrow> string" where
  "group_type d = to_upper (js_string (js_or (field d ''db_type'') (JStr ''unknown'')))"

definition group_datasources :: "js list \<Rightarrow> (string, js list) jsmap" where
  "group_datasources ds =
     foldl (\<lambda>g d. AList.update (group_type d) ((case map_of g (group_type d) of Some l \<Rightarrow> l | None \<Rightarrow> []) @ [d]) g) [] ds"

definition sorted_groups :: "js list \<Rightarrow> (string \<times> js list) list" where
  "sorted_groups ds =
     (let g = group_datasources ds in map (\<lambda>k. (k, case map_of g k of Some l \<Rightarrow> l | None \<Rightarrow> [])) (sort (map fst g)))"

definition render_items :: "selector \<Rightarrow> selector_row list" where
  "render_items s =
     (let o' = sl_options s; found = filter_datasources s;
          first = (if so_allow_empty o' \<and> \<not> so_multiple o' then [ItemRow (empty_item s)] else [])
      in first @
         (if found = [] then [MessageRow (if sl_query s \<noteq> [] then ''datasourceSelector.noMatches'' else ''datasourceSelector.noData'')]
          else if so_group o'
          then concat (map (\<lambda>(k, l). GroupRow k (length l) # map (\<lambda>d. ItemRow (datasource_item s d)) l) (sorted_groups found))
          else map (\<lambda>d. ItemRow (datasource_item s d)) found))"

section \<open>Operations\<close>

definition selector_search :: "string \<Rightarrow> selector \<Rightarrow> selector" where
  "selector_search q s = s\<lparr>sl_query := to_lower q\<rparr>"

definition selector_close :: "selector \<Rightarrow> selector" where
  "selector_close s = s\<lparr>sl_open := False, sl_query := []\<rparr>"

definition selector_open :: "selector \<Rightarrow> selector" where
  "selector_open s = s\<lparr>sl_open := True\<rparr>"

definition selector_toggle :: "selector \<Rightarrow> selector" where
  "selector_toggle s = (if sl_open s then selector_close s else selector_open s)"

definition selected_list :: "selector \<Rightarrow> js list" where
  "selected_list s = filter (\<lambda>d. field d ''id'' \<in> set (sl_selected s)) (sl_datasources s)"

definition select_datasource :: "js option \<Rightarrow> selector \<Rightarrow> selector" where
  "select_datasource d s =
     (case d of
        None \<Rightarrow> (let s' = selector_close (s\<lparr>sl_selected := []\<rparr>) in s'\<lparr>sl_changes := sl_changes s' @ [JNull]\<rparr>)
      | Some x \<Rightarrow>
          (if so_multiple (sl_options s) then
             (let i = field x ''id'';
                  s' = s\<lparr>sl_selected := (if i \<in> set (sl_selected s) then removeAll i (sl_selected s)
                                         else set_add i (sl_selected s))\<rparr>
              in s'\<lparr>sl_changes := sl_changes s' @ [JArr (selected_list s')]\<rparr>)
           else
             (let s' = selector_close (s\<lparr>sl_selected := [field x ''id'']\<rparr>)
              in s'\<lparr>sl_changes := sl_changes s' @ [x]\<rparr>)))"

definition selector_value :: "selector \<Rightarrow> js" where
  "selector_value s =
     (if so_multiple (sl_options s) then JArr (selected_list s)
      else (case selected_datasource s of Some d \<Rightarrow> d | None \<Rightarrow> JNull))"

definition selector_set_value :: "js \<Rightarrow> selector \<Rightarrow> selector" where
  "selector_set_value v s =
     s\<lparr>sl_selected :=
         (if nullish v then []
          else if so_multiple (sl_options s)
          then foldl (\<lambda>xs x. set_add x xs) [] (if is_arr v then elements v else [v])
          else [v])\<rparr>"

definition selector_set_disabled :: "bool \<Rightarrow> selector \<Rightarrow> selector" where
  "selector_set_disabled b s = s\<lparr>sl_options := (sl_options s)\<lparr>so_disabled := b\<rparr>\<rparr>"

section \<open>Properties\<close>

lemma group_snoc:
  "group_datasources (ds @ [d]) =
     (let g = group_datasources ds in AList.update (group_type d) ((case map_of g (group_type d) of Some l \<Rightarrow> l | None \<Rightarrow> []) @ [d]) g)"
  by (simp add: group_datasources_def Let_def)

lemma mset_update_concat:
  "distinct (map fst g) \<Longrightarrow>
     mset (concat (map snd (AList.update k ((case map_of g k of Some l \<Rightarrow> l | None \<Rightarrow> []) @ [d]) g)))
       = add_mset d (mset (concat (map snd g)))"
  by (induction g) auto

lemma group_invariant:
  "distinct (map fst (group_datasources ds)) \<and> mset (concat (map snd (group_datasources ds))) = mset ds
   \<and> (\<forall>(k, l) \<in> set (group_datasources ds). l \<noteq> [] \<and> (\<forall>d \<in> set l. group_type d = k))"
proof (induction ds rule: rev_induct)
  case Nil
  then show ?case by (simp add: group_datasources_def)
next
  case (snoc d ds)
  let ?g = "group_datasources ds"
  let ?l = "(case map_of ?g (group_type d) of Some l \<Rightarrow> l | None \<Rightarrow> []) @ [d]"
  have g: "group_datasources (ds @ [d]) = AList.update (group_type d) ?l ?g" by (simp add: group_snoc Let_def)
  have dist: "distinct (map fst (AList.update (group_type d) ?l ?g))" using snoc by (simp add: distinct_update)
  have m: "mset (concat (map snd (AList.update (group_type d) ?l ?g))) = mset (ds @ [d])"
    using mset_update_concat [of ?g "group_type d" d] conjunct1 [OF snoc] conjunct1 [OF conjunct2 [OF snoc]]
    by (simp only: mset_append mset.simps add_mset_add_single [symmetric] add.commute)
  have new: "\<forall>x \<in> set ?l. group_type x = group_type d"
  proof (cases "map_of ?g (group_type d)")
    case (Some l)
    then have "(group_type d, l) \<in> set ?g" by (rule map_of_SomeD)
    with snoc Some show ?thesis by auto
  qed simp
  have "\<forall>(k, l) \<in> set (AList.update (group_type d) ?l ?g). l \<noteq> [] \<and> (\<forall>x \<in> set l. group_type x = k)"
  proof (intro ballI, clarify)
    fix k l
    assume kl: "(k, l) \<in> set (AList.update (group_type d) ?l ?g)"
    with dist have mo: "map_of (AList.update (group_type d) ?l ?g) k = Some l" by (simp add: map_of_eq_Some_iff)
    show "l \<noteq> [] \<and> (\<forall>x \<in> set l. group_type x = k)"
    proof (cases "k = group_type d")
      case True
      with mo have "l = ?l" by simp
      with new True show ?thesis by simp
    next
      case False
      with mo have "map_of ?g k = Some l" by simp
      then have "(k, l) \<in> set ?g" by (rule map_of_SomeD)
      with snoc show ?thesis by auto
    qed
  qed
  with dist m show ?case unfolding g by blast
qed

lemma mset_concat_permute: "mset xs = mset ys \<Longrightarrow> mset (concat (map f xs)) = mset (concat (map f ys))"
proof -
  assume "mset xs = mset ys"
  then have "(\<Sum>x\<in>#mset xs. mset (f x)) = (\<Sum>x\<in>#mset ys. mset (f x))" by simp
  then show ?thesis by (simp add: mset_concat comp_def sum_mset_sum_list [symmetric] flip: mset_map)
qed

text \<open>
  Grouping loses nothing: every datasource that passes the search is shown in exactly one group, the
  group of its own type, the groups are in alphabetical order with no type twice, and none is empty.
\<close>

theorem groups_partition:
  "mset (concat (map snd (sorted_groups ds))) = mset ds
   \<and> sorted_wrt (<) (map fst (sorted_groups ds))
   \<and> list_all (\<lambda>(k, l). l \<noteq> [] \<and> list_all (\<lambda>d. group_type d = k) l) (sorted_groups ds)"
proof -
  let ?g = "group_datasources ds" and ?f = "\<lambda>k. case map_of (group_datasources ds) k of Some l \<Rightarrow> l | None \<Rightarrow> []"
  note inv = group_invariant [of ds]
  have look: "?f k = l" if "(k, l) \<in> set ?g" for k l
    using that inv by (simp add: map_of_eq_Some_iff [THEN iffD2])
  have "map snd (sorted_groups ds) = map ?f (sort (map fst ?g))" by (simp add: sorted_groups_def Let_def)
  moreover have "mset (concat (map ?f (sort (map fst ?g)))) = mset (concat (map ?f (map fst ?g)))"
    by (rule mset_concat_permute) simp
  moreover have fs: "map ?f (map fst ?g) = map snd ?g" unfolding map_map by (rule map_cong [OF refl]) (auto simp: look)
  ultimately have one: "mset (concat (map snd (sorted_groups ds))) = mset ds" using inv unfolding fs by simp
  have "map fst (sorted_groups ds) = sort (map fst ?g)" by (simp add: sorted_groups_def Let_def comp_def)
  moreover have "sorted (sort (map fst ?g)) \<and> distinct (sort (map fst ?g))" using inv by simp
  ultimately have two: "sorted_wrt (<) (map fst (sorted_groups ds))" by (simp add: strict_sorted_iff)
  have "list_all (\<lambda>(k, l). l \<noteq> [] \<and> list_all (\<lambda>d. group_type d = k) l) (sorted_groups ds)"
    using inv look by (force simp: sorted_groups_def Let_def list_all_iff)
  with one two show ?thesis by blast
qed

end
