(* ===== verification/InstanceTables.thy ===== *)
theory InstanceTables
  imports JsSort
begin

text \<open>
  The tables of the page of an instance (pages/instance-detail.js): the parameters, the sessions and the most
  expensive statements, each filtered by what the user typed and sorted by the column the user chose.
  The environment gives the comparison of texts in the current locale, \<^verbatim>\<open>localeCompare\<close>, as \<open>collate\<close>, and the one
  that looks at base letters and numbers as \<open>collate_base\<close>.
\<close>

section \<open>The column a table is sorted by\<close>

datatype direction = Asc | Desc

type_synonym sort_state = "(string \<times> direction) option"

fun flipped :: "direction \<Rightarrow> direction" where
  "flipped Asc = Desc"
| "flipped Desc = Asc"

definition toggle_table_sort :: "string \<Rightarrow> sort_state \<Rightarrow> sort_state" where
  "toggle_table_sort column st =
     (case st of
        Some (c, d) \<Rightarrow> if c = column then Some (column, flipped d) else Some (column, Asc)
      | None \<Rightarrow> Some (column, Asc))"

datatype sort_mark = Unsorted | Ascending | Descending

definition sort_icon :: "string \<Rightarrow> sort_state \<Rightarrow> sort_mark" where
  "sort_icon column st =
     (case st of
        None \<Rightarrow> Unsorted
      | Some (c, d) \<Rightarrow> if c \<noteq> column then Unsorted else if d = Asc then Ascending else Descending)"

definition directed :: "direction \<Rightarrow> jnum \<Rightarrow> jnum" where
  "directed d n = (if d = Desc then num_negate n else n)"

section \<open>Comparing\<close>

definition normalize_sort_value :: "js \<Rightarrow> js" where
  "normalize_sort_value v = (if nullish v then JStr [] else if is_num v then v else JStr (to_lower (js_string v)))"

definition compare_sort_values :: "(string \<Rightarrow> string \<Rightarrow> rat) \<Rightarrow> js \<Rightarrow> js \<Rightarrow> jnum" where
  "compare_sort_values collate_base l r =
     (if is_num l \<and> is_num r then num_minus (to_number l) (to_number r)
      else Fin (collate_base (js_string l) (js_string r)))"

definition compare_variables :: "(string \<Rightarrow> string \<Rightarrow> rat) \<Rightarrow> sort_state \<Rightarrow> js \<Rightarrow> js \<Rightarrow> jnum" where
  "compare_variables collate_base st l r =
     (let (column, d) = (case st of Some s \<Rightarrow> s | None \<Rightarrow> (''key'', Asc))
      in directed d (compare_sort_values collate_base (normalize_sort_value (field l column)) (normalize_sort_value (field r column))))"

text \<open>A word of a text, as in \<^verbatim>\<open>/\bword\b/\<close>: no letter, digit or underscore before or after it.\<close>

definition word_end :: "string \<Rightarrow> bool" where
  "word_end s \<longleftrightarrow> (case s of [] \<Rightarrow> True | c # _ \<Rightarrow> \<not> is_word c)"

fun word_from :: "bool \<Rightarrow> string \<Rightarrow> string \<Rightarrow> bool" where
  "word_from inside w [] \<longleftrightarrow> False"
| "word_from inside w (c # cs) \<longleftrightarrow>
     (\<not> inside \<and> take (length w) (c # cs) = w \<and> word_end (drop (length w) (c # cs))) \<or> word_from (is_word c) w cs"

definition has_word :: "string \<Rightarrow> string \<Rightarrow> bool" where
  "has_word w s = word_from False w s"

definition executing_words :: "string list" where
  "executing_words = [''active'', ''running'', ''query'', ''execute'', ''executed'', ''executing'', ''blocked'']"

definition session_status_rank :: "js \<Rightarrow> int" where
  "session_status_rank status =
     (let s = to_lower (text_or_empty status)
      in if has_word ''inactive'' s then 2
         else if has_word ''idle in transaction'' s \<or> has_word ''idle'' s then 1
         else if has_word ''sleep'' s \<or> has_word ''sleeping'' s then 2
         else if (\<exists>w \<in> set executing_words. has_word w s) \<or> includes_str s ''lock wait'' then 0
         else 3)"

definition session_status_tone :: "js \<Rightarrow> string" where
  "session_status_tone status =
     (let rank = session_status_rank status
      in if rank = 0 then ''active'' else if rank = 1 then ''idle'' else if rank = 2 then ''sleep'' else ''other'')"

definition duration_or_zero :: "js \<Rightarrow> jnum" where
  "duration_or_zero s = to_number (js_or (field s ''duration_seconds'') (JInt 0))"

definition compare_sessions :: "(string \<Rightarrow> string \<Rightarrow> rat) \<Rightarrow> sort_state \<Rightarrow> js \<Rightarrow> js \<Rightarrow> jnum" where
  "compare_sessions collate_base st l r =
     (let (column, d) = (case st of Some s \<Rightarrow> s | None \<Rightarrow> (''status'', Asc));
          ranks = Fin (of_int (session_status_rank (field l ''status'') - session_status_rank (field r ''status'')));
          longest = num_minus (duration_or_zero r) (duration_or_zero l);
          r0 = (if column = ''status'' then (if ranks = Fin 0 then longest else ranks)
                else if column = ''duration_seconds''
                then num_minus (to_number (js_coalesce (field l ''duration_seconds'') (JInt (-1))))
                               (to_number (js_coalesce (field r ''duration_seconds'') (JInt (-1))))
                else compare_sort_values collate_base (normalize_sort_value (field l column)) (normalize_sort_value (field r column)));
          r1 = (if r0 = Fin 0 then ranks else r0);
          r2 = (if r1 = Fin 0 then longest else r1)
      in directed d r2)"

section \<open>The parameters\<close>

definition variable_matches :: "string \<Rightarrow> js \<Rightarrow> bool" where
  "variable_matches search v \<longleftrightarrow>
     search = [] \<or> includes_str (to_lower (js_string (field v ''key'') @ '' '' @ js_string (field v ''value'') @ '' '' @
                                           js_string (field v ''category''))) search"

definition variables_shown :: "(string \<Rightarrow> string \<Rightarrow> rat) \<Rightarrow> string \<Rightarrow> sort_state \<Rightarrow> js list \<Rightarrow> js list" where
  "variables_shown collate_base search st vs =
     js_sort (\<lambda>l r. cmp_value (compare_variables collate_base st l r)) (filter (variable_matches search) vs)"

section \<open>The sessions\<close>

record session_filters =
  xf_search :: string
  xf_user :: string
  xf_status :: string

text \<open>\<^verbatim>\<open>(v || '').toLowerCase()\<close>, which only a text has.\<close>

definition lower_text :: "js \<Rightarrow> string option" where
  "lower_text v = (case js_or v (JStr []) of JStr s \<Rightarrow> Some (to_lower s) | _ \<Rightarrow> None)"

definition status_matches :: "string \<Rightarrow> string \<Rightarrow> bool" where
  "status_matches chosen status \<longleftrightarrow>
     chosen = ''all''
   \<or> (chosen = ''active'' \<and> status \<in> {''active'', ''running'', ''query'', ''execute''})
   \<or> (chosen = ''idle'' \<and> status \<in> {''idle'', ''inactive''})
   \<or> (chosen = ''sleep'' \<and> status \<in> {''sleep'', ''sleeping''})"

text \<open>Whether a session passes the filters; none when reading its fields throws.\<close>

definition session_matches :: "session_filters \<Rightarrow> js \<Rightarrow> bool option" where
  "session_matches f s =
     (if nullish s then None
      else let haystack = to_lower (text_or_empty (field s ''sql_text'') @ '' '' @ text_or_empty (field s ''client''))
           in case lower_text (field s ''user'') of
                None \<Rightarrow> None
              | Some user \<Rightarrow> case lower_text (field s ''status'') of
                  None \<Rightarrow> None
                | Some status \<Rightarrow>
                    Some ((xf_search f = [] \<or> includes_str haystack (xf_search f))
                        \<and> (xf_user f = [] \<or> includes_str user (xf_user f))
                        \<and> status_matches (xf_status f) status))"

datatype session_view = SessionError | NoSessions | SessionRows "js list"

definition session_rows :: "(string \<Rightarrow> string \<Rightarrow> rat) \<Rightarrow> session_filters \<Rightarrow> sort_state \<Rightarrow> js list \<Rightarrow> session_view" where
  "session_rows collate_base f st sessions =
     (if (\<exists>s \<in> set sessions. session_matches f s = None) then SessionError
      else case js_sort (\<lambda>l r. cmp_value (compare_sessions collate_base st l r)) (filter (\<lambda>s. session_matches f s = Some True) sessions) of
             [] \<Rightarrow> NoSessions
           | x # xs \<Rightarrow> SessionRows (x # xs))"

text \<open>The session a button of the table stands for: the first whose id prints the same.\<close>

definition session_of_button :: "string \<Rightarrow> js list \<Rightarrow> js" where
  "session_of_button sid sessions =
     (case List.find (\<lambda>s. js_string (field s ''session_id'') = sid) sessions of Some s \<Rightarrow> s | None \<Rightarrow> JUndef)"

section \<open>The most expensive statements\<close>

text \<open>
  The list of all statements and the one shown; they are one array until the user types into the filter, so
  that sorting one sorts the other.
\<close>

record top_sql =
  tq_all :: "js list"
  tq_shown :: "js list"
  tq_shared :: bool
  tq_column :: string
  tq_direction :: direction
  tq_filter :: string

definition top_sql_loaded :: "js list \<Rightarrow> top_sql" where
  "top_sql_loaded rows = \<lparr>tq_all = rows, tq_shown = rows, tq_shared = True, tq_column = ''total_time_sec'', tq_direction = Desc, tq_filter = []\<rparr>"

definition top_sql_value :: "direction \<Rightarrow> js \<Rightarrow> js" where
  "top_sql_value d v = (if nullish v then JNum (if d = Asc then PInf else MInf) else v)"

text \<open>The comparison; none when it throws, for lack of a method \<^verbatim>\<open>localeCompare\<close>.\<close>

definition top_sql_compare :: "(string \<Rightarrow> string \<Rightarrow> rat) \<Rightarrow> string \<Rightarrow> direction \<Rightarrow> js \<Rightarrow> js \<Rightarrow> jnum option" where
  "top_sql_compare collate column d a b =
     (let x = top_sql_value d (field a column); y = top_sql_value d (field b column)
      in case x of
           JStr s \<Rightarrow> if d = Asc then Some (Fin (collate s (js_string y)))
                     else (case y of JStr t \<Rightarrow> Some (Fin (collate t s)) | _ \<Rightarrow> None)
         | _ \<Rightarrow> Some (if d = Asc then num_minus (to_number x) (to_number y) else num_minus (to_number y) (to_number x)))"

text \<open>
  Sorting in place. Which pairs the engine compares, and in which order, is its own choice: where the comparison
  of some pair throws, an exception may leave the list as it was or not, and the result is none.
\<close>

definition top_sql_sort :: "(string \<Rightarrow> string \<Rightarrow> rat) \<Rightarrow> string \<Rightarrow> direction \<Rightarrow> js list \<Rightarrow> js list option" where
  "top_sql_sort collate column d rows =
     (if (\<exists>a \<in> set rows. \<exists>b \<in> set rows. top_sql_compare collate column d a b = None) then None
      else Some (js_sort (\<lambda>a b. case top_sql_compare collate column d a b of Some n \<Rightarrow> cmp_value n | None \<Rightarrow> 0) rows))"

definition sort_top_sql :: "(string \<Rightarrow> string \<Rightarrow> rat) \<Rightarrow> top_sql \<Rightarrow> top_sql option" where
  "sort_top_sql collate t =
     map_option (\<lambda>rows. t\<lparr>tq_shown := rows, tq_all := (if tq_shared t then rows else tq_all t)\<rparr>)
       (top_sql_sort collate (tq_column t) (tq_direction t) (tq_shown t))"

definition click_top_sql_header :: "string \<Rightarrow> top_sql \<Rightarrow> top_sql" where
  "click_top_sql_header column t =
     (if tq_column t = column then t\<lparr>tq_direction := flipped (tq_direction t)\<rparr>
      else t\<lparr>tq_column := column, tq_direction := Desc\<rparr>)"

definition statement_matches :: "string \<Rightarrow> js \<Rightarrow> bool option" where
  "statement_matches search sql =
     (case lower_text (field sql ''sql_id'') of
        None \<Rightarrow> None
      | Some i \<Rightarrow> (case lower_text (field sql ''sql_text'') of
                     None \<Rightarrow> None
                   | Some t \<Rightarrow> Some (includes_str i search \<or> includes_str t search)))"

definition filter_top_sql :: "string \<Rightarrow> top_sql \<Rightarrow> top_sql option" where
  "filter_top_sql typed t =
     (let search = to_lower typed; t1 = t\<lparr>tq_filter := search\<rparr>
      in if search = [] then Some (t1\<lparr>tq_shown := tq_all t, tq_shared := False\<rparr>)
         else if (\<exists>sql \<in> set (tq_all t). statement_matches search sql = None) then None
         else Some (t1\<lparr>tq_shown := filter (\<lambda>sql. statement_matches search sql = Some True) (tq_all t), tq_shared := False\<rparr>))"

definition top_sql_mark :: "string \<Rightarrow> top_sql \<Rightarrow> sort_mark" where
  "top_sql_mark column t =
     (if tq_column t \<noteq> column then Unsorted else if tq_direction t = Asc then Ascending else Descending)"

text \<open>The statement of a row that was clicked, and a text cut to a length.\<close>

definition statement_of_row :: "nat \<Rightarrow> top_sql \<Rightarrow> js" where
  "statement_of_row i t = (if i < length (tq_shown t) then tq_shown t ! i else JUndef)"

definition truncated :: "js \<Rightarrow> nat \<Rightarrow> string" where
  "truncated v n =
     (case v of
        JStr s \<Rightarrow> if s = [] then ''-'' else if n < length s then take n s @ ''...'' else s
      | _ \<Rightarrow> ''-'')"

section \<open>The order of the sessions\<close>

definition seconds :: "js \<Rightarrow> rat" where
  "seconds s = (case duration_or_zero s of Fin q \<Rightarrow> q | _ \<Rightarrow> 0)"

definition rank_of :: "js \<Rightarrow> int" where
  "rank_of s = session_status_rank (field s ''status'')"

text \<open>The order of the default column, in arithmetic: by rank, and the longest first.\<close>

definition status_order :: "js \<Rightarrow> js \<Rightarrow> rat" where
  "status_order l r = (if rank_of l = rank_of r then seconds r - seconds l else of_int (rank_of l - rank_of r))"

lemma comparator_status: "comparator status_order"
proof -
  have "status_order l r = (if (of_int (rank_of l) :: rat) - of_int (rank_of r) = 0 then - seconds l - (- seconds r)
          else of_int (rank_of l) - of_int (rank_of r))" for l r
    by (simp add: status_order_def)
  then show ?thesis
    using comparator_lex [OF comparator_diff [of "\<lambda>s. of_int (rank_of s)"] comparator_diff [of "\<lambda>s. - seconds s"]]
    by presburger
qed

interpretation by_status: comparator status_order
  by (rule comparator_status)

definition known_duration :: "js \<Rightarrow> bool" where
  "known_duration s \<longleftrightarrow> (\<exists>q. duration_or_zero s = Fin q)"

lemma known_seconds: "known_duration s \<Longrightarrow> duration_or_zero s = Fin (seconds s)"
  by (auto simp: known_duration_def seconds_def)

lemma compare_status:
  "known_duration l \<Longrightarrow> known_duration r \<Longrightarrow>
     cmp_value (compare_sessions collate_base (Some (''status'', Asc)) l r) = status_order l r"
  by (simp add: compare_sessions_def Let_def directed_def status_order_def rank_of_def known_seconds)

lemma session_rows_sort:
  assumes "session_rows collate_base f st sessions = SessionRows rows"
  shows "rows = js_sort (\<lambda>l r. cmp_value (compare_sessions collate_base st l r)) (filter (\<lambda>s. session_matches f s = Some True) sessions)"
  using assms by (auto simp: session_rows_def split: if_splits list.splits)

lemma session_rows_shown:
  assumes "\<forall>s \<in> set sessions. session_matches f s \<noteq> None" and "\<exists>s \<in> set sessions. session_matches f s = Some True"
  shows "session_rows collate_base f st sessions
      = SessionRows (js_sort (\<lambda>l r. cmp_value (compare_sessions collate_base st l r)) (filter (\<lambda>s. session_matches f s = Some True) sessions))"
proof -
  let ?r = "js_sort (\<lambda>l r. cmp_value (compare_sessions collate_base st l r)) (filter (\<lambda>s. session_matches f s = Some True) sessions)"
  have "set ?r \<noteq> {}" using assms(2) by auto
  then obtain x xs where r: "?r = x # xs" by (cases ?r) auto
  show ?thesis unfolding session_rows_def r using assms(1) by auto
qed

text \<open>
  The table of the sessions in its default order: it holds the sessions that match the filters, each as
  often as the server sent it, those that execute before the idle and the sleeping ones, within one kind the
  longest first, and sessions that agree in both in the order of the server.
\<close>

theorem sessions_sorted:
  assumes "\<forall>s \<in> set sessions. known_duration s"
    and "session_rows collate_base f (Some (''status'', Asc)) sessions = SessionRows rows"
  shows "let matching = filter (\<lambda>s. session_matches f s = Some True) sessions;
             alike = (\<lambda>x y. rank_of x = rank_of y \<and> seconds x = seconds y)
         in mset rows = mset matching
          \<and> sorted_wrt (\<lambda>x y. rank_of x < rank_of y \<or> (rank_of x = rank_of y \<and> seconds y \<le> seconds x)) rows
          \<and> (\<forall>a. filter (alike a) rows = filter (alike a) matching)"
proof -
  let ?m = "filter (\<lambda>s. session_matches f s = Some True) sessions"
  have r: "rows = js_sort status_order ?m"
    unfolding session_rows_sort [OF assms(2)] using assms(1) by (intro js_sort_cong compare_status) auto
  have "sorted_wrt (\<lambda>x y. rank_of x < rank_of y \<or> (rank_of x = rank_of y \<and> seconds y \<le> seconds x)) rows"
    unfolding r by (rule sorted_wrt_mono_rel [OF _ by_status.sorted_sort]) (auto simp: status_order_def split: if_splits)
  moreover have "by_status.same = (\<lambda>x y. rank_of x = rank_of y \<and> seconds x = seconds y)"
    by (intro ext) (auto simp: by_status.same_def status_order_def)
  then have "filter (\<lambda>y. rank_of a = rank_of y \<and> seconds a = seconds y) rows
      = filter (\<lambda>y. rank_of a = rank_of y \<and> seconds a = seconds y) ?m" for a
    using by_status.stable [of a ?m] r by simp
  ultimately show ?thesis using r by simp
qed

definition demo_session :: "string \<Rightarrow> js \<Rightarrow> js" where
  "demo_session status secs = JObj [(''user'', JStr ''app''), (''status'', JStr status), (''duration_seconds'', secs)]"

definition all_sessions :: session_filters where
  "all_sessions = \<lparr>xf_search = [], xf_user = [], xf_status = ''all''\<rparr>"

definition by_length :: "string \<Rightarrow> string \<Rightarrow> rat" where
  "by_length s t = of_nat (length s) - of_nat (length t)"

lemma comparator_by_length: "comparator by_length"
  unfolding by_length_def by (rule comparator_diff)

lemma demo_fields [simp]:
  "field (demo_session st d) ''status'' = JStr st" "field (demo_session st d) ''duration_seconds'' = d"
  "field (demo_session st d) ''user'' = JStr ''app''" "field (demo_session st d) ''sql_text'' = JUndef"
  "field (demo_session st d) ''client'' = JUndef"
  by (simp_all add: demo_session_def field_def)

theorem sessions_sorted_witness:
  "\<exists>rows. session_rows by_length all_sessions (Some (''status'', Asc))
     [demo_session ''Sleep'' JNull, demo_session ''Query'' (JInt 3)] = SessionRows rows
   \<and> sorted_wrt (\<lambda>x y. rank_of x < rank_of y \<or> (rank_of x = rank_of y \<and> seconds y \<le> seconds x)) rows"
proof -
  let ?s = "[demo_session ''Sleep'' JNull, demo_session ''Query'' (JInt 3)]"
  have d: "\<forall>s \<in> set ?s. known_duration s"
    by (simp add: known_duration_def duration_or_zero_def js_or_def)
  have m: "\<forall>s \<in> set ?s. session_matches all_sessions s = Some True"
    by (simp add: session_matches_def all_sessions_def lower_text_def js_or_def status_matches_def nullish_def demo_session_def field_def)
  then obtain rows where r: "session_rows by_length all_sessions (Some (''status'', Asc)) ?s = SessionRows rows"
    using session_rows_shown [of ?s all_sessions by_length] by auto
  show ?thesis using sessions_sorted [OF d r] r by (metis (no_types, lifting))
qed

text \<open>
  A click on the header of a column of texts sorts the sessions by the texts in the direction of the mark,
  whatever the status; a second click turns the order round.
\<close>

theorem sessions_by_column:
  assumes "comparator collate_base" and "column \<notin> {''status'', ''duration_seconds''}"
    and "\<forall>s \<in> set sessions. known_duration s \<and> \<not> is_num (field s column)"
    and "session_rows collate_base f (Some (column, d)) sessions = SessionRows rows"
  shows "sorted_wrt (\<lambda>x y. let c = collate_base (js_string (normalize_sort_value (field x column)))
                                             (js_string (normalize_sort_value (field y column)))
                        in if d = Asc then c \<le> 0 else 0 \<le> c) rows"
proof -
  let ?t = "\<lambda>s. js_string (normalize_sort_value (field s column))"
  let ?c = "\<lambda>x y. if collate_base (?t x) (?t y) = 0 then status_order x y else collate_base (?t x) (?t y)"
  let ?d = "if d = Desc then (\<lambda>x y. - ?c x y) else ?c"
  let ?m = "filter (\<lambda>s. session_matches f s = Some True) sessions"
  have c: "comparator ?c"
    by (rule comparator_lex [OF comparator_on [OF assms(1)] comparator_status])
  have d: "comparator ?d"
    using c comparator_negate [OF c] by simp
  have "rows = js_sort ?d ?m"
    unfolding session_rows_sort [OF assms(4)]
  proof (rule js_sort_cong)
    fix x y assume "x \<in> set ?m" "y \<in> set ?m"
    then have xy: "known_duration x" "known_duration y" "\<not> is_num (field x column)" "\<not> is_num (field y column)"
      using assms(3) by auto
    have n: "\<not> is_num (normalize_sort_value v)" if "\<not> is_num v" for v
      using that by (simp add: normalize_sort_value_def)
    have "cmp_value (compare_sessions collate_base (Some (column, Asc)) x y) = ?c x y"
      using assms(2) xy n [OF xy(3)]
      by (auto simp: compare_sessions_def Let_def directed_def compare_sort_values_def status_order_def rank_of_def known_seconds)
    moreover have "cmp_value (compare_sessions collate_base (Some (column, Desc)) x y)
        = - cmp_value (compare_sessions collate_base (Some (column, Asc)) x y)"
      by (simp add: compare_sessions_def Let_def directed_def)
    ultimately show "cmp_value (compare_sessions collate_base (Some (column, d)) x y) = ?d x y"
      by (cases d) auto
  qed
  then have "sorted_wrt (\<lambda>x y. ?d x y \<le> 0) rows"
    using comparator.sorted_sort [OF d] by simp
  then show ?thesis
    by (rule sorted_wrt_mono_rel [rotated]) (cases d; auto simp: Let_def split: if_splits)
qed

theorem sessions_by_column_witness:
  "\<exists>rows. session_rows by_length all_sessions (Some (''user'', Desc)) [demo_session ''idle'' JNull] = SessionRows rows
   \<and> sorted_wrt (\<lambda>x y. 0 \<le> by_length (js_string (normalize_sort_value (field x ''user'')))
                                (js_string (normalize_sort_value (field y ''user'')))) rows"
proof -
  let ?s = "[demo_session ''idle'' JNull]"
  have d: "\<forall>s \<in> set ?s. known_duration s \<and> \<not> is_num (field s ''user'')"
    by (simp add: known_duration_def duration_or_zero_def js_or_def)
  have "\<forall>s \<in> set ?s. session_matches all_sessions s = Some True"
    by (simp add: session_matches_def all_sessions_def lower_text_def js_or_def status_matches_def nullish_def demo_session_def field_def)
  then obtain rows where r: "session_rows by_length all_sessions (Some (''user'', Desc)) ?s = SessionRows rows"
    using session_rows_shown [of ?s all_sessions by_length] by auto
  show ?thesis
    using sessions_by_column [OF comparator_by_length _ d r] r by (simp add: Let_def)
qed

text \<open>
  The filter for executing sessions and the table disagree: a session whose status is executing, executed,
  blocked or lock wait counts as active in the table, with its mark and its place, but the filter for active
  sessions hides it; an inactive one is among those the filter calls idle and the table calls sleeping.
\<close>

theorem active_filter_hides_executing:
  assumes "to_lower status \<in> {''executing'', ''executed'', ''blocked'', ''lock wait''}"
    and "field s ''status'' = JStr status" and "\<not> nullish s" and "xf_status f = ''active''"
  shows "session_status_tone (field s ''status'') = ''active'' \<and> session_matches f s \<noteq> Some True"
proof -
  have "status \<noteq> []" using assms(1) by (auto simp: to_lower_def)
  then have t: "text_or_empty (JStr status) = status" "lower_text (JStr status) = Some (to_lower status)"
    by (simp_all add: text_or_empty_def js_or_def lower_text_def)
  have "session_status_rank (JStr status) = 0"
    using assms(1) unfolding session_status_rank_def t Let_def
    by (elim insertE emptyE) (simp_all add: has_word_def executing_words_def word_end_def char_class_defs)
  moreover have "session_matches f s \<noteq> Some True"
    using assms t(2) by (auto simp: session_matches_def status_matches_def Let_def split: option.splits)
  ultimately show ?thesis using assms(2) by (simp add: session_status_tone_def)
qed

theorem active_filter_hides_executing_witness:
  "session_matches (all_sessions\<lparr>xf_status := ''active''\<rparr>) (demo_session ''Executing'' JNull) \<noteq> Some True"
proof -
  have "to_lower ''Executing'' = ''executing''" by code_simp
  then show ?thesis
    using active_filter_hides_executing [of "''Executing''" "demo_session ''Executing'' JNull" "all_sessions\<lparr>xf_status := ''active''\<rparr>"]
    by (simp add: nullish_def demo_session_def field_def)
qed

section \<open>The order of the statements\<close>

definition missing_number :: "string \<Rightarrow> js \<Rightarrow> rat" where
  "missing_number column row = (if nullish (field row column) then 1 else 0)"

definition column_number :: "string \<Rightarrow> js \<Rightarrow> rat" where
  "column_number column row = (case field row column of JNum (Fin q) \<Rightarrow> q | _ \<Rightarrow> 0)"

definition number_or_missing :: "js \<Rightarrow> bool" where
  "number_or_missing v \<longleftrightarrow> nullish v \<or> (\<exists>q. v = JNum (Fin q))"

text \<open>
  A column of numbers sorts in both directions without an exception: the rows with a number come first, in
  the order chosen, those without one last, and nothing is lost.
\<close>

theorem top_sql_sorted:
  assumes "\<forall>row \<in> set rows. number_or_missing (field row column)"
  shows "\<exists>out. top_sql_sort collate column d rows = Some out \<and> mset out = mset rows
     \<and> sorted_wrt (\<lambda>a b. missing_number column a < missing_number column b
          \<or> (missing_number column a = missing_number column b
             \<and> (if d = Asc then column_number column a \<le> column_number column b
                 else column_number column b \<le> column_number column a))) out"
proof -
  let ?m = "missing_number column"
  let ?v = "\<lambda>x. if d = Asc then column_number column x else - column_number column x"
  let ?c = "\<lambda>a b. if ?m a - ?m b = 0 then ?v a - ?v b else ?m a - ?m b"
  have c: "comparator ?c"
    by (rule comparator_lex [OF comparator_diff comparator_diff])
  have p: "top_sql_compare collate column d a b \<noteq> None
      \<and> (case top_sql_compare collate column d a b of Some n \<Rightarrow> cmp_value n | None \<Rightarrow> 0) = ?c a b"
    if "number_or_missing (field a column)" "number_or_missing (field b column)" for a b
    using that by (cases d) (auto simp: number_or_missing_def top_sql_compare_def top_sql_value_def missing_number_def
        column_number_def nullish_def)
  have "top_sql_sort collate column d rows = Some (js_sort ?c rows)"
    using assms p by (auto simp: top_sql_sort_def intro!: js_sort_cong)
  moreover have "sorted_wrt (\<lambda>a b. ?c a b \<le> 0) (js_sort ?c rows)"
    by (rule comparator.sorted_sort [OF c])
  then have "sorted_wrt (\<lambda>a b. ?m a < ?m b \<or> (?m a = ?m b
             \<and> (if d = Asc then column_number column a \<le> column_number column b
                 else column_number column b \<le> column_number column a))) (js_sort ?c rows)"
    by (rule sorted_wrt_mono_rel [rotated]) (auto split: if_splits)
  ultimately show ?thesis by simp
qed

theorem top_sql_sorted_witness:
  "\<exists>out. top_sql_sort by_length ''exec_count'' Desc [JObj [], JObj [(''exec_count'', JInt 5)]] = Some out"
  using top_sql_sorted [of "[JObj [], JObj [(''exec_count'', JInt 5)]]" "''exec_count''" by_length Desc]
  by (auto simp: number_or_missing_def field_def nullish_def)

text \<open>
  In descending order, the order of the first click, a text and a missing value have no order: comparing the
  text with the missing value throws, and the comparison the other way round is not a number.
\<close>

theorem top_sql_gap_throws:
  assumes "field a column = JStr s" and "nullish (field b column)" and "tq_column t \<noteq> column"
    and "number_of_str s = NaN"
  shows "let d = tq_direction (click_top_sql_header column t)
         in top_sql_compare collate column d a b = None \<and> top_sql_compare collate column d b a = Some NaN"
  using assms by (simp add: top_sql_compare_def top_sql_value_def click_top_sql_header_def nullish_def)

theorem top_sql_gap_throws_witness:
  "top_sql_compare by_length ''last_exec_time'' Desc (JObj [(''last_exec_time'', JStr ''never'')]) (JObj [(''last_exec_time'', JNull)]) = None"
proof -
  have "number_of_str ''never'' = NaN"
    by (simp add: number_of_str_def scan_decimal_def Let_def trim_def trim_end_def starts_with_def char_class_defs)
  then show ?thesis
    using top_sql_gap_throws [of "JObj [(''last_exec_time'', JStr ''never'')]" "''last_exec_time''" "''never''"
        "JObj [(''last_exec_time'', JNull)]" "top_sql_loaded []" by_length]
    by (simp add: field_def nullish_def top_sql_loaded_def click_top_sql_header_def)
qed

end
