(* ===== verification/TableSort.thy ===== *)
theory TableSort
  imports InstanceTables
begin

text \<open>
  Tables sorted by the column that the user clicks, as the lists of the datasources (pages/datasources.js) and of
  the hosts (pages/hosts.js) have them: two values are compared by \<^verbatim>\<open><\<close>, texts in small letters, and a row
  without a value comes last.  A page says which value a row has in a column.
\<close>

section \<open>Comparing two values\<close>

fun lowered :: "js \<Rightarrow> js" where
  "lowered (JStr s) = JStr (to_lower s)"
| "lowered v = v"

text \<open>\<^verbatim>\<open>a < b\<close>: by code units for two texts, by number otherwise; an array or object counts as its text.\<close>

fun primitive :: "js \<Rightarrow> js" where
  "primitive (JArr xs) = JStr (js_string (JArr xs))"
| "primitive (JObj kvs) = JStr (js_string (JObj kvs))"
| "primitive v = v"

definition js_less :: "js \<Rightarrow> js \<Rightarrow> bool" where
  "js_less a b =
     (case (primitive a, primitive b) of
        (JStr s, JStr t) \<Rightarrow> str_less s t
      | (u, v) \<Rightarrow> num_less (to_number u) (to_number v))"

text \<open>The comparison of two values in a direction: a value that is missing comes last in both.\<close>

definition compare_values :: "direction \<Rightarrow> js \<Rightarrow> js \<Rightarrow> rat" where
  "compare_values d va vb =
     (let up = (if d = Asc then 1 else -1)
      in if nullish va \<and> nullish vb then 0
         else if nullish va then 1
         else if nullish vb then -1
         else if js_less (lowered va) (lowered vb) then - up
         else if js_less (lowered vb) (lowered va) then up
         else 0)"

definition toggle_order :: "string \<Rightarrow> string \<times> direction \<Rightarrow> string \<times> direction" where
  "toggle_order column = (\<lambda>(c, d). if c = column then (c, if d = Asc then Desc else Asc) else (column, Asc))"

definition order_icon :: "string \<times> direction \<Rightarrow> string \<Rightarrow> sort_mark" where
  "order_icon = (\<lambda>(c, d) column. if column = c then (if d = Asc then Ascending else Descending) else Unsorted)"

section \<open>Text order\<close>

lemma str_less_irrefl [simp]: "\<not> str_less s s"
  by (induction s) auto

lemma str_less_asym: "str_less s t \<Longrightarrow> \<not> str_less t s"
  by (induction s t rule: str_less.induct) (auto split: if_splits)

lemma str_less_negtrans: "\<not> str_less t s \<Longrightarrow> \<not> str_less u t \<Longrightarrow> \<not> str_less u s"
proof (induction s t arbitrary: u rule: str_less.induct)
  case (3 c cs d ds)
  then show ?case by (cases u) (auto split: if_splits)
qed (auto elim: str_less.elims)

text \<open>The sign of an order.\<close>

definition less_sign :: "('a \<Rightarrow> 'a \<Rightarrow> bool) \<Rightarrow> 'a \<Rightarrow> 'a \<Rightarrow> rat" where
  "less_sign lt x y = (if lt x y then -1 else if lt y x then 1 else 0)"

lemma comparator_less_sign:
  assumes "\<And>x y. lt x y \<Longrightarrow> \<not> lt y x" and "\<And>x y z. \<not> lt y x \<Longrightarrow> \<not> lt z y \<Longrightarrow> \<not> lt z x"
  shows "comparator (less_sign lt)"
proof
  fix x y z
  show "less_sign lt y x = - less_sign lt x y" using assms(1) by (auto simp: less_sign_def)
  have le: "less_sign lt a b \<le> 0 \<longleftrightarrow> \<not> lt b a" for a b using assms(1) by (auto simp: less_sign_def)
  assume "less_sign lt x y \<le> 0" "less_sign lt y z \<le> 0"
  then show "less_sign lt x z \<le> 0" using assms(2) unfolding le by blast
qed

section \<open>Sorting by a value\<close>

text \<open>The values of a column are texts, or numbers, with gaps.\<close>

definition text_values :: "('a \<Rightarrow> js) \<Rightarrow> 'a list \<Rightarrow> bool" where
  "text_values v xs \<longleftrightarrow> (\<forall>x \<in> set xs. nullish (v x) \<or> is_str (v x))"

definition number_values :: "('a \<Rightarrow> js) \<Rightarrow> 'a list \<Rightarrow> bool" where
  "number_values v xs \<longleftrightarrow> (\<forall>x \<in> set xs. nullish (v x) \<or> (\<exists>q. v x = JNum (Fin q)))"

text \<open>A value may stand before another one.\<close>

definition in_order :: "direction \<Rightarrow> js \<Rightarrow> js \<Rightarrow> bool" where
  "in_order d va vb \<longleftrightarrow> nullish vb \<or> (\<not> nullish va \<and>
     (if d = Asc then \<not> js_less (lowered vb) (lowered va) else \<not> js_less (lowered va) (lowered vb)))"

fun key_text :: "js \<Rightarrow> string" where
  "key_text (JStr s) = to_lower s"
| "key_text _ = []"

fun key_number :: "js \<Rightarrow> rat" where
  "key_number (JNum (Fin q)) = q"
| "key_number _ = 0"

definition gap :: "js \<Rightarrow> rat" where
  "gap v = (if nullish v then 1 else 0)"

definition ordered_by :: "(js \<Rightarrow> js \<Rightarrow> bool) \<Rightarrow> direction \<Rightarrow> js \<Rightarrow> js \<Rightarrow> rat" where
  "ordered_by lt d a b =
     (if gap a - gap b = 0 then (if d = Asc then less_sign lt a b else less_sign lt b a) else gap a - gap b)"

lemma comparator_ordered_by:
  assumes "comparator (less_sign lt)"
  shows "comparator (\<lambda>x y. ordered_by lt d (f x) (f y))"
proof -
  have "comparator (\<lambda>a b. if d = Asc then less_sign lt a b else less_sign lt b a)"
    using assms comparator_flip [OF assms] by (cases d) simp_all
  from comparator_on [OF comparator_lex [OF comparator_diff [of gap] this], of f]
  show ?thesis unfolding ordered_by_def .
qed

lemma comparator_text: "comparator (less_sign (\<lambda>a b. str_less (key_text a) (key_text b)))"
  by (rule comparator_less_sign) (blast dest: str_less_asym str_less_negtrans)+

lemma comparator_number: "comparator (less_sign (\<lambda>a b. key_number a < key_number b))"
  by (rule comparator_less_sign) auto

lemma js_less_text: "is_str a \<Longrightarrow> is_str b \<Longrightarrow> js_less (lowered a) (lowered b) \<longleftrightarrow> str_less (key_text a) (key_text b)"
  by (cases a; cases b) (auto simp: js_less_def)

lemma compare_text:
  assumes "nullish a \<or> is_str a" and "nullish b \<or> is_str b"
  shows "compare_values d a b = ordered_by (\<lambda>a b. str_less (key_text a) (key_text b)) d a b"
proof -
  have "key_text v = []" if "nullish v" for v using that by (auto simp: nullish_def)
  then show ?thesis
    using assms str_less_asym [of "key_text a" "key_text b"] str_less_asym [of "key_text b" "key_text a"]
    by (cases d) (auto simp: compare_values_def ordered_by_def less_sign_def gap_def js_less_text)
qed

lemma compare_number:
  assumes "nullish a \<or> (\<exists>q. a = JNum (Fin q))" and "nullish b \<or> (\<exists>q. b = JNum (Fin q))"
  shows "compare_values d a b = ordered_by (\<lambda>a b. key_number a < key_number b) d a b"
proof -
  have "\<not> nullish (JNum n)" for n by (simp add: nullish_def)
  moreover have "key_number v = 0" if "nullish v" for v using that by (auto simp: nullish_def)
  ultimately show ?thesis
    using assms by (cases d) (auto simp: compare_values_def ordered_by_def less_sign_def gap_def js_less_def)
qed

lemma num_less_asym: "num_less a b \<Longrightarrow> \<not> num_less b a"
  by (cases a; cases b) auto

lemma js_less_asym: "js_less a b \<Longrightarrow> \<not> js_less b a"
  by (cases "primitive a"; cases "primitive b") (auto simp: js_less_def dest: str_less_asym num_less_asym)

text \<open>What the comparison says is what \<open>in_order\<close> says, whatever the values.\<close>

lemma compare_in_order: "compare_values d a b \<le> 0 \<Longrightarrow> in_order d a b"
  by (cases d) (auto simp: compare_values_def in_order_def Let_def split: if_splits dest: js_less_asym)

lemma filter_stable:
  assumes "comparator cmp" and "\<And>x y. f x = f y \<Longrightarrow> cmp x y = 0"
  shows "filter (\<lambda>x. f x = v) (js_sort cmp xs) = filter (\<lambda>x. f x = v) xs"
proof (cases "\<exists>a. f a = v")
  case True
  then obtain a where a: "f a = v" by blast
  have e: "filter (\<lambda>x. f x = v) ys = filter (\<lambda>x. f x = v) (filter (\<lambda>x. cmp a x = 0) ys)" for ys
    using a assms(2) by (auto intro!: filter_cong simp: filter_filter)
  have "filter (\<lambda>x. cmp a x = 0) (js_sort cmp xs) = filter (\<lambda>x. cmp a x = 0) xs"
    using comparator.stable [OF assms(1), of a xs] comparator.same_def [OF assms(1), of a] by (simp cong: filter_cong)
  then show ?thesis using e by metis
qed simp

lemma sorted_by_order:
  assumes "comparator (less_sign lt)"
    and "\<And>x y. x \<in> set xs \<Longrightarrow> y \<in> set xs \<Longrightarrow> compare_values d (v x) (v y) = ordered_by lt d (v x) (v y)"
  defines "ys \<equiv> js_sort (\<lambda>x y. compare_values d (v x) (v y)) xs"
  shows "sorted_wrt (\<lambda>x y. in_order d (v x) (v y)) ys \<and> mset ys = mset xs \<and> filter (\<lambda>x. v x = u) ys = filter (\<lambda>x. v x = u) xs"
proof -
  let ?c = "\<lambda>x y. ordered_by lt d (v x) (v y)"
  have c: "comparator ?c" using comparator_ordered_by [OF assms(1)] .
  have e: "ys = js_sort ?c xs"
    unfolding ys_def by (rule js_sort_cong) (rule assms(2))
  have "sorted_wrt (\<lambda>x y. ?c x y \<le> 0) (js_sort ?c xs)" by (rule comparator.sorted_sort [OF c])
  then have "sorted_wrt (\<lambda>x y. in_order d (v x) (v y)) (js_sort ?c xs)"
    by (rule sorted_wrt_mono_rel [rotated]) (metis assms(2) compare_in_order set_js_sort)
  moreover have "filter (\<lambda>x. v x = u) (js_sort ?c xs) = filter (\<lambda>x. v x = u) xs"
    using comparator.refl [OF comparator_ordered_by [OF assms(1), where f = id]] by (intro filter_stable [OF c]) simp
  ultimately show ?thesis unfolding e by simp
qed

text \<open>
  Sorted by texts or by numbers, in either direction: the rows without a value come last, the others follow each
  other as their values do, equal ones stay in their order, and none is lost or doubled.
\<close>

lemma sorted_by_value:
  assumes "text_values v xs \<or> number_values v xs"
  shows "sorted_wrt (\<lambda>x y. in_order d (v x) (v y)) (js_sort (\<lambda>x y. compare_values d (v x) (v y)) xs)
    \<and> mset (js_sort (\<lambda>x y. compare_values d (v x) (v y)) xs) = mset xs
    \<and> filter (\<lambda>x. v x = u) (js_sort (\<lambda>x y. compare_values d (v x) (v y)) xs) = filter (\<lambda>x. v x = u) xs"
  using assms
proof
  assume "text_values v xs"
  then show ?thesis by (intro sorted_by_order [OF comparator_text] compare_text) (simp_all add: text_values_def)
next
  assume "number_values v xs"
  then show ?thesis by (intro sorted_by_order [OF comparator_number] compare_number) (simp_all add: number_values_def)
qed

end
