(* ===== verification/DatasourceTable.thy ===== *)
theory DatasourceTable
  imports TableSort AlertSilence
begin

text \<open>
  The table of the datasources (pages/datasources.js): the list as the server filters it, its order, the numbers
  of the last measurement beside each row, the badge of the connection, and the menu of a row, which is placed
  beside its button and closed by the next click.  \<open>tr\<close> is the catalog of texts; fields of the metrics are those
  of the server, and a datasource has no id that is a name of \<^verbatim>\<open>Object.prototype\<close>.
\<close>

section \<open>The order of the rows\<close>

definition metric_columns :: "string list" where
  "metric_columns = [''cpu_usage'', ''qps'', ''connections_active'']"

definition metrics_of :: "js \<Rightarrow> js \<Rightarrow> js" where
  "metrics_of latest ds = js_or (field latest (js_string (field ds ''id''))) (JObj [])"

definition sort_value :: "js \<Rightarrow> string \<Rightarrow> js \<Rightarrow> js" where
  "sort_value latest column ds =
     (if column \<in> set metric_columns then field (metrics_of latest ds) column else field ds column)"

definition compare_datasources :: "js \<Rightarrow> string \<times> direction \<Rightarrow> js \<Rightarrow> js \<Rightarrow> rat" where
  "compare_datasources latest = (\<lambda>(column, d) a b. compare_values d (sort_value latest column a) (sort_value latest column b))"

definition apply_sort :: "js \<Rightarrow> string \<times> direction \<Rightarrow> js list \<Rightarrow> js list" where
  "apply_sort latest ord xs = js_sort (compare_datasources latest ord) xs"

section \<open>The page\<close>

text \<open>The filters typed, and what is asked of the server for them.\<close>

record ds_filters =
  df_name :: string
  df_tags :: string
  df_type :: string

definition filter_params :: "ds_filters \<Rightarrow> (string \<times> string) list" where
  "filter_params f =
     filter (\<lambda>(_, v). v \<noteq> []) [(''q'', trim (df_name f)), (''tags'', trim (df_tags f)), (''db_type'', df_type f)]"

text \<open>
  The page: the datasources, the same in the order of the table, the last metrics, the order chosen, whether
  there is a table, the rows it shows, each with the metrics it was drawn with, and whether a filter is to be
  applied when typing pauses.
\<close>

record ds_page =
  dp_all :: "js list"
  dp_filtered :: "js list"
  dp_latest :: js
  dp_order :: "string \<times> direction"
  dp_table :: bool
  dp_rows :: "(js \<times> js) list"
  dp_pending :: bool

definition initial_page :: ds_page where
  "initial_page = \<lparr>dp_all = [], dp_filtered = [], dp_latest = JObj [], dp_order = (''name'', Asc), dp_table = False,
     dp_rows = [], dp_pending = False\<rparr>"

definition render_table :: "ds_page \<Rightarrow> ds_page" where
  "render_table p = (if dp_table p then p\<lparr>dp_rows := map (\<lambda>d. (d, metrics_of (dp_latest p) d)) (dp_filtered p)\<rparr> else p)"

definition take_list :: "js list \<Rightarrow> ds_page \<Rightarrow> ds_page" where
  "take_list ds p = p\<lparr>dp_all := ds, dp_filtered := apply_sort (dp_latest p) (dp_order p) ds\<rparr>"

text \<open>\<open>render()\<close> when the list has come; without datasources there is a message and no table.\<close>

definition page_rendered :: "js list \<Rightarrow> ds_page \<Rightarrow> ds_page" where
  "page_rendered ds p =
     (let p1 = take_list ds p
      in if ds = [] then p1\<lparr>dp_table := False, dp_rows := []\<rparr> else render_table (p1\<lparr>dp_table := True\<rparr>))"

text \<open>Typing in a filter starts a pause; when it ends the list is asked for, and comes.\<close>

definition apply_filters :: "ds_page \<Rightarrow> ds_page" where
  "apply_filters p = p\<lparr>dp_pending := True\<rparr>"

definition filter_pause_over :: "ds_filters \<Rightarrow> ds_page \<Rightarrow> ds_page \<times> (string \<times> string) list option" where
  "filter_pause_over f p = (if dp_pending p then (p\<lparr>dp_pending := False\<rparr>, Some (filter_params f)) else (p, None))"

definition filtered_arrived :: "js list \<Rightarrow> ds_page \<Rightarrow> ds_page" where
  "filtered_arrived ds p = render_table (take_list ds p)"

definition metrics_arrived :: "js \<Rightarrow> ds_page \<Rightarrow> ds_page" where
  "metrics_arrived m p = render_table (p\<lparr>dp_latest := m\<rparr>)"

definition click_column :: "string \<Rightarrow> ds_page \<Rightarrow> ds_page" where
  "click_column column p =
     (let ord = toggle_order column (dp_order p)
      in render_table (p\<lparr>dp_order := ord, dp_filtered := apply_sort (dp_latest p) ord (dp_filtered p)\<rparr>))"

section \<open>A row\<close>

text \<open>\<^verbatim>\<open>statusMap[status] || statusMap.unknown\<close>: icon, name of the label, class, and default title.\<close>

definition status_map :: "(string \<times> nat list \<times> string \<times> string \<times> string) list" where
  "status_map =
     [(''normal'', [226, 156, 147], ''healthy'', ''badge-success'', ''connectionHealthy''),
      (''failed'', [226, 156, 151], ''failed'', ''badge-danger'', ''connectionFailed''),
      (''warning'', [226, 154, 160], ''warning'', ''badge-warning'', ''connectionWarning''),
      (''unknown'', [226, 151, 139], ''unknown'', ''badge-secondary'', ''noMonitoringData'')]"

definition status_entry :: "string \<Rightarrow> nat list \<times> string \<times> string \<times> string" where
  "status_entry status =
     (case map_of status_map status of Some e \<Rightarrow> e | None \<Rightarrow> ([226, 151, 139], ''unknown'', ''badge-secondary'', ''noMonitoringData''))"

text \<open>The title is the error of the connection, when there is one; it is written between double quotes as it is.\<close>

definition status_badge :: "(string \<Rightarrow> string) \<Rightarrow> js \<Rightarrow> string" where
  "status_badge tr ds =
     (case status_entry (js_string (js_or (field ds ''connection_status'') (JStr ''unknown''))) of
        (icon, label, cls, title) \<Rightarrow>
          (let q = [CHR 0x22];
               message = js_string (js_or (js_or (field ds ''connection_error'') (JStr [])) (JStr (tr title)))
           in ''<span class='' @ q @ ''badge '' @ cls @ q @ '' title='' @ q @ message @ q @ '' style='' @ q @ ''cursor:help'' @ q @ ''>''
                @ map char_of icon @ '' '' @ tr label @ ''</span>''))"

definition metric_color :: "js \<Rightarrow> string" where
  "metric_color v =
     (if nullish v then []
      else if num_ge (to_number v) (Fin 90) then ''text-danger''
      else if num_ge (to_number v) (Fin 80) then ''text-warning''
      else [])"

text \<open>The cells of a row; \<^verbatim>\<open>toFixed\<close> throws on what is not a number.\<close>

definition fixed_or_dash :: "js \<Rightarrow> string \<Rightarrow> string option" where
  "fixed_or_dash v unit =
     (if nullish v then Some ''-'' else case v of JNum n \<Rightarrow> Some (to_fixed 1 n @ unit) | _ \<Rightarrow> None)"

definition metric_cells :: "js \<Rightarrow> (string \<times> string \<times> string \<times> string) option" where
  "metric_cells m =
     (case (fixed_or_dash (field m ''cpu_usage'') ''%'', fixed_or_dash (field m ''qps'') []) of
        (Some cpu, Some qps) \<Rightarrow>
          Some (metric_color (field m ''cpu_usage''), cpu, qps,
                if nullish (field m ''connections_active'') then ''-'' else js_string (field m ''connections_active''))
      | _ \<Rightarrow> None)"

datatype menu_item = InstanceDetails | EditDatasource | RunInspection | TestConnection | InspectionConfig
  | SilenceAlerts | AdjustSilence | CancelSilence | DeleteDatasource

definition menu_items :: "bool \<Rightarrow> menu_item list" where
  "menu_items silenced =
     [InstanceDetails, EditDatasource, RunInspection, TestConnection, InspectionConfig]
       @ (if silenced then [AdjustSilence, CancelSilence] else [SilenceAlerts]) @ [DeleteDatasource]"

definition is_danger :: "menu_item \<Rightarrow> bool" where
  "is_danger i \<longleftrightarrow> i = CancelSilence \<or> i = DeleteDatasource"

section \<open>The menu of a row\<close>

text \<open>The rectangle of the button, the size of the menu and of the window, in pixels.\<close>

record geometry =
  ge_top :: rat
  ge_bottom :: rat
  ge_right :: rat
  ge_menu_width :: rat
  ge_menu_height :: rat
  ge_window_width :: rat
  ge_window_height :: rat

definition menu_place :: "geometry \<Rightarrow> rat \<times> rat" where
  "menu_place g =
     (let w = (if ge_menu_width g = 0 then 180 else ge_menu_width g);
          h = (if ge_menu_height g = 0 then 260 else ge_menu_height g);
          left = ge_right g - w;
          top = ge_bottom g + 4;
          resolved_top = (if top + h \<le> ge_window_height g - 8 then top else max 8 (ge_top g - h - 4));
          resolved_left = min (ge_window_width g - w - 8) (max 8 left)
      in (resolved_top, resolved_left))"

text \<open>The menus that are open, and those whose closing waits for the next click, in the order they were opened.\<close>

record menus =
  mn_open :: "(int \<times> rat \<times> rat) list"
  mn_closers :: "int list"

definition toggle_more_menu :: "int \<Rightarrow> geometry \<Rightarrow> menus \<Rightarrow> menus" where
  "toggle_more_menu i g m =
     (if i \<in> fst ` set (mn_open m) then m\<lparr>mn_open := []\<rparr>
      else m\<lparr>mn_open := [(i, menu_place g)], mn_closers := mn_closers m @ [i]\<rparr>)"

text \<open>The listeners of the document run first, and remove themselves.\<close>

definition run_closers :: "menus \<Rightarrow> menus" where
  "run_closers m = \<lparr>mn_open = filter (\<lambda>e. fst e \<notin> set (mn_closers m)) (mn_open m), mn_closers = []\<rparr>"

definition click_menu_button :: "int \<Rightarrow> geometry \<Rightarrow> menus \<Rightarrow> menus" where
  "click_menu_button i g m = toggle_more_menu i g (run_closers m)"

definition click_elsewhere :: "menus \<Rightarrow> menus" where
  "click_elsewhere m = run_closers m"

datatype menu_click = MenuButton int geometry | Elsewhere

fun menu_step :: "menus \<Rightarrow> menu_click \<Rightarrow> menus" where
  "menu_step m (MenuButton i g) = click_menu_button i g m"
| "menu_step m Elsewhere = click_elsewhere m"

definition no_menus :: menus where
  "no_menus = \<lparr>mn_open = [], mn_closers = []\<rparr>"

section \<open>The table is in order\<close>

lemma apply_sort_values:
  "apply_sort latest (c, d) xs = js_sort (\<lambda>a b. compare_values d (sort_value latest c a) (sort_value latest c b)) xs"
  by (simp add: apply_sort_def compare_datasources_def)



text \<open>
  Metrics that arrive are shown in the rows and do not move them: a table sorted by the load shows the order of
  the load before, until the user sorts again.
\<close>

theorem metrics_do_not_reorder:
  "map fst (dp_rows (metrics_arrived m (p\<lparr>dp_table := True\<rparr>))) = dp_filtered p
   \<and> dp_order (metrics_arrived m p) = dp_order p
   \<and> (let d = (\<lambda>i. JObj [(''id'', JInt i)]); cpu = (\<lambda>x. JObj [(''cpu_usage'', JInt x)]);
          p = metrics_arrived (JObj [(''1'', cpu 90), (''2'', cpu 10)])
                (click_column ''cpu_usage'' (click_column ''cpu_usage''
                  (metrics_arrived (JObj [(''1'', cpu 20), (''2'', cpu 50)]) (page_rendered [d 1, d 2] initial_page))))
      in dp_order p = (''cpu_usage'', Desc) \<and> dp_rows p = [(d 2, cpu 10), (d 1, cpu 90)])"
proof (intro conjI)
  show "map fst (dp_rows (metrics_arrived m (p\<lparr>dp_table := True\<rparr>))) = dp_filtered p"
    by (simp add: metrics_arrived_def render_table_def comp_def)
  show "dp_order (metrics_arrived m p) = dp_order p"
    by (simp add: metrics_arrived_def render_table_def)
qed code_simp

section \<open>The menu\<close>

text \<open>
  A menu that fits between the margins of the window is placed there: its left and right edges always, and its
  bottom edge when it opens downwards or the button itself is in the window; its top edge when there is room
  above or below the button.
\<close>

theorem menu_in_window:
  assumes "0 < ge_menu_width g" and "0 < ge_menu_height g" and "ge_menu_width g + 16 \<le> ge_window_width g"
    and "0 \<le> ge_top g" and "ge_top g \<le> ge_bottom g" and "menu_place g = (t, l)"
  shows "8 \<le> l \<and> l + ge_menu_width g \<le> ge_window_width g - 8 \<and> 4 \<le> t
    \<and> (ge_menu_height g + 16 \<le> ge_window_height g \<and> ge_top g \<le> ge_window_height g \<longrightarrow> t + ge_menu_height g \<le> ge_window_height g - 4)"
  using assms by (auto simp: menu_place_def Let_def split: if_splits)

theorem menu_in_window_witness:
  "menu_place \<lparr>ge_top = 500, ge_bottom = 530, ge_right = 100, ge_menu_width = 180, ge_menu_height = 260,
       ge_window_width = 1000, ge_window_height = 600\<rparr> = (236, 8) \<and> 8 \<le> (8 :: rat) \<and> (8 :: rat) + 180 \<le> 1000 - 8"
proof -
  let ?g = "\<lparr>ge_top = 500, ge_bottom = 530, ge_right = 100, ge_menu_width = 180, ge_menu_height = 260,
       ge_window_width = 1000, ge_window_height = 600\<rparr>"
  have e: "menu_place ?g = (236, 8)" by (simp add: menu_place_def)
  show ?thesis using menu_in_window [of ?g, OF _ _ _ _ _ e] e by simp
qed

definition closable :: "menus \<Rightarrow> bool" where
  "closable m \<longleftrightarrow> fst ` set (mn_open m) \<subseteq> set (mn_closers m)"

lemma menus_closable: "closable (foldl menu_step no_menus es)"
proof (induction es rule: rev_induct)
  case (snoc e es)
  then show ?case
    by (cases e) (auto simp: closable_def click_menu_button_def toggle_more_menu_def run_closers_def click_elsewhere_def)
qed (simp add: closable_def no_menus_def)

text \<open>
  The button that opened a menu does not close it: the listener that closes it on the next click runs before the
  one of the button, which then finds it closed and opens it again. A click anywhere else closes it.
\<close>

theorem menu_button_reopens:
  "(let m = foldl menu_step no_menus (es @ [MenuButton i g])
    in mn_open m = [(i, menu_place g)] \<and> mn_open (menu_step m (MenuButton i g)) = [(i, menu_place g)]
     \<and> mn_open (menu_step m Elsewhere) = [])"
  using menus_closable [of es]
  by (auto simp: click_menu_button_def toggle_more_menu_def run_closers_def click_elsewhere_def closable_def Let_def)

section \<open>The badge of a connection\<close>

text \<open>What a browser takes for the title of a badge: what stands between the second pair of quotes.\<close>

definition after_quote :: "string \<Rightarrow> string" where
  "after_quote s = drop 1 (dropWhile (\<lambda>c. c \<noteq> CHR 0x22) s)"

definition badge_title :: "string \<Rightarrow> string" where
  "badge_title html = takeWhile (\<lambda>c. c \<noteq> CHR 0x22) (after_quote (after_quote (after_quote html)))"

lemma after_quote_append: "CHR 0x22 \<notin> set a \<Longrightarrow> after_quote (a @ CHR 0x22 # b) = b"
  by (induction a) (auto simp: after_quote_def)

lemma takeWhile_quote: "takeWhile (\<lambda>c. c \<noteq> CHR 0x22) (a @ CHR 0x22 # b) = takeWhile (\<lambda>c. c \<noteq> CHR 0x22) a"
  by (induction a) auto

lemma entry_class_plain: "status_entry s = (icon, label, cls, title) \<Longrightarrow> CHR 0x22 \<notin> set cls"
  by (auto simp: status_entry_def status_map_def split: if_splits)

text \<open>
  The error of a connection is cut in the tooltip of its badge where it quotes a name: the text is not escaped,
  and the quote ends the attribute.
\<close>

theorem connection_error_cut:
  assumes "field ds ''connection_error'' = JStr e" and "e \<noteq> []"
  shows "badge_title (status_badge tr ds) = takeWhile (\<lambda>c. c \<noteq> CHR 0x22) e"
proof -
  obtain icon label cls title where st: "status_entry (js_string (js_or (field ds ''connection_status'') (JStr ''unknown'')))
      = (icon, label, cls, title)" by (cases "status_entry (js_string (js_or (field ds ''connection_status'') (JStr ''unknown'')))") auto
  let ?rest = "'' style='' @ [CHR 0x22] @ ''cursor:help'' @ [CHR 0x22] @ ''>'' @ map char_of icon @ '' '' @ tr label @ ''</span>''"
  have b: "status_badge tr ds = ''<span class='' @ CHR 0x22 # (''badge '' @ cls) @ CHR 0x22 # '' title='' @ CHR 0x22 # e @ CHR 0x22 # ?rest"
    using assms st by (simp add: status_badge_def Let_def js_or_def)
  have "CHR 0x22 \<notin> set (''badge '' @ cls)" using entry_class_plain [OF st] by simp
  moreover have "CHR 0x22 \<notin> set ''<span class=''" "CHR 0x22 \<notin> set '' title=''" by simp_all
  ultimately show ?thesis unfolding b badge_title_def by (simp only: after_quote_append takeWhile_quote simp_thms)
qed

theorem connection_error_cut_witness:
  "badge_title (status_badge (\<lambda>s. s) (JObj [(''connection_error'', JStr (''no user '' @ [CHR 0x22] @ ''x'' @ [CHR 0x22]))])) = ''no user ''"
  using connection_error_cut [of "JObj [(''connection_error'', JStr (''no user '' @ [CHR 0x22] @ ''x'' @ [CHR 0x22]))]"
      "''no user '' @ [CHR 0x22] @ ''x'' @ [CHR 0x22]"] by simp

end
