(* ===== verification/DatePicker.thy ===== *)
theory DatePicker
  imports Calendar
begin

text \<open>
  \<^verbatim>\<open>frontend/js/components/date-picker.js\<close>: reading and writing the value of a date input, the state
  of a picker and its handlers, and the calendar grid. A local time is a number of minutes since
  the start of 1 January 1970 on the local calendar; the local clock is taken to have no gaps. The
  current time is an argument.
\<close>

section \<open>Values\<close>

text \<open>\<^verbatim>\<open>new Date(y, m, d, h, mi)\<close>: two-digit years are years of the twentieth century.\<close>

definition local_time :: "int \<Rightarrow> int \<Rightarrow> int \<Rightarrow> int \<Rightarrow> int \<Rightarrow> int" where
  "local_time y m d h mi = make_day (if 0 \<le> y \<and> y \<le> 99 then 1900 + y else y) m d * 1440 + h * 60 + mi"

definition full_year :: "int \<Rightarrow> int" where "full_year t = fst (civil_of_day (t div 1440))"
definition month_of :: "int \<Rightarrow> int" where "month_of t = fst (snd (civil_of_day (t div 1440)))"
definition date_of :: "int \<Rightarrow> int" where "date_of t = snd (snd (civil_of_day (t div 1440)))"
definition hours_of :: "int \<Rightarrow> int" where "hours_of t = t mod 1440 div 60"
definition minutes_of :: "int \<Rightarrow> int" where "minutes_of t = t mod 60"

definition digits_at :: "nat \<Rightarrow> nat \<Rightarrow> string \<Rightarrow> bool" where
  "digits_at i n s \<longleftrightarrow> length (take n (drop i s)) = n \<and> list_all is_digit (take n (drop i s))"

definition num_at :: "nat \<Rightarrow> nat \<Rightarrow> string \<Rightarrow> int" where
  "num_at i n s = int (nat_of_str (take n (drop i s)))"

definition date_shape :: "string \<Rightarrow> bool" where
  "date_shape s \<longleftrightarrow> digits_at 0 4 s \<and> take 1 (drop 4 s) = ''-'' \<and> digits_at 5 2 s \<and> take 1 (drop 7 s) = ''-''
     \<and> digits_at 8 2 s
     \<and> (length s = 10 \<or> length s = 16 \<and> take 1 (drop 10 s) = ''T'' \<and> digits_at 11 2 s
          \<and> take 1 (drop 13 s) = '':'' \<and> digits_at 14 2 s)"

definition parse_value :: "string \<Rightarrow> int option" where
  "parse_value s =
     (if \<not> date_shape s then None
      else (let y = num_at 0 4 s; m = num_at 5 2 s - 1; d = num_at 8 2 s;
                t = local_time y m d (if length s = 16 then num_at 11 2 s else 0)
                      (if length s = 16 then num_at 14 2 s else 0)
            in if full_year t \<noteq> y \<or> month_of t \<noteq> m \<or> date_of t \<noteq> d then None else Some t))"

definition pad2 :: "int \<Rightarrow> string" where
  "pad2 v = pad_start 2 (CHR ''0'') (str_of_int v)"

definition serialize :: "int \<Rightarrow> bool \<Rightarrow> string" where
  "serialize t include_time =
     (let date_part = str_of_int (full_year t) @ ''-'' @ pad2 (month_of t + 1) @ ''-'' @ pad2 (date_of t)
      in if include_time then date_part @ ''T'' @ pad2 (hours_of t) @ '':'' @ pad2 (minutes_of t) else date_part)"

definition same_day :: "int \<Rightarrow> int option \<Rightarrow> bool" where
  "same_day a b \<longleftrightarrow> (case b of Some b' \<Rightarrow> full_year a = full_year b' \<and> month_of a = month_of b' \<and> date_of a = date_of b'
     | None \<Rightarrow> False)"

section \<open>The picker\<close>

record picker =
  dp_time :: bool
  dp_value :: string
  dp_locked :: bool
  dp_min :: string
  dp_max :: string
  dp_open :: bool
  dp_view :: int
  dp_draft :: "int option"
  dp_fired :: nat

definition picker_new :: "int \<Rightarrow> bool \<Rightarrow> string \<Rightarrow> bool \<Rightarrow> string \<Rightarrow> string \<Rightarrow> picker" where
  "picker_new now time v locked mn mx =
     \<lparr>dp_time = time, dp_value = v, dp_locked = locked, dp_min = mn, dp_max = mx, dp_open = False,
      dp_view = (case parse_value v of Some t \<Rightarrow> t | None \<Rightarrow> now), dp_draft = parse_value v, dp_fired = 0\<rparr>"

definition picker_sync :: "picker \<Rightarrow> picker" where
  "picker_sync p = (case parse_value (dp_value p) of Some t \<Rightarrow> p\<lparr>dp_view := t\<rparr> | None \<Rightarrow> p)"

definition picker_set_value :: "string \<Rightarrow> picker \<Rightarrow> picker" where
  "picker_set_value v p = picker_sync (p\<lparr>dp_value := v\<rparr>)"

definition picker_close :: "picker \<Rightarrow> picker" where
  "picker_close p = p\<lparr>dp_open := False\<rparr>"

text \<open>Opening closes every other picker of the page.\<close>

definition picker_open_at :: "nat \<Rightarrow> int \<Rightarrow> picker list \<Rightarrow> picker list" where
  "picker_open_at i now ps =
     (let p = ps ! i; selected = parse_value (dp_value p) in
      if dp_locked p then ps
      else (map picker_close ps)[i := p\<lparr>dp_draft := selected,
              dp_view := (case selected of Some t \<Rightarrow> t | None \<Rightarrow> now), dp_open := True\<rparr>])"

definition picker_toggle_at :: "nat \<Rightarrow> int \<Rightarrow> picker list \<Rightarrow> picker list" where
  "picker_toggle_at i now ps =
     (if dp_open (ps ! i) then ps[i := picker_close (ps ! i)] else picker_open_at i now ps)"

definition picker_day_disabled :: "picker \<Rightarrow> int \<Rightarrow> bool" where
  "picker_day_disabled p t =
     (let key = serialize t False; mn = take 10 (dp_min p); mx = take 10 (dp_max p)
      in mn \<noteq> [] \<and> str_less key mn \<or> mx \<noteq> [] \<and> str_less mx key)"

definition picker_commit :: "int option \<Rightarrow> picker \<Rightarrow> picker" where
  "picker_commit d p =
     picker_close (picker_sync (p\<lparr>dp_value := (case d of Some t \<Rightarrow> serialize t (dp_time p) | None \<Rightarrow> []),
                                 dp_fired := dp_fired p + 2\<rparr>))"

definition picker_time_source :: "int \<Rightarrow> picker \<Rightarrow> int" where
  "picker_time_source now p =
     (case dp_draft p of Some t \<Rightarrow> t | None \<Rightarrow> (case parse_value (dp_value p) of Some t \<Rightarrow> t | None \<Rightarrow> now))"

definition picker_select_day :: "int \<Rightarrow> int \<Rightarrow> picker \<Rightarrow> picker" where
  "picker_select_day now day p =
     (let t = day * 1440 + picker_time_source now p mod 1440; p' = p\<lparr>dp_draft := Some t\<rparr>
      in if dp_time p then p' else picker_commit (Some t) p')"

text \<open>\<^verbatim>\<open>setDate(1); setMonth(getMonth() + k)\<close>\<close>

definition picker_move_month :: "int \<Rightarrow> picker \<Rightarrow> picker" where
  "picker_move_month k p =
     p\<lparr>dp_view := make_day (full_year (dp_view p)) (month_of (dp_view p) + k) 1 * 1440 + dp_view p mod 1440\<rparr>"

record day_cell =
  dc_day :: int
  dc_label :: string
  dc_outside :: bool
  dc_today :: bool
  dc_selected :: bool
  dc_disabled :: bool

definition grid_start :: "bool \<Rightarrow> int \<Rightarrow> int" where
  "grid_start monday view =
     (let start = local_time (full_year view) (month_of view) 1 0 0 div 1440;
          first_day = (if monday then 1 else 0)
      in start - (weekday start - first_day + 7) mod 7)"

text \<open>\<open>monday\<close>: the locale is not \<^verbatim>\<open>en-US\<close>.\<close>

definition picker_grid :: "bool \<Rightarrow> int \<Rightarrow> picker \<Rightarrow> day_cell list" where
  "picker_grid monday now p =
     map (\<lambda>i. let day = grid_start monday (dp_view p) + int i; t = day * 1440 in
           \<lparr>dc_day = day, dc_label = str_of_int (date_of t),
            dc_outside = (month_of t \<noteq> month_of (dp_view p)),
            dc_today = same_day t (Some now), dc_selected = same_day t (dp_draft p),
            dc_disabled = picker_day_disabled p t\<rparr>) [0 ..< 42]"

text \<open>The time fields clamp what is typed (a text that is no number is 0).\<close>

definition clamp_field :: "int \<Rightarrow> rat option \<Rightarrow> int" where
  "clamp_field mx v = \<lfloor>max 0 (min (of_int mx) (case v of Some q \<Rightarrow> q | None \<Rightarrow> 0))\<rfloor>"

definition picker_set_hour :: "int \<Rightarrow> rat option \<Rightarrow> picker \<Rightarrow> picker" where
  "picker_set_hour now v p =
     (let t = picker_time_source now p
      in p\<lparr>dp_draft := Some (t div 1440 * 1440 + clamp_field 23 v * 60 + minutes_of t)\<rparr>)"

definition picker_set_minute :: "int \<Rightarrow> rat option \<Rightarrow> picker \<Rightarrow> picker" where
  "picker_set_minute now v p =
     (let t = picker_time_source now p
      in p\<lparr>dp_draft := Some (t div 60 * 60 + clamp_field 59 v)\<rparr>)"

definition picker_today :: "int \<Rightarrow> picker \<Rightarrow> picker" where
  "picker_today now p =
     (if dp_time p then p\<lparr>dp_draft := Some now, dp_view := now\<rparr> else picker_commit (Some now) p)"

definition picker_clear :: "picker \<Rightarrow> picker" where
  "picker_clear p = picker_commit None p"

definition picker_apply :: "picker \<Rightarrow> picker" where
  "picker_apply p = (case dp_draft p of Some t \<Rightarrow> picker_commit (Some t) p | None \<Rightarrow> p)"

definition picker_destroy_at :: "nat \<Rightarrow> picker list \<Rightarrow> picker list" where
  "picker_destroy_at i ps = take i ps @ drop (Suc i) ps"

section \<open>Runs of the pickers of a page\<close>

text \<open>A handler of the popover runs on an open picker; a day is clicked only when it is enabled.\<close>

inductive popover_step :: "int \<Rightarrow> picker \<Rightarrow> picker \<Rightarrow> bool" for now where
  month: "k = 1 \<or> k = -1 \<Longrightarrow> popover_step now p (picker_move_month k p)"
| day: "c \<in> set (picker_grid monday now p) \<Longrightarrow> \<not> dc_disabled c \<Longrightarrow> popover_step now p (picker_select_day now (dc_day c) p)"
| hour: "popover_step now p (picker_set_hour now v p)"
| minute: "popover_step now p (picker_set_minute now v p)"
| today: "popover_step now p (picker_today now p)"
| clear: "popover_step now p (picker_clear p)"
| cancel: "popover_step now p (picker_close p)"
| apply_draft: "popover_step now p (picker_apply p)"

inductive pickers_step :: "picker list \<Rightarrow> picker list \<Rightarrow> bool" where
  enhance: "pickers_step ps (ps @ [picker_new now time v locked mn mx])"
| toggle: "i < length ps \<Longrightarrow> pickers_step ps (picker_toggle_at i now ps)"
| popover: "i < length ps \<Longrightarrow> dp_open (ps ! i) \<Longrightarrow> popover_step now (ps ! i) p \<Longrightarrow> pickers_step ps (ps[i := p])"
| set_val: "i < length ps \<Longrightarrow> pickers_step ps (ps[i := picker_set_value v (ps ! i)])"
| outside: "i < length ps \<Longrightarrow> pickers_step ps (ps[i := picker_close (ps ! i)])"
| destroy: "i < length ps \<Longrightarrow> pickers_step ps (picker_destroy_at i ps)"

inductive pickers_reach :: "picker list \<Rightarrow> bool" where
  start: "pickers_reach []"
| step: "pickers_reach ps \<Longrightarrow> pickers_step ps ps' \<Longrightarrow> pickers_reach ps'"

definition open_count :: "picker list \<Rightarrow> nat" where
  "open_count ps = length (filter dp_open ps)"

lemma picker_fields [simp]:
  "dp_open (picker_sync p) = dp_open p" "dp_open (picker_set_value v p) = dp_open p"
  "dp_open (picker_close p) = False" "dp_open (picker_commit d p) = False"
  "dp_open (picker_new now time v locked mn mx) = False" "dp_open (picker_move_month k p) = dp_open p"
  "dp_open (picker_set_hour now w p) = dp_open p" "dp_open (picker_set_minute now w p) = dp_open p"
  by (simp_all add: picker_sync_def picker_set_value_def picker_close_def picker_commit_def picker_new_def
      picker_move_month_def picker_set_hour_def picker_set_minute_def Let_def split: option.splits)

lemma open_count_split:
  "i < length ps \<Longrightarrow>
     open_count ps = open_count (take i ps) + (if dp_open (ps ! i) then 1 else 0) + open_count (drop (Suc i) ps)"
  using arg_cong [OF id_take_nth_drop [of i ps], of open_count] by (simp add: open_count_def)

lemma open_count_update:
  "i < length ps \<Longrightarrow>
     open_count (ps[i := p]) = open_count ps - (if dp_open (ps ! i) then 1 else 0) + (if dp_open p then 1 else 0)"
  using open_count_split [of i ps] by (simp add: open_count_def upd_conv_take_nth_drop)

lemma popover_keeps_closed: "popover_step now p p' \<Longrightarrow> dp_open p' \<longrightarrow> dp_open p"
  by (induction rule: popover_step.induct)
     (auto simp: picker_select_day_def picker_today_def picker_clear_def picker_apply_def Let_def
        split: option.splits if_splits)

lemma open_at_count: "i < length ps \<Longrightarrow> open_count (picker_open_at i now ps) \<le> max 1 (open_count ps)"
proof -
  assume i: "i < length ps"
  have "open_count (map picker_close ps) = 0" by (simp add: open_count_def filter_map comp_def)
  then show ?thesis
    using i open_count_update [of i "map picker_close ps"] by (simp add: picker_open_at_def Let_def)
qed

lemma open_count_step: "pickers_step ps ps' \<Longrightarrow> open_count ps' \<le> max 1 (open_count ps)"
proof (induction rule: pickers_step.induct)
  case (toggle i ps now)
  then show ?case
    using open_at_count open_count_update [of i ps "picker_close (ps ! i)"]
    by (auto simp: picker_toggle_at_def)
next
  case (popover i ps now p)
  then show ?case using popover_keeps_closed open_count_update [of i ps p] by auto
next
  case (destroy i ps)
  then show ?case
    using open_count_split [of i ps] by (simp add: picker_destroy_at_def open_count_def)
next
  case (set_val i ps v)
  then show ?case
    using open_count_split [of i ps] open_count_update [of i ps "picker_set_value v (ps ! i)"] by auto
next
  case (enhance ps now time v locked mn mx)
  then show ?case by (simp add: open_count_def)
qed (simp_all add: open_count_update)

section \<open>Properties\<close>

lemma pickers_reach_open: "pickers_reach ps \<Longrightarrow> open_count ps \<le> 1"
proof (induction rule: pickers_reach.induct)
  case start
  then show ?case by (simp add: open_count_def)
next
  case (step ps ps')
  then show ?case using open_count_step [of ps ps'] by simp
qed

text \<open>
  At most one date picker of a page is open, in whatever order pickers are created, opened, used,
  set from outside and destroyed.
\<close>

theorem one_picker_open: "pickers_reach ps \<Longrightarrow> length (filter dp_open ps) \<le> 1"
  using pickers_reach_open by (simp add: open_count_def)

definition two_pickers :: "picker list" where
  "two_pickers = picker_toggle_at 1 0 (picker_toggle_at 0 0 ([] @ [picker_new 0 False [] False [] []] @ [picker_new 0 True [] False [] []]))"

theorem one_picker_open_witness: "map dp_open two_pickers = [False, True] \<and> length (filter dp_open two_pickers) \<le> 1"
proof
  have "pickers_reach ([] @ [picker_new 0 False [] False [] []] @ [picker_new 0 True [] False [] []])"
    using pickers_reach.step [OF pickers_reach.step [OF pickers_reach.start pickers_step.enhance] pickers_step.enhance]
    by fastforce
  then have "pickers_reach two_pickers"
    unfolding two_pickers_def
    by (intro pickers_reach.step [OF pickers_reach.step [OF _ pickers_step.toggle] pickers_step.toggle])
       (simp_all add: picker_toggle_at_def picker_open_at_def Let_def)
  then show "length (filter dp_open two_pickers) \<le> 1" by (rule one_picker_open)
  show "map dp_open two_pickers = [False, True]"
    by (simp add: two_pickers_def picker_toggle_at_def picker_open_at_def picker_new_def picker_close_def Let_def)
qed

section \<open>Round trip of the input's value\<close>

lemma length_str_of_nat: "length (str_of_nat n) = (if n < 10 then 1 else Suc (length (str_of_nat (n div 10))))"
  by (subst str_of_nat.simps) simp

lemma year_digits: "1000 \<le> n \<Longrightarrow> n \<le> 9999 \<Longrightarrow> length (str_of_nat n) = 4"
proof -
  assume n: "1000 \<le> n" "n \<le> 9999"
  have "\<not> n < 10" "\<not> n div 10 < 10" "\<not> n div 10 div 10 < 10" "n div 10 div 10 div 10 < 10"
    using n by (simp_all add: div_mult2_eq [symmetric] div_less_iff_less_mult)
  then show "length (str_of_nat n) = 4"
    by (simp add: length_str_of_nat [of n] length_str_of_nat [of "n div 10"]
        length_str_of_nat [of "n div 10 div 10"] length_str_of_nat [of "n div 10 div 10 div 10"])
qed

lemma pad2_facts:
  assumes "0 \<le> v" "v < 100"
  shows "length (pad2 v) = 2" "list_all is_digit (pad2 v)" "int (nat_of_str (pad2 v)) = v"
proof -
  have v: "str_of_int v = str_of_nat (nat v)" "nat v < 100" using assms by (simp_all add: str_of_int_def)
  have "length (str_of_nat (nat v)) \<le> 2"
    using v(2) by (subst length_str_of_nat, simp, subst length_str_of_nat, simp)
  then show "length (pad2 v) = 2" by (simp add: pad2_def pad_start_def v(1))
  show "list_all is_digit (pad2 v)"
    using str_of_nat_digits [of "nat v"] by (auto simp: pad2_def pad_start_def v(1) list_all_iff is_digit_def char_code_def)
  show "int (nat_of_str (pad2 v)) = v"
    using assms by (simp add: pad2_def pad_start_def v(1) nat_of_str_pad)
qed

lemma short_shape:
  assumes "length Y = 4" "length M = 2" "length D = 2" "list_all is_digit Y" "list_all is_digit M" "list_all is_digit D"
  shows "date_shape (Y @ ''-'' @ M @ ''-'' @ D)" "length (Y @ ''-'' @ M @ ''-'' @ D) = 10"
    "num_at 0 4 (Y @ ''-'' @ M @ ''-'' @ D) = int (nat_of_str Y)"
    "num_at 5 2 (Y @ ''-'' @ M @ ''-'' @ D) = int (nat_of_str M)"
    "num_at 8 2 (Y @ ''-'' @ M @ ''-'' @ D) = int (nat_of_str D)"
  using assms by (simp_all add: date_shape_def digits_at_def num_at_def)

lemma long_shape:
  assumes "length Y = 4" "length M = 2" "length D = 2" "length H = 2" "length N = 2"
    "list_all is_digit Y" "list_all is_digit M" "list_all is_digit D" "list_all is_digit H" "list_all is_digit N"
  shows "date_shape (Y @ ''-'' @ M @ ''-'' @ D @ ''T'' @ H @ '':'' @ N)"
    "length (Y @ ''-'' @ M @ ''-'' @ D @ ''T'' @ H @ '':'' @ N) = 16"
    "num_at 0 4 (Y @ ''-'' @ M @ ''-'' @ D @ ''T'' @ H @ '':'' @ N) = int (nat_of_str Y)"
    "num_at 5 2 (Y @ ''-'' @ M @ ''-'' @ D @ ''T'' @ H @ '':'' @ N) = int (nat_of_str M)"
    "num_at 8 2 (Y @ ''-'' @ M @ ''-'' @ D @ ''T'' @ H @ '':'' @ N) = int (nat_of_str D)"
    "num_at 11 2 (Y @ ''-'' @ M @ ''-'' @ D @ ''T'' @ H @ '':'' @ N) = int (nat_of_str H)"
    "num_at 14 2 (Y @ ''-'' @ M @ ''-'' @ D @ ''T'' @ H @ '':'' @ N) = int (nat_of_str N)"
  using assms by (simp_all add: date_shape_def digits_at_def num_at_def)

lemma civil_fields:
  "make_day (full_year t) (month_of t) (date_of t) = t div 1440"
  "0 \<le> month_of t" "month_of t < 12" "1 \<le> date_of t" "date_of t \<le> 31"
proof -
  obtain y m d where c: "civil_of_day (t div 1440) = (y, m, d)" by (metis prod_cases3)
  note r = make_day_of_civil [OF c]
  have "month_lengths lp ! k \<le> 31" if "k < 12" for lp k
    using that by (cases lp) (auto simp: month_lengths_def less_Suc_eq numeral_eq_Suc)
  then have "days_in_month y m \<le> 31" using r by (simp add: days_in_month_def nat_less_iff)
  with r show "make_day (full_year t) (month_of t) (date_of t) = t div 1440"
    "0 \<le> month_of t" "month_of t < 12" "1 \<le> date_of t" "date_of t \<le> 31"
    by (auto simp: full_year_def month_of_def date_of_def c)
qed

lemma same_day_fields:
  "0 \<le> r \<Longrightarrow> r < 1440 \<Longrightarrow> full_year (t div 1440 * 1440 + r) = full_year t
     \<and> month_of (t div 1440 * 1440 + r) = month_of t \<and> date_of (t div 1440 * 1440 + r) = date_of t"
  by (simp add: full_year_def month_of_def date_of_def)

text \<open>
  The value of a date input survives the picker: reading back what the picker writes gives the time
  that was written, to the minute for a date-time input and to the day for a date input, for every year
  of four digits.
\<close>

theorem serialize_parse_roundtrip:
  assumes "1000 \<le> full_year t" and "full_year t \<le> 9999"
  shows "parse_value (serialize t True) = Some t \<and> parse_value (serialize t False) = Some (t div 1440 * 1440)"
proof -
  let ?Y = "str_of_int (full_year t)" and ?M = "pad2 (month_of t + 1)" and ?D = "pad2 (date_of t)"
    and ?H = "pad2 (hours_of t)" and ?N = "pad2 (minutes_of t)"
  have y: "?Y = str_of_nat (nat (full_year t))" using assms by (simp add: str_of_int_def)
  have Y: "length ?Y = 4" "list_all is_digit ?Y" "int (nat_of_str ?Y) = full_year t"
    using assms year_digits [of "nat (full_year t)"] str_of_nat_digits [of "nat (full_year t)"]
    by (simp_all add: y list_all_iff nat_le_iff le_nat_iff)
  note c = civil_fields [of t]
  have M: "length ?M = 2" "list_all is_digit ?M" "int (nat_of_str ?M) = month_of t + 1"
    using pad2_facts [of "month_of t + 1"] c by auto
  have D: "length ?D = 2" "list_all is_digit ?D" "int (nat_of_str ?D) = date_of t"
    using pad2_facts [of "date_of t"] c by auto
  have hm: "0 \<le> hours_of t" "hours_of t < 24" "0 \<le> minutes_of t" "minutes_of t < 60"
      "hours_of t * 60 + minutes_of t = t mod 1440"
  proof -
    have m: "0 \<le> t mod 1440" "t mod 1440 < 1440" by simp_all
    have r: "0 \<le> x \<Longrightarrow> x < 1440 \<Longrightarrow> 0 \<le> x div 60 \<and> x div 60 < (24::int)" for x by presburger
    have "minutes_of t = t mod 1440 mod 60" by (simp add: minutes_of_def mod_mod_cancel)
    then show "hours_of t * 60 + minutes_of t = t mod 1440" by (simp add: hours_of_def)
    show "0 \<le> hours_of t" "hours_of t < 24" "0 \<le> minutes_of t" "minutes_of t < 60"
      using m r [of "t mod 1440"] by (simp_all add: hours_of_def minutes_of_def)
  qed
  have H: "length ?H = 2" "list_all is_digit ?H" "int (nat_of_str ?H) = hours_of t"
    using pad2_facts [of "hours_of t"] hm by auto
  have N: "length ?N = 2" "list_all is_digit ?N" "int (nat_of_str ?N) = minutes_of t"
    using pad2_facts [of "minutes_of t"] hm by auto
  have l: "local_time (full_year t) (month_of t) (date_of t) h n = t div 1440 * 1440 + (h * 60 + n)" for h n
    using assms c(1) by (simp add: local_time_def)
  have "parse_value (serialize t False) = Some (t div 1440 * 1440)"
    using short_shape [OF Y(1) M(1) D(1) Y(2) M(2) D(2)] same_day_fields [of 0 t] l [of 0 0]
    unfolding parse_value_def serialize_def Let_def if_False
    by (simp only: Y(3) M(3) D(3) simp_thms if_True if_False) simp
  moreover have "parse_value (serialize t True) = Some t"
  proof -
    have t: "t div 1440 * 1440 + (hours_of t * 60 + minutes_of t) = t" unfolding hm(5) by simp
    have s: "serialize t True = ?Y @ ''-'' @ ?M @ ''-'' @ ?D @ ''T'' @ ?H @ '':'' @ ?N"
      by (simp add: serialize_def Let_def)
    show ?thesis
      using long_shape [OF Y(1) M(1) D(1) H(1) N(1) Y(2) M(2) D(2) H(2) N(2)]
        l [of "hours_of t" "minutes_of t"]
      unfolding parse_value_def s Let_def
      by (simp only: Y(3) M(3) D(3) H(3) N(3) t simp_thms if_True) simp
  qed
  ultimately show ?thesis by simp
qed

theorem serialize_parse_roundtrip_witness:
  "full_year 28401125 = 2024 \<and> parse_value (serialize 28401125 True) = Some 28401125"
proof -
  have y: "full_year 28401125 = 2024" by code_simp
  with serialize_parse_roundtrip [of 28401125] show ?thesis by simp
qed

section \<open>The grid\<close>

lemma grid_days: "map dc_day (picker_grid monday now p) = map (\<lambda>i. grid_start monday (dp_view p) + int i) [0 ..< 42]"
  by (simp add: picker_grid_def Let_def)

lemma count_ramp: "length (filter (\<lambda>i. s + int i = n) [0 ..< k]) = (if s \<le> n \<and> n < s + int k then 1 else 0)"
  by (induction k) auto

text \<open>
  The calendar page is complete: every day of the month on display is in exactly one of the 42 cells,
  the cells are consecutive days, and the first one is a Sunday for the English locale and a Monday
  otherwise.
\<close>

theorem grid_shows_month:
  assumes "100 \<le> full_year (dp_view p)"
    and "civil_of_day n = (full_year (dp_view p), month_of (dp_view p), d)"
  shows "length (filter (\<lambda>c. dc_day c = n) (picker_grid monday now p)) = 1
     \<and> map dc_day (picker_grid monday now p) = map (\<lambda>i. grid_start monday (dp_view p) + int i) [0 ..< 42]
     \<and> weekday (grid_start monday (dp_view p)) = (if monday then 1 else 0)"
proof -
  let ?s = "make_day (full_year (dp_view p)) (month_of (dp_view p)) 1" and ?f = "if monday then 1 else (0::int)"
  have gs: "grid_start monday (dp_view p) = ?s - (weekday ?s - ?f + 7) mod 7"
    using assms(1) by (simp add: grid_start_def local_time_def Let_def)
  have n: "n = ?s + (d - 1)" and d: "1 \<le> d" "d \<le> 31"
  proof -
    note r = make_day_of_civil [OF assms(2)]
    then show "n = ?s + (d - 1)" by (auto simp: make_day_def Let_def)
    show "1 \<le> d" using r by simp
    have "date_of (n * 1440) = d" by (simp add: date_of_def assms(2))
    then show "d \<le> 31" using civil_fields(5) [of "n * 1440"] by simp
  qed
  have m: "0 \<le> x mod 7 \<and> x mod 7 < 7" for x :: int by simp
  have "grid_start monday (dp_view p) \<le> n \<and> n < grid_start monday (dp_view p) + 42"
    using n d m [of "weekday ?s - ?f + 7"] unfolding gs by linarith
  then have "length (filter (\<lambda>i. grid_start monday (dp_view p) + int i = n) [0 ..< 42]) = 1"
    using count_ramp [of "grid_start monday (dp_view p)" n 42] by simp
  moreover have "length (filter (\<lambda>c. dc_day c = n) (picker_grid monday now p))
      = length (filter (\<lambda>i. grid_start monday (dp_view p) + int i = n) [0 ..< 42])"
    by (simp add: picker_grid_def Let_def filter_map comp_def)
  moreover have "weekday (grid_start monday (dp_view p)) = ?f"
    unfolding gs weekday_def by (cases monday) (simp_all, presburger+)
  ultimately show ?thesis using grid_days by simp
qed

theorem grid_shows_month_witness:
  "\<exists>p. dp_view p = 28401125 \<and> length (filter (\<lambda>c. dc_day c = 19752) (picker_grid True 0 p)) = 1"
proof -
  let ?p = "picker_new 28401125 False [] False [] []"
  have v: "dp_view ?p = 28401125" by (simp add: picker_new_def parse_value_def date_shape_def digits_at_def)
  have f: "full_year 28401125 = 2024" "month_of 28401125 = 0" "civil_of_day 19752 = (2024, 0, 30)" by code_simp+
  have "length (filter (\<lambda>c. dc_day c = 19752) (picker_grid True 0 ?p)) = 1"
    using grid_shows_month [of ?p 19752 30 True 0] unfolding v f by simp
  with v show ?thesis by blast
qed

text \<open>The button for today does not look at the input's limits.\<close>

lemma today_ignores_limits:
  "\<not> dp_time p \<Longrightarrow> picker_day_disabled p now \<Longrightarrow> dp_value (picker_today now p) = serialize now False"
  by (simp add: picker_today_def picker_commit_def picker_close_def picker_sync_def split: option.splits)

end
