(* ===== verification/HostMetrics.thy ===== *)
theory HostMetrics
  imports DatasourceTable Format
begin

text \<open>
  The numbers on the page of a host (pages/host-detail.js): sizes written with a unit, the capacity of the disks, the
  memory as the kernel prints it, the cards and charts of the monitor tab, and the table of the processes.  \<open>now\<close> is
  the clock; the age of a metric is in milliseconds, and none when its time cannot be read.
\<close>

section \<open>Sizes\<close>

definition picked_number :: "js \<Rightarrow> rat option" where
  "picked_number v = (case to_number v of Fin q \<Rightarrow> if q \<ge> 0 then Some q else None | _ \<Rightarrow> None)"

fun pick_first_numeric :: "js \<Rightarrow> string list \<Rightarrow> rat option" where
  "pick_first_numeric m [] = None"
| "pick_first_numeric m (k # ks) =
     (case picked_number (field m k) of Some q \<Rightarrow> Some q | None \<Rightarrow> pick_first_numeric m ks)"

definition host_percent :: "nat \<Rightarrow> js \<Rightarrow> string" where
  "host_percent digits v = (case to_number v of Fin q \<Rightarrow> to_fixed digits (Fin q) | _ \<Rightarrow> to_fixed digits (Fin 0))"

definition size_letters :: string where
  "size_letters = ''KMGTPE''"

text \<open>The exponent of the unit after a number, \<^verbatim>\<open>/\s*([kmgtpe]?)(i?b?)?$/i\<close>.\<close>

definition unit_rest :: "string \<Rightarrow> bool" where
  "unit_rest s \<longleftrightarrow> to_upper s \<in> {[], ''I'', ''B'', ''IB''}"

fun letter_index :: "char \<Rightarrow> string \<Rightarrow> nat option" where
  "letter_index c [] = None"
| "letter_index c (d # ds) = (if c = d then Some 0 else map_option Suc (letter_index c ds))"

definition unit_exponent :: "string \<Rightarrow> nat option" where
  "unit_exponent s =
     (case s of
        [] \<Rightarrow> Some 0
      | c # cs \<Rightarrow>
          (case letter_index (upper_char c) size_letters of
             Some k \<Rightarrow> if unit_rest cs then Some (Suc k) else None
           | None \<Rightarrow> if unit_rest s then Some 0 else None))"

definition numeral_char :: "char \<Rightarrow> bool" where
  "numeral_char c \<longleftrightarrow> is_digit c \<or> c = CHR ''.''"

definition parse_size :: "js \<Rightarrow> rat option" where
  "parse_size v =
     (let raw = trim (js_string v);
          digits = takeWhile numeral_char raw;
          rest = dropWhile is_ws (dropWhile numeral_char raw)
      in if nullish v \<or> digits = [] then None
         else case (unit_exponent rest, number_of_str digits) of
                (Some k, Fin q) \<Rightarrow> if q < 0 then None else Some (q * 1024 ^ k)
              | _ \<Rightarrow> None)"

definition valid_disk :: "js \<Rightarrow> (rat \<times> rat) option" where
  "valid_disk disk =
     (case (parse_size (field disk ''size''), parse_size (field disk ''used'')) of
        (Some t, Some u) \<Rightarrow> if t \<le> 0 \<or> u < 0 then None else Some (t, min u t)
      | _ \<Rightarrow> None)"

text \<open>Total and used bytes of all disks that can be read.\<close>

definition disk_capacity :: "js \<Rightarrow> (rat \<times> rat) option" where
  "disk_capacity config =
     (let ds = List.map_filter valid_disk (elements (field config ''disk''));
          t = sum_list (map fst ds); u = sum_list (map snd ds)
      in if ds = [] \<or> t \<le> 0 then None else Some (t, u))"

definition host_bytes :: "rat \<Rightarrow> string" where
  "host_bytes q =
     (if q = 0 then ''0 B''
      else if q < 0 then ''NaN undefined''
      else if 1 \<le> q then
        (let i = log1024_up q
         in to_fixed 2 (Fin (q / 1024 ^ i)) @ '' '' @ (if i < length size_units then size_units ! i else ''undefined''))
      else to_fixed 2 (Fin (q * 1024 ^ log1024_down q)) @ '' undefined'')"

section \<open>The tab of the configuration\<close>

text \<open>\<^verbatim>\<open>/(\d+)\s*kB/\<close>, the first match.\<close>

fun kb_match :: "string \<Rightarrow> string option" where
  "kb_match [] = None"
| "kb_match (c # cs) =
     (if is_digit c \<and> starts_with (dropWhile is_ws (dropWhile is_digit (c # cs))) ''kB''
      then Some (takeWhile is_digit (c # cs)) else kb_match cs)"

definition memory_bytes :: "js \<Rightarrow> string \<Rightarrow> rat" where
  "memory_bytes mem key =
     (case kb_match (js_string (js_or (field mem key) (JStr ''0''))) of
        Some ds \<Rightarrow> of_nat (nat_of_str ds) * 1024 | None \<Rightarrow> 0)"

record memory_info =
  mi_total :: rat
  mi_used :: rat
  mi_available :: rat
  mi_buffers :: rat
  mi_cached :: rat
  mi_percent :: string
  mi_swap_used :: rat
  mi_swap_total :: rat
  mi_swap_percent :: string

definition used_percent :: "rat \<Rightarrow> rat \<Rightarrow> string" where
  "used_percent used tot = (if tot > 0 then to_fixed 1 (Fin (used / tot * 100)) else ''0'')"

definition memory_of :: "js \<Rightarrow> memory_info" where
  "memory_of mem =
     (let t = memory_bytes mem ''MemTotal''; u = t - memory_bytes mem ''MemAvailable'';
          st = memory_bytes mem ''SwapTotal''; su = st - memory_bytes mem ''SwapFree''
      in \<lparr>mi_total = t, mi_used = u, mi_available = memory_bytes mem ''MemAvailable'',
          mi_buffers = memory_bytes mem ''Buffers'', mi_cached = memory_bytes mem ''Cached'', mi_percent = used_percent u t,
          mi_swap_used = su, mi_swap_total = st, mi_swap_percent = used_percent su st\<rparr>)"

text \<open>Days, hours and minutes of an uptime.\<close>

definition uptime_parts :: "nat \<Rightarrow> nat \<times> nat \<times> nat" where
  "uptime_parts s = (s div 86400, (s mod 86400) div 3600, (s mod 3600) div 60)"

section \<open>The state of a host\<close>

datatype host_state = HostUnknown | HostOffline | HostCritical | HostWarning | HostNormal

definition above :: "rat \<Rightarrow> js \<Rightarrow> bool" where
  "above limit metric \<longleftrightarrow>
     (\<exists>k \<in> {''cpu_usage'', ''memory_usage'', ''disk_usage''}. num_less (Fin limit) (to_number (field metric k)))"

definition host_state :: "int option \<Rightarrow> js \<Rightarrow> host_state" where
  "host_state age_ms metric =
     (if \<not> truthy metric then HostUnknown
      else if (case age_ms of Some a \<Rightarrow> a > 300000 | None \<Rightarrow> False) then HostOffline
      else if above 80 metric then HostCritical
      else if above 60 metric then HostWarning
      else HostNormal)"

definition host_state_icon :: "host_state \<Rightarrow> string" where
  "host_state_icon s =
     (if s = HostNormal then ''check-circle'' else if s = HostWarning then ''alert-triangle''
      else if s = HostCritical then ''alert-octagon'' else ''x-circle'')"

section \<open>The cards and the charts\<close>

definition memory_amount :: "js \<Rightarrow> string \<Rightarrow> string \<Rightarrow> rat option" where
  "memory_amount m bytes kb =
     (case pick_first_numeric m [bytes] of
        Some q \<Rightarrow> Some q | None \<Rightarrow> map_option (\<lambda>q. q * 1024) (pick_first_numeric m [kb]))"

record host_cards =
  hc_cpu :: string
  hc_memory :: "string \<times> rat option \<times> rat option"
  hc_disk :: "string \<times> rat option \<times> rat option"

text \<open>\<open>config\<close> is the configuration of the host, when it could be read; it is read only when the disk sizes are missing.\<close>

definition host_cards_of :: "js \<Rightarrow> js option \<Rightarrow> host_cards" where
  "host_cards_of metric config =
     (let m = js_or (field metric ''data'') (JObj []);
          t = pick_first_numeric m [''disk_total_bytes'', ''disk_total''];
          u = pick_first_numeric m [''disk_used_bytes'', ''disk_used''];
          cap = (if t = None \<or> u = None then (case config of Some c \<Rightarrow> disk_capacity c | None \<Rightarrow> None) else None)
      in \<lparr>hc_cpu = host_percent 1 (field metric ''cpu_usage''),
          hc_memory = (host_percent 1 (field metric ''memory_usage''), memory_amount m ''memory_used_bytes'' ''memory_used_kb'',
            memory_amount m ''memory_total_bytes'' ''memory_total_kb''),
          hc_disk = (host_percent 1 (field metric ''disk_usage''),
            (case u of Some q \<Rightarrow> Some q | None \<Rightarrow> map_option snd cap), (case t of Some q \<Rightarrow> Some q | None \<Rightarrow> map_option fst cap))\<rparr>)"

definition size_shown :: "(string \<Rightarrow> string) \<Rightarrow> rat option \<Rightarrow> string" where
  "size_shown tr v = (case v of Some q \<Rightarrow> host_bytes q | None \<Rightarrow> tr ''unknownValue'')"

text \<open>The lines of the charts: a canvas, and its lines, each over a field of the metric or of its data.\<close>

definition host_charts :: "(string \<times> (bool \<times> string) list) list" where
  "host_charts =
     [(''cpu-chart'', [(False, ''cpu_usage'')]), (''memory-chart'', [(False, ''memory_usage'')]),
      (''disk-chart'', [(False, ''disk_usage'')]), (''load-chart'', [(True, ''load_avg_1min'')]),
      (''disk-iops-chart'', [(True, ''disk_read_iops''), (True, ''disk_write_iops'')]),
      (''disk-io-chart'', [(True, ''disk_read_kb_per_sec''), (True, ''disk_write_kb_per_sec'')]),
      (''network-io-chart'', [(True, ''network_rx_kb_per_sec''), (True, ''network_tx_kb_per_sec'')])]"

definition chart_line :: "js list \<Rightarrow> bool \<times> string \<Rightarrow> js list" where
  "chart_line metrics = (\<lambda>(inner, key).
     map (\<lambda>m. js_or (field (if inner then field m ''data'' else m) key) (JInt 0)) metrics)"

definition monitor_charts :: "js list \<Rightarrow> (string \<times> js list list) list" where
  "monitor_charts metrics = map (\<lambda>(canvas, keys). (canvas, map (chart_line metrics) keys)) host_charts"

section \<open>Processes\<close>

type_synonym process_order = "string \<times> direction"

definition process_matches :: "string \<Rightarrow> js \<Rightarrow> bool" where
  "process_matches search p \<longleftrightarrow>
     includes_str (to_lower (js_string (field p ''command''))) (to_lower search)
   \<or> includes_str (to_lower (js_string (field p ''user''))) (to_lower search)"

text \<open>The comparison never answers zero.\<close>

definition compare_processes :: "process_order \<Rightarrow> js \<Rightarrow> js \<Rightarrow> rat" where
  "compare_processes = (\<lambda>(key, d) a b.
     (if js_less (field b key) (field a key) then 1 else -1) * (if d = Asc then 1 else -1))"

definition process_rows :: "string \<Rightarrow> process_order \<Rightarrow> js list \<Rightarrow> js list" where
  "process_rows search ord ps = js_sort (compare_processes ord) (filter (process_matches search) ps)"

definition toggle_process_order :: "string \<Rightarrow> process_order \<Rightarrow> process_order" where
  "toggle_process_order key = (\<lambda>(k, d). if k = key then (k, if d = Asc then Desc else Asc) else (key, Desc))"

section \<open>Sizes are read\<close>

lemma letters: "letter_index (upper_char c) size_letters = Some k \<Longrightarrow> k < 6"
proof -
  have "letter_index c s = Some k \<Longrightarrow> k < length s" for c s k
    by (induction s arbitrary: k) (auto split: if_splits)
  then show "letter_index (upper_char c) size_letters = Some k \<Longrightarrow> k < 6" by (fastforce simp: size_letters_def)
qed

lemma valid_disk_bounds: "valid_disk d = Some (t, u) \<Longrightarrow> 0 < t \<and> 0 \<le> u \<and> u \<le> t"
  by (auto simp: valid_disk_def split: option.splits if_splits)

text \<open>
  The capacity shown for a host whose metrics lack it: the used bytes lie between zero and the total, and both are
  missing together, whatever the list of disks contains.
\<close>

theorem disk_capacity_bounds:
  "case disk_capacity config of None \<Rightarrow> True | Some (t, u) \<Rightarrow> 0 \<le> u \<and> u \<le> t \<and> 0 < t"
proof -
  let ?ds = "List.map_filter valid_disk (elements (field config ''disk''))"
  have d: "0 \<le> snd x \<and> snd x \<le> fst x" if "x \<in> set ?ds" for x
    using that valid_disk_bounds [of _ "fst x" "snd x"] by (fastforce simp: List.map_filter_def)
  have "sum_list (map snd ?ds) \<le> sum_list (map fst ?ds)" using d by (intro sum_list_mono) auto
  moreover have "0 \<le> sum_list (map snd ?ds)" using d by (intro sum_list_nonneg) auto
  ultimately show ?thesis by (auto simp: disk_capacity_def Let_def not_le split: option.splits)
qed

text \<open>An uptime is the days, hours and minutes shown and less than a minute.\<close>

theorem uptime_shown:
  "case uptime_parts s of (d, h, m) \<Rightarrow> h < 24 \<and> m < 60 \<and> d * 86400 + h * 3600 + m * 60 \<le> s \<and> s < d * 86400 + h * 3600 + m * 60 + 60"
proof -
  have "(s mod 86400) mod 3600 = s mod 3600" by (simp add: mod_mod_cancel)
  then have "s = s div 86400 * 86400 + ((s mod 86400) div 3600 * 3600 + s mod 3600)"
    by (metis div_mult_mod_eq)
  moreover have "s mod 3600 = (s mod 3600) div 60 * 60 + (s mod 3600) mod 60" by simp
  moreover have "(s mod 3600) mod 60 < 60" by simp
  ultimately have "s div 86400 * 86400 + s mod 86400 div 3600 * 3600 + s mod 3600 div 60 * 60 \<le> s
      \<and> s < s div 86400 * 86400 + s mod 86400 div 3600 * 3600 + s mod 3600 div 60 * 60 + 60" by linarith
  moreover have "s mod 86400 div 3600 < 24" "s mod 3600 div 60 < 60" by (simp_all add: less_mult_imp_div_less)
  ultimately show ?thesis by (simp add: uptime_parts_def)
qed

lemma number_of_nat: "number_of_str (str_of_nat n) = Fin (of_nat n)"
  using number_of_str_int [of "int n"] by (simp add: str_of_int_def)

definition unit_texts :: "(string \<times> nat) list" where
  "unit_texts = ([], 0) # zip (map (\<lambda>c. [c]) size_letters) [1, 2, 3, 4, 5, 6]"

lemma units_written:
  "list_all (\<lambda>(u, k). list_all (\<lambda>b. unit_exponent (u @ b) = Some k
      \<and> (u @ b = [] \<or> (\<not> numeral_char (hd (u @ b)) \<and> \<not> is_ws (hd (u @ b)) \<and> \<not> is_ws (last (u @ b))))) [[], ''B'', ''iB'']) unit_texts"
  by code_simp

lemma unit_written:
  assumes "(u, k) \<in> set unit_texts" and "b \<in> {[], ''B'', ''iB''}"
  shows "unit_exponent (u @ b) = Some k" "u @ b = [] \<or> \<not> numeral_char (hd (u @ b)) \<and> \<not> is_ws (hd (u @ b))"
    "u @ b = [] \<or> \<not> is_ws (last (u @ b))"
proof -
  have "b \<in> set [[], ''B'', ''iB'']" using assms(2) by simp
  then have "unit_exponent (u @ b) = Some k
      \<and> (u @ b = [] \<or> (\<not> numeral_char (hd (u @ b)) \<and> \<not> is_ws (hd (u @ b)) \<and> \<not> is_ws (last (u @ b))))"
    using units_written assms(1) unfolding list_all_iff by blast
  then show "unit_exponent (u @ b) = Some k" "u @ b = [] \<or> \<not> numeral_char (hd (u @ b)) \<and> \<not> is_ws (hd (u @ b))"
    "u @ b = [] \<or> \<not> is_ws (last (u @ b))" by blast+
qed

text \<open>
  A size written as a whole number and a unit is that many bytes: with no unit, with one letter, and with B or iB
  after it; the units are powers of 1024.
\<close>

theorem size_read:
  assumes "(u, k) \<in> set unit_texts" and "b \<in> {[], ''B'', ''iB''}"
  shows "parse_size (JStr (str_of_nat n @ u @ b)) = Some (of_nat n * 1024 ^ k)"
proof -
  let ?s = "str_of_nat n" and ?r = "u @ b"
  have d: "\<forall>c \<in> set ?s. is_digit c" by (rule str_of_nat_digits)
  then have nd: "\<forall>c \<in> set ?s. numeral_char c" by (simp add: numeral_char_def)
  note w = unit_written [OF assms]
  have h: "hd (?s @ ?r) = hd ?s" by simp
  have l: "last (?s @ ?r) = (if ?r = [] then last ?s else last ?r)" by simp
  have "\<not> is_ws (hd ?s)" "\<not> is_ws (last ?s)" using str_of_nat_ends [of n] digit_not_ws by blast+
  then have t: "trim (?s @ ?r) = ?s @ ?r" using w(3) h l by (intro trim_plain) auto
  have tw: "takeWhile numeral_char (?s @ ?r) = ?s" "dropWhile numeral_char (?s @ ?r) = ?r"
    using nd w(2) by (cases ?r; simp)+
  have "dropWhile is_ws ?r = ?r" using w(2) by (cases ?r) simp_all
  then show ?thesis
    using w(1) by (simp add: parse_size_def t tw number_of_nat nullish_def Let_def)
qed

theorem size_read_witness: "parse_size (JStr (str_of_nat 20 @ ''G'' @ [])) = Some (20 * 1024 ^ 3)"
proof -
  have "(''G'', 3) \<in> set unit_texts" by (simp add: unit_texts_def size_letters_def)
  from size_read [OF this, of "[]" 20] show ?thesis by simp
qed

section \<open>Processes are in order, unless two are equal\<close>

lemma js_sort_cong_distinct:
  "distinct xs \<Longrightarrow> (\<And>x y. x \<in> set xs \<Longrightarrow> y \<in> set xs \<Longrightarrow> x \<noteq> y \<Longrightarrow> c x y = d x y) \<Longrightarrow> js_sort c xs = js_sort d xs"
proof (induction xs)
  case (Cons x xs)
  have "insert_by c x (js_sort d xs) = insert_by d x (js_sort d xs)"
    by (rule insert_by_cong) (use Cons.prems in auto)
  then show ?case using Cons by (simp add: js_sort_def)
qed (simp add: js_sort_def)

definition process_value :: "string \<Rightarrow> js \<Rightarrow> rat" where
  "process_value key p = (case field p key of JNum (Fin q) \<Rightarrow> q | _ \<Rightarrow> 0)"

definition numbered :: "string \<Rightarrow> js list \<Rightarrow> bool" where
  "numbered key ps \<longleftrightarrow> (\<forall>p \<in> set ps. \<exists>q. field p key = JNum (Fin q))"

lemma compare_numbered:
  assumes "numbered key ps" and "a \<in> set ps" and "b \<in> set ps"
  shows "compare_processes (key, d) a b
    = (if process_value key b < process_value key a then 1 else -1) * (if d = Asc then 1 else -1)"
proof -
  obtain qa qb where "field a key = JNum (Fin qa)" "field b key = JNum (Fin qb)"
    using assms unfolding numbered_def by blast
  then show ?thesis by (simp add: compare_processes_def js_less_def process_value_def)
qed

definition process_sign :: "string \<Rightarrow> direction \<Rightarrow> js \<Rightarrow> js \<Rightarrow> rat" where
  "process_sign key d a b =
     (if d = Asc then less_sign (\<lambda>a b. process_value key a < process_value key b) a b
      else less_sign (\<lambda>a b. process_value key a < process_value key b) b a)"

lemma comparator_process: "comparator (process_sign key d)"
proof -
  have "comparator (less_sign (\<lambda>a b. process_value key a < process_value key b))"
    by (rule comparator_less_sign) auto
  from this comparator_flip [OF this] show ?thesis unfolding process_sign_def by (cases d) simp_all
qed

text \<open>
  The table of the processes is in the order of the column chosen, when the processes found have numbers in it, all
  different; the comparison never answers that two are equal, and says of two equal ones that each comes first.
\<close>

theorem processes_sorted:
  assumes "numbered key ps" and "distinct (map (process_value key) (filter (process_matches search) ps))"
  shows "sorted_wrt (\<lambda>a b. if d = Asc then process_value key a \<le> process_value key b else process_value key b \<le> process_value key a)
      (process_rows search (key, d) ps)
    \<and> mset (process_rows search (key, d) ps) = mset (filter (process_matches search) ps)
    \<and> (\<forall>a \<in> set ps. \<forall>b \<in> set ps. process_value key a = process_value key b \<longrightarrow>
         compare_processes (key, d) a b = compare_processes (key, d) b a \<and> compare_processes (key, d) a b \<noteq> 0)"
proof -
  let ?xs = "filter (process_matches search) ps"
  have e: "process_rows search (key, d) ps = js_sort (process_sign key d) ?xs"
    unfolding process_rows_def
  proof (rule js_sort_cong_distinct)
    show "distinct ?xs" using assms(2) by (simp add: distinct_map)
    fix a b assume ab: "a \<in> set ?xs" "b \<in> set ?xs" "a \<noteq> b"
    then have "process_value key a \<noteq> process_value key b" using assms(2) by (meson distinct_map inj_onD)
    moreover have "compare_processes (key, d) a b
        = (if process_value key b < process_value key a then 1 else -1) * (if d = Asc then 1 else -1)"
      using ab by (intro compare_numbered [OF assms(1)]) auto
    ultimately show "compare_processes (key, d) a b = process_sign key d a b"
      by (cases d) (auto simp: process_sign_def less_sign_def)
  qed
  have "sorted_wrt (\<lambda>a b. process_sign key d a b \<le> 0) (js_sort (process_sign key d) ?xs)"
    by (rule comparator.sorted_sort [OF comparator_process])
  then have "sorted_wrt (\<lambda>a b. if d = Asc then process_value key a \<le> process_value key b else process_value key b \<le> process_value key a)
      (js_sort (process_sign key d) ?xs)"
    by (rule sorted_wrt_mono_rel [rotated]) (auto simp: process_sign_def less_sign_def split: if_splits)
  then show ?thesis unfolding e using compare_numbered [OF assms(1)] by auto
qed

theorem processes_sorted_witness:
  "let p = (\<lambda>i c. JObj [(''pid'', JInt i), (''cpu_percent'', JInt c), (''command'', JStr ''x''), (''user'', JStr ''u'')])
   in mset (process_rows [] (''cpu_percent'', Desc) [p 1 5, p 2 7]) = mset [p 1 5, p 2 7]"
proof -
  let ?p = "\<lambda>i c. JObj [(''pid'', JInt i), (''cpu_percent'', JInt c), (''command'', JStr ''x''), (''user'', JStr ''u'')]"
  have n: "numbered ''cpu_percent'' [?p 1 5, ?p 2 7]" by (simp add: numbered_def)
  have m: "process_matches [] p" for p unfolding process_matches_def includes_str_iff by (simp add: to_lower_def) blast
  then have f: "filter (process_matches []) [?p 1 5, ?p 2 7] = [?p 1 5, ?p 2 7]" by simp
  have "distinct (map (process_value ''cpu_percent'') (filter (process_matches []) [?p 1 5, ?p 2 7]))"
    unfolding f by (simp add: process_value_def)
  from processes_sorted [OF n this, of Desc] show ?thesis unfolding f Let_def by blast
qed

end
