(* ===== verification/HostDetail.thy ===== *)
theory HostDetail
  imports HostMetrics UrlCodec
begin

text \<open>
  The page of a host (pages/host-detail.js) as operations between its awaits: the list of the hosts, the tab on
  display with what has to be stopped when it is left, the listeners, which are bound when the tab has been drawn,
  and the range of the monitor tab.  A rendering is \<open>render_begin\<close>, \<open>hosts_arrived\<close>, \<open>tab_finished\<close> and \<open>bind_events\<close>, in
  this order; another one may begin before it ends.
\<close>

section \<open>Route and choice of the host\<close>

record host_route =
  hr_host :: js
  hr_tab :: string

definition host_tabs :: "string list" where
  "host_tabs = [''info'', ''monitor'', ''ai'', ''processes'', ''network'', ''terminal'']"

definition parse_host_route :: "string \<Rightarrow> host_route" where
  "parse_host_route param =
     (let ps = form_parse param
      in \<lparr>hr_host = (case params_get ps ''host'' of
             Some s \<Rightarrow> if s = [] then JNull else JNum (parse_int_str s) | None \<Rightarrow> JNull),
          hr_tab = (case params_get ps ''tab'' of Some s \<Rightarrow> if s = [] then ''info'' else s | None \<Rightarrow> ''info'')\<rparr>)"

definition find_host :: "js list \<Rightarrow> js \<Rightarrow> js option" where
  "find_host hosts i = find (\<lambda>h. strict_eq (field h ''id'') i) hosts"

definition resolve_host :: "js list \<Rightarrow> string option \<Rightarrow> js \<Rightarrow> js" where
  "resolve_host hosts last_viewed i =
     (let stored = (case last_viewed of Some s \<Rightarrow> if s = [] then JNull else JNum (parse_int_str s) | None \<Rightarrow> JNull)
      in if truthy i \<and> find_host hosts i \<noteq> None then i
         else if stored \<noteq> JNull \<and> find_host hosts stored \<noteq> None then stored
         else (case hosts of h # _ \<Rightarrow> field h ''id'' | [] \<Rightarrow> JUndef))"

definition current_host :: "js list \<Rightarrow> string option \<Rightarrow> js \<Rightarrow> js" where
  "current_host hosts last_viewed i =
     (case find_host hosts (resolve_host hosts last_viewed i) of Some h \<Rightarrow> h | None \<Rightarrow> hd hosts)"

definition host_link :: "js \<Rightarrow> string \<Rightarrow> string" where
  "host_link i tab = ''host-detail?host='' @ js_string i @ ''&tab='' @ tab"

section \<open>The list of the hosts\<close>

definition host_matches :: "string \<Rightarrow> js \<Rightarrow> bool" where
  "host_matches search h \<longleftrightarrow>
     includes_str (to_lower (js_string (field h ''name''))) (to_lower search)
   \<or> includes_str (to_lower (js_string (field h ''host''))) (to_lower search)"

definition group_states :: "(string \<times> string list) list" where
  "group_states = [(''critical'', [''critical'']), (''warning'', [''warning'']), (''offline'', [''offline'', ''unknown'']),
     (''normal'', [''normal''])]"

definition host_groups :: "string \<Rightarrow> js list \<Rightarrow> (string \<times> js list) list" where
  "host_groups search hosts =
     filter (\<lambda>g. snd g \<noteq> [])
       (map (\<lambda>(key, states). (key, filter (\<lambda>h. \<exists>s \<in> set states. field h ''status'' = JStr s) (filter (host_matches search) hosts)))
         group_states)"

section \<open>The page\<close>

datatype tab_cleanup = StopPolling | StopCharts | StopEmbedded string

text \<open>
  \<open>hp_bound\<close> counts the listeners of each control on display, \<open>hp_polls\<close> are the intervals that run, numbered;
  what is stored is the last host and whether the sidebar is collapsed.
\<close>

record host_page =
  hp_route :: host_route
  hp_hosts :: "js list"
  hp_host :: js
  hp_tab :: string
  hp_collapsed :: bool
  hp_search :: string
  hp_search_box :: string
  hp_layout :: bool
  hp_bound :: nat
  hp_cleanup :: "tab_cleanup option"
  hp_timer :: "nat option"
  hp_polls :: "nat list"
  hp_next :: nat
  hp_last :: "string option"
  hp_stored :: "string option"
  hp_hash :: string

definition new_host_page :: host_page where
  "new_host_page = \<lparr>hp_route = \<lparr>hr_host = JNull, hr_tab = ''info''\<rparr>, hp_hosts = [], hp_host = JNull, hp_tab = ''info'',
     hp_collapsed = False, hp_search = [], hp_search_box = [], hp_layout = False, hp_bound = 0, hp_cleanup = None,
     hp_timer = None, hp_polls = [], hp_next = 0, hp_last = None, hp_stored = None, hp_hash = []\<rparr>"

definition stop_polling :: "host_page \<Rightarrow> host_page" where
  "stop_polling p =
     (case hp_timer p of
        Some t \<Rightarrow> p\<lparr>hp_polls := filter (\<lambda>x. x \<noteq> t) (hp_polls p), hp_timer := None\<rparr>
      | None \<Rightarrow> p)"

definition run_tab_cleanup :: "host_page \<Rightarrow> host_page" where
  "run_tab_cleanup p =
     (case hp_cleanup p of
        Some StopPolling \<Rightarrow> (stop_polling p)\<lparr>hp_cleanup := None\<rparr>
      | Some _ \<Rightarrow> p\<lparr>hp_cleanup := None\<rparr>
      | None \<Rightarrow> p)"

definition leave_page :: "host_page \<Rightarrow> host_page" where
  "leave_page p = stop_polling (run_tab_cleanup p)"

definition render_begin :: "string \<Rightarrow> host_page \<Rightarrow> host_page" where
  "render_begin param p =
     (let p1 = leave_page p
      in p1\<lparr>hp_route := parse_host_route param, hp_collapsed := (hp_stored p1 = Some ''true''), hp_layout := False\<rparr>)"

definition hosts_arrived :: "js list \<Rightarrow> host_page \<Rightarrow> host_page" where
  "hosts_arrived hosts p =
     (if hosts = [] then p\<lparr>hp_hosts := hosts, hp_layout := False\<rparr>
      else run_tab_cleanup (p\<lparr>hp_hosts := hosts, hp_host := current_host hosts (hp_last p) (hr_host (hp_route p)),
             hp_tab := (if hr_tab (hp_route p) \<in> set host_tabs then hr_tab (hp_route p) else ''info''),
             hp_layout := True, hp_bound := 0, hp_search_box := []\<rparr>))"

text \<open>What a tab leaves behind when its content has come; the configuration leaves nothing, and no tab does when it fails.\<close>

definition tab_finished :: "string \<Rightarrow> bool \<Rightarrow> host_page \<Rightarrow> host_page" where
  "tab_finished tab loaded p =
     (if \<not> loaded \<or> tab = ''info'' then p
      else if tab = ''monitor'' then p\<lparr>hp_cleanup := Some StopCharts\<rparr>
      else if tab = ''processes''
      then p\<lparr>hp_polls := hp_next p # hp_polls p, hp_timer := Some (hp_next p), hp_next := Suc (hp_next p),
             hp_cleanup := Some StopPolling\<rparr>
      else p\<lparr>hp_cleanup := Some (StopEmbedded tab)\<rparr>)"

definition bind_events :: "host_page \<Rightarrow> host_page" where
  "bind_events p = (if hp_layout p then p\<lparr>hp_bound := Suc (hp_bound p)\<rparr> else p)"

definition flip_sidebar :: "host_page \<Rightarrow> host_page" where
  "flip_sidebar p =
     (let c = (\<not> hp_collapsed p) in p\<lparr>hp_collapsed := c, hp_stored := Some (if c then ''true'' else ''false'')\<rparr>)"

definition click_sidebar :: "host_page \<Rightarrow> host_page" where
  "click_sidebar p = (flip_sidebar ^^ hp_bound p) p"

definition type_search :: "string \<Rightarrow> host_page \<Rightarrow> host_page" where
  "type_search s p = (if hp_bound p = 0 then p\<lparr>hp_search_box := s\<rparr> else p\<lparr>hp_search := s, hp_search_box := s\<rparr>)"

definition hosts_listed :: "host_page \<Rightarrow> (string \<times> js list) list" where
  "hosts_listed p = host_groups (hp_search p) (hp_hosts p)"

definition click_host :: "js \<Rightarrow> host_page \<Rightarrow> host_page" where
  "click_host i p =
     (if hp_bound p = 0 then p
      else case find_host (hp_hosts p) i of
             Some h \<Rightarrow> p\<lparr>hp_host := h, hp_last := Some (js_string i), hp_hash := host_link i (hp_tab p)\<rparr>
           | None \<Rightarrow> p)"

definition click_host_tab :: "string \<Rightarrow> host_page \<Rightarrow> host_page" where
  "click_host_tab tab p =
     (if hp_bound p = 0 \<or> tab \<notin> set host_tabs then p
      else p\<lparr>hp_tab := tab, hp_hash := host_link (field (hp_host p) ''id'') tab\<rparr>)"

text \<open>The options of the embedded pages.\<close>

definition host_chat_options :: "(string \<Rightarrow> string) \<Rightarrow> js \<Rightarrow> js" where
  "host_chat_options title host =
     (let i = field host ''id''; named = js_or (field host ''name'') (js_or (field host ''host'') (JStr []))
      in JObj [(''embedded'', JBool True), (''fixedHostId'', i), (''contextEntityName'', named), (''sessionFilterHostId'', i),
           (''defaultSidebarCollapsed'', JBool True),
           (''initialSessionTitle'', JStr (title (js_string (js_or (field host ''name'') (js_or (field host ''host'') i))))),
           (''initialAsk'', JNull), (''preferFreshSession'', JBool False)])"

section \<open>The range of the monitor tab\<close>

record host_monitor =
  hm_range :: int
  hm_select :: string
  hm_chart :: "js list"
  hm_dialog :: bool

definition choose_range :: "string \<Rightarrow> host_monitor \<Rightarrow> host_monitor" where
  "choose_range v m =
     (if v = ''custom'' then m\<lparr>hm_select := v, hm_dialog := True\<rparr>
      else m\<lparr>hm_select := v, hm_range := (case parse_int_str v of Fin q \<Rightarrow> \<lfloor>q\<rfloor> | _ \<Rightarrow> 0)\<rparr>)"

definition range_loaded :: "js list \<Rightarrow> host_monitor \<Rightarrow> host_monitor" where
  "range_loaded metrics m = m\<lparr>hm_chart := metrics\<rparr>"

definition hide_dialog :: "host_monitor \<Rightarrow> host_monitor" where
  "hide_dialog m =
     m\<lparr>hm_dialog := False, hm_select := (if hm_select m = ''custom'' then str_of_int (hm_range m) else hm_select m)\<rparr>"

definition cancel_dialog :: "host_monitor \<Rightarrow> host_monitor" where
  "cancel_dialog m = (hide_dialog m)\<lparr>hm_select := str_of_int (hm_range m)\<rparr>"

definition default_range :: "int \<Rightarrow> host_monitor \<Rightarrow> int \<times> int" where
  "default_range now m = (now - hm_range m * 60 * 1000, now)"

text \<open>
  Confirming the dialog: a warning, an error when a date cannot be printed, or the query of the request.  \<open>parse\<close>
  reads a local date, \<open>print_iso\<close> prints it.
\<close>

datatype range_answer = SelectRange | InvalidRange | RangeFailed | LoadRange string

definition custom_range :: "(string \<Rightarrow> int option) \<Rightarrow> (int \<Rightarrow> string) \<Rightarrow> string \<Rightarrow> string \<Rightarrow> range_answer" where
  "custom_range parse print_iso start stop =
     (if start = [] \<or> stop = [] then SelectRange
      else case (parse start, parse stop) of
             (Some s, Some e) \<Rightarrow>
               if e \<le> s then InvalidRange
               else LoadRange (''start_time='' @ encode_uri_component (print_iso s) @ ''&end_time='' @ encode_uri_component (print_iso e))
           | _ \<Rightarrow> RangeFailed)"

definition apply_range :: "range_answer \<Rightarrow> host_monitor \<Rightarrow> host_monitor" where
  "apply_range a m =
     (case a of
        SelectRange \<Rightarrow> m
      | InvalidRange \<Rightarrow> m
      | RangeFailed \<Rightarrow> (hide_dialog m)\<lparr>hm_select := str_of_int (hm_range m)\<rparr>
      | LoadRange _ \<Rightarrow> hide_dialog m)"

definition custom_loaded :: "js list \<Rightarrow> host_monitor \<Rightarrow> host_monitor" where
  "custom_loaded metrics m =
     (if metrics = [] then m\<lparr>hm_select := str_of_int (hm_range m)\<rparr> else m\<lparr>hm_chart := metrics\<rparr>)"

section \<open>Links are found again\<close>

lemma form_encode_plain: "\<forall>c \<in> set s. form_unreserved c \<Longrightarrow> form_encode s = s"
  by (induction s) (auto simp: form_encode_def form_encode_char_def form_unreserved_def is_alnum_def is_digit_def
      is_upper_ascii_def is_lower_ascii_def char_code_def)

lemma int_unreserved: "c \<in> set (str_of_int i) \<Longrightarrow> form_unreserved c"
  using str_of_nat_digits [of "nat i"] str_of_nat_digits [of "nat (- i)"]
  by (auto simp: str_of_int_def form_unreserved_def is_alnum_def split: if_splits)

lemma tab_unreserved: "tab \<in> set host_tabs \<Longrightarrow> form_encode tab = tab"
  by (auto simp: host_tabs_def form_encode_def form_encode_char_def form_unreserved_def is_alnum_def is_lower_ascii_def char_code_def)

lemma link_query: "tab \<in> set host_tabs \<Longrightarrow>
    ''host='' @ str_of_int i @ ''&tab='' @ tab = form_serialize [(''host'', str_of_int i), (''tab'', tab)]"
  using form_encode_plain [of "str_of_int i"] int_unreserved [of _ i] form_encode_plain [of "''host''"] form_encode_plain [of "''tab''"]
  by (simp add: form_serialize_def tab_unreserved form_unreserved_def is_alnum_def is_lower_ascii_def char_code_def)

text \<open>
  The link of a host and a tab opens that host and that tab, whatever host was looked at last.
\<close>

theorem host_link_roundtrip:
  assumes "h \<in> set hosts" and "field h ''id'' = JInt i" and "i \<noteq> 0" and "tab \<in> set host_tabs"
    and "host_link (JInt i) tab = ''host-detail?'' @ query"
  shows "hr_tab (parse_host_route query) = tab
    \<and> field (current_host hosts last_viewed (hr_host (parse_host_route query))) ''id'' = JInt i"
proof -
  have q: "query = ''host='' @ str_of_int i @ ''&tab='' @ tab"
    using assms(5) by (simp add: host_link_def str_of_rat_int)
  have pr: "form_parse query = [(''host'', str_of_int i), (''tab'', tab)]"
    unfolding q link_query [OF assms(4)] by (rule form_parse_serialize)
  have r: "parse_host_route query = \<lparr>hr_host = JInt i, hr_tab = tab\<rparr>"
    using assms(4) by (auto simp: parse_host_route_def pr params_get_def host_tabs_def)
  have "find_host hosts (JInt i) \<noteq> None"
    using assms(1,2) by (auto simp: find_host_def find_None_iff)
  then obtain h' where h': "find_host hosts (JInt i) = Some h'" by blast
  then have "strict_eq (field h' ''id'') (JInt i)" by (auto simp: find_host_def find_Some_iff)
  then have "field h' ''id'' = JInt i" by (rule strict_eq_imp)
  moreover have "resolve_host hosts last_viewed (JInt i) = JInt i" using h' assms(3) by (simp add: resolve_host_def)
  ultimately show ?thesis unfolding r by (simp add: current_host_def h')
qed

theorem host_link_roundtrip_witness:
  "field (current_host [JObj [(''id'', JInt 1)], JObj [(''id'', JInt 7)]] (Some ''1'') (hr_host (parse_host_route ''host=7&tab=terminal''))) ''id'' = JInt 7"
proof -
  let ?hs = "[JObj [(''id'', JInt 1)], JObj [(''id'', JInt 7)]]"
  have h: "JObj [(''id'', JInt 7)] \<in> set ?hs" by simp
  have f: "field (JObj [(''id'', JInt 7)]) ''id'' = JInt 7" by simp
  have t: "''terminal'' \<in> set host_tabs" by (simp add: host_tabs_def)
  have s: "str_of_int 7 = ''7''" by (simp add: str_of_int_def digit_char_def str_of_nat.simps char_of_def bit_0)
  have l: "host_link (JInt 7) ''terminal'' = ''host-detail?'' @ ''host=7&tab=terminal''"
    using s js_string_int [of 7] by (simp add: host_link_def)
  show ?thesis using host_link_roundtrip [OF h f _ t l, of "Some ''1''"] by simp
qed

section \<open>The list shows every host once\<close>

definition known_state :: "js \<Rightarrow> bool" where
  "known_state h \<longleftrightarrow> (\<exists>s \<in> {''critical'', ''warning'', ''offline'', ''unknown'', ''normal''}. field h ''status'' = JStr s)"

lemma concat_nonempty: "concat (map snd (filter (\<lambda>g. snd g \<noteq> []) gs)) = concat (map snd gs)"
  by (induction gs) auto

text \<open>
  The groups of the list hold every host that matches the search and has one of the five states, once each, under
  the heading of its state, and no group is empty.
\<close>

theorem hosts_grouped:
  "mset (concat (map snd (host_groups search hosts))) = mset (filter (\<lambda>h. host_matches search h \<and> known_state h) hosts)
   \<and> (\<forall>(key, hs) \<in> set (host_groups search hosts). hs \<noteq> [] \<and> (\<exists>states. (key, states) \<in> set group_states
        \<and> (\<forall>h \<in> set hs. \<exists>s \<in> set states. field h ''status'' = JStr s)))"
proof
  have "mset (filter (\<lambda>h. \<exists>s \<in> {''critical''}. field h ''status'' = JStr s) xs)
      + (mset (filter (\<lambda>h. \<exists>s \<in> {''warning''}. field h ''status'' = JStr s) xs)
      + (mset (filter (\<lambda>h. \<exists>s \<in> {''offline'', ''unknown''}. field h ''status'' = JStr s) xs)
      + mset (filter (\<lambda>h. \<exists>s \<in> {''normal''}. field h ''status'' = JStr s) xs))) = mset (filter known_state xs)" for xs
    by (induction xs) (auto simp: known_state_def)
  from this [of "filter (host_matches search) hosts"]
  show "mset (concat (map snd (host_groups search hosts))) = mset (filter (\<lambda>h. host_matches search h \<and> known_state h) hosts)"
    unfolding host_groups_def concat_nonempty by (simp add: group_states_def conj_commute)
  show "\<forall>(key, hs) \<in> set (host_groups search hosts). hs \<noteq> [] \<and> (\<exists>states. (key, states) \<in> set group_states
        \<and> (\<forall>h \<in> set hs. \<exists>s \<in> set states. field h ''status'' = JStr s))"
    by (fastforce simp: host_groups_def)
qed

section \<open>Visits one after the other\<close>

text \<open>A visit that is over before the next begins, with what the server sent and whether the tab could be drawn.\<close>

definition visit :: "host_page \<Rightarrow> string \<times> js list \<times> bool \<Rightarrow> host_page" where
  "visit p v =
     (case v of (param, hosts, loaded) \<Rightarrow>
        (let p1 = hosts_arrived hosts (render_begin param p)
         in if hosts = [] then p1 else bind_events (tab_finished (hp_tab p1) loaded p1)))"

definition polls_tracked :: "host_page \<Rightarrow> bool" where
  "polls_tracked p \<longleftrightarrow> hp_polls p = (case hp_timer p of Some t \<Rightarrow> [t] | None \<Rightarrow> [])"

lemma leave_tracked: "polls_tracked p \<Longrightarrow> hp_polls (leave_page p) = [] \<and> hp_timer (leave_page p) = None \<and> hp_cleanup (leave_page p) = None"
  by (auto simp: polls_tracked_def leave_page_def run_tab_cleanup_def stop_polling_def split: option.splits tab_cleanup.splits)

lemma arrived_quiet:
  "hp_polls p = [] \<Longrightarrow> hp_timer p = None \<Longrightarrow> hp_cleanup p = None \<Longrightarrow>
    hp_polls (hosts_arrived hosts p) = [] \<and> hp_timer (hosts_arrived hosts p) = None
    \<and> hp_layout (hosts_arrived hosts p) = (hosts \<noteq> []) \<and> (hosts \<noteq> [] \<longrightarrow> hp_bound (hosts_arrived hosts p) = 0)"
  by (simp add: hosts_arrived_def run_tab_cleanup_def)

lemma visit_tracked:
  assumes "polls_tracked p"
  shows "polls_tracked (visit p v) \<and> (hp_layout (visit p v) \<longrightarrow> hp_bound (visit p v) = 1)"
proof -
  obtain param hosts loaded where v: "v = (param, hosts, loaded)" by (metis surj_pair)
  let ?b = "render_begin param p"
  have "hp_polls ?b = [] \<and> hp_timer ?b = None \<and> hp_cleanup ?b = None"
    using leave_tracked [OF assms] by (simp add: render_begin_def Let_def)
  then have "hp_polls (hosts_arrived hosts ?b) = [] \<and> hp_timer (hosts_arrived hosts ?b) = None
    \<and> hp_layout (hosts_arrived hosts ?b) = (hosts \<noteq> []) \<and> (hosts \<noteq> [] \<longrightarrow> hp_bound (hosts_arrived hosts ?b) = 0)"
    using arrived_quiet by blast
  then show ?thesis by (auto simp: v visit_def polls_tracked_def tab_finished_def bind_events_def Let_def)
qed

text \<open>
  C28. Visits that follow each other leave nothing behind: after the page is left no interval polls the processes of a
  host, and on a page that shows a host one click folds the sidebar, or unfolds it.
\<close>

theorem visits_clean:
  "hp_polls (leave_page (foldl visit new_host_page vs)) = []
   \<and> (hp_layout (foldl visit new_host_page vs) \<longrightarrow>
        hp_collapsed (click_sidebar (foldl visit new_host_page vs)) = (\<not> hp_collapsed (foldl visit new_host_page vs)))"
proof -
  have "polls_tracked (foldl visit new_host_page vs) \<and> (hp_layout (foldl visit new_host_page vs) \<longrightarrow> hp_bound (foldl visit new_host_page vs) = 1)"
  proof (induction vs rule: rev_induct)
    case Nil
    show ?case by (simp add: new_host_page_def polls_tracked_def)
  next
    case (snoc v vs)
    then show ?case using visit_tracked by simp
  qed
  then show ?thesis using leave_tracked by (auto simp: click_sidebar_def flip_sidebar_def Let_def)
qed

theorem visits_clean_witness:
  "hp_layout (foldl visit new_host_page [([], [JObj [(''id'', JInt 1)]], True)])
   \<and> hp_collapsed (click_sidebar (foldl visit new_host_page [([], [JObj [(''id'', JInt 1)]], True)]))"
proof -
  let ?v = "([], [JObj [(''id'', JInt 1)]], True)"
  have l: "hp_layout (foldl visit new_host_page [?v]) \<and> \<not> hp_collapsed (foldl visit new_host_page [?v])"
    by (simp add: visit_def hosts_arrived_def render_begin_def leave_page_def run_tab_cleanup_def stop_polling_def
        new_host_page_def bind_events_def tab_finished_def parse_host_route_def Let_def)
  then show ?thesis using visits_clean [of "[?v]"] by blast
qed

section \<open>Visits that overlap\<close>

text \<open>A second visit begins while the first still waits for its tab; the first ends before the tab of the second has come.\<close>

definition overlapping :: "string \<Rightarrow> js list \<Rightarrow> host_page \<Rightarrow> host_page" where
  "overlapping param hosts p =
     (let p1 = hosts_arrived hosts (render_begin param p);
          p2 = hosts_arrived hosts (render_begin param p1);
          p3 = bind_events (tab_finished (hp_tab p1) True p2)
      in bind_events (tab_finished (hp_tab p2) True p3))"

lemma overlapping_state:
  assumes "hosts \<noteq> []" and "polls_tracked p" and "hr_tab (parse_host_route param) = ''processes''"
  shows "hp_bound (overlapping param hosts p) = 2"
    and "\<exists>n. hp_polls (overlapping param hosts p) = [Suc n, n] \<and> hp_timer (overlapping param hosts p) = Some (Suc n)
      \<and> hp_cleanup (overlapping param hosts p) = Some StopPolling"
proof -
  have t: "''processes'' \<in> set host_tabs" by (simp add: host_tabs_def)
  let ?b = "render_begin param p" and ?p1 = "hosts_arrived hosts (render_begin param p)"
  have b: "hp_polls ?b = []" "hp_timer ?b = None" "hp_cleanup ?b = None" "hr_tab (hp_route ?b) = ''processes''"
    using leave_tracked [OF assms(2)] assms(3) by (simp_all add: render_begin_def Let_def)
  have p1: "hp_polls ?p1 = []" "hp_timer ?p1 = None" "hp_cleanup ?p1 = None" "hp_tab ?p1 = ''processes''"
    using b assms(1) t by (simp_all add: hosts_arrived_def run_tab_cleanup_def)
  then have l: "leave_page ?p1 = ?p1" by (simp add: leave_page_def run_tab_cleanup_def stop_polling_def)
  let ?p2 = "hosts_arrived hosts (render_begin param ?p1)"
  have p2: "hp_polls ?p2 = []" "hp_timer ?p2 = None" "hp_cleanup ?p2 = None" "hp_tab ?p2 = ''processes''"
      "hp_layout ?p2" "hp_bound ?p2 = 0"
    using p1 l assms(1,3) t by (simp_all add: render_begin_def hosts_arrived_def run_tab_cleanup_def Let_def)
  show "hp_bound (overlapping param hosts p) = 2"
    using p1 p2 by (simp add: overlapping_def Let_def tab_finished_def bind_events_def)
  show "\<exists>n. hp_polls (overlapping param hosts p) = [Suc n, n] \<and> hp_timer (overlapping param hosts p) = Some (Suc n)
      \<and> hp_cleanup (overlapping param hosts p) = Some StopPolling"
    using p1 p2 by (simp add: overlapping_def Let_def tab_finished_def bind_events_def)
qed



section \<open>Search and range\<close>

text \<open>
  What was searched for stays in force when the page is rendered again, while the box for it is empty: hosts are
  missing from the list with no search to be seen.
\<close>

theorem old_search_in_force:
  assumes "hosts \<noteq> []"
  shows "hp_search_box (hosts_arrived hosts (render_begin param p)) = []
    \<and> hosts_listed (hosts_arrived hosts (render_begin param p)) = host_groups (hp_search p) hosts"
proof -
  have "hp_search (leave_page p) = hp_search p"
    by (simp add: leave_page_def run_tab_cleanup_def stop_polling_def split: option.splits tab_cleanup.splits)
  moreover have "hp_search (run_tab_cleanup q) = hp_search q \<and> hp_search_box (run_tab_cleanup q) = hp_search_box q
      \<and> hp_hosts (run_tab_cleanup q) = hp_hosts q" for q
    by (simp add: run_tab_cleanup_def stop_polling_def split: option.splits tab_cleanup.splits)
  ultimately show ?thesis using assms by (simp add: hosts_arrived_def render_begin_def hosts_listed_def Let_def)
qed

theorem old_search_in_force_witness:
  "hosts_listed (hosts_arrived [JObj [(''name'', JStr ''a''), (''host'', JStr ''b''), (''status'', JStr ''normal'')]]
      (render_begin [] (new_host_page\<lparr>hp_search := ''x''\<rparr>))) = []"
proof -
  have "host_groups ''x'' [JObj [(''name'', JStr ''a''), (''host'', JStr ''b''), (''status'', JStr ''normal'')]] = []" by code_simp
  then show ?thesis
    using old_search_in_force [of "[JObj [(''name'', JStr ''a''), (''host'', JStr ''b''), (''status'', JStr ''normal'')]]"
        "[]" "new_host_page\<lparr>hp_search := ''x''\<rparr>"] by simp
qed

text \<open>
  A custom range that has been loaded is shown under the name of the fixed one before it: hiding the dialog resets
  the box, so that the fixed range cannot be chosen again without choosing another first.
\<close>

theorem custom_range_named_fixed:
  assumes "metrics \<noteq> []" and "custom_range parse print_iso start stop = LoadRange query"
  shows "let m' = custom_loaded metrics (apply_range (custom_range parse print_iso start stop) (choose_range ''custom'' m))
    in hm_chart m' = metrics \<and> hm_select m' = str_of_int (hm_range m) \<and> \<not> hm_dialog m'"
  using assms by (simp add: custom_loaded_def apply_range_def choose_range_def hide_dialog_def Let_def)

theorem custom_range_named_fixed_witness:
  "custom_range (\<lambda>s. Some (int (length s))) (\<lambda>_. ''t'') ''a'' ''ab'' = LoadRange ''start_time=t&end_time=t''
   \<and> (let m' = custom_loaded [JNull] (apply_range (custom_range (\<lambda>s. Some (int (length s))) (\<lambda>_. ''t'') ''a'' ''ab'')
              (choose_range ''custom'' \<lparr>hm_range = 60, hm_select = ''60'', hm_chart = [], hm_dialog = False\<rparr>))
      in hm_chart m' = [JNull] \<and> hm_select m' = str_of_int 60)"
proof
  show c: "custom_range (\<lambda>s. Some (int (length s))) (\<lambda>_. ''t'') ''a'' ''ab'' = LoadRange ''start_time=t&end_time=t''" by code_simp
  show "let m' = custom_loaded [JNull] (apply_range (custom_range (\<lambda>s. Some (int (length s))) (\<lambda>_. ''t'') ''a'' ''ab'')
              (choose_range ''custom'' \<lparr>hm_range = 60, hm_select = ''60'', hm_chart = [], hm_dialog = False\<rparr>))
      in hm_chart m' = [JNull] \<and> hm_select m' = str_of_int 60"
    using custom_range_named_fixed [OF _ c, of "[JNull]" "\<lparr>hm_range = 60, hm_select = ''60'', hm_chart = [], hm_dialog = False\<rparr>"]
    by (simp add: Let_def)
qed

end
