(* ===== verification/TopologyView.thy ===== *)
theory TopologyView
  imports JsNumber
begin

text \<open>
  The two drawings of connections, of an instance (pages/instance-traffic.js) and of a host (pages/host-network.js),
  which are embedded in a tab: their life cycle is the same text in both files, and so are the places of the nodes
  and the particles.  The life cycle is a step relation over the data \<open>'d\<close> of a drawing: \<open>absorb\<close> is \<open>_applyData\<close>, which
  may throw, \<open>clear\<close> and \<open>start\<close> are what \<open>cleanup\<close> and \<open>render\<close> do to the data.  A rendering ends, after its first
  request, by starting an animation (\<open>view_rendered\<close>); another one, or leaving, may come before.
\<close>

section \<open>Life cycle\<close>

text \<open>
  \<open>tv_running\<close> are the intervals that run and \<open>tv_timer\<close> the one the drawing knows; \<open>tv_frames\<close> are the animation
  frames that were asked for and \<open>tv_frame\<close> the last one; requests are numbered, \<open>tv_serial\<close> is the last number.
\<close>

record 'd view =
  tv_shown :: bool
  tv_target :: js
  tv_data :: 'd
  tv_running :: "nat list"
  tv_timer :: "nat option"
  tv_frames :: "nat list"
  tv_frame :: "nat option"
  tv_next :: nat
  tv_flight :: bool
  tv_serial :: nat
  tv_error :: "string option"
  tv_toasts :: nat

definition new_view :: "'d \<Rightarrow> 'd view" where
  "new_view d = \<lparr>tv_shown = False, tv_target = JNull, tv_data = d, tv_running = [], tv_timer = None, tv_frames = [], tv_frame = None,
     tv_next = 0, tv_flight = False, tv_serial = 0, tv_error = None, tv_toasts = 0\<rparr>"

definition stop_view :: "'d view \<Rightarrow> 'd view" where
  "stop_view v =
     (case tv_timer v of
        Some t \<Rightarrow> v\<lparr>tv_running := filter (\<lambda>x. x \<noteq> t) (tv_running v), tv_timer := None\<rparr>
      | None \<Rightarrow> v)"

definition leave_view :: "('d \<Rightarrow> 'd) \<Rightarrow> 'd view \<Rightarrow> 'd view" where
  "leave_view clear v =
     (let w = stop_view v;
          w1 = (case tv_frame w of
                  Some f \<Rightarrow> w\<lparr>tv_frames := filter (\<lambda>x. x \<noteq> f) (tv_frames w), tv_frame := None\<rparr>
                | None \<Rightarrow> w)
      in w1\<lparr>tv_shown := False, tv_data := clear (tv_data w1), tv_flight := False, tv_error := None\<rparr>)"

text \<open>A request, unless one is under way: its number and what it is for.\<close>

definition refresh_view :: "'d view \<Rightarrow> 'd view \<times> (nat \<times> js) option" where
  "refresh_view v =
     (if \<not> truthy (tv_target v) \<or> tv_flight v then (v, None)
      else (v\<lparr>tv_serial := Suc (tv_serial v), tv_flight := True\<rparr>, Some (Suc (tv_serial v), tv_target v)))"

definition render_view :: "('d \<Rightarrow> 'd) \<Rightarrow> ('d \<Rightarrow> 'd) \<Rightarrow> js \<Rightarrow> 'd view \<Rightarrow> 'd view \<times> (nat \<times> js) option" where
  "render_view clear start target v =
     (let w = leave_view clear v in refresh_view (w\<lparr>tv_shown := True, tv_target := target, tv_data := start (tv_data w)\<rparr>))"

definition schedule_view :: "'d view \<Rightarrow> 'd view" where
  "schedule_view v =
     (let w = stop_view v
      in w\<lparr>tv_running := tv_next w # tv_running w, tv_timer := Some (tv_next w), tv_next := Suc (tv_next w)\<rparr>)"

text \<open>The error is written into the drawing on display, and shown as a message unless the request was a silent one.\<close>

definition view_error :: "bool \<Rightarrow> string \<Rightarrow> 'd view \<Rightarrow> 'd view" where
  "view_error silent message v =
     v\<lparr>tv_toasts := (if silent then tv_toasts v else Suc (tv_toasts v)), tv_error := (if tv_shown v then Some message else None)\<rparr>"

definition view_settled :: "nat \<Rightarrow> 'd view \<Rightarrow> 'd view" where
  "view_settled request v = (if request = tv_serial v then v\<lparr>tv_flight := False\<rparr> else v)"

definition view_answer :: "(js \<Rightarrow> 'd \<Rightarrow> 'd \<times> bool) \<Rightarrow> nat \<Rightarrow> bool \<Rightarrow> js \<Rightarrow> 'd view \<Rightarrow> 'd view" where
  "view_answer absorb request silent answer v =
     view_settled request
       (if \<not> tv_shown v \<or> request \<noteq> tv_serial v then v
        else (case absorb answer (tv_data v) of
                (d, True) \<Rightarrow> schedule_view (v\<lparr>tv_data := d, tv_error := (if truthy answer then None else tv_error v)\<rparr>)
              | (d, False) \<Rightarrow> view_error silent ''Invalid time value'' (v\<lparr>tv_data := d\<rparr>)))"

definition view_failed :: "nat \<Rightarrow> bool \<Rightarrow> string \<Rightarrow> 'd view \<Rightarrow> 'd view" where
  "view_failed request silent message v = view_settled request (view_error silent message v)"

definition ask_frame :: "'d view \<Rightarrow> 'd view" where
  "ask_frame v = v\<lparr>tv_frames := tv_next v # tv_frames v, tv_frame := Some (tv_next v), tv_next := Suc (tv_next v)\<rparr>"

definition view_rendered :: "'d view \<Rightarrow> 'd view" where
  "view_rendered v = ask_frame v"

definition run_frame :: "nat \<Rightarrow> 'd view \<Rightarrow> 'd view" where
  "run_frame f v =
     (if f \<notin> set (tv_frames v) then v
      else (let w = v\<lparr>tv_frames := remove1 f (tv_frames v)\<rparr> in if tv_shown w then ask_frame w else w))"

datatype view_event = ViewRender js | ViewAnswer nat bool js | ViewFailed nat bool string | ViewRendered | ViewTick nat
  | ViewButton | ViewFrame nat | ViewLeave

fun view_step :: "(js \<Rightarrow> 'd \<Rightarrow> 'd \<times> bool) \<Rightarrow> ('d \<Rightarrow> 'd) \<Rightarrow> ('d \<Rightarrow> 'd) \<Rightarrow> 'd view \<Rightarrow> view_event \<Rightarrow> 'd view" where
  "view_step absorb clear start v (ViewRender target) = fst (render_view clear start target v)"
| "view_step absorb clear start v (ViewAnswer n silent a) = view_answer absorb n silent a v"
| "view_step absorb clear start v (ViewFailed n silent m) = view_failed n silent m v"
| "view_step absorb clear start v ViewRendered = view_rendered v"
| "view_step absorb clear start v (ViewTick t) = (if t \<in> set (tv_running v) then fst (refresh_view v) else v)"
| "view_step absorb clear start v ViewButton = (if tv_shown v then fst (refresh_view v) else v)"
| "view_step absorb clear start v (ViewFrame f) = run_frame f v"
| "view_step absorb clear start v ViewLeave = leave_view clear v"

subsection \<open>What holds of every drawing\<close>

text \<open>The interval known is the only one that runs, and only while the drawing is on display.\<close>

definition view_quiet :: "'d view \<Rightarrow> bool" where
  "view_quiet v \<longleftrightarrow> tv_running v = (case tv_timer v of Some t \<Rightarrow> [t] | None \<Rightarrow> []) \<and> (\<not> tv_shown v \<longrightarrow> tv_timer v = None)"

lemma quiet_stop: "view_quiet v \<Longrightarrow> tv_running (stop_view v) = [] \<and> tv_timer (stop_view v) = None"
  by (simp add: view_quiet_def stop_view_def split: option.splits)

lemma stop_view_frame [simp]:
  "tv_shown (stop_view v) = tv_shown v" "tv_data (stop_view v) = tv_data v" "tv_next (stop_view v) = tv_next v"
  "tv_serial (stop_view v) = tv_serial v" "tv_flight (stop_view v) = tv_flight v" "tv_frames (stop_view v) = tv_frames v"
  "tv_frame (stop_view v) = tv_frame v"
  by (simp_all add: stop_view_def split: option.splits)

lemma quiet_leave: "view_quiet v \<Longrightarrow> tv_running (leave_view clear v) = [] \<and> tv_timer (leave_view clear v) = None"
  using quiet_stop [of v] by (simp add: leave_view_def Let_def split: option.splits)

lemma leave_view_frame [simp]:
  "\<not> tv_shown (leave_view clear v)" "tv_data (leave_view clear v) = clear (tv_data v)" "\<not> tv_flight (leave_view clear v)"
  "tv_serial (leave_view clear v) = tv_serial v" "tv_next (leave_view clear v) = tv_next v"
  by (simp_all add: leave_view_def Let_def split: option.splits)

lemma refresh_frame [simp]:
  "tv_running (fst (refresh_view v)) = tv_running v" "tv_timer (fst (refresh_view v)) = tv_timer v"
  "tv_shown (fst (refresh_view v)) = tv_shown v" "tv_data (fst (refresh_view v)) = tv_data v"
  "tv_frames (fst (refresh_view v)) = tv_frames v" "tv_frame (fst (refresh_view v)) = tv_frame v" "tv_next (fst (refresh_view v)) = tv_next v"
  by (simp_all add: refresh_view_def)

lemma schedule_view_frame [simp]: "tv_data (schedule_view v) = tv_data v" "tv_shown (schedule_view v) = tv_shown v"
  by (simp_all add: schedule_view_def Let_def)

lemma settled_frame [simp]:
  "tv_running (view_settled n v) = tv_running v" "tv_timer (view_settled n v) = tv_timer v" "tv_shown (view_settled n v) = tv_shown v"
  "tv_data (view_settled n v) = tv_data v" "tv_error (view_settled n v) = tv_error v" "tv_toasts (view_settled n v) = tv_toasts v"
  by (simp_all add: view_settled_def)

lemma error_frame [simp]:
  "tv_running (view_error s m v) = tv_running v" "tv_timer (view_error s m v) = tv_timer v" "tv_shown (view_error s m v) = tv_shown v"
  "tv_data (view_error s m v) = tv_data v" "tv_serial (view_error s m v) = tv_serial v"
  by (simp_all add: view_error_def)

lemma frame_frame [simp]:
  "tv_running (ask_frame v) = tv_running v" "tv_timer (ask_frame v) = tv_timer v" "tv_shown (ask_frame v) = tv_shown v"
  "tv_data (ask_frame v) = tv_data v"
  by (simp_all add: ask_frame_def)

lemma run_frame_frame [simp]:
  "tv_running (run_frame f v) = tv_running v" "tv_timer (run_frame f v) = tv_timer v" "tv_shown (run_frame f v) = tv_shown v"
  "tv_data (run_frame f v) = tv_data v"
  by (simp_all add: run_frame_def Let_def)

lemma quiet_cong:
  "tv_running w = tv_running v \<Longrightarrow> tv_timer w = tv_timer v \<Longrightarrow> tv_shown w = tv_shown v \<Longrightarrow> view_quiet w = view_quiet v"
  by (simp add: view_quiet_def)

lemma quiet_settled [simp]: "view_quiet (view_settled n v) = view_quiet v"
  by (rule quiet_cong) simp_all

lemma quiet_schedule: "view_quiet v \<Longrightarrow> tv_shown v \<Longrightarrow> view_quiet (schedule_view v)"
  using quiet_stop [of v] by (simp add: schedule_view_def view_quiet_def Let_def)

lemma quiet_data [simp]: "view_quiet (v\<lparr>tv_data := d\<rparr>) = view_quiet v" "view_quiet (v\<lparr>tv_error := m\<rparr>) = view_quiet v"
  by (simp_all add: view_quiet_def)

lemma quiet_error [simp]: "view_quiet (view_error s m v) = view_quiet v"
  by (rule quiet_cong) simp_all

lemma quiet_answer: "view_quiet v \<Longrightarrow> view_quiet (view_answer absorb n s a v)"
  by (auto simp: view_answer_def quiet_schedule split: prod.splits bool.splits)

lemma quiet_step: "view_quiet v \<Longrightarrow> view_quiet (view_step absorb clear start v e)"
proof (cases e)
  case (ViewRender t)
  assume "view_quiet v"
  then show ?thesis using ViewRender quiet_leave [of v clear] by (simp add: render_view_def view_quiet_def Let_def)
next
  case ViewLeave
  assume "view_quiet v"
  then show ?thesis using ViewLeave quiet_leave [of v clear] by (simp add: view_quiet_def)
next
  case (ViewAnswer n s a)
  assume "view_quiet v"
  then show ?thesis using ViewAnswer quiet_answer by simp
qed (auto simp: view_failed_def view_rendered_def view_quiet_def)

lemma quiet_run: "view_quiet (foldl (view_step absorb clear start) (new_view d) es)"
  by (induction es rule: rev_induct) (simp add: view_quiet_def new_view_def, simp add: quiet_step)

text \<open>
  A drawing that has been left asks the server for nothing more, whatever answers and frames are still to come, until it
  is rendered again.
\<close>

lemma left_view_silent:
  assumes "view_quiet v" and "\<not> tv_shown v" and "\<forall>e \<in> set es. \<forall>t. e \<noteq> ViewRender t"
  shows "tv_running (foldl (view_step absorb clear start) v es) = [] \<and> tv_serial (foldl (view_step absorb clear start) v es) = tv_serial v"
proof -
  have "view_quiet w \<and> \<not> tv_shown w \<and> tv_serial w = tv_serial v" if "w = foldl (view_step absorb clear start) v es" for w
    using assms(3) that
  proof (induction es arbitrary: w rule: rev_induct)
    case Nil
    then show ?case using assms(1,2) by simp
  next
    case (snoc e es)
    define u where "u = foldl (view_step absorb clear start) v es"
    have u: "view_quiet u" "\<not> tv_shown u" "tv_serial u = tv_serial v" using snoc.IH [of u] snoc.prems(1) u_def by auto
    then have "tv_running u = []" by (simp add: view_quiet_def)
    then have "\<not> tv_shown (view_step absorb clear start u e) \<and> tv_serial (view_step absorb clear start u e) = tv_serial u"
      using u(2) snoc.prems(1)
      by (cases e) (auto simp: view_answer_def view_settled_def view_failed_def view_error_def view_rendered_def ask_frame_def run_frame_def Let_def)
    then show ?case using u quiet_step [OF u(1)] snoc.prems(2) u_def by simp
  qed
  from this [OF HOL.refl] show ?thesis by (simp add: view_quiet_def)
qed

text \<open>
  The answer to the last request frees the button; a request that is answered or fails cannot lock it.
\<close>

lemma settled_frees: "\<not> tv_flight (view_failed (tv_serial v) s m v)" "\<not> tv_flight (view_answer absorb (tv_serial v) s a v)"
  by (auto simp: view_failed_def view_settled_def view_answer_def schedule_view_def Let_def split: prod.splits bool.splits)

text \<open>The data of a drawing: its invariant is kept by an answer and by both ends of a visit.\<close>

locale view_data =
  fixes absorb :: "js \<Rightarrow> 'd \<Rightarrow> 'd \<times> bool" and clear :: "'d \<Rightarrow> 'd" and start :: "'d \<Rightarrow> 'd" and good :: "'d \<Rightarrow> bool"
  assumes good_apply: "good d \<Longrightarrow> good (fst (absorb a d))"
    and good_clear: "good d \<Longrightarrow> good (clear d)"
    and good_begin: "good d \<Longrightarrow> good (start d)"
begin

lemma good_answer: "good (tv_data v) \<Longrightarrow> good (tv_data (view_answer absorb n s a v))"
  using good_apply [of "tv_data v" a] by (auto simp: view_answer_def split: prod.splits bool.splits)

lemma good_step: "good (tv_data v) \<Longrightarrow> good (tv_data (view_step absorb clear start v e))"
  by (cases e) (simp_all add: good_answer good_clear good_begin render_view_def view_failed_def view_rendered_def Let_def)

lemma good_run: "good d \<Longrightarrow> good (tv_data (foldl (view_step absorb clear start) (new_view d) es))"
  by (induction es rule: rev_induct) (simp add: new_view_def, simp add: good_step)

end

section \<open>The places of the nodes\<close>

definition ring_counts :: "nat \<Rightarrow> nat \<times> nat" where
  "ring_counts n = (let inner = (if n \<le> 8 then n else nat \<lceil>of_nat n * (52 / 100 :: rat)\<rceil>) in (inner, n - inner))"

text \<open>\<open>unit\<close> is cosine and sine of the angle of a place: of the outer ring or not, its number there, the number of places.\<close>

definition clamp_node :: "rat \<Rightarrow> rat \<Rightarrow> rat \<Rightarrow> rat" where
  "clamp_node extent w x = max 12 (min (extent - w - 12) x)"

definition place_node :: "rat \<times> rat \<Rightarrow> rat \<times> rat \<Rightarrow> bool \<Rightarrow> rat \<times> rat \<Rightarrow> rat \<times> rat" where
  "place_node area dims outer direction =
     (case (area, dims, direction) of
        ((w, h), (nw, nh), (c, s)) \<Rightarrow>
          (let rx = w * (if outer then 39 / 100 else 28 / 100); ry = h * (if outer then 36 / 100 else 28 / 100)
           in (clamp_node w nw (w / 2 + c * rx - nw / 2), clamp_node h nh (h / 2 + s * ry - nh / 2))))"

definition place_nodes :: "rat \<times> rat \<Rightarrow> (bool \<Rightarrow> nat \<Rightarrow> nat \<Rightarrow> rat \<times> rat) \<Rightarrow> (rat \<times> rat) list \<Rightarrow> (rat \<times> rat) list" where
  "place_nodes area unit sizes =
     (case ring_counts (length sizes) of
        (inner, outer) \<Rightarrow>
          map (\<lambda>(i, dims). if i < inner then place_node area dims False (unit False i (max inner 1))
                          else place_node area dims True (unit True (i - inner) (max outer 1))) (enumerate 0 sizes))"

lemma clamp_inside: "w + 24 \<le> extent \<Longrightarrow> 12 \<le> clamp_node extent w x \<and> clamp_node extent w x + w + 12 \<le> extent"
  by (simp add: clamp_node_def)

lemma ring_counts_sum: "fst (ring_counts n) + snd (ring_counts n) = n"
proof -
  have "nat \<lceil>of_nat n * (52 / 100 :: rat)\<rceil> \<le> n"
  proof -
    have "(of_nat n * (52 / 100) :: rat) \<le> of_int (int n)" by simp
    then have "\<lceil>of_nat n * (52 / 100 :: rat)\<rceil> \<le> int n" by (rule ceiling_le)
    then show ?thesis by simp
  qed
  then show ?thesis by (simp add: ring_counts_def Let_def)
qed

lemma place_nodes_length: "length (place_nodes area unit sizes) = length sizes"
  by (simp add: place_nodes_def split: prod.splits)

lemma place_nodes_inside:
  assumes "i < length sizes" and "sizes ! i = (nw, nh)" and "nw + 24 \<le> w" and "nh + 24 \<le> h"
  shows "case place_nodes (w, h) unit sizes ! i of (x, y) \<Rightarrow> 12 \<le> x \<and> x + nw + 12 \<le> w \<and> 12 \<le> y \<and> y + nh + 12 \<le> h"
  using assms clamp_inside
  by (simp add: place_nodes_def place_node_def nth_enumerate_eq Let_def split: prod.splits)

section \<open>Particles\<close>

record particle =
  pt_progress :: rat
  pt_speed :: rat
  pt_forward :: bool
  pt_size :: rat

definition whole_round :: "rat \<Rightarrow> int" where
  "whole_round q = \<lfloor>q + 1 / 2\<rfloor>"

text \<open>The particles of a node, by its heat as a share and the number that the heat asks for; \<open>rnd\<close> is \<^verbatim>\<open>Math.random\<close>.\<close>

definition particle_count :: "rat \<Rightarrow> nat" where
  "particle_count wanted = nat (max 2 (min 8 (whole_round wanted + 2)))"

definition node_particles :: "(nat \<Rightarrow> rat) \<Rightarrow> rat \<Rightarrow> rat \<Rightarrow> particle list" where
  "node_particles rnd wanted share =
     map (\<lambda>i. \<lparr>pt_progress = rnd i, pt_speed = 8 / 100 + share * (22 / 100) + of_nat i * (1 / 100), pt_forward = even i,
              pt_size = 18 / 10 + share * (24 / 10)\<rparr>) [0..<particle_count wanted]"

definition frame_seconds :: "rat \<Rightarrow> rat \<Rightarrow> rat" where
  "frame_seconds last_at stamp = min (8 / 100) ((stamp - (if last_at = 0 then stamp else last_at)) / 1000)"

definition move_particle :: "rat \<Rightarrow> particle \<Rightarrow> particle" where
  "move_particle dt p =
     (let x = pt_progress p + (if pt_forward p then 1 else -1) * pt_speed p * dt;
          y = (if 1 < x then 0 else x)
      in p\<lparr>pt_progress := (if y < 0 then 1 else y)\<rparr>)"

definition point_at :: "rat \<times> rat \<Rightarrow> rat \<times> rat \<Rightarrow> rat \<Rightarrow> rat \<times> rat" where
  "point_at from to t = (fst from + (fst to - fst from) * t, snd from + (snd to - snd from) * t)"

lemma particle_count_bounds: "2 \<le> particle_count q \<and> particle_count q \<le> 8"
proof -
  have "2 \<le> max 2 (min 8 (whole_round q + 2)) \<and> max 2 (min 8 (whole_round q + 2)) \<le> 8" by auto
  then show ?thesis unfolding particle_count_def by linarith
qed

lemma move_particle_range: "0 \<le> pt_progress (move_particle dt p) \<and> pt_progress (move_particle dt p) \<le> 1"
  by (simp add: move_particle_def Let_def)

lemma between_ends:
  fixes a b t :: rat
  assumes "0 \<le> t" and "t \<le> 1"
  shows "min a b \<le> a + (b - a) * t \<and> a + (b - a) * t \<le> max a b"
proof (cases "a \<le> b")
  case True
  then have "0 \<le> (b - a) * t" "(b - a) * t \<le> b - a" using assms by (simp_all add: mult_left_le)
  then show ?thesis using True by (simp add: min_def max_def)
next
  case False
  then have "0 \<le> (a - b) * t" "(a - b) * t \<le> a - b" using assms by (simp_all add: mult_left_le)
  then show ?thesis using False by (simp add: algebra_simps min_def max_def)
qed

text \<open>A particle stays on the line between its node and the centre, however long a frame takes.\<close>

lemma particle_on_line:
  "let (x, y) = point_at (a, b) (c, d) (pt_progress (move_particle dt p))
   in min a c \<le> x \<and> x \<le> max a c \<and> min b d \<le> y \<and> y \<le> max b d"
  using between_ends [of "pt_progress (move_particle dt p)" a c] between_ends [of "pt_progress (move_particle dt p)" b d]
    move_particle_range [of dt p]
  by (simp add: point_at_def)

section \<open>The bars of a ranking\<close>

definition bar_width :: "rat list \<Rightarrow> rat \<Rightarrow> int" where
  "bar_width all x = max 8 (whole_round (x / foldr max all 1 * 100))"

lemma foldr_max_member: "x \<in> set xs \<Longrightarrow> x \<le> foldr max xs (m :: rat)"
  by (induction xs) auto

lemma foldr_max_start: "m \<le> foldr max xs (m :: rat)"
  by (induction xs) auto

lemma bar_width_bounds:
  assumes "x \<in> set all"
  shows "8 \<le> bar_width all x \<and> bar_width all x \<le> 100"
proof -
  let ?m = "foldr max all 1"
  have "x \<le> ?m" "1 \<le> ?m" using assms foldr_max_member foldr_max_start by blast+
  then have "x / ?m * 100 \<le> 100" by (simp add: divide_le_eq)
  then have "whole_round (x / ?m * 100) \<le> 100" by (simp add: whole_round_def floor_le_iff)
  then show ?thesis by (simp add: bar_width_def)
qed

lemma bar_width_mono: "x \<le> y \<Longrightarrow> bar_width all x \<le> bar_width all y"
proof -
  assume "x \<le> y"
  moreover have "1 \<le> foldr max all (1 :: rat)" by (rule foldr_max_start)
  ultimately have "x / foldr max all 1 * 100 \<le> y / foldr max all 1 * 100" by (simp add: divide_right_mono)
  then have "whole_round (x / foldr max all 1 * 100) \<le> whole_round (y / foldr max all 1 * 100)"
    unfolding whole_round_def by (intro floor_mono) simp
  then show ?thesis by (simp add: bar_width_def)
qed

end
