(* ===== verification/InstanceTraffic.thy ===== *)
theory InstanceTraffic
  imports TopologyView Format
begin

text \<open>
  The traffic of an instance (pages/instance-traffic.js), a drawing embedded in its page: the clients, the numbers above
  them, the ranking, and the history of the bandwidth with its chart; the life cycle is that of \<open>TopologyView\<close>.
  \<open>isotime\<close> is \<^verbatim>\<open>new Date(v).toISOString()\<close>, which throws on what is no time, \<open>now\<close> the present time as this text, \<open>time\<close>
  prints a time, \<open>trp\<close> translates a key with parameters.  Rates and scores are numbers or missing.
\<close>

section \<open>History\<close>

record traffic_point =
  tp_time :: js
  tp_rx :: js
  tp_tx :: js
  tp_total :: js
  tp_mode :: js

record traffic_data =
  td_answer :: js
  td_source :: js
  td_history :: "traffic_point list"
  td_visible :: "js list"
  td_interval :: jnum
  td_chart :: "(string \<times> js \<times> js \<times> js) list option"

definition backend_point :: "js \<Rightarrow> traffic_point" where
  "backend_point i = \<lparr>tp_time = field i ''timestamp'', tp_rx = field i ''rx_rate'', tp_tx = field i ''tx_rate'',
     tp_total = field i ''total_rate'', tp_mode = js_or (field i ''mode'') (JStr ''measured'')\<rparr>"

text \<open>The place of the first point of the same time; looking for it throws on a time that is none.\<close>

fun same_time :: "(js \<Rightarrow> string option) \<Rightarrow> string \<Rightarrow> traffic_point list \<Rightarrow> nat \<Rightarrow> nat option option" where
  "same_time isotime t [] i = Some None"
| "same_time isotime t (p # ps) i =
     (case isotime (tp_time p) of
        None \<Rightarrow> None
      | Some u \<Rightarrow> if u = t then Some (Some i) else same_time isotime t ps (Suc i))"

definition upsert_point :: "(js \<Rightarrow> string option) \<Rightarrow> traffic_point \<Rightarrow> traffic_point list \<Rightarrow> traffic_point list option" where
  "upsert_point isotime p ps =
     (if nullish (tp_total p) then Some ps
      else case isotime (tp_time p) of
             None \<Rightarrow> None
           | Some t \<Rightarrow>
               (let q = p\<lparr>tp_time := JStr t, tp_mode := js_or (tp_mode p) (JStr ''measured'')\<rparr>
                in case same_time isotime t ps 0 of
                     None \<Rightarrow> None
                   | Some (Some i) \<Rightarrow> Some (ps[i := q])
                   | Some None \<Rightarrow> Some (ps @ [q])))"

definition last_points :: "nat \<Rightarrow> 'a list \<Rightarrow> 'a list" where
  "last_points n xs = drop (length xs - n) xs"

definition history_limit :: nat where
  "history_limit = 36"

definition history_base :: "js \<Rightarrow> traffic_point list \<Rightarrow> traffic_point list" where
  "history_base a ps =
     (let backend = elements (field a ''history'')
      in if is_arr (field a ''history'') \<and> backend \<noteq> [] then map backend_point backend else ps)"

definition update_history :: "(js \<Rightarrow> string option) \<Rightarrow> string \<Rightarrow> js \<Rightarrow> traffic_point list \<Rightarrow> traffic_point list option" where
  "update_history isotime now a ps =
     (let p = \<lparr>tp_time = js_or (field a ''captured_at'') (JStr now), tp_rx = field a ''total_rx_rate'', tp_tx = field a ''total_tx_rate'',
               tp_total = field a ''total_rate'', tp_mode = js_or (field a ''rate_mode'') (JStr ''unavailable'')\<rparr>
      in map_option (last_points history_limit) (upsert_point isotime p (history_base a ps)))"

section \<open>Chart\<close>

definition measured_points :: "js \<Rightarrow> traffic_point list \<Rightarrow> traffic_point list" where
  "measured_points a ps =
     (if field a ''rate_mode'' = JStr ''measured''
      then filter (\<lambda>p. \<not> nullish (tp_total p) \<and> tp_mode p = JStr ''measured'') ps else [])"

text \<open>Labels and the three lines of the chart, which is made with its first points and kept.\<close>

definition traffic_chart :: "(js \<Rightarrow> string) \<Rightarrow> js \<Rightarrow> traffic_point list \<Rightarrow> (string \<times> js \<times> js \<times> js) list option
    \<Rightarrow> (string \<times> js \<times> js \<times> js) list option" where
  "traffic_chart time a ps chart =
     (case measured_points a ps of
        [] \<Rightarrow> map_option (\<lambda>_. []) chart
      | qs \<Rightarrow> Some (map (\<lambda>p. (time (tp_time p), js_coalesce (tp_total p) JNull, js_coalesce (tp_rx p) JNull, js_coalesce (tp_tx p) JNull)) qs))"

text \<open>The note over an empty chart.\<close>

definition chart_note :: "js \<Rightarrow> traffic_point list \<Rightarrow> string option" where
  "chart_note a ps =
     (if measured_points a ps \<noteq> [] then None
      else if field a ''rate_mode'' = JStr ''unavailable'' then Some ''theCurrentDatabaseTypeDoesNotSupport''
      else Some ''waitingForTrendData'')"

section \<open>An answer\<close>

definition traffic_clients :: "js \<Rightarrow> js list" where
  "traffic_clients a = elements (js_or (field a ''clients'') (JArr []))"

definition visible_limit :: nat where
  "visible_limit = 12"

text \<open>\<^verbatim>\<open>Math.max(3, n)\<close>.\<close>

fun at_least_three :: "jnum \<Rightarrow> jnum" where
  "at_least_three (Fin q) = Fin (max 3 q)"
| "at_least_three MInf = Fin 3"
| "at_least_three n = n"

text \<open>\<open>_applyData\<close>, after the answer was stored: it throws when a time of the history is none; an empty answer changes nothing.\<close>

definition apply_traffic :: "(js \<Rightarrow> string option) \<Rightarrow> string \<Rightarrow> (js \<Rightarrow> string) \<Rightarrow> js \<Rightarrow> traffic_data \<Rightarrow> traffic_data \<times> bool" where
  "apply_traffic isotime now time answer d =
     (let a = js_or answer JNull;
          d1 = d\<lparr>td_answer := a, td_source := js_or (field answer ''datasource'') (td_source d),
                 td_interval := at_least_three (parse_int_str (js_string (js_or (field answer ''poll_interval_seconds'') (JInt 5))))\<rparr>
      in if \<not> truthy a then (d1, True)
         else (let d2 = d1\<lparr>td_visible := take visible_limit (traffic_clients a)\<rparr>
               in case update_history isotime now a (td_history d2) of
                    None \<Rightarrow> (d2\<lparr>td_history := history_base a (td_history d2)\<rparr>, False)
                  | Some ps \<Rightarrow> (d2\<lparr>td_history := ps, td_chart := traffic_chart time a ps (td_chart d2)\<rparr>, True)))"

text \<open>\<open>cleanup\<close> and the rest of \<open>render\<close>; the datasource is the one that the page of the instance hands over.\<close>

definition clear_traffic :: "traffic_data \<Rightarrow> traffic_data" where
  "clear_traffic d = d\<lparr>td_answer := JNull, td_visible := [], td_chart := None\<rparr>"

definition begin_traffic :: "js \<Rightarrow> traffic_data \<Rightarrow> traffic_data" where
  "begin_traffic source d = d\<lparr>td_source := js_or source JNull, td_history := []\<rparr>"

definition no_traffic :: traffic_data where
  "no_traffic = \<lparr>td_answer = JNull, td_source = JNull, td_history = [], td_visible = [], td_interval = Fin 5, td_chart = None\<rparr>"

section \<open>What is shown\<close>

definition hidden_clients :: "traffic_data \<Rightarrow> nat" where
  "hidden_clients d = length (traffic_clients (td_answer d)) - length (td_visible d)"

definition rate_mode_label :: "js \<Rightarrow> string" where
  "rate_mode_label mode = (if mode = JStr ''measured'' then ''measuredFlowRate'' else ''noTrafficYet'')"

definition max_sessions :: "js \<Rightarrow> string" where
  "max_sessions v =
     (if nullish v \<or> to_lower (js_string v) = ''null'' then ''--''
      else case to_number v of Fin q \<Rightarrow> if 0 < q then str_of_rat q else ''--'' | _ \<Rightarrow> ''--'')"

text \<open>Clients, active and all sessions, their limit; the traffic both ways when it is measured.\<close>

definition traffic_stats :: "js \<Rightarrow> (string \<times> string \<times> string \<times> string) \<times> (string \<times> string) option" where
  "traffic_stats a =
     (let count = (\<lambda>k. js_string (js_or (field a k) (JInt 0)));
          rate = (\<lambda>k. if nullish (field a k) then ''--'' else format_network_rate (field a k))
      in ((count ''total_client_count'', count ''active_session_count'', count ''total_session_count'', max_sessions (field a ''max_session_count'')),
          if field a ''rate_mode'' = JStr ''measured'' then Some (rate ''total_tx_rate'', rate ''total_rx_rate'') else None))"

definition server_meta :: "(js \<Rightarrow> string) \<Rightarrow> traffic_data \<Rightarrow> string list" where
  "server_meta db_label d =
     (let s = js_or (field (td_answer d) ''datasource'') (js_or (td_source d) (JObj []))
      in filter (\<lambda>t. t \<noteq> [])
           [if truthy (field s ''db_type'') then db_label (field s ''db_type'') else [],
            if truthy (field s ''host'') then js_string (field s ''host'') @ '':'' @ js_string (field s ''port'') else [],
            if truthy (field s ''database'') then js_string (field s ''database'') else []])"

definition number_or_zero :: "js \<Rightarrow> rat" where
  "number_or_zero v = (case v of JNum (Fin q) \<Rightarrow> q | _ \<Rightarrow> 0)"

definition client_rate :: "(string \<Rightarrow> (string \<times> js) list \<Rightarrow> string) \<Rightarrow> js \<Rightarrow> string" where
  "client_rate trp c =
     (if \<not> nullish (field c ''estimated_total_rate'') then format_network_rate (field c ''estimated_total_rate'')
      else trp ''hotnessValue'' [(''value0'', JInt (whole_round (number_or_zero (field c ''heat_score''))))])"

definition node_meta :: "(string \<Rightarrow> (string \<times> js) list \<Rightarrow> string) \<Rightarrow> js \<Rightarrow> string" where
  "node_meta trp c =
     join '' / '' (trp ''sessionCount'' [(''value0'', js_or (field c ''session_count'') (JInt 0))]
       # (if truthy (field c ''active_session_count'') then [trp ''activeCount'' [(''value0'', field c ''active_session_count'')]] else [])
       @ (if truthy (field c ''waiting_session_count'') then [trp ''waitingCount'' [(''value0'', field c ''waiting_session_count'')]] else []))"

definition list_meta :: "(string \<Rightarrow> (string \<times> js) list \<Rightarrow> string) \<Rightarrow> js \<Rightarrow> string list" where
  "list_meta trp c =
     [trp ''sessionCount'' [(''value0'', js_or (field c ''session_count'') (JInt 0))],
      trp ''activeCount'' [(''value0'', js_or (field c ''active_session_count'') (JInt 0))],
      trp ''waitingCount'' [(''value0'', js_or (field c ''waiting_session_count'') (JInt 0))]]
     @ (if nullish (field c ''max_duration_seconds'') then []
        else [trp ''longestValue'' [(''value0'', JStr (format_uptime (field c ''max_duration_seconds'')))]])"

text \<open>The ranking: its heading, and for each client its place, its rate and the width of its bar.\<close>

definition traffic_ranking :: "(string \<Rightarrow> (string \<times> js) list \<Rightarrow> string) \<Rightarrow> js \<Rightarrow> string \<times> (nat \<times> js \<times> string \<times> int) list" where
  "traffic_ranking trp a =
     (let cs = traffic_clients a; rate = (\<lambda>c. number_or_zero (field c ''estimated_total_rate''))
      in (if field a ''rate_mode'' = JStr ''measured'' then ''sortByRealTimeLinkBandwidth'' else ''sortBySessionActivityPopularity'',
          map (\<lambda>(i, c). (i, c, client_rate trp c, bar_width (map rate cs) (rate c))) (enumerate 1 cs)))"

definition status_color :: "js \<Rightarrow> nat \<times> nat \<times> nat" where
  "status_color s =
     (if s = JStr ''active'' then (34, 211, 238) else if s = JStr ''waiting'' then (245, 158, 11)
      else if s = JStr ''idle'' then (129, 140, 248) else (148, 163, 184))"

text \<open>The layout of the clients on display, and the particles of one.\<close>

definition client_layout :: "rat \<times> rat \<Rightarrow> (bool \<Rightarrow> nat \<Rightarrow> nat \<Rightarrow> rat \<times> rat) \<Rightarrow> (js \<Rightarrow> rat \<times> rat) \<Rightarrow> traffic_data \<Rightarrow> (js \<times> rat \<times> rat) list" where
  "client_layout area unit dims d =
     map (\<lambda>(c, (x, y)). (c, x + fst (dims c) / 2, y + snd (dims c) / 2))
       (zip (td_visible d) (place_nodes area unit (map dims (td_visible d))))"

definition client_particles :: "(nat \<Rightarrow> rat) \<Rightarrow> js \<Rightarrow> particle list" where
  "client_particles rnd c =
     (let heat = number_or_zero (field c ''heat_score'') in node_particles rnd (of_int (whole_round (heat / 18))) (heat / 100))"

definition link_width :: "bool \<Rightarrow> js \<Rightarrow> rat" where
  "link_width hovered c = 14 / 10 + number_or_zero (field c ''heat_score'') / 100 * 4 + (if hovered then 12 / 10 else 0)"

definition client_clicked :: "traffic_data \<Rightarrow> string \<Rightarrow> js option" where
  "client_clicked d i = find (\<lambda>c. field c ''client_id'' = JStr i) (traffic_clients (td_answer d))"

section \<open>The history is short and has each time once\<close>

definition times_of :: "(js \<Rightarrow> string option) \<Rightarrow> traffic_point list \<Rightarrow> string option list" where
  "times_of isotime ps = map (\<lambda>p. isotime (tp_time p)) ps"

text \<open>The text of a time is its own time.\<close>

definition iso_stable :: "(js \<Rightarrow> string option) \<Rightarrow> bool" where
  "iso_stable isotime \<longleftrightarrow> (\<forall>v t. isotime v = Some t \<longrightarrow> isotime (JStr t) = Some t)"

definition good_traffic :: "traffic_data \<Rightarrow> bool" where
  "good_traffic d \<longleftrightarrow> length (td_history d) \<le> history_limit \<and> length (td_visible d) \<le> visible_limit
     \<and> (\<forall>qs. td_chart d = Some qs \<longrightarrow> length qs \<le> history_limit)"

lemma length_last_points: "length (last_points n xs) = min n (length xs)"
  by (simp add: last_points_def)

lemma update_history_short: "update_history isotime now a ps = Some qs \<Longrightarrow> length qs \<le> history_limit"
  by (auto simp: update_history_def Let_def length_last_points)

lemma traffic_chart_short:
  assumes "traffic_chart time a ps chart = Some qs" and "length ps \<le> n" and "\<forall>rs. chart = Some rs \<longrightarrow> length rs \<le> n"
  shows "length qs \<le> n"
proof -
  have "length (measured_points a ps) \<le> length ps" by (simp add: measured_points_def)
  then have "length (measured_points a ps) \<le> n" using assms(2) by linarith
  then show ?thesis using assms(1,3) by (auto simp: traffic_chart_def split: list.splits)
qed

text \<open>From here on every time that is sent is one.\<close>

lemma same_time_total: "same_time (\<lambda>v. Some (f v)) t ps i = None \<longleftrightarrow> False"
  by (induction ps arbitrary: i) auto

lemma update_history_total: "update_history (\<lambda>v. Some (f v)) now a ps \<noteq> None"
  by (auto simp: update_history_def upsert_point_def same_time_total Let_def split: option.splits)

interpretation traffic: view_data "apply_traffic (\<lambda>v. Some (f v)) now time" clear_traffic "begin_traffic source" good_traffic
proof
  fix d a
  assume g: "good_traffic d"
  have v: "length (take visible_limit xs) \<le> visible_limit" for xs :: "js list" by simp
  obtain ps where u: "update_history (\<lambda>v. Some (f v)) now (js_or a JNull) (td_history d) = Some ps"
    using update_history_total by blast
  have "length qs \<le> history_limit" if "traffic_chart time (js_or a JNull) ps (td_chart d) = Some qs" for qs
    using traffic_chart_short [OF that update_history_short [OF u]] g by (simp add: good_traffic_def)
  then show "good_traffic (fst (apply_traffic (\<lambda>v. Some (f v)) now time a d))"
    using g v u update_history_short [OF u] by (auto simp: apply_traffic_def good_traffic_def Let_def)
  show "good_traffic (clear_traffic d)" "good_traffic (begin_traffic source d)"
    using g by (auto simp: clear_traffic_def begin_traffic_def good_traffic_def split: option.splits)
qed

lemma same_time_sound:
  "same_time isotime t ps i = Some None \<Longrightarrow> Some t \<notin> set (times_of isotime ps)"
  "same_time isotime t ps i = Some (Some j) \<Longrightarrow> i \<le> j \<and> j - i < length ps \<and> isotime (tp_time (ps ! (j - i))) = Some t"
proof (induction ps arbitrary: i)
  case (Cons p ps)
  {
    case 1
    then show ?case using Cons.IH(1) [of "Suc i"] by (auto simp: times_of_def split: option.splits if_splits)
  next
    case 2
    then show ?case using Cons.IH(2) [of "Suc i"] by (auto simp: nth_Cons' Suc_diff_Suc split: option.splits if_splits)
  }
qed (simp_all add: times_of_def)

lemma upsert_distinct:
  assumes "iso_stable isotime" and "distinct (times_of isotime ps)" and "upsert_point isotime p ps = Some qs"
  shows "distinct (times_of isotime qs)"
proof (cases "nullish (tp_total p)")
  case False
  then obtain t where t: "isotime (tp_time p) = Some t" using assms(3) by (auto simp: upsert_point_def split: option.splits)
  then have s: "isotime (JStr t) = Some t" using assms(1) by (auto simp: iso_stable_def)
  define q where "q = p\<lparr>tp_time := JStr t, tp_mode := js_or (tp_mode p) (JStr ''measured'')\<rparr>"
  have q: "isotime (tp_time q) = Some t" using s by (simp add: q_def)
  consider "same_time isotime t ps 0 = Some None" "qs = ps @ [q]"
    | j where "same_time isotime t ps 0 = Some (Some j)" "qs = ps[j := q]"
    using assms(3) False t by (auto simp: upsert_point_def q_def Let_def split: option.splits)
  then show ?thesis
  proof cases
    case 1
    then show ?thesis using same_time_sound(1) assms(2) q by (auto simp: times_of_def)
  next
    case 2
    have j: "j < length ps" "isotime (tp_time (ps ! j)) = Some t" using same_time_sound(2) [OF 2(1)] by simp_all
    then have "times_of isotime qs = times_of isotime ps" using 2(2) q by (simp add: times_of_def map_update) (metis list_update_id map_update nth_map)
    then show ?thesis using assms(2) by simp
  qed
qed (use assms in \<open>simp add: upsert_point_def\<close>)



text \<open>
  The history has each time once: a sample of a time that it has already takes the place of the old one, provided that
  the server's own history has each time once.
\<close>

theorem history_times_distinct:
  assumes "iso_stable isotime" and "distinct (times_of isotime ps)" and "distinct (times_of isotime (map backend_point (elements (field a ''history''))))"
    and "update_history isotime now a ps = Some qs"
  shows "distinct (times_of isotime qs)"
proof -
  obtain p ps' rs where r: "upsert_point isotime p ps' = Some rs" "qs = last_points history_limit rs" "distinct (times_of isotime ps')"
  proof -
    define p where "p = \<lparr>tp_time = js_or (field a ''captured_at'') (JStr now), tp_rx = field a ''total_rx_rate'', tp_tx = field a ''total_tx_rate'',
               tp_total = field a ''total_rate'', tp_mode = js_or (field a ''rate_mode'') (JStr ''unavailable'')\<rparr>"
    have "distinct (times_of isotime (history_base a ps))" using assms(2,3) by (simp add: history_base_def Let_def)
    moreover obtain rs where "upsert_point isotime p (history_base a ps) = Some rs" "qs = last_points history_limit rs"
      using assms(4) unfolding update_history_def Let_def p_def [symmetric] by auto
    ultimately show ?thesis using that by blast
  qed
  then have "distinct (times_of isotime rs)" using upsert_distinct [OF assms(1)] by blast
  then show ?thesis unfolding r(2) by (simp add: times_of_def last_points_def drop_map [symmetric] distinct_drop)
qed

definition demo_iso :: "js \<Rightarrow> string option" where
  "demo_iso v = (case v of JStr s \<Rightarrow> Some s | _ \<Rightarrow> None)"

theorem history_times_distinct_witness:
  "\<exists>qs. update_history demo_iso ''t3'' (JObj [(''captured_at'', JStr ''t1''), (''total_rate'', JInt 5)])
       [backend_point (JObj [(''timestamp'', JStr ''t1'')]), backend_point (JObj [(''timestamp'', JStr ''t2'')])] = Some qs
    \<and> length qs = 2 \<and> distinct (times_of demo_iso qs)"
proof -
  let ?a = "JObj [(''captured_at'', JStr ''t1''), (''total_rate'', JInt 5)]"
    and ?ps = "[backend_point (JObj [(''timestamp'', JStr ''t1'')]), backend_point (JObj [(''timestamp'', JStr ''t2'')])]"
  have s: "iso_stable demo_iso" by (auto simp: iso_stable_def demo_iso_def split: js.splits)
  have d: "distinct (times_of demo_iso ?ps)" by (simp add: times_of_def demo_iso_def backend_point_def)
  have e: "distinct (times_of demo_iso (map backend_point (elements (field ?a ''history''))))" by (simp add: times_of_def)
  obtain qs where q: "update_history demo_iso ''t3'' ?a ?ps = Some qs" "length qs = 2"
    by (simp add: update_history_def history_base_def upsert_point_def demo_iso_def backend_point_def nullish_def js_or_def last_points_def history_limit_def Let_def)
  show ?thesis using q history_times_distinct [OF s d e q(1)] by blast
qed

section \<open>Requests that overlap\<close>

text \<open>
  An answer of an earlier visit changes nothing, but its failure is written into the drawing on display, and shown as a
  message: the check of the number is missing there.
\<close>

theorem old_failure_shown:
  assumes "tv_shown v" and "request \<noteq> tv_serial v"
  shows "view_answer (apply_traffic isotime now time) request False a v = v
    \<and> tv_error (view_failed request False m v) = Some m \<and> tv_toasts (view_failed request False m v) = Suc (tv_toasts v)"
  using assms by (simp add: view_answer_def view_failed_def view_settled_def view_error_def)

theorem old_failure_shown_witness:
  "let v = foldl (view_step (apply_traffic (\<lambda>_. None) [] (\<lambda>_. [])) clear_traffic (begin_traffic JNull)) (new_view no_traffic)
             [ViewRender (JInt 1), ViewRender (JInt 2)]
   in tv_target v = JInt 2 \<and> tv_error (view_failed 1 False ''timeout'' v) = Some ''timeout''"
proof -
  let ?v = "foldl (view_step (apply_traffic (\<lambda>_. None) [] (\<lambda>_. [])) clear_traffic (begin_traffic JNull)) (new_view no_traffic)
             [ViewRender (JInt 1), ViewRender (JInt 2)]"
  have "tv_shown ?v" "tv_serial ?v = 2" "tv_target ?v = JInt 2"
    by (simp_all add: render_view_def refresh_view_def leave_view_def stop_view_def new_view_def Let_def)
  then show ?thesis using old_failure_shown [of ?v 1 "\<lambda>_. None" "[]" "\<lambda>_. []" JNull "''timeout''"] by (simp add: Let_def)
qed

text \<open>
  Two renderings that overlap start two animations, of which the drawing knows one: every frame is drawn twice, and
  after the next visit begins at once, the one that it does not know goes on.
\<close>

theorem overlapping_renders_draw_twice:
  assumes "tv_shown v" and "f \<noteq> g" and "f < tv_next v" and "g < tv_next v" and "tv_frames v = [g, f]" and "tv_frame v = Some g"
    and "\<not> tv_flight v" and "truthy target"
  shows "length (tv_frames (run_frame g (run_frame f v))) = 2
    \<and> tv_frames (fst (render_view clear_traffic (begin_traffic source) target v)) = [f]"
  using assms
  by (simp add: run_frame_def ask_frame_def render_view_def refresh_view_def leave_view_def stop_view_def Let_def split: option.splits)

theorem overlapping_renders_draw_twice_witness:
  "let v = foldl (view_step (apply_traffic (\<lambda>_. None) [] (\<lambda>_. [])) clear_traffic (begin_traffic JNull)) (new_view no_traffic)
             [ViewRender (JInt 1), ViewRender (JInt 2), ViewAnswer 1 False JNull, ViewRendered, ViewAnswer 2 False JNull, ViewRendered]
   in tv_shown v \<and> tv_frames (fst (render_view clear_traffic (begin_traffic JNull) (JInt 3) v)) = [0]"
proof -
  let ?v = "foldl (view_step (apply_traffic (\<lambda>_. None) [] (\<lambda>_. [])) clear_traffic (begin_traffic JNull)) (new_view no_traffic)
             [ViewRender (JInt 1), ViewRender (JInt 2), ViewAnswer 1 False JNull, ViewRendered, ViewAnswer 2 False JNull, ViewRendered]"
  have v: "tv_shown ?v" "tv_frames ?v = [2, 0]" "tv_frame ?v = Some 2" "tv_next ?v = 3" "\<not> tv_flight ?v"
    by (simp_all add: render_view_def refresh_view_def leave_view_def stop_view_def new_view_def view_answer_def view_settled_def
        apply_traffic_def js_or_def schedule_view_def view_rendered_def ask_frame_def Let_def)
  then show ?thesis
    using overlapping_renders_draw_twice [of ?v 0 2 "JInt 3" JNull] by (simp add: Let_def)
qed

section \<open>What is drawn\<close>

text \<open>
  Each client on display has one place, which is inside the drawing when it fits, between two and eight particles, and in
  the ranking a bar between eight and a hundred per cent that is the longer the higher its rate.
\<close>

theorem clients_drawn_inside:
  assumes "c \<in> set (td_visible d)" and "dims c = (nw, nh)" and "nw + 24 \<le> w" and "nh + 24 \<le> h"
  shows "map fst (client_layout (w, h) unit dims d) = td_visible d
    \<and> (\<exists>x y. (c, x, y) \<in> set (client_layout (w, h) unit dims d) \<and> 12 + nw / 2 \<le> x \<and> x + nw / 2 + 12 \<le> w
          \<and> 12 + nh / 2 \<le> y \<and> y + nh / 2 + 12 \<le> h)
    \<and> 2 \<le> length (client_particles rnd c) \<and> length (client_particles rnd c) \<le> 8"
proof -
  let ?cs = "td_visible d" and ?ps = "place_nodes (w, h) unit (map dims (td_visible d))"
  have l: "length ?ps = length ?cs" by (simp add: place_nodes_length)
  obtain i where i: "i < length ?cs" "?cs ! i = c" using assms(1) by (auto simp: in_set_conv_nth)
  obtain x y where p: "?ps ! i = (x, y)" by (cases "?ps ! i")
  have "12 \<le> x \<and> x + nw + 12 \<le> w \<and> 12 \<le> y \<and> y + nh + 12 \<le> h"
    using place_nodes_inside [of i "map dims ?cs" nw nh w h unit] assms(2-4) i p by simp
  moreover have "(c, x, y) \<in> set (zip ?cs ?ps)" using i l p by (auto simp: set_zip intro!: exI [of _ i])
  then have "(c, x + nw / 2, y + nh / 2) \<in> set (client_layout (w, h) unit dims d)"
    using assms(2) by (force simp: client_layout_def)
  moreover have "map fst (client_layout (w, h) unit dims d) = map fst (zip ?cs ?ps)"
    by (simp add: client_layout_def comp_def case_prod_beta)
  then have "map fst (client_layout (w, h) unit dims d) = ?cs" using l by simp
  moreover have "2 \<le> length (client_particles rnd c) \<and> length (client_particles rnd c) \<le> 8"
    using particle_count_bounds by (simp add: client_particles_def node_particles_def Let_def)
  ultimately show ?thesis by (intro conjI exI [of _ "x + nw / 2"] exI [of _ "y + nh / 2"]) simp_all
qed

theorem clients_drawn_inside_witness:
  "\<exists>x y. (JObj [], x, y) \<in> set (client_layout (800, 400) (\<lambda>_ _ _. (0, -1)) (\<lambda>_. (120, 60)) (no_traffic\<lparr>td_visible := [JObj []]\<rparr>)) \<and> 72 \<le> x"
  using clients_drawn_inside [of "JObj []" "no_traffic\<lparr>td_visible := [JObj []]\<rparr>" "\<lambda>_. (120, 60)" 120 60 800 400 "\<lambda>_ _ _. (0, -1)" "\<lambda>_. 0"]
  by (simp del: split_paired_Ex) blast

end
