(* ===== verification/HostNetwork.thy ===== *)
theory HostNetwork
  imports InstanceTraffic
begin

text \<open>
  The network connections of a host (pages/host-network.js), the sibling of the traffic of an instance: the remote
  addresses with the states of their connections, the ranking, the particles.  Numbers of connections are whole numbers
  or missing; \<open>trp\<close> translates a key with parameters.
\<close>

record network_data =
  nd_answer :: js
  nd_host :: js
  nd_visible :: "js list"

definition network_limit :: nat where
  "network_limit = 16"

definition network_nodes :: "js \<Rightarrow> js list" where
  "network_nodes a = elements (js_or (field a ''connections'') (JArr []))"

definition apply_network :: "js \<Rightarrow> network_data \<Rightarrow> network_data \<times> bool" where
  "apply_network answer d =
     (let a = js_or answer JNull; d1 = d\<lparr>nd_answer := a, nd_host := js_or (field answer ''host'') (nd_host d)\<rparr>
      in (if truthy a then d1\<lparr>nd_visible := take network_limit (network_nodes a)\<rparr> else d1, True))"

definition clear_network :: "network_data \<Rightarrow> network_data" where
  "clear_network d = d\<lparr>nd_answer := JNull, nd_visible := []\<rparr>"

definition begin_network :: "js \<Rightarrow> network_data \<Rightarrow> network_data" where
  "begin_network host d = d\<lparr>nd_host := js_or host JNull\<rparr>"

definition no_network :: network_data where
  "no_network = \<lparr>nd_answer = JNull, nd_host = JNull, nd_visible = []\<rparr>"

text \<open>The steps of the page are those of every drawing.\<close>

definition network_step :: "js \<Rightarrow> network_data view \<Rightarrow> view_event \<Rightarrow> network_data view" where
  "network_step host = view_step apply_network clear_network (begin_network host)"

section \<open>Labels\<close>

definition states_of :: "js \<Rightarrow> js" where
  "states_of n = js_or (field n ''states'') (JObj [])"

definition established_count :: "js \<Rightarrow> js" where
  "established_count n = js_or (field (states_of n) ''ESTABLISHED'') (field (states_of n) ''ESTAB'')"

definition network_status :: "js \<Rightarrow> string" where
  "network_status n =
     (if truthy (established_count n) then ''established''
      else if truthy (field (states_of n) ''TIME_WAIT'') then ''time-wait''
      else if truthy (field (states_of n) ''LISTEN'') then ''listen''
      else ''other'')"

definition state_parts :: "(string \<Rightarrow> (string \<times> js) list \<Rightarrow> string) \<Rightarrow> js \<Rightarrow> string list" where
  "state_parts trp n =
     (if truthy (established_count n) then [js_string (established_count n) @ '' '' @ trp ''established'' []] else [])
     @ (if truthy (field (states_of n) ''TIME_WAIT'') then [js_string (field (states_of n) ''TIME_WAIT'') @ '' '' @ trp ''waiting'' []] else [])
     @ (if truthy (field (states_of n) ''LISTEN'') then [js_string (field (states_of n) ''LISTEN'') @ '' '' @ trp ''listening'' []] else [])"

definition network_node_meta :: "(string \<Rightarrow> (string \<times> js) list \<Rightarrow> string) \<Rightarrow> js \<Rightarrow> string" where
  "network_node_meta trp n =
     (let t = join '' / '' (state_parts trp n)
      in if t \<noteq> [] then t else trp ''connections'' [(''count'', field n ''connection_count'')])"

definition other_count :: "js \<Rightarrow> rat" where
  "other_count n =
     (let c = (\<lambda>k. number_or_zero (field (states_of n) k))
      in number_or_zero (field n ''connection_count'') - c ''ESTABLISHED'' - c ''ESTAB'' - c ''TIME_WAIT'' - c ''LISTEN'')"

definition network_list_meta :: "(string \<Rightarrow> (string \<times> js) list \<Rightarrow> string) \<Rightarrow> js \<Rightarrow> string list" where
  "network_list_meta trp n =
     (let ps = state_parts trp n @ (if 0 < other_count n then [str_of_rat (other_count n) @ '' '' @ trp ''other'' []] else [])
      in if ps = [] then [trp ''noStateData'' []] else ps)"

definition network_stats :: "js \<Rightarrow> string \<times> string \<times> string \<times> string \<times> string" where
  "network_stats a =
     (let s = js_or (field a ''stats'') (JObj []); count = (\<lambda>k. js_string (js_or (field s k) (JInt 0)))
      in (count ''total_connections'', count ''established'', count ''time_wait'', count ''listen'', str_of_nat (length (network_nodes a))))"

definition hidden_nodes :: "network_data \<Rightarrow> nat" where
  "hidden_nodes d = length (network_nodes (nd_answer d)) - length (nd_visible d)"

definition network_ranking :: "(string \<Rightarrow> (string \<times> js) list \<Rightarrow> string) \<Rightarrow> js \<Rightarrow> (nat \<times> js \<times> string list \<times> int) list" where
  "network_ranking trp a =
     (let ns = network_nodes a; count = (\<lambda>n. number_or_zero (field n ''connection_count''))
      in map (\<lambda>(i, n). (i, n, network_list_meta trp n, bar_width (map count ns) (count n))) (enumerate 1 ns))"

definition network_color :: "string \<Rightarrow> nat \<times> nat \<times> nat" where
  "network_color s =
     (if s = ''established'' then (16, 185, 129) else if s = ''time-wait'' then (245, 158, 11)
      else if s = ''listen'' then (59, 130, 246) else (148, 163, 184))"

definition network_particles :: "(nat \<Rightarrow> rat) \<Rightarrow> js \<Rightarrow> particle list" where
  "network_particles rnd n =
     (let count = number_or_zero (field n ''connection_count'') in node_particles rnd (of_int (whole_round (count / 5))) (count / 50))"

definition network_link_width :: "bool \<Rightarrow> js \<Rightarrow> rat" where
  "network_link_width hovered n = 14 / 10 + number_or_zero (field n ''connection_count'') / 20 * 4 + (if hovered then 12 / 10 else 0)"

definition network_layout :: "rat \<times> rat \<Rightarrow> (bool \<Rightarrow> nat \<Rightarrow> nat \<Rightarrow> rat \<times> rat) \<Rightarrow> (js \<Rightarrow> rat \<times> rat) \<Rightarrow> network_data \<Rightarrow> (js \<times> rat \<times> rat) list" where
  "network_layout area unit dims d =
     map (\<lambda>(n, (x, y)). (n, x + fst (dims n) / 2, y + snd (dims n) / 2))
       (zip (nd_visible d) (place_nodes area unit (map dims (nd_visible d))))"

text \<open>The states that the dialog of an address lists.\<close>

definition listed_states :: "js \<Rightarrow> (string \<times> js) list" where
  "listed_states n = filter (\<lambda>(_, c). num_less (Fin 0) (to_number c)) (obj_fields (states_of n))"

section \<open>Properties\<close>

definition whole_network :: "network_data \<Rightarrow> bool" where
  "whole_network d \<longleftrightarrow> length (nd_visible d) \<le> network_limit"

interpretation network: view_data apply_network clear_network "begin_network host" whole_network
  by unfold_locales (auto simp: whole_network_def apply_network_def clear_network_def begin_network_def Let_def)

text \<open>
  At most sixteen addresses are drawn, one interval runs at most, and none when the drawing has been left; an answer that
  names addresses draws the first sixteen of them, and the legend counts the others.
\<close>

theorem network_bounded:
  "let v = foldl (network_step host) (new_view no_network) es
   in length (nd_visible (tv_data v)) \<le> 16 \<and> length (tv_running v) \<le> 1 \<and> (\<not> tv_shown v \<longrightarrow> tv_running v = [])
    \<and> (\<forall>a. truthy a \<longrightarrow> length (nd_visible (fst (apply_network a (tv_data v)))) + hidden_nodes (fst (apply_network a (tv_data v)))
          = length (network_nodes a))"
proof -
  let ?v = "foldl (network_step host) (new_view no_network) es"
  have "whole_network no_network" by (simp add: whole_network_def no_network_def)
  from network.good_run [OF this, of host es] have "whole_network (tv_data ?v)" by (simp add: network_step_def)
  moreover have "view_quiet ?v" unfolding network_step_def by (rule quiet_run)
  moreover have "length (nd_visible (fst (apply_network a d))) + hidden_nodes (fst (apply_network a d)) = length (network_nodes a)"
    if "truthy a" for a d
  proof -
    have "js_or a JNull = a" using that by (simp add: js_or_def)
    then show ?thesis using that by (simp add: apply_network_def hidden_nodes_def Let_def)
  qed
  ultimately show ?thesis
    by (auto simp: whole_network_def view_quiet_def network_limit_def Let_def split: option.split)
qed

theorem network_bounded_witness:
  "length (nd_visible (fst (apply_network (JObj [(''connections'', JArr (replicate 20 JNull))]) no_network)))
     + hidden_nodes (fst (apply_network (JObj [(''connections'', JArr (replicate 20 JNull))]) no_network)) = 20"
proof -
  have "length (network_nodes (JObj [(''connections'', JArr (replicate 20 JNull))])) = 20"
    by (simp add: network_nodes_def js_or_def)
  then show ?thesis using network_bounded [of JNull "[]"] by (simp add: new_view_def Let_def)
qed

text \<open>
  The labels of an address account for its connections: those of the states that are named and the others make the
  number of connections, as long as the server counts an established one under one name.
\<close>

theorem connections_accounted:
  assumes "field (states_of n) ''ESTAB'' = JUndef \<or> field (states_of n) ''ESTABLISHED'' = JUndef"
  shows "number_or_zero (established_count n) + number_or_zero (field (states_of n) ''TIME_WAIT'')
     + number_or_zero (field (states_of n) ''LISTEN'') + other_count n = number_or_zero (field n ''connection_count'')"
proof -
  have "number_or_zero (established_count n)
      = number_or_zero (field (states_of n) ''ESTABLISHED'') + number_or_zero (field (states_of n) ''ESTAB'')"
    if "field (states_of n) ''ESTABLISHED'' = JUndef"
    using that by (simp add: established_count_def js_or_def number_or_zero_def)
  moreover have "number_or_zero (js_or v JUndef) = number_or_zero v" for v
    by (cases v) (auto simp: js_or_def number_or_zero_def split: jnum.splits)
  then have "number_or_zero (established_count n)
      = number_or_zero (field (states_of n) ''ESTABLISHED'') + number_or_zero (field (states_of n) ''ESTAB'')"
    if "field (states_of n) ''ESTAB'' = JUndef"
    using that by (simp add: established_count_def number_or_zero_def)
  ultimately have "number_or_zero (established_count n)
      = number_or_zero (field (states_of n) ''ESTABLISHED'') + number_or_zero (field (states_of n) ''ESTAB'')"
    using assms by blast
  then show ?thesis by (simp add: other_count_def Let_def)
qed

theorem connections_accounted_witness:
  "other_count (JObj [(''connection_count'', JInt 7), (''states'', JObj [(''ESTAB'', JInt 4), (''LISTEN'', JInt 1)])]) = 2"
proof -
  let ?n = "JObj [(''connection_count'', JInt 7), (''states'', JObj [(''ESTAB'', JInt 4), (''LISTEN'', JInt 1)])]"
  have s: "states_of ?n = JObj [(''ESTAB'', JInt 4), (''LISTEN'', JInt 1)]" by (simp add: states_of_def js_or_def)
  then have "established_count ?n = JInt 4" by (simp add: established_count_def js_or_def)
  then show ?thesis using connections_accounted [of ?n] s by (simp add: number_or_zero_def)
qed

text \<open>
  An address that has only the short name for its established connections, as one system prints it, reads the same as
  with the long one; when both names occur, the labels show one of the numbers and count both.
\<close>

theorem established_named_twice:
  assumes "field (states_of n) ''ESTABLISHED'' = JInt a" and "field (states_of n) ''ESTAB'' = JInt b" and "0 < a"
  shows "established_count n = JInt a
    \<and> number_or_zero (established_count n) + number_or_zero (field (states_of n) ''TIME_WAIT'')
     + number_or_zero (field (states_of n) ''LISTEN'') + other_count n = number_or_zero (field n ''connection_count'') - of_int b"
  using assms by (simp add: established_count_def js_or_def other_count_def number_or_zero_def)

theorem established_named_twice_witness:
  "established_count (JObj [(''states'', JObj [(''ESTABLISHED'', JInt 3), (''ESTAB'', JInt 2)])]) = JInt 3"
proof -
  let ?n = "JObj [(''states'', JObj [(''ESTABLISHED'', JInt 3), (''ESTAB'', JInt 2)])]"
  have "states_of ?n = JObj [(''ESTABLISHED'', JInt 3), (''ESTAB'', JInt 2)]" by (simp add: states_of_def js_or_def)
  then show ?thesis using established_named_twice [of ?n 3 2] by simp
qed

lemma ranking_bars:
  assumes "(k, m, t, b) \<in> set (network_ranking trp a)"
  shows "8 \<le> b \<and> b \<le> 100"
proof -
  let ?count = "\<lambda>n. number_or_zero (field n ''connection_count'')"
  have "(k, m) \<in> set (enumerate 1 (network_nodes a))" and b: "b = bar_width (map ?count (network_nodes a)) (?count m)"
    using assms by (auto simp: network_ranking_def Let_def)
  then have "m \<in> snd ` set (enumerate 1 (network_nodes a))" by force
  then have "m \<in> set (network_nodes a)" by (metis map_snd_enumerate set_map)
  then show ?thesis unfolding b by (intro bar_width_bounds) simp
qed

text \<open>
  Each address on display is drawn inside the drawing when it fits, and the bars of the ranking are between eight and a
  hundred per cent.
\<close>

theorem network_drawn_inside:
  assumes "i < length (nd_visible d)" and "dims (nd_visible d ! i) = (nw, nh)" and "nw + 24 \<le> w" and "nh + 24 \<le> h"
  shows "(case network_layout (w, h) unit dims d ! i of (n, x, y) \<Rightarrow> n = nd_visible d ! i
      \<and> 12 + nw / 2 \<le> x \<and> x + nw / 2 + 12 \<le> w \<and> 12 + nh / 2 \<le> y \<and> y + nh / 2 + 12 \<le> h)
    \<and> (\<forall>(k, m, t, b) \<in> set (network_ranking trp a). 8 \<le> b \<and> b \<le> 100)"
proof
  let ?ps = "place_nodes (w, h) unit (map dims (nd_visible d))"
  obtain x y where p: "?ps ! i = (x, y)" by (cases "?ps ! i")
  have "12 \<le> x \<and> x + nw + 12 \<le> w \<and> 12 \<le> y \<and> y + nh + 12 \<le> h"
    using place_nodes_inside [of i "map dims (nd_visible d)" nw nh w h unit] assms p by simp
  moreover have "network_layout (w, h) unit dims d ! i = (nd_visible d ! i, x + nw / 2, y + nh / 2)"
    using assms(1,2) p by (simp add: network_layout_def place_nodes_length)
  ultimately show "case network_layout (w, h) unit dims d ! i of (n, x, y) \<Rightarrow> n = nd_visible d ! i
      \<and> 12 + nw / 2 \<le> x \<and> x + nw / 2 + 12 \<le> w \<and> 12 + nh / 2 \<le> y \<and> y + nh / 2 + 12 \<le> h" by simp
  show "\<forall>(k, m, t, b) \<in> set (network_ranking trp a). 8 \<le> b \<and> b \<le> 100" using ranking_bars by blast
qed

theorem network_drawn_inside_witness:
  "case network_layout (800, 400) (\<lambda>_ _ _. (1, 0)) (\<lambda>_. (100, 50)) (no_network\<lparr>nd_visible := [JObj []]\<rparr>) ! 0 of
     (n, x, y) \<Rightarrow> n = JObj [] \<and> x + 50 + 12 \<le> 800"
  using network_drawn_inside [of 0 "no_network\<lparr>nd_visible := [JObj []]\<rparr>" "\<lambda>_. (100, 50)" 100 50 800 400, where unit = "\<lambda>_ _ _. (1, 0)" and trp = "\<lambda>_ _. []" and a = JNull]
  by (auto split: prod.splits)

end
