(* ===== verification/HostTable.thy ===== *)
theory HostTable
  imports DatasourceForm DatasourceTable
begin

text \<open>
  The list of the hosts (pages/hosts.js): loading, the search, the order, a row with its badge, and the form of a
  host.  A rendering is \<open>hosts_begin\<close> and \<open>hosts_come\<close> or \<open>hosts_failed\<close>; the user may type, sort or leave between
  them.  \<open>tr\<close> is the catalog of texts, which puts parameters into the markup as they are; hosts have texts for their
  names and addresses.
\<close>

section \<open>The list\<close>

definition listed_host_matches :: "string \<Rightarrow> js \<Rightarrow> bool" where
  "listed_host_matches search h \<longleftrightarrow>
     search = [] \<or> includes_str (to_lower (js_string (field h ''name''))) search
       \<or> includes_str (to_lower (js_string (field h ''host''))) search"

definition sort_hosts :: "string \<times> direction \<Rightarrow> js list \<Rightarrow> js list" where
  "sort_hosts = (\<lambda>(column, d) hs. js_sort (\<lambda>a b. compare_values d (field a column) (field b column)) hs)"

text \<open>What stands in the content of the application: the page may have been left for another one.\<close>

datatype hosts_view = HostsSpinner | NoHosts | HostRows "js list" | OtherPage

text \<open>
  \<open>hl_search\<close> is the search applied last, \<open>hl_box\<close> the text in the box of the header, \<open>hl_stored\<close> the hosts that
  other pages find in the store.
\<close>

record host_list =
  hl_all :: "js list"
  hl_filtered :: "js list"
  hl_search :: string
  hl_box :: string
  hl_order :: "string \<times> direction"
  hl_view :: hosts_view
  hl_stored :: "js list"

definition new_host_list :: host_list where
  "new_host_list = \<lparr>hl_all = [], hl_filtered = [], hl_search = [], hl_box = [], hl_order = (''name'', Asc),
     hl_view = OtherPage, hl_stored = []\<rparr>"

definition show_hosts :: "host_list \<Rightarrow> host_list" where
  "show_hosts p = (case hl_view p of HostRows _ \<Rightarrow> p\<lparr>hl_view := HostRows (hl_filtered p)\<rparr> | _ \<Rightarrow> p)"

definition hosts_begin :: "host_list \<Rightarrow> host_list" where
  "hosts_begin p = p\<lparr>hl_view := HostsSpinner\<rparr>"

text \<open>The header is drawn anew, with an empty box.\<close>

definition hosts_come :: "js list \<Rightarrow> host_list \<Rightarrow> host_list" where
  "hosts_come hosts p =
     p\<lparr>hl_all := hosts, hl_filtered := sort_hosts (hl_order p) hosts, hl_stored := hosts, hl_box := [],
       hl_view := (if hosts = [] then NoHosts else HostRows (sort_hosts (hl_order p) hosts))\<rparr>"

text \<open>An error shows a message that goes away.\<close>

definition hosts_failed :: "host_list \<Rightarrow> host_list" where
  "hosts_failed p = p"

definition search_hosts :: "string \<Rightarrow> host_list \<Rightarrow> host_list" where
  "search_hosts txt p =
     (let search = to_lower (trim txt)
      in show_hosts (p\<lparr>hl_box := txt, hl_search := search,
           hl_filtered := sort_hosts (hl_order p) (filter (listed_host_matches search) (hl_all p))\<rparr>))"

definition click_host_column :: "string \<Rightarrow> host_list \<Rightarrow> host_list" where
  "click_host_column column p =
     (case hl_view p of
        HostRows _ \<Rightarrow>
          (let ord = toggle_order column (hl_order p)
           in show_hosts (p\<lparr>hl_order := ord, hl_filtered := sort_hosts ord (hl_filtered p)\<rparr>))
      | _ \<Rightarrow> p)"

text \<open>The router shows another page; the route of the hosts has no cleanup.\<close>

definition leave_hosts :: "host_list \<Rightarrow> host_list" where
  "leave_hosts p = p\<lparr>hl_view := OtherPage\<rparr>"

section \<open>A row\<close>

definition host_status_map :: "(string \<times> nat list \<times> string \<times> string \<times> string) list" where
  "host_status_map =
     [(''normal'', [226, 156, 147], ''healthy'', ''badge-success'', ''allMetricsAreHealthy''),
      (''warning'', [226, 154, 160], ''abnormal'', ''badge-warning'', ''someMetricsAreNearThresholds''),
      (''error'', [226, 156, 151], ''critical'', ''badge-danger'', ''someMetricsExceededThresholds''),
      (''offline'', [226, 151, 139], ''offline'', ''badge-secondary'', ''noMonitoringData''),
      (''unknown'', [226, 151, 139], ''unknown'', ''badge-secondary'', ''noMonitoringData'')]"

text \<open>\<^verbatim>\<open>statusMap[status] || statusMap.unknown\<close>; the status is none of the names of \<^verbatim>\<open>Object.prototype\<close>.\<close>

definition host_status_entry :: "string \<Rightarrow> nat list \<times> string \<times> string \<times> string" where
  "host_status_entry status =
     (case map_of host_status_map status of Some e \<Rightarrow> e | None \<Rightarrow> the (map_of host_status_map ''unknown''))"

definition host_badge :: "(string \<Rightarrow> string) \<Rightarrow> js \<Rightarrow> string" where
  "host_badge tr h =
     (case host_status_entry (js_string (js_or (field h ''status'') (JStr ''offline''))) of
        (icon, label, cls, title) \<Rightarrow>
          (let q = [CHR 0x22];
               message = js_string (js_or (js_or (field h ''status_message'') (JStr [])) (JStr (tr title)))
           in ''<span class='' @ q @ ''badge '' @ cls @ q @ '' title='' @ q @ message @ q @ '' style='' @ q @ ''cursor:help'' @ q @ ''>''
                @ map char_of icon @ '' '' @ tr label @ ''</span>''))"

text \<open>Class and text of the three cells of numbers; \<^verbatim>\<open>toFixed\<close> throws on what is not a number.\<close>

definition host_cell :: "js \<Rightarrow> (string \<times> string) option" where
  "host_cell v = map_option (\<lambda>t. (metric_color v, t)) (fixed_or_dash v ''%'')"

definition host_cells :: "js \<Rightarrow> (string \<times> string) option list" where
  "host_cells h = map (\<lambda>k. host_cell (field h k)) [''cpu_usage'', ''memory_usage'', ''disk_usage'']"

section \<open>The form of a host\<close>

record host_form =
  ho_name :: string
  ho_host :: string
  ho_port :: string
  ho_username :: string
  ho_auth :: string
  ho_password :: string
  ho_key :: string
  ho_key_shown :: bool

text \<open>Parameters of the catalog stand in double quotes as they are: an input ends at the first one.\<close>

definition open_host_form :: "js \<Rightarrow> host_form" where
  "open_host_form h =
     \<lparr>ho_name = attr_input (text_or_empty (field h ''name'')),
      ho_host = attr_input (text_or_empty (field h ''host'')),
      ho_port = number_input (takeWhile (\<lambda>c. c \<noteq> CHR 0x22) (js_string (js_or (field h ''port'') (JInt 22)))),
      ho_username = attr_input (text_or_empty (field h ''username'')),
      ho_auth = select_value [''password'', ''key'']
        (\<lambda>a. field h ''auth_type'' = JStr a \<or> (a = ''password'' \<and> \<not> truthy h)),
      ho_password = [], ho_key = [], ho_key_shown = (field h ''auth_type'' = JStr ''key'')\<rparr>"

definition choose_auth :: "string \<Rightarrow> host_form \<Rightarrow> host_form" where
  "choose_auth a f = f\<lparr>ho_auth := a, ho_key_shown := (a = ''key'')\<rparr>"

definition host_form_data :: "host_form \<Rightarrow> js" where
  "host_form_data f = JObj
     ([(''name'', JStr (ho_name f)), (''host'', JStr (ho_host f)), (''port'', JNum (parse_int_str (ho_port f))),
       (''username'', JStr (ho_username f)), (''auth_type'', JStr (ho_auth f))]
      @ (if ho_password f = [] then [] else [(''password'', JStr (ho_password f))])
      @ (if ho_key f = [] then [] else [(''private_key'', JStr (ho_key f))]))"

datatype host_request = UpdateHost js js | CreateHost js | TestHostConnection js | DeleteHost js | TestHost js

text \<open>The browser submits a form only when its required inputs have a text.\<close>

definition submit_host_form :: "js \<Rightarrow> host_form \<Rightarrow> host_request option" where
  "submit_host_form h f =
     (if ho_name f = [] \<or> ho_host f = [] \<or> ho_username f = [] then None
      else Some (if truthy h then UpdateHost (field h ''id'') (host_form_data f) else CreateHost (host_form_data f)))"

text \<open>The test sends what is in the form, and does not say which host is edited.\<close>

definition test_host_form :: "host_form \<Rightarrow> host_request" where
  "test_host_form f = TestHostConnection (host_form_data f)"

text \<open>Saved, the dialog closes and the page is rendered; otherwise the error is shown and the form stays.\<close>

definition host_form_settled :: "bool \<Rightarrow> host_list \<times> bool \<Rightarrow> host_list \<times> bool" where
  "host_form_settled ok = (\<lambda>(p, dialog). if ok then (hosts_begin p, False) else (p, dialog))"

definition listed_host :: "host_list \<Rightarrow> js \<Rightarrow> js option" where
  "listed_host p i = find (\<lambda>h. strict_eq (field h ''id'') i) (hl_all p)"

definition edit_host :: "host_list \<Rightarrow> js \<Rightarrow> host_form option" where
  "edit_host p i = map_option open_host_form (listed_host p i)"

definition delete_host :: "host_list \<Rightarrow> js \<Rightarrow> bool \<Rightarrow> host_request option" where
  "delete_host p i confirmed =
     (case listed_host p i of Some h \<Rightarrow> if confirmed then Some (DeleteHost i) else None | None \<Rightarrow> None)"

text \<open>A test of a stored host renders the page when it has been answered, however it ended.\<close>

datatype test_answer = Tested bool js | TestFailed js

fun host_tested :: "(string \<Rightarrow> string) \<Rightarrow> test_answer \<Rightarrow> host_list \<Rightarrow> host_list \<times> bool \<times> js" where
  "host_tested tr (Tested ok m) p =
     (hosts_begin p, ok, if ok then JStr (tr ''connected'') else js_or m (JStr (tr ''failed'')))"
| "host_tested tr (TestFailed m) p = (p, False, js_or m (JStr (tr ''requestFailed'')))"

section \<open>The list shows what the box asks for\<close>

datatype hosts_event = HostsBegin | HostsCome "js list" | HostsFailed | TypeSearch string | HostColumn string | LeaveHosts

fun hosts_step :: "host_list \<Rightarrow> hosts_event \<Rightarrow> host_list" where
  "hosts_step p HostsBegin = hosts_begin p"
| "hosts_step p (HostsCome hs) = hosts_come hs p"
| "hosts_step p HostsFailed = hosts_failed p"
| "hosts_step p (TypeSearch t) = search_hosts t p"
| "hosts_step p (HostColumn c) = click_host_column c p"
| "hosts_step p LeaveHosts = leave_hosts p"

definition hosts_truthful :: "host_list \<Rightarrow> bool" where
  "hosts_truthful p \<longleftrightarrow>
     mset (hl_filtered p) = mset (filter (listed_host_matches (to_lower (trim (hl_box p)))) (hl_all p))
   \<and> (\<forall>hs. hl_view p = HostRows hs \<longrightarrow> hs = hl_filtered p)"

lemma mset_sort_hosts [simp]: "mset (sort_hosts ord hs) = mset hs"
  by (cases ord) (simp add: sort_hosts_def)

lemma show_hosts_simps [simp]:
  "hl_filtered (show_hosts p) = hl_filtered p" "hl_all (show_hosts p) = hl_all p" "hl_box (show_hosts p) = hl_box p"
  "hl_order (show_hosts p) = hl_order p" "hl_search (show_hosts p) = hl_search p"
  by (simp_all add: show_hosts_def split: hosts_view.splits)

lemma show_hosts_view: "hl_view (show_hosts p) = HostRows hs \<Longrightarrow> hs = hl_filtered p"
  by (simp add: show_hosts_def split: hosts_view.splits)

lemma matches_nothing_typed [simp]: "listed_host_matches [] = (\<lambda>_. True)"
  by (simp add: listed_host_matches_def fun_eq_iff)

lemma to_lower_Nil [simp]: "to_lower [] = []"
  by (simp add: to_lower_def)

lemma hosts_truthful_step: "hosts_truthful p \<Longrightarrow> hosts_truthful (hosts_step p e)"
  by (cases e)
    (auto simp: hosts_truthful_def hosts_begin_def hosts_come_def hosts_failed_def search_hosts_def click_host_column_def
      leave_hosts_def Let_def dest: show_hosts_view split: hosts_view.splits)

text \<open>
  C39. Whatever the user and the server do, the hosts kept for the table are those of the last list that the text in the
  box matches, in name or address and in letters large or small, none lost or doubled, and a table on display shows
  exactly these.
\<close>

theorem host_list_truthful: "hosts_truthful (foldl hosts_step new_host_list es)"
  by (induction es rule: rev_induct) (simp add: hosts_truthful_def new_host_list_def, simp add: hosts_truthful_step)

text \<open>
  A click on a column puts the table in its order: rows without a value last, equal ones as they were.
\<close>

theorem host_column_sorted:
  assumes "hl_view p = HostRows hs" and "toggle_order c (hl_order p) = (c, d)"
    and "text_values (\<lambda>h. field h c) (hl_filtered p) \<or> number_values (\<lambda>h. field h c) (hl_filtered p)"
  shows "\<exists>rows. hl_view (click_host_column c p) = HostRows rows
    \<and> sorted_wrt (\<lambda>a b. in_order d (field a c) (field b c)) rows
    \<and> filter (\<lambda>h. field h c = v) rows = filter (\<lambda>h. field h c = v) (hl_filtered p)"
  using sorted_by_value [OF assms(3), of d] assms(1,2)
  by (simp add: click_host_column_def show_hosts_def sort_hosts_def)

theorem host_column_sorted_witness:
  "\<exists>rows. hl_view (click_host_column ''port'' (hosts_come [JObj [(''port'', JInt 3)], JObj [], JObj [(''port'', JInt 2)]] new_host_list))
       = HostRows rows \<and> sorted_wrt (\<lambda>a b. in_order Asc (field a ''port'') (field b ''port'')) rows"
proof -
  let ?p = "hosts_come [JObj [(''port'', JInt 3)], JObj [], JObj [(''port'', JInt 2)]] new_host_list"
  have e: "mset (hl_filtered ?p) = mset [JObj [(''port'', JInt 3)], JObj [], JObj [(''port'', JInt 2)]]"
    by (simp add: hosts_come_def)
  then have "number_values (\<lambda>h. field h ''port'') (hl_filtered ?p)"
    unfolding number_values_def using mset_eq_setD [OF e] by (auto simp: nullish_def)
  moreover have "hl_view ?p = HostRows (hl_filtered ?p)" by (simp add: hosts_come_def)
  moreover have "toggle_order ''port'' (hl_order ?p) = (''port'', Asc)"
    by (simp add: hosts_come_def new_host_list_def toggle_order_def)
  ultimately show ?thesis using host_column_sorted by blast
qed

section \<open>What goes wrong with the list\<close>

text \<open>
  The route of the hosts neither waits for its list nor has anything to clean up: hosts that come after the user has
  gone to another page replace that page.
\<close>

theorem late_hosts_replace_page:
  assumes "hs \<noteq> []"
  shows "hl_view (hosts_come hs (leave_hosts (hosts_begin p))) = HostRows (sort_hosts (hl_order p) hs)"
  using assms by (simp add: hosts_come_def leave_hosts_def hosts_begin_def)

theorem late_hosts_replace_page_witness:
  "hl_view (hosts_come [JObj []] (leave_hosts (hosts_begin new_host_list))) = HostRows (sort_hosts (''name'', Asc) [JObj []])"
  using late_hosts_replace_page [of "[JObj []]" new_host_list] by (simp add: new_host_list_def)

text \<open>
  A load that fails leaves the spinner, for ever: neither the search nor a column brings the rows back, which were
  removed when the load began.
\<close>

theorem failed_load_spins:
  assumes "\<forall>e \<in> set es. e \<noteq> HostsBegin \<and> e \<noteq> LeaveHosts \<and> (\<forall>hs. e \<noteq> HostsCome hs)"
  shows "hl_view (foldl hosts_step (hosts_failed (hosts_begin p)) es) = HostsSpinner"
  using assms
proof (induction es rule: rev_induct)
  case (snoc e es)
  then show ?case
    by (cases e) (auto simp: hosts_failed_def search_hosts_def click_host_column_def show_hosts_def Let_def)
qed (simp add: hosts_failed_def hosts_begin_def)

theorem failed_load_spins_witness:
  "hl_view (foldl hosts_step (hosts_failed (hosts_begin new_host_list)) [TypeSearch ''db'', HostColumn ''name'']) = HostsSpinner"
  by (rule failed_load_spins) simp

text \<open>
  The server's worst status, critical, is none that the list knows: the badge of such a host reads unknown, in grey.
\<close>

theorem critical_shown_unknown:
  assumes "field h ''status'' = JStr ''critical''" and "field h' ''status'' = JStr ''unknown''"
    and "field h ''status_message'' = field h' ''status_message''"
  shows "host_badge tr h = host_badge tr h'"
  using assms by (simp add: host_badge_def host_status_entry_def host_status_map_def js_or_def)

theorem critical_shown_unknown_witness:
  "host_badge tr (JObj [(''status'', JStr ''critical'')]) = host_badge tr (JObj [(''status'', JStr ''unknown'')])"
  by (rule critical_shown_unknown) simp_all

section \<open>The form\<close>

lemma no_quote_int: "takeWhile (\<lambda>c. c \<noteq> CHR 0x22) (str_of_int i) = str_of_int i"
proof -
  have "c \<noteq> CHR 0x22" if "c \<in> set (str_of_nat n)" for c n
    using str_of_nat_digits [of n] that by (auto simp: is_digit_def char_code_def)
  then show ?thesis by (auto simp: takeWhile_eq_all_conv str_of_int_def)
qed

text \<open>
  A host that is edited and saved untouched is sent as it was stored, without a password and a key, which the server
  keeps then; its name, address and user have to be free of double quotes and line breaks.
\<close>

theorem host_edit_roundtrip:
  assumes "field h ''name'' = JStr n" and "field h ''host'' = JStr a" and "field h ''username'' = JStr u"
    and "field h ''port'' = JInt i" and "0 < i" and "field h ''auth_type'' = JStr k" and "k = ''password'' \<or> k = ''key''"
    and "list_all (\<lambda>s. s \<noteq> [] \<and> plain_text s) [n, a, u]" and "truthy h"
  shows "submit_host_form h (open_host_form h) = Some (UpdateHost (field h ''id'') (JObj
      [(''name'', JStr n), (''host'', JStr a), (''port'', JInt i), (''username'', JStr u), (''auth_type'', JStr k)]))"
proof -
  have "select_value [''password'', ''key''] (\<lambda>b. field h ''auth_type'' = JStr b \<or> (b = ''password'' \<and> \<not> truthy h)) = k"
    using assms(6,7,9) by (intro select_unique) auto
  moreover have "js_string (js_or (field h ''port'') (JInt 22)) = str_of_int i"
    using assms(4,5) by (simp add: js_or_def str_of_rat_int)
  ultimately show ?thesis
    using assms(1-4,6,8,9)
    by (simp add: submit_host_form_def open_host_form_def host_form_data_def plain_input no_quote_int)
qed

theorem host_edit_roundtrip_witness:
  "let h = JObj [(''id'', JInt 7), (''name'', JStr ''a''), (''host'', JStr ''b''), (''username'', JStr ''c''), (''port'', JInt 22),
       (''auth_type'', JStr ''key'')]
   in submit_host_form h (open_host_form h) = Some (UpdateHost (JInt 7) (JObj
      [(''name'', JStr ''a''), (''host'', JStr ''b''), (''port'', JInt 22), (''username'', JStr ''c''), (''auth_type'', JStr ''key'')]))"
  unfolding Let_def
  by (subst host_edit_roundtrip [where n = "''a''" and a = "''b''" and u = "''c''" and i = 22 and k = "''key''"])
    (simp_all add: plain_text_def is_newline_def)

text \<open>
  Changing the authentication hides an input and does not empty it: a password typed before the user chose a key is
  sent with the key.
\<close>

theorem both_secrets_sent:
  assumes "ho_password f \<noteq> []" and "ho_key f \<noteq> []"
  shows "field (host_form_data (choose_auth a f)) ''password'' = JStr (ho_password f)
    \<and> field (host_form_data (choose_auth a f)) ''private_key'' = JStr (ho_key f)
    \<and> field (host_form_data (choose_auth a f)) ''auth_type'' = JStr a"
  using assms by (simp add: host_form_data_def choose_auth_def)

theorem both_secrets_sent_witness:
  "field (host_form_data (choose_auth ''key'' ((open_host_form JNull)\<lparr>ho_password := ''p'', ho_key := ''k''\<rparr>))) ''password'' = JStr ''p''"
  using both_secrets_sent [of "(open_host_form JNull)\<lparr>ho_password := ''p'', ho_key := ''k''\<rparr>" "''key''"] by simp

end
