(* ===== verification/HtmlText.thy ===== *)
theory HtmlText
  imports Format HtmlForm
begin

text \<open>
  Text in markup: what the browser makes of the character references that the pages write.  A text that was escaped
  comes back as it was, from an attribute as from an element; one that was not is cut by a double quote.  Only the
  references that escaping produces are read; other ones in a text that is not escaped are outside the model.
\<close>

definition char_refs :: "(string \<times> char) list" where
  "char_refs = [(''amp;'', CHR ''&''), (''quot;'', CHR 0x22), (''lt;'', CHR ''<''), (''gt;'', CHR ''>''), (''nbsp;'', CHR 0xA0),
     (''#39;'', CHR 0x27)]"

function decode_refs :: "string \<Rightarrow> string" where
  "decode_refs [] = []"
| "decode_refs (c # cs) =
     (if c = CHR ''&'' then
        (case find (\<lambda>(n, _). starts_with cs n) char_refs of
           Some (n, d) \<Rightarrow> d # decode_refs (drop (length n) cs)
         | None \<Rightarrow> c # decode_refs cs)
      else c # decode_refs cs)"
  by pat_completeness auto
termination by (relation "measure length") auto

text \<open>An attribute between double quotes, and the value of an input whose attribute it is.\<close>

definition attr_decoded :: "string \<Rightarrow> string" where
  "attr_decoded s = decode_refs (takeWhile (\<lambda>c. c \<noteq> CHR 0x22) s)"

text \<open>A function that escapes characters writes a reference for each that it does not leave alone.\<close>

definition escapes :: "(char \<Rightarrow> string) \<Rightarrow> bool" where
  "escapes esc \<longleftrightarrow> (\<forall>c. (esc c = [c] \<and> c \<noteq> CHR ''&'') \<or> (\<exists>n. (n, c) \<in> set char_refs \<and> esc c = CHR ''&'' # n))"

definition escape_with :: "(char \<Rightarrow> string) \<Rightarrow> string \<Rightarrow> string" where
  "escape_with esc s = concat (map esc s)"

lemma find_refs: "list_all (\<lambda>(n, c). \<forall>t. find (\<lambda>(m, _). starts_with (n @ t) m) char_refs = Some (n, c)) char_refs"
  by (simp add: char_refs_def starts_with_def)

lemma find_ref: "(n, c) \<in> set char_refs \<Longrightarrow> find (\<lambda>(m, _). starts_with (n @ t) m) char_refs = Some (n, c)"
  using find_refs unfolding list_all_iff by fast

lemma takeWhile_all: "\<forall>c \<in> set s. P c \<Longrightarrow> takeWhile P s = s"
  by (simp add: takeWhile_eq_all_conv)

lemma decode_escape:
  assumes "escapes esc"
  shows "decode_refs (escape_with esc s) = s"
proof (induction s)
  case (Cons c s)
  consider "esc c = [c]" "c \<noteq> CHR ''&''" | n where "(n, c) \<in> set char_refs" "esc c = CHR ''&'' # n"
    using assms unfolding escapes_def by blast
  then show ?case
  proof cases
    case 1
    then show ?thesis using Cons by (simp add: escape_with_def)
  next
    case 2
    then show ?thesis using Cons find_ref [OF 2(1)] by (simp add: escape_with_def)
  qed
qed (simp add: escape_with_def)

lemma escape_with_attr:
  assumes "escapes esc" and "\<forall>c. CHR 0x22 \<notin> set (esc c)"
  shows "attr_decoded (escape_with esc s) = s"
proof -
  have "CHR 0x22 \<notin> set (escape_with esc s)" using assms(2) by (auto simp: escape_with_def)
  then have t: "takeWhile (\<lambda>c. c \<noteq> CHR 0x22) (escape_with esc s) = escape_with esc s" by (intro takeWhile_all) blast
  show ?thesis unfolding attr_decoded_def t by (rule decode_escape [OF assms(1)])
qed

lemma escape_html_with: "escape_html s = escape_with escape_char s"
  by (simp add: escape_html_def escape_with_def)

lemma escapes_html: "escapes escape_char"
  by (auto simp: escapes_def escape_char_def char_refs_def)

text \<open>\<^verbatim>\<open>Utils.escapeHtml\<close> in an element.\<close>

lemma decode_escape_html [simp]: "decode_refs (escape_html s) = s"
  unfolding escape_html_with by (rule decode_escape [OF escapes_html])

text \<open>A text without ampersands and double quotes needs no escaping.\<close>

lemma decode_plain: "CHR ''&'' \<notin> set s \<Longrightarrow> decode_refs s = s"
  by (induction s) auto

lemma attr_plain:
  assumes "CHR ''&'' \<notin> set s" and "CHR 0x22 \<notin> set s"
  shows "attr_decoded s = s"
proof -
  have t: "takeWhile (\<lambda>c. c \<noteq> CHR 0x22) s = s" using assms(2) by (intro takeWhile_all) blast
  show ?thesis unfolding attr_decoded_def t by (rule decode_plain [OF assms(1)])
qed

lemma attr_cut:
  assumes "CHR ''&'' \<notin> set s" and "CHR 0x22 \<notin> set s"
  shows "attr_decoded (s @ CHR 0x22 # t) = s"
proof -
  have "takeWhile (\<lambda>c. c \<noteq> CHR 0x22) (s @ CHR 0x22 # t) = s" using assms(2) by (induction s) auto
  then show ?thesis by (simp add: attr_decoded_def decode_plain [OF assms(1)])
qed

end
