(* ===== verification/I18n.thy ===== *)
theory I18n
  imports StateStore
begin

text \<open>
  \<^verbatim>\<open>frontend/js/i18n.js\<close>: the message catalogue runtime. The state is the module's variables (current
  locale, catalogues, locale definitions, metrics, the dirty scopes) and the stored locale. What
  \<^verbatim>\<open>Intl.PluralRules\<close> selects and what the server and the user answer during a switch are arguments.
\<close>

section \<open>State\<close>

record locale_definition =
  ld_aliases :: "string list"
  ld_label :: string
  ld_dir :: string

record i18n =
  in_locale :: string
  in_catalogs :: "(string, js) jsmap"
  in_defs :: "(string, locale_definition) jsmap"
  in_missing :: nat
  in_invalid :: nat
  in_stored :: "string option"
  in_storage_ok :: bool
  in_dirty :: "string list"

definition default_locale :: string where
  "default_locale = ''zh-CN''"

definition builtin_locales :: "(string, locale_definition) jsmap" where
  "builtin_locales =
    [(''zh-CN'', \<lparr>ld_aliases = [''zh'', ''zh-cn'', ''zh-hans'', ''zh-hans-cn''], ld_label = ''common.chinese'', ld_dir = ''ltr''\<rparr>),
     (''en-US'', \<lparr>ld_aliases = [''en'', ''en-us''], ld_label = ''common.english'', ld_dir = ''ltr''\<rparr>)]"

section \<open>Locales\<close>

fun replace_first :: "char \<Rightarrow> char \<Rightarrow> string \<Rightarrow> string" where
  "replace_first a b [] = []"
| "replace_first a b (c # cs) = (if c = a then b # cs else c # replace_first a b cs)"

definition locale_candidate :: "string \<Rightarrow> string" where
  "locale_candidate v = to_lower (replace_first (CHR ''_'') (CHR ''-'') v)"

definition normalize :: "(string, locale_definition) jsmap \<Rightarrow> js \<Rightarrow> string option" where
  "normalize defs v =
     (if \<not> truthy v then None
      else (let candidate = locale_candidate (js_string v)
            in map_option fst (find (\<lambda>(code, d). to_lower code = candidate \<or> candidate \<in> set (ld_aliases d)) defs)))"

text \<open>A missing code or catalogue throws (\<open>None\<close>).\<close>

definition register_locale :: "string \<Rightarrow> js \<Rightarrow> js \<Rightarrow> i18n \<Rightarrow> i18n option" where
  "register_locale code catalog d s =
     (if code = [] \<or> \<not> truthy catalog then None
      else Some (s\<lparr>in_catalogs := AList.update code catalog (in_catalogs s),
                   in_defs := AList.update code
                     \<lparr>ld_aliases = map (\<lambda>v. to_lower (js_string v)) (elements (js_or (field d ''aliases'') (JArr []))),
                      ld_label = js_string (js_or (field d ''labelKey'') (JStr (''languages.'' @ code))),
                      ld_dir = js_string (js_or (field d ''dir'') (JStr ''ltr''))\<rparr> (in_defs s)\<rparr>))"

definition read_stored_locale :: "i18n \<Rightarrow> string option" where
  "read_stored_locale s =
     (if in_storage_ok s then normalize (in_defs s) (case in_stored s of Some v \<Rightarrow> JStr v | None \<Rightarrow> JNull) else None)"

text \<open>The module's start: the catalogues are those the page has loaded.\<close>

definition i18n_start :: "(string, js) jsmap \<Rightarrow> string option \<Rightarrow> bool \<Rightarrow> i18n" where
  "i18n_start catalogs stored ok =
     (let s = \<lparr>in_locale = default_locale, in_catalogs = catalogs, in_defs = builtin_locales, in_missing = 0,
               in_invalid = 0, in_stored = stored, in_storage_ok = ok, in_dirty = []\<rparr>
      in s\<lparr>in_locale := (case read_stored_locale s of Some l \<Rightarrow> l | None \<Rightarrow> default_locale)\<rparr>)"

section \<open>Texts\<close>

text \<open>Property access on a catalogue value; a text has a length and characters.\<close>

definition catalog_prop :: "js \<Rightarrow> string \<Rightarrow> js" where
  "catalog_prop v part = (case v of
      JStr s \<Rightarrow> (if part = ''length'' then JInt (int (length s))
                 else if part \<noteq> [] \<and> (\<forall>c \<in> set part. is_digit c) \<and> str_of_nat (nat_of_str part) = part
                         \<and> nat_of_str part < length s
                      then JStr [s ! nat_of_str part] else JUndef)
    | _ \<Rightarrow> field v part)"

definition i18n_lookup :: "(string, js) jsmap \<Rightarrow> string \<Rightarrow> string \<Rightarrow> js" where
  "i18n_lookup catalogs target key =
     foldl (\<lambda>v part. if truthy v then catalog_prop v part else v)
       (case map_of catalogs target of Some c \<Rightarrow> c | None \<Rightarrow> JUndef) (split_on (CHR ''.'') key)"

definition name_char :: "char \<Rightarrow> bool" where
  "name_char c \<longleftrightarrow> is_word c \<or> c = CHR ''.''"

definition param_text :: "js \<Rightarrow> string \<Rightarrow> string" where
  "param_text params name =
     (if has_field params name
      then (let v = field params name in if nullish v then [] else js_string v)
      else ''{'' @ name @ ''}'')"

text \<open>\<^verbatim>\<open>replace(/\{([\w.]+)\}/g, ...)\<close>: one pass from the left.\<close>

function interpolate :: "js \<Rightarrow> string \<Rightarrow> string" where
  "interpolate params [] = []"
| "interpolate params (c # cs) =
     (let name = takeWhile name_char cs; rest = drop (length name) cs in
      if c = CHR ''{'' \<and> name \<noteq> [] \<and> rest \<noteq> [] \<and> hd rest = CHR ''}''
      then param_text params name @ interpolate params (tl rest)
      else c # interpolate params cs)"
  by pat_completeness auto
termination
  by (relation "measure (\<lambda>(_, s). length s)") auto

definition i18n_t :: "string \<Rightarrow> js \<Rightarrow> i18n \<Rightarrow> string \<times> i18n" where
  "i18n_t key params s =
     (let v = js_coalesce (i18n_lookup (in_catalogs s) (in_locale s) key)
                (i18n_lookup (in_catalogs s) default_locale key)
      in if v = JUndef then (key, s\<lparr>in_missing := Suc (in_missing s)\<rparr>)
         else (interpolate params (js_string v), s))"

text \<open>\<open>rule\<close> is \<^verbatim>\<open>Intl.PluralRules(locale).select(Number(count))\<close>.\<close>

definition i18n_plural :: "(string \<Rightarrow> js \<Rightarrow> string) \<Rightarrow> string \<Rightarrow> js \<Rightarrow> js \<Rightarrow> i18n \<Rightarrow> string" where
  "i18n_plural rule key n params s =
     (let look = (\<lambda>l r. i18n_lookup (in_catalogs s) l (key @ ''.'' @ r));
          v = js_coalesce (js_coalesce (look (in_locale s) (rule (in_locale s) n)) (look (in_locale s) ''other''))
                (look default_locale ''other'')
      in if v = JUndef then key else interpolate (set_field ''count'' n params) (js_string v))"

definition config_description :: "string \<Rightarrow> js \<Rightarrow> i18n \<Rightarrow> js" where
  "config_description key fallback s =
     js_or (i18n_lookup (in_catalogs s) (in_locale s) (''configDescriptions.'' @ key)) fallback"

text \<open>The category table; the four names written in Chinese are arguments, in the order of the table.\<close>

definition skill_category_keys :: "string \<Rightarrow> string \<Rightarrow> string \<Rightarrow> string \<Rightarrow> (string \<times> string) list" where
  "skill_category_keys general platform knowledge privileged =
    [(general, ''generalDiagnostics''), (''general'', ''generalDiagnostics''), (''diagnosis'', ''generalDiagnostics''),
     (''diagnostics'', ''generalDiagnostics''), (platform, ''platformOperations''), (''system'', ''platformOperations''),
     (knowledge, ''knowledgeRetrieval''), (''external_api'', ''knowledgeRetrieval''),
     (privileged, ''privilegedOperations''), (''admin'', ''privilegedOperations''),
     (''mysql'', ''mysql''), (''oceanbase mysql'', ''oceanbaseMysql''), (''postgresql'', ''postgresql''),
     (''sqlserver'', ''sqlServer''), (''sql server'', ''sqlServer''), (''oracle'', ''oracle''),
     (''opengauss'', ''openGauss''), (''hana'', ''sapHana''), (''sap hana'', ''sapHana''),
     (''monitoring'', ''monitoring''), (''inspection'', ''inspection''), (''notification'', ''notification''),
     (''query'', ''query''), (''custom'', ''custom'')]"

definition skill_category :: "(string \<times> string) list \<Rightarrow> js \<Rightarrow> i18n \<Rightarrow> string \<times> i18n" where
  "skill_category table v s =
     (let original = trim (text_or_empty v) in
      if original = [] then i18n_t ''skills.categories.generalDiagnostics'' (JObj []) s
      else (case (case map_of table original of Some k \<Rightarrow> Some k | None \<Rightarrow> map_of table (to_lower original)) of
              Some k \<Rightarrow> i18n_t (''skills.categories.'' @ k) (JObj []) s
            | None \<Rightarrow> (original, s)))"

section \<open>Switching\<close>

text \<open>The document's language, direction, title and subtitle.\<close>

definition document_metadata :: "i18n \<Rightarrow> string \<times> string \<times> string \<times> string \<times> i18n" where
  "document_metadata s =
     (let dir = (case map_of (in_defs s) (in_locale s) of Some d \<Rightarrow> (if ld_dir d = [] then ''ltr'' else ld_dir d) | None \<Rightarrow> ''ltr'');
          (title, s1) = i18n_t ''app.title'' (JObj []) s;
          (sub, s2) = i18n_t ''app.subtitle'' (JObj []) s1
      in (in_locale s, dir, title, sub, s2))"

definition set_locale :: "js \<Rightarrow> bool \<Rightarrow> i18n \<Rightarrow> i18n" where
  "set_locale v persist s =
     (let normalized = normalize (in_defs s) v;
          s1 = (if truthy v \<and> normalized = None then s\<lparr>in_invalid := Suc (in_invalid s)\<rparr> else s);
          next_locale = (case normalized of Some l \<Rightarrow> l | None \<Rightarrow> default_locale);
          s2 = s1\<lparr>in_locale := next_locale\<rparr>;
          s3 = (if persist \<and> in_storage_ok s2 then s2\<lparr>in_stored := Some next_locale\<rparr> else s2)
      in (case document_metadata s3 of (_, _, _, _, s4) \<Rightarrow> s4))"

definition dirty_mark :: "string \<Rightarrow> i18n \<Rightarrow> i18n" where
  "dirty_mark scope s = s\<lparr>in_dirty := List.insert scope (in_dirty s)\<rparr>"

definition dirty_clear :: "string \<Rightarrow> i18n \<Rightarrow> i18n" where
  "dirty_clear scope s = s\<lparr>in_dirty := (if scope \<noteq> [] then removeAll scope (in_dirty s) else [])\<rparr>"

definition is_dirty :: "i18n \<Rightarrow> bool" where
  "is_dirty s \<longleftrightarrow> in_dirty s \<noteq> []"

text \<open>
  What a switch does besides: the toast with the reason, a reload of the page when the editor's own
  language bundle is loaded, or the redrawing of the sidebar and the route.
\<close>

datatype switch_effect = NothingDone | FailureToast string | ReloadPage | Redraw bool

text \<open>\<open>confirmed\<close> is the user's answer, \<open>update\<close> the server's to the profile change (a message on
  failure), \<open>monaco\<close> whether the editor is loaded.\<close>

definition switch_locale :: "js \<Rightarrow> bool \<Rightarrow> (string \<Rightarrow> string + js) \<Rightarrow> bool \<Rightarrow> i18n \<times> 'l store \<Rightarrow>
    bool \<times> switch_effect \<times> i18n \<times> 'l store" where
  "switch_locale v confirmed update monaco = (\<lambda>(s, st).
     (case normalize (in_defs s) v of
        None \<Rightarrow> (True, NothingDone, s, st)
      | Some next_locale \<Rightarrow>
          if next_locale = in_locale s then (True, NothingDone, s, st)
          else (let s0 = (if is_dirty s then snd (i18n_t ''language.unsavedConfirm'' (JObj []) s) else s) in
            if is_dirty s \<and> \<not> confirmed then (False, NothingDone, s0, st)
            else
              (let user = store_get ''currentUser'' st;
                   answer = (if truthy user then map_sum id Some (update next_locale) else Inr None)
               in case answer of
                    Inl msg \<Rightarrow> (let (m, s1) = i18n_t ''language.saveFailed'' (JObj [(''message'', JStr msg)]) s0
                                in (False, FailureToast m, s1, st))
                  | Inr updated \<Rightarrow>
                      (let st' = (case updated of Some u \<Rightarrow> store_put ''currentUser'' u st | None \<Rightarrow> st);
                           s1 = dirty_clear [] (set_locale (JStr next_locale) True s0)
                       in (True, if monaco then ReloadPage else Redraw (truthy user), s1, st'))))))"

section \<open>Laws\<close>

lemma i18n_t_fields [simp]:
  "in_locale (snd (i18n_t k p s)) = in_locale s" "in_defs (snd (i18n_t k p s)) = in_defs s"
  "in_stored (snd (i18n_t k p s)) = in_stored s" "in_dirty (snd (i18n_t k p s)) = in_dirty s"
  "in_catalogs (snd (i18n_t k p s)) = in_catalogs s" "in_storage_ok (snd (i18n_t k p s)) = in_storage_ok s"
  by (simp_all add: i18n_t_def Let_def)

lemma set_locale_fields [simp]:
  "in_locale (set_locale v b s) = (case normalize (in_defs s) v of Some l \<Rightarrow> l | None \<Rightarrow> default_locale)"
  "in_defs (set_locale v b s) = in_defs s"
  "in_dirty (set_locale v b s) = in_dirty s"
  "in_storage_ok (set_locale v b s) = in_storage_ok s"
  "in_stored (set_locale v b s) =
     (if b \<and> in_storage_ok s then Some (case normalize (in_defs s) v of Some l \<Rightarrow> l | None \<Rightarrow> default_locale) else in_stored s)"
  by (auto simp: set_locale_def document_metadata_def Let_def case_prod_beta)

lemma normalize_defined: "normalize defs v = Some l \<Longrightarrow> map_of defs l \<noteq> None"
proof -
  assume "normalize defs v = Some l"
  then obtain p where p: "find (\<lambda>(code, d). to_lower code = locale_candidate (js_string v) \<or> locale_candidate (js_string v) \<in> set (ld_aliases d)) defs = Some p"
    and l: "l = fst p"
    by (auto simp: normalize_def Let_def split: if_splits)
  from p have "p \<in> set defs" unfolding find_Some_iff using nth_mem by metis
  with l show ?thesis by (simp add: map_of_eq_None_iff)
qed

section \<open>Runs\<close>

text \<open>The operations of the page, in any order.\<close>

inductive i18n_step :: "i18n \<times> 'l store \<Rightarrow> i18n \<times> 'l store \<Rightarrow> bool" where
  register: "register_locale code cat d s = Some s' \<Longrightarrow> i18n_step (s, st) (s', st)"
| translate: "i18n_step (s, st) (snd (i18n_t k p s), st)"
| set_loc: "i18n_step (s, st) (set_locale v b s, st)"
| mark: "i18n_step (s, st) (dirty_mark sc s, st)"
| clear: "i18n_step (s, st) (dirty_clear sc s, st)"
| switch: "switch_locale v conf upd mon (s, st) = (ok, eff, s', st') \<Longrightarrow> i18n_step (s, st) (s', st')"

inductive i18n_reach :: "(string, js) jsmap \<Rightarrow> string option \<Rightarrow> bool \<Rightarrow> i18n \<times> 'l store \<Rightarrow> bool"
  for cats stored ok where
  start: "i18n_reach cats stored ok (i18n_start cats stored ok, init_store)"
| step: "i18n_reach cats stored ok x \<Longrightarrow> i18n_step x y \<Longrightarrow> i18n_reach cats stored ok y"

definition locale_inv :: "i18n \<Rightarrow> bool" where
  "locale_inv s \<longleftrightarrow> map_of (in_defs s) (in_locale s) \<noteq> None \<and> map_of (in_defs s) default_locale \<noteq> None"

lemma map_of_update_defined: "map_of m k' \<noteq> None \<Longrightarrow> map_of (AList.update k v m) k' \<noteq> None"
  by (simp add: update_conv')

lemma switch_cases:
  assumes "switch_locale v conf upd mon (s, st) = (ok, eff, s', st')"
  shows "in_defs s' = in_defs s
     \<and> (in_locale s' = in_locale s \<and> in_stored s' = in_stored s \<and> in_dirty s' = in_dirty s \<and> st' = st
        \<or> ok \<and> normalize (in_defs s) v \<noteq> None
          \<and> in_locale s' = (case normalize (in_defs s) (JStr (the (normalize (in_defs s) v))) of Some l \<Rightarrow> l | None \<Rightarrow> default_locale)
          \<and> in_dirty s' = [])"
  using assms
  by (auto simp: switch_locale_def Let_def case_prod_beta dirty_clear_def split: option.splits sum.splits if_splits)

lemma locale_inv_step: "i18n_step x y \<Longrightarrow> locale_inv (fst x) \<Longrightarrow> locale_inv (fst y)"
proof (induction rule: i18n_step.induct)
  case (register code cat d s s' st)
  then show ?case
    by (auto simp: register_locale_def locale_inv_def update_conv' split: if_splits)
next
  case (set_loc s st v b)
  then show ?case using normalize_defined [of "in_defs s" v]
    by (auto simp: locale_inv_def split: option.splits)
next
  case (switch v conf upd mon s st ok eff s' st')
  then show ?case
    using switch_cases [OF switch(1)] normalize_defined [of "in_defs s" "JStr (the (normalize (in_defs s) v))"]
    by (auto simp: locale_inv_def split: option.splits)
qed (auto simp: locale_inv_def dirty_mark_def dirty_clear_def)

section \<open>Properties\<close>

lemma locale_inv_start: "locale_inv (i18n_start cats stored ok)"
proof -
  have d: "map_of builtin_locales default_locale \<noteq> None"
    by (simp add: builtin_locales_def default_locale_def)
  show ?thesis
    using d normalize_defined [of builtin_locales "case stored of Some v \<Rightarrow> JStr v | None \<Rightarrow> JNull"]
    by (auto simp: locale_inv_def i18n_start_def read_stored_locale_def Let_def split: option.splits if_splits)
qed

lemma i18n_reach_inv: "i18n_reach cats stored ok x \<Longrightarrow> locale_inv (fst x)"
proof (induction rule: i18n_reach.induct)
  case start
  then show ?case by (simp add: locale_inv_start)
next
  case (step x y)
  then show ?case by (blast intro: locale_inv_step)
qed

text \<open>
  The current locale is always one that is registered, and so is the default one, in whatever
  order locales are registered, set, switched and refused, and whatever the browser had stored.
\<close>

theorem locale_always_registered:
  "i18n_reach cats stored ok (s, st) \<Longrightarrow>
     (\<exists>d. map_of (in_defs s) (in_locale s) = Some d) \<and> (\<exists>d. map_of (in_defs s) default_locale = Some d)"
  using i18n_reach_inv [of cats stored ok "(s, st)"] by (auto simp: locale_inv_def)

theorem locale_always_registered_witness:
  "\<exists>d. map_of (in_defs (set_locale (JStr ''fr'') True (i18n_start [] (Some ''en'') True)))
        (in_locale (set_locale (JStr ''fr'') True (i18n_start [] (Some ''en'') True))) = Some d"
proof -
  let ?s = "i18n_start [] (Some ''en'') True"
  have "i18n_reach [] (Some ''en'') True (set_locale (JStr ''fr'') True ?s, init_store :: nat store)"
    by (rule i18n_reach.step [OF i18n_reach.start i18n_step.set_loc])
  from locale_always_registered [OF this] show ?thesis by blast
qed

lemma builtin_code: "map_of builtin_locales l \<noteq> None \<Longrightarrow> l = ''zh-CN'' \<or> l = ''en-US''"
  by (auto simp: builtin_locales_def split: if_splits)

lemma builtin_normalize: "l = ''zh-CN'' \<or> l = ''en-US'' \<Longrightarrow> normalize builtin_locales (JStr l) = Some l"
proof -
  have "normalize builtin_locales (JStr ''zh-CN'') = Some ''zh-CN''"
    "normalize builtin_locales (JStr ''en-US'') = Some ''en-US''"
    by code_simp+
  then show "l = ''zh-CN'' \<or> l = ''en-US'' \<Longrightarrow> normalize builtin_locales (JStr l) = Some l" by auto
qed

text \<open>
  A choice of language survives a reload: whatever value was asked for, the stored locale is read
  back as the locale that was set, and an unknown value selects the default locale and is counted.
\<close>

theorem locale_persist_roundtrip:
  assumes "in_defs s = builtin_locales" and "in_storage_ok s"
  shows "in_locale (i18n_start cats (in_stored (set_locale v True s)) True) = in_locale (set_locale v True s)
     \<and> read_stored_locale (set_locale v True s) = Some (in_locale (set_locale v True s))
     \<and> (truthy v \<and> normalize builtin_locales v = None \<longrightarrow>
          in_locale (set_locale v True s) = default_locale \<and> in_invalid s < in_invalid (set_locale v True s))"
proof -
  let ?s' = "set_locale v True s"
  have "in_locale ?s' = ''zh-CN'' \<or> in_locale ?s' = ''en-US''"
    using assms(1) builtin_code normalize_defined [of builtin_locales v]
    by (auto simp: default_locale_def split: option.splits)
  moreover have st: "in_stored ?s' = Some (in_locale ?s')" "in_defs ?s' = builtin_locales" "in_storage_ok ?s'"
    using assms by simp_all
  ultimately have n: "normalize builtin_locales (JStr (in_locale ?s')) = Some (in_locale ?s')"
    using builtin_normalize by blast
  have "read_stored_locale ?s' = Some (in_locale ?s')"
    using n st by (simp add: read_stored_locale_def)
  moreover have "in_locale (i18n_start cats (in_stored ?s') True) = in_locale ?s'"
    unfolding st(1) using n by (simp add: i18n_start_def read_stored_locale_def Let_def)
  moreover have "in_invalid (snd (i18n_t k p u)) = in_invalid u" for k p u
    by (simp add: i18n_t_def Let_def)
  ultimately show ?thesis
    using assms(1) by (auto simp: set_locale_def document_metadata_def Let_def case_prod_beta)
qed

theorem locale_persist_roundtrip_witness:
  "in_locale (i18n_start [] (in_stored (set_locale (JStr ''EN_us'') True (i18n_start [] None True))) True) = ''en-US''"
proof -
  have "normalize builtin_locales (JStr ''EN_us'') = Some ''en-US''" by code_simp
  then have "in_locale (set_locale (JStr ''EN_us'') True (i18n_start [] None True)) = ''en-US''"
    by (simp add: i18n_start_def Let_def)
  with locale_persist_roundtrip [of "i18n_start [] None True" "[]" "JStr ''EN_us''"] show ?thesis
    by (simp add: i18n_start_def Let_def)
qed

text \<open>
  Switching the language is all or nothing: when it reports failure (the user kept the unsaved
  page, or the server refused) the locale, the stored locale, the unsaved marks and the user are
  as before; when it reports success the locale is the one asked for, or the value named no locale,
  and after a real change nothing is marked unsaved.
\<close>

theorem switch_locale_atomic:
  assumes "switch_locale v confirmed update monaco (s, st) = (ok, eff, s', st')" and "in_defs s = builtin_locales"
  shows "(\<not> ok \<longrightarrow> in_locale s' = in_locale s \<and> in_stored s' = in_stored s \<and> in_dirty s' = in_dirty s \<and> st' = st)
     \<and> (ok \<longrightarrow> in_locale s' = (case normalize builtin_locales v of Some l \<Rightarrow> l | None \<Rightarrow> in_locale s)
              \<and> (in_locale s' \<noteq> in_locale s \<longrightarrow> \<not> is_dirty s'))"
proof (cases "normalize builtin_locales v")
  case None
  with assms show ?thesis by (auto simp: switch_locale_def)
next
  case (Some l)
  then have n: "normalize builtin_locales (JStr l) = Some l"
    using builtin_normalize builtin_code normalize_defined by metis
  show ?thesis
  proof (cases "l = in_locale s")
    case True
    with Some assms show ?thesis by (auto simp: switch_locale_def)
  next
    case False
    with Some assms n show ?thesis
      by (auto simp: switch_locale_def Let_def case_prod_beta dirty_clear_def is_dirty_def split: sum.splits if_splits)
  qed
qed

theorem switch_locale_atomic_witness:
  "\<exists>eff s' st'. switch_locale (JStr ''en'') True (\<lambda>l. Inl ''offline'') False
      (dirty_mark ''page'' (i18n_start [] None True), store_put ''currentUser'' (JObj []) (init_store :: nat store)) = (False, eff, s', st')
    \<and> in_locale s' = ''zh-CN'' \<and> in_dirty s' = [''page'']"
proof -
  let ?s = "dirty_mark ''page'' (i18n_start [] None True)" and ?st = "store_put ''currentUser'' (JObj []) (init_store :: nat store)"
  obtain ok eff s' st' where r: "switch_locale (JStr ''en'') True (\<lambda>l. Inl ''offline'') False (?s, ?st) = (ok, eff, s', st')"
    by (metis prod_cases4)
  have d: "in_defs ?s = builtin_locales" "in_locale ?s = ''zh-CN''" "in_dirty ?s = [''page'']"
    by (simp_all add: dirty_mark_def i18n_start_def read_stored_locale_def default_locale_def normalize_def Let_def)
  have "normalize builtin_locales (JStr ''en'') = Some ''en-US''" by code_simp
  then have "\<not> ok" using r d by (auto simp: switch_locale_def Let_def case_prod_beta split: if_splits)
  with switch_locale_atomic [OF r d(1)] r d show ?thesis by auto
qed

lemma interpolate_plain: "CHR ''{'' \<notin> set a \<Longrightarrow> interpolate params (a @ b) = a @ interpolate params b"
  by (induction a) (auto simp: Let_def)

lemma interpolate_name:
  assumes "name \<noteq> []" and "\<forall>c \<in> set name. name_char c"
  shows "interpolate params (CHR ''{'' # name @ CHR ''}'' # b) = param_text params name @ interpolate params b"
proof -
  have c: "\<not> name_char (CHR ''}'')" by (simp add: name_char_def char_class_defs)
  then have "takeWhile name_char (name @ CHR ''}'' # b) = name"
    using assms(2) by (simp add: takeWhile_append2)
  with assms(1) show ?thesis by (simp add: Let_def)
qed

text \<open>
  Interpolation is one pass: a placeholder is replaced by the text of its parameter, and that text
  is never read for placeholders again, so no value a user supplies can pull in another parameter; a
  placeholder without a parameter stays as it is.
\<close>

theorem interpolate_one_pass:
  assumes "CHR ''{'' \<notin> set a" and "name \<noteq> []" and "\<forall>c \<in> set name. name_char c"
  shows "interpolate params (a @ ''{'' @ name @ ''}'' @ b)
       = a @ (if has_field params name then (if nullish (field params name) then [] else js_string (field params name))
              else ''{'' @ name @ ''}'') @ interpolate params b"
  using interpolate_plain [OF assms(1)] interpolate_name [OF assms(2,3)]
  by (simp add: param_text_def Let_def)

theorem interpolate_one_pass_witness:
  "interpolate (JObj [(''user'', JStr ''{secret}''), (''secret'', JStr ''s3'')]) (''by '' @ ''{'' @ ''user'' @ ''}'' @ ''!'')
     = ''by {secret}!''"
  using interpolate_one_pass [of "''by ''" "''user''" "JObj [(''user'', JStr ''{secret}''), (''secret'', JStr ''s3'')]" "''!''"]
  by (simp add: name_char_def char_class_defs has_field_def nullish_def Let_def del: append.simps)

end
