(* ===== verification/InspectionConfig.thy ===== *)
theory InspectionConfig
  imports AlertTemplates
begin

text \<open>
  The dialog that configures the inspection and the alerts of a datasource (pages/datasources.js): the form of the
  dialog, opened with a stored configuration or with what the user had entered before looking at the baseline,
  what is read back from it, the request that saves it, and the preview of the template chosen.
\<close>

section \<open>Opening the dialog\<close>

record config_form =
  cg_enabled :: bool
  cg_interval :: string
  cg_ai :: bool
  cg_template :: string

definition interval_presets :: "js list" where
  "interval_presets = map JInt [3600, 21600, 86400, 604800, 2592000]"

text \<open>\<^verbatim>\<open>parseInt(v, 10) || 86400\<close>.\<close>

definition seconds_or_day :: "js \<Rightarrow> js" where
  "seconds_or_day v = js_or (JNum (parse_int_str (js_string v))) (JInt 86400)"

definition interval_options :: "js \<Rightarrow> js list" where
  "interval_options v =
     (let current = seconds_or_day v
      in if \<exists>p \<in> set interval_presets. strict_eq p current then interval_presets else interval_presets @ [current])"

definition effective_config :: "js \<Rightarrow> js option \<Rightarrow> js" where
  "effective_config config draft = spread config (case draft of Some d \<Rightarrow> d | None \<Rightarrow> JObj [])"

definition selected_template :: "js list \<Rightarrow> js \<Rightarrow> js" where
  "selected_template templates config =
     js_or (field config ''alert_template_id'')
       (js_or (case find (\<lambda>t. truthy (field t ''is_default'')) templates of Some t \<Rightarrow> field t ''id'' | None \<Rightarrow> JUndef) (JStr []))"

definition offered_templates :: "js list \<Rightarrow> js \<Rightarrow> js list" where
  "offered_templates templates selected =
     filter (\<lambda>t. truthy (field t ''enabled'') \<or> strict_eq (field t ''id'') selected) templates"

definition show_inspection_config :: "js list \<Rightarrow> js \<Rightarrow> js option \<Rightarrow> config_form" where
  "show_inspection_config templates config draft =
     (let c = effective_config config draft;
          interval = js_or (field c ''schedule_interval'') (JInt 86400);
          selected = selected_template templates c
      in \<lparr>cg_enabled = truthy (field c ''enabled''),
          cg_interval = select_value (map js_string (interval_options interval)) (\<lambda>opt. opt = js_string (seconds_or_day interval)),
          cg_ai = (\<not> strict_eq (field c ''use_ai_analysis'') (JBool False)),
          cg_template = select_value ([] # map (\<lambda>t. js_string (field t ''id'')) (offered_templates templates selected))
            (\<lambda>opt. opt \<noteq> [] \<and> js_string selected = opt)\<rparr>)"

section \<open>Reading it back\<close>

definition chosen_template :: "config_form \<Rightarrow> js" where
  "chosen_template f = (if cg_template f \<noteq> [] then JNum (parse_int_str (cg_template f)) else JNull)"

definition capture_draft :: "config_form \<Rightarrow> js" where
  "capture_draft f = JObj
     [(''enabled'', JBool (cg_enabled f)), (''schedule_interval'', seconds_or_day (JStr (cg_interval f))),
      (''use_ai_analysis'', JBool (cg_ai f)), (''alert_template_id'', chosen_template f)]"

text \<open>The body of the request, or none when no template is chosen: an error is shown instead.\<close>

definition save_inspection_config :: "js \<Rightarrow> config_form \<Rightarrow> js option" where
  "save_inspection_config base f =
     (if \<not> truthy (chosen_template f) then None
      else Some (JObj
        [(''enabled'', JBool (cg_enabled f)), (''schedule_interval'', seconds_or_day (JStr (cg_interval f))),
         (''use_ai_analysis'', JBool (cg_ai f)), (''ai_model_id'', js_or (field base ''ai_model_id'') JNull),
         (''kb_ids'', if is_arr (field base ''kb_ids'') then field base ''kb_ids'' else JArr []),
         (''alert_template_id'', chosen_template f),
         (''threshold_rules'', js_or (field base ''threshold_rules'') (JObj [])),
         (''alert_engine_mode'', js_or (field base ''alert_engine_mode'') (JStr ''inherit'')),
         (''ai_policy_source'', js_or (field base ''ai_policy_source'') (JStr ''inline'')),
         (''ai_policy_text'', js_or (field base ''ai_policy_text'') JNull),
         (''ai_policy_id'', js_or (field base ''ai_policy_id'') JNull),
         (''alert_ai_model_id'', js_or (field base ''alert_ai_model_id'') JNull),
         (''ai_shadow_enabled'', JBool (truthy (field base ''ai_shadow_enabled''))),
         (''baseline_config'', js_or (field base ''baseline_config'') (JObj [])),
         (''event_ai_config'', js_or (field base ''event_ai_config'') (JObj []))]))"

section \<open>The preview of a template\<close>

definition preview_config :: "js \<Rightarrow> js" where
  "preview_config config =
     (let payload = (if truthy config \<and> typeof_object config then config else JObj []);
          rules = field payload ''threshold_rules''
      in JObj
        [(''alert_engine_mode'', if field payload ''alert_engine_mode'' = JStr ''ai'' then JStr ''ai'' else JStr ''threshold''),
         (''threshold_rules'', if truthy rules \<and> typeof_object rules then rules else JObj []),
         (''baseline_config'', js_or (field payload ''baseline_config'') (JObj [])),
         (''event_ai_config'', js_or (field payload ''event_ai_config'') (JObj [])),
         (''ai_policy_text'', js_or (field payload ''ai_policy_text'') JNull)])"

text \<open>The thresholds named: an expression, or the metric, its threshold and duration of each rule that has one.\<close>

datatype preview_rules = PreviewExpression js | PreviewRules "(string \<times> js \<times> js) list" | NotConfigured

definition preview_rule :: "js \<Rightarrow> string \<Rightarrow> (string \<times> js \<times> js) option" where
  "preview_rule rules key =
     (let rule = field rules key
      in if nullish (field rule ''threshold'') then None
         else Some (key, field rule ''threshold'', js_or (field rule ''duration'') (JStr ''-'')))"

definition preview_rules :: "js \<Rightarrow> preview_rules" where
  "preview_rules config =
     (let rules = field config ''threshold_rules'';
          expression = field (field rules ''custom_expression'') ''expression'';
          named = List.map_filter (preview_rule rules) metric_keys
      in if truthy expression then PreviewExpression expression
         else if named = [] then NotConfigured else PreviewRules named)"

record preview =
  pv_name :: js
  pv_default :: bool
  pv_enabled :: bool
  pv_ai :: bool
  pv_rules :: preview_rules
  pv_baseline :: "js option option"
  pv_event_ai :: bool
  pv_policy :: "js option"
  pv_summary :: "js option"

definition find_template :: "js list \<Rightarrow> string \<Rightarrow> js option" where
  "find_template templates i = find (\<lambda>t. js_string (field t ''id'') = i) templates"

definition template_preview :: "js list \<Rightarrow> string \<Rightarrow> js \<Rightarrow> preview option" where
  "template_preview templates i baseline =
     map_option (\<lambda>t.
       let c = preview_config (field t ''template_config''); ai = (field c ''alert_engine_mode'' = JStr ''ai'')
       in \<lparr>pv_name = field t ''name'', pv_default = truthy (field t ''is_default''), pv_enabled = truthy (field t ''enabled''),
           pv_ai = ai, pv_rules = preview_rules c,
           pv_baseline =
             (if truthy (field (field c ''baseline_config'') ''enabled'')
              then Some (if truthy baseline then Some (js_or (field baseline ''profile_count'') (JInt 0)) else None)
              else None),
           pv_event_ai = (\<not> strict_eq (field (field c ''event_ai_config'') ''enabled'') (JBool False)),
           pv_policy = (if ai \<and> truthy (field c ''ai_policy_text'') then Some (field c ''ai_policy_text'') else None),
           pv_summary = (if truthy (field t ''summary'') then Some (field t ''summary'') else None)\<rparr>)
       (find_template templates i)"

text \<open>The preview shown and whether the two buttons of the baseline are, when a template is chosen.\<close>

definition sync_preview :: "js list \<Rightarrow> js \<Rightarrow> string \<Rightarrow> preview option \<times> bool" where
  "sync_preview templates baseline i =
     (template_preview templates i baseline,
      truthy (field (field (preview_config (case find_template templates i of
          Some t \<Rightarrow> field t ''template_config'' | None \<Rightarrow> JUndef)) ''baseline_config'') ''enabled''))"

section \<open>Integers read back\<close>

lemma parse_int_some: "parse_int_str s = NaN \<or> (\<exists>i :: int. parse_int_str s = Fin (of_int i))"
  unfolding parse_int_str_def Let_def by (auto intro: exI [of _ "int n" for n] exI [of _ "- int n" for n])

declare js_string_int [simp]

lemma seconds_int: "i \<noteq> 0 \<Longrightarrow> seconds_or_day (JInt i) = JInt i" "i \<noteq> 0 \<Longrightarrow> seconds_or_day (JStr (str_of_int i)) = JInt i"
  by (simp_all add: seconds_or_day_def js_or_def)

text \<open>Every interval offered is a number of seconds, and not zero.\<close>

lemma seconds_is_int: obtains i where "seconds_or_day v = JInt i" "i \<noteq> 0"
proof (cases "\<exists>i :: int. parse_int_str (js_string v) = Fin (of_int i) \<and> i \<noteq> 0")
  case True
  then show ?thesis using that by (auto simp: seconds_or_day_def js_or_def)
next
  case False
  then have "seconds_or_day v = JInt 86400"
    using parse_int_some [of "js_string v"] by (auto simp: seconds_or_day_def js_or_def)
  then show ?thesis using that [of 86400] by simp
qed

lemma interval_option_int:
  assumes "opt \<in> set (interval_options v)"
  obtains i where "opt = JInt i" "i \<noteq> 0"
proof -
  obtain c where c: "seconds_or_day v = JInt c" "c \<noteq> 0" by (rule seconds_is_int)
  then have "\<exists>i. opt = JInt i \<and> i \<noteq> 0"
    using assms by (auto simp: interval_options_def interval_presets_def Let_def split: if_splits intro: exI [of _ "86400 :: int"])
  then show ?thesis using that by blast
qed

section \<open>A draft survives\<close>

definition int_ids :: "js list \<Rightarrow> bool" where
  "int_ids templates \<longleftrightarrow> (\<forall>t \<in> set templates. \<exists>i :: int. field t ''id'' = JInt i \<and> i \<noteq> 0)"

lemma int_ids_Nil [simp]: "int_ids []"
  by (simp add: int_ids_def)

lemma int_ids_Cons: "field t ''id'' = JInt i \<Longrightarrow> i \<noteq> 0 \<Longrightarrow> int_ids ts \<Longrightarrow> int_ids (t # ts)"
  unfolding int_ids_def by fastforce

text \<open>A dialog as the user may leave it: an interval and a template that it offers.\<close>

definition dialog_state :: "js list \<Rightarrow> js \<Rightarrow> config_form \<Rightarrow> bool" where
  "dialog_state templates interval f \<longleftrightarrow>
     cg_interval f \<in> js_string ` set (interval_options interval)
     \<and> (\<exists>t \<in> set templates. cg_template f = js_string (field t ''id''))"

lemma interval_selected:
  assumes "i \<noteq> 0"
  shows "select_value (map js_string (interval_options (JInt i))) (\<lambda>opt. opt = js_string (JInt i)) = str_of_int i"
proof -
  have p: "strict_eq (JInt p) (JInt i) \<longleftrightarrow> p = i" for p by (auto simp: numeral_eq_iff)
  have "JInt i \<in> set (interval_options (JInt i))"
    using assms by (auto simp: interval_options_def seconds_int interval_presets_def Let_def)
  then have "js_string (JInt i) \<in> set (map js_string (interval_options (JInt i)))" by (metis image_eqI set_map)
  from select_chosen [OF this] show ?thesis by simp
qed

lemma template_selected:
  assumes "t \<in> set ts" and "field t ''id'' = JInt i"
  shows "select_value ([] # map (\<lambda>t. js_string (field t ''id'')) (offered_templates ts (JInt i)))
      (\<lambda>opt. opt \<noteq> [] \<and> js_string (JInt i) = opt) = str_of_int i"
proof (rule select_unique)
  have "t \<in> set (offered_templates ts (JInt i))" using assms by (simp add: offered_templates_def)
  then show "str_of_int i \<in> set ([] # map (\<lambda>t. js_string (field t ''id'')) (offered_templates ts (JInt i)))"
    using assms(2) by force
qed (auto simp: eq_commute [of "[]"])

lemma draft_fields:
  "field (effective_config config (Some (capture_draft f))) ''enabled'' = JBool (cg_enabled f)"
  "field (effective_config config (Some (capture_draft f))) ''schedule_interval'' = seconds_or_day (JStr (cg_interval f))"
  "field (effective_config config (Some (capture_draft f))) ''use_ai_analysis'' = JBool (cg_ai f)"
  "field (effective_config config (Some (capture_draft f))) ''alert_template_id'' = chosen_template f"
  by (simp_all add: effective_config_def capture_draft_def field_spread has_field_def)

text \<open>
  C19. Looking at the baseline does not lose what was entered: the dialog that opens again when the baseline is
  closed shows the switches, the interval and the template that the user had chosen, whatever is stored.
\<close>

theorem config_draft_survives:
  assumes "int_ids templates" and "dialog_state templates interval f"
  shows "show_inspection_config templates config (Some (capture_draft f)) = f"
proof -
  obtain opt where opt: "opt \<in> set (interval_options interval)" "cg_interval f = js_string opt"
    using assms(2) by (auto simp: dialog_state_def)
  obtain n where n: "opt = JInt n" "n \<noteq> 0" using interval_option_int [OF opt(1)] .
  obtain t i where t: "t \<in> set templates" "field t ''id'' = JInt i" "i \<noteq> 0" "cg_template f = js_string (JInt i)"
    using assms unfolding dialog_state_def int_ids_def by metis
  have s: "cg_interval f = str_of_int n" "cg_template f = str_of_int i" using opt(2) n(1) t(4) by simp_all
  have c: "chosen_template f = JInt i" "js_or (JInt i) v = JInt i" "js_or (JInt n) w = JInt n" for v w
    using t(3) n(2) by (simp_all add: chosen_template_def s js_or_def)
  let ?e = "effective_config config (Some (capture_draft f))"
  have "selected_template templates ?e = JInt i" unfolding selected_template_def draft_fields c ..
  moreover have "js_or (field ?e ''schedule_interval'') (JInt 86400) = JInt n"
    unfolding draft_fields s using seconds_int(2) [OF n(2)] c(3) by simp
  ultimately show ?thesis
    unfolding show_inspection_config_def Let_def seconds_int(1) [OF n(2)]
    by (simp only: interval_selected [OF n(2)] template_selected [OF t(1,2)] seconds_int(1) [OF n(2)])
       (cases f, use s in \<open>simp add: draft_fields\<close>)
qed

theorem config_draft_survives_witness:
  "let ts = [JObj [(''id'', JInt 1), (''is_default'', JBool True)], JObj [(''id'', JInt 2)]];
       f = \<lparr>cg_enabled = True, cg_interval = ''7200'', cg_ai = False, cg_template = ''2''\<rparr>
   in show_inspection_config ts (JObj []) (Some (capture_draft f)) = f"
proof -
  let ?ts = "[JObj [(''id'', JInt 1), (''is_default'', JBool True)], JObj [(''id'', JInt 2)]]"
  let ?f = "\<lparr>cg_enabled = True, cg_interval = ''7200'', cg_ai = False, cg_template = ''2''\<rparr>"
  have i: "int_ids ?ts" by (rule int_ids_Cons [of _ 1], simp, simp, rule int_ids_Cons [of _ 2]) simp_all
  have "str_of_int 7200 = ''7200''" "str_of_int 2 = ''2''"
    by (simp_all add: str_of_int_def digit_char_def str_of_nat.simps char_of_def bit_0)
  then have s: "js_string (JInt 7200) = ''7200''" "js_string (JInt 2) = ''2''" by (metis js_string_int)+
  have o: "JInt 7200 \<in> set (interval_options (JInt 7200))"
    using seconds_int(1) [of 7200] by (simp add: interval_options_def interval_presets_def)
  have "dialog_state ?ts (JInt 7200) ?f"
    unfolding dialog_state_def
  proof (intro conjI)
    show "cg_interval ?f \<in> js_string ` set (interval_options (JInt 7200))" by (rule image_eqI [where x = "JInt 7200"]) (use s o in \<open>simp_all only: config_form.simps\<close>)
    show "\<exists>t \<in> set ?ts. cg_template ?f = js_string (field t ''id'')"
      by (rule bexI [of _ "JObj [(''id'', JInt 2)]"]) (simp_all only: s config_form.simps field_JObj_Cons list.set insert_iff simp_thms if_True)
  qed
  from config_draft_survives [OF i this] show ?thesis unfolding Let_def .
qed

text \<open>A configuration as the server stores it.\<close>

definition stored_config :: "js list \<Rightarrow> js \<Rightarrow> bool" where
  "stored_config templates config \<longleftrightarrow>
     (\<forall>k \<in> {''enabled'', ''use_ai_analysis'', ''ai_shadow_enabled''}. \<exists>b. field config k = JBool b)
   \<and> (\<exists>n :: int. n \<noteq> 0 \<and> field config ''schedule_interval'' = JInt n)
   \<and> (\<exists>t \<in> set templates. field config ''alert_template_id'' = field t ''id'')
   \<and> is_arr (field config ''kb_ids'')
   \<and> (\<forall>k \<in> {''threshold_rules'', ''baseline_config'', ''event_ai_config''}. \<exists>kvs. field config k = JObj kvs)
   \<and> (\<forall>k \<in> {''alert_engine_mode'', ''ai_policy_source''}. truthy (field config k))
   \<and> (\<forall>k \<in> {''ai_model_id'', ''ai_policy_text'', ''ai_policy_id'', ''alert_ai_model_id''}. truthy (field config k) \<or> field config k = JNull)"

lemma stored_shown:
  assumes "int_ids templates" and "stored_config templates config"
  shows "capture_draft (show_inspection_config templates config None)
    = JObj (map (\<lambda>k. (k, field config k)) [''enabled'', ''schedule_interval'', ''use_ai_analysis'', ''alert_template_id''])"
    and "truthy (chosen_template (show_inspection_config templates config None))"
proof -
  obtain n t i b a where v: "n \<noteq> 0" "field config ''schedule_interval'' = JInt n" "t \<in> set templates"
      "field config ''alert_template_id'' = JInt i" "field t ''id'' = JInt i" "i \<noteq> 0"
      "field config ''enabled'' = JBool b" "field config ''use_ai_analysis'' = JBool a"
    using assms unfolding stored_config_def int_ids_def by (metis insertCI)
  let ?f = "show_inspection_config templates config None"
  have e: "field (effective_config config None) k = field config k" for k
    by (simp add: effective_config_def spread_def field_def)
  have j: "js_or (JInt n) w = JInt n" "js_or (JInt i) w = JInt i" for w using v(1,6) by (simp_all add: js_or_def)
  have f: "?f = \<lparr>cg_enabled = b, cg_interval = str_of_int n, cg_ai = a, cg_template = str_of_int i\<rparr>"
    unfolding show_inspection_config_def Let_def selected_template_def e v(2,4,7,8) j seconds_int(1) [OF v(1)]
    by (simp only: interval_selected [OF v(1)] template_selected [OF v(3,5)]) simp
  show "truthy (chosen_template ?f)" using v(6) unfolding f by (simp add: chosen_template_def)
  show "capture_draft ?f = JObj (map (\<lambda>k. (k, field config k)) [''enabled'', ''schedule_interval'', ''use_ai_analysis'', ''alert_template_id''])"
    unfolding f capture_draft_def using v seconds_int(2) [OF v(1)] by (simp add: chosen_template_def)
qed

text \<open>
  A configuration saved without a change is the one that was stored: the switches, the interval and the
  template it had, and every setting that the dialog does not show, when they are such as the server stores.
\<close>

theorem config_saved_unchanged:
  assumes "int_ids templates" and "stored_config templates config"
  shows "\<exists>payload. save_inspection_config config (show_inspection_config templates config None) = Some payload
    \<and> map fst (obj_fields payload) = [''enabled'', ''schedule_interval'', ''use_ai_analysis'', ''ai_model_id'', ''kb_ids'',
        ''alert_template_id'', ''threshold_rules'', ''alert_engine_mode'', ''ai_policy_source'', ''ai_policy_text'',
        ''ai_policy_id'', ''alert_ai_model_id'', ''ai_shadow_enabled'', ''baseline_config'', ''event_ai_config'']
    \<and> (\<forall>(k, v) \<in> set (obj_fields payload). v = field config k)"
proof -
  let ?f = "show_inspection_config templates config None"
  have o: "js_or v w = v" if "truthy v \<or> v = w" for v w using that by (auto simp: js_or_def)
  have d: "JBool (cg_enabled ?f) = field config ''enabled''" "seconds_or_day (JStr (cg_interval ?f)) = field config ''schedule_interval''"
      "JBool (cg_ai ?f) = field config ''use_ai_analysis''" "chosen_template ?f = field config ''alert_template_id''"
    using stored_shown(1) [OF assms] unfolding capture_draft_def by simp_all
  have k: "js_or (field config ''ai_model_id'') JNull = field config ''ai_model_id''"
      "js_or (field config ''ai_policy_text'') JNull = field config ''ai_policy_text''"
      "js_or (field config ''ai_policy_id'') JNull = field config ''ai_policy_id''"
      "js_or (field config ''alert_ai_model_id'') JNull = field config ''alert_ai_model_id''"
      "js_or (field config ''threshold_rules'') w = field config ''threshold_rules''"
      "js_or (field config ''baseline_config'') w = field config ''baseline_config''"
      "js_or (field config ''event_ai_config'') w = field config ''event_ai_config''"
      "js_or (field config ''alert_engine_mode'') w = field config ''alert_engine_mode''"
      "js_or (field config ''ai_policy_source'') w = field config ''ai_policy_source''"
      "JBool (truthy (field config ''ai_shadow_enabled'')) = field config ''ai_shadow_enabled''" for w
    using assms(2) unfolding stored_config_def by (auto intro!: o)
  have "is_arr (field config ''kb_ids'')" using assms(2) by (simp add: stored_config_def)
  then show ?thesis
    using stored_shown(2) [OF assms] unfolding save_inspection_config_def d k by simp
qed

theorem config_saved_unchanged_witness:
  "\<exists>c ts payload. save_inspection_config c (show_inspection_config ts c None) = Some payload \<and> field c ''schedule_interval'' = JInt 7200
     \<and> (\<forall>(k, v) \<in> set (obj_fields payload). v = field c k)"
proof -
  let ?c = "JObj [(''enabled'', JBool True), (''schedule_interval'', JInt 7200), (''use_ai_analysis'', JBool False),
      (''ai_shadow_enabled'', JBool False), (''alert_template_id'', JInt 3), (''kb_ids'', JArr []), (''threshold_rules'', JObj []),
      (''baseline_config'', JObj []), (''event_ai_config'', JObj []), (''alert_engine_mode'', JStr ''inherit''),
      (''ai_policy_source'', JStr ''inline''), (''ai_model_id'', JNull), (''ai_policy_text'', JNull), (''ai_policy_id'', JNull),
      (''alert_ai_model_id'', JNull)]"
  let ?ts = "[JObj [(''id'', JInt 3)]]"
  have i: "int_ids ?ts" by (rule int_ids_Cons [of _ 3]) simp_all
  have n: "\<exists>n :: int. n \<noteq> 0 \<and> field ?c ''schedule_interval'' = JInt n" by (intro exI [of _ "7200 :: int"]) simp
  have s: "stored_config ?ts ?c" unfolding stored_config_def using n by (simp, blast)
  have "field ?c ''schedule_interval'' = JInt 7200" by simp
  moreover obtain payload where "save_inspection_config ?c (show_inspection_config ?ts ?c None) = Some payload"
      "\<forall>(k, v) \<in> set (obj_fields payload). v = field ?c k"
    using config_saved_unchanged [OF i s] by (elim exE conjE)
  ultimately show ?thesis by (intro exI conjI)
qed

section \<open>The preview does not know the rules that are stored\<close>

lemma saved_rule_no_threshold:
  assumes "saved_sound ms"
  shows "preview_rule (JObj ms) k = None"
proof (cases "map_of ms k")
  case None
  then show ?thesis by (simp add: preview_rule_def field_def nullish_def)
next
  case (Some r)
  then have "(k, r) \<in> set ms" by (rule map_of_SomeD)
  then obtain ls where "r = JObj [(''levels'', JArr (map level_js ls))]" using assms by (auto simp: saved_sound_def)
  then show ?thesis using Some by (simp add: preview_rule_def field_def nullish_def)
qed

lemma saved_no_expression:
  assumes "saved_sound ms"
  shows "field (JObj ms) ''custom_expression'' = JUndef"
proof (cases "map_of ms ''custom_expression''")
  case (Some r)
  then have "(''custom_expression'', r) \<in> set ms" by (rule map_of_SomeD)
  then obtain n limit where "(''custom_expression'', n, limit) \<in> set metric_fields" using assms unfolding saved_sound_def by fast
  then show ?thesis by (simp add: metric_fields_def)
qed (simp add: field_def)

lemma next_config_rules: "field (next_config tr config rules f) ''threshold_rules'' = rules"
  by (simp add: next_config_def Let_def)

text \<open>
  The preview of a template says that no threshold is configured, whatever the rules: the editor of the
  templates stores the thresholds of a metric by severity, and the preview looks for a single one.
\<close>

theorem preview_ignores_levels:
  assumes "submit_template tr template f = (errs, Some (CreateTemplate payload))" and "\<not> rf_custom (tp_rules f)"
  shows "preview_rules (preview_config (field payload ''template_config'')) = NotConfigured
    \<and> (\<exists>rules. snd (build_rules (tp_rules f)) = Some rules \<and> obj_fields rules \<noteq> []
         \<and> field (field payload ''template_config'') ''threshold_rules'' = rules)"
proof -
  obtain es rules where b: "build_rules (tp_rules f) = (es, Some rules)"
    using assms(1) by (cases "build_rules (tp_rules f)"; cases "snd (build_rules (tp_rules f))") (auto simp: submit_template_def)
  let ?c = "next_config tr (normalize_template (field template ''template_config'')) rules f"
  have c: "field payload ''template_config'' = ?c" and ne: "obj_fields (field ?c ''threshold_rules'') \<noteq> []"
    using assms(1) b by (auto simp: submit_template_def Let_def split: if_splits)
  obtain ms where ms: "rules = JObj ms" "saved_sound ms" using build_rules_saved [OF b assms(2)] by blast
  have "truthy ?c \<and> typeof_object ?c" by (simp add: next_config_def Let_def set_field_def)
  moreover have "field ?c ''threshold_rules'' = JObj ms" using next_config_rules ms(1) by metis
  ultimately have "field (preview_config ?c) ''threshold_rules'' = JObj ms" by (simp add: preview_config_def Let_def)
  then have "preview_rules (preview_config ?c) = NotConfigured"
    unfolding preview_rules_def Let_def
    using saved_rule_no_threshold [OF ms(2)] saved_no_expression [OF ms(2)] by (simp add: map_filter_simps metric_keys_def)
  then show ?thesis using b c ne by (simp add: next_config_rules)
qed

theorem preview_ignores_levels_witness:
  "\<exists>f payload. submit_template (\<lambda>k. k) JNull f = ([], Some (CreateTemplate payload))
     \<and> preview_rules (preview_config (field payload ''template_config'')) = NotConfigured"
proof -
  let ?g = "[''cpu_usage'' \<mapsto> [(60, 300), (80, 60), (85, 60), (90, 60 :: int)]]"
  let ?f = "\<lparr>tp_name = ''x'', tp_description = [], tp_mode = ''threshold'', tp_rules = show_rules (stored_rules ?g), tp_policy = [],
      tp_model = [], tp_baseline = False, tp_event_ai = True, tp_enabled = True, tp_default = False\<rparr>"
  have v: "rules_valid ?g" by (simp add: rules_valid_def metric_keys_def metric_fields_def levels_valid_def level_ok_def)
  have n: "restore_text tr JUndef s = s" for tr s by (simp add: restore_text_def text_or_empty_def js_or_def)
  have t: "trim ''x'' = ''x''" by (rule trim_plain) (simp add: is_ws_def)
  have m: "field (next_config tr c r ?f) ''alert_engine_mode'' = JStr ''threshold''" for tr c r
    by (simp add: next_config_def Let_def)
  have r: "field (next_config tr c r ?f) ''threshold_rules'' = r" for tr c r by (rule next_config_rules)
  have "build_rules (tp_rules ?f) = ([], Some (stored_rules ?g))" using rules_kept [OF v] by simp
  then have "\<exists>payload. submit_template (\<lambda>k. k) JNull ?f = ([], Some (CreateTemplate payload))"
    unfolding submit_template_def Let_def
    using stored_rules_some [OF v] by (simp only: prod.case option.case r m) (simp add: n t)
  then obtain payload where p: "submit_template (\<lambda>k. k) JNull ?f = ([], Some (CreateTemplate payload))" ..
  have "\<not> rf_custom (tp_rules ?f)" using show_stored(2) [OF v] by simp
  from preview_ignores_levels [OF p this] p show ?thesis by blast
qed

end
