(* ===== verification/PageLinks.thy ===== *)
theory PageLinks
  imports AppRouter UrlCodec
begin

text \<open>
  Links from one page to another: the hash of a route and the parameters after its question mark, as the pages build
  them with \<^verbatim>\<open>URLSearchParams\<close> and the router takes them apart.
\<close>

definition page_link :: "string \<Rightarrow> (string \<times> string) list \<Rightarrow> string" where
  "page_link page kvs = page @ ''?'' @ form_serialize kvs"

text \<open>The router finds the page that a link names and hands it the parameters, whatever characters they contain.\<close>

lemma route_parse_link:
  assumes "page \<noteq> []" and "kvs \<noteq> []" and "CHR ''?'' \<notin> set page" and "CHR ''/'' \<notin> set page"
  shows "route_parse (page_link page kvs) = (page, form_serialize kvs)"
proof -
  let ?q = "form_serialize kvs"
  have "?q \<noteq> []" using assms(2) form_parse_serialize [of kvs] by (metis form_parse_serialize form_serialize_def join.simps(1) list.map_disc_iff)
  moreover have "split_on (CHR ''?'') (page_link page kvs) = [page, ?q]"
    using split_on_append [OF assms(3), of ?q] split_on_no_sep [OF form_serialize_no_question] by (simp add: page_link_def)
  moreover have "split_on (CHR ''/'') page = [page]" using assms(4) by (simp add: split_on_no_sep)
  ultimately show ?thesis using assms(1) by (simp add: route_parse_def route_hash_def page_link_def)
qed

end
