(* ===== verification/DiagnosisContext.thy ===== *)
theory DiagnosisContext
  imports PageLinks JsNumber
begin

text \<open>
  \<^verbatim>\<open>frontend/js/pages/diagnosis.js\<close>, what a diagnosis session starts with: the permissions of its skills, the
  options read from a deep link, the context of an alert, an event or an inspection report that is added to
  the first question, and the session list's stored state. Answers of the server are an environment: None
  is a request that failed.
\<close>

record context_env =
  cx_tr :: "string \<Rightarrow> (string \<times> js) list \<Rightarrow> string"
  cx_event :: "js \<Rightarrow> js option"
  cx_alert :: "js \<Rightarrow> js option"
  cx_report :: "js \<Rightarrow> js option"

section \<open>Permissions of the skills\<close>

definition base_authorizations :: js where
  "base_authorizations = JObj
     [(''platform_operations'', JBool False), (''high_privilege_operations'', JBool False),
      (''knowledge_retrieval'', JBool True)]"

definition add_catalog_group :: "js \<Rightarrow> js \<Rightarrow> js" where
  "add_catalog_group d g =
     set_field (js_string (field g ''id'')) (JBool (\<not> strict_eq (field g ''enabled_by_default'') (JBool False))) d"

definition default_authorizations :: "js \<Rightarrow> js" where
  "default_authorizations catalog =
     foldl add_catalog_group base_authorizations (elements (js_or (field catalog ''groups'') (JArr [])))"

definition legacy_tool_groups :: "(string \<times> string) list" where
  "legacy_tool_groups =
     [(''manage_alert_settings'', ''platform_operations''), (''list_datasources'', ''platform_operations''),
      (''query_monitoring_history'', ''platform_operations''), (''query_alert_statistics'', ''platform_operations''),
      (''execute_any_sql'', ''high_privilege_operations''), (''execute_any_os_command'', ''high_privilege_operations''),
      (''fetch_webpage'', ''knowledge_retrieval''), (''web_search_bocha'', ''knowledge_retrieval''),
      (''list_documents'', ''knowledge_retrieval''), (''read_document'', ''knowledge_retrieval'')]"

definition drop_legacy_tool :: "js \<Rightarrow> js \<Rightarrow> js" where
  "drop_legacy_tool n t = (case map_of legacy_tool_groups (js_string t) of
     Some g \<Rightarrow> set_field g (JBool False) n | None \<Rightarrow> n)"

definition chosen_authorizations :: "js \<Rightarrow> js \<Rightarrow> js" where
  "chosen_authorizations auth defaults =
     JObj (map (\<lambda>(k, v). (k, if truthy auth \<and> typeof_object auth \<and> field auth k \<noteq> JUndef
                             then JBool (truthy (field auth k)) else v)) (obj_fields defaults))"

definition normalize_authorizations :: "js \<Rightarrow> js \<Rightarrow> js list \<Rightarrow> js" where
  "normalize_authorizations catalog auth legacy =
     foldl drop_legacy_tool (chosen_authorizations auth (default_authorizations catalog)) legacy"

section \<open>Options\<close>

definition opt_js :: "string option \<Rightarrow> js" where
  "opt_js v = (case v of Some s \<Rightarrow> if s = [] then JNull else JStr s | None \<Rightarrow> JNull)"

definition id_param :: "(string \<times> string) list \<Rightarrow> string \<Rightarrow> js" where
  "id_param params k = (case params_get params k of
     Some s \<Rightarrow> (case parse_int_str s of Fin q \<Rightarrow> JNum (Fin q) | _ \<Rightarrow> JNull) | None \<Rightarrow> JNull)"

definition route_options :: "string \<Rightarrow> js" where
  "route_options param =
     (let ps = form_parse param in JObj
       [(''initialDatasourceId'', id_param ps ''datasource''), (''initialAlertId'', id_param ps ''alert''),
        (''initialEventId'', id_param ps ''event''), (''initialReportId'', id_param ps ''report''),
        (''initialAsk'', opt_js (params_get ps ''ask'')),
        (''preferFreshSession'', JBool (opt_js (params_get ps ''ask'') \<noteq> JNull \<or> id_param ps ''alert'' \<noteq> JNull
            \<or> id_param ps ''event'' \<noteq> JNull \<or> id_param ps ''report'' \<noteq> JNull))])"

text \<open>\<^verbatim>\<open>pages/alerts.js\<close>: the link from an alert event to a diagnosis.\<close>

definition event_diagnosis_link :: "js \<Rightarrow> string \<Rightarrow> string" where
  "event_diagnosis_link event prompt =
     ''diagnosis?'' @ form_serialize
       (params_set ''ask'' prompt (params_set ''event'' (js_string (field event ''id''))
         (params_set ''datasource'' (js_string (field event ''datasource_id'')) [])))"

definition has_pinned_context :: "js \<Rightarrow> bool" where
  "has_pinned_context o1 \<longleftrightarrow> truthy (field o1 ''preferFreshSession'') \<or> truthy (field o1 ''initialAsk'')
     \<or> truthy (field o1 ''initialAlertId'') \<or> truthy (field o1 ''initialEventId'') \<or> truthy (field o1 ''initialReportId'')"

definition initial_session_title :: "context_env \<Rightarrow> js \<Rightarrow> js" where
  "initial_session_title env o1 =
     (if truthy (field o1 ''initialSessionTitle'') then field o1 ''initialSessionTitle''
      else if truthy (field o1 ''initialReportId'')
      then JStr (cx_tr env ''inspectionReportDiagnosisValue'' [(''value0'', field o1 ''initialReportId'')])
      else if truthy (field o1 ''initialEventId'')
      then JStr (cx_tr env ''alarmEventDiagnosisValue'' [(''value0'', field o1 ''initialEventId'')])
      else if truthy (field o1 ''initialAlertId'')
      then JStr (cx_tr env ''alarmDiagnosisValue'' [(''value0'', field o1 ''initialAlertId'')])
      else JStr (cx_tr env ''newSession'' []))"

section \<open>Text of a prompt\<close>

text \<open>The text after the first code fence.\<close>

fun after_fence :: "string \<Rightarrow> string option" where
  "after_fence [] = None"
| "after_fence (c # cs) = (if starts_with (c # cs) ''```'' then Some (drop 3 (c # cs)) else after_fence cs)"

lemma after_fence_length: "after_fence s = Some r \<Longrightarrow> length r < length s"
  by (induction s) (auto split: if_splits)

function drop_fences :: "string \<Rightarrow> string" where
  "drop_fences [] = []"
| "drop_fences (c # cs) =
     (if starts_with (c # cs) ''```''
      then (case after_fence (drop 3 (c # cs)) of
              Some r \<Rightarrow> CHR '' '' # drop_fences r
            | None \<Rightarrow> c # drop_fences cs)
      else c # drop_fences cs)"
  by pat_completeness auto
termination
  by (relation "measure length") (auto dest!: after_fence_length)

function unwrap_code :: "string \<Rightarrow> string" where
  "unwrap_code [] = []"
| "unwrap_code (c # cs) =
     (let body = takeWhile (\<lambda>x. x \<noteq> CHR ''`'') cs in
      if c = CHR ''`'' \<and> length body < length cs then body @ unwrap_code (drop (length body + 1) cs)
      else c # unwrap_code cs)"
  by pat_completeness auto
termination
  by (relation "measure length") auto

function unwrap_links :: "string \<Rightarrow> string" where
  "unwrap_links [] = []"
| "unwrap_links (c # cs) =
     (let label = takeWhile (\<lambda>x. x \<noteq> CHR '']'') cs; rest = drop (length label) cs;
          target = takeWhile (\<lambda>x. x \<noteq> CHR '')'') (drop 2 rest)
      in if c = CHR ''['' \<and> label \<noteq> [] \<and> starts_with rest ''](''
            \<and> target \<noteq> [] \<and> length target < length (drop 2 rest)
         then label @ unwrap_links (drop (length target + 1) (drop 2 rest))
         else c # unwrap_links cs)"
  by pat_completeness auto
termination
  by (relation "measure length") auto

fun collapse :: "(char \<Rightarrow> bool) \<Rightarrow> bool \<Rightarrow> string \<Rightarrow> string" where
  "collapse p run [] = []"
| "collapse p run (c # cs) =
     (if p c then (if run then collapse p True cs else CHR '' '' # collapse p True cs)
      else c # collapse p False cs)"

definition is_mark :: "char \<Rightarrow> bool" where
  "is_mark c \<longleftrightarrow> c \<in> set ''#>*_~-''"

definition strip_markdown :: "js \<Rightarrow> string" where
  "strip_markdown v =
     trim (collapse is_ws False (collapse is_mark False (unwrap_links (unwrap_code (drop_fences (text_or_empty v))))))"

definition compact_prompt :: "nat \<Rightarrow> js \<Rightarrow> string" where
  "compact_prompt n v =
     (let t = strip_markdown v in
      if t = [] then [] else if length t \<le> n then t else trim_end (take n t) @ ''...'')"

section \<open>Context of an alert, an event or a report\<close>

definition prompt_line :: "context_env \<Rightarrow> string \<Rightarrow> nat \<Rightarrow> js \<Rightarrow> string list" where
  "prompt_line env key n v = (if truthy v then [cx_tr env key [(''value0'', JStr (compact_prompt n v))]] else [])"

definition diagnosis_context_block :: "context_env \<Rightarrow> string \<Rightarrow> js \<Rightarrow> string" where
  "diagnosis_context_block env label ctx =
     (let name = js_or (field ctx ''datasource_name'') (field (field ctx ''datasource_info'') ''name'');
          kind = js_or (field ctx ''datasource_type'') (field (field ctx ''datasource_info'') ''db_type'');
          report = field ctx ''linked_report''
      in join [CHR 0x0A] (filter (\<lambda>l. l \<noteq> [])
        ([label] @
         (if truthy name \<or> truthy kind
          then [cx_tr env ''datasourceValue'' [(''value0'', JStr (join '' / '' (map js_string (filter truthy [name, kind]))))]]
          else []) @
         prompt_line env ''triggerTypeValue'' 120 (field ctx ''latest_trigger_type'') @
         prompt_line env ''caseSummaryValue'' 220 (field ctx ''case_summary'') @
         prompt_line env ''diagnosisSummaryValue'' 260 (field ctx ''diagnosis_summary'') @
         prompt_line env ''rootCauseLabel'' 260 (field ctx ''root_cause'') @
         prompt_line env ''recommendationsLabel'' 260 (field ctx ''recommended_action'') @
         (if truthy (field report ''report_id'')
          then [trim (cx_tr env ''linkedReportLabel'' [(''value0'', field report ''report_id''),
                  (''value1'', JStr (compact_prompt 120 (js_or (field report ''title'') (JStr []))))])]
          else []))))"

definition report_context_block :: "context_env \<Rightarrow> js \<Rightarrow> js \<Rightarrow> string" where
  "report_context_block env i report =
     (let summary = compact_prompt 320 (field report ''content_md'')
      in join [CHR 0x0A]
        ([cx_tr env ''inspectionReportValue'' [(''value0'', i)]] @
         prompt_line env ''titleValue'' 160 (field report ''title'') @
         prompt_line env ''triggerTypeValue'' 120 (field report ''trigger_type'') @
         prompt_line env ''statusValue'' 80 (field report ''status'') @
         prompt_line env ''triggerReasonValue'' 220 (field report ''trigger_reason'') @
         (if summary \<noteq> [] then [cx_tr env ''reportSummaryLabel'' [(''value0'', JStr summary)]] else [])))"

text \<open>An answer that is null makes the block's construction throw, which counts as a failed request.\<close>

definition answered :: "js option \<Rightarrow> js option" where
  "answered r = (case r of Some JNull \<Rightarrow> None | _ \<Rightarrow> r)"

fun is_finite :: "js \<Rightarrow> bool" where
  "is_finite (JNum (Fin q)) \<longleftrightarrow> True"
| "is_finite _ \<longleftrightarrow> False"

definition event_block :: "context_env \<Rightarrow> js \<Rightarrow> string" where
  "event_block env i = (case answered (cx_event env i) of
     Some ctx \<Rightarrow> diagnosis_context_block env (cx_tr env ''alarmValue'' [(''value0'', i)]) ctx | None \<Rightarrow> [])"

text \<open>An alert that is not found is looked up as an event.\<close>

definition alert_block :: "context_env \<Rightarrow> js \<Rightarrow> string" where
  "alert_block env i = (case answered (cx_alert env i) of
     Some ctx \<Rightarrow> diagnosis_context_block env (cx_tr env ''alarmValue2'' [(''value0'', i)]) ctx
   | None \<Rightarrow> event_block env i)"

definition report_block :: "context_env \<Rightarrow> js \<Rightarrow> string" where
  "report_block env i = (case answered (cx_report env i) of
     Some r \<Rightarrow> report_context_block env i r | None \<Rightarrow> [])"

definition context_blocks :: "context_env \<Rightarrow> js \<Rightarrow> string list" where
  "context_blocks env o1 = filter (\<lambda>b. b \<noteq> [])
     [if is_finite (field o1 ''initialEventId'') then event_block env (field o1 ''initialEventId'') else [],
      if is_finite (field o1 ''initialAlertId'') then alert_block env (field o1 ''initialAlertId'') else [],
      if is_finite (field o1 ''initialReportId'') then report_block env (field o1 ''initialReportId'') else []]"

text \<open>The options after the first two settings of the page, the title included.\<close>

definition titled_options :: "context_env \<Rightarrow> js \<Rightarrow> js" where
  "titled_options env o1 =
     (let o2 = set_field ''preferFreshSession'' (JBool True) o1
      in if truthy (field o2 ''initialSessionTitle'') then o2
         else set_field ''initialSessionTitle'' (initial_session_title env o2) o2)"

definition hydrate_options :: "context_env \<Rightarrow> js \<Rightarrow> js" where
  "hydrate_options env o1 =
     (if \<not> has_pinned_context o1 then o1
      else let o3 = titled_options env o1;
               blocks = context_blocks env o3;
               nl2 = [CHR 0x0A, CHR 0x0A];
               body = join nl2 blocks;
               heading = cx_tr env ''systemSupplementaryContext'' []
           in if blocks = [] then o3
              else if truthy (field o3 ''initialAsk'')
              then (if includes_str (js_string (field o3 ''initialAsk'')) heading then o3
                    else set_field ''initialAsk''
                      (JStr (js_string (field o3 ''initialAsk'') @ nl2 @ heading @ [CHR 0x0A] @ body)) o3)
              else set_field ''initialAsk''
                (JStr (cx_tr env ''contextDiagnosisAnalysisDisposalRecommendationsValueValue''
                   [(''value0'', JStr heading), (''value1'', JStr body)])) o3)"

section \<open>The session list\<close>

definition sidebar_key :: "js \<Rightarrow> string" where
  "sidebar_key o1 = ''diagnosisSessionSidebarCollapsed:'' @ (if truthy (field o1 ''embedded'') then ''embedded'' else ''page'')"

definition default_sidebar_collapsed :: "js \<Rightarrow> bool" where
  "default_sidebar_collapsed o1 = (case field o1 ''defaultSidebarCollapsed'' of JBool b \<Rightarrow> b | _ \<Rightarrow> False)"

text \<open>The storage: None when it throws.\<close>

definition load_sidebar_collapsed :: "(string, string) jsmap option \<Rightarrow> js \<Rightarrow> bool" where
  "load_sidebar_collapsed storage o1 =
     (case storage of
        Some m \<Rightarrow> (case map_of m (sidebar_key o1) of
            Some v \<Rightarrow> if v = ''1'' then True else if v = ''0'' then False else default_sidebar_collapsed o1
          | None \<Rightarrow> default_sidebar_collapsed o1)
      | None \<Rightarrow> default_sidebar_collapsed o1)"

definition save_sidebar_collapsed :: "bool \<Rightarrow> js \<Rightarrow> (string, string) jsmap option \<Rightarrow> (string, string) jsmap option" where
  "save_sidebar_collapsed c o1 storage =
     map_option (AList.update (sidebar_key o1) (if c then ''1'' else ''0'')) storage"

definition welcome_meta :: "js \<Rightarrow> bool \<times> string" where
  "welcome_meta o1 =
     (truthy (field o1 ''fixedHostId'') \<and> \<not> truthy (field o1 ''fixedDatasourceId''),
      trim (text_or_empty (js_or (field o1 ''contextEntityName'')
         (js_or (field o1 ''hostName'') (js_or (field o1 ''datasourceName'') (JStr []))))))"

text \<open>Icon, label and prompt of the quick questions.\<close>

definition quick_asks :: "context_env \<Rightarrow> js \<Rightarrow> (string \<times> string \<times> string) list" where
  "quick_asks env o1 =
     (let (host, name) = welcome_meta o1;
          ref = (if name \<noteq> [] then cx_tr env ''hostValue'' [(''value0'', JStr name)] else cx_tr env ''currentHost'' []);
          ask = (\<lambda>icon label prompt. (icon, cx_tr env label [], cx_tr env prompt [(''value0'', JStr ref)]));
          plain = (\<lambda>icon label prompt. (icon, cx_tr env label [], cx_tr env prompt []))
      in if host
         then [ask ''activity'' ''runOverview'' ''hostHealthPrompt'',
               ask ''gauge'' ''performanceDiagnostics'' ''cpuMemoryDiskIONetworkAnalysis'',
               ask ''shield-alert'' ''anomalyTroubleshooting'' ''anomalyTriagePrompt'',
               ask ''sliders-horizontal'' ''configurationCheck'' ''environmentReviewPrompt'']
         else [plain ''activity'' ''runOverview'' ''pleaseGiveMeAnOverviewOfThe'',
               plain ''gauge'' ''performanceDiagnostics'' ''pleaseHelpMeAnalyzeTheCurrentPerformance'',
               plain ''shield-alert'' ''anomalyTroubleshooting'' ''pleaseHelpMeIdentifyTheMostNoteworthy'',
               plain ''sliders-horizontal'' ''parameterCheck'' ''pleaseCheckTheKeyParameterConfigurationOf''])"

section \<open>No permission without a grant\<close>

lemma field_authorized_chosen:
  "field (chosen_authorizations auth defaults) k =
     (if field defaults k = JUndef then field (chosen_authorizations auth defaults) k
      else if truthy auth \<and> typeof_object auth \<and> field auth k \<noteq> JUndef then JBool (truthy (field auth k)) else field defaults k)"
proof -
  have "map_of (map (\<lambda>(k, v). (k, f k v)) kvs) k = map_option (f k) (map_of kvs k)" for kvs :: "(string \<times> js) list" and f
    by (induction kvs) auto
  from this [of "\<lambda>k v. if truthy auth \<and> typeof_object auth \<and> field auth k \<noteq> JUndef then JBool (truthy (field auth k)) else v"
      "obj_fields defaults"]
  show ?thesis
    by (auto simp: chosen_authorizations_def field_def split: option.splits)
qed

lemma chosen_missing: "field defaults k = JUndef \<Longrightarrow> field (chosen_authorizations auth defaults) k = JUndef
    \<or> (truthy auth \<and> truthy (field auth k)) \<or> field (chosen_authorizations auth defaults) k = JBool False"
proof -
  have "map_of (map (\<lambda>(k, v). (k, f k v)) kvs) k = map_option (f k) (map_of kvs k)" for kvs :: "(string \<times> js) list" and f
    by (induction kvs) auto
  from this [of "\<lambda>k v. if truthy auth \<and> typeof_object auth \<and> field auth k \<noteq> JUndef then JBool (truthy (field auth k)) else v"
      "obj_fields defaults"]
  show "field defaults k = JUndef \<Longrightarrow> ?thesis"
    by (auto simp: chosen_authorizations_def field_def split: option.splits if_splits)
qed

lemma legacy_fold:
  "field (foldl drop_legacy_tool n ts) k = JBool True \<Longrightarrow>
     field n k = JBool True \<and> list_all (\<lambda>t. map_of legacy_tool_groups (js_string t) \<noteq> Some k) ts"
proof (induction ts arbitrary: n)
  case (Cons t ts)
  then have "field (drop_legacy_tool n t) k = JBool True \<and> list_all (\<lambda>t. map_of legacy_tool_groups (js_string t) \<noteq> Some k) ts"
    by simp
  then show ?case
    by (cases "map_of legacy_tool_groups (js_string t)"; cases "map_of legacy_tool_groups (js_string t) = Some k")
       (auto simp: drop_legacy_tool_def)
qed simp

lemma catalog_fold:
  "field (foldl add_catalog_group d gs) k = v \<Longrightarrow>
     field d k = v \<or> (\<exists>g \<in> set gs. js_string (field g ''id'') = k
        \<and> v = JBool (\<not> strict_eq (field g ''enabled_by_default'') (JBool False)))"
proof (induction gs arbitrary: d)
  case (Cons g gs)
  then have "field (add_catalog_group d g) k = v \<or> (\<exists>g \<in> set gs. js_string (field g ''id'') = k
        \<and> v = JBool (\<not> strict_eq (field g ''enabled_by_default'') (JBool False)))" by simp
  then show ?case
    by (cases "js_string (field g ''id'') = k") (auto simp: add_catalog_group_def)
qed simp

text \<open>
  C10. High-privilege skills are off unless somebody turned them on: if the permissions a message is sent with
  grant them, then the user's choice does or the server's catalog enables the group by default, and no
  disabled tool of the group is left over from the old settings.
\<close>

theorem high_privilege_needs_grant:
  assumes "field (normalize_authorizations catalog auth legacy) ''high_privilege_operations'' = JBool True"
  shows "((truthy auth \<and> truthy (field auth ''high_privilege_operations''))
       \<or> (\<exists>g \<in> set (elements (field catalog ''groups'')). js_string (field g ''id'') = ''high_privilege_operations''
            \<and> field g ''enabled_by_default'' \<noteq> JBool False))
    \<and> list_all (\<lambda>t. map_of legacy_tool_groups (js_string t) \<noteq> Some ''high_privilege_operations'') legacy"
proof -
  let ?k = "''high_privilege_operations''"
  let ?d = "default_authorizations catalog"
  from legacy_fold [OF assms [unfolded normalize_authorizations_def]]
  have c: "field (chosen_authorizations auth ?d) ?k = JBool True"
    and l: "list_all (\<lambda>t. map_of legacy_tool_groups (js_string t) \<noteq> Some ?k) legacy" by simp_all
  have e: "elements (js_or (field catalog ''groups'') (JArr [])) = elements (field catalog ''groups'')"
    by (cases "field catalog ''groups''") (simp_all add: js_or_def)
  have "(truthy auth \<and> truthy (field auth ?k)) \<or> field ?d ?k = JBool True"
    using c chosen_missing [of ?d ?k auth] field_authorized_chosen [of auth ?d ?k]
    by (cases "field ?d ?k = JUndef") (auto split: if_splits)
  moreover have "\<exists>g \<in> set (elements (field catalog ''groups'')). js_string (field g ''id'') = ?k
      \<and> field g ''enabled_by_default'' \<noteq> JBool False" if "field ?d ?k = JBool True"
    using catalog_fold [OF that [unfolded default_authorizations_def]]
    by (auto simp: base_authorizations_def e)
  ultimately show ?thesis using l by blast
qed

theorem high_privilege_needs_grant_witness:
  "list_all (\<lambda>t. map_of legacy_tool_groups (js_string t) \<noteq> Some ''high_privilege_operations'') [JStr ''fetch_webpage'']"
proof -
  have "field (normalize_authorizations JNull (JObj [(''high_privilege_operations'', JBool True)]) [JStr ''fetch_webpage''])
      ''high_privilege_operations'' = JBool True"
    by (simp add: normalize_authorizations_def chosen_authorizations_def default_authorizations_def base_authorizations_def
        drop_legacy_tool_def legacy_tool_groups_def)
  from high_privilege_needs_grant [OF this] show ?thesis by blast
qed

section \<open>Clean prompts\<close>

lemma collapse_chars: "x \<in> set (collapse p run s) \<Longrightarrow> x = CHR '' '' \<or> (x \<in> set s \<and> \<not> p x)"
  by (induction p run s rule: collapse.induct) (auto split: if_splits)

lemma trim_end_chars: "x \<in> set (trim_end s) \<Longrightarrow> x \<in> set s"
  using set_dropWhileD [of x is_ws "rev s"] by (simp add: trim_end_def)

lemma trim_chars: "x \<in> set (trim s) \<Longrightarrow> x \<in> set s"
  unfolding trim_def by (blast dest: set_dropWhileD trim_end_chars)

lemma strip_chars: "x \<in> set (strip_markdown v) \<Longrightarrow> \<not> is_mark x \<and> (is_ws x \<longrightarrow> x = CHR '' '')"
proof -
  assume "x \<in> set (strip_markdown v)"
  then have "x \<in> set (collapse is_ws False (collapse is_mark False (unwrap_links (unwrap_code (drop_fences (text_or_empty v))))))"
    unfolding strip_markdown_def by (rule trim_chars)
  from collapse_chars [OF this] show ?thesis
    by (auto dest!: collapse_chars simp: is_mark_def)
qed

lemma compact_chars: "x \<in> set (compact_prompt n v) \<Longrightarrow> \<not> is_mark x \<and> (is_ws x \<longrightarrow> x = CHR '' '')"
proof -
  assume x: "x \<in> set (compact_prompt n v)"
  then have "x \<in> set (strip_markdown v) \<or> x = CHR ''.''"
    by (auto simp: compact_prompt_def Let_def split: if_splits dest: trim_end_chars in_set_takeD)
  moreover have "\<not> is_mark (CHR ''.'')" "\<not> is_ws (CHR ''.'')" by (simp_all add: is_mark_def is_ws_def)
  ultimately show ?thesis using strip_chars [of x v] by blast
qed

text \<open>
  Text of an alert or a report that goes into a prompt is one short clean line: at most the limit and an
  ellipsis, no markdown mark, and no white space other than plain blanks, whatever the text was.
\<close>

theorem compact_prompt_clean:
  "length (compact_prompt n v) \<le> n + 3
   \<and> filter is_mark (compact_prompt n v) = []
   \<and> filter is_ws (compact_prompt n v) = filter (\<lambda>c. c = CHR '' '') (compact_prompt n v)"
proof -
  have "length (trim_end (take n t)) \<le> n" for t using length_trim_end_le [of "take n t"] by simp
  then have "length (compact_prompt n v) \<le> n + 3" by (simp add: compact_prompt_def Let_def)
  moreover have "filter is_mark (compact_prompt n v) = []"
    using compact_chars [of _ n v] by (auto simp: filter_empty_conv)
  moreover have "is_ws (CHR '' '')" by (simp add: is_ws_def)
  then have "filter is_ws (compact_prompt n v) = filter (\<lambda>c. c = CHR '' '') (compact_prompt n v)"
    using compact_chars [of _ n v] by (intro filter_cong refl) auto
  ultimately show ?thesis by blast
qed

section \<open>The context is added once\<close>

lemma update_known: "map_of kvs k = Some x \<Longrightarrow> AList.update k x kvs = kvs"
  by (induction kvs) (auto split: if_splits)

lemma set_field_same: "field v k = x \<Longrightarrow> x \<noteq> JUndef \<Longrightarrow> set_field k x v = v"
  by (cases v) (auto simp: set_field_def field_def update_known split: option.splits)

lemma context_blocks_ids:
  assumes "field a ''initialEventId'' = field b ''initialEventId''" and "field a ''initialAlertId'' = field b ''initialAlertId''"
    and "field a ''initialReportId'' = field b ''initialReportId''"
  shows "context_blocks env a = context_blocks env b"
  using assms by (simp add: context_blocks_def)

lemma title_defined: "initial_session_title env o1 \<noteq> JUndef"
  by (auto simp: initial_session_title_def)

lemma titled_fields:
  "field (titled_options env o1) ''initialAsk'' = field o1 ''initialAsk''"
  "field (titled_options env o1) ''initialEventId'' = field o1 ''initialEventId''"
  "field (titled_options env o1) ''initialAlertId'' = field o1 ''initialAlertId''"
  "field (titled_options env o1) ''initialReportId'' = field o1 ''initialReportId''"
  "field (titled_options env o1) ''preferFreshSession'' = JBool True"
  by (simp_all add: titled_options_def Let_def)

lemma title_stable:
  assumes "field a ''initialReportId'' = field b ''initialReportId''" and "field a ''initialEventId'' = field b ''initialEventId''"
    and "field a ''initialAlertId'' = field b ''initialAlertId''"
    and "\<not> truthy (field a ''initialSessionTitle'')" and "\<not> truthy (field b ''initialSessionTitle'')"
  shows "initial_session_title env a = initial_session_title env b"
  using assms by (simp add: initial_session_title_def)

lemma titled_done:
  assumes "field v ''preferFreshSession'' = JBool True"
    and "\<And>k. k \<noteq> ''initialAsk'' \<Longrightarrow> field v k = field (titled_options env o1) k"
  shows "titled_options env v = v"
proof -
  have p: "set_field ''preferFreshSession'' (JBool True) v = v" using assms(1) by (simp add: set_field_same)
  show ?thesis
  proof (cases "truthy (field v ''initialSessionTitle'')")
    case True
    then show ?thesis by (simp add: titled_options_def p Let_def)
  next
    case False
    let ?o2 = "set_field ''preferFreshSession'' (JBool True) o1"
    have t: "field v ''initialSessionTitle'' = field (titled_options env o1) ''initialSessionTitle''" by (simp add: assms(2))
    with False have n: "\<not> truthy (field ?o2 ''initialSessionTitle'')"
      by (auto simp: titled_options_def Let_def split: if_splits)
    then have "field v ''initialSessionTitle'' = initial_session_title env ?o2"
      using t by (simp add: titled_options_def Let_def)
    moreover have "initial_session_title env v = initial_session_title env ?o2"
      by (rule title_stable) (use assms(2) titled_fields [of env o1] False n in simp_all)
    ultimately show ?thesis
      using False title_defined [of env v] by (simp add: titled_options_def p set_field_same Let_def)
  qed
qed

lemma hydrate_asked:
  assumes "truthy (field o1 ''initialAsk'')"
  shows "hydrate_options env o1 =
    (let o3 = titled_options env o1; blocks = context_blocks env o1; nl2 = [CHR 0x0A, CHR 0x0A];
         heading = cx_tr env ''systemSupplementaryContext'' []; ask = js_string (field o1 ''initialAsk'')
     in if blocks = [] \<or> includes_str ask heading then o3
        else set_field ''initialAsk'' (JStr (ask @ nl2 @ heading @ [CHR 0x0A] @ join nl2 blocks)) o3)"
proof -
  have "has_pinned_context o1" using assms by (simp add: has_pinned_context_def)
  moreover have "context_blocks env (titled_options env o1) = context_blocks env o1"
    by (rule context_blocks_ids) (simp_all add: titled_fields)
  ultimately show ?thesis
    using assms titled_fields(1) [of env o1]
    by (simp add: hydrate_options_def Let_def)
qed

text \<open>
  C12. The context is added to the question at most once: hydrating options that ask something a second time,
  as a repeated rendering does, changes nothing, and the original question stays the beginning of what is sent.
\<close>

theorem hydrate_options_once:
  assumes "truthy (field o1 ''initialAsk'')"
  shows "hydrate_options env (hydrate_options env o1) = hydrate_options env o1
    \<and> starts_with (js_string (field (hydrate_options env o1) ''initialAsk'')) (js_string (field o1 ''initialAsk''))"
proof -
  let ?t = "titled_options env o1" and ?h = "hydrate_options env o1"
  let ?head = "cx_tr env ''systemSupplementaryContext'' []" and ?ask = "js_string (field o1 ''initialAsk'')"
  let ?new = "?ask @ [CHR 0x0A, CHR 0x0A] @ ?head @ [CHR 0x0A] @ join [CHR 0x0A, CHR 0x0A] (context_blocks env o1)"
  have alt: "?h = ?t \<and> (context_blocks env o1 = [] \<or> includes_str ?ask ?head) \<or> ?h = set_field ''initialAsk'' (JStr ?new) ?t"
    by (simp add: hydrate_asked [OF assms] Let_def)
  then have o: "field ?h k = field ?t k" if "k \<noteq> ''initialAsk''" for k using that by auto
  have a: "truthy (field ?h ''initialAsk'')" using alt assms titled_fields(1) [of env o1] by auto
  have b: "context_blocks env ?h = context_blocks env o1"
    by (rule context_blocks_ids) (simp_all add: o titled_fields)
  have d: "titled_options env ?h = ?h"
    by (rule titled_done) (simp_all add: o titled_fields)
  have i: "context_blocks env ?h = [] \<or> includes_str (js_string (field ?h ''initialAsk'')) ?head"
    using alt
  proof
    assume "?h = ?t \<and> (context_blocks env o1 = [] \<or> includes_str ?ask ?head)"
    then show ?thesis using b titled_fields(1) [of env o1] by auto
  next
    assume "?h = set_field ''initialAsk'' (JStr ?new) ?t"
    then have "js_string (field ?h ''initialAsk'') = (?ask @ [CHR 0x0A, CHR 0x0A]) @ ?head
        @ ([CHR 0x0A] @ join [CHR 0x0A, CHR 0x0A] (context_blocks env o1))" by simp
    then show ?thesis unfolding includes_str_iff by metis
  qed
  have "hydrate_options env ?h = ?h"
    unfolding hydrate_asked [OF a] using i d by (simp add: Let_def)
  moreover have "starts_with (js_string (field ?h ''initialAsk'')) ?ask"
    using alt titled_fields(1) [of env o1] starts_with_append [of ?ask "[]"] by auto
  ultimately show ?thesis by blast
qed

theorem hydrate_options_once_witness:
  "starts_with (js_string (field (hydrate_options
      \<lparr>cx_tr = (\<lambda>k p. k), cx_event = (\<lambda>i. Some (JObj [(''root_cause'', JStr ''lock'')])), cx_alert = (\<lambda>i. None), cx_report = (\<lambda>i. None)\<rparr>
      (JObj [(''initialEventId'', JInt 4), (''initialAsk'', JStr ''why'')])) ''initialAsk'')) ''why''"
  using hydrate_options_once [of "JObj [(''initialEventId'', JInt 4), (''initialAsk'', JStr ''why'')]"] by simp

section \<open>The stored state of the session list\<close>

text \<open>What was saved is loaded, and the embedded list and the page's do not disturb each other.\<close>

lemma sidebar_roundtrip: "load_sidebar_collapsed (save_sidebar_collapsed c o1 (Some m)) o1 = c"
  by (simp add: load_sidebar_collapsed_def save_sidebar_collapsed_def)

lemma sidebar_separate:
  assumes "truthy (field o1 ''embedded'') \<noteq> truthy (field o2 ''embedded'')"
  shows "load_sidebar_collapsed (save_sidebar_collapsed c o1 (Some m)) o2 = load_sidebar_collapsed (Some m) o2"
  using assms by (auto simp: load_sidebar_collapsed_def save_sidebar_collapsed_def sidebar_key_def)

end
