(* ===== verification/InspectionPage.thy ===== *)
theory InspectionPage
  imports DiagnosisContext HtmlForm Pager
begin

text \<open>
  The page of the inspection reports (pages/inspection.js): the list with its filters, pages and polling, the report
  on display, labels, and links to the diagnosis.  A load is \<open>load_reports\<close>, which captures the element of the list,
  and \<open>reports_come\<close> or \<open>reports_failed\<close>; filters, a report, another rendering or leaving may come between them.
  \<open>trp\<close> is the translation of a key with parameters.  The number of reports that the server tells is a number or missing.
\<close>

section \<open>Labels\<close>

definition duration_parts :: "js \<Rightarrow> (string \<times> int list) option" where
  "duration_parts v =
     (case v of
        JNum (Fin q) \<Rightarrow>
          if q < 0 then None
          else (let s = \<lfloor>q\<rfloor>; d = s div 86400; h = s mod 86400 div 3600; m = s mod 3600 div 60; r = s mod 60
                in Some (if 0 < d then (''durationDaysHours'', [d, h])
                         else if 0 < h then (''durationHoursMinutes'', [h, m])
                         else if 0 < m then (''durationMinutesSeconds'', [m, r])
                         else (''durationSeconds'', [r])))
      | _ \<Rightarrow> None)"

definition report_states :: "(string \<times> string \<times> string) list" where
  "report_states =
     [(''completed'', ''completed'', ''success''), (''partial'', ''partialResults'', ''warning''), (''timed_out'', ''timedOut'', ''warning''),
      (''awaiting_confirm'', ''toBeConfirmed'', ''warning''), (''failed'', ''failed'', ''danger''), (''generating'', ''generating'', ''info'')]"

text \<open>Text and class of a status; texts that are looked up are none of the names of \<^verbatim>\<open>Object.prototype\<close>.\<close>

definition report_status :: "(string \<Rightarrow> string) \<Rightarrow> js \<Rightarrow> string \<times> string" where
  "report_status tr s =
     (case map_of report_states (js_string s) of
        Some (key, badge) \<Rightarrow> (tr key, badge)
      | None \<Rightarrow> (js_string (js_or s (JStr (tr ''unknown''))), ''warning''))"

definition trigger_types :: "(string \<times> string \<times> string \<times> string) list" where
  "trigger_types =
     [(''anomaly'', ''exceptionTrigger'', ''danger'', ''anomalyInspectionTitle''),
      (''connection_failure'', ''connectionFailureTrigger'', ''danger'', ''connectionFailureInspectionTitle''),
      (''baseline'', ''baselineTrigger'', ''warning'', ''baselineInspectionTitle''),
      (''scheduled'', ''timingTrigger'', ''success'', ''scheduledInspectionTitle''),
      (''manual'', ''manualTrigger'', ''info'', ''manualInspectionTitle''),
      (''threshold'', ''thresholdTrigger'', ''warning'', ''thresholdInspectionTitle'')]"

definition trigger_label :: "(string \<Rightarrow> string) \<Rightarrow> js \<Rightarrow> string" where
  "trigger_label tr t =
     (case map_of trigger_types (js_string t) of
        Some (key, _) \<Rightarrow> tr key
      | None \<Rightarrow> js_string (js_or t (JStr (tr ''unknownType''))))"

definition trigger_badge :: "(string \<Rightarrow> string) \<Rightarrow> js \<Rightarrow> string \<times> string" where
  "trigger_badge tr t =
     (trigger_label tr t, case map_of trigger_types (js_string t) of Some (_, cls, _) \<Rightarrow> cls | None \<Rightarrow> ''muted'')"

definition report_title :: "(string \<Rightarrow> (string \<times> js) list \<Rightarrow> string) \<Rightarrow> js \<Rightarrow> string" where
  "report_title trp r =
     (case map_of trigger_types (js_string (field r ''trigger_type'')) of
        Some (_, _, key) \<Rightarrow>
          if truthy (field r ''datasource_name'')
          then trp ''reportTitle'' [(''value0'', JStr (trp key [])), (''value1'', field r ''datasource_name'')]
          else js_string (js_or (field r ''title'') (JStr (trp ''untitledReport'' [])))
      | None \<Rightarrow> js_string (js_or (field r ''title'') (JStr (trp ''untitledReport'' []))))"

text \<open>The reasons that the server writes itself, in English and in Chinese, letters large or small.\<close>

definition manual_reasons :: "string list" where
  "manual_reasons =
     [''manual inspection'', ''inspection requested'',
      utf8 [228, 186, 186, 229, 183, 165, 232, 167, 166, 229, 143, 145, 229, 183, 161, 230, 163, 128],
      utf8 [228, 186, 186, 229, 183, 165, 229, 183, 161, 230, 163, 128],
      utf8 [230, 137, 139, 229, 138, 168, 229, 183, 161, 230, 163, 128]]"

definition scheduled_reasons :: "string list" where
  "scheduled_reasons =
     [''scheduled inspection'', utf8 [229, 174, 154, 230, 151, 182, 229, 183, 161, 230, 163, 128],
      utf8 [232, 174, 161, 229, 136, 146, 229, 183, 161, 230, 163, 128]]"

definition connection_reasons :: "string list" where
  "connection_reasons =
     [''database connection failed'',
      utf8 [230, 149, 176, 230, 141, 174, 229, 186, 147, 232, 191, 158, 230, 142, 165, 229, 164, 177, 232, 180, 165]]"

text \<open>\<^verbatim>\<open>\s*[:\uff1a]?\s*(.*)$\<close>: blanks, a colon, also the full-width one, blanks, and the rest on one line.\<close>

definition drop_colon :: "string \<Rightarrow> string" where
  "drop_colon s =
     (if starts_with s '':'' then drop 1 s
      else if starts_with s (utf8 [239, 188, 154]) then drop 3 s
      else s)"

definition connection_detail :: "string \<Rightarrow> string option" where
  "connection_detail reason =
     (case find (\<lambda>p. starts_with (to_lower reason) p) connection_reasons of
        None \<Rightarrow> None
      | Some p \<Rightarrow>
          (let rest = dropWhile is_ws (drop_colon (dropWhile is_ws (drop (length p) reason)))
           in if list_all (\<lambda>c. c \<noteq> CHR 0x0A \<and> c \<noteq> CHR 0x0D) rest then Some rest else None))"

definition trigger_reason :: "(string \<Rightarrow> (string \<times> js) list \<Rightarrow> string) \<Rightarrow> js \<Rightarrow> string" where
  "trigger_reason trp r =
     (let reason = trim (text_or_empty (field r ''trigger_reason'')); t = field r ''trigger_type''
      in if reason = [] then ''-''
         else if t = JStr ''manual'' \<and> to_lower reason \<in> set manual_reasons then trp ''manualInspectionReason'' []
         else if t = JStr ''scheduled'' \<and> to_lower reason \<in> set scheduled_reasons then trp ''scheduledInspectionReason'' []
         else if t = JStr ''connection_failure''
         then (case connection_detail reason of
                 Some d \<Rightarrow> if d = [] then trp ''connectionFailureReason'' []
                          else trp ''connectionFailureReasonDetail'' [(''value0'', JStr d)]
               | None \<Rightarrow> reason)
         else reason)"

section \<open>The page\<close>

text \<open>Filters are empty when they are not set; \<open>JNull\<close> is no datasource.\<close>

record report_filters =
  nf_datasource :: js
  nf_status :: string
  nf_trigger :: string
  nf_start :: string
  nf_end :: string

datatype reports_view = ReportsLoading | ReportRows "js list" | NoReports | ReportsFailed | ReportOpen js | ReportsLeft

text \<open>
  \<open>np_boxes\<close> are the texts of the four boxes and \<open>np_selected\<close> the datasource that the selector shows; \<open>np_list\<close> is the
  number of the element that holds the list, when there is one; \<open>np_running\<close> are the intervals that run, \<open>np_timer\<close>
  is the one that the page knows; \<open>np_toasts\<close> counts the messages that a load failed.
\<close>

record reports_page =
  np_page :: int
  np_total :: rat
  np_filters :: report_filters
  np_boxes :: "string \<times> string \<times> string \<times> string"
  np_selected :: js
  np_fixed :: bool
  np_embedded :: bool
  np_list :: "nat option"
  np_view :: reports_view
  np_pager :: "pager_item list"
  np_running :: "nat list"
  np_timer :: "nat option"
  np_next :: nat
  np_toasts :: nat

definition page_size :: int where
  "page_size = 10"

definition no_filters :: report_filters where
  "no_filters = \<lparr>nf_datasource = JNull, nf_status = [], nf_trigger = [], nf_start = [], nf_end = []\<rparr>"

definition new_reports_page :: reports_page where
  "new_reports_page = \<lparr>np_page = 1, np_total = 0, np_filters = no_filters, np_boxes = ([], [], [], []), np_selected = JNull,
     np_fixed = False, np_embedded = False, np_list = None, np_view = ReportsLeft, np_pager = [], np_running = [], np_timer = None,
     np_next = 0, np_toasts = 0\<rparr>"

definition stop_reports :: "reports_page \<Rightarrow> reports_page" where
  "stop_reports p =
     (case np_timer p of
        Some t \<Rightarrow> p\<lparr>np_running := filter (\<lambda>x. x \<noteq> t) (np_running p), np_timer := None\<rparr>
      | None \<Rightarrow> p)"

definition start_reports :: "reports_page \<Rightarrow> reports_page" where
  "start_reports p =
     (let q = stop_reports p
      in q\<lparr>np_running := np_next q # np_running q, np_timer := Some (np_next q), np_next := Suc (np_next q)\<rparr>)"

definition route_reports :: "string \<Rightarrow> js" where
  "route_reports param =
     (let ps = form_parse param
      in JObj [(''fixedDatasourceId'', id_param ps ''datasource''), (''initialReportId'', id_param ps ''report'')])"

text \<open>The parameters of a request.\<close>

definition report_params :: "reports_page \<Rightarrow> (string \<times> string) list" where
  "report_params p =
     (let f = np_filters p
      in [(''limit'', str_of_int page_size), (''offset'', str_of_int ((np_page p - 1) * page_size))]
         @ (if truthy (nf_datasource f) then [(''datasource_id'', js_string (nf_datasource f))] else [])
         @ filter (\<lambda>(_, v). v \<noteq> [])
             [(''status'', nf_status f), (''trigger_type'', nf_trigger f), (''start_date'', nf_start f), (''end_date'', nf_end f)])"

text \<open>A load: without a list the polling stops; else what is asked for, and for which list.\<close>

definition load_reports :: "reports_page \<Rightarrow> reports_page \<times> ((string \<times> string) list \<times> nat) option" where
  "load_reports p =
     (case np_list p of
        None \<Rightarrow> (stop_reports p, None)
      | Some n \<Rightarrow> (if np_timer p = None then p\<lparr>np_view := ReportsLoading\<rparr> else p, Some (report_params p, n)))"

text \<open>\<open>renderWithOptions\<close> up to its first load: a list and boxes of their own, the filters of the last visit.\<close>

definition render_reports :: "js \<Rightarrow> reports_page \<Rightarrow> reports_page" where
  "render_reports opts p =
     (let fixed = field opts ''fixedDatasourceId''; f = np_filters p
      in p\<lparr>np_filters := (if truthy fixed then f\<lparr>nf_datasource := fixed\<rparr> else f), np_boxes := ([], [], [], []), np_selected := JNull,
           np_fixed := truthy fixed, np_embedded := truthy (field opts ''embedded''), np_list := Some (np_next p),
           np_next := Suc (np_next p), np_view := ReportsLoading, np_pager := []\<rparr>)"

definition reports_of :: "js \<Rightarrow> js list" where
  "reports_of r = elements (if is_arr r then r else js_or (field r ''reports'') (js_or (field r ''report'') (JArr [])))"

definition reports_total :: "js \<Rightarrow> rat" where
  "reports_total r = (case field r ''total'' of
      JNum (Fin q) \<Rightarrow> if q = 0 then of_nat (length (reports_of r)) else q
    | _ \<Rightarrow> of_nat (length (reports_of r)))"

definition still_generating :: "js \<Rightarrow> bool" where
  "still_generating r \<longleftrightarrow> field r ''status'' \<noteq> JStr ''completed'' \<and> field r ''status'' \<noteq> JStr ''failed''"

definition last_report_page :: "reports_page \<Rightarrow> int" where
  "last_report_page p = \<lceil>np_total p / of_int page_size\<rceil>"

definition report_pager :: "reports_page \<Rightarrow> pager_item list" where
  "report_pager p = page_buttons (np_page p) (last_report_page p)"

text \<open>What is written into the list that was captured is seen when this list is on display.\<close>

definition show_in :: "nat \<Rightarrow> reports_view \<Rightarrow> reports_page \<Rightarrow> reports_page" where
  "show_in n v p = (if np_list p = Some n then p\<lparr>np_view := v\<rparr> else p)"

definition reports_failed :: "nat \<Rightarrow> reports_page \<Rightarrow> reports_page" where
  "reports_failed n p = (show_in n ReportsFailed p)\<lparr>np_toasts := Suc (np_toasts p)\<rparr>"

text \<open>
  The answer of a load.  Without reports the pages are removed and the function returns; the element of the pages is
  missing when the list is, and that is an error.
\<close>

definition reports_come :: "nat \<Rightarrow> js \<Rightarrow> reports_page \<Rightarrow> reports_page" where
  "reports_come n response p =
     (let rs = reports_of response; q = p\<lparr>np_total := reports_total response\<rparr>
      in if rs = [] then
           (if np_list p = None then reports_failed n q else (show_in n NoReports q)\<lparr>np_pager := []\<rparr>)
         else
           (let q1 = show_in n (ReportRows rs) q;
                q2 = (if np_list q1 = None then q1 else q1\<lparr>np_pager := report_pager q1\<rparr>);
                busy = (\<exists>r \<in> set rs. still_generating r)
            in if \<not> busy \<and> np_timer q2 \<noteq> None then stop_reports q2
               else if busy \<and> np_timer q2 = None then start_reports q2
               else q2))"

text \<open>A report takes the place of the list, or of whatever page is on display when it comes.\<close>

definition open_report :: "js \<Rightarrow> reports_page \<Rightarrow> reports_page" where
  "open_report r p = p\<lparr>np_list := None, np_view := ReportOpen r, np_pager := []\<rparr>"

definition filter_reports :: "string \<times> string \<times> string \<times> string \<Rightarrow> reports_page \<Rightarrow> reports_page" where
  "filter_reports boxes p =
     (case boxes of (status, trigger, start, stop) \<Rightarrow>
        p\<lparr>np_boxes := boxes, np_page := 1,
          np_filters := (np_filters p)\<lparr>nf_status := status, nf_trigger := trigger, nf_start := start, nf_end := stop\<rparr>\<rparr>)"

text \<open>The selector of the datasource, which is there when no datasource is fixed, applies the boxes as well.\<close>

definition select_report_source :: "js \<Rightarrow> reports_page \<Rightarrow> reports_page" where
  "select_report_source ds p =
     (let i = (if truthy ds then field ds ''id'' else JNull)
      in filter_reports (np_boxes p) (p\<lparr>np_selected := i, np_filters := (np_filters p)\<lparr>nf_datasource := i\<rparr>\<rparr>))"

definition goto_reports :: "int \<Rightarrow> reports_page \<Rightarrow> reports_page" where
  "goto_reports i p = p\<lparr>np_page := i\<rparr>"

definition leave_reports :: "reports_page \<Rightarrow> reports_page" where
  "leave_reports p = (stop_reports p)\<lparr>np_list := None, np_view := ReportsLeft, np_fixed := False, np_embedded := False, np_pager := []\<rparr>"

section \<open>Links\<close>

definition set_truthy :: "string \<Rightarrow> js \<Rightarrow> (string \<times> string) list \<Rightarrow> (string \<times> string) list" where
  "set_truthy k v ps = (if truthy v then params_set k (js_string v) ps else ps)"

definition report_diagnosis_link :: "bool \<Rightarrow> js \<Rightarrow> js \<Rightarrow> js \<Rightarrow> string" where
  "report_diagnosis_link embedded ds alert prompt =
     (let ps = set_truthy ''ask'' prompt (set_truthy ''alert'' alert (set_truthy ''datasource'' ds []))
      in if embedded then page_link ''instance-detail'' (params_set ''tab'' ''ai'' ps) else page_link ''diagnosis'' ps)"

definition linked_alert :: "reports_page \<Rightarrow> js \<Rightarrow> string" where
  "linked_alert p alert =
     (if np_embedded p \<and> truthy (nf_datasource (np_filters p))
      then page_link ''instance-detail''
             [(''datasource'', js_string (nf_datasource (np_filters p))), (''tab'', ''alerts''), (''alert'', js_string alert)]
      else ''alerts'')"

text \<open>The labels of a report on display; \<open>datetime\<close> prints a time.\<close>

record report_labels =
  nl_datasource :: string
  nl_id :: string
  nl_created :: string
  nl_completed :: string
  nl_duration :: "(string \<times> int list) option"
  nl_summary :: "string option"
  nl_reason :: "string option"
  nl_prompt :: string
  nl_content :: string

definition label_report :: "(string \<Rightarrow> (string \<times> js) list \<Rightarrow> string) \<Rightarrow> (js \<Rightarrow> string) \<Rightarrow> js \<Rightarrow> report_labels" where
  "label_report trp datetime r =
     (let tr = (\<lambda>k. trp k []);
          source = (if truthy (field r ''datasource_name'') then js_string (field r ''datasource_name'')
                    else if truthy (field r ''datasource_id'') then trp ''datasourceValue'' [(''value0'', field r ''datasource_id'')]
                    else tr ''datasourceNotAssociated'')
      in \<lparr>nl_datasource = source,
          nl_id = (if truthy (field r ''id'') then ''#'' @ js_string (field r ''id'') else ''-''),
          nl_created = (if truthy (field r ''created_at'') then datetime (field r ''created_at'') else ''-''),
          nl_completed = (if truthy (field r ''completed_at'') \<and> datetime (field r ''completed_at'') \<noteq> []
                          then datetime (field r ''completed_at'') @ (if truthy (field r ''completed_at_inferred'') then tr ''supplementLabel'' else [])
                          else if field r ''status'' = JStr ''generating'' then tr ''generating'' else tr ''notRecorded''),
          nl_duration = duration_parts (field r ''duration_seconds''),
          nl_summary = (if truthy (field r ''summary'') then Some (js_string (field r ''summary'')) else None),
          nl_reason = (if truthy (field r ''trigger_reason'') then Some (trigger_reason trp r) else None),
          nl_prompt = trp ''basedOnTheInspectionDiagnosisReportGive''
            [(''value0'', JStr source), (''value1'', JStr (report_title trp r)),
             (''value2'', JStr (trigger_label tr (js_or (field r ''trigger_type'') (JStr ''manual'')))), (''value3'', JStr (trigger_reason trp r)),
             (''value4'', js_or (field r ''summary'') (JStr ''-''))],
          nl_content = (if truthy (field r ''content_md'') then js_string (field r ''content_md'')
                        else if truthy (field r ''error_message'')
                        then trp ''successStatusValueReasonValue''
                               [(''value0'', JStr (fst (report_status tr (field r ''status'')))), (''value1'', field r ''error_message'')]
                        else tr ''noContent'')\<rparr>)"

section \<open>One interval at most\<close>

datatype reports_event = RenderReports js | ReportsCome nat js | ReportsFail nat | RenderedReports | OpenReport js
  | FilterReports "string \<times> string \<times> string \<times> string" | SelectReportSource js | GotoReports int | ReportsTick nat | LeaveReports

text \<open>An interval that runs loads the reports; filters, pages and rendering do so at once.\<close>

fun reports_step :: "reports_page \<Rightarrow> reports_event \<Rightarrow> reports_page" where
  "reports_step p (RenderReports opts) = fst (load_reports (render_reports opts p))"
| "reports_step p (ReportsCome n r) = reports_come n r p"
| "reports_step p (ReportsFail n) = reports_failed n p"
| "reports_step p RenderedReports = start_reports p"
| "reports_step p (OpenReport r) = open_report r p"
| "reports_step p (FilterReports b) = fst (load_reports (filter_reports b p))"
| "reports_step p (SelectReportSource d) = fst (load_reports (select_report_source d p))"
| "reports_step p (GotoReports i) = fst (load_reports (goto_reports i p))"
| "reports_step p (ReportsTick t) = (if t \<in> set (np_running p) then fst (load_reports p) else p)"
| "reports_step p LeaveReports = leave_reports p"

definition one_poll :: "reports_page \<Rightarrow> bool" where
  "one_poll p \<longleftrightarrow> np_running p = (case np_timer p of Some t \<Rightarrow> [t] | None \<Rightarrow> [])"

named_theorems report_frames \<open>what the operations leave of the intervals\<close>

lemma show_in_frame [report_frames]:
  "np_running (show_in n v p) = np_running p" "np_timer (show_in n v p) = np_timer p" "np_list (show_in n v p) = np_list p"
  "np_total (show_in n v p) = np_total p" "np_page (show_in n v p) = np_page p" "np_filters (show_in n v p) = np_filters p"
  by (simp_all add: show_in_def)

lemma one_poll_stop: "one_poll p \<Longrightarrow> np_running (stop_reports p) = [] \<and> np_timer (stop_reports p) = None"
  by (simp add: one_poll_def stop_reports_def split: option.splits)

lemma one_poll_start: "one_poll p \<Longrightarrow> one_poll (start_reports p)"
  using one_poll_stop [of p] by (simp add: one_poll_def start_reports_def Let_def)

lemma one_poll_cong: "np_running q = np_running p \<Longrightarrow> np_timer q = np_timer p \<Longrightarrow> one_poll q = one_poll p"
  by (simp add: one_poll_def)

lemma one_poll_load: "one_poll p \<Longrightarrow> one_poll (fst (load_reports p))"
  using one_poll_stop [of p] by (simp add: load_reports_def one_poll_def split: option.splits)

lemma one_poll_stopped: "one_poll p \<Longrightarrow> one_poll (stop_reports p)"
  using one_poll_stop [of p] by (simp add: one_poll_def)

lemma one_poll_come: "one_poll p \<Longrightarrow> one_poll (reports_come n r p)"
proof -
  assume p: "one_poll p"
  define q where "q = (let q1 = show_in n (ReportRows (reports_of r)) (p\<lparr>np_total := reports_total r\<rparr>)
     in if np_list q1 = None then q1 else q1\<lparr>np_pager := report_pager q1\<rparr>)"
  have "one_poll q" using p by (simp add: one_poll_def q_def report_frames Let_def)
  moreover have "one_poll (reports_failed n (p\<lparr>np_total := reports_total r\<rparr>))"
    "one_poll ((show_in n NoReports (p\<lparr>np_total := reports_total r\<rparr>))\<lparr>np_pager := []\<rparr>)"
    using p by (simp_all add: one_poll_def reports_failed_def report_frames)
  ultimately show ?thesis
    unfolding reports_come_def Let_def q_def [unfolded Let_def, symmetric] by (simp add: one_poll_start one_poll_stopped)
qed

lemma one_poll_step: "one_poll p \<Longrightarrow> one_poll (reports_step p e)"
proof (cases e)
  case (FilterReports b)
  assume "one_poll p"
  then have "one_poll (filter_reports b p)" by (simp add: one_poll_def filter_reports_def split: prod.splits)
  then show ?thesis using FilterReports by (simp add: one_poll_load)
next
  case (SelectReportSource d)
  assume "one_poll p"
  then have "one_poll (select_report_source d p)"
    by (simp add: one_poll_def select_report_source_def filter_reports_def Let_def split: prod.splits)
  then show ?thesis using SelectReportSource by (simp add: one_poll_load)
next
  case (RenderReports opts)
  assume "one_poll p"
  then have "one_poll (render_reports opts p)" by (simp add: one_poll_def render_reports_def Let_def)
  then show ?thesis using RenderReports by (simp add: one_poll_load)
next
  case (GotoReports i)
  assume "one_poll p"
  then have "one_poll (goto_reports i p)" by (simp add: one_poll_def goto_reports_def)
  then show ?thesis using GotoReports by (simp add: one_poll_load)
next
  case LeaveReports
  assume "one_poll p"
  then show ?thesis using LeaveReports one_poll_stop [of p] by (simp add: one_poll_def leave_reports_def)
qed (auto simp: one_poll_come one_poll_start one_poll_load reports_failed_def open_report_def report_frames elim: iffD2 [OF one_poll_cong, rotated 2])

lemma one_poll_run: "one_poll (foldl reports_step new_reports_page es)"
  by (induction es rule: rev_induct) (simp add: one_poll_def new_reports_page_def, simp add: one_poll_step)

text \<open>
  C36. Whatever happens on the page, at most one interval asks for reports, and it is the one that the page can stop.  One that
  was started after the page was left, by an answer or a rendering that came late, stops itself when it fires.
\<close>

theorem reports_polled_once:
  "let p = foldl reports_step new_reports_page es
   in length (np_running p) \<le> 1 \<and> np_running (leave_reports p) = []
    \<and> (\<forall>t \<in> set (np_running p). np_list p = None \<longrightarrow> np_running (reports_step p (ReportsTick t)) = [])"
proof -
  let ?p = "foldl reports_step new_reports_page es"
  have o: "one_poll ?p" by (rule one_poll_run)
  have "length (np_running ?p) \<le> 1" using o by (simp add: one_poll_def split: option.splits)
  moreover have "np_running (leave_reports ?p) = []" using one_poll_stop [OF o] by (simp add: leave_reports_def)
  moreover have "\<forall>t \<in> set (np_running ?p). np_list ?p = None \<longrightarrow> np_running (reports_step ?p (ReportsTick t)) = []"
    using one_poll_stop [OF o] by (simp add: load_reports_def)
  ultimately show ?thesis by (simp add: Let_def)
qed

text \<open>Leaving while the first load is under way: the late rendering starts an interval, whose first tick ends it.\<close>

theorem reports_polled_once_witness:
  "let p = foldl reports_step new_reports_page [RenderReports (JObj []), LeaveReports, RenderedReports]
   in np_running p = [1] \<and> np_running (reports_step p (ReportsTick 1)) = []"
proof -
  let ?es = "[RenderReports (JObj []), LeaveReports, RenderedReports]"
  have e: "np_running (foldl reports_step new_reports_page ?es) = [1]" "np_list (foldl reports_step new_reports_page ?es) = None"
    by (simp_all add: new_reports_page_def render_reports_def load_reports_def leave_reports_def stop_reports_def start_reports_def Let_def)
  with reports_polled_once [of ?es] show ?thesis unfolding Let_def by simp
qed

section \<open>What is polled for ever\<close>

text \<open>
  A report whose inspection has ended with partial results, by the limit of time or waiting for a confirmation counts as
  one that is being made: the list is asked for every five seconds as long as it shows one.
\<close>

theorem ended_reports_polled:
  assumes "r \<in> set (reports_of response)" and "field r ''status'' \<in> {JStr ''partial'', JStr ''timed_out'', JStr ''awaiting_confirm''}"
  shows "np_timer (reports_come n response p) \<noteq> None"
proof -
  have "still_generating r" using assms(2) by (auto simp: still_generating_def)
  then have "\<exists>r \<in> set (reports_of response). still_generating r" using assms(1) by blast
  moreover have "reports_of response \<noteq> []" using assms(1) by auto
  ultimately show ?thesis by (simp add: reports_come_def start_reports_def Let_def)
qed

theorem ended_reports_polled_witness:
  "np_timer (reports_come 0 (JArr [JObj [(''status'', JStr ''partial'')]]) new_reports_page) \<noteq> None"
  by (rule ended_reports_polled [of "JObj [(''status'', JStr ''partial'')]"]) (simp_all add: reports_of_def)

text \<open>
  A list without reports is asked for every five seconds: the function returns before it looks at the interval.
\<close>

theorem empty_list_polled:
  assumes "reports_of response = []" and "np_timer p = Some t"
  shows "np_timer (reports_come n response p) = Some t"
  using assms by (simp add: reports_come_def reports_failed_def report_frames Let_def)

theorem empty_list_polled_witness:
  "np_timer (reports_come 0 (JArr []) (new_reports_page\<lparr>np_timer := Some 3\<rparr>)) = Some 3"
  by (rule empty_list_polled) (simp_all add: reports_of_def)

text \<open>
  An answer without reports that comes when the page has been left, or a report opened, is reported as a failure.
\<close>

theorem late_empty_answer_fails:
  assumes "reports_of response = []"
  shows "np_toasts (reports_come n response (leave_reports p)) = Suc (np_toasts p)"
proof -
  have "np_toasts (leave_reports p) = np_toasts p" by (simp add: leave_reports_def stop_reports_def split: option.splits)
  then show ?thesis using assms by (simp add: reports_come_def reports_failed_def leave_reports_def Let_def)
qed

theorem late_empty_answer_fails_witness:
  "np_toasts (reports_come 0 (JArr []) (leave_reports new_reports_page)) = 1"
  using late_empty_answer_fails [of "JArr []" 0 new_reports_page] by (simp add: reports_of_def new_reports_page_def)

text \<open>
  A report that was asked for before the user went to another page replaces that page.
\<close>

theorem late_report_replaces_page: "np_view (open_report r (leave_reports p)) = ReportOpen r"
  by (simp add: open_report_def)

section \<open>Filters that stay\<close>

text \<open>
  The filters outlive a visit, the boxes do not: after a visit for one datasource, the list of all reports, as it is
  opened from the menu or by the button that leads back from a report, is asked for this datasource only, while its
  selector shows all of them; so it is with a status.
\<close>

theorem old_filters_in_force:
  assumes "truthy (JNum d)" and "field opts ''fixedDatasourceId'' = JNum d" and "\<not> truthy (field opts' ''fixedDatasourceId'')"
  shows "let p1 = filter_reports (status, [], [], []) (render_reports opts p);
             p2 = render_reports opts' (leave_reports p1)
         in np_selected p2 = JNull \<and> np_boxes p2 = ([], [], [], []) \<and> \<not> np_fixed p2
          \<and> (\<exists>ps n. snd (load_reports p2) = Some (ps, n) \<and> (''datasource_id'', js_string (JNum d)) \<in> set ps
               \<and> (status \<noteq> [] \<longrightarrow> (''status'', status) \<in> set ps))"
proof -
  have "np_filters (leave_reports q) = np_filters q" for q
    by (simp add: leave_reports_def stop_reports_def split: option.splits)
  then show ?thesis
    using assms by (simp add: render_reports_def filter_reports_def load_reports_def report_params_def Let_def)
qed

theorem old_filters_in_force_witness:
  "let p2 = render_reports (JObj []) (leave_reports (filter_reports (''failed'', [], [], [])
              (render_reports (route_reports ''datasource=3'') new_reports_page)))
   in np_selected p2 = JNull
    \<and> (\<exists>ps n. snd (load_reports p2) = Some (ps, n) \<and> (''datasource_id'', ''3'') \<in> set ps \<and> (''status'', ''failed'') \<in> set ps)"
proof -
  have "field (route_reports ''datasource=3'') ''fixedDatasourceId'' = JInt 3" by code_simp
  from old_filters_in_force [OF _ this, of "JObj []" "''failed''" new_reports_page]
  have "let p2 = render_reports (JObj []) (leave_reports (filter_reports (''failed'', [], [], [])
              (render_reports (route_reports ''datasource=3'') new_reports_page)))
     in np_selected p2 = JNull
      \<and> (\<exists>ps n. snd (load_reports p2) = Some (ps, n) \<and> (''datasource_id'', js_string (JInt 3)) \<in> set ps \<and> (''status'', ''failed'') \<in> set ps)"
    by (simp add: Let_def del: js_string.simps)
  moreover have "js_string (JInt 3) = ''3''" by code_simp
  ultimately show ?thesis by simp
qed

section \<open>Pages and labels\<close>

text \<open>
  The buttons below the reports are at most eleven, and lead to pages there are.
\<close>

theorem report_pager_in_range:
  assumes "1 \<le> np_page p" and "np_page p \<le> last_report_page p" and "1 < last_report_page p"
  shows "length (report_pager p) \<le> 11
     \<and> list_all (\<lambda>b. case b of
           PageButton marked i \<Rightarrow> 1 \<le> i \<and> i \<le> last_report_page p \<and> marked = (i = np_page p)
         | Arrow disabled i \<Rightarrow> disabled \<or> (1 \<le> i \<and> i \<le> last_report_page p)
         | Dots \<Rightarrow> True) (report_pager p)"
  unfolding report_pager_def using page_buttons_in_range [OF assms] by blast

theorem report_pager_in_range_witness:
  "length (report_pager (new_reports_page\<lparr>np_page := 20, np_total := 5000\<rparr>)) \<le> 11"
proof -
  have "last_report_page (new_reports_page\<lparr>np_page := 20, np_total := 5000\<rparr>) = 500" by (simp add: last_report_page_def page_size_def)
  then show ?thesis using report_pager_in_range [of "new_reports_page\<lparr>np_page := 20, np_total := 5000\<rparr>"] by simp
qed

text \<open>
  A duration is shown by its two largest units, rounded down: what is shown is at most the duration, and less than the
  smaller unit away from it.
\<close>

theorem duration_close:
  assumes "0 \<le> q"
  shows "\<exists>key ns unit. duration_parts (JNum (Fin q)) = Some (key, ns)
     \<and> (key, unit) \<in> {(''durationDaysHours'', [86400, 3600]), (''durationHoursMinutes'', [3600, 60]), (''durationMinutesSeconds'', [60, 1]),
                       (''durationSeconds'', [1 :: int])}
     \<and> length ns = length unit \<and> (let shown = of_int (sum_list (map2 (*) ns unit)) in shown \<le> q \<and> q < shown + of_int (last unit))"
proof -
  define s where "s = \<lfloor>q\<rfloor>"
  have s: "0 \<le> s" "of_int s \<le> q" "q < of_int s + 1" using assms floor_correct [of q] by (simp_all add: s_def)
  have close: "of_int n \<le> q \<and> q < of_int n + of_int u" if "n \<le> s" "s < n + u" for n u :: int
  proof -
    have "(of_int n :: rat) \<le> of_int s" "(of_int (s + 1) :: rat) \<le> of_int (n + u)"
      using that by (simp_all only: of_int_le_iff add1_zle_eq)
    then have "(of_int n :: rat) \<le> of_int s" "(of_int s + 1 :: rat) \<le> of_int n + of_int u" by simp_all
    then show ?thesis using s by linarith
  qed
  define d h m w where "d = s div 86400" and "h = s mod 86400 div 3600" and "m = s mod 3600 div 60" and "w = s mod 60"
  have split: "s = d * 86400 + s mod 86400" "s mod 86400 = h * 3600 + s mod 3600" "s mod 3600 = m * 60 + w"
    using mod_mod_cancel [of 3600 86400 s] mod_mod_cancel [of 60 3600 s]
      div_mult_mod_eq [of "s mod 86400" 3600] div_mult_mod_eq [of "s mod 3600" 60]
    by (simp_all add: d_def h_def m_def w_def)
  have bounds: "0 \<le> s mod 3600" "s mod 3600 < 3600" "0 \<le> w" "w < 60" "0 \<le> d" "0 \<le> h" "0 \<le> m"
    using s(1) by (simp_all add: d_def h_def m_def w_def pos_imp_zdiv_nonneg_iff)
  have e: "duration_parts (JNum (Fin q)) = Some (if 0 < d then (''durationDaysHours'', [d, h])
      else if 0 < h then (''durationHoursMinutes'', [h, m]) else if 0 < m then (''durationMinutesSeconds'', [m, w]) else (''durationSeconds'', [w]))"
    using assms by (simp add: duration_parts_def s_def d_def h_def m_def w_def Let_def)
  consider "0 < d" | "d = 0" "0 < h" | "d = 0" "h = 0" "0 < m" | "d = 0" "h = 0" "m = 0"
    using bounds by linarith
  then show ?thesis
  proof cases
    case 1
    then have "duration_parts (JNum (Fin q)) = Some (''durationDaysHours'', [d, h])" using e by simp
    moreover have "of_int (d * 86400 + h * 3600) \<le> q \<and> q < of_int (d * 86400 + h * 3600) + of_int 3600"
      by (rule close) (use split bounds in linarith)+
    ultimately show ?thesis
      by (intro exI [of _ "''durationDaysHours''"] exI [of _ "[d, h]"] exI [of _ "[86400, 3600]"]) (simp add: Let_def)
  next
    case 2
    then have "duration_parts (JNum (Fin q)) = Some (''durationHoursMinutes'', [h, m])" using e by simp
    moreover have "of_int (h * 3600 + m * 60) \<le> q \<and> q < of_int (h * 3600 + m * 60) + of_int 60"
      by (rule close) (use 2 split bounds in linarith)+
    ultimately show ?thesis
      by (intro exI [of _ "''durationHoursMinutes''"] exI [of _ "[h, m]"] exI [of _ "[3600, 60]"]) (simp add: Let_def)
  next
    case 3
    then have "duration_parts (JNum (Fin q)) = Some (''durationMinutesSeconds'', [m, w])" using e by simp
    moreover have "of_int (m * 60 + w) \<le> q \<and> q < of_int (m * 60 + w) + of_int 1"
      by (rule close) (use 3 split bounds in linarith)+
    ultimately show ?thesis
      by (intro exI [of _ "''durationMinutesSeconds''"] exI [of _ "[m, w]"] exI [of _ "[60, 1]"]) (simp add: Let_def)
  next
    case 4
    then have "duration_parts (JNum (Fin q)) = Some (''durationSeconds'', [w])" using e by simp
    moreover have "of_int w \<le> q \<and> q < of_int w + of_int 1"
      by (rule close) (use 4 split bounds in linarith)+
    ultimately show ?thesis
      by (intro exI [of _ "''durationSeconds''"] exI [of _ "[w]"] exI [of _ "[1]"]) (simp add: Let_def)
  qed
qed

theorem duration_close_witness:
  "duration_parts (JInt 90061) = Some (''durationDaysHours'', [1, 1])
   \<and> (\<exists>key ns unit. duration_parts (JNum (Fin 90061)) = Some (key, ns) \<and> length ns = length (unit :: int list))"
proof
  show "duration_parts (JInt 90061) = Some (''durationDaysHours'', [1, 1])" by code_simp
  show "\<exists>key ns unit. duration_parts (JNum (Fin 90061)) = Some (key, ns) \<and> length ns = length (unit :: int list)"
    using duration_close [of 90061] by auto
qed

section \<open>The way to the diagnosis\<close>

text \<open>
  The button of a report outside the page of an instance opens the diagnosis with its datasource, its alert and the
  question, exactly, whatever characters the question contains.
\<close>

theorem report_link_roundtrip:
  assumes "prompt \<noteq> []" and "0 < d" and "0 < a"
  shows "case route_parse (report_diagnosis_link False (JNum (Fin (of_nat d))) (JNum (Fin (of_nat a))) (JStr prompt)) of
      (page, param) \<Rightarrow> page = ''diagnosis''
        \<and> field (route_options param) ''initialDatasourceId'' = JNum (Fin (of_nat d))
        \<and> field (route_options param) ''initialAlertId'' = JNum (Fin (of_nat a))
        \<and> field (route_options param) ''initialAsk'' = JStr prompt"
proof -
  let ?kvs = "[(''datasource'', str_of_nat d), (''alert'', str_of_nat a), (''ask'', prompt)]"
  have n: "js_string (JNum (Fin (of_nat i))) = str_of_nat i" for i
    using str_of_rat_int [of "int i"] by (simp add: str_of_int_def)
  have "report_diagnosis_link False (JNum (Fin (of_nat d))) (JNum (Fin (of_nat a))) (JStr prompt) = page_link ''diagnosis'' ?kvs"
    using assms n by (simp add: report_diagnosis_link_def set_truthy_def Let_def del: js_string.simps(4))
  moreover have "route_parse (page_link ''diagnosis'' ?kvs) = (''diagnosis'', form_serialize ?kvs)"
    by (rule route_parse_link) simp_all
  moreover have "form_parse (form_serialize ?kvs) = ?kvs" by (rule form_parse_serialize)
  ultimately show ?thesis
    using assms parse_int_of_nat by (simp add: route_options_def id_param_def params_get_def opt_js_def Let_def)
qed

theorem report_link_roundtrip_witness:
  "case route_parse (report_diagnosis_link False (JNum (Fin (of_nat 3))) (JNum (Fin (of_nat 8))) (JStr ''50% & more?'')) of
      (page, param) \<Rightarrow> field (route_options param) ''initialAsk'' = JStr ''50% & more?''"
  using report_link_roundtrip [of "''50% & more?''" 3 8] by (simp split: prod.splits)

text \<open>
  Outside the page of an instance, the button that leads to the alert of a report leads to the list of all alerts.
\<close>

theorem linked_alert_lost:
  assumes "\<not> np_embedded p"
  shows "linked_alert p a = linked_alert p b"
  using assms by (simp add: linked_alert_def)

theorem linked_alert_lost_witness: "linked_alert new_reports_page (JInt 1) = linked_alert new_reports_page (JInt 2)"
  by (rule linked_alert_lost) (simp add: new_reports_page_def)

lemma to_lower_append: "to_lower (a @ b) = to_lower a @ to_lower b"
  by (simp add: to_lower_def)

lemma connection_reason_found:
  assumes "p \<in> set connection_reasons"
  shows "find (\<lambda>x. starts_with (to_lower (p @ t)) x) connection_reasons = Some p"
proof -
  define e where "e = ''database connection failed''"
  define c where "c = utf8 [230, 149, 176, 230, 141, 174, 229, 186, 147, 232, 191, 158, 230, 142, 165, 229, 164, 177, 232, 180, 165]"
  have l: "to_lower e = e" "to_lower c = c" and h: "hd c \<noteq> hd e" and ne: "c \<noteq> []" "e \<noteq> []"
    unfolding e_def c_def by code_simp+
  have r: "connection_reasons = [e, c]" by (simp add: connection_reasons_def e_def c_def)
  have "\<not> starts_with (c @ u) e" for u using h ne by (cases c; cases e) (auto simp: starts_with_def)
  then show ?thesis using assms l unfolding r to_lower_append by auto
qed

text \<open>
  The reason of an inspection after a failed connection is shown in the user's language with the server's message after
  the colon, in whichever of its languages the server wrote it.
\<close>

theorem connection_reason_read:
  assumes "p \<in> set connection_reasons" and "sep \<in> {'': '', '':'', utf8 [239, 188, 154]}" and "d \<noteq> []" and "\<not> is_ws (hd d)"
    and "list_all (\<lambda>c. c \<noteq> CHR 0x0A \<and> c \<noteq> CHR 0x0D) d"
  shows "connection_detail (p @ sep @ d) = Some d"
proof -
  have w: "dropWhile is_ws d = d" using assms(3,4) by (cases d) simp_all
  have c: "\<not> is_ws (CHR '':'')" "is_ws (CHR '' '')" by (simp_all add: is_ws_def)
  have "dropWhile is_ws (drop_colon (dropWhile is_ws ('': '' @ d))) = d" "dropWhile is_ws (drop_colon (dropWhile is_ws ('':'' @ d))) = d"
    using w c by (simp_all add: drop_colon_def starts_with_def)
  moreover have "dropWhile is_ws (drop_colon (dropWhile is_ws (utf8 [239, 188, 154] @ d))) = d"
  proof -
    have "\<not> is_ws (char_of (239 :: nat))" "char_of (239 :: nat) \<noteq> CHR '':''" by code_simp+
    then show ?thesis using w by (simp add: drop_colon_def starts_with_def utf8_def)
  qed
  ultimately show ?thesis using assms(2,5) connection_reason_found [OF assms(1)] by (auto simp: connection_detail_def Let_def)
qed

theorem connection_reason_read_witness:
  "connection_detail (''database connection failed'' @ '': '' @ ''timeout'') = Some ''timeout''"
  by (rule connection_reason_read) (simp_all add: connection_reasons_def is_ws_def)

end
