(* ===== verification/InstanceDetail.thy ===== *)
theory InstanceDetail
  imports InstanceTables PageLinks HtmlForm
begin

text \<open>
  The page of an instance (pages/instance-detail.js): its route and the address it writes back, the choice of
  the instance, the list of instances with its groups, the summary with the health and the alerts of an
  instance, and what is handed to the pages embedded in its tabs.  Rendering awaits the datasources, the
  summary and the tab: one operation up to each await and one after it.
\<close>

section \<open>The route\<close>

record inst_route =
  rr_datasource :: js
  rr_tab :: string
  rr_alert :: js
  rr_event :: js
  rr_report :: js
  rr_ask :: js

definition param_or_null :: "(string \<times> string) list \<Rightarrow> string \<Rightarrow> js" where
  "param_or_null ps k = (case params_get ps k of Some s \<Rightarrow> js_or (JStr s) JNull | None \<Rightarrow> JNull)"

definition parse_inst_route :: "string \<Rightarrow> inst_route" where
  "parse_inst_route param =
     (let ps = form_parse param;
          n = (case params_get ps ''datasource'' of Some s \<Rightarrow> parse_int_str s | None \<Rightarrow> NaN)
      in \<lparr>rr_datasource = (case n of Fin q \<Rightarrow> JNum (Fin q) | _ \<Rightarrow> JNull),
          rr_tab = (case params_get ps ''tab'' of Some s \<Rightarrow> (if s = [] then ''monitor'' else s) | None \<Rightarrow> ''monitor''),
          rr_alert = param_or_null ps ''alert'', rr_event = param_or_null ps ''event'',
          rr_report = param_or_null ps ''report'', rr_ask = param_or_null ps ''ask''\<rparr>)"

definition valid_tabs :: "string list" where
  "valid_tabs = [''config'', ''monitor'', ''traffic'', ''sessions'', ''ai'', ''sqlConsole'', ''alerts'', ''inspections'', ''parameters'', ''topSql'']"

definition set_extra :: "string \<times> js \<Rightarrow> (string \<times> string) list \<Rightarrow> (string \<times> string) list" where
  "set_extra kv ps = (if nullish (snd kv) \<or> snd kv = JStr [] then ps else params_set (fst kv) (js_string (snd kv)) ps)"

section \<open>The page\<close>

text \<open>What a tab shows: an embedded page with its options, or a part of the page itself.\<close>

datatype tab_view =
    TabLoading
  | OwnTab string
  | Embedded string js
  | NoInstances
  | LoadFailed string

record instance_page =
  ip_route :: inst_route
  ip_tab :: string
  ip_datasources :: "js list"
  ip_alerts :: "(string, js) jsmap"
  ip_current :: js
  ip_summary :: js
  ip_store :: "unit store"
  ip_hash :: string
  ip_view :: tab_view
  ip_keyword :: string
  ip_collapsed :: js
  ip_sidebar_collapsed :: bool
  ip_scroll :: jnum

definition build_inst_url :: "js \<Rightarrow> string \<Rightarrow> (string \<times> js) list \<Rightarrow> instance_page \<Rightarrow> string" where
  "build_inst_url ds tab extras p =
     (let t = (if tab \<noteq> [] then tab else if ip_tab p \<noteq> [] then ip_tab p else ''monitor'')
      in ''instance-detail?'' @ form_serialize (fold set_extra extras
            (params_set ''tab'' t (params_set ''datasource'' (js_string ds) []))))"

definition route_extras :: "inst_route \<Rightarrow> (string \<times> js) list" where
  "route_extras r = [(''alert'', rr_alert r), (''event'', rr_event r), (''report'', rr_report r), (''ask'', rr_ask r)]"

definition sync_inst_url :: "instance_page \<Rightarrow> instance_page" where
  "sync_inst_url p =
     (let expected = CHR ''#'' # build_inst_url (field (ip_current p) ''id'') (ip_tab p) (route_extras (ip_route p)) p
      in if ip_hash p \<noteq> expected then p\<lparr>ip_hash := expected\<rparr> else p)"

section \<open>Which instance\<close>

definition find_datasource :: "js \<Rightarrow> js list \<Rightarrow> js option" where
  "find_datasource v dss = List.find (\<lambda>d. strict_eq (field d ''id'') v) dss"

definition candidate_ids :: "js \<Rightarrow> instance_page \<Rightarrow> js list" where
  "candidate_ids requested p =
     filter truthy
       [requested, store_get ''currentInstanceId'' (ip_store p),
        field (store_get ''currentInstance'' (ip_store p)) ''id'',
        field (store_get ''currentDatasource'' (ip_store p)) ''id'',
        field (store_get ''currentConnection'' (ip_store p)) ''id'',
        (case ip_datasources p of d # _ \<Rightarrow> field d ''id'' | [] \<Rightarrow> JUndef)]"

text \<open>The first candidate that is the id of a datasource; the list is not empty.\<close>

definition resolve_datasource_id :: "js \<Rightarrow> instance_page \<Rightarrow> js" where
  "resolve_datasource_id requested p =
     (case List.find (\<lambda>c. find_datasource c (ip_datasources p) \<noteq> None) (candidate_ids requested p) of
        Some c \<Rightarrow> field (the (find_datasource c (ip_datasources p))) ''id''
      | None \<Rightarrow> field (hd (ip_datasources p)) ''id'')"

definition sync_current_instance :: "js \<Rightarrow> instance_page \<Rightarrow> instance_page" where
  "sync_current_instance i p =
     (if \<not> truthy i then p
      else p\<lparr>ip_store := store_put ''currentDatasource'' i (store_put ''currentConnection'' i
               (store_put ''currentInstanceId'' (field i ''id'') (store_put ''currentInstance'' i (ip_store p))))\<rparr>)"

section \<open>Health and alerts\<close>

definition health_badge_class :: "js \<Rightarrow> string" where
  "health_badge_class st =
     (if st = JStr ''healthy'' then ''success'' else if st = JStr ''warning'' then ''warning''
      else if st = JStr ''critical'' then ''danger'' else ''secondary'')"

definition connection_failure :: "string \<Rightarrow> js \<Rightarrow> bool" where
  "connection_failure failed_text health \<longleftrightarrow>
     truthy health
   \<and> ((\<exists>v \<in> set (elements (field health ''violations'')). field v ''type'' = JStr ''connection_failure'')
      \<or> includes_str (text_or_empty (field health ''message'')) failed_text)"

text \<open>The label of a health status; \<open>tr\<close> is the table of texts of the page.\<close>

definition health_status_label :: "(string \<Rightarrow> string) \<Rightarrow> js \<Rightarrow> string" where
  "health_status_label tr health =
     (if connection_failure (tr ''connectionFailed'') health then tr ''connectionFailed''
      else let st = field health ''status''
           in if st = JStr ''healthy'' then tr ''healthy'' else if st = JStr ''warning'' then tr ''warning''
              else if st = JStr ''critical'' then tr ''abnormal'' else tr ''unknown'')"

definition health_status_tone :: "js \<Rightarrow> string" where
  "health_status_tone st =
     (if st = JStr ''healthy'' then ''normal'' else if st = JStr ''warning'' then ''warning''
      else if st = JStr ''critical'' then ''failed'' else ''unknown'')"

definition connection_status_label :: "(string \<Rightarrow> string) \<Rightarrow> js \<Rightarrow> string" where
  "connection_status_label tr st =
     (if st = JStr ''normal'' then tr ''healthy2'' else if st = JStr ''warning'' then tr ''warning''
      else if st = JStr ''failed'' then tr ''connectionFailed'' else if st = JStr ''unknown'' then tr ''unknown''
      else js_string (js_or st (JStr (tr ''unknown''))))"

definition merge_datasource_health :: "js \<Rightarrow> js \<Rightarrow> js" where
  "merge_datasource_health ds health =
     (if \<not> truthy ds then ds
      else spread ds (JObj [(''health_summary'',
             if truthy health
             then JObj [(''healthy'', field health ''healthy''), (''status'', js_or (field health ''status'') (JStr ''unknown'')),
                        (''message'', js_or (field health ''message'') (JStr [])),
                        (''violations'', if is_arr (field health ''violations'') then field health ''violations'' else JArr [])]
             else js_or (field ds ''health_summary'') JNull)]))"

text \<open>Counts of alerts by datasource.\<close>

definition alert_counts :: "js \<Rightarrow> js \<Rightarrow> js" where
  "alert_counts events alerts =
     JObj [(''active_alert_event_count'', js_or (JNum (to_number events)) (JInt 0)),
           (''active_alert_count'', js_or (JNum (to_number alerts)) (JInt 0))]"

definition add_alert_counts :: "js \<Rightarrow> js \<Rightarrow> js \<Rightarrow> (string, js) jsmap \<Rightarrow> (string, js) jsmap" where
  "add_alert_counts v events alerts m =
     (case parse_int_str (js_string v) of
        Fin q \<Rightarrow> AList.update (js_string (JNum (Fin q))) (alert_counts events alerts) m
      | _ \<Rightarrow> m)"

definition alert_summary_map :: "js \<Rightarrow> (string, js) jsmap" where
  "alert_summary_map items =
     foldl (\<lambda>m item. add_alert_counts (field item ''datasource_id'') (field item ''active_alert_event_count'') (field item ''active_alert_count'') m)
       [] (elements items)"

definition get_alert_summary :: "js \<Rightarrow> (string, js) jsmap \<Rightarrow> js" where
  "get_alert_summary v m =
     (case to_number v of
        Fin q \<Rightarrow> (case map_of m (js_string v) of Some c \<Rightarrow> c | None \<Rightarrow> alert_counts (JInt 0) (JInt 0))
      | _ \<Rightarrow> alert_counts (JInt 0) (JInt 0))"

definition list_status_tone :: "instance_page \<Rightarrow> js \<Rightarrow> string" where
  "list_status_tone p ds =
     (let counts = get_alert_summary (field ds ''id'') (ip_alerts p);
          health = js_or (field ds ''health_summary'')
                     (if strict_eq (field ds ''id'') (field (ip_current p) ''id'') then field (ip_summary p) ''health'' else JNull);
          tone = health_status_tone (field health ''status'')
      in if num_less (Fin 0) (to_number (field counts ''active_alert_event_count''))
            \<or> num_less (Fin 0) (to_number (field counts ''active_alert_count'')) then ''failed''
         else if tone = ''normal'' then ''normal''
         else if tone = ''warning'' \<or> tone = ''failed'' then ''failed''
         else if field ds ''connection_status'' = JStr ''normal'' then ''normal'' else ''failed'')"

section \<open>The list of instances\<close>

definition inst_type_labels :: "(string \<times> string) list" where
  "inst_type_labels = [(''mysql'', ''MySQL''), (''postgresql'', ''PostgreSQL''), (''sqlserver'', ''SQL Server''), (''oracle'', ''Oracle''),
     (''tdsql-c-mysql'', ''TDSQL-C MySQL''), (''oceanbase-mysql'', ''OceanBase MySQL''), (''opengauss'', ''openGauss''), (''hana'', ''SAP HANA'')]"

definition inst_type_label :: "js \<Rightarrow> string" where
  "inst_type_label t =
     (case map_of inst_type_labels (js_string t) of Some l \<Rightarrow> l | None \<Rightarrow> js_string (js_or t (JStr ''-'')))"

definition instance_matches :: "string \<Rightarrow> js \<Rightarrow> bool" where
  "instance_matches keyword d \<longleftrightarrow>
     keyword = []
   \<or> includes_str (to_lower (join '' '' (map js_string (filter truthy
        ([field d ''name'', field d ''host'', field d ''database'', field d ''db_type''] @ elements (js_or (field d ''tags'') (JArr [])))))))
       keyword"

definition group_key :: "js \<Rightarrow> string" where
  "group_key d = js_string (js_or (field d ''db_type'') (JStr ''unknown''))"

text \<open>The groups in the order of their first instance, each with the label of that instance.\<close>

definition add_to_group :: "js \<Rightarrow> (string, string \<times> js list) jsmap \<Rightarrow> (string, string \<times> js list) jsmap" where
  "add_to_group d m =
     (case map_of m (group_key d) of
        None \<Rightarrow> AList.update (group_key d) (inst_type_label (field d ''db_type''), [d]) m
      | Some (l, ds) \<Rightarrow> AList.update (group_key d) (l, ds @ [d]) m)"

definition group_instances :: "js list \<Rightarrow> (string, string \<times> js list) jsmap" where
  "group_instances ds = foldl (\<lambda>m d. add_to_group d m) [] ds"

definition sort_groups :: "(string \<Rightarrow> string \<Rightarrow> rat) \<Rightarrow> (string \<times> string \<times> js list) list \<Rightarrow> (string \<times> string \<times> js list) list" where
  "sort_groups collate = js_sort (\<lambda>l r. collate (fst (snd l)) (fst (snd r)))"

definition group_collapsed :: "string \<Rightarrow> js \<Rightarrow> bool" where
  "group_collapsed k collapsed \<longleftrightarrow> truthy (field collapsed k)"

text \<open>What the list shows: its groups, or no instance; and the marks of an instance in it.\<close>

definition instance_groups :: "(string \<Rightarrow> string \<Rightarrow> rat) \<Rightarrow> instance_page \<Rightarrow> (string \<times> string \<times> js list) list" where
  "instance_groups collate p = sort_groups collate (group_instances (filter (instance_matches (ip_keyword p)) (ip_datasources p)))"

definition active_in_list :: "js \<Rightarrow> instance_page \<Rightarrow> bool" where
  "active_in_list d p \<longleftrightarrow> strict_eq (field (ip_current p) ''id'') (field d ''id'')"

text \<open>A click on an instance: the address to go to, unless it is the one on display.\<close>

definition click_instance :: "js \<Rightarrow> instance_page \<Rightarrow> string option" where
  "click_instance d p = (if active_in_list d p then None else Some (build_inst_url (field d ''id'') (ip_tab p) [] p))"

definition click_tab :: "string \<Rightarrow> instance_page \<Rightarrow> string option" where
  "click_tab t p = (if t = [] \<or> t = ip_tab p then None else Some (build_inst_url (field (ip_current p) ''id'') t [] p))"

definition toggle_group :: "string \<Rightarrow> instance_page \<Rightarrow> instance_page" where
  "toggle_group k p =
     p\<lparr>ip_collapsed := spread (js_or (ip_collapsed p) (JObj [])) (JObj [(k, JBool (\<not> group_collapsed k (ip_collapsed p)))])\<rparr>"

text \<open>What is kept in the browser's storage, and read from it.\<close>

definition collapsed_text :: "instance_page \<Rightarrow> string" where
  "collapsed_text p = json_text (js_or (ip_collapsed p) (JObj []))"

definition load_collapsed :: "(string \<Rightarrow> js option) \<Rightarrow> string option \<Rightarrow> js" where
  "load_collapsed parse raw =
     (case raw of
        None \<Rightarrow> JObj []
      | Some t \<Rightarrow> if t = [] then JObj []
                  else (case parse t of Some v \<Rightarrow> (if truthy v \<and> typeof_object v then v else JObj []) | None \<Rightarrow> JObj []))"

definition sidebar_text :: "bool \<Rightarrow> string" where
  "sidebar_text c = (if c then ''1'' else ''0'')"

definition load_sidebar :: "string option \<Rightarrow> bool" where
  "load_sidebar raw \<longleftrightarrow> raw = Some ''1''"

definition toggle_sidebar :: "instance_page \<Rightarrow> instance_page \<times> string" where
  "toggle_sidebar p = (let c = (\<not> ip_sidebar_collapsed p) in (p\<lparr>ip_sidebar_collapsed := c\<rparr>, sidebar_text c))"

definition usable_scroll :: "jnum \<Rightarrow> jnum" where
  "usable_scroll n = (case n of Fin q \<Rightarrow> if 0 \<le> q then Fin q else Fin 0 | _ \<Rightarrow> Fin 0)"

definition load_scroll :: "string option \<Rightarrow> jnum" where
  "load_scroll raw = usable_scroll (parse_float_str (case raw of Some s \<Rightarrow> s | None \<Rightarrow> []))"

definition save_scroll :: "jnum \<Rightarrow> instance_page \<Rightarrow> instance_page \<times> string" where
  "save_scroll n p = (p\<lparr>ip_scroll := usable_scroll n\<rparr>, js_string (JNum (usable_scroll n)))"

section \<open>Scrolling the list\<close>

text \<open>
  The list as the browser lays it out: its height, the height of what it holds, and its position, which the
  browser keeps within bounds.
\<close>

record list_box =
  lb_scroll :: int
  lb_height :: int
  lb_content :: int

definition set_scroll_top :: "int \<Rightarrow> list_box \<Rightarrow> list_box" where
  "set_scroll_top n b = b\<lparr>lb_scroll := max 0 (min n (lb_content b - lb_height b))\<rparr>"

definition item_visible :: "int \<times> int \<Rightarrow> list_box \<Rightarrow> bool" where
  "item_visible item b \<longleftrightarrow> lb_scroll b \<le> fst item \<and> fst item + snd item \<le> lb_scroll b + lb_height b"

text \<open>\<^verbatim>\<open>scrollIntoView({ block: 'nearest' })\<close> for an item given by its top and its height.\<close>

definition scroll_nearest :: "int \<times> int \<Rightarrow> list_box \<Rightarrow> list_box" where
  "scroll_nearest item b =
     (let top = fst item; bottom = fst item + snd item; above = top < lb_scroll b; below = lb_scroll b + lb_height b < bottom
      in if above = below then b
         else if above = (snd item \<le> lb_height b) then set_scroll_top top b else set_scroll_top (bottom - lb_height b) b)"

definition restore_scroll :: "(int \<times> int) option \<Rightarrow> int \<Rightarrow> int \<Rightarrow> list_box \<Rightarrow> list_box" where
  "restore_scroll active fallback remembered b =
     (let target = (if 0 < fallback then fallback else remembered);
          b1 = (if 0 < target then set_scroll_top target b else b)
      in case active of
           Some item \<Rightarrow> if item_visible item b1 then b1 else scroll_nearest item b1
         | None \<Rightarrow> b1)"

text \<open>The position a new rendering of the list asks for: the top for a new search, the present one otherwise.\<close>

definition search_list :: "string \<Rightarrow> int \<Rightarrow> int \<Rightarrow> instance_page \<Rightarrow> instance_page \<times> int" where
  "search_list typed scroll_top remembered p =
     (let keyword = to_lower (trim typed)
      in (p\<lparr>ip_keyword := keyword\<rparr>,
          if keyword \<noteq> ip_keyword p then 0 else if scroll_top \<noteq> 0 then scroll_top else remembered))"

section \<open>Rendering\<close>

definition render_inst_begin :: "string \<Rightarrow> string option \<Rightarrow> instance_page \<Rightarrow> instance_page" where
  "render_inst_begin param stored_scroll p =
     p\<lparr>ip_route := parse_inst_route param, ip_scroll := load_scroll stored_scroll, ip_view := TabLoading\<rparr>"

text \<open>After the datasources and the alerts: the instance is chosen; the request for its summary goes out.\<close>

definition render_inst_loaded ::
  "js list \<Rightarrow> js \<Rightarrow> bool \<Rightarrow> js \<Rightarrow> instance_page \<Rightarrow> js option \<times> instance_page" where
  "render_inst_loaded dss alerts sidebar collapsed p =
     (let p1 = p\<lparr>ip_datasources := dss, ip_alerts := alert_summary_map alerts,
                 ip_store := store_put ''datasources'' (JArr dss) (ip_store p),
                 ip_sidebar_collapsed := sidebar, ip_collapsed := collapsed\<rparr>
      in if dss = [] then (None, p1\<lparr>ip_view := NoInstances\<rparr>)
         else let chosen = (case find_datasource (resolve_datasource_id (rr_datasource (ip_route p1)) p1) dss of
                              Some d \<Rightarrow> d | None \<Rightarrow> hd dss);
                  t = (if rr_tab (ip_route p1) \<in> set valid_tabs then rr_tab (ip_route p1) else ''monitor'')
              in (Some (field chosen ''id''),
                  sync_current_instance chosen (p1\<lparr>ip_current := chosen, ip_tab := t, ip_keyword := []\<rparr>)))"

text \<open>The answer to the request for a summary, whichever instance is on display by then.\<close>

definition summary_arrived :: "js \<Rightarrow> instance_page \<Rightarrow> instance_page" where
  "summary_arrived answer p =
     (if \<not> truthy (field answer ''datasource'') then p\<lparr>ip_summary := answer\<rparr>
      else let health = field answer ''health'';
               merged = merge_datasource_health (field answer ''datasource'') health;
               p1 = p\<lparr>ip_summary := set_field ''datasource'' merged answer, ip_current := merged,
                      ip_alerts := add_alert_counts (field merged ''id'') (field answer ''active_alert_event_count'')
                                     (field answer ''active_alert_count'') (ip_alerts p),
                      ip_datasources := map (\<lambda>d. if strict_eq (field d ''id'') (field merged ''id'')
                                               then merge_datasource_health (spread d merged) health else d) (ip_datasources p)\<rparr>
           in sync_current_instance merged p1)"

definition int_param :: "js \<Rightarrow> js" where
  "int_param v = (if truthy v then JNum (parse_int_str (js_string v)) else JNull)"

text \<open>The view of the current tab, with the options of the page embedded in it.\<close>

definition tab_begin :: "instance_page \<Rightarrow> instance_page" where
  "tab_begin p =
     (let ds = field (ip_current p) ''id''; r = ip_route p; t = ip_tab p
      in p\<lparr>ip_view :=
           (if t = ''monitor'' then Embedded t (JObj [(''embedded'', JBool True), (''fixedDatasourceId'', ds)])
            else if t = ''traffic'' then Embedded t (JObj [(''datasourceId'', ds), (''datasource'', ip_current p)])
            else if t = ''ai'' then Embedded t (JObj
              [(''embedded'', JBool True), (''fixedDatasourceId'', ds), (''sessionFilterDatasourceId'', ds),
               (''defaultSidebarCollapsed'', JBool True), (''initialAlertId'', int_param (rr_alert r)),
               (''initialEventId'', int_param (rr_event r)), (''initialReportId'', int_param (rr_report r)),
               (''initialAsk'', rr_ask r),
               (''preferFreshSession'', JBool (truthy (rr_ask r) \<or> truthy (rr_alert r) \<or> truthy (rr_event r) \<or> truthy (rr_report r)))])
            else if t = ''sqlConsole'' then Embedded t (JObj [(''embedded'', JBool True), (''fixedDatasourceId'', ds), (''filterHistoryDatasourceId'', ds)])
            else if t = ''alerts'' then Embedded t (JObj [(''embedded'', JBool True), (''fixedDatasourceId'', ds), (''hideSubscriptions'', JBool True)])
            else if t = ''inspections'' then Embedded t (JObj [(''embedded'', JBool True), (''fixedDatasourceId'', ds), (''initialReportId'', int_param (rr_report r))])
            else OwnTab t)\<rparr>)"

text \<open>The embedded page is ready: the options it has taken are removed from the route of the page.\<close>

definition tab_end :: "string \<Rightarrow> instance_page \<Rightarrow> instance_page" where
  "tab_end t p =
     (if t = ''ai'' then p\<lparr>ip_route := (ip_route p)\<lparr>rr_ask := JNull, rr_alert := JNull, rr_event := JNull, rr_report := JNull\<rparr>\<rparr>
      else if t = ''inspections'' then p\<lparr>ip_route := (ip_route p)\<lparr>rr_report := JNull\<rparr>\<rparr>
      else p)"

text \<open>The two ends of a rendering: after the summary, and after the tab that was current then.\<close>

definition render_inst_summary :: "js \<Rightarrow> instance_page \<Rightarrow> instance_page" where
  "render_inst_summary answer p = tab_begin (summary_arrived answer p)"

definition render_inst_end :: "string \<Rightarrow> instance_page \<Rightarrow> instance_page" where
  "render_inst_end t p = sync_inst_url (tab_end t p)"

definition render_inst_failed :: "string \<Rightarrow> instance_page \<Rightarrow> instance_page" where
  "render_inst_failed msg p = p\<lparr>ip_view := LoadFailed msg\<rparr>"

text \<open>A rendering in which nothing else happens: \<open>summary\<close> gives the answer for an instance.\<close>

definition render_instance :: "string \<Rightarrow> js list \<Rightarrow> js \<Rightarrow> (js \<Rightarrow> js) \<Rightarrow> instance_page \<Rightarrow> instance_page" where
  "render_instance param dss alerts summary p =
     (case render_inst_loaded dss alerts (ip_sidebar_collapsed p) (ip_collapsed p) (render_inst_begin param None p) of
        (None, p1) \<Rightarrow> p1
      | (Some i, p1) \<Rightarrow> let p2 = render_inst_summary (summary i) p1 in render_inst_end (ip_tab p2) p2)"

text \<open>The hours of a silence, read from its field.\<close>

definition silence_hours :: "string \<Rightarrow> rat option" where
  "silence_hours typed =
     (case parse_float_str (if typed = [] then ''0'' else typed) of
        Fin q \<Rightarrow> if q < 1/2 \<or> 240 < q then None else Some q
      | _ \<Rightarrow> None)"

definition silence_reason :: "string \<Rightarrow> js" where
  "silence_reason typed = js_or (JStr (trim typed)) JNull"

section \<open>Addresses\<close>

definition is_param :: "js \<Rightarrow> bool" where
  "is_param v \<longleftrightarrow> v = JNull \<or> (\<exists>s. s \<noteq> [] \<and> v = JStr s)"

lemma get_set_extra:
  "is_param (snd kv) \<Longrightarrow> params_get (set_extra kv ps) k
     = (if k = fst kv \<and> snd kv \<noteq> JNull then Some (js_string (snd kv)) else params_get ps k)"
  by (auto simp: set_extra_def is_param_def params_get_set nullish_def)

lemma param_again: "is_param v \<Longrightarrow> v \<noteq> JNull \<Longrightarrow> js_or (JStr (js_string v)) JNull = v"
  by (auto simp: is_param_def js_or_def)

lemma param_parsed: "is_param (param_or_null ps k)"
  by (auto simp: param_or_null_def is_param_def js_or_def split: option.splits)

definition route_params :: "inst_route \<Rightarrow> bool" where
  "route_params r \<longleftrightarrow> is_param (rr_alert r) \<and> is_param (rr_event r) \<and> is_param (rr_report r) \<and> is_param (rr_ask r)"

lemma build_parse:
  assumes "t \<noteq> []" and "route_params r"
  shows "route_parse (build_inst_url (JNum (Fin (of_nat k))) t (route_extras r) p)
      = (''instance-detail'', form_serialize (fold set_extra (route_extras r) [(''datasource'', str_of_nat k), (''tab'', t)]))"
    and "parse_inst_route (form_serialize (fold set_extra (route_extras r) [(''datasource'', str_of_nat k), (''tab'', t)]))
      = r\<lparr>rr_datasource := JNum (Fin (of_nat k)), rr_tab := t\<rparr>"
proof -
  let ?ps = "fold set_extra (route_extras r) [(''datasource'', str_of_nat k), (''tab'', t)]"
  have k: "js_string (JNum (Fin (of_nat k))) = str_of_nat k"
    using str_of_rat_int [of "int k"] by (simp add: str_of_int_def)
  have url: "build_inst_url (JNum (Fin (of_nat k))) t (route_extras r) p = ''instance-detail'' @ CHR ''?'' # form_serialize ?ps"
    using assms(1) k by (simp add: build_inst_url_def)
  have ne: "?ps \<noteq> []"
  proof -
    have "params_get ?ps ''tab'' = Some t"
      using assms(2) by (simp add: route_extras_def get_set_extra route_params_def) (simp add: params_get_def)
    then show ?thesis by (auto simp: params_get_def)
  qed
  then show "route_parse (build_inst_url (JNum (Fin (of_nat k))) t (route_extras r) p) = (''instance-detail'', form_serialize ?ps)"
    using route_parse_link [of "''instance-detail''" ?ps] by (simp add: page_link_def url)
  have g: "params_get ?ps ''alert'' = (if rr_alert r = JNull then None else Some (js_string (rr_alert r)))"
    "params_get ?ps ''event'' = (if rr_event r = JNull then None else Some (js_string (rr_event r)))"
    "params_get ?ps ''report'' = (if rr_report r = JNull then None else Some (js_string (rr_report r)))"
    "params_get ?ps ''ask'' = (if rr_ask r = JNull then None else Some (js_string (rr_ask r)))"
    "params_get ?ps ''datasource'' = Some (str_of_nat k)" "params_get ?ps ''tab'' = Some t"
    using assms(2) by (simp_all add: route_extras_def get_set_extra route_params_def) (simp_all add: params_get_def)
  have "param_or_null ?ps ''alert'' = rr_alert r" "param_or_null ?ps ''event'' = rr_event r"
    "param_or_null ?ps ''report'' = rr_report r" "param_or_null ?ps ''ask'' = rr_ask r"
    using assms(2) by (simp_all add: param_or_null_def g param_again route_params_def)
  then show "parse_inst_route (form_serialize ?ps) = r\<lparr>rr_datasource := JNum (Fin (of_nat k)), rr_tab := t\<rparr>"
    using assms(1) by (simp add: parse_inst_route_def form_parse_serialize g Let_def parse_int_of_nat)
qed

text \<open>
  The address of an instance, a tab and the parameters of a link is read back exactly, whatever the question
  contains: page, instance, tab, alert, event, report and question.
\<close>

theorem inst_url_roundtrip:
  assumes "t \<noteq> []" and "route_params r"
  shows "case route_parse (build_inst_url (JNum (Fin (of_nat k))) t (route_extras r) p) of
      (page, param) \<Rightarrow> page = ''instance-detail''
        \<and> parse_inst_route param = r\<lparr>rr_datasource := JNum (Fin (of_nat k)), rr_tab := t\<rparr>"
  using build_parse(1) [OF assms, of k p] build_parse(2) [OF assms, of k] by simp

definition demo_route :: inst_route where
  "demo_route = \<lparr>rr_datasource = JNull, rr_tab = [], rr_alert = JNull, rr_event = JNull, rr_report = JNull, rr_ask = JStr ''why? a&b=c''\<rparr>"

definition demo_inst_page :: instance_page where
  "demo_inst_page = \<lparr>ip_route = demo_route, ip_tab = ''monitor'', ip_datasources = [], ip_alerts = [], ip_current = JNull,
     ip_summary = JNull, ip_store = init_store, ip_hash = [], ip_view = TabLoading, ip_keyword = [], ip_collapsed = JObj [],
     ip_sidebar_collapsed = False, ip_scroll = Fin 0\<rparr>"

lemma demo_route_params: "route_params demo_route"
  by (simp add: route_params_def demo_route_def is_param_def)

theorem inst_url_roundtrip_witness:
  "case route_parse (build_inst_url (JNum (Fin (of_nat 3))) ''ai'' (route_extras demo_route) demo_inst_page) of
      (page, param) \<Rightarrow> rr_ask (parse_inst_route param) = JStr ''why? a&b=c''"
  using inst_url_roundtrip [OF _ demo_route_params, of "''ai''" 3 demo_inst_page] by (simp add: demo_route_def split: prod.splits)

section \<open>Rendering settles\<close>

lemma field_spread_one [simp]: "field (spread a (JObj [(k, v)])) k' = (if k' = k then v else field a k')"
  by (cases "k = k'") (simp_all add: spread_def field_def AList.updates_def)

lemma merged_id [simp]: "field (merge_datasource_health ds h) ''id'' = field ds ''id''"
  by (simp add: merge_datasource_health_def)

lemma synced_current [simp]:
  "ip_current (sync_current_instance i p) = ip_current p" "ip_tab (sync_current_instance i p) = ip_tab p"
  "ip_route (sync_current_instance i p) = ip_route p" "ip_datasources (sync_current_instance i p) = ip_datasources p"
  by (simp_all add: sync_current_instance_def)

definition answer_id :: "js \<Rightarrow> js \<Rightarrow> js" where
  "answer_id answer i = (if truthy (field answer ''datasource'') then field (field answer ''datasource'') ''id'' else i)"

lemma summary_frame [simp]:
  "field (ip_current (summary_arrived answer p)) ''id'' = answer_id answer (field (ip_current p) ''id'')"
  "ip_tab (summary_arrived answer p) = ip_tab p" "ip_route (summary_arrived answer p) = ip_route p"
  by (simp_all add: summary_arrived_def answer_id_def Let_def)

lemma tab_frame [simp]:
  "ip_current (tab_begin p) = ip_current p" "ip_tab (tab_begin p) = ip_tab p" "ip_route (tab_begin p) = ip_route p"
  "ip_current (tab_end t p) = ip_current p" "ip_tab (tab_end t p) = ip_tab p"
  by (simp_all add: tab_begin_def tab_end_def Let_def)

definition cleared_route :: "string \<Rightarrow> inst_route \<Rightarrow> inst_route" where
  "cleared_route t r =
     (if t = ''ai'' then r\<lparr>rr_ask := JNull, rr_alert := JNull, rr_event := JNull, rr_report := JNull\<rparr>
      else if t = ''inspections'' then r\<lparr>rr_report := JNull\<rparr> else r)"

lemma tab_end_route [simp]: "ip_route (tab_end t p) = cleared_route t (ip_route p)"
  by (simp add: tab_end_def cleared_route_def)

lemma render_end_frame:
  "ip_current (render_inst_end t p) = ip_current p" "ip_tab (render_inst_end t p) = ip_tab p"
  "ip_route (render_inst_end t p) = cleared_route t (ip_route p)"
  "ip_hash (render_inst_end t p)
     = CHR ''#'' # build_inst_url (field (ip_current p) ''id'') (ip_tab p) (route_extras (cleared_route t (ip_route p))) (tab_end t p)"
  by (simp_all add: render_inst_end_def sync_inst_url_def Let_def)

lemma build_any_page: "t \<noteq> [] \<Longrightarrow> build_inst_url i t es p = build_inst_url i t es q"
  by (simp add: build_inst_url_def)

lemma render_end_view [simp]: "ip_view (render_inst_end t p) = ip_view p"
  by (simp add: render_inst_end_def sync_inst_url_def tab_end_def Let_def)

definition has_context :: "inst_route \<Rightarrow> bool" where
  "has_context r \<longleftrightarrow> truthy (rr_ask r) \<or> truthy (rr_alert r) \<or> truthy (rr_event r) \<or> truthy (rr_report r)"

lemma ai_view:
  assumes "ip_tab p = ''ai''"
  shows "\<exists>opts. ip_view (tab_begin p) = Embedded ''ai'' opts \<and> field opts ''initialAsk'' = rr_ask (ip_route p)
     \<and> field opts ''preferFreshSession'' = JBool (has_context (ip_route p))"
  using assms by (simp add: tab_begin_def field_def has_context_def Let_def)

lemma render_end_hash:
  assumes "ip_tab p \<noteq> []"
  shows "let q = render_inst_end (ip_tab p) p
         in ip_hash q = CHR ''#'' # build_inst_url (field (ip_current q) ''id'') (ip_tab q) (route_extras (ip_route q)) q"
  using build_any_page [OF assms] by (simp add: render_end_frame)

lemma find_datasource_id: "find_datasource v dss = Some d \<Longrightarrow> d \<in> set dss \<and> field d ''id'' = v"
  unfolding find_datasource_def by (induction dss) (auto split: if_splits elim: strict_eq.elims)

lemma find_datasource_known: "d \<in> set dss \<Longrightarrow> field d ''id'' = JNum (Fin q) \<Longrightarrow> \<exists>e. find_datasource (JNum (Fin q)) dss = Some e"
  unfolding find_datasource_def by (induction dss) auto

definition numbered :: "js list \<Rightarrow> bool" where
  "numbered dss \<longleftrightarrow> (\<forall>d \<in> set dss. \<exists>k. 0 < k \<and> field d ''id'' = JNum (Fin (of_nat k)))"

lemma resolved_id:
  assumes "ip_datasources p \<noteq> []"
  shows "\<exists>d \<in> set (ip_datasources p). resolve_datasource_id v p = field d ''id''
     \<and> (truthy v \<and> find_datasource v (ip_datasources p) \<noteq> None \<longrightarrow> resolve_datasource_id v p = v)"
proof (cases "List.find (\<lambda>c. find_datasource c (ip_datasources p) \<noteq> None) (candidate_ids v p)")
  case None
  then have "\<not> (truthy v \<and> find_datasource v (ip_datasources p) \<noteq> None)"
    by (auto simp: find_None_iff candidate_ids_def)
  then show ?thesis using None assms by (auto simp: resolve_datasource_id_def)
next
  case (Some c)
  then obtain d where d: "find_datasource c (ip_datasources p) = Some d"
    by (auto simp: find_Some_iff)
  have "truthy v \<Longrightarrow> find_datasource v (ip_datasources p) \<noteq> None \<Longrightarrow> c = v"
    using Some by (simp add: candidate_ids_def)
  then show ?thesis using Some d find_datasource_id [OF d] by (auto simp: resolve_datasource_id_def)
qed

text \<open>A rendering, as far as the address sees it.\<close>

lemma render_shape:
  fixes param alerts p
  assumes "dss \<noteq> []" and "numbered dss" and "\<forall>d \<in> set dss. answer_id (summary (field d ''id'')) (field d ''id'') = field d ''id''"
  defines "q \<equiv> render_instance param dss alerts summary p" and "r \<equiv> parse_inst_route param"
  shows "\<exists>d \<in> set dss. field (ip_current q) ''id'' = field d ''id''
     \<and> (truthy (rr_datasource r) \<and> find_datasource (rr_datasource r) dss \<noteq> None \<longrightarrow> field d ''id'' = rr_datasource r)"
    and "ip_tab q = (if rr_tab r \<in> set valid_tabs then rr_tab r else ''monitor'')"
    and "ip_route q = cleared_route (ip_tab q) r"
    and "ip_hash q = CHR ''#'' # build_inst_url (field (ip_current q) ''id'') (ip_tab q) (route_extras (ip_route q)) q"
    and "ip_tab q = ''ai'' \<Longrightarrow> \<exists>opts. ip_view q = Embedded ''ai'' opts \<and> field opts ''initialAsk'' = rr_ask r
       \<and> field opts ''preferFreshSession'' = JBool (has_context r)"
proof -
  let ?b = "(render_inst_begin param None p)\<lparr>ip_datasources := dss, ip_alerts := alert_summary_map alerts,
                 ip_store := store_put ''datasources'' (JArr dss) (ip_store p),
                 ip_sidebar_collapsed := ip_sidebar_collapsed p, ip_collapsed := ip_collapsed p\<rparr>"
  let ?v = "resolve_datasource_id (rr_datasource r) ?b"
  let ?t = "if rr_tab r \<in> set valid_tabs then rr_tab r else ''monitor''"
  obtain d0 where d0: "d0 \<in> set dss" "?v = field d0 ''id''"
    "truthy (rr_datasource r) \<and> find_datasource (rr_datasource r) dss \<noteq> None \<longrightarrow> ?v = rr_datasource r"
    using resolved_id [of ?b "rr_datasource r"] assms(1) by auto
  obtain k where k: "field d0 ''id'' = JNum (Fin (of_nat k))" using assms(2) d0(1) by (auto simp: numbered_def)
  then obtain d where d: "find_datasource ?v dss = Some d" using find_datasource_known [OF d0(1) k] d0(2) by auto
  note di = find_datasource_id [OF d]
  let ?l = "sync_current_instance d (?b\<lparr>ip_current := d, ip_tab := ?t, ip_keyword := []\<rparr>)"
  have "ip_route (render_inst_begin param None p) = r" by (simp add: render_inst_begin_def r_def)
  then have "render_inst_loaded dss alerts (ip_sidebar_collapsed p) (ip_collapsed p) (render_inst_begin param None p)
      = (Some (field d ''id''), ?l)"
    using assms(1) d by (simp add: render_inst_loaded_def Let_def render_inst_begin_def)
  then have q: "q = render_inst_end ?t (render_inst_summary (summary (field d ''id'')) ?l)"
    by (simp add: q_def render_instance_def render_inst_summary_def Let_def)
  have r: "ip_route ?l = r" by (simp add: render_inst_begin_def r_def)
  have c: "field (ip_current q) ''id'' = field d ''id''"
    using assms(3) conjunct1 [OF di] by (simp add: q render_end_frame render_inst_summary_def)
  then show "\<exists>d \<in> set dss. field (ip_current q) ''id'' = field d ''id''
     \<and> (truthy (rr_datasource r) \<and> find_datasource (rr_datasource r) dss \<noteq> None \<longrightarrow> field d ''id'' = rr_datasource r)"
    using di d0(3) by (intro bexI [of _ d]) simp_all
  show t: "ip_tab q = ?t" unfolding q by (simp add: q render_end_frame render_inst_summary_def)
  show rt: "ip_route q = cleared_route (ip_tab q) r" using r by (simp add: t) (simp add: q render_end_frame render_inst_summary_def)
  let ?s = "render_inst_summary (summary (field d ''id'')) ?l"
  have ts: "ip_tab ?s = ?t" by (simp add: render_inst_summary_def)
  have "?t \<noteq> []" by (auto simp: valid_tabs_def)
  then show "ip_hash q = CHR ''#'' # build_inst_url (field (ip_current q) ''id'') (ip_tab q) (route_extras (ip_route q)) q"
    using render_end_hash [of ?s] unfolding ts q Let_def by blast
  assume "ip_tab q = ''ai''"
  then show "\<exists>opts. ip_view q = Embedded ''ai'' opts \<and> field opts ''initialAsk'' = rr_ask r
       \<and> field opts ''preferFreshSession'' = JBool (has_context r)"
    using ai_view [of "summary_arrived (summary (field d ''id'')) ?l"] t
    unfolding q render_end_view render_inst_summary_def summary_frame r by simp
qed

lemma cleared_params: "route_params r \<Longrightarrow> route_params (cleared_route t r)"
  by (simp add: route_params_def cleared_route_def is_param_def)

lemma cleared_again: "cleared_route t ((cleared_route t r)\<lparr>rr_datasource := i, rr_tab := u\<rparr>) = (cleared_route t r)\<lparr>rr_datasource := i, rr_tab := u\<rparr>"
  by (simp add: cleared_route_def)

lemma route_extras_other [simp]: "route_extras (r\<lparr>rr_datasource := i, rr_tab := u\<rparr>) = route_extras r"
  by (simp add: route_extras_def)

lemma render_again:
  assumes "dss \<noteq> []" and "numbered dss" and "\<forall>d \<in> set dss. answer_id (summary (field d ''id'')) (field d ''id'') = field d ''id''"
  shows "let q = render_instance param dss alerts summary p; r = parse_inst_route (snd (route_parse (tl (ip_hash q))))
         in \<exists>k>0. field (ip_current q) ''id'' = JNum (Fin (of_nat k)) \<and> find_datasource (JNum (Fin (of_nat k))) dss \<noteq> None
           \<and> r = (ip_route q)\<lparr>rr_datasource := JNum (Fin (of_nat k)), rr_tab := ip_tab q\<rparr>"
proof -
  define q where "q = render_instance param dss alerts summary p"
  note sh = render_shape [OF assms, of param alerts p, folded q_def]
  obtain d where d: "d \<in> set dss" "field (ip_current q) ''id'' = field d ''id''" using sh(1) by blast
  then obtain k where k: "0 < k" "field (ip_current q) ''id'' = JNum (Fin (of_nat k))"
    using assms(2) by (auto simp: numbered_def)
  have tv: "ip_tab q \<noteq> []"
    using sh(2) by (auto simp: valid_tabs_def split: if_splits)
  have rp: "route_params (ip_route q)"
    unfolding sh(3) by (rule cleared_params) (simp add: route_params_def parse_inst_route_def Let_def param_parsed)
  have "parse_inst_route (snd (route_parse (tl (ip_hash q)))) = (ip_route q)\<lparr>rr_datasource := JNum (Fin (of_nat k)), rr_tab := ip_tab q\<rparr>"
    unfolding sh(4) k(2) list.sel build_parse(1) [OF tv rp] snd_conv by (rule build_parse(2) [OF tv rp])
  moreover have "find_datasource (JNum (Fin (of_nat k))) dss \<noteq> None"
    using find_datasource_known [OF d(1), of "of_nat k"] d(2) k(2) by (metis option.distinct(1))
  ultimately show ?thesis using k unfolding q_def Let_def by blast
qed


definition demo_ds :: "nat \<Rightarrow> js" where
  "demo_ds k = JObj [(''id'', JNum (Fin (of_nat k)))]"


text \<open>
  The question of a link is handed to the chat of the instance and taken out of the address at once; but the
  new address makes the router render the page again, and the chat that replaces the first one has no question
  and no fresh session.
\<close>

theorem link_question_replaced:
  assumes "dss \<noteq> []" and "numbered dss" and "\<forall>d \<in> set dss. answer_id (summary (field d ''id'')) (field d ''id'') = field d ''id''"
    and "rr_tab (parse_inst_route param) = ''ai''" and "rr_ask (parse_inst_route param) = JStr ask"
  shows "let q = render_instance param dss alerts summary p; param' = snd (route_parse (tl (ip_hash q)));
             q' = render_instance param' dss alerts summary q
         in (\<exists>opts. ip_view q = Embedded ''ai'' opts \<and> field opts ''initialAsk'' = JStr ask)
          \<and> param' \<noteq> param
          \<and> (\<exists>opts. ip_view q' = Embedded ''ai'' opts \<and> field opts ''initialAsk'' = JNull
               \<and> field opts ''preferFreshSession'' = JBool False)"
proof -
  define q where "q = render_instance param dss alerts summary p"
  note sh = render_shape [OF assms(1-3), of param alerts p, folded q_def]
  define param' where "param' = snd (route_parse (tl (ip_hash q)))"
  define q' where "q' = render_instance param' dss alerts summary q"
  note sh' = render_shape [OF assms(1-3), of param' alerts q, folded q'_def]
  have t: "ip_tab q = ''ai''" using sh(2) assms(4) by (simp add: valid_tabs_def)
  obtain k where p': "parse_inst_route param' = (ip_route q)\<lparr>rr_datasource := JNum (Fin (of_nat k)), rr_tab := ip_tab q\<rparr>"
    using render_again [OF assms(1-3), of param alerts p] unfolding param'_def q_def Let_def by blast
  have r: "rr_ask (parse_inst_route param') = JNull" "\<not> has_context (parse_inst_route param')"
    unfolding p' sh(3) t by (simp_all add: cleared_route_def has_context_def)
  have "param' \<noteq> param" using r(1) assms(5) by auto
  moreover have "ip_tab q' = ''ai''" using sh'(2) p' t by (simp add: valid_tabs_def)
  ultimately show ?thesis
    using sh(5) [OF t] sh'(5) r assms(5) unfolding q_def [symmetric] param'_def [symmetric] q'_def [symmetric] Let_def by auto
qed

theorem link_question_replaced_witness:
  "let q = render_instance ''datasource=3&tab=ai&ask=why'' [demo_ds 3] (JArr []) (\<lambda>i. JObj []) demo_inst_page
   in \<exists>opts. ip_view q = Embedded ''ai'' opts \<and> field opts ''initialAsk'' = JStr ''why''"
proof -
  let ?dss = "[demo_ds 3]"
  have n: "numbered ?dss"
    by (auto simp: numbered_def demo_ds_def field_def intro: exI [of _ 3])
  have a: "\<forall>d \<in> set ?dss. answer_id (JObj []) (field d ''id'') = field d ''id''"
    by (simp add: answer_id_def field_def)
  have r: "rr_tab (parse_inst_route ''datasource=3&tab=ai&ask=why'') = ''ai''" "rr_ask (parse_inst_route ''datasource=3&tab=ai&ask=why'') = JStr ''why''"
    by code_simp+
  show ?thesis
    using link_question_replaced [OF list.distinct(2) n a r, of "JArr []" demo_inst_page]
    unfolding Let_def by (rule conjunct1)
qed

text \<open>
  An answer that comes late wins: when the summary of an instance left earlier arrives, the page takes that
  instance for the current one again, shows the current tab for it, and rewrites the address to it.
\<close>

theorem late_summary_returns:
  assumes "truthy (field answer ''datasource'')" and "field (field answer ''datasource'') ''id'' = JNum (Fin (of_nat k))"
    and "ip_tab p \<in> set valid_tabs"
  shows "let q = render_inst_end (ip_tab p) (render_inst_summary answer p)
         in field (ip_current q) ''id'' = JNum (Fin (of_nat k))
          \<and> ip_hash q = CHR ''#'' # build_inst_url (JNum (Fin (of_nat k))) (ip_tab p) (route_extras (ip_route q)) p"
proof -
  have "ip_tab p \<noteq> []" using assms(3) by (auto simp: valid_tabs_def)
  note b = build_any_page [OF this]
  show ?thesis
    using assms(1,2) by (simp add: render_end_frame render_inst_summary_def answer_id_def Let_def) (rule b)
qed

theorem late_summary_returns_witness:
  "let q = render_inst_end ''monitor'' (render_inst_summary (JObj [(''datasource'', demo_ds 3)]) (demo_inst_page\<lparr>ip_current := demo_ds 7\<rparr>))
   in field (ip_current q) ''id'' = JNum (Fin (of_nat 3))"
proof -
  have "field (demo_ds 3) ''id'' = JNum (Fin (of_nat 3))" "truthy (demo_ds 3)" by (simp_all add: demo_ds_def field_def)
  then show ?thesis
    using late_summary_returns [of "JObj [(''datasource'', demo_ds 3)]" 3 "demo_inst_page\<lparr>ip_current := demo_ds 7\<rparr>"]
    by (simp add: field_def demo_inst_page_def valid_tabs_def Let_def)
qed

lemma loaded_frame:
  assumes "dss \<noteq> []"
  shows "ip_tab (snd (render_inst_loaded dss alerts sidebar collapsed p)) = (if rr_tab (ip_route p) \<in> set valid_tabs then rr_tab (ip_route p) else ''monitor'')"
    and "ip_route (snd (render_inst_loaded dss alerts sidebar collapsed p)) = ip_route p"
  using assms by (simp_all add: render_inst_loaded_def Let_def)

text \<open>
  The end of a chat tab that was left clears the route of the page on display: a link with a question opened
  while the tab of the previous page is still loading reaches the chat without its question.
\<close>

theorem late_tab_end_drops_question:
  assumes "dss \<noteq> []" and "rr_tab (parse_inst_route param) = ''ai''"
  shows "case render_inst_loaded dss alerts sidebar collapsed (tab_end ''ai'' (render_inst_begin param stored p)) of
      (i, p1) \<Rightarrow> \<exists>opts. ip_view (render_inst_summary answer p1) = Embedded ''ai'' opts \<and> field opts ''initialAsk'' = JNull"
proof -
  obtain i p1 where l: "render_inst_loaded dss alerts sidebar collapsed (tab_end ''ai'' (render_inst_begin param stored p)) = (i, p1)"
    by (cases "render_inst_loaded dss alerts sidebar collapsed (tab_end ''ai'' (render_inst_begin param stored p))")
  have r: "ip_route (tab_end ''ai'' (render_inst_begin param stored p)) = cleared_route ''ai'' (parse_inst_route param)"
    by (simp add: render_inst_begin_def)
  have "ip_tab p1 = ''ai''" "ip_route p1 = cleared_route ''ai'' (parse_inst_route param)"
    using loaded_frame [OF assms(1), of alerts sidebar collapsed "tab_end ''ai'' (render_inst_begin param stored p)"] assms(2)
    unfolding l snd_conv r by (simp_all add: cleared_route_def valid_tabs_def)
  then show ?thesis
    using ai_view [of "summary_arrived answer p1"] l by (auto simp: render_inst_summary_def cleared_route_def)
qed

theorem late_tab_end_drops_question_witness:
  "case render_inst_loaded [demo_ds 3] (JArr []) False JNull (tab_end ''ai'' (render_inst_begin ''datasource=3&tab=ai&ask=why'' None demo_inst_page)) of
      (i, p1) \<Rightarrow> \<exists>opts. ip_view (render_inst_summary (JObj []) p1) = Embedded ''ai'' opts \<and> field opts ''initialAsk'' = JNull"
proof (rule late_tab_end_drops_question)
  show "[demo_ds 3] \<noteq> []" by simp
  show "rr_tab (parse_inst_route ''datasource=3&tab=ai&ask=why'') = ''ai''" by code_simp
qed

section \<open>The groups of the list\<close>

lemma group_instances_get:
  "map_of (group_instances ds) k =
     (if filter (\<lambda>d. group_key d = k) ds = [] then None
      else Some (inst_type_label (field (hd (filter (\<lambda>d. group_key d = k) ds)) ''db_type''), filter (\<lambda>d. group_key d = k) ds))"
proof (induction ds rule: rev_induct)
  case (snoc d ds)
  show ?case
    using snoc [of ] by (cases "group_key d = k") (auto simp: group_instances_def add_to_group_def split: option.splits)
qed (simp add: group_instances_def)

lemma group_instances_distinct: "distinct (map fst (group_instances ds))"
  by (induction ds rule: rev_induct) (auto simp: group_instances_def add_to_group_def distinct_update split: option.splits)

text \<open>
  The list of instances groups what the search keeps: every group has the instances of one type in their
  order, none is empty, none appears twice, every instance kept is in the group of its type, and the groups
  stand in the order of their labels.
\<close>

theorem instance_groups_partition:
  assumes "comparator collate"
  shows "let gs = instance_groups collate p; kept = filter (instance_matches (ip_keyword p)) (ip_datasources p)
         in distinct (map fst gs)
          \<and> (\<forall>(k, l, ds) \<in> set gs. ds = filter (\<lambda>d. group_key d = k) kept \<and> ds \<noteq> [])
          \<and> (\<forall>d \<in> set kept. group_key d \<in> fst ` set gs)
          \<and> sorted_wrt (\<lambda>x y. collate (fst (snd x)) (fst (snd y)) \<le> 0) gs"
proof -
  define kept where "kept = filter (instance_matches (ip_keyword p)) (ip_datasources p)"
  let ?m = "group_instances kept" and ?gs = "instance_groups collate p"
  have gs: "?gs = js_sort (\<lambda>l r. collate (fst (snd l)) (fst (snd r))) ?m"
    by (simp add: instance_groups_def sort_groups_def kept_def)
  have d: "distinct (map fst ?gs)"
  proof -
    have "mset (map fst ?gs) = mset (map fst ?m)" by (simp add: gs)
    then show ?thesis using group_instances_distinct by (metis mset_eq_imp_distinct_iff)
  qed
  have e: "(k, l, ds) \<in> set ?gs \<Longrightarrow> ds = filter (\<lambda>d. group_key d = k) kept \<and> ds \<noteq> []" for k l ds
  proof -
    assume "(k, l, ds) \<in> set ?gs"
    then have "map_of ?m k = Some (l, ds)" using group_instances_distinct [of kept] by (simp add: gs)
    then show ?thesis by (auto simp: group_instances_get split: if_splits)
  qed
  have f: "group_key x \<in> fst ` set ?gs" if "x \<in> set kept" for x
  proof -
    have "map_of ?m (group_key x) \<noteq> None" using that by (auto simp: group_instances_get filter_empty_conv)
    then show ?thesis by (simp add: gs map_of_eq_None_iff)
  qed
  have "sorted_wrt (\<lambda>x y. collate (fst (snd x)) (fst (snd y)) \<le> 0) ?gs"
    unfolding gs by (rule comparator.sorted_sort [OF comparator_on [OF assms]])
  with d e f show ?thesis unfolding Let_def kept_def by blast
qed

theorem instance_groups_partition_witness:
  "distinct (map fst (instance_groups by_length (demo_inst_page\<lparr>ip_datasources := [demo_ds 3]\<rparr>)))"
  using instance_groups_partition [OF comparator_by_length, of "demo_inst_page\<lparr>ip_datasources := [demo_ds 3]\<rparr>"]
  unfolding Let_def by (rule conjunct1)

section \<open>The position of the list\<close>

definition box_ok :: "list_box \<Rightarrow> bool" where
  "box_ok b \<longleftrightarrow> 0 \<le> lb_scroll b \<and> 0 \<le> lb_height b \<and> lb_height b \<le> lb_content b"

definition fits :: "int \<times> int \<Rightarrow> list_box \<Rightarrow> bool" where
  "fits item b \<longleftrightarrow> 0 \<le> fst item \<and> 0 \<le> snd item \<and> fst item + snd item \<le> lb_content b \<and> snd item \<le> lb_height b"

text \<open>
  However the list was scrolled before, after it is drawn again the instance on display can be seen in it, and
  a position at which it could be seen already is kept.
\<close>

theorem active_instance_visible:
  assumes "box_ok b" and "fits item b"
  shows "let b' = restore_scroll (Some item) fallback remembered b
         in item_visible item b' \<and> (item_visible item b \<and> fallback \<le> 0 \<and> remembered \<le> 0 \<longrightarrow> b' = b)"
proof -
  have n: "item_visible item (scroll_nearest item c)" if "lb_height c = lb_height b" "lb_content c = lb_content b" for c
    using assms that by (auto simp: scroll_nearest_def item_visible_def fits_def box_ok_def set_scroll_top_def Let_def)
  have s: "lb_height (set_scroll_top k b) = lb_height b \<and> lb_content (set_scroll_top k b) = lb_content b" for k
    by (simp add: set_scroll_top_def)
  show ?thesis by (auto simp: restore_scroll_def Let_def n s)
qed

theorem active_instance_visible_witness:
  "item_visible (900, 40) (restore_scroll (Some (900, 40)) 0 120 \<lparr>lb_scroll = 0, lb_height = 300, lb_content = 1000\<rparr>)"
  using active_instance_visible [of "\<lparr>lb_scroll = 0, lb_height = 300, lb_content = 1000\<rparr>" "(900, 40)" 0 120]
  by (simp add: box_ok_def fits_def Let_def)

text \<open>
  A new search is meant to start at the top, but the position asked for, 0, is taken for none: the list is
  scrolled to the position remembered.
\<close>

theorem new_search_keeps_scroll:
  assumes "to_lower (trim typed) \<noteq> ip_keyword p" and "0 < remembered" and "remembered \<le> lb_content b - lb_height b"
  shows "lb_scroll (restore_scroll None (snd (search_list typed scroll_top remembered p)) remembered b) = remembered"
  using assms by (simp add: search_list_def restore_scroll_def set_scroll_top_def Let_def)

theorem new_search_keeps_scroll_witness:
  "lb_scroll (restore_scroll None (snd (search_list ''ora'' 120 120 demo_inst_page)) 120 \<lparr>lb_scroll = 0, lb_height = 300, lb_content = 1000\<rparr>) = 120"
proof (rule new_search_keeps_scroll)
  show "to_lower (trim ''ora'') \<noteq> ip_keyword demo_inst_page" by code_simp
qed simp_all

end
