(* ===== verification/Integrations.thy ===== *)
theory Integrations
  imports DatasourceForm HtmlText
begin

text \<open>
  The page of the integrations (pages/integrations.js): names and texts of those that are known, the groups on
  display, the status of a bot, the editor, the test, and the login of a bot.  \<open>t\<close> is the catalog of the page's texts,
  \<open>parse\<close> and \<open>print\<close> are \<^verbatim>\<open>JSON.parse\<close> and \<^verbatim>\<open>JSON.stringify\<close> with indentation.  Texts are the bytes of UTF-8; blanks
  and letters with two cases are those of ASCII.  Keys that are looked up are none of the names of \<^verbatim>\<open>Object.prototype\<close>.
\<close>

section \<open>Integrations that are known\<close>

definition builtin_keys :: "(string \<times> string) list" where
  "builtin_keys =
     [(''builtin_feishu_webhook'', ''feishuWebhook''), (''builtin_dingtalk_webhook'', ''dingtalkWebhook''), (''builtin_email'', ''email''),
      (''builtin_generic_webhook'', ''genericWebhook''), (''builtin_aliyun_rds'', ''aliyunRds''), (''builtin_huaweicloud_rds'', ''huaweiRds''),
      (''builtin_tencentcloud_rds'', ''tencentRds''), (''builtin_feishu_bot'', ''feishuBot''), (''builtin_dingtalk_bot'', ''dingtalkBot''),
      (''builtin_weixin_bot'', ''weixinBot'')]"

definition builtin_key :: "js \<Rightarrow> string option" where
  "builtin_key i = map_of builtin_keys (js_string i)"

text \<open>The alternatives of the regular expressions, written out: an optional separator is one of three.\<close>

definition wecom_marks :: "string list" where
  "wecom_marks =
     [''wecom'', ''wechatwork'', ''wechat_work'', ''wechat-work'', ''wework'', ''qyweixin'', ''enterprisewechat'', ''enterprise_wechat'',
      ''enterprise-wechat'']"

definition wecom_names :: "string list" where
  "wecom_names = [utf8 [228, 188, 129, 228, 184, 154, 229, 190, 174, 228, 191, 161], utf8 [228, 188, 129, 229, 190, 174]]"

definition bot_marks :: "string list" where
  "bot_marks = [''bot'', utf8 [230, 156, 186, 229, 153, 168, 228, 186, 186]]"

definition wecom_key :: "js \<Rightarrow> string option" where
  "wecom_key i =
     (let identifier = to_lower (text_or_empty (js_or (field i ''integration_id'') (field i ''code'')));
          name = text_or_empty (field i ''name'')
      in if \<not> truthy i then None
         else if \<not> (list_ex (includes_str identifier) wecom_marks \<or> list_ex (includes_str name) wecom_names) then None
         else if field i ''integration_type'' = JStr ''bot'' \<or> list_ex (includes_str (identifier @ '' '' @ name)) bot_marks
         then Some ''enterpriseWechatBot'' else Some ''enterpriseWechatWebhook'')"

definition known_key :: "js \<Rightarrow> string option" where
  "known_key i = (case builtin_key (field i ''integration_id'') of Some k \<Rightarrow> Some k | None \<Rightarrow> wecom_key i)"

definition display_name :: "(string \<Rightarrow> string) \<Rightarrow> js \<Rightarrow> string" where
  "display_name t i = (case known_key i of Some k \<Rightarrow> t (''builtinNames.'' @ k) | None \<Rightarrow> text_or_empty (field i ''name''))"

definition display_description :: "(string \<Rightarrow> string) \<Rightarrow> js \<Rightarrow> string" where
  "display_description t i =
     (case known_key i of
        Some k \<Rightarrow> t (''builtinDescriptions.'' @ k)
      | None \<Rightarrow> js_string (js_or (field i ''description'') (JStr (t ''noDescription''))))"

text \<open>Texts of the parameters of the built-in integrations: integration, parameter, title and description.\<close>

definition schema_texts :: "(string \<times> string \<times> string option \<times> string option) list" where
  "schema_texts =
     [(''builtin_feishu_webhook'', ''webhook_url'', None, Some ''feishuWebhook''),
      (''builtin_feishu_webhook'', ''secret'', Some ''secretOptional'', Some ''feishuSecret''),
      (''builtin_dingtalk_webhook'', ''webhook_url'', None, Some ''dingtalkWebhook''),
      (''builtin_dingtalk_webhook'', ''secret'', Some ''secret'', Some ''dingtalkSecret''),
      (''builtin_email'', ''to'', Some ''recipient'', Some ''recipientHelp''), (''builtin_email'', ''cc'', Some ''ccOptional'', Some ''ccHelp''),
      (''builtin_generic_webhook'', ''webhook_url'', None, Some ''targetWebhook''), (''builtin_generic_webhook'', ''method'', Some ''httpMethod'', None),
      (''builtin_generic_webhook'', ''auth_type'', Some ''authMethod'', None), (''builtin_generic_webhook'', ''auth_token'', Some ''authTokenOptional'', None),
      (''builtin_aliyun_rds'', ''region_id'', Some ''regionId'', Some ''aliyunRegion''),
      (''builtin_huaweicloud_rds'', ''region_id'', Some ''areaId'', Some ''huaweiRegion''),
      (''builtin_huaweicloud_rds'', ''project_id'', Some ''projectIdOptional'', Some ''projectHelp''),
      (''builtin_tencentcloud_rds'', ''region_id'', Some ''region'', Some ''tencentRegion''),
      (''builtin_tencentcloud_rds'', ''mysql_instance_type'', Some ''mysqlInstanceType'', Some ''mysqlInstanceHelp'')]"

definition schema_text :: "(string \<Rightarrow> string) \<Rightarrow> js \<Rightarrow> string \<Rightarrow> js \<Rightarrow> bool \<Rightarrow> js" where
  "schema_text t i key prop title =
     (case find (\<lambda>(b, k, _). b = js_string (field i ''integration_id'') \<and> k = key) schema_texts of
        Some (_, _, ti, de) \<Rightarrow>
          (case (if title then ti else de) of
             Some k \<Rightarrow> JStr (t (''schemaFields.'' @ k))
           | None \<Rightarrow> if title then js_or (field prop ''title'') (JStr key) else js_or (field prop ''description'') (JStr []))
      | None \<Rightarrow> if title then js_or (field prop ''title'') (JStr key) else js_or (field prop ''description'') (JStr []))"

definition localized_property :: "(string \<Rightarrow> string) \<Rightarrow> js \<Rightarrow> string \<Rightarrow> js \<Rightarrow> js" where
  "localized_property t i key prop =
     (let p = (if truthy (field prop ''title'') then set_field ''title'' (schema_text t i key prop True) prop else prop)
      in if truthy (field p ''description'') then set_field ''description'' (schema_text t i key p False) p else p)"

definition localized_schema :: "(string \<Rightarrow> string) \<Rightarrow> js \<Rightarrow> js" where
  "localized_schema t i =
     (let schema = json_clone (js_or (field i ''config_schema'') (JObj []))
      in if truthy (field schema ''properties'')
         then set_field ''properties'' (JObj (map (\<lambda>(k, p). (k, localized_property t i k p)) (obj_fields (field schema ''properties'')))) schema
         else schema)"

section \<open>The cards\<close>

definition type_label :: "js \<Rightarrow> string" where
  "type_label ty =
     (case map_of [(''outbound_notification'', ''typeOutbound''), (''inbound_metric'', ''typeInbound''), (''bot'', ''typeBot'')] (js_string ty) of
        Some k \<Rightarrow> k | None \<Rightarrow> if truthy ty then js_string ty else ''uncategorized'')"

definition category_icon :: "js \<Rightarrow> string" where
  "category_icon c =
     (case map_of [(''webhook'', ''link-2''), (''email'', ''mail''), (''sms'', ''smartphone''), (''im'', ''messages-square''),
        (''monitoring'', ''activity''), (''custom'', ''blocks'')] (js_string c) of Some i \<Rightarrow> i | None \<Rightarrow> ''plug-zap'')"

text \<open>The binding of a bot: by the name of the integration without its prefix; icon and label, status and its class.\<close>

definition without_builtin :: "string \<Rightarrow> string" where
  "without_builtin s = (if starts_with s ''builtin_'' then drop 8 s else s)"

definition binding_of :: "js list \<Rightarrow> js \<Rightarrow> js option" where
  "binding_of bindings i =
     (if truthy i \<and> field i ''integration_type'' = JStr ''bot''
      then find (\<lambda>b. field b ''code'' = JStr (without_builtin (text_or_empty (field i ''integration_id'')))) bindings else None)"

definition binding_label :: "(string \<Rightarrow> string) \<Rightarrow> js \<Rightarrow> string" where
  "binding_label t b =
     (if wecom_key (set_field ''integration_type'' (JStr ''bot'') b) \<noteq> None then t ''enterpriseWechatBot''
      else if field b ''code'' = JStr ''weixin_bot'' then t ''weixinBot''
      else if field b ''code'' = JStr ''feishu_bot'' then t ''feishuBot''
      else if field b ''code'' = JStr ''dingtalk_bot'' then t ''dingtalkBot''
      else js_string (js_or (field b ''name'') (JStr (t ''typeBot''))))"

definition binding_status :: "js \<Rightarrow> js" where
  "binding_status b =
     (let params = js_or (field b ''params'') (JObj [])
      in if truthy (field params ''login_status'') then field params ''login_status''
         else if truthy (field params ''last_error'') then JStr ''error''
         else if truthy (field b ''enabled'') then JStr ''configured'' else JStr ''not_ready'')"

definition binding_status_meta :: "js \<Rightarrow> string \<times> string" where
  "binding_status_meta s =
     (if s = JStr ''pending'' then (''statusPending'', ''warning'') else if s = JStr ''configured'' then (''statusConfigured'', ''warning'')
      else if s = JStr ''confirmed'' then (''statusRunning'', ''success'') else if s = JStr ''error'' then (''statusFailed'', ''danger'')
      else (''statusNotReady'', ''idle''))"

definition group_types :: "string list" where
  "group_types = [''outbound_notification'', ''inbound_metric'', ''bot'']"

definition integration_groups :: "js list \<Rightarrow> (string \<times> js list) list" where
  "integration_groups items =
     filter (\<lambda>g. snd g \<noteq> []) (map (\<lambda>ty. (ty, filter (\<lambda>i. field i ''integration_type'' = JStr ty) items)) group_types)"

text \<open>
  The page: \<open>gp_list\<close> is what the list shows, none when the page has been left, whose element drawing needs; \<open>gp_failures\<close>
  counts the messages that the integrations could not be loaded.
\<close>

record integrations_page =
  gp_items :: "js list"
  gp_bindings :: "js list"
  gp_list :: "(string \<times> js list) list option"
  gp_failures :: nat

definition new_integrations_page :: integrations_page where
  "new_integrations_page = \<lparr>gp_items = [], gp_bindings = [], gp_list = None, gp_failures = 0\<rparr>"

definition open_integrations :: "integrations_page \<Rightarrow> integrations_page" where
  "open_integrations p = p\<lparr>gp_list := Some []\<rparr>"

definition draw_integrations :: "integrations_page \<Rightarrow> integrations_page option" where
  "draw_integrations p = map_option (\<lambda>_. p\<lparr>gp_list := Some (integration_groups (gp_items p))\<rparr>) (gp_list p)"

definition integrations_come :: "js list \<Rightarrow> integrations_page \<Rightarrow> integrations_page" where
  "integrations_come items p =
     (let q = p\<lparr>gp_items := items\<rparr>
      in case draw_integrations q of Some r \<Rightarrow> r | None \<Rightarrow> q\<lparr>gp_failures := Suc (gp_failures q)\<rparr>)"

definition integrations_failed :: "integrations_page \<Rightarrow> integrations_page" where
  "integrations_failed p = p\<lparr>gp_failures := Suc (gp_failures p)\<rparr>"

definition bindings_come :: "js list option \<Rightarrow> integrations_page \<Rightarrow> integrations_page" where
  "bindings_come answer p =
     (case answer of
        None \<Rightarrow> p\<lparr>gp_bindings := []\<rparr>
      | Some bs \<Rightarrow> (case draw_integrations (p\<lparr>gp_bindings := bs\<rparr>) of Some r \<Rightarrow> r | None \<Rightarrow> p\<lparr>gp_bindings := []\<rparr>))"

definition leave_integrations :: "integrations_page \<Rightarrow> integrations_page" where
  "leave_integrations p = p\<lparr>gp_list := None\<rparr>"

section \<open>The editor\<close>

record integration_form =
  ig_name :: string
  ig_type :: string
  ig_category :: string
  ig_description :: string
  ig_schema :: string
  ig_code :: string
  ig_enabled :: bool

text \<open>Quotes are left by the escaping: the name is an attribute, the other texts are text areas.\<close>

definition open_integration :: "(js \<Rightarrow> string) \<Rightarrow> js \<Rightarrow> integration_form" where
  "open_integration print i =
     \<lparr>ig_name = text_input (attr_decoded (escape_html (text_or_empty (field i ''name'')))), ig_type = [], ig_category = [],
      ig_description = textarea_value (decode_refs (escape_html (text_or_empty (field i ''description'')))),
      ig_schema = textarea_value (decode_refs (escape_html (if truthy (field i ''config_schema'') then print (field i ''config_schema'') else []))),
      ig_code = textarea_value (decode_refs (escape_html (text_or_empty (field i ''code'')))),
      ig_enabled = (field i ''enabled'' \<noteq> JBool False)\<rparr>"

datatype integration_outcome = IntegrationRefused string | UpdateIntegration js js | CreateIntegration js

text \<open>An empty schema is null; a text that is not JSON is refused.\<close>

definition read_schema :: "(string \<Rightarrow> js option) \<Rightarrow> string \<Rightarrow> js option" where
  "read_schema parse s = (if trim s = [] then Some JNull else parse s)"

definition update_integration :: "(string \<Rightarrow> js option) \<Rightarrow> js \<Rightarrow> integration_form \<Rightarrow> integration_outcome" where
  "update_integration parse i f =
     (if ig_name f = [] \<or> ig_code f = [] then IntegrationRefused ''required''
      else case read_schema parse (ig_schema f) of
             None \<Rightarrow> IntegrationRefused ''invalidSchema''
           | Some schema \<Rightarrow> UpdateIntegration (field i ''id'') (JObj
               [(''name'', JStr (ig_name f)), (''description'', JStr (ig_description f)), (''config_schema'', schema),
                (''code'', JStr (ig_code f)), (''enabled'', JBool (ig_enabled f))]))"

text \<open>
  The identifier of a new integration: blanks and then what is neither a word character nor a Chinese one (U+4E00 to
  U+9FA5, three bytes) become underscores, one for a run; underscores at the ends go.
\<close>

definition blank :: "char \<Rightarrow> bool" where
  "blank c \<longleftrightarrow> is_ws c \<and> c \<noteq> CHR 0xA0"

fun blanks_joined :: "bool \<Rightarrow> string \<Rightarrow> string" where
  "blanks_joined seen [] = []"
| "blanks_joined seen (c # cs) =
     (if blank c then (if seen then [] else ''_'') @ blanks_joined True cs else c # blanks_joined False cs)"

definition chinese :: "char \<Rightarrow> char \<Rightarrow> char \<Rightarrow> bool" where
  "chinese a b c \<longleftrightarrow> 224 \<le> char_code a \<and> char_code a < 240 \<and> 128 \<le> char_code b \<and> char_code b < 192 \<and> 128 \<le> char_code c \<and> char_code c < 192
     \<and> 19968 \<le> (char_code a - 224) * 4096 + (char_code b - 128) * 64 + (char_code c - 128)
     \<and> (char_code a - 224) * 4096 + (char_code b - 128) * 64 + (char_code c - 128) \<le> 40869"

definition word_token :: "char \<Rightarrow> string option" where
  "word_token c = (if is_word c then Some [c] else None)"

fun word_tokens :: "string \<Rightarrow> string option list" where
  "word_tokens (a # b # c # cs) = (if chinese a b c then Some [a, b, c] # word_tokens cs else word_token a # word_tokens (b # c # cs))"
| "word_tokens [a, b] = [word_token a, word_token b]"
| "word_tokens [a] = [word_token a]"
| "word_tokens [] = []"

fun joined_tokens :: "bool \<Rightarrow> string option list \<Rightarrow> string" where
  "joined_tokens seen [] = []"
| "joined_tokens seen (Some w # ts) = w @ joined_tokens False ts"
| "joined_tokens seen (None # ts) = (if seen then [] else ''_'') @ joined_tokens True ts"

definition strip_underscores :: "string \<Rightarrow> string" where
  "strip_underscores s = rev (dropWhile (\<lambda>c. c = CHR ''_'') (rev (dropWhile (\<lambda>c. c = CHR ''_'') s)))"

definition identifier_of :: "string \<Rightarrow> string" where
  "identifier_of name = strip_underscores (joined_tokens False (word_tokens (blanks_joined False (to_lower name))))"

definition create_integration :: "(string \<Rightarrow> js option) \<Rightarrow> integration_form \<Rightarrow> integration_outcome" where
  "create_integration parse f =
     (if ig_name f = [] \<or> ig_type f = [] \<or> ig_category f = [] \<or> ig_code f = [] then IntegrationRefused ''required''
      else case read_schema parse (ig_schema f) of
             None \<Rightarrow> IntegrationRefused ''invalidSchema''
           | Some schema \<Rightarrow> CreateIntegration (JObj
               [(''integration_id'', JStr (identifier_of (ig_name f))), (''name'', JStr (ig_name f)), (''description'', JStr (ig_description f)),
                (''integration_type'', JStr (ig_type f)), (''category'', JStr (ig_category f)), (''config_schema'', schema),
                (''code'', JStr (ig_code f)), (''enabled'', JBool True)]))"

section \<open>The test\<close>

text \<open>The inputs of a test: key, whether it is a password, what it shows; \<open>inputs\<close> are the texts in them when it runs.\<close>

definition test_inputs :: "js \<Rightarrow> (string \<times> bool \<times> string) list" where
  "test_inputs i =
     (let properties = field (field i ''config_schema'') ''properties''
      in if truthy properties then
           map (\<lambda>(k, p). let secret = (field p ''format'' = JStr ''password'')
                in (k, secret, if secret then [] else text_input (attr_decoded (escape_html (js_string (js_coalesce (field p ''default'') (JStr [])))))))
             (filter (\<lambda>(k, _). renders_param i k) (obj_fields properties))
         else [])"

definition test_request :: "js \<Rightarrow> (string \<times> bool \<times> string) list \<Rightarrow> string \<Rightarrow> js" where
  "test_request i inputs datasource =
     JObj ((''params'', JObj (map (\<lambda>(k, secret, v). (k, JStr (if secret \<and> v \<noteq> [] then ''ENCRYPT:'' @ v else v))) inputs))
       # (if field i ''integration_type'' = JStr ''inbound_metric'' \<and> datasource \<noteq> []
          then [(''datasource_id'', JNum (parse_int_str datasource))] else []))"

text \<open>The answer is written into the dialog; without it that throws, and counts as a failed test.\<close>

datatype test_shown = TestSucceeded | TestReportedFailed js

definition test_answered :: "bool \<Rightarrow> js \<Rightarrow> test_shown" where
  "test_answered dialog_open answer =
     (if \<not> dialog_open then TestReportedFailed (JStr ''Cannot read properties of null'')
      else if truthy (field answer ''success'') then TestSucceeded else TestReportedFailed (field answer ''message''))"

section \<open>The login of a bot\<close>

text \<open>The dialog on display: none, that of the login, with the status in it, or another one.\<close>

datatype login_dialog = NoDialog | LoginDialog js | OtherDialog

record bot_login =
  bl_dialog :: login_dialog
  bl_code :: js
  bl_waiting :: bool

definition login_status_label :: "js \<Rightarrow> string \<times> string" where
  "login_status_label s =
     (if s = JStr ''pending'' then (''statusPending'', ''warning'') else if s = JStr ''confirmed'' then (''statusLoggedIn'', ''success'')
      else if s = JStr ''error'' then (''statusLoginFailed'', ''danger'') else (''statusNotReady'', ''idle''))"

definition raw_params :: "js \<Rightarrow> js" where
  "raw_params b = js_or (field (field (field b ''params'') ''raw'') ''params'') (js_or (field b ''params'') (JObj []))"

definition show_login :: "js list \<Rightarrow> bot_login \<Rightarrow> bot_login" where
  "show_login bindings l =
     (let b = (case find (\<lambda>b. field b ''code'' = JStr ''weixin_bot'') bindings of Some b \<Rightarrow> b | None \<Rightarrow> JUndef)
      in l\<lparr>bl_dialog := LoginDialog (field (raw_params b) ''login_status'')\<rparr>)"

text \<open>The code is kept when the dialog has a place for it: that of a bot that is not logged in.\<close>

definition login_code_come :: "js \<Rightarrow> bot_login \<Rightarrow> bot_login" where
  "login_code_come answer l =
     (case bl_dialog l of
        LoginDialog s \<Rightarrow> if s = JStr ''confirmed'' then l else l\<lparr>bl_code := field answer ''qrcode''\<rparr>
      | _ \<Rightarrow> l)"

text \<open>Asking for the status: the code to ask with.  A confirmed one waits, loads the bindings and shows the dialog anew.\<close>

definition ask_login :: "bot_login \<Rightarrow> js option" where
  "ask_login l = (if truthy (bl_code l) then Some (bl_code l) else None)"

definition login_answered :: "js \<Rightarrow> bot_login \<Rightarrow> bot_login" where
  "login_answered answer l = (if field answer ''status'' = JStr ''confirmed'' then l\<lparr>bl_waiting := True\<rparr> else l)"

definition login_confirmed :: "js list \<Rightarrow> bot_login \<Rightarrow> bot_login" where
  "login_confirmed bindings l = (if bl_waiting l then (show_login bindings l)\<lparr>bl_waiting := False\<rparr> else l)"

definition poll_status :: "js \<Rightarrow> string \<times> string" where
  "poll_status s =
     (if s = JStr ''pending'' then (''pending'', ''warning'') else if s = JStr ''confirmed'' then (''success'', ''success'')
      else if s = JStr ''expired'' then (''expired'', ''danger'') else if s = JStr ''error'' then (''scanFailed'', ''danger'')
      else (js_string s, ''idle''))"

definition close_dialog :: "bot_login \<Rightarrow> bot_login" where
  "close_dialog l = l\<lparr>bl_dialog := NoDialog\<rparr>"

definition logout_request :: js where
  "logout_request = JObj [(''enabled'', JBool False), (''params'', JObj
     [(''bot_token'', JStr []), (''login_status'', JStr ''not_ready''), (''api_baseurl'', JStr []), (''gateway_url'', JStr [])])]"

section \<open>The identifier\<close>

definition plain_token :: "string \<Rightarrow> bool" where
  "plain_token w \<longleftrightarrow> (\<exists>a. w = [a] \<and> is_word a) \<or> (\<exists>a b c. w = [a, b, c] \<and> chinese a b c)"

lemma word_small: "is_word c \<Longrightarrow> char_code c < 128"
  by (auto simp: is_word_def is_alnum_def is_digit_def is_upper_ascii_def is_lower_ascii_def char_code_def)

lemma word_tokens_word: "is_word a \<Longrightarrow> word_tokens (a # cs) = Some [a] # word_tokens cs"
  using word_small [of a] by (cases cs rule: word_tokens.cases) (auto simp: word_token_def chinese_def)

lemma word_tokens_pieces: "\<forall>w \<in> set ws. plain_token w \<Longrightarrow> word_tokens (concat ws) = map Some ws"
proof (induction ws)
  case (Cons w ws)
  then consider a where "w = [a]" "is_word a" | a b c where "w = [a, b, c]" "chinese a b c"
    by (auto simp: plain_token_def)
  then show ?case using Cons by cases (simp_all add: word_tokens_word)
qed simp

lemma tokens_plain: "Some w \<in> set (word_tokens s) \<Longrightarrow> plain_token w"
  by (induction s rule: word_tokens.induct) (auto simp: plain_token_def word_token_def split: if_splits)

lemma joined_pieces: "\<exists>ws. joined_tokens seen ts = concat ws \<and> (\<forall>w \<in> set ws. w = ''_'' \<or> Some w \<in> set ts)"
proof (induction ts arbitrary: seen)
  case (Cons t ts)
  then obtain ws where ws: "joined_tokens (t = None) ts = concat ws" "\<forall>w \<in> set ws. w = ''_'' \<or> Some w \<in> set ts" by blast
  show ?case
  proof (cases t)
    case None
    then show ?thesis using ws by (intro exI [of _ "(if seen then ws else ''_'' # ws)"]) auto
  next
    case (Some w)
    then show ?thesis using ws by (intro exI [of _ "w # ws"]) auto
  qed
qed (intro exI [of _ "[]"], simp)

lemma underscore_plain: "plain_token ''_''"
  by (simp add: plain_token_def is_word_def)

lemma plain_token_ends:
  assumes "plain_token w"
  shows "w \<noteq> []" "hd w = CHR ''_'' \<longleftrightarrow> w = ''_''" "last w = CHR ''_'' \<longleftrightarrow> w = ''_''"
proof -
  have u: "char_code (CHR ''_'') = 95" by (simp add: char_code_def)
  from assms show "w \<noteq> []" by (auto simp: plain_token_def)
  show "hd w = CHR ''_'' \<longleftrightarrow> w = ''_''" "last w = CHR ''_'' \<longleftrightarrow> w = ''_''"
    using assms u by (auto simp: plain_token_def chinese_def)
qed

lemma strip_front:
  "\<forall>w \<in> set ws. plain_token w \<Longrightarrow>
     dropWhile (\<lambda>c. c = CHR ''_'') (concat ws) = concat (dropWhile (\<lambda>w. w = ''_'') ws)"
proof (induction ws)
  case (Cons w ws)
  then have p: "w \<noteq> []" "hd w = CHR ''_'' \<longleftrightarrow> w = ''_''" using plain_token_ends [of w] by auto
  show ?case
  proof (cases "w = ''_''")
    case False
    then have "hd w \<noteq> CHR ''_''" using p by simp
    then show ?thesis using False p(1) by (cases w) simp_all
  qed (use Cons in simp)
qed simp

lemma strip_back:
  "\<forall>w \<in> set ws. plain_token w \<Longrightarrow>
     rev (dropWhile (\<lambda>c. c = CHR ''_'') (rev (concat ws))) = concat (rev (dropWhile (\<lambda>w. w = ''_'') (rev ws)))"
proof (induction ws rule: rev_induct)
  case (snoc w ws)
  then have p: "w \<noteq> []" "last w = CHR ''_'' \<longleftrightarrow> w = ''_''" using plain_token_ends [of w] by auto
  show ?case
  proof (cases "w = ''_''")
    case False
    then have "last w \<noteq> CHR ''_''" using p by simp
    then have "dropWhile (\<lambda>c. c = CHR ''_'') (rev w @ rev (concat ws)) = rev w @ rev (concat ws)"
      using p(1) by (cases w rule: rev_cases) simp_all
    then show ?thesis using False by simp
  qed (use snoc in simp)
qed simp

lemma strip_pieces:
  assumes "\<forall>w \<in> set ws. plain_token w"
  obtains vs where "strip_underscores (concat ws) = concat vs" "set vs \<subseteq> set ws" "vs \<noteq> [] \<longrightarrow> hd vs \<noteq> ''_'' \<and> last vs \<noteq> ''_''"
proof -
  define us where "us = dropWhile (\<lambda>w. w = ''_'') ws"
  define vs where "vs = rev (dropWhile (\<lambda>w. w = ''_'') (rev us))"
  have us: "set us \<subseteq> set ws" "us \<noteq> [] \<Longrightarrow> hd us \<noteq> ''_''"
    unfolding us_def using set_dropWhileD hd_dropWhile by (fast, metis (mono_tags, lifting))
  have "strip_underscores (concat ws) = concat vs"
    using strip_front [OF assms] strip_back [of us] us(1) assms by (auto simp: strip_underscores_def us_def vs_def)
  moreover have "set vs \<subseteq> set us" unfolding vs_def using set_dropWhileD by fastforce
  moreover have "hd vs \<noteq> ''_'' \<and> last vs \<noteq> ''_''" if "vs \<noteq> []"
  proof
    have ne: "dropWhile (\<lambda>w. w = ''_'') (rev us) \<noteq> []" using that by (simp add: vs_def)
    then have "hd (dropWhile (\<lambda>w. w = ''_'') (rev us)) \<noteq> ''_''" by (rule hd_dropWhile)
    then show "last vs \<noteq> ''_''" unfolding vs_def using ne by (simp add: last_rev)
    have s: "us = vs @ rev (takeWhile (\<lambda>w. w = ''_'') (rev us))"
      unfolding vs_def by (metis rev_append rev_rev_ident takeWhile_dropWhile_id)
    then have "hd us = hd vs" "us \<noteq> []" using that by (metis hd_append2, auto)
    then show "hd vs \<noteq> ''_''" using us(2) by simp
  qed
  ultimately show ?thesis using us(1) by (intro that [of vs]) blast+
qed

lemma identifier_pieces:
  obtains vs where "identifier_of name = concat vs" "\<forall>w \<in> set vs. plain_token w" "vs \<noteq> [] \<longrightarrow> hd vs \<noteq> ''_'' \<and> last vs \<noteq> ''_''"
proof -
  let ?ts = "word_tokens (blanks_joined False (to_lower name))"
  obtain ws where ws: "joined_tokens False ?ts = concat ws" "\<forall>w \<in> set ws. w = ''_'' \<or> Some w \<in> set ?ts"
    using joined_pieces by blast
  have p: "\<forall>w \<in> set ws. plain_token w"
  proof
    fix w assume "w \<in> set ws"
    then consider "w = ''_''" | "Some w \<in> set ?ts" using ws(2) by blast
    then show "plain_token w" by cases (simp add: underscore_plain, rule tokens_plain)
  qed
  obtain vs where vs: "strip_underscores (concat ws) = concat vs" "set vs \<subseteq> set ws" "vs \<noteq> [] \<longrightarrow> hd vs \<noteq> ''_'' \<and> last vs \<noteq> ''_''"
    using strip_pieces [OF p] by blast
  show ?thesis
  proof (rule that)
    show "identifier_of name = concat vs" unfolding identifier_of_def ws(1) by (rule vs(1))
    show "\<forall>w \<in> set vs. plain_token w" using p vs(2) by (rule_tac ballI) (erule bspec, erule subsetD)
  qed (rule vs(3))
qed

lemma pieces_ends:
  assumes "\<forall>w \<in> set vs. plain_token w" and "concat vs \<noteq> []"
  shows "vs \<noteq> []" "hd (concat vs) = CHR ''_'' \<longleftrightarrow> hd vs = ''_''" "last (concat vs) = CHR ''_'' \<longleftrightarrow> last vs = ''_''"
proof -
  show ne: "vs \<noteq> []" using assms(2) by auto
  have h: "plain_token (hd vs)" "plain_token (last vs)" using assms(1) ne by simp_all
  have "hd (concat vs) = hd (hd vs)" using ne plain_token_ends(1) [OF h(1)] by (cases vs) simp_all
  then show "hd (concat vs) = CHR ''_'' \<longleftrightarrow> hd vs = ''_''" by (simp only: plain_token_ends(2) [OF h(1)])
  have "last (concat vs) = last (last vs)"
    using ne plain_token_ends(1) [OF h(2)] by (cases vs rule: rev_cases) simp_all
  then show "last (concat vs) = CHR ''_'' \<longleftrightarrow> last vs = ''_''" by (simp only: plain_token_ends(3) [OF h(2)])
qed

text \<open>
  C40. The identifier of a new integration consists of words and Chinese characters only, and neither begins nor ends with an
  underscore, whatever its name.
\<close>

theorem identifier_plain:
  "list_all (\<lambda>t. t \<noteq> None) (word_tokens (identifier_of name))
   \<and> (identifier_of name \<noteq> [] \<longrightarrow> hd (identifier_of name) \<noteq> CHR ''_'' \<and> last (identifier_of name) \<noteq> CHR ''_'')"
proof -
  obtain vs where vs: "identifier_of name = concat vs" "\<forall>w \<in> set vs. plain_token w" "vs \<noteq> [] \<longrightarrow> hd vs \<noteq> ''_'' \<and> last vs \<noteq> ''_''"
    using identifier_pieces [of name] by blast
  have "list_all (\<lambda>t. t \<noteq> None) (word_tokens (concat vs))" unfolding word_tokens_pieces [OF vs(2)] by (simp add: list_all_iff)
  moreover have "hd (concat vs) \<noteq> CHR ''_'' \<and> last (concat vs) \<noteq> CHR ''_''" if n: "concat vs \<noteq> []"
    using vs(3) pieces_ends(1) [OF vs(2) n] unfolding pieces_ends(2,3) [OF vs(2) n] by (rule mp)
  ultimately show ?thesis unfolding vs(1) by blast
qed

theorem identifier_plain_witness: "identifier_of '' My Hook (v2)! '' = ''my_hook__v2'' \<and> hd (identifier_of '' My Hook (v2)! '') \<noteq> CHR ''_''"
proof -
  have "identifier_of '' My Hook (v2)! '' = ''my_hook__v2''" by code_simp
  then show ?thesis using identifier_plain [of "'' My Hook (v2)! ''"] by simp
qed

text \<open>
  A name without any word character or Chinese one, as in another script, gives an empty identifier, and the integration
  is created with it.
\<close>

lemma blanks_joined_others:
  "\<forall>c \<in> set s. \<not> is_word c \<and> char_code c < 128 \<Longrightarrow> c \<in> set (blanks_joined seen s) \<Longrightarrow> c = CHR ''_'' \<or> (\<not> is_word c \<and> char_code c < 128)"
  by (induction s arbitrary: seen) (auto split: if_splits)

lemma only_underscores: "\<forall>c \<in> set s. c = CHR ''_'' \<Longrightarrow> strip_underscores s = []"
  by (auto simp: strip_underscores_def dropWhile_eq_Nil_conv dest: set_dropWhileD)

lemma tokens_underscore:
  "\<forall>c \<in> set s. c = CHR ''_'' \<or> (\<not> is_word c \<and> char_code c < 128) \<Longrightarrow> t \<in> set (word_tokens s) \<Longrightarrow> t = None \<or> t = Some ''_''"
  by (induction s rule: word_tokens.induct) (auto simp: word_token_def chinese_def split: if_splits)

theorem nameless_identifier:
  assumes "\<forall>c \<in> set name. \<not> is_word c \<and> char_code c < 128"
  shows "identifier_of name = []"
proof -
  have l: "to_lower name = name"
    unfolding to_lower_def using assms
    by (intro map_idI) (auto simp: lower_char_def is_word_def is_alnum_def)
  let ?b = "blanks_joined False name"
  have b: "\<forall>c \<in> set ?b. c = CHR ''_'' \<or> (\<not> is_word c \<and> char_code c < 128)" using blanks_joined_others [OF assms] by blast
  obtain ws where ws: "joined_tokens False (word_tokens ?b) = concat ws" "\<forall>w \<in> set ws. w = ''_'' \<or> Some w \<in> set (word_tokens ?b)"
    using joined_pieces by blast
  have "\<forall>w \<in> set ws. w = ''_''" using ws(2) tokens_underscore [OF b] by blast
  then have "\<forall>c \<in> set (concat ws). c = CHR ''_''" by auto
  then show ?thesis using ws(1) only_underscores by (simp add: identifier_of_def l)
qed

theorem nameless_identifier_witness: "identifier_of ''(?) !'' = []"
  by (rule nameless_identifier) (simp add: is_word_def is_alnum_def is_digit_def is_upper_ascii_def is_lower_ascii_def char_code_def)

text \<open>
  An integration without an identifier is classified by its source text, which the comment beside the function rules out.
\<close>

theorem classified_by_source:
  assumes "field i ''integration_id'' = JStr []" and "field i ''code'' = JStr (a @ ''wecom'' @ b)" and "to_lower a = a" and "to_lower b = b"
    and "truthy i" and "field i ''integration_type'' = JStr ''bot''"
  shows "known_key i = Some ''enterpriseWechatBot''"
proof -
  have w: "to_lower ''wecom'' = ''wecom''" by code_simp
  have l: "to_lower (a @ ''wecom'' @ b) = a @ ''wecom'' @ b" using assms(3,4) w by (simp add: to_lower_def)
  have "includes_str (a @ ''wecom'' @ b) ''wecom''" by (auto simp: includes_str_iff)
  then have "list_ex (includes_str (a @ ''wecom'' @ b)) wecom_marks" by (simp add: wecom_marks_def)
  moreover have "text_or_empty (js_or (field i ''integration_id'') (field i ''code'')) = a @ ''wecom'' @ b"
    using assms(1,2) by (simp add: js_or_def)
  ultimately have "wecom_key i = Some ''enterpriseWechatBot''" using assms(5,6) l by (simp add: wecom_key_def Let_def)
  moreover have "builtin_key (field i ''integration_id'') = None" using assms(1) by (simp add: builtin_key_def builtin_keys_def)
  ultimately show ?thesis by (simp add: known_key_def)
qed

theorem classified_by_source_witness:
  "known_key (JObj [(''integration_id'', JStr []), (''code'', JStr ''# not for wecom''), (''integration_type'', JStr ''bot'')]) = Some ''enterpriseWechatBot''"
proof (rule classified_by_source)
  show "field (JObj [(''integration_id'', JStr []), (''code'', JStr ''# not for wecom''), (''integration_type'', JStr ''bot'')]) ''code''
      = JStr (''# not for '' @ ''wecom'' @ [])" by simp
  show "to_lower ''# not for '' = ''# not for ''" by code_simp
qed (simp_all add: to_lower_def)

section \<open>The editor\<close>

definition plain_area_text :: "string \<Rightarrow> bool" where
  "plain_area_text s \<longleftrightarrow> textarea_value s = s"

text \<open>
  An integration opened and saved untouched is sent as it is stored, with any characters in its description and code, as
  long as its name has no double quote; \<open>parse\<close> reads what \<open>print\<close> writes.
\<close>

theorem integration_edit_roundtrip:
  assumes "field i ''name'' = JStr n" and "n \<noteq> []" and "CHR 0x22 \<notin> set n" and "text_input n = n"
    and "field i ''description'' = JStr d" and "plain_area_text d" and "field i ''code'' = JStr c" and "c \<noteq> []" and "plain_area_text c"
    and "field i ''config_schema'' = s" and "truthy s" and "parse (print s) = Some s" and "plain_area_text (print s)" and "trim (print s) \<noteq> []"
    and "field i ''enabled'' = JBool e"
  shows "update_integration parse i (open_integration print i) = UpdateIntegration (field i ''id'') (JObj
     [(''name'', JStr n), (''description'', JStr d), (''config_schema'', s), (''code'', JStr c), (''enabled'', JBool e)])"
proof -
  have "CHR 0x22 \<notin> set (escape_html n)" using assms(3) by (auto simp: escape_html_def escape_char_def)
  then have t: "takeWhile (\<lambda>c. c \<noteq> CHR 0x22) (escape_html n) = escape_html n" by (intro takeWhile_all) blast
  have "attr_decoded (escape_html n) = n" unfolding attr_decoded_def t by simp
  then show ?thesis
    using assms by (simp add: update_integration_def open_integration_def read_schema_def plain_area_text_def)
qed

theorem integration_edit_roundtrip_witness:
  "update_integration (\<lambda>_. Some (JObj [])) (JObj [(''id'', JInt 1), (''name'', JStr ''a''), (''description'', JStr ''<b>''), (''code'', JStr ''x < y''),
       (''config_schema'', JObj []), (''enabled'', JBool True)])
     (open_integration (\<lambda>_. ''{}'') (JObj [(''id'', JInt 1), (''name'', JStr ''a''), (''description'', JStr ''<b>''), (''code'', JStr ''x < y''),
       (''config_schema'', JObj []), (''enabled'', JBool True)]))
   = UpdateIntegration (JInt 1) (JObj [(''name'', JStr ''a''), (''description'', JStr ''<b>''), (''config_schema'', JObj []),
       (''code'', JStr ''x < y''), (''enabled'', JBool True)])"
  by (subst integration_edit_roundtrip [where n = "''a''" and d = "''<b>''" and c = "''x < y''" and s = "JObj []" and e = True])
    (simp_all add: plain_area_text_def textarea_value_def text_input_def is_newline_def trim_plain is_ws_def)

text \<open>
  A name with a double quote is cut there when the integration is opened, and saved that way.
\<close>

theorem quoted_integration_cut:
  assumes "field i ''name'' = JStr (n @ CHR 0x22 # r)" and "CHR 0x22 \<notin> set n" and "text_input n = n"
  shows "ig_name (open_integration print i) = n"
proof -
  have q: "escape_html (n @ CHR 0x22 # r) = escape_html n @ CHR 0x22 # escape_html r" by (simp add: escape_html_def escape_char_def)
  have "CHR 0x22 \<notin> set (escape_html n)" using assms(2) by (auto simp: escape_html_def escape_char_def)
  then have t: "takeWhile (\<lambda>c. c \<noteq> CHR 0x22) (escape_html (n @ CHR 0x22 # r)) = escape_html n"
    unfolding q by (subst takeWhile_append2) auto
  have "attr_decoded (escape_html (n @ CHR 0x22 # r)) = n" unfolding attr_decoded_def t by simp
  then show ?thesis using assms(1,3) by (simp add: open_integration_def)
qed

theorem quoted_integration_cut_witness:
  "ig_name (open_integration (\<lambda>_. []) (JObj [(''name'', JStr (''Ops '' @ CHR 0x22 # ''A''))])) = ''Ops ''"
  by (rule quoted_integration_cut) (simp_all add: text_input_def is_newline_def)

section \<open>The list and the dialogs\<close>

text \<open>
  The list shows every integration of a known type once, under its type, and no group without one; integrations of
  another type are not shown.
\<close>

theorem integrations_grouped:
  "mset (concat (map snd (integration_groups items)))
     = mset (filter (\<lambda>i. \<exists>ty \<in> set group_types. field i ''integration_type'' = JStr ty) items)
   \<and> (\<forall>(ty, is) \<in> set (integration_groups items). is \<noteq> [] \<and> (\<forall>i \<in> set is. field i ''integration_type'' = JStr ty))"
proof
  have c: "concat (map snd (filter (\<lambda>g. snd g \<noteq> []) gs)) = concat (map snd gs)" for gs :: "(string \<times> js list) list"
    by (induction gs) auto
  show "mset (concat (map snd (integration_groups items)))
     = mset (filter (\<lambda>i. \<exists>ty \<in> set group_types. field i ''integration_type'' = JStr ty) items)"
    unfolding integration_groups_def c by (induction items) (auto simp: group_types_def)
  show "\<forall>(ty, is) \<in> set (integration_groups items). is \<noteq> [] \<and> (\<forall>i \<in> set is. field i ''integration_type'' = JStr ty)"
    by (auto simp: integration_groups_def)
qed

text \<open>
  Integrations that come after the page was left are reported as a failure; bindings that come then are forgotten.
\<close>

theorem late_integrations_fail:
  "gp_failures (integrations_come items (leave_integrations p)) = Suc (gp_failures p)
   \<and> gp_bindings (bindings_come (Some bs) (leave_integrations p)) = []"
  by (simp add: integrations_come_def draw_integrations_def leave_integrations_def bindings_come_def Let_def)

text \<open>
  A test that succeeds after its dialog was closed is reported as a failed one.
\<close>

theorem closed_test_fails:
  assumes "truthy (field answer ''success'')"
  shows "test_answered True answer = TestSucceeded \<and> (\<exists>m. test_answered False answer = TestReportedFailed m)"
  using assms by (simp add: test_answered_def)

theorem closed_test_fails_witness:
  "\<exists>m. test_answered False (JObj [(''success'', JBool True)]) = TestReportedFailed m"
  using closed_test_fails [of "JObj [(''success'', JBool True)]"] by simp

text \<open>
  A login that is confirmed shows its dialog, also when the user has closed it or opened another one in the meantime.
\<close>

theorem closed_login_returns:
  assumes "field answer ''status'' = JStr ''confirmed''"
  shows "\<exists>s. bl_dialog (login_confirmed bindings (close_dialog (login_answered answer l))) = LoginDialog s"
  using assms by (simp add: login_confirmed_def close_dialog_def login_answered_def show_login_def Let_def)

theorem closed_login_returns_witness:
  "bl_dialog (login_confirmed [] (close_dialog (login_answered (JObj [(''status'', JStr ''confirmed'')])
      \<lparr>bl_dialog = LoginDialog JUndef, bl_code = JStr ''q'', bl_waiting = False\<rparr>))) \<noteq> NoDialog"
  using closed_login_returns [of "JObj [(''status'', JStr ''confirmed'')]" "[]" "\<lparr>bl_dialog = LoginDialog JUndef, bl_code = JStr ''q'', bl_waiting = False\<rparr>"]
  by auto

end
