(* ===== verification/MonitorMetrics.thy ===== *)
theory MonitorMetrics
  imports Format ChartPanel
begin

text \<open>
  \<^verbatim>\<open>frontend/js/pages/monitor.js\<close>, the numbers: times of samples, network rates computed from counters, the points
  a sample adds to the twelve charts of the page one by one, and the same points added in one batch when a
  history is loaded. A sample's time is in milliseconds; numbers are exact.
\<close>

record monitor_env =
  me_host :: "string \<Rightarrow> int option"
  me_local :: "int \<Rightarrow> int \<times> int \<times> int \<times> int \<times> int"
  me_time_text :: "int \<Rightarrow> string"
  me_intl :: "jnum \<Rightarrow> string"
  me_tr :: "string \<Rightarrow> string"
  me_msg :: "string \<Rightarrow> string \<Rightarrow> string"

section \<open>Times\<close>

definition naive_utc :: "string \<Rightarrow> bool" where
  "naive_utc s =
     (case do { (_, s1) \<leftarrow> eat_digits 4 s; s2 \<leftarrow> eat ((=) (CHR ''-'')) s1; (_, s3) \<leftarrow> eat_digits 2 s2;
                s4 \<leftarrow> eat ((=) (CHR ''-'')) s3; (_, s5) \<leftarrow> eat_digits 2 s4;
                s6 \<leftarrow> eat (\<lambda>c. c = CHR '' '' \<or> c = CHR ''T'') s5; (_, s7) \<leftarrow> eat_digits 2 s6;
                s8 \<leftarrow> eat ((=) (CHR '':'')) s7; (_, s9) \<leftarrow> eat_digits 2 s8; Some s9 } of
        None \<Rightarrow> False
      | Some r \<Rightarrow>
          (let r1 = (case eat ((=) (CHR '':'')) r of
                       Some t \<Rightarrow> (case eat_digits 2 t of Some (_, u) \<Rightarrow> u | None \<Rightarrow> r) | None \<Rightarrow> r)
           in case r1 of [] \<Rightarrow> True | c # ds \<Rightarrow> c = CHR ''.'' \<and> ds \<noteq> [] \<and> list_all is_digit ds))"

definition parse_utc :: "monitor_env \<Rightarrow> js \<Rightarrow> int option" where
  "parse_utc env v =
     (let v1 = (case v of JStr s \<Rightarrow> if naive_utc (trim s) then JStr (replace_space (trim s) @ ''Z'') else v | _ \<Rightarrow> v)
      in case parse_date (me_host env) (PlainInput v1) of
           Some t \<Rightarrow> Some t
         | None \<Rightarrow>
             (case v1 of
                JStr s1 \<Rightarrow>
                  (let s = trim s1; open = (s \<noteq> [] \<and> last s \<noteq> CHR ''Z'' \<and> CHR ''+'' \<notin> set s)
                   in if open \<and> CHR ''T'' \<notin> set s then me_host env (replace_space s @ ''Z'')
                      else if open then me_host env (s @ ''Z'') else None)
              | _ \<Rightarrow> None))"

definition two_digits :: "int \<Rightarrow> string" where
  "two_digits i = pad_start 2 (CHR ''0'') (str_of_int i)"

definition chart_label :: "monitor_env \<Rightarrow> int \<Rightarrow> js \<Rightarrow> js" where
  "chart_label env now v =
     (case parse_utc env v of
        None \<Rightarrow> JStr []
      | Some t \<Rightarrow>
          (case me_local env t of (y, m, d, h, mi) \<Rightarrow>
             case me_local env now of (y', m', d', _) \<Rightarrow>
               if y = y' \<and> m = m' \<and> d = d' then JStr (me_time_text env t)
               else JStr (str_of_int y @ ''-'' @ two_digits m @ ''-'' @ two_digits d @ '' '' @ two_digits h @ '':'' @ two_digits mi)))"

section \<open>Rates from counters\<close>

record counter =
  ct_rx :: "rat option"
  ct_tx :: "rat option"
  ct_time :: "int option"

record net_state =
  ns_db :: counter
  ns_host :: counter

type_synonym nets = "(js, net_state) jsmap"
type_synonym rates = "(rat \<times> rat) option"

definition no_counter :: counter where
  "no_counter = \<lparr>ct_rx = None, ct_tx = None, ct_time = None\<rparr>"

definition net_state_of :: "js \<Rightarrow> nets \<Rightarrow> net_state" where
  "net_state_of i nets = (case map_of nets i of Some s \<Rightarrow> s | None \<Rightarrow> \<lparr>ns_db = no_counter, ns_host = no_counter\<rparr>)"

definition reset_network :: "js \<Rightarrow> nets \<Rightarrow> nets" where
  "reset_network i nets = (if truthy i then AList.delete i nets else nets)"

definition to_numeric :: "js \<Rightarrow> rat option" where
  "to_numeric v =
     (if nullish v \<or> v = JStr [] then None
      else case (case v of JNum n \<Rightarrow> n | _ \<Rightarrow> parse_float v) of Fin q \<Rightarrow> Some q | _ \<Rightarrow> None)"

definition round2 :: "rat \<Rightarrow> rat" where
  "round2 q = of_int \<lfloor>q * 100 + 1/2\<rfloor> / 100"

text \<open>The rates since the last counters, never negative, and the counters to remember.\<close>

definition counter_rates :: "rat \<Rightarrow> rat \<Rightarrow> int \<Rightarrow> counter \<Rightarrow> rates \<times> counter" where
  "counter_rates rx tx t c =
     ((case (ct_rx c, ct_tx c, ct_time c) of
         (Some rx0, Some tx0, Some t0) \<Rightarrow>
           (let dt = of_int (t - t0) / 1000 :: rat
            in if dt > 0 then Some (round2 (max 0 ((rx - rx0) / dt)), round2 (max 0 ((tx - tx0) / dt))) else None)
       | _ \<Rightarrow> None),
      \<lparr>ct_rx = Some rx, ct_tx = Some tx, ct_time = Some t\<rparr>)"

definition both :: "js \<Rightarrow> string \<Rightarrow> string \<Rightarrow> (rat \<times> rat) option" where
  "both data k l = (case (to_numeric (field data k), to_numeric (field data l)) of
     (Some a, Some b) \<Rightarrow> Some (a, b) | _ \<Rightarrow> None)"

definition numeric_or :: "js \<Rightarrow> string \<Rightarrow> string \<Rightarrow> rat option" where
  "numeric_or data k l = (case to_numeric (field data k) of Some a \<Rightarrow> Some a | None \<Rightarrow> to_numeric (field data l))"

definition db_counter :: "js \<Rightarrow> rat \<Rightarrow> rat \<Rightarrow> int \<Rightarrow> nets \<Rightarrow> rates \<times> nets" where
  "db_counter i rx tx t nets =
     (let s = net_state_of i nets; (r, c) = counter_rates rx tx t (ns_db s)
      in (r, if truthy i then AList.update i (s\<lparr>ns_db := c\<rparr>) nets else nets))"

definition host_counter :: "js \<Rightarrow> rat \<Rightarrow> rat \<Rightarrow> int \<Rightarrow> nets \<Rightarrow> rates \<times> nets" where
  "host_counter i rx tx t nets =
     (let s = net_state_of i nets; (r, c) = counter_rates rx tx t (ns_host s)
      in (r, if truthy i then AList.update i (s\<lparr>ns_host := c\<rparr>) nets else nets))"

definition kilo_rates :: "rat \<times> rat \<Rightarrow> rates" where
  "kilo_rates p = Some (round2 (fst p * 1024), round2 (snd p * 1024))"

definition looks_cumulative :: "rat \<times> rat \<Rightarrow> bool" where
  "looks_cumulative p \<longleftrightarrow> fst p > 10 * 1024 * 1024 \<or> snd p > 10 * 1024 * 1024"

definition db_rates :: "js \<Rightarrow> int \<Rightarrow> js \<Rightarrow> nets \<Rightarrow> rates \<times> nets" where
  "db_rates data t i nets =
     (case both data ''network_rx_rate'' ''network_tx_rate'' of
        Some p \<Rightarrow> (Some p, reset_network i nets)
      | None \<Rightarrow>
     (case both data ''network_in'' ''network_out'' of
        Some p \<Rightarrow> (kilo_rates p, reset_network i nets)
      | None \<Rightarrow>
     (case both data ''input_kbps'' ''output_kbps'' of
        Some p \<Rightarrow> (kilo_rates p, reset_network i nets)
      | None \<Rightarrow>
     (case (numeric_or data ''bytes_received'' ''network_bytes_in'', numeric_or data ''bytes_sent'' ''network_bytes_out'') of
        (Some rx, Some tx) \<Rightarrow> db_counter i rx tx t nets
      | _ \<Rightarrow>
     (case both data ''network_rx_bytes'' ''network_tx_bytes'' of
        Some p \<Rightarrow> if looks_cumulative p then db_counter i (fst p) (snd p) t nets
                  else (kilo_rates p, reset_network i nets)
      | None \<Rightarrow> (None, reset_network i nets))))))"

definition host_rates :: "js \<Rightarrow> int \<Rightarrow> js \<Rightarrow> nets \<Rightarrow> rates \<times> nets" where
  "host_rates data t i nets =
     (case both data ''host_network_rx_bytes'' ''host_network_tx_bytes'' of
        Some p \<Rightarrow> host_counter i (fst p) (snd p) t nets
      | None \<Rightarrow>
     (case both data ''network_rx_rate'' ''network_tx_rate'' of
        Some p \<Rightarrow> (Some p, reset_network i nets)
      | None \<Rightarrow>
     (case both data ''network_rx_bytes'' ''network_tx_bytes'' of
        Some p \<Rightarrow> if looks_cumulative p then host_counter i (fst p) (snd p) t nets
                  else (kilo_rates p, reset_network i nets)
      | None \<Rightarrow> (None, reset_network i nets))))"

definition sample_rates :: "js \<Rightarrow> int \<Rightarrow> js \<Rightarrow> nets \<Rightarrow> rates \<times> rates \<times> nets" where
  "sample_rates data t i nets =
     (let (db, n1) = db_rates data t i nets; (host, n2) = host_rates data t i n1 in (db, host, n2))"

section \<open>The points of one sample\<close>

fun first_defined :: "js \<Rightarrow> string list \<Rightarrow> js" where
  "first_defined data [] = JUndef"
| "first_defined data (k # ks) = (if ks = [] then field data k else js_coalesce (field data k) (first_defined data ks))"

definition active_connections :: "js \<Rightarrow> js" where
  "active_connections data = js_coalesce (first_defined data
     [''connections_active'', ''threads_running'', ''active_connections'', ''connected_clients'', ''user_sessions'',
      ''connections_current'', ''active_sessions'']) (JInt 0)"

definition total_connections :: "js \<Rightarrow> js" where
  "total_connections data = first_defined data [''connections_total'', ''threads_connected'', ''total_connections'']"

definition queries_per_second :: "js \<Rightarrow> js" where
  "queries_per_second data = js_coalesce (first_defined data [''qps'', ''ops_per_sec'', ''batch_requests_sec'']) (JInt 0)"

definition hit_rate :: "js \<Rightarrow> js" where
  "hit_rate data = first_defined data [''buffer_pool_hit_rate'', ''cache_hit_rate'', ''hit_rate'']"

definition num_or_zero :: "js \<Rightarrow> js" where
  "num_or_zero v = JNum (if truthy (JNum (parse_float v)) then parse_float v else Fin 0)"

fun clamp100 :: "jnum \<Rightarrow> jnum" where
  "clamp100 (Fin q) = Fin (min (max q 0) 100)"
| "clamp100 PInf = Fin 100"
| "clamp100 MInf = Fin 0"
| "clamp100 NaN = Fin 0"

definition hit_point :: "js \<Rightarrow> js" where
  "hit_point data = (if nullish (hit_rate data) then JNull else JNum (clamp100 (parse_float (hit_rate data))))"

definition slow_point :: "js \<Rightarrow> js" where
  "slow_point data = js_or (field data ''slow_queries'') (js_or (field data ''deadlocks'') (JInt 0))"

definition rates_point :: "rat \<times> rat \<Rightarrow> js" where
  "rates_point p = JArr [JNum (Fin (fst p)), JNum (Fin (snd p))]"

definition os_update :: "string \<Rightarrow> string \<Rightarrow> js \<Rightarrow> (string \<times> js) list" where
  "os_update chart k data = (if field data k \<noteq> JUndef then [(chart, num_or_zero (field data k))] else [])"

definition rates_update :: "string \<Rightarrow> rates \<Rightarrow> (string \<times> js) list" where
  "rates_update chart r = (case r of Some p \<Rightarrow> [(chart, rates_point p)] | None \<Rightarrow> [])"

text \<open>The calls of \<^verbatim>\<open>ChartPanel.update\<close> for one sample, in order.\<close>

definition sample_updates :: "js \<Rightarrow> rates \<Rightarrow> rates \<Rightarrow> (string \<times> js) list" where
  "sample_updates data db host =
     [(''connections'', JArr [num_or_zero (active_connections data), num_or_zero (total_connections data)]),
      (''qps'', num_or_zero (queries_per_second data)), (''cache_hit'', hit_point data),
      (''tps'', num_or_zero (js_or (field data ''tps'') (JInt 0)))]
     @ rates_update ''network'' db @ [(''latency'', slow_point data)]
     @ os_update ''cpu_usage'' ''cpu_usage'' data @ os_update ''memory_usage'' ''memory_usage'' data
     @ os_update ''disk_usage'' ''disk_usage'' data @ os_update ''load_avg'' ''load_avg_1min'' data
     @ (if field data ''disk_reads_per_sec'' \<noteq> JUndef \<or> field data ''disk_writes_per_sec'' \<noteq> JUndef
        then [(''disk_io'', JArr [num_or_zero (field data ''disk_reads_per_sec''), num_or_zero (field data ''disk_writes_per_sec'')])]
        else [])
     @ rates_update ''network_io'' host"

fun run_updates :: "(jnum \<Rightarrow> string) \<Rightarrow> js \<Rightarrow> nat \<Rightarrow> (string \<times> js) list \<Rightarrow> panels \<Rightarrow> panels option" where
  "run_updates intl label n [] s = Some s"
| "run_updates intl label n ((i, v) # us) s =
     (case chart_update intl i label v n s of None \<Rightarrow> None | Some s' \<Rightarrow> run_updates intl label n us s')"

definition update_charts ::
  "monitor_env \<Rightarrow> js \<Rightarrow> nat \<Rightarrow> js \<Rightarrow> js \<Rightarrow> int \<Rightarrow> nets \<times> panels \<Rightarrow> (nets \<times> panels) option" where
  "update_charts env i n data label t st =
     (case sample_rates data t i (fst st) of (db, host, nets) \<Rightarrow>
        map_option (Pair nets) (run_updates (me_intl env) label n (sample_updates data db host) (snd st)))"

section \<open>A batch\<close>

definition os_column :: "string \<Rightarrow> js list \<Rightarrow> js list" where
  "os_column k datas = map (\<lambda>d. if field d k \<noteq> JUndef then num_or_zero (field d k) else JNull) datas"

definition rate_column :: "(rat \<times> rat \<Rightarrow> rat) \<Rightarrow> rates list \<Rightarrow> js list" where
  "rate_column f rs = map (\<lambda>r. case r of Some p \<Rightarrow> JNum (Fin (f p)) | None \<Rightarrow> JNull) rs"

definition filter_null :: "js list \<Rightarrow> js list \<Rightarrow> js list \<times> js list" where
  "filter_null labels vs = (let ps = filter (\<lambda>p. snd p \<noteq> JNull) (zip labels vs) in (map fst ps, map snd ps))"

definition null_to_zero :: "js \<Rightarrow> js" where
  "null_to_zero v = (if v = JNull then JInt 0 else v)"

definition filter_null_multi :: "js list \<Rightarrow> js list \<Rightarrow> js list \<Rightarrow> js list \<times> js list list" where
  "filter_null_multi labels xs ys =
     (let ps = filter (\<lambda>(l, x, y). x \<noteq> JNull \<or> y \<noteq> JNull) (zip labels (zip xs ys))
      in (map fst ps, [map (\<lambda>(l, x, y). null_to_zero x) ps, map (\<lambda>(l, x, y). null_to_zero y) ps]))"

datatype batch_call = Batch string "js list" "js list" | BatchMulti string "js list" "js list list"

definition batch_os :: "string \<Rightarrow> js list \<Rightarrow> js list \<Rightarrow> batch_call list" where
  "batch_os chart labels vs =
     (if list_ex (\<lambda>v. v \<noteq> JNull) vs then (case filter_null labels vs of (ls, xs) \<Rightarrow> [Batch chart ls xs]) else [])"

definition batch_pair :: "string \<Rightarrow> js list \<Rightarrow> js list \<Rightarrow> js list \<Rightarrow> batch_call list" where
  "batch_pair chart labels xs ys =
     (if list_ex (\<lambda>v. v \<noteq> JNull) xs \<or> list_ex (\<lambda>v. v \<noteq> JNull) ys
      then (case filter_null_multi labels xs ys of (ls, vss) \<Rightarrow> [BatchMulti chart ls vss]) else [])"

definition batch_calls :: "js list \<Rightarrow> js list \<Rightarrow> rates list \<Rightarrow> rates list \<Rightarrow> batch_call list" where
  "batch_calls labels datas dbs hosts =
     [BatchMulti ''connections'' labels [map (\<lambda>d. num_or_zero (active_connections d)) datas, map (\<lambda>d. num_or_zero (total_connections d)) datas],
      Batch ''qps'' labels (map (\<lambda>d. JNum (parse_float (queries_per_second d))) datas),
      Batch ''cache_hit'' labels (map hit_point datas),
      Batch ''tps'' labels (map (\<lambda>d. JNum (parse_float (js_or (field d ''tps'') (JInt 0)))) datas)]
     @ batch_pair ''network'' labels (rate_column fst dbs) (rate_column snd dbs)
     @ [Batch ''latency'' labels (map slow_point datas)]
     @ batch_os ''cpu_usage'' labels (os_column ''cpu_usage'' datas) @ batch_os ''memory_usage'' labels (os_column ''memory_usage'' datas)
     @ batch_os ''disk_usage'' labels (os_column ''disk_usage'' datas) @ batch_os ''load_avg'' labels (os_column ''load_avg_1min'' datas)
     @ batch_pair ''disk_io'' labels (os_column ''disk_reads_per_sec'' datas) (os_column ''disk_writes_per_sec'' datas)
     @ batch_pair ''network_io'' labels (rate_column fst hosts) (rate_column snd hosts)"

fun run_batch :: "(jnum \<Rightarrow> string) \<Rightarrow> nat \<Rightarrow> batch_call list \<Rightarrow> panels \<Rightarrow> panels option" where
  "run_batch intl n [] s = Some s"
| "run_batch intl n (Batch i ls vs # cs) s =
     (case chart_batch_update intl i ls vs n s of None \<Rightarrow> None | Some s' \<Rightarrow> run_batch intl n cs s')"
| "run_batch intl n (BatchMulti i ls vss # cs) s = run_batch intl n cs (chart_batch_update_multi intl i ls vss n s)"

text \<open>The rates of a history, in order, and what is remembered at its end. A sample is its data and its time.\<close>

fun history_rates :: "js \<Rightarrow> (js \<times> int) list \<Rightarrow> nets \<Rightarrow> rates list \<times> rates list \<times> nets" where
  "history_rates i [] nets = ([], [], nets)"
| "history_rates i ((data, t) # ss) nets =
     (case sample_rates data t i nets of (db, host, n1) \<Rightarrow>
        case history_rates i ss n1 of (dbs, hosts, n2) \<Rightarrow> (db # dbs, host # hosts, n2))"

definition batch_update_charts ::
  "monitor_env \<Rightarrow> js \<Rightarrow> nat \<Rightarrow> js list \<Rightarrow> (js \<times> int) list \<Rightarrow> nets \<times> panels \<Rightarrow> (nets \<times> panels) option" where
  "batch_update_charts env i n labels samples st =
     (case history_rates i samples (fst st) of (dbs, hosts, nets) \<Rightarrow>
        map_option (Pair nets) (run_batch (me_intl env) n (batch_calls labels (map fst samples) dbs hosts) (snd st)))"

section \<open>Laws of the rates\<close>

lemma round2_nonneg: "0 \<le> q \<Longrightarrow> 0 \<le> round2 q"
  by (simp add: round2_def)

lemma counter_rates_nonneg: "fst (counter_rates rx tx t c) = Some (a, b) \<Longrightarrow> 0 \<le> a \<and> 0 \<le> b"
  by (auto simp: counter_rates_def Let_def round2_nonneg split: option.splits if_splits)

definition counter_of :: "rat \<times> rat \<Rightarrow> int \<Rightarrow> counter" where
  "counter_of p t = \<lparr>ct_rx = Some (fst p), ct_tx = Some (snd p), ct_time = Some t\<rparr>"

lemma counter_rates_snd [simp]: "snd (counter_rates rx tx t c) = counter_of (rx, tx) t"
  by (simp add: counter_rates_def counter_of_def)

lemma counter_rates_first [simp]: "fst (counter_rates rx tx t no_counter) = None"
  by (simp add: counter_rates_def no_counter_def)

lemma net_state_update [simp]: "net_state_of i (AList.update i x nets) = x"
  by (simp add: net_state_of_def)

lemma net_state_fresh: "map_of nets i = None \<Longrightarrow> net_state_of i nets = \<lparr>ns_db = no_counter, ns_host = no_counter\<rparr>"
  by (simp add: net_state_of_def)

lemma reset_forgets: "truthy i \<Longrightarrow> map_of (reset_network i nets) i = None"
  by (simp add: reset_network_def)

text \<open>A database that reports totals only, monitored without its host.\<close>

definition counters_only :: "js \<Rightarrow> bool" where
  "counters_only data \<longleftrightarrow> both data ''network_rx_rate'' ''network_tx_rate'' = None \<and> both data ''network_in'' ''network_out'' = None
     \<and> both data ''input_kbps'' ''output_kbps'' = None \<and> both data ''network_rx_bytes'' ''network_tx_bytes'' = None
     \<and> both data ''host_network_rx_bytes'' ''host_network_tx_bytes'' = None
     \<and> numeric_or data ''bytes_received'' ''network_bytes_in'' \<noteq> None \<and> numeric_or data ''bytes_sent'' ''network_bytes_out'' \<noteq> None"

lemma counters_only_rates:
  assumes "counters_only data" and "truthy i" and "map_of nets i = None"
  shows "\<exists>n. sample_rates data t i nets = (None, None, n) \<and> map_of n i = None"
proof -
  obtain rx tx where r: "numeric_or data ''bytes_received'' ''network_bytes_in'' = Some rx"
      "numeric_or data ''bytes_sent'' ''network_bytes_out'' = Some tx"
    using assms(1) by (auto simp: counters_only_def)
  then have "sample_rates data t i nets = (None, None, reset_network i (snd (db_counter i rx tx t nets)))"
    using assms(1) by (simp add: counters_only_def sample_rates_def db_rates_def host_rates_def db_counter_def
        net_state_fresh [OF assms(3)] case_prod_unfold Let_def)
  then show ?thesis using reset_forgets [OF assms(2)] by blast
qed

lemma counters_only_history:
  assumes "truthy i" and "map_of nets i = None" and "list_all (\<lambda>s. counters_only (fst s)) samples"
  shows "fst (history_rates i samples nets) = replicate (length samples) None"
  using assms(2,3)
proof (induction samples arbitrary: nets)
  case (Cons s ss)
  obtain data t where s: "s = (data, t)" by (cases s)
  have "counters_only data" using Cons.prems(2) s by simp
  from counters_only_rates [OF this assms(1) Cons.prems(1)]
  obtain n where n: "sample_rates data t i nets = (None, None, n)" "map_of n i = None" by blast
  from Cons.IH [OF n(2)] Cons.prems(2) n(1) s show ?case by (simp add: case_prod_unfold)
qed simp

text \<open>A database that reports its rates, on a host that reports totals.\<close>

definition rates_with_host :: "js \<Rightarrow> bool" where
  "rates_with_host data \<longleftrightarrow> both data ''network_rx_rate'' ''network_tx_rate'' \<noteq> None
     \<and> both data ''host_network_rx_bytes'' ''host_network_tx_bytes'' \<noteq> None"

lemma rates_with_host_history:
  assumes "truthy i" and "list_all (\<lambda>s. rates_with_host (fst s)) samples"
  shows "fst (snd (history_rates i samples nets)) = replicate (length samples) None"
  using assms(2)
proof (induction samples arbitrary: nets)
  case (Cons s ss)
  obtain data t where s: "s = (data, t)" by (cases s)
  with Cons.prems have "rates_with_host data" by simp
  then obtain p h where p: "both data ''network_rx_rate'' ''network_tx_rate'' = Some p"
      "both data ''host_network_rx_bytes'' ''host_network_tx_bytes'' = Some h"
    by (auto simp: rates_with_host_def)
  then have "fst (snd (sample_rates data t i nets)) = None"
    by (simp add: sample_rates_def db_rates_def host_rates_def host_counter_def case_prod_unfold Let_def
        net_state_fresh [OF reset_forgets [OF assms(1)]])
  then show ?case using Cons s by (simp add: case_prod_unfold)
qed simp

text \<open>
  Two sources of traffic silence each other: a database whose own totals are monitored without its host never
  yields a rate, and a host's totals never yield one while its database reports rates directly, in no sample of
  any history, because every look at one source forgets the totals the rates of the other are computed from.
\<close>

theorem traffic_sources_interfere:
  assumes "truthy i" and "map_of nets i = None"
  shows "(list_all (\<lambda>s. counters_only (fst s)) samples \<longrightarrow> fst (history_rates i samples nets) = replicate (length samples) None)
    \<and> (list_all (\<lambda>s. rates_with_host (fst s)) samples \<longrightarrow> fst (snd (history_rates i samples nets)) = replicate (length samples) None)"
  using counters_only_history [OF assms] rates_with_host_history [OF assms(1)] by blast

definition demo_sample :: "int \<Rightarrow> js" where
  "demo_sample b = JObj [(''bytes_received'', JInt b), (''bytes_sent'', JInt b)]"

definition demo_rates :: "int \<Rightarrow> js" where
  "demo_rates b = JObj [(''network_rx_rate'', JInt 10), (''network_tx_rate'', JInt 10),
     (''host_network_rx_bytes'', JInt b), (''host_network_tx_bytes'', JInt b)]"

theorem traffic_sources_interfere_witness:
  "fst (history_rates (JInt 1) [(demo_sample 1000, 0), (demo_sample 9000, 15000)] []) = [None, None]
 \<and> fst (snd (history_rates (JInt 1) [(demo_rates 1000, 0), (demo_rates 9000, 15000)] [])) = [None, None]"
proof -
  have "counters_only (demo_sample b)" for b
    by (simp add: counters_only_def demo_sample_def both_def numeric_or_def to_numeric_def nullish_def)
  moreover have "rates_with_host (demo_rates b)" for b
    by (simp add: rates_with_host_def demo_rates_def both_def to_numeric_def nullish_def)
  ultimately show ?thesis
    using traffic_sources_interfere [of "JInt 1" "[]" "[(demo_sample 1000, 0), (demo_sample 9000, 15000)]"]
      traffic_sources_interfere [of "JInt 1" "[]" "[(demo_rates 1000, 0), (demo_rates 9000, 15000)]"]
    by (simp del: history_rates.simps)
qed

text \<open>A sample with the counters of the database and of its host.\<close>

definition counted :: "js \<Rightarrow> rat \<times> rat \<Rightarrow> rat \<times> rat \<Rightarrow> bool" where
  "counted data db host \<longleftrightarrow> both data ''network_rx_rate'' ''network_tx_rate'' = None \<and> both data ''network_in'' ''network_out'' = None
     \<and> both data ''input_kbps'' ''output_kbps'' = None
     \<and> numeric_or data ''bytes_received'' ''network_bytes_in'' = Some (fst db)
     \<and> numeric_or data ''bytes_sent'' ''network_bytes_out'' = Some (snd db)
     \<and> both data ''host_network_rx_bytes'' ''host_network_tx_bytes'' = Some host"

lemma counted_rates:
  assumes "counted data db host" and "truthy i"
  shows "sample_rates data t i nets =
    (fst (counter_rates (fst db) (snd db) t (ns_db (net_state_of i nets))),
     fst (counter_rates (fst host) (snd host) t (ns_host (net_state_of i nets))),
     snd (snd (sample_rates data t i nets)))
   \<and> net_state_of i (snd (snd (sample_rates data t i nets))) = \<lparr>ns_db = counter_of db t, ns_host = counter_of host t\<rparr>"
  using assms
  by (simp add: counted_def sample_rates_def db_rates_def host_rates_def db_counter_def host_counter_def
      Let_def case_prod_unfold)

definition traffic :: "(rat \<times> rat) \<times> int \<Rightarrow> (rat \<times> rat) \<times> int \<Rightarrow> rates" where
  "traffic a b = (if snd a < snd b
     then Some (round2 (max 0 ((fst (fst b) - fst (fst a)) * 1000 / of_int (snd b - snd a))),
                round2 (max 0 ((snd (fst b) - snd (fst a)) * 1000 / of_int (snd b - snd a)))) else None)"

lemma counter_rates_traffic: "fst (counter_rates (fst p) (snd p) t (counter_of q t0)) = traffic (q, t0) (p, t)"
  by (simp add: counter_rates_def counter_of_def traffic_def Let_def field_simps)

lemma history_counted:
  assumes "truthy i" and "list_all (\<lambda>(data, t, db, host). counted data db host) ss"
    and "net_state_of i nets = \<lparr>ns_db = counter_of db0 t0, ns_host = counter_of host0 t0\<rparr>"
  shows "fst (history_rates i (map (\<lambda>(data, t, db, host). (data, t)) ss) nets)
      = map2 traffic ((db0, t0) # map (\<lambda>(data, t, db, host). (db, t)) ss) (map (\<lambda>(data, t, db, host). (db, t)) ss)
    \<and> fst (snd (history_rates i (map (\<lambda>(data, t, db, host). (data, t)) ss) nets))
      = map2 traffic ((host0, t0) # map (\<lambda>(data, t, db, host). (host, t)) ss) (map (\<lambda>(data, t, db, host). (host, t)) ss)"
  using assms(2,3)
proof (induction ss arbitrary: nets db0 host0 t0)
  case (Cons s ss)
  obtain data t db host where s: "s = (data, t, db, host)" by (cases s) auto
  with Cons.prems(1) have c: "counted data db host" by simp
  note r = counted_rates [OF c assms(1), of t nets]
  from Cons.IH [OF _ conjunct2 [OF r]] Cons.prems(1) r Cons.prems(2) s show ?case
    by (auto simp: counter_rates_traffic split: prod.splits)
qed simp

text \<open>
  With the host's counters present the rates are right: in every history of samples with both pairs of
  counters the first sample has no rate, and each later one has the growth of its counters per second since the
  sample before, rounded to cents and never negative, for the database and for the host.
\<close>

theorem rates_from_counters:
  assumes "truthy i" and "net_state_of i nets = \<lparr>ns_db = no_counter, ns_host = no_counter\<rparr>"
    and "list_all (\<lambda>(data, t, db, host). counted data db host) (s # ss)"
  shows "let samples = map (\<lambda>(data, t, db, host). (data, t)) (s # ss);
             dbs = map (\<lambda>(data, t, db, host). (db, t)) (s # ss); hosts = map (\<lambda>(data, t, db, host). (host, t)) (s # ss) in
      fst (history_rates i samples nets) = None # map2 traffic dbs (tl dbs)
    \<and> fst (snd (history_rates i samples nets)) = None # map2 traffic hosts (tl hosts)"
proof -
  obtain data t db host where s: "s = (data, t, db, host)" by (cases s) auto
  with assms(3) have c: "counted data db host" by simp
  note r = counted_rates [OF c assms(1), of t nets]
  have l: "list_all (\<lambda>(data, t, db, host). counted data db host) ss" using assms(3) by simp
  from history_counted [OF assms(1) l conjunct2 [OF r]] r assms(2) s show ?thesis
    by (auto simp: Let_def split: prod.splits)
qed

theorem rates_from_counters_witness:
  "fst (history_rates (JInt 1)
     [(JObj [(''bytes_received'', JInt 1000), (''bytes_sent'', JInt 0), (''host_network_rx_bytes'', JInt 5), (''host_network_tx_bytes'', JInt 5)], 0),
      (JObj [(''bytes_received'', JInt 4000), (''bytes_sent'', JInt 2000), (''host_network_rx_bytes'', JInt 5), (''host_network_tx_bytes'', JInt 5)], 2000)] [])
   = [None, Some (1500, 1000)]"
proof -
  have c: "counted (JObj [(''bytes_received'', JInt a), (''bytes_sent'', JInt b), (''host_network_rx_bytes'', JInt 5), (''host_network_tx_bytes'', JInt 5)])
      (of_int a, of_int b) (5, 5)" for a b
    by (simp add: counted_def both_def numeric_or_def to_numeric_def nullish_def)
  have r: "traffic ((1000, 0), 0) ((4000, 2000), 2000) = Some (1500, 1000)" by (simp add: traffic_def round2_def floor_eq_iff)
  show ?thesis
    using rates_from_counters [of "JInt 1" "[]"
       "(JObj [(''bytes_received'', JInt 1000), (''bytes_sent'', JInt 0), (''host_network_rx_bytes'', JInt 5), (''host_network_tx_bytes'', JInt 5)], 0, (1000, 0), (5, 5))"
       "[(JObj [(''bytes_received'', JInt 4000), (''bytes_sent'', JInt 2000), (''host_network_rx_bytes'', JInt 5), (''host_network_tx_bytes'', JInt 5)], 2000, (4000, 2000), (5, 5))]"]
      c [of 1000 0] c [of 4000 2000] r by (simp add: Let_def net_state_of_def del: history_rates.simps)
qed

end
