(* ===== verification/MonitorBatch.thy ===== *)
theory MonitorBatch
  imports MonitorMetrics
begin

text \<open>
  \<^verbatim>\<open>frontend/js/pages/monitor.js\<close>: loading a history in one batch draws what the same samples would have drawn one
  by one. Every chart is followed on its own: the calls for a chart are the points of the samples that have one.
\<close>

section \<open>One chart under many calls\<close>

fun push_points :: "nat \<Rightarrow> (js \<times> js) list \<Rightarrow> chart \<Rightarrow> chart option" where
  "push_points n [] c = Some c"
| "push_points n ((l, v) # ps) c = (case push_point n l v c of Some c' \<Rightarrow> push_points n ps c' | None \<Rightarrow> None)"

lemma push_points_append:
  "push_points n (ps @ qs) c = (case push_points n ps c of Some c' \<Rightarrow> push_points n qs c' | None \<Rightarrow> None)"
  by (induction ps arbitrary: c) (auto split: option.splits)

definition points_of :: "string \<Rightarrow> js \<Rightarrow> (string \<times> js) list \<Rightarrow> (js \<times> js) list" where
  "points_of i label us = map (\<lambda>u. (label, snd u)) (filter (\<lambda>u. fst u = i) us)"

lemma show_value_charts [simp]: "pn_charts (show_value i t s) = pn_charts s"
  by (simp add: show_value_def)

definition data_ready :: "panels \<Rightarrow> bool" where
  "data_ready s \<longleftrightarrow> (\<forall>i c. map_of (pn_charts s) i = Some c \<longrightarrow> ch_data c \<noteq> [])"

lemma push_values_Nil [simp]: "push_values vs ds = [] \<longleftrightarrow> ds = []"
  by (cases vs; cases ds) auto

lemma push_point_some: "ch_data c \<noteq> [] \<Longrightarrow> \<exists>c'. push_point n l v c = Some c' \<and> ch_data c' \<noteq> []"
  by (cases "ch_data c"; cases v) (auto simp: push_point_def Let_def)

lemma chart_update_step:
  assumes "data_ready s"
  obtains s' where "chart_update intl i l v n s = Some s'" and "data_ready s'"
    and "\<And>j. map_of (pn_charts s') j = (if j = i then (case map_of (pn_charts s) i of None \<Rightarrow> None | Some c \<Rightarrow> push_point n l v c)
                                        else map_of (pn_charts s) j)"
proof (cases "map_of (pn_charts s) i")
  case None
  show ?thesis
  proof (rule that [of s])
    show "chart_update intl i l v n s = Some s" using None by (simp add: chart_update_def)
  qed (use assms None in simp_all)
next
  case (Some c)
  with assms obtain c' where c': "push_point n l v c = Some c'" "ch_data c' \<noteq> []"
    using push_point_some unfolding data_ready_def by blast
  let ?s = "show_value i (shown_value intl c v) (s\<lparr>pn_charts := AList.update i c' (pn_charts s)\<rparr>)"
  show ?thesis
  proof (rule that [of ?s])
    show "chart_update intl i l v n s = Some ?s" using Some c' by (simp add: chart_update_def)
    show "data_ready ?s" using assms c' by (auto simp: data_ready_def update_conv' split: if_splits)
    fix j show "map_of (pn_charts ?s) j = (if j = i then (case map_of (pn_charts s) i of None \<Rightarrow> None | Some c \<Rightarrow> push_point n l v c)
                                        else map_of (pn_charts s) j)"
      using Some c' by (simp add: update_conv')
  qed
qed

lemma run_updates_chart:
  assumes "data_ready s"
  shows "\<exists>s'. run_updates intl l n us s = Some s' \<and> data_ready s'
    \<and> (\<forall>i. map_of (pn_charts s') i = Option.bind (map_of (pn_charts s) i) (push_points n (points_of i l us)))"
  using assms
proof (induction us arbitrary: s)
  case Nil
  have "Option.bind x (push_points n []) = x" for x by (cases x) auto
  with Nil show ?case by (simp add: points_of_def)
next
  case (Cons u us)
  obtain k v where u: "u = (k, v)" by (cases u)
  obtain s1 where s1: "chart_update intl k l v n s = Some s1" "data_ready s1"
    "\<And>j. map_of (pn_charts s1) j = (if j = k then (case map_of (pn_charts s) k of None \<Rightarrow> None | Some c \<Rightarrow> push_point n l v c)
                                     else map_of (pn_charts s) j)"
    using chart_update_step [OF Cons.prems] by blast
  from Cons.IH [OF s1(2)] obtain s' where s': "run_updates intl l n us s1 = Some s'" "data_ready s'"
    "\<And>i. map_of (pn_charts s') i = Option.bind (map_of (pn_charts s1) i) (push_points n (points_of i l us))" by blast
  have "map_of (pn_charts s') i = Option.bind (map_of (pn_charts s) i) (push_points n (points_of i l (u # us)))" for i
    by (cases "map_of (pn_charts s) i") (auto simp: s'(3) s1(3) u points_of_def split: option.splits)
  with s' s1(1) u show ?case by simp
qed

section \<open>The samples one by one\<close>

text \<open>A sample with its label and its rates.\<close>

type_synonym row = "js \<times> js \<times> rates \<times> rates"

definition row_updates :: "row \<Rightarrow> (string \<times> js) list" where
  "row_updates r = (case r of (label, data, db, host) \<Rightarrow> sample_updates data db host)"

definition chart_points :: "string \<Rightarrow> row list \<Rightarrow> (js \<times> js) list" where
  "chart_points i rows = concat (map (\<lambda>r. points_of i (fst r) (row_updates r)) rows)"

fun live_charts ::
  "monitor_env \<Rightarrow> js \<Rightarrow> nat \<Rightarrow> (js \<times> js \<times> int) list \<Rightarrow> nets \<times> panels \<Rightarrow> (nets \<times> panels) option" where
  "live_charts env i n [] st = Some st"
| "live_charts env i n ((label, data, t) # ss) st =
     (case update_charts env i n data label t st of None \<Rightarrow> None | Some st' \<Rightarrow> live_charts env i n ss st')"

fun rows_of :: "js list \<Rightarrow> js list \<Rightarrow> rates list \<Rightarrow> rates list \<Rightarrow> row list" where
  "rows_of (l # ls) (d # ds) (a # as) (b # bs) = (l, d, a, b) # rows_of ls ds as bs"
| "rows_of _ _ _ _ = []"

lemma live_chart:
  assumes "data_ready s"
  shows "\<exists>s'. live_charts env i n ss (nets, s) = Some (snd (snd (history_rates i (map snd ss) nets)), s') \<and> data_ready s'
    \<and> (\<forall>k. map_of (pn_charts s') k = Option.bind (map_of (pn_charts s) k) (push_points n (chart_points k
          (rows_of (map fst ss) (map (\<lambda>a. fst (snd a)) ss) (fst (history_rates i (map snd ss) nets))
             (fst (snd (history_rates i (map snd ss) nets)))))))"
  using assms
proof (induction ss arbitrary: nets s)
  case Nil
  have "Option.bind x (push_points n []) = x" for x by (cases x) auto
  with Nil show ?case by (simp add: chart_points_def)
next
  case (Cons u ss)
  obtain l d t where u: "u = (l, d, t)" by (cases u) auto
  obtain db host n1 where r: "sample_rates d t i nets = (db, host, n1)" by (cases "sample_rates d t i nets") auto
  from run_updates_chart [OF Cons.prems] obtain s1 where s1:
    "run_updates (me_intl env) l n (sample_updates d db host) s = Some s1" "data_ready s1"
    "\<And>k. map_of (pn_charts s1) k = Option.bind (map_of (pn_charts s) k) (push_points n (points_of k l (sample_updates d db host)))"
    by blast
  obtain as bs n2 where h: "history_rates i (map snd ss) n1 = (as, bs, n2)" by (cases "history_rates i (map snd ss) n1") auto
  from Cons.IH [OF s1(2), of n1] h obtain s' where s': "live_charts env i n ss (n1, s1) = Some (n2, s')" "data_ready s'"
    "\<And>k. map_of (pn_charts s') k = Option.bind (map_of (pn_charts s1) k)
        (push_points n (chart_points k (rows_of (map fst ss) (map (\<lambda>a. fst (snd a)) ss) as bs)))" by auto
  have "map_of (pn_charts s') k = Option.bind (map_of (pn_charts s) k)
     (push_points n (chart_points k ((l, d, db, host) # rows_of (map fst ss) (map (\<lambda>a. fst (snd a)) ss) as bs)))" for k
    unfolding s'(3) s1(3)
    by (cases "map_of (pn_charts s) k") (simp_all add: chart_points_def row_updates_def push_points_append bind_split split: option.splits)
  then show ?case using s' s1(1) r h u by (simp add: update_charts_def)
qed

section \<open>Windows\<close>

fun arr_list :: "js \<Rightarrow> js list" where
  "arr_list (JArr xs) = xs"
| "arr_list _ = []"

lemma slice_window: "0 < n \<Longrightarrow> slice_last n xs = window n xs"
  by (simp add: slice_last_def window_def)

lemma push_pairs:
  assumes "ch_labels c = []" and "ch_data c = [[], []]" and "list_all (\<lambda>p. \<exists>x y. snd p = JArr [x, y]) ps"
  shows "push_points n ps c = Some (c\<lparr>ch_labels := window n (map fst ps),
     ch_data := [window n (map (\<lambda>p. arr_list (snd p) ! 0) ps), window n (map (\<lambda>p. arr_list (snd p) ! 1) ps)]\<rparr>)"
  using assms(3)
proof (induction ps rule: rev_induct)
  case Nil
  show ?case using assms(1,2) by (cases c) (simp add: window_def)
next
  case (snoc p ps)
  then obtain l x y where p: "p = (l, JArr [x, y])" by (cases p) auto
  have len: "length (window n (map f ps)) = length (window n (map g ps))" for f :: "js \<times> js \<Rightarrow> js" and g :: "js \<times> js \<Rightarrow> js"
    by (simp add: window_def)
  from snoc show ?case
    using len [of fst "\<lambda>p. arr_list (snd p) ! 0"] len [of fst "\<lambda>p. arr_list (snd p) ! 1"]
    by (simp add: push_points_append p push_point_def Let_def window_snoc)
qed

lemma push_scalars:
  assumes "ch_labels c = []" and "ch_data c = [[]]" and "list_all (\<lambda>p. \<not> is_arr (snd p)) ps"
  shows "push_points n ps c = Some (c\<lparr>ch_labels := window n (map fst ps), ch_data := [window n (map snd ps)]\<rparr>)"
  using assms(3)
proof (induction ps rule: rev_induct)
  case Nil
  show ?case using assms(1,2) by (cases c) (simp add: window_def)
next
  case (snoc p ps)
  obtain l v where p: "p = (l, v)" by (cases p)
  have na: "\<not> is_arr v" using snoc.prems p by simp
  have len: "length (window n (map fst ps)) = length (window n (map snd ps))" by (simp add: window_def)
  from snoc na show ?case using len
    by (cases v) (simp_all add: push_points_append p push_point_def Let_def window_snoc)
qed

section \<open>The batch, chart by chart\<close>

fun call_chart :: "batch_call \<Rightarrow> string" where
  "call_chart (Batch i ls vs) = i"
| "call_chart (BatchMulti i ls vss) = i"

fun call_effect :: "nat \<Rightarrow> batch_call \<Rightarrow> chart \<Rightarrow> chart" where
  "call_effect n (Batch i ls vs) c = c\<lparr>ch_labels := slice_last n ls, ch_data := slice_last n vs # tl (ch_data c)\<rparr>"
| "call_effect n (BatchMulti i ls vss) c = c\<lparr>ch_labels := slice_last n ls, ch_data := replace_data n vss (ch_data c)\<rparr>"

lemma replace_data_Nil [simp]: "replace_data n vss ds = [] \<longleftrightarrow> ds = []"
  by (cases vss; cases ds) auto

lemma batch_step:
  assumes "data_ready s"
  shows "\<exists>s'. run_batch intl n [call] s = Some s' \<and> data_ready s'
    \<and> (\<forall>j. map_of (pn_charts s') j = (if j = call_chart call then map_option (call_effect n call) (map_of (pn_charts s) j)
                                    else map_of (pn_charts s) j))"
proof (cases "map_of (pn_charts s) (call_chart call)")
  case None
  then show ?thesis using assms
    by (cases call) (auto simp: chart_batch_update_def chart_batch_update_multi_def)
next
  case (Some c)
  with assms have d: "ch_data c \<noteq> []" by (auto simp: data_ready_def)
  show ?thesis
  proof (cases call)
    case (Batch i ls vs)
    with Some d obtain x xs where x: "ch_data c = x # xs" by (cases "ch_data c") auto
    show ?thesis using Some x assms Batch
      by (auto simp: chart_batch_update_def Let_def update_conv' data_ready_def)
  next
    case (BatchMulti i ls vss)
    show ?thesis using Some d assms BatchMulti
      by (auto simp: chart_batch_update_multi_def Let_def update_conv' data_ready_def)
  qed
qed

lemma run_batch_Cons:
  "run_batch intl n (call # cs) s = (case run_batch intl n [call] s of None \<Rightarrow> None | Some s' \<Rightarrow> run_batch intl n cs s')"
  by (cases call) (auto split: option.splits)

lemma run_batch_chart:
  assumes "data_ready s" and "distinct (map call_chart calls)"
  shows "\<exists>s'. run_batch intl n calls s = Some s' \<and> data_ready s'
    \<and> (\<forall>j. map_of (pn_charts s') j = (case find (\<lambda>k. call_chart k = j) calls of
          Some k \<Rightarrow> map_option (call_effect n k) (map_of (pn_charts s) j) | None \<Rightarrow> map_of (pn_charts s) j))"
  using assms
proof (induction calls arbitrary: s)
  case (Cons k ks)
  from batch_step [OF Cons.prems(1)] obtain s1 where s1: "run_batch intl n [k] s = Some s1" "data_ready s1"
    "\<And>j. map_of (pn_charts s1) j = (if j = call_chart k then map_option (call_effect n k) (map_of (pn_charts s) j)
                                    else map_of (pn_charts s) j)" by blast
  have "distinct (map call_chart ks)" using Cons.prems(2) by simp
  from Cons.IH [OF s1(2) this] obtain s' where s': "run_batch intl n ks s1 = Some s'" "data_ready s'"
    "\<And>j. map_of (pn_charts s') j = (case find (\<lambda>k. call_chart k = j) ks of
          Some k \<Rightarrow> map_option (call_effect n k) (map_of (pn_charts s1) j) | None \<Rightarrow> map_of (pn_charts s1) j)" by blast
  have "call_chart k \<notin> call_chart ` set ks" using Cons.prems(2) by simp
  then have n: "find (\<lambda>m. call_chart m = call_chart k) ks = None" unfolding find_None_iff by (metis imageI)
  have "map_of (pn_charts s') j = (case find (\<lambda>k. call_chart k = j) (k # ks) of
          Some k \<Rightarrow> map_option (call_effect n k) (map_of (pn_charts s) j) | None \<Rightarrow> map_of (pn_charts s) j)" for j
  proof (cases "j = call_chart k")
    case True
    show ?thesis unfolding s'(3) s1(3) True n by simp
  next
    case False
    show ?thesis unfolding s'(3) s1(3) using False by simp
  qed
  moreover have "run_batch intl n (k # ks) s = Some s'"
    unfolding run_batch_Cons [of intl n k ks] s1(1) option.case by (rule s'(1))
  ultimately show ?case using s'(2) by blast
qed simp

section \<open>Points of a chart\<close>

definition pick :: "(row \<Rightarrow> js option) \<Rightarrow> row list \<Rightarrow> (js \<times> js) list" where
  "pick f rows = concat (map (\<lambda>r. case f r of Some v \<Rightarrow> [(fst r, v)] | None \<Rightarrow> []) rows)"

abbreviation row_data :: "row \<Rightarrow> js" where "row_data r \<equiv> fst (snd r)"
abbreviation row_db :: "row \<Rightarrow> rates" where "row_db r \<equiv> fst (snd (snd r))"
abbreviation row_host :: "row \<Rightarrow> rates" where "row_host r \<equiv> snd (snd (snd r))"

definition os_point :: "string \<Rightarrow> row \<Rightarrow> js option" where
  "os_point k r = (if field (row_data r) k \<noteq> JUndef then Some (num_or_zero (field (row_data r) k)) else None)"

definition disk_point :: "row \<Rightarrow> js option" where
  "disk_point r = (if field (row_data r) ''disk_reads_per_sec'' \<noteq> JUndef \<or> field (row_data r) ''disk_writes_per_sec'' \<noteq> JUndef
     then Some (JArr [num_or_zero (field (row_data r) ''disk_reads_per_sec''), num_or_zero (field (row_data r) ''disk_writes_per_sec'')])
     else None)"

lemma points_of_segments:
  "points_of i l (xs @ ys) = points_of i l xs @ points_of i l ys"
  "points_of i l [] = []"
  "points_of i l ((k, v) # xs) = (if k = i then (l, v) # points_of i l xs else points_of i l xs)"
  "points_of i l (if b then [(k, v)] else []) = (if k = i \<and> b then [(l, v)] else [])"
  "points_of i l (os_update c k d) = (if c = i \<and> field d k \<noteq> JUndef then [(l, num_or_zero (field d k))] else [])"
  "points_of i l (rates_update c r) = (if c = i then (case r of Some p \<Rightarrow> [(l, rates_point p)] | None \<Rightarrow> []) else [])"
  by (simp_all add: points_of_def os_update_def rates_update_def split: option.splits)

lemma case_if_Some: "(case (if b then Some x else None) of None \<Rightarrow> y | Some v \<Rightarrow> f v) = (if b then f x else y)"
  by simp

lemma chart_points_pick:
  "chart_points ''connections'' rows = pick (\<lambda>r. Some (JArr [num_or_zero (active_connections (row_data r)), num_or_zero (total_connections (row_data r))])) rows"
  "chart_points ''qps'' rows = pick (\<lambda>r. Some (num_or_zero (queries_per_second (row_data r)))) rows"
  "chart_points ''cache_hit'' rows = pick (\<lambda>r. Some (hit_point (row_data r))) rows"
  "chart_points ''tps'' rows = pick (\<lambda>r. Some (num_or_zero (js_or (field (row_data r) ''tps'') (JInt 0)))) rows"
  "chart_points ''network'' rows = pick (\<lambda>r. map_option rates_point (row_db r)) rows"
  "chart_points ''latency'' rows = pick (\<lambda>r. Some (slow_point (row_data r))) rows"
  "chart_points ''cpu_usage'' rows = pick (os_point ''cpu_usage'') rows"
  "chart_points ''memory_usage'' rows = pick (os_point ''memory_usage'') rows"
  "chart_points ''disk_usage'' rows = pick (os_point ''disk_usage'') rows"
  "chart_points ''load_avg'' rows = pick (os_point ''load_avg_1min'') rows"
  "chart_points ''disk_io'' rows = pick disk_point rows"
  "chart_points ''network_io'' rows = pick (\<lambda>r. map_option rates_point (row_host r)) rows"
  by (simp_all add: chart_points_def pick_def row_updates_def sample_updates_def points_of_segments case_prod_unfold
      os_point_def disk_point_def case_if_Some cong: option.case_cong)

lemma pick_total: "pick (\<lambda>r. Some (g r)) rows = map (\<lambda>r. (fst r, g r)) rows"
  by (induction rows) (simp_all add: pick_def)

lemma pick_Cons: "pick f (r # rows) = (case f r of Some v \<Rightarrow> [(fst r, v)] | None \<Rightarrow> []) @ pick f rows"
  by (simp add: pick_def)

lemma pick_Nil [simp]: "pick f [] = []"
  by (simp add: pick_def)

lemma batch_os_pick:
  assumes "\<And>r. f r \<noteq> Some JNull" and "vs = map (\<lambda>r. case f r of Some v \<Rightarrow> v | None \<Rightarrow> JNull) rows"
  shows "batch_os c (map fst rows) vs = (if pick f rows = [] then [] else [Batch c (map fst (pick f rows)) (map snd (pick f rows))])"
proof -
  have "list_ex (\<lambda>v. v \<noteq> JNull) (map (\<lambda>r. case f r of Some v \<Rightarrow> v | None \<Rightarrow> JNull) rows) \<longleftrightarrow> pick f rows \<noteq> []"
    using assms(1) by (induction rows) (auto simp: pick_Cons split: option.splits)
  moreover have "filter (\<lambda>p. snd p \<noteq> JNull) (zip (map fst rows) (map (\<lambda>r. case f r of Some v \<Rightarrow> v | None \<Rightarrow> JNull) rows)) = pick f rows"
    using assms(1) by (induction rows) (auto simp: pick_Cons split: option.splits)
  ultimately show ?thesis by (auto simp: batch_os_def filter_null_def assms(2) Let_def)
qed

lemma batch_pair_pick:
  assumes "\<And>r. r \<in> set rows \<Longrightarrow> (case f r of None \<Rightarrow> g r = JNull \<and> h r = JNull
      | Some v \<Rightarrow> (g r \<noteq> JNull \<or> h r \<noteq> JNull) \<and> v = JArr [null_to_zero (g r), null_to_zero (h r)])"
  shows "batch_pair c (map fst rows) (map g rows) (map h rows)
    = (if pick f rows = [] then [] else [BatchMulti c (map fst (pick f rows))
         [map (\<lambda>p. arr_list (snd p) ! 0) (pick f rows), map (\<lambda>p. arr_list (snd p) ! 1) (pick f rows)]])"
proof -
  have "list_ex (\<lambda>v. v \<noteq> JNull) (map g rows) \<or> list_ex (\<lambda>v. v \<noteq> JNull) (map h rows) \<longleftrightarrow> pick f rows \<noteq> []"
    using assms by (induction rows) (force simp: pick_Cons split: option.splits)+
  moreover have "map fst (filter (\<lambda>(l, x, y). x \<noteq> JNull \<or> y \<noteq> JNull) (zip (map fst rows) (zip (map g rows) (map h rows)))) = map fst (pick f rows)
    \<and> map (\<lambda>(l, x, y). null_to_zero x) (filter (\<lambda>(l, x, y). x \<noteq> JNull \<or> y \<noteq> JNull) (zip (map fst rows) (zip (map g rows) (map h rows)))) = map (\<lambda>p. arr_list (snd p) ! 0) (pick f rows)
    \<and> map (\<lambda>(l, x, y). null_to_zero y) (filter (\<lambda>(l, x, y). x \<noteq> JNull \<or> y \<noteq> JNull) (zip (map fst rows) (zip (map g rows) (map h rows)))) = map (\<lambda>p. arr_list (snd p) ! 1) (pick f rows)"
    using assms
  proof (induction rows)
    case (Cons r rows)
    have "\<And>r. r \<in> set rows \<Longrightarrow> (case f r of None \<Rightarrow> g r = JNull \<and> h r = JNull
      | Some v \<Rightarrow> (g r \<noteq> JNull \<or> h r \<noteq> JNull) \<and> v = JArr [null_to_zero (g r), null_to_zero (h r)])"
      by (rule Cons.prems) simp
    note IH = Cons.IH [OF this]
    show ?case
      using IH Cons.prems [of r] by (cases "f r") (simp_all add: pick_Cons)
  qed simp
  ultimately show ?thesis by (simp add: batch_pair_def filter_null_multi_def Let_def)
qed

lemma os_column_pick: "os_column k (map row_data rows) = map (\<lambda>r. case os_point k r of Some v \<Rightarrow> v | None \<Rightarrow> JNull) rows"
  by (simp add: os_column_def os_point_def)

lemma os_point_not_null: "os_point k r \<noteq> Some JNull"
  by (simp add: os_point_def num_or_zero_def)

lemma num_or_zero_undef: "num_or_zero JUndef = JInt 0"
  by (simp add: num_or_zero_def parse_float_str_def scan_decimal_def Let_def starts_with_def char_class_defs)

section \<open>The batch as a table of charts\<close>

definition pair_charts :: "string list" where
  "pair_charts = [''connections'', ''network'', ''disk_io'', ''network_io'']"

text \<open>The charts in the order of the batch; the flag marks those drawn even without a point.\<close>

definition chart_table :: "(string \<times> bool) list" where
  "chart_table = [(''connections'', True), (''qps'', True), (''cache_hit'', True), (''tps'', True), (''network'', False),
     (''latency'', True), (''cpu_usage'', False), (''memory_usage'', False), (''disk_usage'', False), (''load_avg'', False),
     (''disk_io'', False), (''network_io'', False)]"

definition call_of :: "string \<Rightarrow> (js \<times> js) list \<Rightarrow> batch_call" where
  "call_of i ps = (if i \<in> set pair_charts
     then BatchMulti i (map fst ps) [map (\<lambda>p. arr_list (snd p) ! 0) ps, map (\<lambda>p. arr_list (snd p) ! 1) ps]
     else Batch i (map fst ps) (map snd ps))"

definition segment :: "row list \<Rightarrow> string \<times> bool \<Rightarrow> batch_call list" where
  "segment rows e = (if \<not> snd e \<and> chart_points (fst e) rows = [] then [] else [call_of (fst e) (chart_points (fst e) rows)])"

lemma call_of_chart [simp]: "call_chart (call_of i ps) = i"
  by (simp add: call_of_def)

lemma segment_chart: "k \<in> set (segment rows e) \<Longrightarrow> call_chart k = fst e"
  by (auto simp: segment_def split: if_splits)

lemma segment_cases:
  obtains (none) "segment rows e = []" | (one) "segment rows e = [call_of (fst e) (chart_points (fst e) rows)]"
  by (cases "segment rows e = []") (auto simp: segment_def split: if_splits)

lemma segments_chart: "k \<in> set (concat (map (segment rows) es)) \<Longrightarrow> call_chart k \<in> fst ` set es"
  using segment_chart [of k rows] by (auto intro: rev_image_eqI)

lemma distinct_segments: "distinct (map fst es) \<Longrightarrow> distinct (map call_chart (concat (map (segment rows) es)))"
proof (induction es)
  case (Cons e es)
  have "call_chart k \<noteq> fst e" if "k \<in> set (concat (map (segment rows) es))" for k
  proof
    assume "call_chart k = fst e"
    then have "fst e \<in> fst ` set es" using segments_chart [OF that] by simp
    then show False using Cons.prems by simp
  qed
  then have n: "fst e \<notin> call_chart ` set (concat (map (segment rows) es))" by (metis imageE)
  define cs where "cs = concat (map (segment rows) es)"
  have d: "distinct (map call_chart cs)" using Cons unfolding cs_def by simp
  have "concat (map (segment rows) (e # es)) = segment rows e @ cs" by (simp add: cs_def)
  then show ?case using d n [folded cs_def]
    by (cases rows e rule: segment_cases) (simp_all add: image_iff)
qed simp

lemma find_segments:
  assumes "distinct (map fst es)" and "e \<in> set es"
  shows "find (\<lambda>k. call_chart k = fst e) (concat (map (segment rows) es))
    = (if segment rows e = [] then None else Some (call_of (fst e) (chart_points (fst e) rows)))"
  using assms
proof (induction es)
  case (Cons x xs)
  show ?case
  proof (cases "e = x")
    case True
    have "find (\<lambda>k. call_chart k = fst e) (concat (map (segment rows) xs)) = None"
    proof -
      have "call_chart k \<noteq> fst e" if "k \<in> set (concat (map (segment rows) xs))" for k
      proof
        assume "call_chart k = fst e"
        then have "fst x \<in> fst ` set xs" using segments_chart [OF that] True by simp
        then show False using Cons.prems(1) by simp
      qed
      then show ?thesis unfolding find_None_iff by blast
    qed
    then show ?thesis using True by (cases rows e rule: segment_cases) (simp_all add: find_append)
  next
    case False
    then have m: "e \<in> set xs" using Cons.prems(2) by simp
    then have "fst x \<noteq> fst e" using Cons.prems(1) by force
    then have "find (\<lambda>k. call_chart k = fst e) (segment rows x) = None" by (simp add: segment_def)
    then show ?thesis using Cons.IH m Cons.prems(1) by (simp add: find_append)
  qed
qed simp

text \<open>Numbers are readable: what both ways of drawing agree on.\<close>

definition readable :: "js \<Rightarrow> bool" where
  "readable d \<longleftrightarrow> parse_float (queries_per_second d) \<noteq> NaN \<and> parse_float (js_or (field d ''tps'') (JInt 0)) \<noteq> NaN
     \<and> \<not> is_arr (slow_point d)"

lemma num_or_zero_readable: "parse_float v \<noteq> NaN \<Longrightarrow> num_or_zero v = JNum (parse_float v)"
  by (cases "parse_float v") (auto simp: num_or_zero_def)

lemma num_or_zero_not_null [simp]: "num_or_zero v \<noteq> JNull"
  by (simp add: num_or_zero_def)

lemma rate_columns:
  "rate_column f (map g rows) = map (\<lambda>r. case g r of Some p \<Rightarrow> JNum (Fin (f p)) | None \<Rightarrow> JNull) rows"
  by (simp add: rate_column_def)

lemma batch_segments:
  assumes "list_all (\<lambda>r. readable (row_data r)) rows"
  shows "batch_calls (map fst rows) (map row_data rows) (map row_db rows) (map row_host rows)
    = concat (map (segment rows) chart_table)"
proof -
  have q: "map (\<lambda>d. JNum (parse_float (queries_per_second d))) (map row_data rows)
        = map (\<lambda>r. num_or_zero (queries_per_second (row_data r))) rows"
      "map (\<lambda>d. JNum (parse_float (js_or (field d ''tps'') (JInt 0)))) (map row_data rows)
        = map (\<lambda>r. num_or_zero (js_or (field (row_data r) ''tps'') (JInt 0))) rows"
    using assms by (auto simp: list_all_iff readable_def num_or_zero_readable)
  have os: "batch_os c (map fst rows) (os_column k (map row_data rows))
      = (if pick (os_point k) rows = [] then [] else [Batch c (map fst (pick (os_point k) rows)) (map snd (pick (os_point k) rows))])" for c k
    using batch_os_pick [OF os_point_not_null os_column_pick] .
  have rates: "batch_pair c (map fst rows) (rate_column fst (map g rows)) (rate_column snd (map g rows))
      = (if pick (\<lambda>r. map_option rates_point (g r)) rows = [] then [] else [BatchMulti c (map fst (pick (\<lambda>r. map_option rates_point (g r)) rows))
         [map (\<lambda>p. arr_list (snd p) ! 0) (pick (\<lambda>r. map_option rates_point (g r)) rows),
          map (\<lambda>p. arr_list (snd p) ! 1) (pick (\<lambda>r. map_option rates_point (g r)) rows)]])" for c g
    unfolding rate_columns by (rule batch_pair_pick) (simp add: rates_point_def null_to_zero_def split: option.splits)
  have disk: "batch_pair c (map fst rows) (os_column ''disk_reads_per_sec'' (map row_data rows)) (os_column ''disk_writes_per_sec'' (map row_data rows))
      = (if pick disk_point rows = [] then [] else [BatchMulti c (map fst (pick disk_point rows))
         [map (\<lambda>p. arr_list (snd p) ! 0) (pick disk_point rows), map (\<lambda>p. arr_list (snd p) ! 1) (pick disk_point rows)]])" for c
    unfolding os_column_def map_map comp_def
    by (rule batch_pair_pick) (auto simp: disk_point_def null_to_zero_def num_or_zero_undef)
  show ?thesis
    unfolding batch_calls_def os rates disk q
    by (simp add: chart_table_def segment_def call_of_def pair_charts_def chart_points_pick pick_total comp_def)
qed

section \<open>Batch and live agree\<close>

text \<open>The charts as they are cleared before a history is drawn: no point, one line or two.\<close>

definition cleared :: "panels \<Rightarrow> bool" where
  "cleared s \<longleftrightarrow> data_ready s \<and> (\<forall>i \<in> fst ` set chart_table. \<exists>c. map_of (pn_charts s) i = Some c \<and> ch_labels c = []
     \<and> ch_data c = (if i \<in> set pair_charts then [[], []] else [[]]))"

lemma pick_all: "list_all (\<lambda>r. case f r of Some v \<Rightarrow> P v | None \<Rightarrow> True) rows \<Longrightarrow> list_all (\<lambda>p. P (snd p)) (pick f rows)"
  by (induction rows) (auto simp: pick_Cons split: option.splits)

lemma pick_always: "(\<And>r. r \<in> set rows \<Longrightarrow> case f r of Some v \<Rightarrow> P v | None \<Rightarrow> True) \<Longrightarrow> list_all (\<lambda>p. P (snd p)) (pick f rows)"
  by (rule pick_all) (simp add: list_all_iff)

lemma pair_points:
  assumes "i \<in> set pair_charts"
  shows "list_all (\<lambda>p. \<exists>x y. snd p = JArr [x, y]) (chart_points i rows)"
proof -
  have r: "list_all (\<lambda>p. \<exists>x y. snd p = JArr [x, y]) (pick (\<lambda>r. map_option rates_point (g r)) rows)" for g :: "row \<Rightarrow> rates"
    by (rule pick_always) (simp add: rates_point_def split: option.splits)
  have d: "list_all (\<lambda>p. \<exists>x y. snd p = JArr [x, y]) (pick disk_point rows)"
    by (rule pick_always) (simp add: disk_point_def)
  have t: "list_all (\<lambda>p. \<exists>x y. snd p = JArr [x, y]) (pick (\<lambda>r. Some (JArr [g r, h r])) rows)" for g h
    by (rule pick_always) simp
  have "i = ''connections'' \<or> i = ''network'' \<or> i = ''disk_io'' \<or> i = ''network_io''"
    using assms by (simp add: pair_charts_def)
  then show ?thesis using r d t by (elim disjE) (simp_all only: chart_points_pick)
qed

lemma scalar_points:
  assumes "list_all (\<lambda>r. readable (row_data r)) rows" and "i \<in> fst ` set chart_table" and "i \<notin> set pair_charts"
  shows "list_all (\<lambda>p. \<not> is_arr (snd p)) (chart_points i rows)"
proof -
  have n: "\<not> is_arr (num_or_zero v)" "\<not> is_arr (hit_point d)" for v d by (simp_all add: num_or_zero_def hit_point_def)
  have o: "list_all (\<lambda>p. \<not> is_arr (snd p)) (pick (os_point k) rows)" for k
    by (rule pick_always) (simp add: os_point_def n)
  have t: "list_all (\<lambda>p. \<not> is_arr (snd p)) (pick (\<lambda>r. Some (g r)) rows)" if "\<And>r. r \<in> set rows \<Longrightarrow> \<not> is_arr (g r)" for g
    by (rule pick_always) (simp add: that)
  have l: "\<not> is_arr (slow_point (row_data r))" if "r \<in> set rows" for r
    using assms(1) that by (simp add: list_all_iff readable_def)
  have "i = ''qps'' \<or> i = ''cache_hit'' \<or> i = ''tps'' \<or> i = ''latency'' \<or> i = ''cpu_usage'' \<or> i = ''memory_usage''
      \<or> i = ''disk_usage'' \<or> i = ''load_avg''"
    using assms(2,3) by (simp add: chart_table_def pair_charts_def)
  then show ?thesis by (elim disjE) (simp_all only: chart_points_pick o t n l not_False_eq_True)
qed

lemma chart_agrees:
  assumes "0 < n" and "cleared s" and "list_all (\<lambda>r. readable (row_data r)) rows" and "i \<in> fst ` set chart_table"
    and "map_of (pn_charts s) i = Some c"
  shows "push_points n (chart_points i rows) c = Some (call_effect n (call_of i (chart_points i rows)) c)"
    and "chart_points i rows = [] \<Longrightarrow> push_points n (chart_points i rows) c = Some c"
proof -
  have c: "ch_labels c = []" "ch_data c = (if i \<in> set pair_charts then [[], []] else [[]])"
    using assms(2,4,5) by (auto simp: cleared_def)
  show "push_points n (chart_points i rows) c = Some (call_effect n (call_of i (chart_points i rows)) c)"
  proof (cases "i \<in> set pair_charts")
    case True
    then show ?thesis using push_pairs [OF c(1) _ pair_points [OF True], of n rows] c assms(1)
      by (simp add: call_of_def slice_window)
  next
    case False
    then show ?thesis using push_scalars [OF c(1) _ scalar_points [OF assms(3,4) False], of n] c assms(1)
      by (simp add: call_of_def slice_window)
  qed
qed simp

lemma rows_projections:
  assumes "length ds = length ls" and "length as = length ls" and "length bs = length ls"
  shows "map fst (rows_of ls ds as bs) = ls" and "map row_data (rows_of ls ds as bs) = ds"
    and "map row_db (rows_of ls ds as bs) = as" and "map row_host (rows_of ls ds as bs) = bs"
  using assms by (induction ls ds as bs rule: rows_of.induct) auto

lemma history_lengths:
  "length (fst (history_rates i ss nets)) = length ss \<and> length (fst (snd (history_rates i ss nets))) = length ss"
  by (induction ss arbitrary: nets) (auto split: prod.splits, (metis fst_conv snd_conv)+)

text \<open>
  C16. Loading a history in one batch draws exactly what the same samples draw one by one: on cleared charts both
  ways end with the same labels, the same values and the same counters for every chart, for any number of
  samples and any window, as long as the rates of queries and transactions are numbers.
\<close>

theorem batch_equals_live:
  assumes "0 < n" and "cleared s" and "list_all (\<lambda>(label, d, t). readable d) ss"
  shows "\<exists>nets' a b. live_charts env i n ss (nets, s) = Some (nets', a)
    \<and> batch_update_charts env i n (map fst ss) (map snd ss) (nets, s) = Some (nets', b)
    \<and> (\<forall>k \<in> fst ` set chart_table. map_of (pn_charts a) k = map_of (pn_charts b) k)"
proof -
  obtain as bs nets' where h: "history_rates i (map snd ss) nets = (as, bs, nets')" by (cases "history_rates i (map snd ss) nets") auto
  let ?rows = "rows_of (map fst ss) (map (\<lambda>a. fst (snd a)) ss) as bs"
  have len: "length as = length ss" "length bs = length ss" using history_lengths [of i "map snd ss" nets] h by simp_all
  note proj = rows_projections [of "map (\<lambda>a. fst (snd a)) ss" "map fst ss" as bs]
  have rd: "list_all (\<lambda>r. readable (row_data r)) ?rows"
  proof -
    have "list_all readable (map row_data ?rows)" using assms(3) proj(2) len by (simp add: list_all_iff case_prod_unfold)
    then show ?thesis by (simp add: list_all_iff)
  qed
  have ready: "data_ready s" using assms(2) by (simp add: cleared_def)
  from live_chart [OF ready, of env i n ss nets] h obtain a where a: "live_charts env i n ss (nets, s) = Some (nets', a)"
    "\<And>k. map_of (pn_charts a) k = Option.bind (map_of (pn_charts s) k) (push_points n (chart_points k ?rows))" by auto
  have dist: "distinct (map fst chart_table)" by (simp add: chart_table_def)
  from run_batch_chart [OF ready distinct_segments [OF dist, of ?rows], of "me_intl env" n]
  obtain b where b: "run_batch (me_intl env) n (concat (map (segment ?rows) chart_table)) s = Some b"
    "\<And>j. map_of (pn_charts b) j = (case find (\<lambda>k. call_chart k = j) (concat (map (segment ?rows) chart_table)) of
          Some k \<Rightarrow> map_option (call_effect n k) (map_of (pn_charts s) j) | None \<Rightarrow> map_of (pn_charts s) j)" by blast
  have "batch_update_charts env i n (map fst ss) (map snd ss) (nets, s) = Some (nets', b)"
    using b(1) h len proj batch_segments [OF rd] by (simp add: batch_update_charts_def comp_def)
  moreover have "map_of (pn_charts a) (fst e) = map_of (pn_charts b) (fst e)" if e: "e \<in> set chart_table" for e
  proof -
    obtain c where c: "map_of (pn_charts s) (fst e) = Some c" using assms(2) e by (auto simp: cleared_def)
    have m: "fst e \<in> fst ` set chart_table" using e by simp
    note agree = chart_agrees [OF assms(1,2) rd m c]
    show ?thesis
      unfolding a(2) b(2) find_segments [OF dist e] c using agree
      by (cases "chart_points (fst e) ?rows = []") (simp_all add: segment_def)
  qed
  ultimately show ?thesis using a(1) by blast
qed

definition demo_env :: monitor_env where
  "demo_env = \<lparr>me_host = \<lambda>s. None, me_local = \<lambda>t. (2024, 1, 1, 0, 0), me_time_text = \<lambda>t. [], me_intl = \<lambda>n. [], me_tr = \<lambda>k. k, me_msg = \<lambda>k m. k @ m\<rparr>"

definition demo_panels :: panels where
  "demo_panels = \<lparr>pn_charts = map (\<lambda>e. (fst e, \<lparr>ch_labels = [], ch_data = (if fst e \<in> set pair_charts then [[], []] else [[]]),
     ch_formatter = None\<rparr>)) chart_table, pn_values = [], pn_destroyed = []\<rparr>"

theorem batch_equals_live_witness:
  "\<exists>nets' a b. live_charts demo_env (JInt 1) 240 [(JStr ''10:00'', JObj [(''qps'', JInt 5)], 0)] ([], demo_panels) = Some (nets', a)
    \<and> batch_update_charts demo_env (JInt 1) 240 [JStr ''10:00''] [(JObj [(''qps'', JInt 5)], 0)] ([], demo_panels) = Some (nets', b)
    \<and> (\<forall>k \<in> fst ` set chart_table. map_of (pn_charts a) k = map_of (pn_charts b) k)"
proof -
  have "cleared demo_panels"
    by (auto simp: cleared_def data_ready_def demo_panels_def chart_table_def pair_charts_def split: if_splits)
  moreover have "readable (JObj [(''qps'', JInt 5)])"
    by (simp add: readable_def queries_per_second_def js_coalesce_def nullish_def slow_point_def)
  ultimately show ?thesis
    using batch_equals_live [of 240 demo_panels "[(JStr ''10:00'', JObj [(''qps'', JInt 5)], 0)]" demo_env "JInt 1" "[]"] by simp
qed

end
