(* ===== verification/MonitorPage.thy ===== *)
theory MonitorPage
  imports MonitorBatch
begin

text \<open>
  \<^verbatim>\<open>frontend/js/pages/monitor.js\<close>, the page: which datasource and range it shows, the requests in flight and
  when their answers are out of date, the live socket, the buffer of live samples, the status messages. A
  request is split at its \<^verbatim>\<open>await\<close>: what it remembers is a token, which its answer comes back with.
\<close>

record monitor =
  mp_version :: nat
  mp_request :: nat
  mp_range :: int
  mp_realtime :: bool
  mp_custom :: "(int \<times> int) option"
  mp_live :: "(int, js) jsmap"
  mp_chart_time :: "int option"
  mp_card_time :: "int option"
  mp_statuses :: "(string, string) jsmap"
  mp_max_points :: nat
  mp_nets :: nets
  mp_panels :: panels
  mp_cards :: "string list"
  mp_selected :: js
  mp_current :: js
  mp_connected :: bool
  mp_socket :: "nat option"
  mp_sockets :: nat

section \<open>Freshness and status\<close>

definition is_current :: "monitor \<Rightarrow> js \<Rightarrow> nat \<Rightarrow> bool" where
  "is_current p conn version \<longleftrightarrow> version = mp_version p \<and> mp_connected p \<and> strict_eq conn (mp_selected p)"

definition set_status :: "string \<Rightarrow> string \<Rightarrow> monitor \<Rightarrow> monitor" where
  "set_status source msg p =
     (if msg \<noteq> [] then p\<lparr>mp_statuses := AList.update source msg (mp_statuses p)\<rparr>
      else p\<lparr>mp_statuses := AList.delete source (mp_statuses p)\<rparr>)"

definition reset_max_points :: "monitor \<Rightarrow> monitor" where
  "reset_max_points p = p\<lparr>mp_max_points := 240\<rparr>"

definition set_max_points :: "nat \<Rightarrow> monitor \<Rightarrow> monitor" where
  "set_max_points n p =
     (if n = 0 then reset_max_points p else p\<lparr>mp_max_points := min (max (n + 120) 240) 10000\<rparr>)"

definition stop_monitoring :: "monitor \<Rightarrow> monitor" where
  "stop_monitoring p = set_status ''socket'' [] (p\<lparr>mp_socket := None\<rparr>)"

text \<open>A new socket; its handlers remember its number, the datasource and the version.\<close>

definition start_monitoring :: "js \<Rightarrow> monitor \<Rightarrow> monitor" where
  "start_monitoring conn p =
     (let p1 = stop_monitoring p in p1\<lparr>mp_socket := Some (mp_sockets p1), mp_sockets := Suc (mp_sockets p1)\<rparr>)"

definition socket_current :: "monitor \<Rightarrow> nat \<times> js \<times> nat \<Rightarrow> bool" where
  "socket_current p sock \<longleftrightarrow>
     (case sock of (i, conn, version) \<Rightarrow> mp_socket p = Some i \<and> mp_realtime p \<and> is_current p conn version)"

definition socket_opened :: "nat \<times> js \<times> nat \<Rightarrow> monitor \<Rightarrow> monitor" where
  "socket_opened sock p = (if socket_current p sock then set_status ''socket'' [] p else p)"

definition socket_lost :: "monitor_env \<Rightarrow> nat \<times> js \<times> nat \<Rightarrow> monitor \<Rightarrow> monitor" where
  "socket_lost env sock p = (if socket_current p sock then set_status ''socket'' (me_tr env ''realtimeDisconnected'') p else p)"

section \<open>The metric cards\<close>

definition or_dashes :: "js \<Rightarrow> string \<Rightarrow> string" where
  "or_dashes v t = (if nullish v then ''--'' else t)"

definition uptime_of :: "monitor_env \<Rightarrow> int \<Rightarrow> js \<Rightarrow> js" where
  "uptime_of env now data =
     (let up = js_or (field data ''uptime'') (js_or (field data ''uptime_in_seconds'') (JInt 0)) in
      if truthy up \<or> \<not> truthy (field data ''boot_time'') then up
      else case me_host env (js_string (field data ''boot_time'')) of
             Some t \<Rightarrow> JInt ((now - t) div 1000) | None \<Rightarrow> JNum NaN)"

text \<open>The first seven cards; the eighth, the load, throws for anything that is not a number.\<close>

definition first_cards :: "monitor_env \<Rightarrow> int \<Rightarrow> js \<Rightarrow> string list" where
  "first_cards env now data =
     (let active = active_connections data; total = total_connections data; maxc = field data ''max_connections'';
          qps = queries_per_second data;
          num = (\<lambda>v. or_dashes v (me_intl env (to_number v)));
          pct = (\<lambda>k. if field data k = JUndef then ''--'' else format_percent (field data k))
      in [num active @ ''/'' @ num total @ ''/'' @ (if nullish maxc \<or> maxc = JInt 0 then ''--'' else str_of_num (to_number maxc)),
          (case qps of JNum n \<Rightarrow> to_fixed 1 n | _ \<Rightarrow> js_string qps),
          or_dashes (hit_rate data) (format_percent (hit_rate data)),
          format_uptime (uptime_of env now data), pct ''cpu_usage'', pct ''memory_usage'', pct ''disk_usage''])"

definition load_card :: "js \<Rightarrow> string option" where
  "load_card data = (case field data ''load_avg_1min'' of JUndef \<Rightarrow> Some ''--'' | JNum n \<Rightarrow> Some (to_fixed 2 n) | _ \<Rightarrow> None)"

text \<open>The flag tells whether the update ran to its end.\<close>

definition update_cards :: "monitor_env \<Rightarrow> int \<Rightarrow> js \<Rightarrow> monitor \<Rightarrow> bool \<times> monitor" where
  "update_cards env now data p =
     (case load_card data of
        Some t \<Rightarrow> (True, p\<lparr>mp_cards := first_cards env now data @ [t]\<rparr>)
      | None \<Rightarrow> (False, p\<lparr>mp_cards := first_cards env now data @ drop 7 (mp_cards p)\<rparr>))"

definition update_snapshot :: "monitor_env \<Rightarrow> int \<Rightarrow> js \<Rightarrow> monitor \<Rightarrow> bool \<times> monitor" where
  "update_snapshot env now metric p =
     (case parse_utc env (field metric ''collected_at'') of
        None \<Rightarrow> (True, p)
      | Some t \<Rightarrow>
          if (case mp_card_time p of Some c \<Rightarrow> t < c | None \<Rightarrow> False) then (True, p)
          else update_cards env now (field metric ''data'') (p\<lparr>mp_card_time := Some t\<rparr>))"

section \<open>The history\<close>

record history_token =
  ht_version :: nat
  ht_request :: nat
  ht_custom :: "(int \<times> int) option"
  ht_minutes :: int
  ht_conn :: js

datatype history_answer = Metrics js | RequestError string

definition history_begin :: "js \<Rightarrow> monitor \<Rightarrow> history_token \<times> monitor" where
  "history_begin conn p =
     (let p1 = p\<lparr>mp_request := Suc (mp_request p)\<rparr>
      in (\<lparr>ht_version = mp_version p1, ht_request = mp_request p1, ht_custom = mp_custom p1, ht_minutes = mp_range p1,
           ht_conn = conn\<rparr>, p1))"

definition history_current :: "history_token \<Rightarrow> monitor \<Rightarrow> bool" where
  "history_current tk p \<longleftrightarrow> is_current p (ht_conn tk) (ht_version tk) \<and> ht_request tk = mp_request p"

definition in_range :: "history_token \<Rightarrow> int \<Rightarrow> int \<Rightarrow> bool" where
  "in_range tk now t \<longleftrightarrow>
     (case ht_custom tk of Some (a, b) \<Rightarrow> a \<le> t \<and> t \<le> b | None \<Rightarrow> now - ht_minutes tk * 60000 \<le> t)"

definition add_snapshot :: "monitor_env \<Rightarrow> history_token \<Rightarrow> int \<Rightarrow> (int, js) jsmap \<Rightarrow> js \<Rightarrow> (int, js) jsmap" where
  "add_snapshot env tk now snaps metric =
     (case parse_utc env (field metric ''collected_at'') of
        None \<Rightarrow> snaps
      | Some t \<Rightarrow> if truthy (field metric ''data'') \<and> in_range tk now t then AList.update t metric snaps else snaps)"

definition merged_snapshots :: "monitor_env \<Rightarrow> history_token \<Rightarrow> int \<Rightarrow> js list \<Rightarrow> (int, js) jsmap \<Rightarrow> (int \<times> js) list" where
  "merged_snapshots env tk now metrics live =
     sort_key fst (foldl (add_snapshot env tk now) [] (metrics @ (if ht_custom tk = None then map snd live else [])))"

definition clear_charts :: "panels \<Rightarrow> panels" where
  "clear_charts s = foldl (\<lambda>s i. chart_clear i s) s
     [''connections'', ''qps'', ''cache_hit'', ''tps'', ''network'', ''latency'',
      ''cpu_usage'', ''memory_usage'', ''disk_usage'', ''load_avg'', ''disk_io'', ''network_io'']"

definition shown_id :: "monitor \<Rightarrow> js" where
  "shown_id p = js_or (mp_current p) (mp_selected p)"

definition sample_of :: "monitor_env \<Rightarrow> js \<Rightarrow> js \<times> int" where
  "sample_of env metric = (field metric ''data'',
     case parse_utc env (field metric ''collected_at'') of Some t \<Rightarrow> t | None \<Rightarrow> 0)"

definition history_failed :: "monitor_env \<Rightarrow> string \<Rightarrow> monitor \<Rightarrow> bool \<times> monitor" where
  "history_failed env msg p = (False, set_status ''history'' (me_msg env ''historyLoadFailed'' msg) p)"

text \<open>Samples on display: cards first, then the charts in one batch. An exception becomes a failed history.\<close>

definition draw_history :: "monitor_env \<Rightarrow> history_token \<Rightarrow> int \<Rightarrow> (int \<times> js) list \<Rightarrow> monitor \<Rightarrow> bool \<times> monitor" where
  "draw_history env tk now ordered p =
     (let p1 = (set_max_points (length ordered) p)\<lparr>mp_panels := clear_charts (mp_panels p), mp_nets := []\<rparr>;
          p2 = p1\<lparr>mp_chart_time := (if ordered = [] then None else Some (fst (last ordered)))\<rparr>
      in if ordered = [] then (True, set_status ''history'' (me_tr env ''thereIsNoDataInTheSelected'') p2)
         else
           (let latest = snd (last ordered);
                (ok, p3) = (if ht_custom tk \<noteq> None
                            then update_cards env now (field latest ''data'') (p2\<lparr>mp_card_time := None\<rparr>)
                            else update_snapshot env now latest p2);
                metrics = map snd ordered;
                labels = map (\<lambda>m. chart_label env now (field m ''collected_at'')) metrics
            in if \<not> ok then history_failed env ''TypeError'' p3
               else case batch_update_charts env (shown_id p3) (mp_max_points p3) labels (map (sample_of env) metrics)
                           (mp_nets p3, mp_panels p3) of
                      None \<Rightarrow> history_failed env ''TypeError'' p3
                    | Some (nets, panels) \<Rightarrow> (True, set_status ''history'' [] (p3\<lparr>mp_nets := nets, mp_panels := panels\<rparr>))))"

definition history_end :: "monitor_env \<Rightarrow> int \<Rightarrow> history_token \<Rightarrow> history_answer \<Rightarrow> monitor \<Rightarrow> bool \<times> monitor" where
  "history_end env now tk answer p =
     (if \<not> history_current tk p then (False, p)
      else case answer of
             Metrics (JArr metrics) \<Rightarrow> draw_history env tk now (merged_snapshots env tk now metrics (mp_live p)) p
           | Metrics _ \<Rightarrow> history_failed env (me_tr env ''invalidHistory'') p
           | RequestError msg \<Rightarrow> history_failed env msg p)"

section \<open>Live samples\<close>

definition live_limit :: nat where
  "live_limit = 10000"

definition trim_live :: "int \<Rightarrow> (int, js) jsmap \<Rightarrow> (int, js) jsmap" where
  "trim_live oldest live =
     (let fresh = filter (\<lambda>e. \<not> fst e < oldest) live in drop (length fresh - live_limit) fresh)"

definition live_metric :: "monitor_env \<Rightarrow> int \<Rightarrow> nat \<times> js \<times> nat \<Rightarrow> js \<Rightarrow> monitor \<Rightarrow> monitor" where
  "live_metric env now sock metric p =
     (if \<not> socket_current p sock \<or> field metric ''type'' \<noteq> JStr ''db_status'' \<or> \<not> truthy (field metric ''data'')
         \<or> mp_custom p \<noteq> None then p
      else case parse_utc env (field metric ''collected_at'') of
             None \<Rightarrow> p
           | Some t \<Rightarrow>
               if t < now - mp_range p * 60000 then p
               else
                 (let p1 = set_status ''socket'' [] p;
                      p2 = p1\<lparr>mp_live := trim_live (now - mp_range p * 60000) (AList.update t metric (mp_live p1))\<rparr>;
                      (ok, p3) = update_snapshot env now metric p2
                  in if \<not> ok \<or> (case mp_chart_time p3 of Some c \<Rightarrow> t \<le> c | None \<Rightarrow> False) then p3
                     else
                       (let p4 = p3\<lparr>mp_chart_time := Some t\<rparr> in
                        case update_charts env (shown_id p4) (mp_max_points p4) (field metric ''data'')
                               (chart_label env now (field metric ''collected_at'')) t (mp_nets p4, mp_panels p4) of
                          None \<Rightarrow> p4
                        | Some (nets, panels) \<Rightarrow>
                            (let p5 = p4\<lparr>mp_nets := nets, mp_panels := panels\<rparr> in
                             if map_of (mp_statuses p5) ''history'' = Some (me_tr env ''thereIsNoDataInTheSelected'')
                             then set_status ''history'' [] p5 else p5))))"

section \<open>The other requests and controls\<close>

definition latest_end :: "monitor_env \<Rightarrow> int \<Rightarrow> js \<Rightarrow> nat \<Rightarrow> history_answer \<Rightarrow> monitor \<Rightarrow> monitor" where
  "latest_end env now conn version answer p =
     (case answer of
        Metrics latest \<Rightarrow>
          if \<not> is_current p conn version \<or> mp_custom p \<noteq> None then p
          else (let (ok, p1) = (if truthy (field latest ''data'') then update_snapshot env now latest p else (True, p))
                in if ok then set_status ''latest'' [] p1
                   else set_status ''latest'' (me_msg env ''latestLoadFailed'' ''TypeError'') p1)
      | RequestError msg \<Rightarrow>
          if is_current p conn version then set_status ''latest'' (me_msg env ''latestLoadFailed'' msg) p else p)"

definition reload_data :: "js \<Rightarrow> monitor \<Rightarrow> history_token \<times> monitor" where
  "reload_data conn p =
     (let p1 = p\<lparr>mp_version := Suc (mp_version p), mp_live := [], mp_chart_time := None, mp_card_time := None\<rparr>;
          p2 = foldl (\<lambda>p s. set_status s [] p) p1 [''history'', ''latest'', ''refresh'', ''socket''];
          p3 = stop_monitoring p2;
          p4 = p3\<lparr>mp_panels := clear_charts (mp_panels p3), mp_nets := reset_network conn (mp_nets p3), mp_current := conn\<rparr>;
          (tk, p5) = history_begin conn p4
      in (tk, if mp_realtime p5 then start_monitoring conn p5 else p5))"

text \<open>Choosing a datasource, a range, or switching the live mode.\<close>

definition choose_datasource :: "js \<Rightarrow> monitor \<Rightarrow> history_token \<times> monitor" where
  "choose_datasource conn p = reload_data conn (p\<lparr>mp_selected := conn\<rparr>)"

definition choose_range :: "int \<Rightarrow> monitor \<Rightarrow> history_token option \<times> monitor" where
  "choose_range minutes p =
     (let p1 = p\<lparr>mp_custom := None, mp_range := minutes, mp_realtime := True\<rparr>
      in if truthy (mp_selected p1) then (case reload_data (mp_selected p1) p1 of (tk, p2) \<Rightarrow> (Some tk, p2)) else (None, p1))"

definition toggle_realtime :: "monitor \<Rightarrow> history_token option \<times> monitor" where
  "toggle_realtime p =
     (let p1 = p\<lparr>mp_realtime := \<not> mp_realtime p\<rparr>
      in if mp_realtime p1 \<and> truthy (mp_selected p1)
         then (case reload_data (mp_selected p1) (p1\<lparr>mp_custom := None\<rparr>) of (tk, p2) \<Rightarrow> (Some tk, p2))
         else (None, stop_monitoring p1))"

text \<open>A custom range; what to go back to is remembered until the history has answered.\<close>

record custom_token =
  ct_history :: history_token
  ct_previous :: "(int \<times> int) option"
  ct_realtime :: bool
  ct_version :: nat

definition custom_begin :: "js \<Rightarrow> int \<Rightarrow> int \<Rightarrow> monitor \<Rightarrow> custom_token \<times> monitor" where
  "custom_begin conn a b p =
     (let p1 = stop_monitoring (p\<lparr>mp_custom := Some (a, b), mp_realtime := False\<rparr>);
          (tk, p2) = history_begin conn p1
      in (\<lparr>ct_history = tk, ct_previous = mp_custom p, ct_realtime = mp_realtime p, ct_version = mp_version p\<rparr>, p2))"

definition custom_end :: "monitor_env \<Rightarrow> int \<Rightarrow> custom_token \<Rightarrow> history_answer \<Rightarrow> monitor \<Rightarrow> bool \<times> monitor" where
  "custom_end env now tk answer p =
     (let (has_data, p1) = history_end env now (ct_history tk) answer p; conn = ht_conn (ct_history tk)
      in if \<not> is_current p1 conn (ct_version tk) then (False, p1)
         else if has_data then (True, p1)
         else (let p2 = p1\<lparr>mp_custom := ct_previous tk, mp_realtime := ct_realtime tk\<rparr>
               in (False, if ct_realtime tk then start_monitoring conn p2 else p2)))"

text \<open>The refresh button: the collection is asked for, then the data are loaded again.\<close>

definition refresh_end :: "monitor_env \<Rightarrow> js \<Rightarrow> nat \<Rightarrow> string option \<Rightarrow> monitor \<Rightarrow> history_token option \<times> monitor" where
  "refresh_end env conn version failure p =
     (case failure of
        None \<Rightarrow> if is_current p conn version then (case history_begin conn p of (tk, p1) \<Rightarrow> (Some tk, p1)) else (None, p)
      | Some msg \<Rightarrow>
          (None, if is_current p conn version then set_status ''refresh'' (me_tr env ''refreshFailed'' @ msg) p else p))"

definition monitor_cleanup :: "monitor \<Rightarrow> monitor" where
  "monitor_cleanup p =
     (let p1 = stop_monitoring (p\<lparr>mp_version := Suc (mp_version p), mp_live := [], mp_custom := None\<rparr>)
      in (reset_max_points (p1\<lparr>mp_panels := chart_destroy_all (mp_panels p1), mp_nets := []\<rparr>))
           \<lparr>mp_range := 60, mp_realtime := True, mp_connected := False\<rparr>)"

definition monitor_render :: "monitor \<Rightarrow> monitor" where
  "monitor_render p = p\<lparr>mp_version := Suc (mp_version p), mp_statuses := [], mp_live := [], mp_chart_time := None,
     mp_card_time := None, mp_custom := None, mp_connected := True\<rparr>"

text \<open>The frame after the first layout, unless the page was left or drawn again.\<close>

definition monitor_ready :: "nat \<Rightarrow> panels \<Rightarrow> monitor \<Rightarrow> history_token option \<times> monitor" where
  "monitor_ready version panels p =
     (if version \<noteq> mp_version p \<or> \<not> mp_connected p then (None, p)
      else let p1 = p\<lparr>mp_panels := panels\<rparr> in
           if truthy (mp_selected p1)
           then (case history_begin (mp_selected p1) (p1\<lparr>mp_current := mp_selected p1\<rparr>) of
                   (tk, p2) \<Rightarrow> (Some tk, if mp_realtime p2 then start_monitoring (mp_selected p2) p2 else p2))
           else (None, p1))"

section \<open>Runs of the page\<close>

inductive monitor_step :: "monitor_env \<Rightarrow> monitor \<Rightarrow> monitor \<Rightarrow> bool" for env where
  asks_history: "monitor_step env p (snd (history_begin conn p))"
| history_answers: "monitor_step env p (snd (history_end env now tk answer p))"
| latest_answers: "monitor_step env p (latest_end env now conn version answer p)"
| metric_arrives: "monitor_step env p (live_metric env now sock metric p)"
| socket_opens: "monitor_step env p (socket_opened sock p)"
| socket_fails: "monitor_step env p (socket_lost env sock p)"
| reloads: "monitor_step env p (snd (reload_data conn p))"
| chooses_datasource: "monitor_step env p (snd (choose_datasource conn p))"
| chooses_range: "monitor_step env p (snd (choose_range minutes p))"
| toggles: "monitor_step env p (snd (toggle_realtime p))"
| asks_custom: "monitor_step env p (snd (custom_begin conn a b p))"
| custom_answers: "monitor_step env p (snd (custom_end env now ctk answer p))"
| refreshes: "monitor_step env p (snd (refresh_end env conn version failure p))"
| leaves: "monitor_step env p (monitor_cleanup p)"
| renders: "monitor_step env p (monitor_render p)"
| draws: "monitor_step env p (snd (monitor_ready version panels p))"

inductive monitor_run :: "monitor_env \<Rightarrow> monitor \<Rightarrow> monitor \<Rightarrow> bool" for env where
  stays: "monitor_run env p p"
| goes_on: "monitor_run env p q \<Longrightarrow> monitor_step env q r \<Longrightarrow> monitor_run env p r"

section \<open>Laws\<close>

lemma status_frame [simp]:
  "mp_version (set_status a m p) = mp_version p" "mp_request (set_status a m p) = mp_request p"
  "mp_live (set_status a m p) = mp_live p" "mp_chart_time (set_status a m p) = mp_chart_time p"
  "mp_selected (set_status a m p) = mp_selected p" "mp_connected (set_status a m p) = mp_connected p"
  "mp_realtime (set_status a m p) = mp_realtime p" "mp_custom (set_status a m p) = mp_custom p"
  "mp_socket (set_status a m p) = mp_socket p" "mp_range (set_status a m p) = mp_range p"
  "mp_panels (set_status a m p) = mp_panels p" "mp_nets (set_status a m p) = mp_nets p"
  "mp_max_points (set_status a m p) = mp_max_points p" "mp_current (set_status a m p) = mp_current p"
  by (simp_all add: set_status_def)

lemma cards_frame [simp]:
  "mp_version (snd (update_cards env now d p)) = mp_version p" "mp_request (snd (update_cards env now d p)) = mp_request p"
  "mp_live (snd (update_cards env now d p)) = mp_live p" "mp_chart_time (snd (update_cards env now d p)) = mp_chart_time p"
  "mp_version (snd (update_snapshot env now m p)) = mp_version p" "mp_request (snd (update_snapshot env now m p)) = mp_request p"
  "mp_live (snd (update_snapshot env now m p)) = mp_live p" "mp_chart_time (snd (update_snapshot env now m p)) = mp_chart_time p"
  by (simp_all add: update_cards_def update_snapshot_def split: option.splits)

text \<open>Version and request number: what tells an answer that it is late.\<close>

definition stamps :: "monitor \<Rightarrow> nat \<times> nat" where
  "stamps p = (mp_version p, mp_request p)"

definition later :: "nat \<times> nat \<Rightarrow> nat \<times> nat \<Rightarrow> bool" where
  "later a b \<longleftrightarrow> fst a \<le> fst b \<and> snd a \<le> snd b"

lemma stop_stamps [simp]:
  "mp_version (stop_monitoring p) = mp_version p" "mp_request (stop_monitoring p) = mp_request p"
  "mp_version (start_monitoring c p) = mp_version p" "mp_request (start_monitoring c p) = mp_request p"
  by (simp_all add: stop_monitoring_def start_monitoring_def Let_def)

lemma history_begin_stamps [simp]:
  "mp_version (snd (history_begin conn p)) = mp_version p" "mp_request (snd (history_begin conn p)) = Suc (mp_request p)"
  by (simp_all add: history_begin_def Let_def)

lemma draw_history_stamps [simp]:
  "mp_version (snd (draw_history env tk now ordered p)) = mp_version p"
  "mp_request (snd (draw_history env tk now ordered p)) = mp_request p"
  by (simp_all add: draw_history_def history_failed_def set_max_points_def reset_max_points_def Let_def case_prod_unfold
      split: option.splits)

lemma history_end_stamps [simp]:
  "mp_version (snd (history_end env now tk answer p)) = mp_version p"
  "mp_request (snd (history_end env now tk answer p)) = mp_request p"
  by (simp_all add: history_end_def history_failed_def split: history_answer.splits js.splits)

lemma live_metric_stamps [simp]:
  "mp_version (live_metric env now sock metric p) = mp_version p" "mp_request (live_metric env now sock metric p) = mp_request p"
  by (simp_all add: live_metric_def Let_def case_prod_unfold split: option.splits)

lemma latest_end_stamps [simp]:
  "mp_version (latest_end env now conn version answer p) = mp_version p"
  "mp_request (latest_end env now conn version answer p) = mp_request p"
  by (simp_all add: latest_end_def Let_def case_prod_unfold split: history_answer.splits)

lemma clear_statuses_stamps [simp]:
  "mp_version (foldl (\<lambda>p s. set_status s [] p) p ss) = mp_version p"
  "mp_request (foldl (\<lambda>p s. set_status s [] p) p ss) = mp_request p"
  by (induction ss arbitrary: p) simp_all

lemma reload_stamps [simp]:
  "mp_version (snd (reload_data conn p)) = Suc (mp_version p)" "mp_request (snd (reload_data conn p)) = Suc (mp_request p)"
  by (simp_all add: reload_data_def Let_def case_prod_unfold del: foldl.simps)

lemma step_stamps: "monitor_step env p q \<Longrightarrow> later (stamps p) (stamps q)"
  unfolding later_def stamps_def
  by (induction rule: monitor_step.induct)
     (simp_all add: socket_opened_def socket_lost_def choose_datasource_def choose_range_def toggle_realtime_def
        custom_begin_def custom_end_def refresh_end_def monitor_cleanup_def monitor_render_def monitor_ready_def
        reset_max_points_def Let_def case_prod_unfold split: option.splits)

lemma run_stamps: "monitor_run env p q \<Longrightarrow> later (stamps p) (stamps q)"
proof (induction rule: monitor_run.induct)
  case (goes_on q r)
  with step_stamps [OF goes_on.hyps(2)] show ?case by (simp add: later_def)
qed (simp add: later_def)

text \<open>
  C18. A late answer changes nothing: once the page has reloaded its data, has been left or drawn again, or has
  asked for another history, whatever happened in between and whatever the server answers, the answer to an
  earlier request for the history is dropped.
\<close>

theorem stale_history_ignored:
  assumes "history_begin conn p = (tk, p1)" and "monitor_run env p1 q"
    and "q' = snd (reload_data other q) \<or> q' = monitor_cleanup q \<or> q' = monitor_render q \<or> q' = snd (history_begin other q)"
    and "monitor_run env q' r"
  shows "history_end env now tk answer r = (False, r)"
proof -
  have t: "ht_version tk = mp_version p1" "ht_request tk = mp_request p1"
    using assms(1) by (auto simp: history_begin_def Let_def)
  have a: "mp_version p1 \<le> mp_version q" "mp_request p1 \<le> mp_request q"
    using run_stamps [OF assms(2)] by (simp_all add: later_def stamps_def)
  have b: "mp_version q < mp_version q' \<or> mp_request q < mp_request q'"
    using assms(3) by (auto simp: monitor_cleanup_def monitor_render_def reset_max_points_def Let_def)
  have c: "mp_version q' \<le> mp_version r" "mp_request q' \<le> mp_request r"
    using run_stamps [OF assms(4)] by (simp_all add: later_def stamps_def)
  have "\<not> history_current tk r" using t a b c by (auto simp: history_current_def is_current_def)
  then show ?thesis by (simp add: history_end_def)
qed

definition empty_monitor :: monitor where
  "empty_monitor = \<lparr>mp_version = 0, mp_request = 0, mp_range = 60, mp_realtime = True, mp_custom = None, mp_live = [],
     mp_chart_time = None, mp_card_time = None, mp_statuses = [], mp_max_points = 240, mp_nets = [],
     mp_panels = \<lparr>pn_charts = [], pn_values = [], pn_destroyed = []\<rparr>, mp_cards = [], mp_selected = JNull, mp_current = JNull,
     mp_connected = False, mp_socket = None, mp_sockets = 0\<rparr>"

theorem stale_history_ignored_witness:
  "let p = (monitor_render empty_monitor)\<lparr>mp_selected := JInt 1\<rparr>; (tk, p1) = history_begin (JInt 1) p;
       q = snd (reload_data (JInt 2) p1) in history_end demo_env 0 tk (Metrics (JArr [])) q = (False, q)"
proof -
  let ?p = "(monitor_render empty_monitor)\<lparr>mp_selected := JInt 1\<rparr>"
  obtain tk p1 where h: "history_begin (JInt 1) ?p = (tk, p1)" by (cases "history_begin (JInt 1) ?p") auto
  from stale_history_ignored [OF h monitor_run.stays disjI1 [OF HOL.refl] monitor_run.stays, of demo_env 0 "Metrics (JArr [])" "JInt 2"]
  show ?thesis using h by (simp add: Let_def)
qed

section \<open>What a history shows\<close>

text \<open>The samples a history is made of, in the order of their delivery.\<close>

definition valid_samples :: "monitor_env \<Rightarrow> history_token \<Rightarrow> int \<Rightarrow> js list \<Rightarrow> (int \<times> js) list" where
  "valid_samples env tk now ms = concat (map (\<lambda>m. case parse_utc env (field m ''collected_at'') of
     Some t \<Rightarrow> if truthy (field m ''data'') \<and> in_range tk now t then [(t, m)] else [] | None \<Rightarrow> []) ms)"

lemma fold_snapshots:
  "map_of (foldl (add_snapshot env tk now) acc ms) = map_of (rev (valid_samples env tk now ms) @ acc)"
proof (induction ms arbitrary: acc)
  case (Cons m ms)
  then show ?case
    by (cases "parse_utc env (field m ''collected_at'')")
       (auto simp: valid_samples_def add_snapshot_def map_add_def update_conv' fun_eq_iff split: option.splits)
qed (simp add: valid_samples_def)

lemma fold_snapshots_distinct:
  "distinct (map fst acc) \<Longrightarrow> distinct (map fst (foldl (add_snapshot env tk now) acc ms))"
  by (induction ms arbitrary: acc) (auto simp: add_snapshot_def distinct_update split: option.splits)

lemma sort_key_distinct: "distinct (map fst xs) \<Longrightarrow> distinct (map fst (sort_key fst xs))"
  by (metis mset_eq_imp_distinct_iff mset_map mset_sort)

lemma sorted_map_of:
  assumes "distinct (map fst xs)"
  shows "map_of (sort_key fst xs) = map_of xs"
proof
  fix k
  have e: "map_of (sort_key fst xs) k = Some y \<longleftrightarrow> map_of xs k = Some y" for y
    using assms sort_key_distinct [OF assms] by simp
  show "map_of (sort_key fst xs) k = map_of xs k"
  proof (cases "map_of xs k")
    case None
    then show ?thesis using e by (cases "map_of (sort_key fst xs) k") auto
  next
    case (Some y)
    then show ?thesis using e by simp
  qed
qed

lemma merged_parts:
  shows merged_sorted: "sorted_wrt (<) (map fst (merged_snapshots env tk now metrics live))"
    and merged_map: "map_of (merged_snapshots env tk now metrics live)
      = map_of (rev (valid_samples env tk now (metrics @ (if ht_custom tk = None then map snd live else []))))"
proof -
  define raw where "raw = foldl (add_snapshot env tk now) [] (metrics @ (if ht_custom tk = None then map snd live else []))"
  have d: "distinct (map fst raw)" unfolding raw_def by (rule fold_snapshots_distinct) simp
  have m: "merged_snapshots env tk now metrics live = sort_key fst raw" by (simp add: merged_snapshots_def raw_def)
  have "sorted (map fst (sort_key fst raw))" by simp
  then show "sorted_wrt (<) (map fst (merged_snapshots env tk now metrics live))"
    using sort_key_distinct [OF d] unfolding m by (simp add: strict_sorted_iff)
  show "map_of (merged_snapshots env tk now metrics live)
      = map_of (rev (valid_samples env tk now (metrics @ (if ht_custom tk = None then map snd live else []))))"
    unfolding m sorted_map_of [OF d] unfolding raw_def fold_snapshots by simp
qed

text \<open>
  C17. A history is its range, once and in order: the samples drawn have strictly increasing times, and at each time
  stands the last sample delivered for it, among those with data whose time is in the range asked for; a live
  sample received meanwhile replaces the server's of the same time, and a custom range has none.
\<close>

theorem history_is_the_range:
  "sorted_wrt (<) (map fst (merged_snapshots env tk now metrics live))
 \<and> map_of (merged_snapshots env tk now metrics live)
    = map_of (rev (valid_samples env tk now (metrics @ (if ht_custom tk = None then map snd live else []))))"
  using merged_sorted merged_map by blast

section \<open>No sample is drawn twice\<close>

lemma drawn_time:
  assumes "parse_utc env (field m ''collected_at'') = Some t" and "mp_chart_time p = Some c" and "t \<le> c"
  shows "mp_panels (live_metric env now sock m p) = mp_panels p \<and> mp_chart_time (live_metric env now sock m p) = Some c"
proof -
  have f: "mp_panels (snd (update_snapshot env now m q)) = mp_panels q" for q
    by (simp add: update_snapshot_def update_cards_def split: option.splits)
  show ?thesis using assms by (simp add: live_metric_def Let_def case_prod_unfold f)
qed

lemma sorted_last: "sorted xs \<Longrightarrow> x \<in> set xs \<Longrightarrow> x \<le> last xs"
  by (induction xs) auto

lemma merged_last:
  assumes "t \<in> fst ` set (merged_snapshots env tk now metrics live)"
  shows "t \<le> fst (last (merged_snapshots env tk now metrics live))"
proof -
  let ?o = "merged_snapshots env tk now metrics live"
  have "sorted (map fst ?o)" using merged_sorted strict_sorted_iff by blast
  then have "t \<le> last (map fst ?o)" using assms by (intro sorted_last) auto
  moreover have "?o \<noteq> []" using assms by auto
  ultimately show ?thesis by (simp add: last_map)
qed

lemma drawn_history_time:
  "mp_chart_time (snd (draw_history env tk now ordered p)) = (if ordered = [] then None else Some (fst (last ordered)))"
  by (simp add: draw_history_def history_failed_def Let_def case_prod_unfold split: option.splits)

text \<open>
  No sample is drawn twice: once a history has been drawn, a live message with a sample of it, or an older one,
  leaves the charts alone, however often it is delivered and even if the history's request was sent later.
\<close>

theorem no_sample_twice:
  assumes "history_current tk p" and "history_end env now tk (Metrics (JArr metrics)) p = (ok, q)"
    and "t \<in> fst ` set (merged_snapshots env tk now metrics (mp_live p))"
    and "parse_utc env (field m ''collected_at'') = Some u" and "u \<le> t"
  shows "mp_panels (live_metric env later_now sock m q) = mp_panels q
     \<and> mp_chart_time (live_metric env later_now sock m q) = mp_chart_time q"
proof -
  let ?o = "merged_snapshots env tk now metrics (mp_live p)"
  have "q = snd (draw_history env tk now ?o p)" using assms(1,2) by (simp add: history_end_def)
  moreover have "?o \<noteq> []" using assms(3) by auto
  ultimately have "mp_chart_time q = Some (fst (last ?o))" by (simp add: drawn_history_time)
  from drawn_time [OF assms(4) this] merged_last [OF assms(3)] assms(5) this show ?thesis by simp
qed

definition demo_metric :: "int \<Rightarrow> js" where
  "demo_metric t = JObj [(''type'', JStr ''db_status''), (''collected_at'', JInt t), (''data'', JObj [])]"

theorem no_sample_twice_witness:
  "let p = (monitor_render empty_monitor)\<lparr>mp_selected := JInt 1\<rparr>; (tk, p1) = history_begin (JInt 1) p;
       q = snd (history_end demo_env 0 tk (Metrics (JArr [demo_metric 5])) p1)
   in mp_panels (live_metric demo_env 0 (0, JInt 1, 1) (demo_metric 5) q) = mp_panels q"
proof -
  let ?p = "(monitor_render empty_monitor)\<lparr>mp_selected := JInt 1\<rparr>"
  let ?m = "demo_metric 5"
  obtain tk p1 where h: "history_begin (JInt 1) ?p = (tk, p1)" by (cases "history_begin (JInt 1) ?p") auto
  then have c: "history_current tk p1" and r: "ht_custom tk = None" "ht_minutes tk = 60" and l: "mp_live p1 = []"
    by (auto simp: history_begin_def history_current_def is_current_def monitor_render_def empty_monitor_def Let_def)
  obtain ok q where q: "history_end demo_env 0 tk (Metrics (JArr [?m])) p1 = (ok, q)" by (cases "history_end demo_env 0 tk (Metrics (JArr [?m])) p1")
  have t: "parse_utc demo_env (field ?m ''collected_at'') = Some 5"
    by (simp add: demo_metric_def parse_utc_def parse_date_def time_clip_def Let_def)
  then have "merged_snapshots demo_env tk 0 [?m] (mp_live p1) = [(5, ?m)]"
    using r l by (simp add: merged_snapshots_def add_snapshot_def in_range_def demo_metric_def)
  then have "5 \<in> fst ` set (merged_snapshots demo_env tk 0 [?m] (mp_live p1))" by simp
  from no_sample_twice [OF c q this t] show ?thesis using h q by (simp add: Let_def)
qed

section \<open>The buffer of live samples is bounded\<close>

lemma trim_live_bound: "length (trim_live oldest live) \<le> live_limit"
  by (simp add: trim_live_def Let_def)

lemma live_frames [simp]:
  "mp_live (stop_monitoring p) = mp_live p" "mp_live (start_monitoring c p) = mp_live p"
  "mp_live (snd (history_begin conn p)) = mp_live p"
  by (simp_all add: stop_monitoring_def start_monitoring_def history_begin_def Let_def)

lemma draw_history_live [simp]: "mp_live (snd (draw_history env tk now ordered p)) = mp_live p"
  by (simp add: draw_history_def history_failed_def set_max_points_def reset_max_points_def Let_def case_prod_unfold
      split: option.splits)

lemma history_end_live [simp]: "mp_live (snd (history_end env now tk answer p)) = mp_live p"
  by (simp add: history_end_def history_failed_def split: history_answer.splits js.splits)

lemma live_metric_live:
  "mp_live (live_metric env now sock metric p) = mp_live p
   \<or> (\<exists>l. mp_live (live_metric env now sock metric p) = trim_live (now - mp_range p * 60000) l)"
  by (simp add: live_metric_def Let_def case_prod_unfold split: option.splits) blast

lemma latest_end_live [simp]: "mp_live (latest_end env now conn version answer p) = mp_live p"
  by (simp add: latest_end_def Let_def case_prod_unfold split: history_answer.splits)

lemma clear_statuses_live [simp]: "mp_live (foldl (\<lambda>p s. set_status s [] p) p ss) = mp_live p"
  by (induction ss arbitrary: p) simp_all

lemma reload_live [simp]: "mp_live (snd (reload_data conn p)) = []"
  by (simp add: reload_data_def Let_def case_prod_unfold del: foldl.simps)

lemma step_live: "monitor_step env p q \<Longrightarrow> length (mp_live p) \<le> live_limit \<Longrightarrow> length (mp_live q) \<le> live_limit"
proof (induction rule: monitor_step.induct)
  case (metric_arrives p now sock metric)
  then show ?case using live_metric_live [of env now sock metric p] trim_live_bound by metis
qed (simp_all add: socket_opened_def socket_lost_def choose_datasource_def choose_range_def toggle_realtime_def
        custom_begin_def custom_end_def refresh_end_def monitor_cleanup_def monitor_render_def monitor_ready_def
        reset_max_points_def Let_def case_prod_unfold split: option.splits)

lemma set_max_points_bounds:
  "240 \<le> mp_max_points (set_max_points n p) \<and> mp_max_points (set_max_points n p) \<le> 10000"
  by (simp add: set_max_points_def reset_max_points_def)

lemma max_frames [simp]:
  "mp_max_points (stop_monitoring p) = mp_max_points p" "mp_max_points (start_monitoring c p) = mp_max_points p"
  "mp_max_points (snd (history_begin conn p)) = mp_max_points p"
  "mp_max_points (snd (update_cards env now d p)) = mp_max_points p"
  "mp_max_points (snd (update_snapshot env now m p)) = mp_max_points p"
  by (simp_all add: stop_monitoring_def start_monitoring_def history_begin_def update_cards_def update_snapshot_def
      Let_def split: option.splits)

lemma draw_history_max:
  "mp_max_points (snd (draw_history env tk now ordered p)) = mp_max_points (set_max_points (length ordered) p)"
  by (simp add: draw_history_def history_failed_def Let_def case_prod_unfold split: option.splits)

lemma history_end_max:
  "mp_max_points (snd (history_end env now tk answer p)) = mp_max_points p
   \<or> mp_max_points (snd (history_end env now tk answer p)) \<in> {240 .. 10000}"
  using set_max_points_bounds by (simp add: history_end_def history_failed_def draw_history_max split: history_answer.splits js.splits)

lemma live_metric_max [simp]: "mp_max_points (live_metric env now sock metric p) = mp_max_points p"
  by (simp add: live_metric_def Let_def case_prod_unfold split: option.splits)

lemma latest_end_max [simp]: "mp_max_points (latest_end env now conn version answer p) = mp_max_points p"
  by (simp add: latest_end_def Let_def case_prod_unfold split: history_answer.splits)

lemma clear_statuses_max [simp]: "mp_max_points (foldl (\<lambda>p s. set_status s [] p) p ss) = mp_max_points p"
  by (induction ss arbitrary: p) simp_all

lemma reload_max [simp]: "mp_max_points (snd (reload_data conn p)) = mp_max_points p"
  by (simp add: reload_data_def Let_def case_prod_unfold del: foldl.simps)

lemma step_max: "monitor_step env p q \<Longrightarrow> mp_max_points p \<in> {240 .. 10000} \<Longrightarrow> mp_max_points q \<in> {240 .. 10000}"
proof (induction rule: monitor_step.induct)
  case (history_answers p now tk answer)
  then show ?case using history_end_max [of env now tk answer p] by metis
next
  case (custom_answers p now ctk answer)
  then show ?case using history_end_max [of env now "ct_history ctk" answer p]
    by (auto simp: custom_end_def Let_def case_prod_unfold)
qed (simp_all add: socket_opened_def socket_lost_def choose_datasource_def choose_range_def toggle_realtime_def
        custom_begin_def custom_end_def refresh_end_def monitor_cleanup_def monitor_render_def monitor_ready_def
        reset_max_points_def Let_def case_prod_unfold split: option.splits)

lemma run_bounds:
  assumes "monitor_run env p q" and "length (mp_live p) \<le> live_limit" and "mp_max_points p \<in> {240 .. 10000}"
  shows "length (mp_live q) \<le> live_limit \<and> mp_max_points q \<in> {240 .. 10000}"
  using assms by (induction rule: monitor_run.induct) (metis step_live step_max)+

text \<open>
  The page keeps a bounded number of samples: in every run from a page just drawn, the buffer of live samples
  never holds more than ten thousand, and a chart never asks for a window of more than ten thousand points.
\<close>

theorem live_buffer_bounded:
  assumes "monitor_run env (monitor_render p) q" and "240 \<le> mp_max_points p" and "mp_max_points p \<le> 10000"
  shows "length (mp_live q) \<le> 10000 \<and> 240 \<le> mp_max_points q \<and> mp_max_points q \<le> 10000"
proof -
  have "length (mp_live (monitor_render p)) \<le> live_limit" "mp_max_points (monitor_render p) \<in> {240 .. 10000}"
    using assms(2,3) by (simp_all add: monitor_render_def reset_max_points_def)
  from run_bounds [OF assms(1) this] show ?thesis by (simp add: live_limit_def)
qed

theorem live_buffer_bounded_witness:
  "let q = live_metric demo_env 0 (0, JInt 1, 1) (demo_metric 5) (monitor_render empty_monitor)
   in length (mp_live q) \<le> 10000 \<and> 240 \<le> mp_max_points q \<and> mp_max_points q \<le> 10000"
proof -
  have "monitor_run demo_env (monitor_render empty_monitor)
      (live_metric demo_env 0 (0, JInt 1, 1) (demo_metric 5) (monitor_render empty_monitor))"
    using monitor_run.goes_on [OF monitor_run.stays monitor_step.metric_arrives] .
  from live_buffer_bounded [OF this] show ?thesis by (simp add: Let_def empty_monitor_def)
qed

end
