(* ===== verification/SchemaCache.thy ===== *)
theory SchemaCache
  imports ApiCalls
begin

text \<open>
  \<^verbatim>\<open>frontend/js/utils/schema-cache.js\<close>: the metadata cache of the SQL editor. The clock is part of
  the state; the server is a parameter that says what a request sent at a time is answered with
  (\<open>None\<close> for a rejection) and when. The locale states what a cache with a time to live promises; the
  three getters of the file are its instances.
\<close>

section \<open>The interface of a cache with a time to live\<close>

locale ttl_cache =
  fixes get :: "'q \<Rightarrow> 'c \<Rightarrow> 'd \<times> 'c"
    and entry :: "'q \<Rightarrow> 'c \<Rightarrow> ('d \<times> nat) option"
    and now :: "'c \<Rightarrow> nat"
    and requests :: "'c \<Rightarrow> nat"
    and answered :: "'q \<Rightarrow> 'c \<Rightarrow> bool"
    and ttl :: nat
  assumes hit: "entry q c = Some (d, t) \<Longrightarrow> now c - t \<le> ttl \<Longrightarrow> get q c = (d, c)"
    and miss: "\<lbrakk>entry q c = None \<or> (\<exists>d t. entry q c = Some (d, t) \<and> ttl < now c - t); get q c = (r, c')\<rbrakk>
        \<Longrightarrow> requests c' = Suc (requests c)
            \<and> (if answered q c then entry q c' = Some (r, now c') else entry q c' = entry q c)"
    and other: "get q c = (r, c') \<Longrightarrow> entry q' c \<noteq> entry q' c' \<Longrightarrow> entry q' c' = entry q c'"
begin

definition fresh :: "'q \<Rightarrow> 'c \<Rightarrow> bool" where
  "fresh q c \<longleftrightarrow> (\<exists>d t. entry q c = Some (d, t) \<and> now c - t \<le> ttl)"

lemma fresh_no_request: "fresh q c \<Longrightarrow> get q c = (r, c') \<Longrightarrow> c' = c \<and> (\<exists>t. entry q c = Some (r, t))"
  using hit by (auto simp: fresh_def)

lemma stale_requests: "\<not> fresh q c \<Longrightarrow> get q c = (r, c') \<Longrightarrow> requests c' = Suc (requests c)"
  using miss [of q c r c'] by (cases "entry q c") (auto simp: fresh_def not_le)

lemma get_makes_fresh:
  assumes "get q c = (r, c')" and "fresh q c \<or> answered q c"
  shows "fresh q c' \<and> (\<exists>t. entry q c' = Some (r, t))"
proof (cases "fresh q c")
  case True
  with assms(1) fresh_no_request show ?thesis by blast
next
  case False
  then have "entry q c = None \<or> (\<exists>d t. entry q c = Some (d, t) \<and> ttl < now c - t)"
    by (cases "entry q c") (auto simp: fresh_def not_le)
  with assms False miss [of q c r c'] have "entry q c' = Some (r, now c')" by auto
  then show ?thesis by (simp add: fresh_def)
qed

text \<open>Two requests in a row cost one.\<close>

lemma second_get_free:
  assumes "get q c = (r, c')" and "fresh q c \<or> answered q c"
  shows "get q c' = (r, c')"
  using get_makes_fresh [OF assms] hit by (auto simp: fresh_def)

end

section \<open>The cache\<close>

type_synonym schema_api = "nat \<Rightarrow> query_call \<Rightarrow> js list option \<times> nat"

record schema_cache =
  sc_entries :: "(string, js list \<times> nat) jsmap"
  sc_now :: nat
  sc_log :: "query_call list"

definition sc_ttl :: nat where
  "sc_ttl = 5 * 60 * 1000"

definition cache_key :: "string \<Rightarrow> string \<Rightarrow> js \<Rightarrow> string" where
  "cache_key i ty params = i @ '':'' @ ty @ '':'' @ json_text params"

definition is_expired :: "nat \<Rightarrow> js list \<times> nat \<Rightarrow> bool" where
  "is_expired now e \<longleftrightarrow> now - snd e > sc_ttl"

text \<open>The body the three getters share.\<close>

definition cached_fetch :: "schema_api \<Rightarrow> string \<Rightarrow> query_call \<Rightarrow> schema_cache \<Rightarrow> js list \<times> schema_cache" where
  "cached_fetch api key call c =
     (let fetch = (let (answer, t) = api (sc_now c) call;
                       c' = c\<lparr>sc_now := max (sc_now c) t, sc_log := sc_log c @ [call]\<rparr>
                   in case answer of
                        Some data \<Rightarrow> (data, c'\<lparr>sc_entries := AList.update key (data, sc_now c') (sc_entries c')\<rparr>)
                      | None \<Rightarrow> ([], c'))
      in case map_of (sc_entries c) key of
           Some e \<Rightarrow> if \<not> is_expired (sc_now c) e then (fst e, c) else fetch
         | None \<Rightarrow> fetch)"

text \<open>The options object of a call: the fields the editor gives it, each a text or null.\<close>

definition schema_text :: "js \<Rightarrow> string" where
  "schema_text v = (if truthy v then js_string v else [])"

definition schemas_key :: "string \<times> js \<Rightarrow> string" where
  "schemas_key = (\<lambda>(i, opts). cache_key i ''schemas'' opts)"

definition schemas_call :: "string \<times> js \<Rightarrow> query_call" where
  "schemas_call = (\<lambda>(i, opts). GetSchemas i (schema_text (field opts ''database'')))"

definition tables_key :: "string \<times> js \<Rightarrow> string" where
  "tables_key = (\<lambda>(i, opts). cache_key i ''tables'' opts)"

definition tables_call :: "string \<times> js \<Rightarrow> query_call" where
  "tables_call = (\<lambda>(i, opts). GetTables i (schema_text (field opts ''schema'')) (schema_text (field opts ''database'')))"

definition columns_key :: "string \<times> string \<times> js \<Rightarrow> string" where
  "columns_key = (\<lambda>(i, table, opts). cache_key i ''columns'' (spread (JObj [(''table'', JStr table)]) opts))"

definition columns_call :: "string \<times> string \<times> js \<Rightarrow> query_call" where
  "columns_call = (\<lambda>(i, table, opts).
     GetColumns i table (schema_text (field opts ''schema'')) (schema_text (field opts ''database'')))"

definition cache_get_schemas :: "schema_api \<Rightarrow> string \<times> js \<Rightarrow> schema_cache \<Rightarrow> js list \<times> schema_cache" where
  "cache_get_schemas api q = cached_fetch api (schemas_key q) (schemas_call q)"

definition cache_get_tables :: "schema_api \<Rightarrow> string \<times> js \<Rightarrow> schema_cache \<Rightarrow> js list \<times> schema_cache" where
  "cache_get_tables api q = cached_fetch api (tables_key q) (tables_call q)"

definition cache_get_columns :: "schema_api \<Rightarrow> string \<times> string \<times> js \<Rightarrow> schema_cache \<Rightarrow> js list \<times> schema_cache" where
  "cache_get_columns api q = cached_fetch api (columns_key q) (columns_call q)"

definition cache_invalidate :: "string \<Rightarrow> schema_cache \<Rightarrow> schema_cache" where
  "cache_invalidate i c = c\<lparr>sc_entries := filter (\<lambda>(k, _). \<not> starts_with k (i @ '':'')) (sc_entries c)\<rparr>"

definition cache_clear :: "schema_cache \<Rightarrow> schema_cache" where
  "cache_clear c = c\<lparr>sc_entries := []\<rparr>"

section \<open>The getters are caches\<close>

lemma cached_fetch_hit:
  "map_of (sc_entries c) key = Some (d, t) \<Longrightarrow> sc_now c - t \<le> sc_ttl \<Longrightarrow> cached_fetch api key call c = (d, c)"
  by (simp add: cached_fetch_def is_expired_def Let_def)

lemma cached_fetch_miss:
  assumes "map_of (sc_entries c) key = None \<or> (\<exists>d t. map_of (sc_entries c) key = Some (d, t) \<and> sc_ttl < sc_now c - t)"
    and "cached_fetch api key call c = (r, c')"
  shows "length (sc_log c') = Suc (length (sc_log c))
     \<and> (if fst (api (sc_now c) call) \<noteq> None then map_of (sc_entries c') key = Some (r, sc_now c')
        else map_of (sc_entries c') key = map_of (sc_entries c) key)"
  using assms
  by (auto simp: cached_fetch_def is_expired_def Let_def case_prod_beta split: option.splits)

lemma cached_fetch_other:
  "cached_fetch api key call c = (r, c') \<Longrightarrow> key' \<noteq> key \<Longrightarrow> map_of (sc_entries c') key' = map_of (sc_entries c) key'"
  by (auto simp: cached_fetch_def Let_def case_prod_beta split: option.splits if_splits)

lemma keyed_getter:
  "ttl_cache (\<lambda>q. cached_fetch api (key q) (call q)) (\<lambda>q c. map_of (sc_entries c) (key q)) sc_now
     (\<lambda>c. length (sc_log c)) (\<lambda>q c. fst (api (sc_now c) (call q)) \<noteq> None) sc_ttl"
proof
  fix q d t and c :: schema_cache
  assume "map_of (sc_entries c) (key q) = Some (d, t)" "sc_now c - t \<le> sc_ttl"
  then show "cached_fetch api (key q) (call q) c = (d, c)" by (rule cached_fetch_hit)
next
  fix q r and c c' :: schema_cache
  assume "map_of (sc_entries c) (key q) = None \<or>
      (\<exists>d t. map_of (sc_entries c) (key q) = Some (d, t) \<and> sc_ttl < sc_now c - t)"
    and "cached_fetch api (key q) (call q) c = (r, c')"
  then show "length (sc_log c') = Suc (length (sc_log c)) \<and>
      (if fst (api (sc_now c) (call q)) \<noteq> None then map_of (sc_entries c') (key q) = Some (r, sc_now c')
       else map_of (sc_entries c') (key q) = map_of (sc_entries c) (key q))"
    by (rule cached_fetch_miss)
next
  fix q r q' and c c' :: schema_cache
  assume "cached_fetch api (key q) (call q) c = (r, c')"
    and "map_of (sc_entries c) (key q') \<noteq> map_of (sc_entries c') (key q')"
  then show "map_of (sc_entries c') (key q') = map_of (sc_entries c') (key q)"
    using cached_fetch_other [of api "key q" "call q" c r c' "key q'"] by force
qed

interpretation sch: ttl_cache "cache_get_schemas api" "\<lambda>q c. map_of (sc_entries c) (schemas_key q)" sc_now
    "\<lambda>c. length (sc_log c)" "\<lambda>q c. fst (api (sc_now c) (schemas_call q)) \<noteq> None" sc_ttl for api
  unfolding cache_get_schemas_def [abs_def] by (rule keyed_getter)

interpretation tab: ttl_cache "cache_get_tables api" "\<lambda>q c. map_of (sc_entries c) (tables_key q)" sc_now
    "\<lambda>c. length (sc_log c)" "\<lambda>q c. fst (api (sc_now c) (tables_call q)) \<noteq> None" sc_ttl for api
  unfolding cache_get_tables_def [abs_def] by (rule keyed_getter)

interpretation col: ttl_cache "cache_get_columns api" "\<lambda>q c. map_of (sc_entries c) (columns_key q)" sc_now
    "\<lambda>c. length (sc_log c)" "\<lambda>q c. fst (api (sc_now c) (columns_call q)) \<noteq> None" sc_ttl for api
  unfolding cache_get_columns_def [abs_def] by (rule keyed_getter)

section \<open>Properties\<close>

text \<open>
  A column list is fetched once: when the server has answered a request for the columns of a
  table, every further request for them within five minutes of the answer returns the same list
  without asking the server, however far the clock has moved meanwhile.
\<close>

theorem columns_fetched_once:
  assumes "cache_get_columns api q c = (r, c1)" and "fst (api (sc_now c) (columns_call q)) \<noteq> None"
    and "map_of (sc_entries c) (columns_key q) = None"
    and "sc_now c1 \<le> now" and "now \<le> sc_now c1 + 300000"
  shows "cache_get_columns api q (c1\<lparr>sc_now := now\<rparr>) = (r, c1\<lparr>sc_now := now\<rparr>)
     \<and> length (sc_log c1) = Suc (length (sc_log c))"
proof -
  have "map_of (sc_entries c1) (columns_key q) = Some (r, sc_now c1)"
      "length (sc_log c1) = Suc (length (sc_log c))"
    using col.miss [OF _ assms(1)] assms(2,3) by auto
  then show ?thesis
    using assms(4,5) by (simp add: col.hit sc_ttl_def)
qed

definition demo_schema_api :: schema_api where
  "demo_schema_api t call = (Some [JObj [(''name'', JStr ''id''), (''type'', JStr ''int'')]], t + 40)"

definition empty_cache :: schema_cache where
  "empty_cache = \<lparr>sc_entries = [], sc_now = 1000, sc_log = []\<rparr>"

theorem columns_fetched_once_witness:
  "\<exists>c1. snd (cache_get_columns demo_schema_api (''3'', ''orders'', JObj []) empty_cache) = c1
    \<and> sc_now c1 = 1040
    \<and> cache_get_columns demo_schema_api (''3'', ''orders'', JObj []) (c1\<lparr>sc_now := 200000\<rparr>)
        = ([JObj [(''name'', JStr ''id''), (''type'', JStr ''int'')]], c1\<lparr>sc_now := 200000\<rparr>)"
proof -
  let ?q = "(''3'', ''orders'', JObj [])"
  obtain r c1 where g: "cache_get_columns demo_schema_api ?q empty_cache = (r, c1)" by fastforce
  then have rc: "r = [JObj [(''name'', JStr ''id''), (''type'', JStr ''int'')]]" "sc_now c1 = 1040"
    by (auto simp: cache_get_columns_def cached_fetch_def demo_schema_api_def empty_cache_def Let_def)
  have "cache_get_columns demo_schema_api ?q (c1\<lparr>sc_now := 200000\<rparr>) = (r, c1\<lparr>sc_now := 200000\<rparr>)"
    using columns_fetched_once [OF g, of 200000] rc
    by (simp add: demo_schema_api_def empty_cache_def)
  with g rc show ?thesis by simp
qed

lemma prefix_digits:
  assumes "\<forall>c \<in> set i. is_digit c" and "\<forall>c \<in> set j. is_digit c"
  shows "starts_with (i @ '':'' @ rest) (j @ '':'') \<longleftrightarrow> i = j"
proof
  have colon: "CHR '':'' \<notin> set i" "CHR '':'' \<notin> set j"
    using assms by (auto simp: char_class_defs)
  assume "starts_with (i @ '':'' @ rest) (j @ '':'')"
  then obtain t where "i @ CHR '':'' # rest = j @ CHR '':'' # t"
    by (auto simp: starts_with_iff)
  then have "break_at (CHR '':'') (i @ CHR '':'' # rest) = break_at (CHR '':'') (j @ CHR '':'' # t)" by simp
  then show "i = j" using colon by (simp add: break_at_append)
next
  assume "i = j"
  then show "starts_with (i @ '':'' @ rest) (j @ '':'')"
    using starts_with_append [of "j @ '':''" rest] by simp
qed

text \<open>
  Invalidation is exact: it drops every entry of the given datasource, whatever its kind and
  parameters, and keeps every entry of every other datasource, also of those whose identifier
  begins with the same digits.
\<close>

theorem invalidate_exact:
  "map_of (sc_entries (cache_invalidate (str_of_nat m) c)) (cache_key (str_of_nat n) ty params)
     = (if n = m then None else map_of (sc_entries c) (cache_key (str_of_nat n) ty params))"
proof -
  have "starts_with (cache_key (str_of_nat n) ty params) (str_of_nat m @ '':'') \<longleftrightarrow> n = m"
    unfolding cache_key_def
    using prefix_digits [OF str_of_nat_digits [of n] str_of_nat_digits [of m]] by (metis str_of_nat_inject)
  moreover have "sc_entries (cache_invalidate (str_of_nat m) c)
      = filter (\<lambda>p. \<not> starts_with (fst p) (str_of_nat m @ '':'')) (sc_entries c)"
    by (auto simp: cache_invalidate_def intro: filter_cong)
  ultimately show ?thesis by (simp add: filter_keys_map_of [of "\<lambda>k. \<not> starts_with k (str_of_nat m @ '':'')"])
qed

end
