(* ===== verification/SqlCompletion.thy ===== *)
theory SqlCompletion
  imports SchemaCache
begin

text \<open>
  \<^verbatim>\<open>frontend/js/utils/sql-completion-provider.js\<close>: what the SQL editor offers at the cursor. The
  regular expressions of \<^verbatim>\<open>_parseContext\<close> are written out as the search a backtracking engine does;
  the provider's state is a record, its column lists come from the schema cache.
\<close>

section \<open>Reading the text before the cursor\<close>

definition sql_keywords :: "string list" where
  "sql_keywords =
    [''SELECT'', ''FROM'', ''WHERE'', ''JOIN'', ''INNER'', ''LEFT'', ''RIGHT'', ''OUTER'', ''FULL'',
     ''ON'', ''AND'', ''OR'', ''NOT'', ''IN'', ''LIKE'', ''BETWEEN'', ''IS'', ''NULL'',
     ''ORDER'', ''BY'', ''GROUP'', ''HAVING'', ''LIMIT'', ''OFFSET'',
     ''INSERT'', ''INTO'', ''VALUES'', ''UPDATE'', ''SET'', ''DELETE'',
     ''CREATE'', ''TABLE'', ''ALTER'', ''DROP'', ''INDEX'', ''VIEW'',
     ''AS'', ''DISTINCT'', ''COUNT'', ''SUM'', ''AVG'', ''MIN'', ''MAX'',
     ''UNION'', ''ALL'', ''EXISTS'', ''CASE'', ''WHEN'', ''THEN'', ''ELSE'', ''END'',
     ''ASC'', ''DESC'', ''WITH'', ''RECURSIVE'']"

record sql_context =
  cx_after_select :: bool
  cx_after_from :: bool
  cx_after_where :: bool
  cx_after_join :: bool
  cx_after_dot :: bool
  cx_table_before_dot :: "string option"
  cx_tables :: "string list"

text \<open>\<^verbatim>\<open>/(\w+)\.$/\<close>\<close>

definition dot_table :: "string \<Rightarrow> string option" where
  "dot_table text =
     (case rev text of
        c # r \<Rightarrow> (let w = rev (takeWhile is_word r) in if c = CHR ''.'' \<and> w \<noteq> [] then Some w else None)
      | [] \<Rightarrow> None)"

text \<open>\<^verbatim>\<open>/FROM\s+([\w\s,]+?)(?:WHERE|JOIN|GROUP|ORDER|LIMIT|$)/\<close> on the upper-cased text: the group
  is extended one character at a time; when no extension works a shorter run of white space is tried,
  then a later occurrence of the keyword.\<close>

definition from_stop :: "string \<Rightarrow> bool" where
  "from_stop s \<longleftrightarrow> s = [] \<or> list_ex (starts_with s) [''WHERE'', ''JOIN'', ''GROUP'', ''ORDER'', ''LIMIT'']"

definition from_class :: "char \<Rightarrow> bool" where
  "from_class c \<longleftrightarrow> is_word c \<or> is_ws c \<or> c = CHR '',''"

fun lazy_group :: "string \<Rightarrow> string option" where
  "lazy_group [] = None"
| "lazy_group (c # cs) =
     (if \<not> from_class c then None
      else if from_stop cs then Some [c]
      else map_option ((#) c) (lazy_group cs))"

fun try_spaces :: "nat \<Rightarrow> string \<Rightarrow> string option" where
  "try_spaces 0 s = None"
| "try_spaces (Suc n) s =
     (case lazy_group (drop (Suc n) s) of Some g \<Rightarrow> Some g | None \<Rightarrow> try_spaces n s)"

fun from_group :: "string \<Rightarrow> string option" where
  "from_group [] = None"
| "from_group (c # cs) =
     (let here = (if starts_with (c # cs) ''FROM''
                  then (let rest = drop 4 (c # cs) in try_spaces (length (takeWhile is_ws rest)) rest)
                  else None)
      in case here of Some g \<Rightarrow> Some g | None \<Rightarrow> from_group cs)"

definition parse_context :: "string \<Rightarrow> sql_context" where
  "parse_context text =
     (let upper = to_upper text;
          tokens = rev (split_ws text);
          lastTok = to_upper (hd tokens);
          second = (case tokens of _ # s # _ \<Rightarrow> to_upper s | _ \<Rightarrow> []);
          dot = dot_table text;
          tables = (case from_group upper of
                      Some g \<Rightarrow> map (\<lambda>t. hd (split_ws (trim t))) (split_on (CHR '','') g)
                    | None \<Rightarrow> [])
      in \<lparr>cx_after_select = (lastTok = ''SELECT'' \<or> second = ''SELECT'' \<and> lastTok = '',''),
          cx_after_from = (lastTok = ''FROM''),
          cx_after_where = (lastTok = ''WHERE'' \<or> includes_str upper ''WHERE'' \<and> lastTok = ''AND''
                            \<or> includes_str upper ''WHERE'' \<and> lastTok = ''OR''),
          cx_after_join = (lastTok = ''JOIN'' \<or> second = ''JOIN''),
          cx_after_dot = (dot \<noteq> None),
          cx_table_before_dot = dot,
          cx_tables = tables\<rparr>)"

section \<open>The provider\<close>

record completion_provider =
  cp_datasource :: string
  cp_database :: js
  cp_schema :: js
  cp_schemas :: "js list"
  cp_tables :: "js list"
  cp_columns :: "(string, js list) jsmap"

datatype item_kind = KeywordItem | ClassItem | FieldItem

record completion_item =
  ci_label :: js
  ci_kind :: item_kind
  ci_insert :: js
  ci_detail :: "string option"
  ci_doc :: "string option"
  ci_range :: "nat \<times> nat \<times> nat"

definition cp_options :: "completion_provider \<Rightarrow> js" where
  "cp_options p = JObj [(''database'', cp_database p), (''schema'', cp_schema p)]"

definition new_provider :: "string \<Rightarrow> js \<Rightarrow> completion_provider" where
  "new_provider i ctx =
     \<lparr>cp_datasource = i, cp_database = js_or (field ctx ''database'') JNull,
      cp_schema = js_or (field ctx ''schema'') JNull, cp_schemas = [], cp_tables = [], cp_columns = []\<rparr>"

definition set_datasource :: "string \<Rightarrow> js \<Rightarrow> completion_provider \<Rightarrow> completion_provider" where
  "set_datasource i ctx p = p
     \<lparr>cp_datasource := i, cp_database := js_or (field ctx ''database'') JNull,
      cp_schema := js_or (field ctx ''schema'') JNull, cp_schemas := [], cp_tables := [], cp_columns := []\<rparr>"

definition load_schema :: "schema_api \<Rightarrow> completion_provider \<Rightarrow> schema_cache \<Rightarrow> completion_provider \<times> schema_cache" where
  "load_schema api p c =
     (let (ss, c1) = cache_get_schemas api (cp_datasource p, JObj [(''database'', cp_database p)]) c;
          (ts, c2) = cache_get_tables api (cp_datasource p, cp_options p) c1
      in (p\<lparr>cp_schemas := ss, cp_tables := ts\<rparr>, c2))"

definition load_columns :: "schema_api \<Rightarrow> string \<Rightarrow> completion_provider \<times> schema_cache \<Rightarrow>
    js list \<times> completion_provider \<times> schema_cache" where
  "load_columns api table = (\<lambda>(p, c).
     (case map_of (cp_columns p) table of
        Some cols \<Rightarrow> (cols, p, c)
      | None \<Rightarrow>
          (let (cols, c') = cache_get_columns api (cp_datasource p, table, cp_options p) c
           in (cols, p\<lparr>cp_columns := AList.update table cols (cp_columns p)\<rparr>, c'))))"

definition keyword_items :: "nat \<times> nat \<times> nat \<Rightarrow> completion_item list" where
  "keyword_items r = map (\<lambda>k. \<lparr>ci_label = JStr k, ci_kind = KeywordItem, ci_insert = JStr k,
     ci_detail = None, ci_doc = None, ci_range = r\<rparr>) sql_keywords"

definition table_item :: "nat \<times> nat \<times> nat \<Rightarrow> js \<Rightarrow> completion_item" where
  "table_item r t =
     \<lparr>ci_label = field t ''name'', ci_kind = ClassItem, ci_insert = field t ''name'',
      ci_detail = Some (js_string (js_or (field t ''type'') (JStr ''TABLE''))),
      ci_doc = Some (js_string (js_or (field t ''comment'')
                 (JStr (''Schema: '' @ js_string (js_or (field t ''schema'') (JStr ''default'')))))),
      ci_range = r\<rparr>"

definition column_item :: "nat \<times> nat \<times> nat \<Rightarrow> string \<Rightarrow> js \<Rightarrow> completion_item" where
  "column_item r doc col =
     \<lparr>ci_label = field col ''name'', ci_kind = FieldItem, ci_insert = field col ''name'',
      ci_detail = Some (js_string (field col ''type'') @ (if truthy (field col ''nullable'') then '' (nullable)'' else [])),
      ci_doc = Some doc, ci_range = r\<rparr>"

fun column_suggestions :: "schema_api \<Rightarrow> nat \<times> nat \<times> nat \<Rightarrow> string list \<Rightarrow>
    completion_provider \<times> schema_cache \<Rightarrow> completion_item list \<times> completion_provider \<times> schema_cache" where
  "column_suggestions api r [] s = ([], s)"
| "column_suggestions api r (t # ts) s =
     (let (cols, s1) = load_columns api t s;
          items = map (\<lambda>col. column_item r (''Table: '' @ t @
                    (if truthy (field col ''comment'') then CHR 0x0A # js_string (field col ''comment'') else [])) col) cols;
          (rest, s2) = column_suggestions api r ts s1
      in (items @ rest, s2))"

definition columns_for_table :: "schema_api \<Rightarrow> nat \<times> nat \<times> nat \<Rightarrow> string \<Rightarrow>
    completion_provider \<times> schema_cache \<Rightarrow> completion_item list \<times> completion_provider \<times> schema_cache" where
  "columns_for_table api r table s =
     (let (cols, s') = load_columns api table s
      in (map (\<lambda>col. column_item r (text_or_empty (field col ''comment'')) col) cols, s'))"

definition provide_items :: "schema_api \<Rightarrow> nat \<times> nat \<times> nat \<Rightarrow> string \<Rightarrow>
    completion_provider \<times> schema_cache \<Rightarrow> completion_item list \<times> completion_provider \<times> schema_cache" where
  "provide_items api r text s =
     (let cx = parse_context text in
      if cx_after_from cx \<or> cx_after_join cx then (map (table_item r) (cp_tables (fst s)), s)
      else if cx_after_select cx \<or> cx_after_where cx then column_suggestions api r (cx_tables cx) s
      else if cx_after_dot cx then
        (case cx_table_before_dot cx of Some t \<Rightarrow> columns_for_table api r t s | None \<Rightarrow> ([], s))
      else (keyword_items r @ map (table_item r) (cp_tables (fst s)), s))"

section \<open>Properties\<close>

lemma split_ws_aux_two: "is_ws c \<Longrightarrow> \<exists>w v vs. split_ws_aux False (s @ [c]) = w # v # vs"
proof (induction s)
  case (Cons d s)
  obtain u us where "split_ws_aux True (s @ [c]) = u # us"
    by (meson neq_Nil_conv split_ws_aux_nonempty)
  with Cons show ?case by auto
qed simp

lemma split_ws_aux_last: "is_ws c \<Longrightarrow> last (split_ws_aux b (s @ [c])) = []"
proof (induction b s rule: split_ws_aux.induct)
  case (2 b d cs)
  then show ?case
    using split_ws_aux_two [of c cs] by (auto split: list.splits simp: last_ConsR)
qed simp

lemma split_ws_trailing: "is_ws c \<Longrightarrow> hd (rev (split_ws (s @ [c]))) = []"
  by (simp add: split_ws_def hd_rev split_ws_aux_last)

text \<open>
  A blank ends every context: when the text before the cursor ends with white space, as after
  typing a keyword and a blank, the provider does not see the position as one after SELECT, FROM,
  WHERE, AND, OR or a dot; it offers tables (after JOIN) or the general list, and asks for no column.
\<close>

theorem context_lost_after_blank:
  assumes "is_ws c"
  shows "\<not> cx_after_select (parse_context (text @ [c])) \<and> \<not> cx_after_from (parse_context (text @ [c]))
     \<and> \<not> cx_after_where (parse_context (text @ [c])) \<and> \<not> cx_after_dot (parse_context (text @ [c]))
     \<and> provide_items api r (text @ [c]) s
         = ((if cx_after_join (parse_context (text @ [c])) then [] else keyword_items r)
              @ map (table_item r) (cp_tables (fst s)), s)"
proof -
  have l: "to_upper (hd (rev (split_ws (text @ [c])))) = []"
    using split_ws_trailing [OF assms] by (simp add: to_upper_def)
  have nodot: "dot_table (text @ [c]) = None"
    using assms by (auto simp: dot_table_def is_ws_def Let_def)
  have "\<not> cx_after_select (parse_context (text @ [c]))" by (simp add: parse_context_def l Let_def)
  moreover have "\<not> cx_after_from (parse_context (text @ [c]))" by (simp add: parse_context_def l Let_def)
  moreover have "\<not> cx_after_where (parse_context (text @ [c]))" by (simp add: parse_context_def l Let_def)
  moreover have "\<not> cx_after_dot (parse_context (text @ [c]))" by (simp add: parse_context_def nodot Let_def)
  ultimately show ?thesis by (simp add: provide_items_def)
qed

definition demo_provider :: completion_provider where
  "demo_provider = new_provider ''3'' (JObj [(''schema'', JStr ''public'')])"

theorem context_lost_after_blank_witness:
  "provide_items demo_schema_api (1, 8, 8) ''SELECT '' (demo_provider, empty_cache)
     = (keyword_items (1, 8, 8), demo_provider, empty_cache)"
proof -
  have "is_ws (CHR '' '')" by (simp add: is_ws_def)
  moreover have "\<not> cx_after_join (parse_context (''SELECT'' @ [CHR '' '']))" by code_simp
  ultimately show ?thesis
    using context_lost_after_blank [of "CHR '' ''" "''SELECT''" demo_schema_api "(1, 8, 8)" "(demo_provider, empty_cache)"]
    by (simp add: demo_provider_def new_provider_def)
qed

lemma upper_idem [simp]: "upper_char (upper_char c) = upper_char c"
proof (cases "is_lower_ascii c")
  case True
  then have "char_code (char_of (char_code c - 32)) = char_code c - 32"
    by (intro char_code_of) (auto simp: is_lower_ascii_def)
  with True show ?thesis
    by (auto simp: upper_char_def is_lower_ascii_def)
next
  case False
  then show ?thesis by (simp add: upper_char_def)
qed

definition upper_only :: "string \<Rightarrow> bool" where
  "upper_only s \<longleftrightarrow> to_upper s = s"

lemma upper_only_set: "upper_only s \<longleftrightarrow> (\<forall>c \<in> set s. upper_char c = c)"
  by (auto simp: upper_only_def to_upper_def map_eq_conv intro: map_idI)
     (metis imageI list.set_map map_eq_conv map_ident)

lemma lazy_group_sub: "lazy_group s = Some g \<Longrightarrow> set g \<subseteq> set s"
  by (induction s arbitrary: g) (auto split: if_splits)

lemma try_spaces_sub: "try_spaces n s = Some g \<Longrightarrow> set g \<subseteq> set s"
proof (induction n)
  case (Suc n)
  then show ?case
    using lazy_group_sub [of "drop (Suc n) s" g] set_drop_subset [of "Suc n" s]
    by (auto split: option.splits)
qed simp

lemma from_group_sub: "from_group s = Some g \<Longrightarrow> set g \<subseteq> set s"
proof (induction s)
  case (Cons c cs)
  then show ?case
    using try_spaces_sub [of "length (takeWhile is_ws (drop 4 (c # cs)))" "drop 4 (c # cs)" g]
      set_drop_subset [of 4 "c # cs"]
    by (auto simp: Let_def split: option.splits if_splits)
qed simp

lemma split_on_sub: "w \<in> set (split_on d s) \<Longrightarrow> set w \<subseteq> set s"
proof (induction s arbitrary: w)
  case (Cons c s)
  then show ?case
    by (cases "split_on d s") (auto split: if_splits, blast+)
qed simp

lemma split_ws_aux_sub: "w \<in> set (split_ws_aux b s) \<Longrightarrow> set w \<subseteq> set s"
proof (induction b s arbitrary: w rule: split_ws_aux.induct)
  case (2 b c cs)
  then show ?case
    by (cases "split_ws_aux False cs") (auto split: if_splits, blast+)
qed simp

lemma set_trim: "set (trim s) \<subseteq> set s"
  unfolding trim_def trim_end_def by (metis set_dropWhileD set_rev subsetI)

text \<open>
  The tables of a context are in upper case, whatever case the user wrote them in: every table
  the provider asks the server about is the upper-cased name.
\<close>

theorem context_tables_upper:
  "map to_upper (cx_tables (parse_context text)) = cx_tables (parse_context text)"
proof (cases "from_group (to_upper text)")
  case None
  then show ?thesis by (simp add: parse_context_def Let_def)
next
  case (Some g)
  have g: "\<forall>c \<in> set g. upper_char c = c"
    using from_group_sub [OF Some] by (auto simp: to_upper_def)
  have "to_upper (hd (split_ws (trim t))) = hd (split_ws (trim t))" if "t \<in> set (split_on (CHR '','') g)" for t
  proof -
    have "hd (split_ws (trim t)) \<in> set (split_ws (trim t))" by (simp add: split_ws_def)
    then have "set (hd (split_ws (trim t))) \<subseteq> set (trim t)"
      unfolding split_ws_def by (rule split_ws_aux_sub)
    with set_trim [of t] split_on_sub [OF that] g have "upper_only (hd (split_ws (trim t)))"
      by (auto simp: upper_only_set)
    then show ?thesis by (simp add: upper_only_def)
  qed
  then show ?thesis using Some by (simp add: parse_context_def Let_def)
qed

text \<open>
  A failed column request is remembered: when the server rejects the first request for the
  columns of a table, the provider answers every later request for this table with no columns, whatever
  the server would say by then and whatever the cache holds, until the datasource is changed.
\<close>

theorem failed_columns_remembered:
  assumes "map_of (cp_columns p) table = None"
    and "map_of (sc_entries c) (columns_key (cp_datasource p, table, cp_options p)) = None"
    and "fst (api (sc_now c) (columns_call (cp_datasource p, table, cp_options p))) = None"
    and "load_columns api table (p, c) = (cols, p', c')"
  shows "cols = [] \<and> load_columns api' table (p', d) = ([], p', d)
     \<and> map_of (cp_columns (set_datasource i ctx p')) table = None"
proof -
  from assms(2,3) have "fst (cache_get_columns api (cp_datasource p, table, cp_options p) c) = []"
    by (simp add: cache_get_columns_def cached_fetch_def case_prod_beta Let_def)
  with assms(1,4) show ?thesis
    by (auto simp: load_columns_def set_datasource_def case_prod_beta Let_def)
qed

theorem failed_columns_remembered_witness:
  "\<exists>p'. fst (snd (load_columns (\<lambda>t call. (None, t)) ''ORDERS'' (demo_provider, empty_cache))) = p'
     \<and> load_columns demo_schema_api ''ORDERS'' (p', empty_cache) = ([], p', empty_cache)"
proof -
  obtain cols p' c' where l: "load_columns (\<lambda>t call. (None, t)) ''ORDERS'' (demo_provider, empty_cache) = (cols, p', c')"
    by (metis prod_cases3)
  have "load_columns demo_schema_api ''ORDERS'' (p', empty_cache) = ([], p', empty_cache)"
    using failed_columns_remembered [OF _ _ _ l]
    by (simp add: demo_provider_def new_provider_def empty_cache_def)
  with l show ?thesis by simp
qed

end
