(* ===== verification/SqlConsole.thy ===== *)
theory SqlConsole
  imports HtmlForm UrlCodec
begin

text \<open>
  \<^verbatim>\<open>frontend/js/pages/sqlConsole.js\<close> with \<^verbatim>\<open>components/query-editor.js\<close> and \<^verbatim>\<open>components/table.js\<close>: the SQL
  window. Its editor, the drafts it keeps in the browser's storage, the query in flight and its buttons, the
  database and schema chosen, the results. A request is split at its \<^verbatim>\<open>await\<close>; what it remembers is a token.
  Monaco and AG Grid are vendored: an editor holds a text once it is loaded, a grid shows the rows it is given.
  The storage is taken to have room; \<open>parse\<close> is \<^verbatim>\<open>JSON.parse\<close>.
\<close>

section \<open>The editor\<close>

text \<open>Monaco loads on demand: until then there is no editor, and no text.\<close>

datatype qeditor = NoEditor | Monaco string | Textarea string

fun editor_value :: "qeditor \<Rightarrow> string" where
  "editor_value NoEditor = []"
| "editor_value (Monaco s) = s"
| "editor_value (Textarea s) = s"

fun editor_set :: "string \<Rightarrow> qeditor \<Rightarrow> qeditor" where
  "editor_set s NoEditor = NoEditor"
| "editor_set s (Monaco _) = Monaco s"
| "editor_set s (Textarea _) = Textarea (unix_newlines s)"

text \<open>Creating the editor: the fallback at once, or later the callback of the loader.\<close>

definition create_editor :: "bool \<Rightarrow> string \<Rightarrow> qeditor \<Rightarrow> qeditor" where
  "create_editor loader sql ed = (if loader then ed else Textarea (unix_newlines sql))"

text \<open>Completion providers: the current one, those registered, and those disposed of with the editor.\<close>

record providers =
  pv_current :: "nat option"
  pv_live :: "nat list"
  pv_owned :: "nat list"

definition set_schema_begin :: "qeditor \<Rightarrow> providers \<Rightarrow> providers option" where
  "set_schema_begin ed p =
     (case ed of
        Monaco _ \<Rightarrow> Some (case pv_current p of Some n \<Rightarrow> p\<lparr>pv_live := removeAll n (pv_live p)\<rparr> | None \<Rightarrow> p)
      | _ \<Rightarrow> None)"

definition set_schema_end :: "nat \<Rightarrow> providers \<Rightarrow> providers" where
  "set_schema_end n p = p\<lparr>pv_current := Some n, pv_live := pv_live p @ [n], pv_owned := pv_owned p @ [n]\<rparr>"

definition editor_destroy :: "providers \<Rightarrow> qeditor \<times> providers" where
  "editor_destroy p =
     (NoEditor, \<lparr>pv_current = None, pv_live = filter (\<lambda>n. n \<notin> set (pv_owned p)) (pv_live p), pv_owned = []\<rparr>)"

section \<open>Drafts\<close>

definition draft_prefix :: string where
  "draft_prefix = ''dbclaw:sql-console:draft:''"

definition draft_ttl :: int where
  "draft_ttl = 30 * 24 * 60 * 60 * 1000"

definition draft_identity :: "js \<Rightarrow> string" where
  "draft_identity ds =
     (let host = to_lower (trim (text_or_empty (field ds ''host''))); port = trim (text_or_empty (field ds ''port''));
          service = (if port \<noteq> [] then host @ '':'' @ port else host);
          user = to_lower (trim (text_or_empty (field ds ''username'')))
      in join ''|'' [if service = [] then ''-'' else service, if user = [] then ''-'' else user, js_string (field ds ''id'')])"

definition draft_key :: "js \<Rightarrow> string option" where
  "draft_key ds =
     (if \<not> truthy ds \<or> \<not> truthy (field ds ''id'') then None
      else Some (draft_prefix @ encode_uri_component (draft_identity ds)))"

definition draft_expired :: "int \<Rightarrow> js \<Rightarrow> bool" where
  "draft_expired now payload =
     (case to_number (js_or (field payload ''expiresAt'') (JInt 0)) of
        Fin q \<Rightarrow> q = 0 \<or> of_int now > q | PInf \<Rightarrow> False | MInf \<Rightarrow> True | NaN \<Rightarrow> True)"

text \<open>The draft of a datasource, and the storage, from which a draft that is broken or too old is removed.\<close>

definition read_draft ::
  "(string \<Rightarrow> js option) \<Rightarrow> int \<Rightarrow> js \<Rightarrow> (string, string) jsmap \<Rightarrow> string option \<times> (string, string) jsmap" where
  "read_draft parse now ds store =
     (case draft_key ds of
        None \<Rightarrow> (None, store)
      | Some key \<Rightarrow>
          case map_of store key of
            None \<Rightarrow> (None, store)
          | Some raw \<Rightarrow>
              if raw = [] then (None, store)
              else case parse raw of
                     None \<Rightarrow> (None, store)
                   | Some payload \<Rightarrow>
                       if \<not> truthy payload \<or> \<not> typeof_object payload \<or> draft_expired now payload
                       then (None, AList.delete key store)
                       else (case field payload ''sql'' of JStr s \<Rightarrow> Some s | _ \<Rightarrow> None, store))"

definition save_draft :: "int \<Rightarrow> js \<Rightarrow> string \<Rightarrow> (string, string) jsmap \<Rightarrow> (string, string) jsmap" where
  "save_draft now ds sql store =
     (case draft_key ds of
        None \<Rightarrow> store
      | Some key \<Rightarrow>
          AList.update key (json_text (JObj [(''sql'', JStr sql), (''savedAt'', JInt now), (''expiresAt'', JInt (now + draft_ttl))])) store)"

definition default_sql :: string where
  "default_sql = ''SELECT 1;''"

section \<open>The page\<close>

datatype sql_status = Ready | Executing | Canceled | Summary js js bool | ErrorStatus

datatype sql_results = NoResults | Blank | Loading | Table js js | RenderFailed | Message string | Plan js | ErrorText string

record query_context =
  qc_db_type :: js
  qc_supports_database :: bool
  qc_supports_schema :: bool
  qc_databases :: "js list"
  qc_schemas :: "js list"
  qc_database :: js
  qc_schema :: js

definition no_context :: query_context where
  "no_context = \<lparr>qc_db_type = JNull, qc_supports_database = False, qc_supports_schema = False, qc_databases = [],
     qc_schemas = [], qc_database = JNull, qc_schema = JNull\<rparr>"

text \<open>
  The page. A visit is one rendering of it: its controls are gone when it is left. The request in flight is its
  number and its datasource; the abort controller comes and goes with it. The last two fields are the values of
  the two select boxes.
\<close>

record console =
  sq_visit :: nat
  sq_shown :: bool
  sq_editor :: qeditor
  sq_store :: "(string, string) jsmap"
  sq_selected :: js
  sq_request :: "(nat \<times> js) option"
  sq_status :: sql_status
  sq_results :: sql_results
  sq_executing :: bool
  sq_cancellable :: bool
  sq_cancels :: "(nat \<times> js) list"
  sq_context :: query_context
  sq_database_box :: string
  sq_schema_box :: string

definition save_current :: "int \<Rightarrow> console \<Rightarrow> console" where
  "save_current now p = p\<lparr>sq_store := save_draft now (sq_selected p) (editor_value (sq_editor p)) (sq_store p)\<rparr>"

definition apply_draft :: "(string \<Rightarrow> js option) \<Rightarrow> int \<Rightarrow> js \<Rightarrow> console \<Rightarrow> console" where
  "apply_draft parse now ds p =
     (case read_draft parse now ds (sq_store p) of
        (draft, store) \<Rightarrow>
          p\<lparr>sq_store := store, sq_editor := editor_set (case draft of Some s \<Rightarrow> s | None \<Rightarrow> default_sql) (sq_editor p)\<rparr>)"

section \<open>Database and schema\<close>

definition normalize_context :: "js \<Rightarrow> js" where
  "normalize_context v =
     (if nullish v then JNull else let s = trim (js_string v) in if s = [] then JNull else JStr s)"

text \<open>The options of a select box, and the one it shows.\<close>

definition select_options :: "js list \<Rightarrow> js \<Rightarrow> js list" where
  "select_options vs selected =
     (let shown = filter (\<lambda>v. \<not> nullish v \<and> trim (js_string v) \<noteq> []) vs; cur = normalize_context selected;
          opts = (if cur \<noteq> JNull \<and> cur \<notin> set shown then cur # shown else shown)
      in if opts = [] then [JStr []] else opts)"

definition build_select :: "js list \<Rightarrow> js \<Rightarrow> string" where
  "build_select vs selected =
     (let opts = select_options vs selected; cur = normalize_context selected
      in case filter (\<lambda>v. strict_eq v cur \<or> (\<not> truthy v \<and> cur = JNull)) opts of
           [] \<Rightarrow> js_string (hd opts) | vs' \<Rightarrow> js_string (last vs'))"

definition resolve_selection :: "js \<Rightarrow> js \<Rightarrow> js list \<Rightarrow> js" where
  "resolve_selection requested fallback available =
     (let r = normalize_context requested; f = normalize_context fallback
      in if r \<noteq> JNull then r
         else if f \<noteq> JNull \<and> f \<in> set available then f
         else if f \<noteq> JNull \<and> available = [] then f
         else case available of [] \<Rightarrow> JNull | v # _ \<Rightarrow> js_or v JNull)"

definition render_selectors :: "console \<Rightarrow> console" where
  "render_selectors p =
     (if \<not> sq_shown p then p
      else let c = sq_context p; p1 = p\<lparr>sq_database_box := build_select (qc_databases c) (qc_database c)\<rparr>
           in if qc_supports_schema c then p1\<lparr>sq_schema_box := build_select (qc_schemas c) (qc_schema c)\<rparr> else p1)"

datatype context_option = ResetSelections | ChooseDatabase js | KeepSelections

text \<open>What a load of the context asks for, and what it makes of the answer; an exception clears everything.\<close>

definition context_begin :: "context_option \<Rightarrow> console \<Rightarrow> js \<times> js" where
  "context_begin opt p =
     (case opt of
        ResetSelections \<Rightarrow> (JNull, JNull)
      | ChooseDatabase d \<Rightarrow> (js_or d JNull, JNull)
      | KeepSelections \<Rightarrow> (qc_database (sq_context p), qc_schema (sq_context p)))"

definition context_of :: "js \<times> js \<Rightarrow> js \<Rightarrow> query_context" where
  "context_of requested ctx =
     (let databases = elements (js_or (field ctx ''databases'') (JArr []));
          schemas = elements (js_or (field ctx ''schemas'') (JArr []));
          supports_schema = truthy (field ctx ''supports_schema'')
      in \<lparr>qc_db_type = js_or (field ctx ''db_type'') JNull,
          qc_supports_database = (truthy (field ctx ''supports_database'') \<and> databases \<noteq> []),
          qc_supports_schema = supports_schema, qc_databases = databases, qc_schemas = schemas,
          qc_database = resolve_selection (fst requested) (field ctx ''current_database'') databases,
          qc_schema = (if supports_schema then resolve_selection (snd requested) (field ctx ''current_schema'') schemas else JNull)\<rparr>)"

definition context_end :: "js \<times> js \<Rightarrow> js option \<Rightarrow> console \<Rightarrow> console" where
  "context_end requested answer p =
     render_selectors (p\<lparr>sq_context := (case answer of Some ctx \<Rightarrow> if nullish ctx then no_context else context_of requested ctx
                                        | None \<Rightarrow> no_context)\<rparr>)"

text \<open>The user chooses in the boxes. A new database forgets the schema and loads the context again.\<close>

definition choose_database :: "string \<Rightarrow> console \<Rightarrow> (js \<times> js) option \<times> console" where
  "choose_database s p =
     (let p1 = p\<lparr>sq_database_box := s, sq_context := (sq_context p)\<lparr>qc_database := normalize_context (JStr s), qc_schema := JNull\<rparr>\<rparr>
      in (if truthy (field (sq_selected p1) ''id'')
          then Some (context_begin (ChooseDatabase (qc_database (sq_context p1))) p1) else None, p1))"

definition choose_schema :: "string \<Rightarrow> console \<Rightarrow> console" where
  "choose_schema s p =
     p\<lparr>sq_schema_box := s, sq_context := (sq_context p)\<lparr>qc_schema := normalize_context (JStr s)\<rparr>\<rparr>"

text \<open>The database and the schema a query runs in, read from the boxes while they are there.\<close>

definition execution_context :: "console \<Rightarrow> (js \<times> js) \<times> console" where
  "execution_context p =
     (let c = sq_context p;
          c1 = (if sq_shown p then c\<lparr>qc_database := normalize_context (JStr (sq_database_box p))\<rparr> else c);
          c2 = (if sq_shown p \<and> qc_supports_schema c1 then c1\<lparr>qc_schema := normalize_context (JStr (sq_schema_box p))\<rparr> else c1)
      in ((js_or (qc_database c2) JNull, if qc_supports_schema c2 then js_or (qc_schema c2) JNull else JNull),
          p\<lparr>sq_context := c2\<rparr>))"

section \<open>Running a query\<close>

datatype sql_warning = EnterStatement | SelectDatasource

definition statement_of :: "string \<Rightarrow> console \<Rightarrow> string" where
  "statement_of selection p = trim (if selection \<noteq> [] then selection else editor_value (sq_editor p))"

record query_token =
  qt_id :: nat
  qt_visit :: nat

definition start_query :: "nat \<Rightarrow> string \<Rightarrow> js \<Rightarrow> console \<Rightarrow> (query_token \<times> js) \<times> console" where
  "start_query n sql conn p =
     (let p1 = p\<lparr>sq_status := Executing, sq_results := Blank, sq_executing := True, sq_cancellable := True,
                  sq_request := Some (n, conn)\<rparr>;
          ((database, schema), p2) = execution_context p1
      in ((\<lparr>qt_id = n, qt_visit = sq_visit p2\<rparr>,
           JObj [(''datasource_id'', conn), (''request_id'', JInt (int n)), (''sql'', JStr sql),
             (''max_rows'', JInt 10000), (''database'', database), (''schema'', schema)]), p2))"

text \<open>
  \<^verbatim>\<open>_executeQuery\<close> up to its request: a warning, or the payload and what the completion remembers. The number of
  the request is new, as \<^verbatim>\<open>crypto.randomUUID\<close> makes it. The Execute button calls it while enabled, the key
  binding of the editor always.
\<close>

definition execute_begin ::
  "int \<Rightarrow> nat \<Rightarrow> string \<Rightarrow> console \<Rightarrow> (sql_warning + (query_token \<times> js) option) \<times> console" where
  "execute_begin now n selection p =
     (let sql = statement_of selection p; conn = js_or (field (sq_selected p) ''id'') JNull in
      if sql = [] then (Inl EnterStatement, p)
      else if \<not> truthy conn then (Inl SelectDatasource, p)
      else if \<not> sq_shown p then (Inr None, save_current now p)
      else (case start_query n sql conn (save_current now p) of (sent, q) \<Rightarrow> (Inr (Some sent), q)))"

datatype query_answer = QueryResult js | QueryAborted | QueryFailed string

text \<open>The message of the server for a query canceled on its side, as UTF-8.\<close>

definition canceled_message :: string where
  "canceled_message = map char_of [230, 159, 165, 232, 175, 162, 229, 183, 178, 229, 143, 150, 230, 182, 136 :: nat]"

definition show_table :: "js \<Rightarrow> js \<Rightarrow> sql_results" where
  "show_table columns rows = (case rows of JArr _ \<Rightarrow> Table columns rows | _ \<Rightarrow> RenderFailed)"

definition query_results :: "js \<Rightarrow> console \<Rightarrow> console" where
  "query_results result p =
     (if \<not> sq_shown p then p
      else if elements (field result ''columns'') \<noteq> []
      then p\<lparr>sq_results := show_table (field result ''columns'') (field result ''rows'')\<rparr>
      else if truthy (field result ''message'') then p\<lparr>sq_results := Message (js_string (field result ''message''))\<rparr>
      else p)"

definition query_failed :: "string \<Rightarrow> console \<Rightarrow> console" where
  "query_failed msg p =
     (if \<not> sq_shown p then p
      else if msg = canceled_message then p\<lparr>sq_status := Canceled\<rparr>
      else p\<lparr>sq_results := ErrorText msg, sq_status := ErrorStatus\<rparr>)"

text \<open>
  The completion. The results and an error go to the page on display, the summary to the status bar the request
  was sent from; the \<^verbatim>\<open>finally\<close> part belongs to the request in flight only.
\<close>

definition from_here :: "query_token \<Rightarrow> console \<Rightarrow> bool" where
  "from_here tk p \<longleftrightarrow> sq_shown p \<and> qt_visit tk = sq_visit p"

definition show_answer :: "query_token \<Rightarrow> query_answer \<Rightarrow> console \<Rightarrow> console" where
  "show_answer tk answer p =
     (case answer of
        QueryAborted \<Rightarrow> p
      | QueryFailed msg \<Rightarrow> query_failed msg p
      | QueryResult result \<Rightarrow>
          if nullish result then query_failed ''TypeError'' p
          else let q = query_results result p
               in if from_here tk q
                  then q\<lparr>sq_status := Summary (field result ''row_count'') (field result ''execution_time_ms'')
                                        (truthy (field result ''truncated''))\<rparr>
                  else q)"

definition query_finally :: "query_token \<Rightarrow> console \<Rightarrow> console" where
  "query_finally tk p =
     (if map_option fst (sq_request p) \<noteq> Some (qt_id tk) then p
      else if from_here tk p then p\<lparr>sq_request := None, sq_executing := False, sq_cancellable := False\<rparr>
      else p\<lparr>sq_request := None\<rparr>)"

definition execute_end :: "query_token \<Rightarrow> query_answer \<Rightarrow> console \<Rightarrow> console" where
  "execute_end tk answer p = query_finally tk (show_answer tk answer p)"

definition cancel_query :: "console \<Rightarrow> console" where
  "cancel_query p =
     (case sq_request p of
        None \<Rightarrow> p
      | Some r \<Rightarrow>
          let p1 = p\<lparr>sq_cancels := sq_cancels p @ [r], sq_request := None\<rparr>
          in if sq_shown p1 then p1\<lparr>sq_status := Canceled, sq_executing := False, sq_cancellable := False\<rparr> else p1)"

section \<open>The execution plan\<close>

definition explain_begin :: "string \<Rightarrow> console \<Rightarrow> (sql_warning + (nat \<times> js) option) \<times> console" where
  "explain_begin selection p =
     (let sql = statement_of selection p; conn = js_or (field (sq_selected p) ''id'') JNull in
      if sql = [] then (Inl EnterStatement, p)
      else if \<not> truthy conn then (Inl SelectDatasource, p)
      else if \<not> sq_shown p then (Inr None, p)
      else (let ((database, schema), p1) = execution_context (p\<lparr>sq_results := Loading\<rparr>)
            in (Inr (Some (sq_visit p1, JObj [(''datasource_id'', conn), (''sql'', JStr sql), (''database'', database), (''schema'', schema)])), p1)))"

text \<open>An answer goes to the page on display, an error to the one it was asked from.\<close>

definition explain_end :: "nat \<Rightarrow> string + js \<Rightarrow> console \<Rightarrow> console" where
  "explain_end visit answer p =
     (case answer of
        Inr result \<Rightarrow>
          if \<not> sq_shown p then p
          else p\<lparr>sq_results :=
                 (if truthy (field result ''columns'') \<and> truthy (field result ''rows'')
                  then (if is_arr (field result ''columns'') then show_table (field result ''columns'') (field result ''rows'') else RenderFailed)
                  else Plan (if truthy (field result ''plan'') then field result ''plan'' else result))\<rparr>
      | Inl msg \<Rightarrow> if sq_shown p \<and> visit = sq_visit p then p\<lparr>sq_results := ErrorText msg\<rparr> else p)"

section \<open>Entering, choosing a datasource, leaving\<close>

text \<open>Rendering: the draft of the datasource is the first text of the editor, which loads on its own.\<close>

definition render_console :: "(string \<Rightarrow> js option) \<Rightarrow> int \<Rightarrow> bool \<Rightarrow> js \<Rightarrow> console \<Rightarrow> string \<times> console" where
  "render_console parse now loader conn p =
     (case read_draft parse now conn (sq_store p) of
        (draft, store) \<Rightarrow>
          let sql = (case draft of Some s \<Rightarrow> s | None \<Rightarrow> default_sql)
          in (sql, p\<lparr>sq_visit := Suc (sq_visit p), sq_shown := True, sq_selected := conn, sq_store := store,
                     sq_editor := create_editor loader sql (sq_editor p), sq_status := Ready, sq_results := NoResults,
                     sq_executing := False, sq_cancellable := False, sq_database_box := [], sq_schema_box := []\<rparr>))"

definition editor_ready :: "string \<Rightarrow> console \<Rightarrow> console" where
  "editor_ready sql p = p\<lparr>sq_editor := Monaco sql\<rparr>"

text \<open>The delayed first load of the context, and the one for a datasource chosen in the selector.\<close>

definition first_context :: "console \<Rightarrow> (js \<times> js) option" where
  "first_context p = (if truthy (field (sq_selected p) ''id'') then Some (context_begin ResetSelections p) else None)"

definition choose_connection :: "(string \<Rightarrow> js option) \<Rightarrow> int \<Rightarrow> js \<Rightarrow> console \<Rightarrow> (js \<times> js) option \<times> console" where
  "choose_connection parse now ds p =
     (if \<not> truthy ds then (None, p)
      else let p1 = p\<lparr>sq_selected := ds, sq_context := (sq_context p)\<lparr>qc_database := JNull, qc_schema := JNull\<rparr>\<rparr>;
               p2 = apply_draft parse now ds p1
           in (Some (context_begin ResetSelections p2), p2))"

definition leave_console :: "int \<Rightarrow> console \<Rightarrow> console" where
  "leave_console now p =
     (let p1 = cancel_query (save_current now p)
      in p1\<lparr>sq_editor := NoEditor, sq_context := no_context, sq_request := None, sq_shown := False\<rparr>)"

section \<open>History\<close>

definition same_number :: "js \<Rightarrow> js \<Rightarrow> bool" where
  "same_number a b = (case (to_number a, to_number b) of (NaN, _) \<Rightarrow> False | (x, y) \<Rightarrow> x = y)"

definition history_rows :: "js \<Rightarrow> js list \<Rightarrow> js list" where
  "history_rows datasource_id history =
     take 20 (if truthy datasource_id then filter (\<lambda>h. same_number (field h ''datasource_id'') datasource_id) history else history)"

definition choose_history :: "js \<Rightarrow> console \<Rightarrow> console" where
  "choose_history item p = p\<lparr>sq_editor := editor_set (js_string (field item ''sql'')) (sq_editor p)\<rparr>"

section \<open>The height of the editor\<close>

text \<open>The bounds, from the container's height and those of toolbar, divider and status bar; no container, no limit.\<close>

definition height_bounds :: "int option \<Rightarrow> int list \<Rightarrow> int \<Rightarrow> int \<times> int" where
  "height_bounds container reserved height =
     (case container of
        None \<Rightarrow> (0, if height \<noteq> 0 then height else 400)
      | Some h \<Rightarrow> (0, max 0 (max 0 (h - sum_list reserved) - 140)))"

definition adaptive_height :: "int option \<Rightarrow> int list \<Rightarrow> int \<Rightarrow> int \<Rightarrow> int" where
  "adaptive_height container reserved height shown =
     (case height_bounds container reserved height of (lo, hi) \<Rightarrow>
        max lo (min (if shown \<noteq> 0 then shown else if height \<noteq> 0 then height else 400) hi))"

definition drag_height :: "int option \<Rightarrow> int list \<Rightarrow> int \<Rightarrow> int \<Rightarrow> int \<Rightarrow> int" where
  "drag_height container reserved height start_height delta =
     (case height_bounds container reserved height of (lo, hi) \<Rightarrow> max lo (min (start_height + delta) hi))"

section \<open>The result table\<close>

definition at_index :: "js list \<Rightarrow> nat \<Rightarrow> js" where
  "at_index xs i = (if i < length xs then xs ! i else JUndef)"

text \<open>A row of the grid: an object from column names to values.\<close>

definition row_object :: "string list \<Rightarrow> nat \<Rightarrow> js list \<Rightarrow> js" where
  "row_object columns idx row =
     foldl (\<lambda>o1 (i, col). set_field col (at_index row i) o1) (JObj [(''_id'', JInt (int idx))]) (enumerate 0 columns)"

definition grid_rows :: "string list \<Rightarrow> js list list \<Rightarrow> js list" where
  "grid_rows columns rows = map (\<lambda>(idx, row). row_object columns idx row) (enumerate 0 rows)"

text \<open>What the grid shows in a cell.\<close>

definition cell_text :: "(jnum \<Rightarrow> string) \<Rightarrow> js \<Rightarrow> string" where
  "cell_text intl v =
     (case v of JUndef \<Rightarrow> ''NULL'' | JNull \<Rightarrow> ''NULL''
      | JNum n \<Rightarrow> if num_less (Fin 9999) n then intl n else js_string v
      | _ \<Rightarrow> js_string v)"

section \<open>Laws of the drafts\<close>

definition draft_payload :: "int \<Rightarrow> string \<Rightarrow> js" where
  "draft_payload now sql = JObj [(''sql'', JStr sql), (''savedAt'', JInt now), (''expiresAt'', JInt (now + draft_ttl))]"

lemma save_draft_key: "draft_key ds = Some k \<Longrightarrow> save_draft now ds sql store = AList.update k (json_text (draft_payload now sql)) store"
  by (simp add: save_draft_def draft_payload_def)

lemma payload_expired: "0 \<le> now \<Longrightarrow> draft_expired t (draft_payload now sql) \<longleftrightarrow> now + draft_ttl < t"
proof -
  assume "0 \<le> now"
  then have "(of_int (now + draft_ttl) :: rat) \<noteq> 0" by (simp add: draft_ttl_def flip: of_int_add)
  moreover have "of_int (now + draft_ttl) < (of_int t :: rat) \<longleftrightarrow> now + draft_ttl < t" by (rule of_int_less_iff)
  ultimately show ?thesis by (simp add: draft_expired_def draft_payload_def js_or_def)
qed

lemma read_saved:
  assumes "draft_key ds = Some k" and "parse (json_text (draft_payload now sql)) = Some (draft_payload now sql)" and "0 \<le> now"
    and "map_of store k = Some (json_text (draft_payload now sql))"
  shows "read_draft parse t ds store = (if t \<le> now + draft_ttl then (Some sql, store) else (None, AList.delete k store))"
proof -
  have "json_text (draft_payload now sql) \<noteq> []" by (simp add: draft_payload_def)
  moreover have "truthy (draft_payload now sql)" "typeof_object (draft_payload now sql)" "field (draft_payload now sql) ''sql'' = JStr sql"
    by (simp_all add: draft_payload_def)
  ultimately show ?thesis using assms payload_expired [OF assms(3)] by (simp add: read_draft_def not_le)
qed

text \<open>
  C24. A draft lasts thirty days: what was in the editor when it was saved is what the datasource finds again
  until then, and nothing afterwards, when the draft is taken out of the storage.
\<close>

theorem draft_roundtrip:
  assumes "draft_key ds = Some k" and "parse (json_text (draft_payload now sql)) = Some (draft_payload now sql)" and "0 \<le> now"
  shows "read_draft parse t ds (save_draft now ds sql store)
    = (if t \<le> now + draft_ttl then (Some sql, save_draft now ds sql store)
       else (None, AList.delete k (save_draft now ds sql store)))"
  using assms by (intro read_saved [where parse = parse]) (simp_all add: save_draft_key)

definition demo_parse :: "js list \<Rightarrow> string \<Rightarrow> js option" where
  "demo_parse vs s = find (\<lambda>v. json_text v = s) vs"

definition demo_source :: "int \<Rightarrow> js" where
  "demo_source i = JObj [(''id'', JInt i), (''host'', JStr ''db''), (''username'', JStr ''app'')]"

lemma demo_key: "i \<noteq> 0 \<Longrightarrow> draft_key (demo_source i) = Some (draft_prefix @ encode_uri_component (draft_identity (demo_source i)))"
  by (simp add: draft_key_def demo_source_def)

theorem draft_roundtrip_witness:
  "fst (read_draft (demo_parse [draft_payload 1000 ''SELECT 2'']) 2000 (demo_source 7) (save_draft 1000 (demo_source 7) ''SELECT 2'' []))
    = Some ''SELECT 2''"
proof -
  have "demo_parse [draft_payload 1000 ''SELECT 2''] (json_text (draft_payload 1000 ''SELECT 2'')) = Some (draft_payload 1000 ''SELECT 2'')"
    by (simp add: demo_parse_def)
  from draft_roundtrip [where parse = "demo_parse [draft_payload 1000 ''SELECT 2'']", OF demo_key [of 7] this]
  show ?thesis by (simp add: draft_ttl_def)
qed

lemma last_segment:
  assumes "x @ c # u = y @ c # v" and "c \<notin> set u" and "c \<notin> set v"
  shows "u = v"
proof -
  have r: "takeWhile (\<lambda>d. d \<noteq> c) (rev (z @ c # w)) = rev w" if "c \<notin> set w" for z w
    using takeWhile_append2 [of "rev w" "\<lambda>d. d \<noteq> c" "c # rev z"] that by auto
  show ?thesis using r [of u x] r [of v y] assms by (metis rev_rev_ident)
qed

lemma identity_id: "\<exists>x. draft_identity ds = x @ CHR ''|'' # js_string (field ds ''id'')"
  by (simp add: draft_identity_def Let_def)

text \<open>
  Drafts of different datasources do not mix: two datasources with different ids keep their drafts under
  different keys, whatever their hosts, ports and users are.
\<close>

theorem drafts_separate:
  assumes "draft_key a = Some k" and "draft_key b = Some l"
    and "js_string (field a ''id'') \<noteq> js_string (field b ''id'')"
    and "CHR ''|'' \<notin> set (js_string (field a ''id''))" and "CHR ''|'' \<notin> set (js_string (field b ''id''))"
  shows "k \<noteq> l"
proof
  assume "k = l"
  then have "encode_uri_component (draft_identity a) = encode_uri_component (draft_identity b)"
    using assms(1,2) by (auto simp: draft_key_def split: if_splits)
  then have "draft_identity a = draft_identity b" by (metis decode_encode_uri option.inject)
  then show False using identity_id [of a] identity_id [of b] last_segment assms(3-5) by metis
qed

theorem drafts_separate_witness: "draft_key (demo_source 7) \<noteq> draft_key (demo_source 8)"
proof -
  have i: "js_string (field (demo_source 7) ''id'') = ''7''" "js_string (field (demo_source 8) ''id'') = ''8''" by code_simp+
  show ?thesis using drafts_separate [OF demo_key [of 7] demo_key [of 8]] demo_key [of 7] demo_key [of 8] i by simp
qed

lemma read_draft_other:
  assumes "draft_key ds \<noteq> Some k"
  shows "map_of (snd (read_draft parse now ds store)) k = map_of store k"
  using assms by (auto simp: read_draft_def split: option.splits)

lemma editor_set_value: "ed \<noteq> NoEditor \<Longrightarrow> editor_value (editor_set s ed) \<in> {s, unix_newlines s}"
  by (cases ed) simp_all

text \<open>
  Choosing another datasource throws the text away: the editor shows the draft of the new one, and the
  storage keeps for the old one what it held before, not what was typed since.
\<close>

theorem draft_lost_on_switch:
  assumes "sq_editor p = Monaco typed" and "draft_key (sq_selected p) = Some k" and "truthy ds" and "draft_key ds \<noteq> Some k"
  shows "let p' = snd (choose_connection parse now ds p) in
     editor_value (sq_editor p') = (case fst (read_draft parse now ds (sq_store p)) of Some s \<Rightarrow> s | None \<Rightarrow> default_sql)
   \<and> map_of (sq_store p') k = map_of (sq_store p) k"
  using assms read_draft_other [OF assms(4)]
  by (simp add: choose_connection_def apply_draft_def Let_def case_prod_unfold)

definition demo_console :: console where
  "demo_console = \<lparr>sq_visit = 1, sq_shown = True, sq_editor = Monaco ''SELECT 2'', sq_store = [], sq_selected = demo_source 7,
     sq_request = None, sq_status = Ready, sq_results = NoResults, sq_executing = False, sq_cancellable = False,
     sq_cancels = [], sq_context = no_context, sq_database_box = [], sq_schema_box = []\<rparr>"

theorem draft_lost_on_switch_witness:
  "editor_value (sq_editor (snd (choose_connection (\<lambda>_. None) 0 (demo_source 8) demo_console))) = default_sql"
proof -
  have k: "draft_key (demo_source 7) = Some (draft_prefix @ encode_uri_component (draft_identity (demo_source 7)))"
    by (rule demo_key) simp
  have "draft_identity (demo_source 8) \<noteq> draft_identity (demo_source 7)" by code_simp
  then have "draft_key (demo_source 8) \<noteq> Some (draft_prefix @ encode_uri_component (draft_identity (demo_source 7)))"
    using demo_key [of 8] by (metis append_same_eq decode_encode_uri option.inject same_append_eq zero_neq_numeral)
  then have "draft_key (demo_source 8) \<noteq> Some (draft_prefix @ encode_uri_component (draft_identity (demo_source 7)))" .
  moreover have "sq_editor demo_console = Monaco ''SELECT 2''" "sq_selected demo_console = demo_source 7" "sq_store demo_console = []"
    by (simp_all add: demo_console_def)
  moreover have "truthy (demo_source 8)" by (simp add: demo_source_def)
  moreover have "fst (read_draft (\<lambda>_. None) 0 (demo_source 8) []) = None" by (simp add: read_draft_def split: option.splits)
  ultimately show ?thesis
    using draft_lost_on_switch [of demo_console "''SELECT 2''" _ "demo_source 8" "\<lambda>_. None" 0] k by (simp add: Let_def)
qed

text \<open>
  Leaving before Monaco has loaded erases the draft: the page saves what the editor holds, which is nothing
  yet, so that the next visit finds an empty text instead of the draft.
\<close>

theorem draft_erased_before_load:
  assumes "sq_editor p = NoEditor" and "draft_key ds = Some k" and "0 \<le> left" and "t \<le> left + draft_ttl"
    and "parse (json_text (draft_payload left [])) = Some (draft_payload left [])"
  shows "let p1 = snd (render_console parse now True ds p); p2 = leave_console left p1
     in fst (read_draft parse t ds (sq_store p2)) = Some []"
proof -
  let ?p1 = "snd (render_console parse now True ds p)"
  have "sq_editor ?p1 = NoEditor" "sq_selected ?p1 = ds"
    using assms(1) by (simp_all add: render_console_def create_editor_def Let_def case_prod_unfold)
  then have "sq_store (leave_console left ?p1) = save_draft left ds [] (sq_store ?p1)"
    by (simp add: leave_console_def save_current_def cancel_query_def Let_def split: option.splits)
  then show ?thesis using read_saved [where parse = parse, OF assms(2,5,3)] assms(4) by (simp add: save_draft_key [OF assms(2)] Let_def)
qed

theorem draft_erased_before_load_witness:
  "let p = demo_console\<lparr>sq_editor := NoEditor\<rparr>; p1 = snd (render_console (\<lambda>_. None) 500 True (demo_source 7) p)
   in fst (read_draft (demo_parse [draft_payload 1000 []]) 2000 (demo_source 7) (sq_store (leave_console 1000 p1))) = Some []"
proof -
  have "demo_parse [draft_payload 1000 []] (json_text (draft_payload 1000 [])) = Some (draft_payload 1000 [])"
    by (simp add: demo_parse_def)
  moreover have "snd (render_console (\<lambda>_. None) 500 True (demo_source 7) (demo_console\<lparr>sq_editor := NoEditor\<rparr>))
      = snd (render_console (demo_parse [draft_payload 1000 []]) 500 True (demo_source 7) (demo_console\<lparr>sq_editor := NoEditor\<rparr>))"
    by (simp add: render_console_def read_draft_def demo_console_def split: option.splits)
  ultimately show ?thesis
    using draft_erased_before_load [of "demo_console\<lparr>sq_editor := NoEditor\<rparr>" "demo_source 7" _ 1000 2000 "demo_parse [draft_payload 1000 []]" 500]
      demo_key [of 7] by (simp add: draft_ttl_def Let_def)
qed

section \<open>The query in flight\<close>

lemma context_frame [simp]:
  "sq_request (snd (execution_context p)) = sq_request p" "sq_shown (snd (execution_context p)) = sq_shown p"
  "sq_visit (snd (execution_context p)) = sq_visit p" "sq_executing (snd (execution_context p)) = sq_executing p"
  "sq_cancellable (snd (execution_context p)) = sq_cancellable p" "sq_results (snd (execution_context p)) = sq_results p"
  "sq_status (snd (execution_context p)) = sq_status p"
  by (simp_all add: execution_context_def Let_def)

definition query_frame :: "console \<Rightarrow> (nat \<times> js) option \<times> bool \<times> nat \<times> bool \<times> bool" where
  "query_frame p = (sq_request p, sq_shown p, sq_visit p, sq_executing p, sq_cancellable p)"

lemma same_frame:
  "query_frame (save_current now p) = query_frame p" "query_frame (snd (execution_context p)) = query_frame p"
  "query_frame (snd (choose_connection parse now ds p)) = query_frame p" "query_frame (context_end r a p) = query_frame p"
  "query_frame (snd (choose_database s p)) = query_frame p" "query_frame (choose_schema s p) = query_frame p"
  "query_frame (editor_ready sql p) = query_frame p" "query_frame (choose_history item p) = query_frame p"
  "query_frame (snd (explain_begin selection p)) = query_frame p" "query_frame (explain_end v b p) = query_frame p"
  "query_frame (query_results res p) = query_frame p" "query_frame (query_failed msg p) = query_frame p"
  "query_frame (show_answer tk a2 p) = query_frame p"
  by (simp_all add: query_frame_def save_current_def choose_connection_def apply_draft_def context_end_def render_selectors_def
      choose_database_def choose_schema_def editor_ready_def choose_history_def explain_begin_def explain_end_def
      query_results_def query_failed_def show_answer_def Let_def case_prod_unfold split: sum.splits query_answer.splits)

text \<open>A run of the page, with the requests whose answer may still arrive.\<close>

inductive console_step ::
  "(string \<Rightarrow> js option) \<Rightarrow> console \<times> query_token list \<Rightarrow> console \<times> query_token list \<Rightarrow> bool" for parse where
  executes: "execute_begin now n selection p = (r, q) \<Longrightarrow> n \<notin> qt_id ` set tks
     \<Longrightarrow> tks' = (case r of Inr (Some (tk, payload)) \<Rightarrow> tk # tks | _ \<Rightarrow> tks) \<Longrightarrow> console_step parse (p, tks) (q, tks')"
| answers: "tk \<in> set tks \<Longrightarrow> console_step parse (p, tks) (execute_end tk answer p, tks)"
| cancels: "console_step parse (p, tks) (cancel_query p, tks)"
| explains: "console_step parse (p, tks) (snd (explain_begin selection p), tks)"
| explained: "console_step parse (p, tks) (explain_end v b p, tks)"
| context_loads: "console_step parse (p, tks) (context_end r a p, tks)"
| chooses_connection: "console_step parse (p, tks) (snd (choose_connection parse now ds p), tks)"
| chooses_database: "console_step parse (p, tks) (snd (choose_database s p), tks)"
| chooses_schema: "console_step parse (p, tks) (choose_schema s p, tks)"
| chooses_history: "console_step parse (p, tks) (choose_history item p, tks)"
| editor_loads: "console_step parse (p, tks) (editor_ready sql p, tks)"
| unloads: "console_step parse (p, tks) (save_current now p, tks)"
| leaves: "console_step parse (p, tks) (leave_console now p, tks)"
| renders: "\<not> sq_shown p \<Longrightarrow> console_step parse (p, tks) (snd (render_console parse now loader conn p), tks)"

inductive console_run ::
  "(string \<Rightarrow> js option) \<Rightarrow> console \<times> query_token list \<Rightarrow> console \<times> query_token list \<Rightarrow> bool" for parse where
  stays: "console_run parse s s"
| goes_on: "console_run parse s t \<Longrightarrow> console_step parse t u \<Longrightarrow> console_run parse s u"

text \<open>The buttons show whether a query is in flight, and the request in flight was sent from the page on display.\<close>

definition query_inv :: "console \<times> query_token list \<Rightarrow> bool" where
  "query_inv s \<longleftrightarrow> (case s of (p, tks) \<Rightarrow>
     (if sq_shown p then sq_executing p = (sq_request p \<noteq> None) \<and> sq_cancellable p = (sq_request p \<noteq> None) else sq_request p = None)
   \<and> (\<forall>tk \<in> set tks. map_option fst (sq_request p) = Some (qt_id tk) \<longrightarrow> qt_visit tk = sq_visit p))"

lemma inv_frame: "query_frame q = query_frame p \<Longrightarrow> query_inv (q, tks) = query_inv (p, tks)"
  by (simp add: query_inv_def query_frame_def)

lemma inv_cancel:
  assumes "query_inv (p, tks)"
  shows "query_inv (cancel_query p, tks)"
  using assms by (auto simp: query_inv_def cancel_query_def Let_def split: option.splits if_splits)

lemma execute_begin_cases:
  assumes "execute_begin now n selection p = (r, q)"
  obtains (refused) "query_frame q = query_frame p" "\<forall>tk payload. r \<noteq> Inr (Some (tk, payload))"
  | (sent) conn payload where "r = Inr (Some (\<lparr>qt_id = n, qt_visit = sq_visit p\<rparr>, payload))" "sq_shown p"
      "query_frame q = (Some (n, conn), True, sq_visit p, True, True)" "sq_results q = Blank" "sq_status q = Executing"
proof -
  let ?c = "js_or (field (sq_selected p) ''id'') JNull" and ?s = "save_current now p"
  have v: "sq_visit ?s = sq_visit p" "sq_shown ?s = sq_shown p" by (simp_all add: save_current_def)
  show ?thesis
  proof (cases "statement_of selection p = [] \<or> \<not> truthy ?c \<or> \<not> sq_shown p")
    case True
    then have "q = p \<or> q = ?s" "\<forall>tk payload. r \<noteq> Inr (Some (tk, payload))"
      using assms unfolding execute_begin_def Let_def by (auto split: if_splits)
    then show ?thesis using refused same_frame(1) by metis
  next
    case False
    then have e: "r = Inr (Some (fst (start_query n (statement_of selection p) ?c ?s)))" "q = snd (start_query n (statement_of selection p) ?c ?s)"
      using assms unfolding execute_begin_def Let_def by (auto simp: case_prod_unfold)
    then have "\<exists>payload. r = Inr (Some (\<lparr>qt_id = n, qt_visit = sq_visit p\<rparr>, payload))"
      "query_frame q = (Some (n, ?c), True, sq_visit p, True, True)" "sq_results q = Blank" "sq_status q = Executing"
      using v False by (simp_all add: start_query_def Let_def case_prod_unfold query_frame_def)
    then show ?thesis using sent False by blast
  qed
qed

lemma execute_sends:
  assumes "sq_shown p" and "statement_of selection p \<noteq> []" and "truthy (field (sq_selected p) ''id'')"
  shows "\<exists>payload conn q. execute_begin now n selection p = (Inr (Some (\<lparr>qt_id = n, qt_visit = sq_visit p\<rparr>, payload)), q)
    \<and> query_frame q = (Some (n, conn), True, sq_visit p, True, True) \<and> sq_selected q = sq_selected p \<and> sq_editor q = sq_editor p"
  using assms by (auto simp: execute_begin_def start_query_def save_current_def execution_context_def query_frame_def Let_def
      split: prod.splits)

lemma execute_end_frame:
  assumes "query_inv (p, tks)" and "tk \<in> set tks"
  shows "query_frame (execute_end tk answer p) = (if map_option fst (sq_request p) = Some (qt_id tk)
     then (None, sq_shown p, sq_visit p, False, False) else query_frame p)"
proof -
  have "query_frame (show_answer tk answer p) = query_frame p" by (rule same_frame)
  then show ?thesis using assms by (auto simp: execute_end_def query_finally_def query_frame_def query_inv_def from_here_def split: if_splits)
qed

lemma inv_step: "console_step parse s t \<Longrightarrow> query_inv s \<Longrightarrow> query_inv t"
proof (induction rule: console_step.induct)
  case (executes now n selection p r q tks tks')
  from executes(1) show ?case
  proof (cases rule: execute_begin_cases)
    case refused
    then have "tks' = tks" using executes(3) by (auto split: sum.splits option.splits)
    then show ?thesis using executes refused inv_frame by metis
  next
    case (sent conn payload)
    then show ?thesis using executes by (auto simp: query_inv_def query_frame_def)
  qed
next
  case (answers tk tks p answer)
  then show ?case using execute_end_frame [OF answers(2,1), of answer]
    by (auto simp: query_inv_def query_frame_def split: if_splits)
next
  case (cancels p tks)
  then show ?case by (rule inv_cancel)
next
  case (leaves p tks now)
  then have "query_inv (cancel_query (save_current now p), tks)" using inv_cancel inv_frame same_frame(1) by metis
  then show ?case by (auto simp: query_inv_def leave_console_def Let_def)
next
  case (renders p tks now loader conn)
  then show ?case by (auto simp: query_inv_def render_console_def Let_def case_prod_unfold)
qed (metis inv_frame same_frame)+

lemma inv_run: "console_run parse s t \<Longrightarrow> query_inv s \<Longrightarrow> query_inv t"
  by (induction rule: console_run.induct) (auto intro: inv_step)



section \<open>Answers that come late\<close>

lemma run_twice:
  assumes "execute_begin now n sel p = (Inr (Some (ta, pa)), p1)" and "execute_begin later m sel2 p1 = (Inr (Some (tb, pb)), p2)"
  shows "ta = \<lparr>qt_id = n, qt_visit = sq_visit p\<rparr>" "tb = \<lparr>qt_id = m, qt_visit = sq_visit p\<rparr>"
    "\<exists>conn. query_frame p2 = (Some (m, conn), True, sq_visit p, True, True)"
proof -
  from assms(1) have 1: "ta = \<lparr>qt_id = n, qt_visit = sq_visit p\<rparr> \<and> sq_visit p1 = sq_visit p"
    by (cases rule: execute_begin_cases) (auto simp: query_frame_def)
  from assms(2) have 2: "tb = \<lparr>qt_id = m, qt_visit = sq_visit p1\<rparr> \<and> (\<exists>conn. query_frame p2 = (Some (m, conn), True, sq_visit p1, True, True))"
    by (cases rule: execute_begin_cases) auto
  show "ta = \<lparr>qt_id = n, qt_visit = sq_visit p\<rparr>" "tb = \<lparr>qt_id = m, qt_visit = sq_visit p\<rparr>"
    "\<exists>conn. query_frame p2 = (Some (m, conn), True, sq_visit p, True, True)" using 1 2 by simp_all
qed

lemma late_result:
  assumes "sq_shown p" and "qt_visit tk = sq_visit p" and "elements (field res ''columns'') \<noteq> []"
  shows "sq_results (execute_end tk (QueryResult res) p) = show_table (field res ''columns'') (field res ''rows'')
    \<and> sq_status (execute_end tk (QueryResult res) p)
       = Summary (field res ''row_count'') (field res ''execution_time_ms'') (truthy (field res ''truncated''))"
proof -
  have "\<not> nullish res" using assms(3) by (auto simp: nullish_def)
  then show ?thesis using assms by (simp add: execute_end_def query_finally_def show_answer_def query_results_def from_here_def Let_def)
qed

text \<open>
  A query started from the keyboard while another one runs does not replace it: the rows of the first query
  are shown when they arrive, over those of the second one, and even after the user has canceled.
\<close>

theorem older_result_overwrites:
  assumes "execute_begin now n sel p = (Inr (Some (ta, pa)), p1)" and "execute_begin later m sel2 p1 = (Inr (Some (tb, pb)), p2)"
    and "elements (field old ''columns'') \<noteq> []"
  shows "sq_results (execute_end ta (QueryResult old) (execute_end tb answer p2)) = show_table (field old ''columns'') (field old ''rows'')
    \<and> sq_results (execute_end ta (QueryResult old) (cancel_query p2)) = show_table (field old ''columns'') (field old ''rows'')
    \<and> sq_status (execute_end ta (QueryResult old) (cancel_query p2)) \<noteq> Canceled"
proof -
  note r = run_twice [OF assms(1,2)]
  have f: "sq_shown p2" "sq_visit p2 = sq_visit p" using r(3) by (auto simp: query_frame_def)
  have "query_frame (show_answer tb answer p2) = query_frame p2" by (rule same_frame)
  then have b: "sq_shown (execute_end tb answer p2)" "sq_visit (execute_end tb answer p2) = sq_visit p"
    using f by (auto simp: execute_end_def query_finally_def query_frame_def)
  have c: "sq_shown (cancel_query p2)" "sq_visit (cancel_query p2) = sq_visit p"
    using f by (auto simp: cancel_query_def Let_def split: option.splits)
  show ?thesis using late_result [OF b(1) _ assms(3), of ta] late_result [OF c(1) _ assms(3), of ta] b c r(1) by simp
qed

definition demo_answer :: "int \<Rightarrow> js" where
  "demo_answer i = JObj [(''columns'', JArr [JStr ''a'']), (''rows'', JArr [JArr [JInt i]]), (''row_count'', JInt 1)]"

theorem older_result_overwrites_witness:
  "\<exists>ta tb p2. (\<exists>pa pb p1. execute_begin 0 1 [] demo_console = (Inr (Some (ta, pa)), p1) \<and> execute_begin 0 2 [] p1 = (Inr (Some (tb, pb)), p2))
    \<and> sq_results (execute_end ta (QueryResult (demo_answer 1)) (execute_end tb (QueryResult (demo_answer 2)) p2))
        = Table (JArr [JStr ''a'']) (JArr [JArr [JInt 1]])"
proof -
  have st: "statement_of [] p \<noteq> []" "truthy (field (sq_selected p) ''id'')"
    if "sq_selected p = demo_source 7" "sq_editor p = Monaco ''SELECT 2''" for p
    using that by (simp_all add: statement_of_def demo_source_def trim_plain is_ws_def)
  have d: "sq_shown demo_console" "sq_selected demo_console = demo_source 7" "sq_editor demo_console = Monaco ''SELECT 2''"
    by (simp_all add: demo_console_def)
  from execute_sends [OF d(1) st, of 0 1] d obtain ta pa p1 where a: "execute_begin 0 1 [] demo_console = (Inr (Some (ta, pa)), p1)"
    and p1: "sq_shown p1" "sq_selected p1 = demo_source 7" "sq_editor p1 = Monaco ''SELECT 2''" by (auto simp: query_frame_def)
  from execute_sends [OF p1(1) st [OF p1(2,3)], of 0 2] obtain tb pb p2 where b: "execute_begin 0 2 [] p1 = (Inr (Some (tb, pb)), p2)" by blast
  have "elements (field (demo_answer 1) ''columns'') \<noteq> []" by (simp add: demo_answer_def)
  from older_result_overwrites [OF a b this, of "QueryResult (demo_answer 2)"] a b show ?thesis
    by (auto simp: demo_answer_def show_table_def intro!: exI)
qed

lemma build_select_known:
  assumes "JStr d \<in> set vs" and "trim d = d" and "d \<noteq> []"
  shows "build_select vs (JStr d) = d"
proof -
  have n: "normalize_context (JStr d) = JStr d" using assms(2,3) by (simp add: normalize_context_def nullish_def)
  let ?o = "select_options vs (JStr d)"
  let ?f = "filter (\<lambda>v. v = JStr d) ?o"
  have "JStr d \<in> set ?o" using assms by (auto simp: select_options_def n nullish_def Let_def filter_empty_conv intro!: bexI [of _ "JStr d"])
  then have ne: "?f \<noteq> []" by (auto simp: filter_empty_conv)
  from last_in_set [OF ne] have l: "last ?f = JStr d" by simp
  obtain x xs where "?f = x # xs" using ne by (cases ?f) auto
  then show ?thesis using l by (auto simp: build_select_def n Let_def)
qed

text \<open>
  The context of a datasource that was left overtakes the one on display: when its answer comes last, the
  next query runs in the database of the old datasource, on the connection of the new one.
\<close>

theorem stale_context_used:
  assumes "sq_shown p" and "truthy ds" and "truthy (field ds ''id'')"
    and "choose_connection parse now ds p = (Some r, p1)" and "p2 = context_end r answer p1"
    and "field old ''current_database'' = JStr d" and "field old ''databases'' = JArr dbs" and "JStr d \<in> set dbs"
    and "trim d = d" and "d \<noteq> []"
  shows "let p3 = context_end (JNull, JNull) (Some old) p2 in
     sq_selected p3 = ds \<and> fst (fst (execution_context p3)) = JStr d"
proof -
  have f: "sq_shown p2" "sq_selected p2 = ds"
    using assms(1-5) by (auto simp: choose_connection_def apply_draft_def context_end_def render_selectors_def Let_def case_prod_unfold)
  have n: "normalize_context (JStr d) = JStr d" using assms(9,10) by (simp add: normalize_context_def nullish_def)
  have "normalize_context JNull = JNull" by (simp add: normalize_context_def nullish_def)
  then have c: "qc_databases (context_of (JNull, JNull) old) = dbs" "qc_database (context_of (JNull, JNull) old) = JStr d"
    using assms(6-8) n by (simp_all add: context_of_def resolve_selection_def Let_def)
  have "\<not> nullish old" using assms(6) by (auto simp: nullish_def)
  then have "sq_database_box (context_end (JNull, JNull) (Some old) p2) = d" "sq_shown (context_end (JNull, JNull) (Some old) p2)"
      "sq_selected (context_end (JNull, JNull) (Some old) p2) = ds"
    using f c build_select_known [OF assms(8-10)] by (simp_all add: context_end_def render_selectors_def Let_def)
  then show ?thesis using n assms(10) by (simp add: execution_context_def Let_def)
qed

theorem stale_context_used_witness:
  "let old = JObj [(''current_database'', JStr ''sales''), (''databases'', JArr [JStr ''sales''])];
       (r, p1) = choose_connection (\<lambda>_. None) 0 (demo_source 8) demo_console;
       p3 = context_end (JNull, JNull) (Some old) (context_end (the r) None p1)
   in sq_selected p3 = demo_source 8 \<and> fst (fst (execution_context p3)) = JStr ''sales''"
proof -
  obtain p1 where c: "choose_connection (\<lambda>_. None) 0 (demo_source 8) demo_console = (Some (JNull, JNull), p1)"
    by (simp add: choose_connection_def demo_source_def context_begin_def Let_def)
  have "sq_shown demo_console" "truthy (demo_source 8)" "truthy (field (demo_source 8) ''id'')" "trim ''sales'' = ''sales''"
    by (simp_all add: demo_console_def demo_source_def trim_plain is_ws_def)
  from stale_context_used [OF this(1-3) c HOL.refl _ _ _ this(4), of "JObj [(''current_database'', JStr ''sales''), (''databases'', JArr [JStr ''sales''])]"
      "[JStr ''sales'']" None]
  show ?thesis by (simp add: c Let_def)
qed

section \<open>Completion providers\<close>

text \<open>
  Two overlapping loads of the schema leave two completion providers: the old one is disposed of before the
  load, so when a second load starts before the first has ended, both register theirs, and every suggestion is
  offered twice; loads one after the other leave one.
\<close>

theorem overlapping_loads_double_providers:
  assumes "pv_live p = []" and "pv_current p = None" and "n \<noteq> m"
  shows "(case set_schema_begin (Monaco t) p of None \<Rightarrow> False | Some a \<Rightarrow>
      case set_schema_begin (Monaco t) a of None \<Rightarrow> False | Some b \<Rightarrow> pv_live (set_schema_end m (set_schema_end n b)) = [n, m])
   \<and> (case set_schema_begin (Monaco t) p of None \<Rightarrow> False | Some a \<Rightarrow>
      case set_schema_begin (Monaco t) (set_schema_end n a) of None \<Rightarrow> False | Some b \<Rightarrow> pv_live (set_schema_end m b) = [m])"
  using assms by (simp add: set_schema_begin_def set_schema_end_def)

theorem overlapping_loads_double_providers_witness:
  "case set_schema_begin (Monaco []) \<lparr>pv_current = None, pv_live = [], pv_owned = []\<rparr> of None \<Rightarrow> False | Some a \<Rightarrow>
   case set_schema_begin (Monaco []) a of None \<Rightarrow> False | Some b \<Rightarrow> pv_live (set_schema_end 2 (set_schema_end 1 b)) = [1, 2]"
  using overlapping_loads_double_providers [of "\<lparr>pv_current = None, pv_live = [], pv_owned = []\<rparr>" 1 2 "[]"]
  by (auto split: option.splits)

section \<open>Heights\<close>

text \<open>
  Dragging the divider or resizing the window never hides the results: the editor's height stays between
  zero and what leaves 140 pixels for them next to the toolbar, the divider and the status bar, if there are as
  many, and the height of a window that fits is kept.
\<close>

theorem editor_height_bounds:
  "let hi = max 0 (max 0 (h - sum_list reserved) - 140) in
     0 \<le> drag_height (Some h) reserved e s d \<and> drag_height (Some h) reserved e s d \<le> hi
   \<and> 0 \<le> adaptive_height (Some h) reserved e s \<and> adaptive_height (Some h) reserved e s \<le> hi
   \<and> (sum_list reserved + 140 \<le> h \<longrightarrow> drag_height (Some h) reserved e s d + sum_list reserved + 140 \<le> h)
   \<and> (0 < s \<and> s \<le> hi \<longrightarrow> adaptive_height (Some h) reserved e s = s)"
  by (auto simp: drag_height_def adaptive_height_def height_bounds_def Let_def)

theorem editor_height_bounds_witness:
  "drag_height (Some 800) [50, 5, 25] 320 300 900 + 80 + 140 \<le> 800 \<and> adaptive_height (Some 800) [50, 5, 25] 320 300 = 300"
  using editor_height_bounds [of 800 "[50, 5, 25]" 320 300 900] by (simp add: Let_def)

section \<open>Rows of the table\<close>

lemma row_object_fold:
  "field (foldl (\<lambda>o1 (i, col). set_field col (at_index row i) o1) o1 (enumerate k cols)) c
    = (case find (\<lambda>(i, col). col = c) (rev (enumerate k cols)) of Some (i, _) \<Rightarrow> at_index row i | None \<Rightarrow> field o1 c)"
proof (induction cols arbitrary: o1 k)
  case (Cons col cols)
  then show ?case
    by (cases "col = c") (auto simp: find_append split: option.splits)
qed simp

lemma row_object_field:
  "field (row_object cols idx row) c
    = (case find (\<lambda>(i, col). col = c) (rev (enumerate 0 cols)) of
         Some (i, _) \<Rightarrow> at_index row i | None \<Rightarrow> if c = ''_id'' then JInt (int idx) else JUndef)"
  by (simp add: row_object_def row_object_fold split: option.splits)

lemma find_last_name:
  assumes "i < length cols" and "\<forall>j. i < j \<and> j < length cols \<longrightarrow> cols ! j \<noteq> cols ! i" and "c = cols ! i"
  shows "find (\<lambda>(i, col). col = c) (rev (enumerate 0 cols)) = Some (i, c)"
proof -
  have "cols = take i cols @ (cols ! i) # drop (Suc i) cols" using assms(1) by (rule id_take_nth_drop)
  then have "enumerate 0 cols = enumerate 0 (take i cols) @ (i, cols ! i) # enumerate (Suc i) (drop (Suc i) cols)"
    using assms(1) enumerate_append_eq [of 0 "take i cols" "(cols ! i) # drop (Suc i) cols"] by simp
  moreover have "find (\<lambda>(i, col). col = c) (rev (enumerate (Suc i) (drop (Suc i) cols))) = None"
    using assms(2,3) by (auto simp: find_None_iff in_set_enumerate_eq)
  ultimately show ?thesis using assms(3) by (simp add: find_append)
qed

text \<open>
  A column of the result table shows the last column of its name: with columns of different names every value
  stands in its own column, but of two columns with the same name, as a join returns them, both show the second.
\<close>

theorem column_shows_last_of_name:
  assumes "i < length cols" and "length cols = length row" and "\<forall>j. i < j \<and> j < length cols \<longrightarrow> cols ! j \<noteq> cols ! i"
    and "k < length cols" and "cols ! k = cols ! i"
  shows "field (row_object cols idx row) (cols ! k) = row ! i"
  using find_last_name [OF assms(1,3) assms(5)] assms(1,2) by (simp add: row_object_field at_index_def)

theorem column_shows_last_of_name_witness:
  "field (row_object [''id'', ''name'', ''id''] 0 [JInt 1, JStr ''a'', JInt 2]) ([''id'', ''name'', ''id''] ! 0) = JInt 2"
proof -
  have "\<forall>j. 2 < j \<and> j < length [''id'', ''name'', ''id''] \<longrightarrow> [''id'', ''name'', ''id''] ! j \<noteq> [''id'', ''name'', ''id''] ! 2" by simp
  from column_shows_last_of_name [OF _ _ this, of "[JInt 1, JStr ''a'', JInt 2]" 0 0] show ?thesis by simp
qed

end
