(* ===== verification/SystemConfigs.thy ===== *)
theory SystemConfigs
  imports HtmlText TableSort
begin

text \<open>
  The page of the system parameters (pages/system-configs.js): the table with its filters and order, how a value is
  shown, and the form of a parameter.  \<open>collate\<close> is \<^verbatim>\<open>localeCompare\<close> with numbers in texts taken as numbers, \<open>describe\<close>
  the description of a key in the catalog, \<open>parse\<close> and \<open>print\<close> are \<^verbatim>\<open>JSON.parse\<close> and \<^verbatim>\<open>JSON.stringify\<close> with two blanks of
  indentation.  Keys, values and categories are texts, or \<open>JNull\<close>.
\<close>

section \<open>The table\<close>

record config_list =
  sc_all :: "js list"
  sc_filtered :: "js list"
  sc_order :: "string \<times> direction"
  sc_search :: string
  sc_category :: string
  sc_rows :: "js list option"
  sc_categories :: "string list"

definition new_config_list :: config_list where
  "new_config_list = \<lparr>sc_all = [], sc_filtered = [], sc_order = (''key'', Asc), sc_search = [], sc_category = [],
     sc_rows = None, sc_categories = []\<rparr>"

definition get_categories :: "js list \<Rightarrow> string list" where
  "get_categories configs =
     js_sort (\<lambda>a b. if str_less a b then -1 else if str_less b a then 1 else 0)
       (foldl (\<lambda>cs c. if c \<in> set cs then cs else cs @ [c]) []
         (map js_string (filter truthy (map (\<lambda>c. field c ''category'') configs))))"

definition config_text :: "(string \<Rightarrow> js) \<Rightarrow> js \<Rightarrow> string" where
  "config_text describe c = js_string (js_or (describe (js_string (field c ''key''))) (js_or (field c ''description'') (JStr [])))"

definition sortable_value :: "js \<Rightarrow> string \<Rightarrow> string" where
  "sortable_value c key = (if nullish (field c key) then [] else to_lower (js_string (field c key)))"

definition compare_configs :: "(string \<Rightarrow> string \<Rightarrow> rat) \<Rightarrow> string \<times> direction \<Rightarrow> js \<Rightarrow> js \<Rightarrow> rat" where
  "compare_configs collate = (\<lambda>(key, d) a b. collate (sortable_value a key) (sortable_value b key) * (if d = Asc then 1 else -1))"

definition sort_configs :: "(string \<Rightarrow> string \<Rightarrow> rat) \<Rightarrow> string \<times> direction \<Rightarrow> js list \<Rightarrow> js list" where
  "sort_configs collate ord cs = js_sort (compare_configs collate ord) cs"

definition config_matches :: "(string \<Rightarrow> js) \<Rightarrow> string \<Rightarrow> string \<Rightarrow> js \<Rightarrow> bool" where
  "config_matches describe search category c \<longleftrightarrow>
     (search = [] \<or> includes_str (to_lower (js_string (field c ''key''))) search
        \<or> includes_str (to_lower (config_text describe c)) search)
   \<and> (category = [] \<or> field c ''category'' = JStr category)"

text \<open>The parameters have come: the header is drawn anew, with an empty search and all categories.\<close>

definition configs_come :: "(string \<Rightarrow> string \<Rightarrow> rat) \<Rightarrow> js list \<Rightarrow> config_list \<Rightarrow> config_list" where
  "configs_come collate cs p =
     (let sorted = sort_configs collate (sc_order p) cs
      in p\<lparr>sc_all := cs, sc_filtered := sorted, sc_search := [], sc_category := [], sc_rows := Some sorted,
           sc_categories := get_categories cs\<rparr>)"

definition configs_failed :: "config_list \<Rightarrow> config_list" where
  "configs_failed p = p\<lparr>sc_rows := None\<rparr>"

text \<open>The search is what stands in the box when a button, the return key or the other box asks for it.\<close>

definition filter_configs :: "(string \<Rightarrow> string \<Rightarrow> rat) \<Rightarrow> (string \<Rightarrow> js) \<Rightarrow> string \<Rightarrow> string \<Rightarrow> config_list \<Rightarrow> config_list" where
  "filter_configs collate describe search category p =
     (let fs = sort_configs collate (sc_order p) (filter (config_matches describe (to_lower search) category) (sc_all p))
      in p\<lparr>sc_search := search, sc_category := category, sc_filtered := fs, sc_rows := map_option (\<lambda>_. fs) (sc_rows p)\<rparr>)"

definition toggle_config_sort :: "(string \<Rightarrow> string \<Rightarrow> rat) \<Rightarrow> string \<Rightarrow> config_list \<Rightarrow> config_list" where
  "toggle_config_sort collate key p =
     (let ord = toggle_order key (sc_order p); fs = sort_configs collate ord (sc_filtered p)
      in p\<lparr>sc_order := ord, sc_filtered := fs, sc_rows := map_option (\<lambda>_. fs) (sc_rows p)\<rparr>)"

section \<open>How a value is shown\<close>

definition mask_value :: "string \<Rightarrow> string" where
  "mask_value v = (if length v \<le> 4 then ''****'' else take 2 v @ ''****'' @ drop (length v - 2) v)"

definition attr_char :: "char \<Rightarrow> string" where
  "attr_char c =
     (if c = CHR ''&'' then ''&amp;'' else if c = CHR 0x22 then ''&quot;'' else if c = CHR ''<'' then ''&lt;''
      else if c = CHR ''>'' then ''&gt;'' else [c])"

definition escape_attr :: "string \<Rightarrow> string" where
  "escape_attr v = concat (map attr_char v)"

definition format_value :: "(string \<Rightarrow> js option) \<Rightarrow> (js \<Rightarrow> string) \<Rightarrow> string \<Rightarrow> string \<Rightarrow> string" where
  "format_value parse print ty v =
     (if v = [] then ''-''
      else if ty = ''string'' \<and> 50 < length v then take 50 v @ ''...''
      else if ty = ''json'' then (case parse v of Some j \<Rightarrow> take 100 (print j) @ ''...'' | None \<Rightarrow> v)
      else v)"

text \<open>A cell: the value as it is formatted, or the mask and, hidden beside it, the secret itself.\<close>

datatype value_cell = Shown string | Masked string string

definition config_cell :: "(string \<Rightarrow> js option) \<Rightarrow> (js \<Rightarrow> string) \<Rightarrow> js \<Rightarrow> value_cell" where
  "config_cell parse print c =
     (let v = text_or_empty (field c ''value'')
      in if truthy (field c ''is_encrypted'') then Masked (mask_value v) (escape_attr v)
         else Shown (format_value parse print (js_string (field c ''value_type'')) v))"

text \<open>The button beside a mask copies what the browser has made of the attribute.\<close>

fun copy_secret :: "value_cell \<Rightarrow> string" where
  "copy_secret (Masked _ raw) = attr_decoded raw"
| "copy_secret (Shown _) = []"

section \<open>The form of a parameter\<close>

text \<open>The input of the value: a text, a number, a box to tick or a text area.\<close>

datatype value_input = TextValue string | NumberValue string | TickValue bool | AreaValue string

record config_entry =
  ce_key :: string
  ce_readonly :: bool
  ce_type :: string
  ce_value :: value_input
  ce_encrypted :: bool
  ce_category :: string
  ce_description :: string

definition value_types :: "string list" where
  "value_types = [''string'', ''integer'', ''float'', ''boolean'', ''json'']"

text \<open>The value is put into the markup as it is; that of a secret is left out.\<close>

definition value_input_of :: "js \<Rightarrow> string \<Rightarrow> bool \<Rightarrow> value_input" where
  "value_input_of v ty secret =
     (let shown = (if secret then [] else text_or_empty v)
      in if ty = ''integer'' \<or> ty = ''float'' then NumberValue (number_input (attr_decoded shown))
         else if ty = ''boolean'' then TickValue (v = JStr ''true'' \<or> v = JStr ''1'' \<or> v = JStr ''yes'')
         else if ty = ''json'' then AreaValue (textarea_value (decode_refs shown))
         else TextValue (text_input (attr_decoded shown)))"

definition open_config :: "bool \<Rightarrow> js \<Rightarrow> config_entry" where
  "open_config is_edit c =
     \<lparr>ce_key = text_input (attr_decoded (escape_attr (text_or_empty (field c ''key'')))), ce_readonly = is_edit,
      ce_type = select_value value_types (\<lambda>t. field c ''value_type'' = JStr t),
      ce_value = value_input_of (field c ''value'') (js_string (field c ''value_type'')) (truthy (field c ''is_encrypted'') \<and> is_edit),
      ce_encrypted = truthy (field c ''is_encrypted''),
      ce_category = text_input (attr_decoded (escape_attr (text_or_empty (field c ''category'')))),
      ce_description = textarea_value (decode_refs (escape_html (text_or_empty (field c ''description''))))\<rparr>"

text \<open>Editing another parameter or adding one: which parameter is edited is remembered by the page.\<close>

definition new_config :: js where
  "new_config = JObj [(''key'', JStr []), (''value'', JStr []), (''value_type'', JStr ''string''), (''description'', JStr []),
     (''category'', JStr [])]"

definition show_add :: "js \<times> config_entry" where
  "show_add = (JNull, open_config False new_config)"

definition show_edit :: "config_list \<Rightarrow> js \<Rightarrow> (js \<times> config_entry) option" where
  "show_edit p i = map_option (\<lambda>c. (i, open_config True c)) (find (\<lambda>c. strict_eq (field c ''id'') i) (sc_all p))"

text \<open>Another type: its input, empty.\<close>

definition change_type :: "string \<Rightarrow> config_entry \<Rightarrow> config_entry" where
  "change_type ty f = f\<lparr>ce_type := ty, ce_value := value_input_of (JStr []) ty False\<rparr>"

fun read_value :: "value_input \<Rightarrow> string" where
  "read_value (TickValue on) = (if on then ''true'' else ''false'')"
| "read_value (TextValue s) = trim s"
| "read_value (NumberValue s) = trim s"
| "read_value (AreaValue s) = trim s"

datatype config_outcome = ConfigRefused string | PutConfig js js | PostConfig js

definition save_config :: "(string \<Rightarrow> js option) \<Rightarrow> js \<Rightarrow> config_entry \<Rightarrow> config_outcome" where
  "save_config parse editing f =
     (let key = trim (ce_key f); v = read_value (ce_value f);
          data = JObj ([(''key'', JStr key), (''value_type'', JStr (ce_type f)),
            (''category'', js_or (JStr (trim (ce_category f))) JNull),
            (''description'', js_or (JStr (trim (ce_description f))) JNull), (''is_encrypted'', JBool (ce_encrypted f))]
            @ (if v = [] then [] else [(''value'', JStr v)]))
      in if key = [] then ConfigRefused ''requiredFields''
         else if \<not> truthy editing \<and> v = [] then ConfigRefused ''requiredFields''
         else if ce_type f = ''json'' \<and> v \<noteq> [] \<and> parse v = None then ConfigRefused ''invalidJson''
         else if truthy editing then PutConfig editing data
         else PostConfig data)"

section \<open>The table shows what the boxes ask for, in order\<close>

lemma mset_sort_configs [simp]: "mset (sort_configs collate ord cs) = mset cs"
  by (simp add: sort_configs_def)

lemma comparator_configs:
  assumes "comparator collate"
  shows "comparator (compare_configs collate (key, d))"
proof -
  have "comparator (\<lambda>a b. collate (sortable_value a key) (sortable_value b key))" by (rule comparator_on [OF assms])
  from this comparator_negate [OF this] show ?thesis by (cases d) (simp_all add: compare_configs_def)
qed

datatype config_event = ConfigsCome "js list" | ConfigsFailed | FilterConfigs string string | ToggleConfigSort string

fun config_step :: "(string \<Rightarrow> string \<Rightarrow> rat) \<Rightarrow> (string \<Rightarrow> js) \<Rightarrow> config_list \<Rightarrow> config_event \<Rightarrow> config_list" where
  "config_step collate describe p (ConfigsCome cs) = configs_come collate cs p"
| "config_step collate describe p ConfigsFailed = configs_failed p"
| "config_step collate describe p (FilterConfigs s c) = filter_configs collate describe s c p"
| "config_step collate describe p (ToggleConfigSort k) = toggle_config_sort collate k p"

definition configs_truthful :: "(string \<Rightarrow> string \<Rightarrow> rat) \<Rightarrow> (string \<Rightarrow> js) \<Rightarrow> config_list \<Rightarrow> bool" where
  "configs_truthful collate describe p \<longleftrightarrow>
     sorted_wrt (\<lambda>a b. compare_configs collate (sc_order p) a b \<le> 0) (sc_filtered p)
   \<and> mset (sc_filtered p) = mset (filter (config_matches describe (to_lower (sc_search p)) (sc_category p)) (sc_all p))
   \<and> (\<forall>rows. sc_rows p = Some rows \<longrightarrow> rows = sc_filtered p)"

lemma sorted_configs:
  assumes "comparator collate"
  shows "sorted_wrt (\<lambda>a b. compare_configs collate ord a b \<le> 0) (sort_configs collate ord cs)"
  unfolding sort_configs_def
  using comparator.sorted_sort [OF comparator_configs [OF assms, of "fst ord" "snd ord"]] by simp

lemma config_matches_all [simp]: "config_matches describe (to_lower []) [] = (\<lambda>_. True)"
  by (simp add: config_matches_def to_lower_def fun_eq_iff)

lemma configs_truthful_step:
  assumes "comparator collate" and "configs_truthful collate describe p"
  shows "configs_truthful collate describe (config_step collate describe p e)"
  using assms(2) sorted_configs [OF assms(1)]
  by (cases e)
    (simp_all add: configs_truthful_def configs_come_def configs_failed_def filter_configs_def toggle_config_sort_def Let_def)

text \<open>
  Whatever is loaded, searched and sorted, the rows are the parameters that the boxes ask for, each once, in the order
  that the heading shows, provided that the language's comparison of texts is one.
\<close>

theorem config_table_truthful:
  assumes "comparator collate"
  shows "configs_truthful collate describe (foldl (config_step collate describe) new_config_list es)"
proof (induction es rule: rev_induct)
  case Nil
  show ?case by (simp add: configs_truthful_def new_config_list_def)
qed (simp add: configs_truthful_step [OF assms])

theorem config_table_truthful_witness:
  "let c = (\<lambda>a b :: string. of_int (int (length a) - int (length b)) :: rat);
       p = foldl (config_step c (\<lambda>_. JUndef)) new_config_list
             [ConfigsCome [JObj [(''key'', JStr ''abc'')], JObj [(''key'', JStr ''b'')], JObj [(''key'', JStr ''x'')]], FilterConfigs ''B'' []]
   in configs_truthful c (\<lambda>_. JUndef) p \<and> sc_rows p = Some [JObj [(''key'', JStr ''b'')], JObj [(''key'', JStr ''abc'')]]"
proof -
  let ?c = "\<lambda>a b :: string. of_int (int (length a) - int (length b)) :: rat"
  have c: "comparator ?c" by unfold_locales auto
  show ?thesis unfolding Let_def by (rule conjI [OF config_table_truthful [OF c]]) code_simp
qed

section \<open>Secrets\<close>

lemma escape_attr_with: "escape_attr v = escape_with attr_char v"
  by (simp add: escape_attr_def escape_with_def)

lemma attr_char_refs: "escapes attr_char"
  by (auto simp: escapes_def attr_char_def char_refs_def)

lemma escape_attr_read [simp]: "attr_decoded (escape_attr v) = v"
  unfolding escape_attr_with by (rule escape_with_attr [OF attr_char_refs]) (simp add: attr_char_def)

text \<open>
  A secret is shown as a mask that tells nothing of what stands between its first two and its last two characters,
  not even how much; one of four characters or less is not shown at all, and the button copies the whole secret, whatever characters it has.
\<close>

theorem secret_masked:
  "(length a = 2 \<and> length b = 2 \<and> m \<noteq> [] \<and> m' \<noteq> [] \<longrightarrow> mask_value (a @ m @ b) = mask_value (a @ m' @ b))
   \<and> (length v \<le> 4 \<longrightarrow> mask_value v = ''****'')
   \<and> (truthy (field c ''is_encrypted'') \<longrightarrow> copy_secret (config_cell parse print c) = text_or_empty (field c ''value''))"
  by (auto simp: mask_value_def config_cell_def neq_Nil_conv Let_def)

theorem secret_masked_witness:
  "mask_value ''sk-123'' = mask_value ''sk-4567823'' \<and> mask_value ''abcd'' = ''****''
   \<and> copy_secret (config_cell (\<lambda>_. None) (\<lambda>_. []) (JObj [(''is_encrypted'', JBool True), (''value'', JStr [CHR 0x22, CHR ''&''])]))
       = [CHR 0x22, CHR ''&'']"
  using secret_masked [of "''sk''" "''23''" "''-1''" "''-45678''" "''abcd''" 
      "JObj [(''is_encrypted'', JBool True), (''value'', JStr [CHR 0x22, CHR ''&''])]" "\<lambda>_. None" "\<lambda>_. []"]
  by simp

section \<open>Editing\<close>

text \<open>A parameter as the server sends it, which is no secret; its value is one that its input can hold.\<close>

definition trimmed_line :: "string \<Rightarrow> bool" where
  "trimmed_line s \<longleftrightarrow> trim s = s \<and> text_input s = s"

definition plain_value :: "(string \<Rightarrow> js option) \<Rightarrow> string \<Rightarrow> string \<Rightarrow> bool" where
  "plain_value parse ty v \<longleftrightarrow> v \<noteq> [] \<and> trim v = v \<and> CHR ''&'' \<notin> set v
   \<and> (case ty of
        _ \<Rightarrow> if ty = ''boolean'' then v = ''true'' \<or> v = ''false''
            else if ty = ''json'' then textarea_value v = v \<and> parse v \<noteq> None
            else CHR 0x22 \<notin> set v \<and> (if ty = ''string'' then text_input v = v else number_input v = v))"

definition stored_config :: "(string \<Rightarrow> js option) \<Rightarrow> js \<Rightarrow> string \<Rightarrow> string \<Rightarrow> js \<Rightarrow> js \<Rightarrow> string \<Rightarrow> bool" where
  "stored_config parse c key ty category description v \<longleftrightarrow>
     field c ''key'' = JStr key \<and> key \<noteq> [] \<and> trimmed_line key
   \<and> field c ''value_type'' = JStr ty \<and> ty \<in> set value_types
   \<and> field c ''category'' = category \<and> (category = JNull \<or> (\<exists>s. s \<noteq> [] \<and> trimmed_line s \<and> category = JStr s))
   \<and> field c ''description'' = description
   \<and> (description = JNull \<or> (\<exists>s. s \<noteq> [] \<and> trim s = s \<and> textarea_value s = s \<and> description = JStr s))
   \<and> field c ''value'' = JStr v \<and> \<not> truthy (field c ''is_encrypted'')"

lemma shown_value:
  assumes "plain_value parse ty v" and "ty \<in> set value_types"
  shows "read_value (value_input_of (JStr v) ty False) = v"
proof -
  have v: "decode_refs v = v" "v \<noteq> []" "trim v = v" using assms(1) decode_plain by (auto simp: plain_value_def)
  consider "ty = ''boolean''" | "ty = ''json''" | "ty = ''string''" | "ty = ''integer''" | "ty = ''float''"
    using assms(2) by (auto simp: value_types_def)
  then show ?thesis
  proof cases
    case 1
    then show ?thesis using assms(1) by (auto simp: value_input_of_def plain_value_def)
  next
    case 2
    then show ?thesis using assms(1) v by (simp add: value_input_of_def plain_value_def Let_def)
  qed (use assms(1) v attr_plain [of v] in \<open>simp_all add: value_input_of_def plain_value_def Let_def\<close>)
qed

lemma stored_text:
  assumes "v = JNull \<or> (\<exists>s. s \<noteq> [] \<and> P s \<and> v = JStr s)" and "\<And>s. s \<noteq> [] \<Longrightarrow> P s \<Longrightarrow> trim (f s) = s" and "trim (f []) = []"
  shows "js_or (JStr (trim (f (text_or_empty v)))) JNull = v"
  using assms by (auto simp: js_or_def)



text \<open>
  A value cannot be emptied: the empty text is left out of the request, as it is for a secret that is to stay, and the
  page reports success.
\<close>

theorem cleared_value_not_sent:
  assumes "trim s = []" and "trim (ce_key f) \<noteq> []" and "truthy i"
  shows "\<exists>data. save_config parse i (f\<lparr>ce_value := TextValue s\<rparr>) = PutConfig i data \<and> \<not> has_field data ''value''"
  using assms by (simp add: save_config_def has_field_def Let_def)

theorem cleared_value_not_sent_witness:
  "\<exists>data. save_config (\<lambda>_. None) (JInt 3) ((open_config True (JObj [(''key'', JStr ''a'')]))\<lparr>ce_value := TextValue []\<rparr>) = PutConfig (JInt 3) data
     \<and> \<not> has_field data ''value''"
proof (rule cleared_value_not_sent)
  show "trim (ce_key (open_config True (JObj [(''key'', JStr ''a'')]))) \<noteq> []"
    by (simp add: open_config_def text_input_def is_newline_def trim_plain is_ws_def)
qed simp_all

text \<open>
  A text that contains a double quote is cut there when the parameter is opened, and saved that way: its value is the
  only text of the form that is not escaped.
\<close>

theorem quoted_value_cut:
  assumes "field c ''value'' = JStr (s @ CHR 0x22 # t)" and "field c ''value_type'' = JStr ''string''"
    and "\<not> truthy (field c ''is_encrypted'')" and "CHR ''&'' \<notin> set s" and "CHR 0x22 \<notin> set s" and "text_input s = s"
  shows "read_value (ce_value (open_config True c)) = trim s"
  using assms by (simp add: open_config_def value_input_of_def attr_cut Let_def)

theorem quoted_value_cut_witness:
  "read_value (ce_value (open_config True (JObj [(''value'', JStr (''say '' @ CHR 0x22 # ''hi'')), (''value_type'', JStr ''string'')]))) = ''say''"
proof -
  have "read_value (ce_value (open_config True (JObj [(''value'', JStr (''say '' @ CHR 0x22 # ''hi'')), (''value_type'', JStr ''string'')])))
      = trim ''say ''"
    by (rule quoted_value_cut) (simp_all add: text_input_def is_newline_def)
  also have "trim ''say '' = ''say''" by code_simp
  finally show ?thesis .
qed

text \<open>
  Every JSON value is shown with three dots, also one that is shown in full.
\<close>

theorem json_value_dotted:
  assumes "parse v = Some j" and "v \<noteq> []" and "length (print j) \<le> 100"
  shows "format_value parse print ''json'' v = print j @ ''...''"
  using assms by (simp add: format_value_def)

theorem json_value_dotted_witness: "format_value (\<lambda>_. Some (JArr [])) (\<lambda>_. ''[]'') ''json'' ''[]'' = ''[]...''"
  using json_value_dotted [of "\<lambda>_. Some (JArr [])" "''[]''" "JArr []" "\<lambda>_. ''[]''"] by simp

end
