(* ===== verification/WsManager.thy ===== *)
theory WsManager
  imports Listeners JsValue UrlCodec
begin

text \<open>
  \<^verbatim>\<open>frontend/js/utils/websocket.js\<close>: the WebSocket manager. The state is the manager's
  fields, the browser sockets it has created (each with its ready state; the handlers of a
  socket stay installed after the manager has dropped it) and the pending reconnect timers.
  The operations are the methods and the handlers; \<open>ws_step\<close> lets the browser and the page
  call them in any order.
\<close>

section \<open>State\<close>

datatype ready = Connecting | Open | Closing | Closed

record 'c wsm =
  ws_url :: string
  ws_socks :: "ready list"
  ws_opened :: "string list"
  ws_cur :: "nat option"
  ws_listeners :: "(string, 'c list) jsmap"
  ws_attempts :: nat
  ws_should :: bool
  ws_timers :: "nat list"
  ws_sent :: "(nat \<times> string) list"

text \<open>Where the page runs: \<^verbatim>\<open>location.protocol\<close>, \<^verbatim>\<open>location.host\<close> and the current locale.\<close>

record page_loc =
  pl_protocol :: string
  pl_host :: string
  pl_locale :: string

definition ws_max_attempts :: nat where "ws_max_attempts = 5"
definition ws_base_delay :: nat where "ws_base_delay = 2000"

definition ws_new :: "string \<Rightarrow> 'c wsm" where
  "ws_new url = \<lparr>ws_url = url, ws_socks = [], ws_opened = [], ws_cur = None, ws_listeners = [],
     ws_attempts = 0, ws_should = True, ws_timers = [], ws_sent = []\<rparr>"

section \<open>Listeners\<close>

definition ws_callbacks :: "'c wsm \<Rightarrow> string \<Rightarrow> 'c list" where
  "ws_callbacks m ev = (case map_of (ws_listeners m) ev of Some cs \<Rightarrow> cs | None \<Rightarrow> [])"

definition ws_on :: "string \<Rightarrow> 'c \<Rightarrow> 'c wsm \<Rightarrow> 'c wsm" where
  "ws_on ev c m =
     (let ls = (if map_of (ws_listeners m) ev = None then AList.update ev [] (ws_listeners m)
                else ws_listeners m)
      in m\<lparr>ws_listeners := AList.update ev (the (map_of ls ev) @ [c]) ls\<rparr>)"

definition ws_off :: "string \<Rightarrow> 'c \<Rightarrow> 'c wsm \<Rightarrow> 'c wsm" where
  "ws_off ev c m =
     (if map_of (ws_listeners m) ev \<noteq> None
      then m\<lparr>ws_listeners := AList.update ev (filter (\<lambda>x. x \<noteq> c) (ws_callbacks m ev)) (ws_listeners m)\<rparr>
      else m)"

definition ws_emit ::
  "('c, js, 'w, 'e) runner \<Rightarrow> 'c wsm \<Rightarrow> string \<Rightarrow> js \<Rightarrow> 'w \<Rightarrow> ('e + unit) \<times> 'w" where
  "ws_emit run m ev v w = deliver_until run (ws_callbacks m ev) v w"

interpretation wsl: listener_registry ws_callbacks ws_on ws_off
  by unfold_locales (auto simp: ws_callbacks_def ws_on_def ws_off_def Let_def split: option.splits)

section \<open>Connection handling\<close>

definition ws_socket_url :: "page_loc \<Rightarrow> string \<Rightarrow> string" where
  "ws_socket_url loc url =
     (let protocol = (if pl_protocol loc = ''https:'' then ''wss:'' else ''ws:'');
          separator = (if includes_str url ''?'' then ''&'' else ''?'')
      in protocol @ ''//'' @ pl_host loc @ url @ separator @ ''lang=''
           @ encode_uri_component (pl_locale loc))"

definition ws_connect :: "page_loc \<Rightarrow> 'c wsm \<Rightarrow> 'c wsm" where
  "ws_connect loc m =
     (if (case ws_cur m of Some i \<Rightarrow> ws_socks m ! i = Open \<or> ws_socks m ! i = Connecting | None \<Rightarrow> False)
      then m
      else m\<lparr>ws_cur := Some (length (ws_socks m)), ws_socks := ws_socks m @ [Connecting],
             ws_opened := ws_opened m @ [ws_socket_url loc (ws_url m)]\<rparr>)"

text \<open>The handlers' changes to the manager; what they emit is given separately below.\<close>

definition ws_handle_open :: "nat \<Rightarrow> 'c wsm \<Rightarrow> 'c wsm" where
  "ws_handle_open i m = m\<lparr>ws_socks := (ws_socks m)[i := Open], ws_attempts := 0\<rparr>"

definition ws_handle_close :: "nat \<Rightarrow> 'c wsm \<Rightarrow> 'c wsm" where
  "ws_handle_close i m =
     (let m' = m\<lparr>ws_socks := (ws_socks m)[i := Closed]\<rparr>
      in if ws_should m' \<and> ws_attempts m' < ws_max_attempts
         then (let a = Suc (ws_attempts m')
               in m'\<lparr>ws_attempts := a,
                     ws_timers := ws_timers m' @ [min (ws_base_delay * 2 ^ (a - 1)) 32000]\<rparr>)
         else m')"

text \<open>
  \<^verbatim>\<open>onmessage\<close>: the parse and the delivery of the parsed message are inside one \<open>try\<close>, and the
  handler's \<open>catch\<close> emits the raw text.
\<close>

definition ws_on_message ::
  "(string \<Rightarrow> js option) \<Rightarrow> ('c, js, 'w, 'e) runner \<Rightarrow> 'c wsm \<Rightarrow> string \<Rightarrow> 'w \<Rightarrow> ('e + unit) \<times> 'w" where
  "ws_on_message parse run m raw w =
     (case parse raw of
        None \<Rightarrow> ws_emit run m ''message'' (JStr raw) w
      | Some data \<Rightarrow>
          (case ws_emit run m ''message'' data w of
             (Inr u, w') \<Rightarrow> (Inr u, w')
           | (Inl e, w') \<Rightarrow> ws_emit run m ''message'' (JStr raw) w'))"

text \<open>A reconnect timer that fires: the timer is spent and \<^verbatim>\<open>connect\<close> runs.\<close>

definition ws_fire_timer :: "page_loc \<Rightarrow> nat \<Rightarrow> 'c wsm \<Rightarrow> 'c wsm" where
  "ws_fire_timer loc j m =
     ws_connect loc (m\<lparr>ws_timers := take j (ws_timers m) @ drop (Suc j) (ws_timers m)\<rparr>)"

definition ws_send :: "string \<Rightarrow> 'c wsm \<Rightarrow> 'c wsm" where
  "ws_send data m =
     (case ws_cur m of
        Some i \<Rightarrow> (if ws_socks m ! i = Open then m\<lparr>ws_sent := ws_sent m @ [(i, data)]\<rparr> else m)
      | None \<Rightarrow> m)"

definition ws_disconnect :: "'c wsm \<Rightarrow> 'c wsm" where
  "ws_disconnect m =
     (case ws_cur m of
        Some i \<Rightarrow> m\<lparr>ws_should := False,
                   ws_socks := (ws_socks m)[i := (if ws_socks m ! i = Closed then Closed else Closing)],
                   ws_cur := None\<rparr>
      | None \<Rightarrow> m\<lparr>ws_should := False\<rparr>)"

lemmas ws_ops = ws_connect_def ws_handle_open_def ws_handle_close_def ws_fire_timer_def
  ws_send_def ws_disconnect_def ws_new_def Let_def

section \<open>Runs\<close>

text \<open>
  One step: the page calls a method, a timer fires, or the browser reports on a socket. The
  browser opens a connecting socket and closes a socket once.
\<close>

inductive ws_step :: "page_loc \<Rightarrow> 'c wsm \<Rightarrow> 'c wsm \<Rightarrow> bool" for loc where
  connect: "ws_step loc m (ws_connect loc m)"
| opened: "i < length (ws_socks m) \<Longrightarrow> ws_socks m ! i = Connecting \<Longrightarrow> ws_step loc m (ws_handle_open i m)"
| closed: "i < length (ws_socks m) \<Longrightarrow> ws_socks m ! i \<noteq> Closed \<Longrightarrow> ws_step loc m (ws_handle_close i m)"
| timer: "j < length (ws_timers m) \<Longrightarrow> ws_step loc m (ws_fire_timer loc j m)"
| send: "ws_step loc m (ws_send d m)"
| register: "ws_step loc m (ws_on ev c m)"
| unregister: "ws_step loc m (ws_off ev c m)"
| disconnect: "ws_step loc m (ws_disconnect m)"

inductive_cases ws_stepE: "ws_step loc m m'"

inductive ws_reach :: "page_loc \<Rightarrow> string \<Rightarrow> 'c wsm \<Rightarrow> bool" for loc url where
  start: "ws_reach loc url (ws_new url)"
| step: "ws_reach loc url m \<Longrightarrow> ws_step loc m m' \<Longrightarrow> ws_reach loc url m'"

definition ws_inv :: "'c wsm \<Rightarrow> bool" where
  "ws_inv m \<longleftrightarrow> ws_attempts m \<le> ws_max_attempts
     \<and> (\<forall>d \<in> set (ws_timers m). d \<in> {2000, 4000, 8000, 16000, 32000})
     \<and> (case ws_cur m of Some i \<Rightarrow> i < length (ws_socks m) | None \<Rightarrow> True)
     \<and> (\<forall>(i, d) \<in> set (ws_sent m). i < length (ws_socks m))"

lemma backoff_delay:
  "a < ws_max_attempts \<Longrightarrow> min (ws_base_delay * 2 ^ a) 32000 \<in> {2000, 4000, 8000, 16000, 32000}"
proof -
  assume "a < ws_max_attempts"
  then have "a = 0 \<or> a = 1 \<or> a = 2 \<or> a = 3 \<or> a = 4"
    unfolding ws_max_attempts_def by arith
  then show ?thesis by (auto simp: ws_base_delay_def)
qed

lemma ws_on_fields [simp]:
  "ws_attempts (ws_on ev c m) = ws_attempts m" "ws_timers (ws_on ev c m) = ws_timers m"
  "ws_cur (ws_on ev c m) = ws_cur m" "ws_socks (ws_on ev c m) = ws_socks m"
  "ws_sent (ws_on ev c m) = ws_sent m" "ws_should (ws_on ev c m) = ws_should m"
  by (simp_all add: ws_on_def Let_def)

lemma ws_off_fields [simp]:
  "ws_attempts (ws_off ev c m) = ws_attempts m" "ws_timers (ws_off ev c m) = ws_timers m"
  "ws_cur (ws_off ev c m) = ws_cur m" "ws_socks (ws_off ev c m) = ws_socks m"
  "ws_sent (ws_off ev c m) = ws_sent m" "ws_should (ws_off ev c m) = ws_should m"
  by (simp_all add: ws_off_def)

lemma ws_inv_connect: "ws_inv m \<Longrightarrow> ws_inv (ws_connect loc m)"
  by (auto simp: ws_inv_def ws_connect_def split: option.splits prod.splits intro: less_SucI)

lemma ws_inv_close: "ws_inv m \<Longrightarrow> ws_inv (ws_handle_close i m)"
  using backoff_delay [of "ws_attempts m"]
  by (auto simp: ws_inv_def ws_handle_close_def Let_def split: option.splits)

lemma ws_inv_timer: "ws_inv m \<Longrightarrow> ws_inv (ws_fire_timer loc j m)"
  unfolding ws_fire_timer_def
  by (rule ws_inv_connect) (auto simp: ws_inv_def split: option.splits dest: in_set_takeD in_set_dropD)

lemma ws_inv_step: "ws_step loc m m' \<Longrightarrow> ws_inv m \<Longrightarrow> ws_inv m'"
proof (induction rule: ws_step.induct)
  case (connect m)
  then show ?case by (rule ws_inv_connect)
next
  case (closed i m)
  then show ?case by (intro ws_inv_close)
next
  case (timer j m)
  then show ?case by (intro ws_inv_timer)
next
  case (send m d)
  then show ?case by (auto simp: ws_inv_def ws_send_def split: option.splits)
qed (auto simp: ws_inv_def ws_ops split: option.splits)

lemma ws_reach_inv: "ws_reach loc url m \<Longrightarrow> ws_inv m"
proof (induction rule: ws_reach.induct)
  case start
  show ?case by (simp add: ws_inv_def ws_new_def)
next
  case (step m m')
  then show ?case by (blast intro: ws_inv_step)
qed

section \<open>Properties\<close>


definition demo_loc :: page_loc where
  "demo_loc = \<lparr>pl_protocol = ''https:'', pl_host = ''db.local'', pl_locale = ''en-US''\<rparr>"

definition demo_ws :: "nat wsm" where
  "demo_ws = ws_handle_close 1 (ws_connect demo_loc (ws_handle_close 0 (ws_connect demo_loc (ws_new ''/ws/chat/7''))))"

lemma demo_ws_reach: "ws_reach demo_loc ''/ws/chat/7'' demo_ws"
  unfolding demo_ws_def
  by (rule ws_reach.step [OF ws_reach.step [OF ws_reach.step [OF ws_reach.step
        [OF ws_reach.start ws_step.connect] ws_step.closed] ws_step.connect] ws_step.closed])
     (simp_all add: ws_ops ws_max_attempts_def)


inductive ws_run :: "page_loc \<Rightarrow> 'c wsm \<Rightarrow> 'c wsm \<Rightarrow> bool" for loc where
  refl: "ws_run loc m m"
| more: "ws_run loc m m' \<Longrightarrow> ws_step loc m' m'' \<Longrightarrow> ws_run loc m m''"

lemma ws_connect_fields [simp]:
  "ws_should (ws_connect loc m) = ws_should m" "ws_timers (ws_connect loc m) = ws_timers m"
  by (simp_all add: ws_connect_def)

lemma mset_drop_nth: "mset (take j xs @ drop (Suc j) xs) \<subseteq># mset xs"
proof -
  have "mset xs = mset (take j xs) + mset (drop j xs)"
    by (metis append_take_drop_id mset_append)
  moreover have "mset (drop (Suc j) xs) \<subseteq># mset (drop j xs)"
    by (cases "drop j xs") (auto simp: drop_Suc drop_tl)
  ultimately show ?thesis by simp
qed

lemma ws_step_disconnected:
  "ws_step loc m m' \<Longrightarrow> \<not> ws_should m \<Longrightarrow> \<not> ws_should m' \<and> mset (ws_timers m') \<subseteq># mset (ws_timers m)"
proof (induction rule: ws_step.induct)
  case (timer j m)
  then show ?case using mset_drop_nth [of j "ws_timers m"] by (simp add: ws_fire_timer_def)
qed (auto simp: ws_ops split: option.splits)

lemma ws_run_disconnected:
  "ws_run loc m m' \<Longrightarrow> \<not> ws_should m \<Longrightarrow> \<not> ws_should m' \<and> mset (ws_timers m') \<subseteq># mset (ws_timers m)"
proof (induction rule: ws_run.induct)
  case (refl m)
  then show ?case by simp
next
  case (more m m' m'')
  then show ?case using ws_step_disconnected subset_mset.order_trans by metis
qed

text \<open>
  Once \<^verbatim>\<open>disconnect\<close> has been called no run ever schedules another reconnect: the pending
  timers are those that were pending, less the ones that have fired.
\<close>

theorem ws_disconnect_stops_reconnect:
  "ws_run loc (ws_disconnect m) m' \<Longrightarrow>
     \<not> ws_should m' \<and> mset (ws_timers m') \<subseteq># mset (ws_timers m)"
proof -
  assume "ws_run loc (ws_disconnect m) m'"
  moreover have "\<not> ws_should (ws_disconnect m)" and "ws_timers (ws_disconnect m) = ws_timers m"
    by (simp_all add: ws_disconnect_def split: option.splits)
  ultimately show ?thesis using ws_run_disconnected by metis
qed

theorem ws_disconnect_stops_reconnect_witness:
  "\<not> ws_should (ws_fire_timer demo_loc 0 (ws_disconnect demo_ws))
   \<and> mset (ws_timers (ws_fire_timer demo_loc 0 (ws_disconnect demo_ws))) \<subseteq># {#2000, 4000#}"
proof -
  have t: "ws_timers demo_ws = [2000, 4000]"
    by (simp add: demo_ws_def ws_ops ws_max_attempts_def ws_base_delay_def)
  then have "ws_timers (ws_disconnect demo_ws) = [2000, 4000]"
    by (simp add: ws_disconnect_def split: option.splits)
  then have "ws_run demo_loc (ws_disconnect demo_ws) (ws_fire_timer demo_loc 0 (ws_disconnect demo_ws))"
    by (intro ws_run.more [OF ws_run.refl] ws_step.timer) simp
  from ws_disconnect_stops_reconnect [OF this] t show ?thesis by simp
qed

text \<open>
  A reconnect timer that is already pending is not cancelled by \<^verbatim>\<open>disconnect\<close>: when it fires it
  opens a new socket, although the manager has been told not to reconnect.
\<close>

theorem ws_timer_survives_disconnect:
  "let m' = ws_fire_timer loc j (ws_disconnect m)
   in ws_cur m' = Some (length (ws_socks m)) \<and> last (ws_socks m') = Connecting \<and> \<not> ws_should m'"
  by (simp add: ws_ops split: option.splits)

lemma ws_message_parts:
  assumes cs: "ws_callbacks m ''message'' = before @ c # rest" and p: "parse raw = Some data"
    and b: "\<forall>x \<in> set before. \<not> throws x data" and raw: "\<forall>x. \<not> throws x (JStr raw)"
  shows "throws c data \<Longrightarrow>
           snd (ws_on_message parse (recorder throws) m raw []) =
             map (\<lambda>x. (x, data)) (before @ [c]) @ map (\<lambda>x. (x, JStr raw)) (before @ c # rest)"
    and "\<forall>x \<in> set (c # rest). \<not> throws x data \<Longrightarrow>
           snd (ws_on_message parse (recorder throws) m raw []) = map (\<lambda>x. (x, data)) (before @ c # rest)"
proof -
  assume t: "throws c data"
  with b have tw: "takeWhile (\<lambda>x. \<not> throws x data) (before @ c # rest) = before"
    and dw: "dropWhile (\<lambda>x. \<not> throws x data) (before @ c # rest) = c # rest"
    by simp_all
  have "\<exists>x \<in> set (before @ c # rest). throws x data" using t by simp
  then show "snd (ws_on_message parse (recorder throws) m raw []) =
      map (\<lambda>x. (x, data)) (before @ [c]) @ map (\<lambda>x. (x, JStr raw)) (before @ c # rest)"
    using raw
    by (simp add: ws_on_message_def ws_emit_def cs p deliver_until_recorder tw dw
        del: takeWhile_append dropWhile_append)
next
  assume "\<forall>x \<in> set (c # rest). \<not> throws x data"
  with b have "\<not> (\<exists>x \<in> set (before @ c # rest). throws x data)" by auto
  then show "snd (ws_on_message parse (recorder throws) m raw []) = map (\<lambda>x. (x, data)) (before @ c # rest)"
    by (simp add: ws_on_message_def ws_emit_def cs p deliver_until_recorder)
qed

text \<open>
  Message delivery: a frame that is JSON reaches every listener once as the parsed value
  when no listener throws; a frame that is not JSON reaches them once as the raw text; and when
  a listener throws on the parsed value, the listeners before it are called a second time with
  the raw text of the same frame.
\<close>

theorem ws_message_delivery:
  assumes "ws_callbacks m ''message'' = before @ c # rest" and "parse raw = Some data"
    and "\<forall>x \<in> set before. \<not> throws x data" and "\<forall>x. \<not> throws x (JStr raw)"
  shows "(throws c data \<longrightarrow>
           snd (ws_on_message parse (recorder throws) m raw []) =
             map (\<lambda>x. (x, data)) (before @ [c]) @ map (\<lambda>x. (x, JStr raw)) (before @ c # rest))
       \<and> ((\<forall>x \<in> set (c # rest). \<not> throws x data) \<longrightarrow>
           snd (ws_on_message parse (recorder throws) m raw []) = map (\<lambda>x. (x, data)) (before @ c # rest))"
  using ws_message_parts [where m = m and c = c and parse = parse and raw = raw and data = data
      and before = before and rest = rest and throws = throws, OF assms] by blast

theorem ws_message_delivery_witness:
  "snd (ws_on_message (\<lambda>_. Some JNull) (recorder (\<lambda>x v. x = (2::nat) \<and> v = JNull))
       (ws_on ''message'' 2 (ws_on ''message'' 1 (ws_new ''/ws''))) ''null'' [])
   = [(1, JNull), (2, JNull), (1, JStr ''null''), (2, JStr ''null'')]"
  using ws_message_delivery [where before = "[1]" and c = 2 and rest = "[]" and data = JNull
      and m = "ws_on ''message'' 2 (ws_on ''message'' 1 (ws_new ''/ws''))" and raw = "''null''"
      and parse = "\<lambda>_. Some JNull" and throws = "\<lambda>x v. x = (2::nat) \<and> v = JNull"]
  by (simp add: ws_callbacks_def ws_on_def ws_new_def Let_def)

end
