(* ===== verification/ChatSegments.thy ===== *)
theory ChatSegments
  imports JsValue
begin

text \<open>
  \<^verbatim>\<open>frontend/js/components/chat-widget.js\<close>: the render segments of an assistant message (markdown text
  and tool calls in order), the reading of tool results, the view state of a tool call, reasoning blocks
  and approvals. What depends on the page is an environment: the translations, \<^verbatim>\<open>JSON.parse\<close>, the clock
  and the full-width comma that joins the parts of a summary.
\<close>

record chat_env =
  ce_tr :: "string \<Rightarrow> js \<Rightarrow> string"
  ce_parse :: "string \<Rightarrow> js option"
  ce_now :: string
  ce_comma :: string

definition tr0 :: "chat_env \<Rightarrow> string \<Rightarrow> string" where
  "tr0 env k = ce_tr env (''pageCopy.chatWidget.'' @ k) (JObj [])"

section \<open>Segments\<close>

definition clone_segments :: "js list \<Rightarrow> js list" where
  "clone_segments segs = json_clone_list segs"

definition is_markdown :: "js \<Rightarrow> bool" where
  "is_markdown s \<longleftrightarrow> field s ''type'' = JStr ''markdown''"

definition is_tool :: "js \<Rightarrow> bool" where
  "is_tool s \<longleftrightarrow> field s ''type'' = JStr ''tool''"

definition extract_text :: "js list \<Rightarrow> string" where
  "extract_text segs = concat (map (\<lambda>s. text_or_empty (field s ''content'')) (filter is_markdown segs))"

text \<open>\<open>segs\<close> is the argument as it comes: only a non-empty array counts.\<close>

definition normalize_segments :: "js \<Rightarrow> string \<Rightarrow> js list" where
  "normalize_segments segs fallback =
     (case segs of
        JArr (x # xs) \<Rightarrow> clone_segments (x # xs)
      | _ \<Rightarrow> (if fallback \<noteq> []
              then [JObj [(''id'', JStr ''legacy_markdown''), (''type'', JStr ''markdown''), (''content'', JStr fallback)]]
              else []))"

definition append_markdown :: "chat_env \<Rightarrow> js list \<Rightarrow> js \<Rightarrow> js list" where
  "append_markdown env segs text =
     (let normalized = clone_segments segs; content = text_or_empty text in
      if content = [] then normalized
      else if normalized \<noteq> [] \<and> is_markdown (last normalized)
      then butlast normalized @
             [set_field ''content'' (JStr (text_or_empty (field (last normalized) ''content'') @ content)) (last normalized)]
      else normalized @
             [JObj [(''id'', JStr (''seg_'' @ ce_now env @ ''_'' @ str_of_nat (length normalized + 1))),
                    (''type'', JStr ''markdown''), (''content'', JStr content)]])"

definition segment_metadata :: "js \<Rightarrow> js \<Rightarrow> js" where
  "segment_metadata metadata overrides =
     spread metadata (JObj (filter (\<lambda>(k, v). v \<noteq> JUndef) (obj_fields overrides)))"

fun update_first :: "('a \<Rightarrow> bool) \<Rightarrow> ('a \<Rightarrow> 'a) \<Rightarrow> 'a list \<Rightarrow> 'a list option" where
  "update_first p f [] = None"
| "update_first p f (x # xs) = (if p x then Some (f x # xs) else map_option ((#) x) (update_first p f xs))"

definition patch_entry :: "js \<Rightarrow> string \<times> js \<Rightarrow> js" where
  "patch_entry seg = (\<lambda>(k, v).
     if v = JUndef then seg
     else if v = JNull then del_field k seg
     else if k = ''metadata'' then set_field ''metadata'' (spread (js_or (field seg ''metadata'') (JObj [])) v) seg
     else set_field k v seg)"

definition apply_tool_patch :: "chat_env \<Rightarrow> js \<Rightarrow> js \<Rightarrow> (string \<times> js) list \<Rightarrow> js \<Rightarrow> js" where
  "apply_tool_patch env tool_name call_id patch seg =
     (let p = JObj patch;
          s1 = set_field ''tool_name''
                 (js_or tool_name (js_or (field p ''tool_name'') (js_or (field seg ''tool_name'') (JStr (tr0 env ''tool''))))) seg;
          call = js_or call_id (field p ''tool_call_id'');
          s2 = (if truthy call then set_field ''tool_call_id'' call s1 else s1)
      in foldl patch_entry s2 patch)"

definition segment_key :: "js \<Rightarrow> js" where
  "segment_key s = js_or (field s ''tool_call_id'') (field s ''id'')"

definition upsert_tool :: "chat_env \<Rightarrow> js list \<Rightarrow> js \<Rightarrow> js \<Rightarrow> (string \<times> js) list \<Rightarrow> js list" where
  "upsert_tool env segs tool_name call_id patch =
     (let normalized = clone_segments segs; p = JObj patch;
          lookup = js_or call_id (js_or (field p ''tool_call_id'') (js_or (field p ''id'') tool_name))
      in case update_first (\<lambda>s. is_tool s \<and> strict_eq (segment_key s) lookup) (apply_tool_patch env tool_name call_id patch) normalized of
           Some segs' \<Rightarrow> segs'
         | None \<Rightarrow>
             (let fresh = JObj
                [(''id'', js_or lookup (JStr (''tool_'' @ ce_now env @ ''_'' @ str_of_nat (length normalized + 1)))),
                 (''type'', JStr ''tool''),
                 (''tool_call_id'', js_or call_id (js_or (field p ''tool_call_id'') JNull)),
                 (''tool_name'', js_or tool_name (js_or (field p ''tool_name'') (JStr (tr0 env ''tool'')))),
                 (''status'', js_or (field p ''status'') (JStr ''running''))]
              in normalized @ [apply_tool_patch env tool_name call_id patch fresh]))"

section \<open>Reasoning blocks\<close>

datatype text_piece = MarkdownPiece string | ThinkPiece string

text \<open>\<^verbatim>\<open>/<think\b[^>]*>/i\<close> at the start of a text: the length of the match.\<close>

definition open_tag_length :: "string \<Rightarrow> nat option" where
  "open_tag_length s =
     (let r = drop 6 s; attrs = takeWhile (\<lambda>c. c \<noteq> CHR ''>'') r in
      if to_lower (take 6 s) = ''<think'' \<and> r \<noteq> [] \<and> \<not> is_word (hd r) \<and> length attrs < length r
      then Some (6 + length attrs + 1) else None)"

text \<open>The text before the first opening tag, the tag's length and the rest from the tag.\<close>

fun find_open_tag :: "string \<Rightarrow> (string \<times> nat \<times> string) option" where
  "find_open_tag [] = None"
| "find_open_tag (c # cs) =
     (case open_tag_length (c # cs) of
        Some n \<Rightarrow> Some ([], n, c # cs)
      | None \<Rightarrow> (case find_open_tag cs of Some (a, n, r) \<Rightarrow> Some (c # a, n, r) | None \<Rightarrow> None))"

text \<open>The text before the first closing tag and the text after it.\<close>

fun split_close_tag :: "string \<Rightarrow> (string \<times> string) option" where
  "split_close_tag [] = None"
| "split_close_tag (c # cs) =
     (if to_lower (take 8 (c # cs)) = ''</think>'' then Some ([], drop 8 (c # cs))
      else (case split_close_tag cs of Some (a, b) \<Rightarrow> Some (c # a, b) | None \<Rightarrow> None))"

lemma find_open_tag_length: "find_open_tag s = Some (a, n, r) \<Longrightarrow> s = a @ r \<and> 0 < n \<and> n \<le> length r"
proof (induction s arbitrary: a)
  case (Cons c s)
  show ?case
  proof (cases "open_tag_length (c # s)")
    case None
    with Cons show ?thesis by (auto split: option.splits prod.splits)
  next
    case (Some m)
    with Cons.prems have "a = []" "n = m" "r = c # s" by auto
    moreover from Some have "0 < m \<and> m \<le> length (c # s)"
      by (auto simp: open_tag_length_def Let_def split: if_splits)
    ultimately show ?thesis by simp
  qed
qed simp

lemma split_close_tag_length: "split_close_tag s = Some (a, b) \<Longrightarrow> length b < length s"
  by (induction s arbitrary: a b) (auto split: if_splits option.splits)

function parse_pieces :: "string \<Rightarrow> text_piece list" where
  "parse_pieces s =
     (case find_open_tag s of
        None \<Rightarrow> (if s = [] then [] else [MarkdownPiece s])
      | Some (before, n, r) \<Rightarrow>
          (let inner = drop n r; lead = (if before = [] then [] else [MarkdownPiece before]) in
           case split_close_tag inner of
             Some (think, rest) \<Rightarrow> lead @ ThinkPiece think # parse_pieces rest
           | None \<Rightarrow> lead @ [ThinkPiece inner]))"
  by pat_completeness auto
termination
  by (relation "measure length")
     (auto dest!: find_open_tag_length split_close_tag_length)

declare parse_pieces.simps [simp del]

definition parse_assistant_text :: "string \<Rightarrow> text_piece list" where
  "parse_assistant_text s = (let ps = parse_pieces s in if ps = [] then [MarkdownPiece s] else ps)"

section \<open>Tool results\<close>

definition truncate_text :: "nat \<Rightarrow> string \<Rightarrow> string" where
  "truncate_text n s = (if length s > n then take (n - 3) s @ ''...'' else s)"

definition build_summary :: "chat_env \<Rightarrow> js \<Rightarrow> string \<Rightarrow> string" where
  "build_summary env data fallback =
     (if \<not> truthy data then fallback
      else (case data of
        JStr s \<Rightarrow> truncate_text 120 (trim s)
      | JArr xs \<Rightarrow> ce_tr env ''pageCopy.chatWidget.backValueRecords'' (JObj [(''value0'', JInt (int (length xs)))])
      | JObj kvs \<Rightarrow>
          if truthy (field data ''error'') then js_string (field data ''error'')
          else if truthy (field data ''message'') then js_string (field data ''message'')
          else (let parts = map (\<lambda>(k, v). k @ ''='' @ truncate_text 24
                          (if typeof_object v then json_text v else js_string v)) (take 3 kvs);
                    joined = join (ce_comma env) parts
                in if joined \<noteq> [] then joined else fallback)
      | _ \<Rightarrow> js_string data))"

record parsed_result =
  pr_value :: js
  pr_text :: string
  pr_display :: string
  pr_error :: bool
  pr_truncated :: bool
  pr_summary :: string

definition parse_tool_result :: "chat_env \<Rightarrow> js \<Rightarrow> parsed_result" where
  "parse_tool_result env result =
     (let (value, text) =
            (case result of
               JStr s \<Rightarrow> (case ce_parse env s of Some v \<Rightarrow> (v, json_pretty 0 v) | None \<Rightarrow> (result, s))
             | JUndef \<Rightarrow> (result, [])
             | _ \<Rightarrow> (result, json_pretty 0 result));
          err = (truthy value \<and> typeof_object value \<and>
                 (field value ''success'' = JBool False \<or> truthy (field value ''error'')));
          long = length text > 2000
      in \<lparr>pr_value = value, pr_text = text,
          pr_display = (if long then ce_tr env ''pageCopy.chatWidget.truncatedPreview''
                                       (JObj [(''value0'', JStr (trim_end (take 2000 text)))]) else text),
          pr_error = err, pr_truncated = long,
          pr_summary = build_summary env value (tr0 env (if err then ''executionFailed'' else ''resultsReturned''))\<rparr>)"

definition stringify_data :: "js \<Rightarrow> string" where
  "stringify_data v = (case v of JStr s \<Rightarrow> s | _ \<Rightarrow> json_pretty 0 v)"

record tool_state =
  ts_id :: js
  ts_name :: js
  ts_call :: js
  ts_args :: string
  ts_label :: string
  ts_class :: string
  ts_summary :: js
  ts_time :: js
  ts_metadata :: js
  ts_display :: string
  ts_result :: string
  ts_error :: bool
  ts_truncated :: bool
  ts_visualization :: js
  ts_approval :: js
  ts_approval_status :: js
  ts_risk_level :: js
  ts_risk_reason :: js

definition status_view :: "chat_env \<Rightarrow> js \<Rightarrow> string \<times> string" where
  "status_view env status =
     (if status = JStr ''completed'' then (tr0 env ''complete'', ''success'')
      else if status = JStr ''failed'' then (tr0 env ''failed'', ''error'')
      else if status = JStr ''waiting_approval'' then (tr0 env ''toBeConfirmed'', ''pending'')
      else (tr0 env ''executing'', ''running''))"

definition tool_state_of :: "chat_env \<Rightarrow> js \<Rightarrow> tool_state" where
  "tool_state_of env seg =
     (let parsed = parse_tool_result env (field seg ''result'');
          status = js_or (field seg ''status'')
                     (JStr (if pr_error parsed then ''failed'' else if truthy (field seg ''result'') then ''completed'' else ''running''));
          metadata = js_or (field seg ''metadata'') (JObj [])
      in \<lparr>ts_id = js_or (field seg ''tool_call_id'') (js_or (field seg ''id'')
                    (JStr (''inline-tool-'' @ js_string (js_or (field seg ''tool_name'') (JStr ''tool''))))),
          ts_name = js_or (field seg ''tool_name'') (JStr (tr0 env ''tool'')),
          ts_call = js_or (field seg ''tool_call_id'') (js_or (field seg ''id'') JNull),
          ts_args = (if truthy (field seg ''args'') then stringify_data (field seg ''args'') else []),
          ts_label = fst (status_view env status), ts_class = snd (status_view env status),
          ts_summary = js_or (field seg ''summary'') (js_or (JStr (pr_summary parsed))
             (JStr (tr0 env (if status = JStr ''failed'' then ''executionFailed'' else ''theCallHasBeenInitiatedWaitingFor'')))),
          ts_time = js_coalesce (field seg ''execution_time_ms'') JNull,
          ts_metadata = metadata,
          ts_display = pr_display parsed, ts_result = pr_text parsed,
          ts_error = (status = JStr ''failed'' \<or> pr_error parsed), ts_truncated = pr_truncated parsed,
          ts_visualization = js_or (field seg ''visualization'') JNull,
          ts_approval = js_or (field metadata ''approval_id'') JNull,
          ts_approval_status = js_or (field metadata ''approval_status'')
             (if status = JStr ''waiting_approval'' then JStr ''pending'' else JNull),
          ts_risk_level = js_or (field metadata ''risk_level'') JNull,
          ts_risk_reason = js_or (field metadata ''risk_reason'') (JStr [])\<rparr>)"

definition metadata_items :: "chat_env \<Rightarrow> js \<Rightarrow> (string \<times> js \<times> bool) list" where
  "metadata_items env m =
     (if truthy (field m ''action_title'') then [(tr0 env ''action'', field m ''action_title'', False)] else []) @
     (if truthy (field m ''phase'') then [(tr0 env ''stage'', field m ''phase'', False)] else []) @
     (if truthy (field m ''skill_execution_id'') then [(''skill_execution_id'', field m ''skill_execution_id'', True)] else []) @
     (if truthy (field m ''action_run_id'') then [(''action_run_id'', field m ''action_run_id'', True)] else [])"

text \<open>The approval part of a card.\<close>

datatype approval_view = NoApproval | ApprovalButtons string js | ApprovalRunning | ApprovalRejected

definition approval_view_of :: "tool_state \<Rightarrow> approval_view" where
  "approval_view_of t =
     (if \<not> truthy (ts_approval t) then NoApproval
      else if ts_approval_status t = JStr ''pending'' \<and> ts_class t = ''pending''
      then ApprovalButtons (js_string (ts_risk_reason t)) (ts_approval t)
      else if ts_approval_status t = JStr ''approving'' \<and> ts_class t = ''running'' then ApprovalRunning
      else if ts_approval_status t = JStr ''rejected'' then ApprovalRejected
      else NoApproval)"

section \<open>Approvals\<close>

text \<open>\<open>patch\<close> has the fields status, summary and metadata, each of which may be absent.\<close>

definition patch_one_approval :: "js \<Rightarrow> js \<Rightarrow> js \<Rightarrow> js" where
  "patch_one_approval approval patch seg =
     (let metadata = js_or (field seg ''metadata'') (JObj []);
          s1 = (if field patch ''status'' = JUndef then seg else set_field ''status'' (field patch ''status'') seg);
          s2 = (if field patch ''summary'' = JUndef then s1
                else if field patch ''summary'' = JNull then del_field ''summary'' s1
                else set_field ''summary'' (field patch ''summary'') s1)
      in set_field ''metadata'' (spread metadata (js_or (field patch ''metadata'') (JObj []))) s2)"

definition has_approval :: "js \<Rightarrow> js \<Rightarrow> bool" where
  "has_approval approval seg \<longleftrightarrow> is_tool seg \<and>
     strict_eq (field (js_or (field seg ''metadata'') (JObj [])) ''approval_id'') approval"

definition patch_approval :: "js list \<Rightarrow> js \<Rightarrow> js \<Rightarrow> bool \<times> js list" where
  "patch_approval segs approval patch =
     (let normalized = clone_segments segs
      in (list_ex (has_approval approval) normalized,
          map (\<lambda>s. if has_approval approval s then patch_one_approval approval patch s else s) normalized))"

section \<open>Laws of the segments\<close>

lemma clone_id: "is_json_list segs \<Longrightarrow> clone_segments segs = segs"
  by (simp add: clone_segments_def json_clone_id)

lemma extract_append [simp]: "extract_text (a @ b) = extract_text a @ extract_text b"
  by (simp add: extract_text_def)

lemma extract_Cons:
  "extract_text (s # segs) = (if is_markdown s then text_or_empty (field s ''content'') else []) @ extract_text segs"
  by (simp add: extract_text_def)

lemma text_or_empty_JStr [simp]: "text_or_empty (JStr s) = s"
  by (simp add: text_or_empty_def js_or_def)

lemma append_markdown_text:
  assumes "is_json_list segs"
  shows "extract_text (append_markdown env segs t) = extract_text segs @ text_or_empty t"
proof (cases "text_or_empty t = []")
  case True
  then show ?thesis using assms by (simp add: append_markdown_def clone_id Let_def)
next
  case False
  show ?thesis
  proof (cases "segs \<noteq> [] \<and> is_markdown (last segs)")
    case True
    then have "extract_text segs = extract_text (butlast segs) @ text_or_empty (field (last segs) ''content'')"
      using append_butlast_last_id [of segs] extract_append [of "butlast segs" "[last segs]"]
      by (simp add: extract_Cons) (simp add: extract_text_def)
    with True False assms show ?thesis
      by (simp add: append_markdown_def clone_id Let_def extract_Cons is_markdown_def) (simp add: extract_text_def)
  next
    case False2: False
    have "append_markdown env segs t = segs @ [JObj [(''id'', JStr (''seg_'' @ ce_now env @ ''_'' @ str_of_nat (length segs + 1))),
          (''type'', JStr ''markdown''), (''content'', JStr (text_or_empty t))]]"
      using False False2 assms by (auto simp: append_markdown_def clone_id Let_def)
    then show ?thesis by (simp add: extract_Cons is_markdown_def) (simp add: extract_text_def)
  qed
qed

lemma json_update: "is_json_fields kvs \<Longrightarrow> is_json v \<Longrightarrow> is_json_fields (AList.update k v kvs)"
  by (induction kvs) auto

lemma json_delete: "is_json_fields kvs \<Longrightarrow> is_json_fields (AList.delete k kvs)"
  by (induction kvs) (auto simp: AList.delete_eq)

lemma json_obj_fields: "is_json v \<Longrightarrow> is_json_fields (obj_fields v)"
  by (cases v) auto

lemma json_set_field: "is_json v \<Longrightarrow> is_json x \<Longrightarrow> is_json (set_field k x v)"
  by (simp add: set_field_def json_update json_obj_fields)

lemma json_del_field: "is_json v \<Longrightarrow> is_json (del_field k v)"
  by (simp add: del_field_def json_delete json_obj_fields)

lemma json_updates:
  "is_json_fields kvs \<Longrightarrow> is_json_fields ys \<Longrightarrow> is_json_fields (AList.updates (map fst ys) (map snd ys) kvs)"
  by (induction ys arbitrary: kvs) (auto simp: json_update)

lemma json_spread: "is_json a \<Longrightarrow> is_json b \<Longrightarrow> is_json (spread a b)"
  by (simp add: spread_def json_updates json_obj_fields)

lemma json_list_append [simp]: "is_json_list (a @ b) \<longleftrightarrow> is_json_list a \<and> is_json_list b"
  by (auto simp: is_json_list_iff)

lemma json_clone_list [simp]: "is_json_list (clone_segments segs)"
  by (simp add: clone_segments_def)

lemma json_append_markdown: "is_json_list (append_markdown env segs t)"
proof -
  let ?n = "clone_segments segs"
  have n: "is_json_list ?n" by simp
  show ?thesis
  proof (cases "?n = []")
    case True
    then show ?thesis by (simp add: append_markdown_def Let_def)
  next
    case False
    then have "is_json_list (butlast ?n @ [last ?n])" using n by simp
    then have "is_json_list (butlast ?n)" "is_json (last ?n)" unfolding json_list_append by simp_all
    with n False show ?thesis
      by (simp add: append_markdown_def Let_def json_set_field)
  qed
qed

text \<open>A patch of plain fields: JSON values (or undefined), none of which is the kind of the segment or
  its identity.\<close>

definition plain_patch :: "(string \<times> js) list \<Rightarrow> bool" where
  "plain_patch patch \<longleftrightarrow> list_all (\<lambda>(k, v). k \<notin> {''type'', ''id'', ''tool_call_id'', ''content''} \<and> (v = JUndef \<or> is_json v)) patch"

lemma patch_entry_other: "k' \<noteq> k \<Longrightarrow> field (patch_entry seg (k, v)) k' = field seg k'"
  by (auto simp: patch_entry_def)

lemma patch_entries_other: "list_all (\<lambda>p. fst p \<noteq> k') patch \<Longrightarrow> field (foldl patch_entry seg patch) k' = field seg k'"
proof (induction patch arbitrary: seg)
  case (Cons p patch)
  obtain k v where "p = (k, v)" by (cases p)
  with Cons show ?case by (auto simp: patch_entry_other [of k' k, OF not_sym])
qed simp

lemma json_or: "a = JUndef \<or> is_json a \<Longrightarrow> is_json b \<Longrightarrow> is_json (js_or a b)"
  by (auto simp: js_or_def)

lemma json_field_or: "is_json v \<Longrightarrow> field v k = JUndef \<or> is_json (field v k)"
  using is_json_field [of v k] by blast

lemma patch_entry_json:
  assumes "is_json seg" and "v = JUndef \<or> is_json v"
  shows "is_json (patch_entry seg (k, v))"
proof (cases "v = JUndef \<or> v = JNull")
  case True
  then show ?thesis using assms by (auto simp: patch_entry_def json_del_field)
next
  case False
  have "is_json (js_or (field seg ''metadata'') (JObj []))"
    by (rule json_or [OF json_field_or [OF assms(1)]]) simp
  with False assms show ?thesis by (simp add: patch_entry_def json_set_field json_spread)
qed

lemma patch_entries_json: "plain_patch patch \<Longrightarrow> is_json seg \<Longrightarrow> is_json (foldl patch_entry seg patch)"
proof (induction patch arbitrary: seg)
  case Nil
  then show ?case by simp
next
  case (Cons p patch)
  obtain k v where p: "p = (k, v)" by (cases p)
  have "v = JUndef \<or> is_json v" using Cons.prems(1) p by (simp add: plain_patch_def)
  then have "is_json (patch_entry seg (k, v))" by (rule patch_entry_json [OF Cons.prems(2)])
  moreover have "plain_patch patch" using Cons.prems(1) by (simp add: plain_patch_def)
  ultimately show ?case using Cons.IH p by simp
qed

lemma plain_keys: "plain_patch patch \<Longrightarrow> k \<in> {''type'', ''id'', ''tool_call_id'', ''content''} \<Longrightarrow> list_all (\<lambda>p. fst p \<noteq> k) patch"
  by (auto simp: plain_patch_def list_all_iff)

lemma plain_field: "plain_patch patch \<Longrightarrow> k \<in> {''type'', ''id'', ''tool_call_id'', ''content''} \<Longrightarrow> field (JObj patch) k = JUndef"
  using plain_keys [of patch k]
  by (induction patch) (auto simp: plain_patch_def)

lemma plain_json_field: "plain_patch patch \<Longrightarrow> field (JObj patch) k = JUndef \<or> is_json (field (JObj patch) k)"
  by (induction patch) (auto simp: plain_patch_def)

text \<open>The identity of a call: a non-empty text.\<close>

lemma apply_patch_fields:
  assumes "plain_patch patch" and "i \<noteq> []"
  shows "field (apply_tool_patch env name (JStr i) patch seg) ''type'' = field seg ''type''"
    and "field (apply_tool_patch env name (JStr i) patch seg) ''tool_call_id'' = JStr i"
    and "field (apply_tool_patch env name (JStr i) patch seg) ''content'' = field seg ''content''"
  using assms plain_keys [OF assms(1)]
  by (simp_all add: apply_tool_patch_def patch_entries_other Let_def)

lemma apply_patch_json:
  assumes "plain_patch patch" and "is_json seg" and "is_json name"
  shows "is_json (apply_tool_patch env name (JStr i) patch seg)"
proof -
  have "is_json (js_or name (js_or (field (JObj patch) ''tool_name'') (js_or (field seg ''tool_name'') (JStr t))))" for t
    using assms plain_json_field [OF assms(1), of "''tool_name''"] json_field_or [OF assms(2), of "''tool_name''"]
    by (intro json_or) auto
  moreover have "is_json (js_or (JStr i) (field (JObj patch) ''tool_call_id''))" if "truthy (js_or (JStr i) (field (JObj patch) ''tool_call_id''))"
    using that assms(1) by (cases "i = []") (auto simp: js_or_def plain_field)
  ultimately show ?thesis
    using assms by (simp add: apply_tool_patch_def Let_def patch_entries_json json_set_field)
qed

lemma update_first_None: "update_first p f xs = None \<longleftrightarrow> \<not> list_ex p xs"
  by (induction xs) auto

lemma update_first_Some: "update_first p f xs = Some ys \<Longrightarrow> \<exists>a x b. xs = a @ x # b \<and> p x \<and> ys = a @ f x # b \<and> \<not> list_ex p a"
proof (induction xs arbitrary: ys)
  case (Cons x xs)
  show ?case
  proof (cases "p x")
    case True
    with Cons.prems have "x # xs = [] @ x # xs \<and> p x \<and> ys = [] @ f x # xs \<and> \<not> list_ex p []" by simp
    then show ?thesis by blast
  next
    case False
    with Cons.prems obtain zs where z: "update_first p f xs = Some zs" "ys = x # zs" by auto
    from Cons.IH [OF z(1)] obtain a y b where "xs = a @ y # b \<and> p y \<and> zs = a @ f y # b \<and> \<not> list_ex p a" by blast
    with False z(2) have "x # xs = (x # a) @ y # b \<and> p y \<and> ys = (x # a) @ f y # b \<and> \<not> list_ex p (x # a)" by simp
    then show ?thesis by blast
  qed
qed simp

definition is_call :: "string \<Rightarrow> js \<Rightarrow> bool" where
  "is_call i s \<longleftrightarrow> is_tool s \<and> segment_key s = JStr i"

lemma tool_not_markdown: "is_tool s \<Longrightarrow> \<not> is_markdown s"
  by (simp add: is_tool_def is_markdown_def)

text \<open>What an update of the call \<open>i\<close> does to a list of segments.\<close>

lemma upsert_cases:
  assumes "is_json_list segs" and "plain_patch patch" and "i \<noteq> []" and "is_json name"
  obtains (known) a x b where "segs = a @ x # b" "is_call i x" "\<not> list_ex (is_call i) a"
      "upsert_tool env segs name (JStr i) patch = a @ apply_tool_patch env name (JStr i) patch x # b"
    | (new) y where "\<not> list_ex (is_call i) segs" "upsert_tool env segs name (JStr i) patch = segs @ [y]"
      "is_call i y" "is_json y"
proof -
  let ?p = "\<lambda>s. is_tool s \<and> strict_eq (segment_key s) (JStr i)" and ?f = "apply_tool_patch env name (JStr i) patch"
  have pc: "?p = is_call i" by (auto simp: is_call_def)
  have lk: "js_or (JStr i) x = JStr i" for x using assms(3) by simp
  show ?thesis
  proof (cases "update_first ?p ?f segs")
    case (Some ys)
    from update_first_Some [OF Some] obtain a x b where
      "segs = a @ x # b" "?p x" "ys = a @ ?f x # b" "\<not> list_ex ?p a" by blast
    moreover have "upsert_tool env segs name (JStr i) patch = ys"
      using Some by (simp add: upsert_tool_def clone_id [OF assms(1)] lk Let_def)
    ultimately show ?thesis using known pc by metis
  next
    case None
    let ?s0 = "JObj [(''id'', JStr i), (''type'', JStr ''tool''), (''tool_call_id'', JStr i),
        (''tool_name'', js_or name (js_or (field (JObj patch) ''tool_name'') (JStr (tr0 env ''tool'')))),
        (''status'', js_or (field (JObj patch) ''status'') (JStr ''running''))]"
    have u: "upsert_tool env segs name (JStr i) patch = segs @ [?f ?s0]"
      using None by (simp add: upsert_tool_def clone_id [OF assms(1)] lk Let_def)
    have j: "is_json ?s0"
      using assms(4) plain_json_field [OF assms(2), of "''tool_name''"] plain_json_field [OF assms(2), of "''status''"]
      by (auto simp: js_or_def)
    have c: "is_call i (?f ?s0)"
      using apply_patch_fields [OF assms(2,3), of env name ?s0] assms(3)
      by (simp add: is_call_def is_tool_def segment_key_def)
    from None have "\<not> list_ex ?p segs" unfolding update_first_None .
    then have "\<not> list_ex (is_call i) segs" unfolding pc .
    then show ?thesis using new [OF _ u c apply_patch_json [OF assms(2) j assms(4)]] by blast
  qed
qed

lemma call_of_patch: "plain_patch patch \<Longrightarrow> i \<noteq> [] \<Longrightarrow> is_call i x \<Longrightarrow> is_call i (apply_tool_patch env name (JStr i) patch x)"
  using apply_patch_fields [of patch i env name x] by (simp add: is_call_def is_tool_def segment_key_def)

lemma upsert_json:
  assumes "is_json_list segs" and "plain_patch patch" and "i \<noteq> []" and "is_json name"
  shows "is_json_list (upsert_tool env segs name (JStr i) patch)"
proof (cases rule: upsert_cases [OF assms, of env, case_names known new])
  case (known a x b)
  with assms show ?thesis by (simp add: apply_patch_json)
next
  case (new y)
  with assms show ?thesis by simp
qed

lemma upsert_text:
  assumes "is_json_list segs" and "plain_patch patch" and "i \<noteq> []" and "is_json name"
  shows "extract_text (upsert_tool env segs name (JStr i) patch) = extract_text segs"
proof (cases rule: upsert_cases [OF assms, of env, case_names known new])
  case (known a x b)
  have "\<not> is_markdown x" "\<not> is_markdown (apply_tool_patch env name (JStr i) patch x)"
    using known(2) call_of_patch [OF assms(2,3) known(2), of env name] tool_not_markdown by (auto simp: is_call_def)
  with known show ?thesis by (simp add: extract_Cons)
next
  case (new y)
  then have "\<not> is_markdown y" using tool_not_markdown by (auto simp: is_call_def)
  with new show ?thesis by (simp add: extract_Cons) (simp add: extract_text_def)
qed

lemma upsert_count:
  assumes "is_json_list segs" and "plain_patch patch" and "i \<noteq> []" and "is_json name"
  shows "length (filter (is_call i) (upsert_tool env segs name (JStr i) patch)) = max 1 (length (filter (is_call i) segs))"
proof (cases rule: upsert_cases [OF assms, of env, case_names known new])
  case (known a x b)
  with call_of_patch [OF assms(2,3) known(2), of env name] show ?thesis by simp
next
  case (new y)
  then have "filter (is_call i) segs = []" by (auto simp: filter_empty_conv list_ex_iff)
  with new show ?thesis by simp
qed

lemma upsert_others:
  assumes "is_json_list segs" and "plain_patch patch" and "i \<noteq> []" and "is_json name"
  shows "filter (\<lambda>s. \<not> is_call i s) (upsert_tool env segs name (JStr i) patch) = filter (\<lambda>s. \<not> is_call i s) segs"
proof (cases rule: upsert_cases [OF assms, of env, case_names known new])
  case (known a x b)
  with call_of_patch [OF assms(2,3) known(2), of env name] show ?thesis by simp
qed simp

lemma upsert_other_calls:
  assumes "is_json_list segs" and "plain_patch patch" and "i \<noteq> []" and "is_json name" and "k \<noteq> i"
  shows "filter (is_call k) (upsert_tool env segs name (JStr i) patch) = filter (is_call k) segs"
proof -
  have f: "filter (is_call k) xs = filter (is_call k) (filter (\<lambda>s. \<not> is_call i s) xs)" for xs
    unfolding filter_filter using assms(5) by (intro filter_cong) (auto simp: is_call_def)
  show ?thesis using upsert_others [OF assms(1-4), of env] f by metis
qed

lemma append_markdown_calls:
  assumes "is_json_list segs"
  shows "length (filter (is_call k) (append_markdown env segs t)) = length (filter (is_call k) segs)"
proof (cases "segs = []")
  case True
  then show ?thesis by (simp add: append_markdown_def clone_segments_def is_call_def is_tool_def Let_def)
next
  case False
  then obtain xs x where s: "segs = xs @ [x]" by (metis rev_exhaust)
  have "\<not> is_call k (set_field ''content'' v x)" "\<not> is_call k x" if "is_markdown x" for v
    using that by (simp_all add: is_call_def is_tool_def is_markdown_def)
  then show ?thesis
    using assms by (simp add: s append_markdown_def clone_id [OF assms, unfolded s] is_call_def [of _ "JObj _"] is_tool_def [of "JObj _"] Let_def)
qed

text \<open>
  A tool call has one card: whatever segments are there, after the call or the result of a tool with
  a call identifier exactly one more or the same number of segments is there, the number of segments of
  this call does not grow beyond what it was or one, every other segment is untouched, and the text of
  the answer is unchanged.
\<close>

theorem upsert_tool_unique:
  assumes "is_json_list segs" and "plain_patch patch" and "i \<noteq> []" and "is_json name"
  shows "length (filter (is_call i) (upsert_tool env segs name (JStr i) patch)) = max 1 (length (filter (is_call i) segs))
     \<and> filter (\<lambda>s. \<not> is_call i s) (upsert_tool env segs name (JStr i) patch) = filter (\<lambda>s. \<not> is_call i s) segs
     \<and> extract_text (upsert_tool env segs name (JStr i) patch) = extract_text segs"
  using upsert_count [OF assms] upsert_others [OF assms] upsert_text [OF assms] by blast

definition demo_chat_env :: chat_env where
  "demo_chat_env = \<lparr>ce_tr = (\<lambda>k p. k), ce_parse = (\<lambda>s. None), ce_now = ''1700'', ce_comma = '', ''\<rparr>"

theorem upsert_tool_unique_witness:
  "length (filter (is_call ''c1'') (upsert_tool demo_chat_env
      (upsert_tool demo_chat_env [] (JStr ''execute_sql'') (JStr ''c1'') [(''status'', JStr ''running'')])
      (JStr ''execute_sql'') (JStr ''c1'') [(''status'', JStr ''completed''), (''result'', JStr ''ok'')])) = 1"
proof -
  let ?s = "upsert_tool demo_chat_env [] (JStr ''execute_sql'') (JStr ''c1'') [(''status'', JStr ''running'')]"
  have p: "plain_patch [(''status'', JStr ''running'')]" "plain_patch [(''status'', JStr ''completed''), (''result'', JStr ''ok'')]"
    by (simp_all add: plain_patch_def)
  have j: "is_json_list ?s" by (rule upsert_json) (simp_all add: p)
  have "length (filter (is_call ''c1'') ?s) = 1"
    using upsert_tool_unique [of "[]" "[(''status'', JStr ''running'')]" "''c1''" "JStr ''execute_sql''" demo_chat_env] p
    by simp
  with upsert_tool_unique [OF j p(2), of "''c1''" "JStr ''execute_sql''" demo_chat_env] show ?thesis by simp
qed

end
