(* ===== verification/ChatScroll.thy ===== *)
theory ChatScroll
  imports Prelude
begin

text \<open>
  \<^verbatim>\<open>frontend/js/components/chat-widget.js\<close>, the scrolling of the message list: new content keeps the
  list at its end while the reader is there, and is announced on the button once the reader has
  scrolled away. \<open>box\<close> is the geometry of \<open>#chat-messages\<close> (None when the page has no list): the
  browser changes it, the code only assigns the scroll position, which the browser clamps. A smooth
  scroll is tracked frame by frame; \<open>frame\<close> holds the start time of the pending frame.
\<close>

record box =
  bx_height :: int
  bx_top :: int
  bx_client :: int

record scroll =
  sc_box :: "box option"
  sc_auto :: bool
  sc_unread :: bool
  sc_suppress :: bool
  sc_ignore :: bool
  sc_frame :: "int option"
  sc_button :: "bool \<times> bool"   \<comment> \<open>visible, has unread content\<close>

definition bottom_threshold :: int where "bottom_threshold = 48"

definition init_scroll :: scroll where
  "init_scroll = \<lparr>sc_box = None, sc_auto = True, sc_unread = False, sc_suppress = False,
     sc_ignore = False, sc_frame = None, sc_button = (False, False)\<rparr>"

definition box_distance :: "box \<Rightarrow> int" where
  "box_distance b = bx_height b - bx_top b - bx_client b"

definition near_bottom :: "scroll \<Rightarrow> bool" where
  "near_bottom s = (case sc_box s of None \<Rightarrow> True | Some b \<Rightarrow> box_distance b \<le> bottom_threshold)"

text \<open>Assigning \<^verbatim>\<open>scrollTop\<close>.\<close>

definition set_top :: "int \<Rightarrow> box \<Rightarrow> box" where
  "set_top t b = b\<lparr>bx_top := max 0 (min t (bx_height b - bx_client b))\<rparr>"

definition cancel_tracking :: "scroll \<Rightarrow> scroll" where
  "cancel_tracking s = s\<lparr>sc_ignore := False, sc_frame := None\<rparr>"

definition update_scroll_button :: "scroll \<Rightarrow> scroll" where
  "update_scroll_button s =
     (if sc_box s = None then s
      else s\<lparr>sc_button := (\<not> sc_auto s \<or> sc_unread s, sc_unread s)\<rparr>)"

definition reset_scroll :: "scroll \<Rightarrow> scroll" where
  "reset_scroll s = update_scroll_button (cancel_tracking
     (s\<lparr>sc_auto := True, sc_unread := False, sc_suppress := False\<rparr>))"

text \<open>The list is created with its button, which is not marked, and the state starts afresh.\<close>

definition create_container :: "box \<Rightarrow> scroll \<Rightarrow> scroll" where
  "create_container b s = (reset_scroll s)\<lparr>sc_box := Some b, sc_button := (False, False)\<rparr>"

definition handle_scroll :: "scroll \<Rightarrow> scroll" where
  "handle_scroll s =
     (if sc_ignore s \<and> \<not> near_bottom s then s
      else update_scroll_button
        (if near_bottom s then (cancel_tracking s)\<lparr>sc_auto := True, sc_unread := False\<rparr>
         else s\<lparr>sc_auto := False\<rparr>))"

text \<open>\<open>smooth_ok\<close>: the list has \<^verbatim>\<open>scrollTo\<close>.\<close>

definition scroll_to_bottom :: "bool \<Rightarrow> bool \<Rightarrow> int \<Rightarrow> scroll \<Rightarrow> scroll" where
  "scroll_to_bottom smooth_ok smooth now s =
     (case sc_box s of
        None \<Rightarrow> s
      | Some b \<Rightarrow>
          if smooth \<and> smooth_ok then (cancel_tracking s)\<lparr>sc_ignore := True, sc_frame := Some now\<rparr>
          else s\<lparr>sc_box := Some (set_top (bx_height b) b)\<rparr>)"

text \<open>The pending frame of a smooth scroll runs at \<open>now\<close>.\<close>

definition scroll_frame :: "int \<Rightarrow> scroll \<Rightarrow> scroll" where
  "scroll_frame now s =
     (case sc_frame s of
        None \<Rightarrow> s
      | Some started \<Rightarrow>
          if \<not> sc_ignore s then s\<lparr>sc_frame := None\<rparr>
          else if near_bottom s \<or> now - started > 700 then handle_scroll (cancel_tracking s)
          else s)"

definition scroll_and_resume :: "bool \<Rightarrow> bool \<Rightarrow> int \<Rightarrow> scroll \<Rightarrow> scroll" where
  "scroll_and_resume smooth_ok smooth now s =
     scroll_to_bottom smooth_ok smooth now (update_scroll_button (s\<lparr>sc_auto := True, sc_unread := False\<rparr>))"

definition maybe_auto_scroll :: "bool \<Rightarrow> bool \<Rightarrow> bool \<Rightarrow> int \<Rightarrow> scroll \<Rightarrow> scroll" where
  "maybe_auto_scroll smooth_ok force smooth now s =
     (if sc_suppress s \<and> \<not> force then s
      else if force then scroll_and_resume smooth_ok smooth now s
      else if sc_auto s \<or> near_bottom s
      then scroll_to_bottom smooth_ok False now (update_scroll_button (s\<lparr>sc_auto := True, sc_unread := False\<rparr>))
      else update_scroll_button (s\<lparr>sc_unread := True\<rparr>))"

lemmas scroll_defs = near_bottom_def set_top_def cancel_tracking_def update_scroll_button_def reset_scroll_def
  create_container_def handle_scroll_def scroll_to_bottom_def scroll_frame_def scroll_and_resume_def
  maybe_auto_scroll_def init_scroll_def

section \<open>The steps of the page\<close>

text \<open>
  \<open>resized\<close> stands for every change of the geometry that the code does not make: the reader scrolls,
  content is rendered, the window changes. The handler of the scroll event, frames, new content and the
  button come in any order.
\<close>

inductive scroll_step :: "scroll \<Rightarrow> scroll \<Rightarrow> bool" where
  created: "scroll_step s (create_container b s)"
| resized: "sc_box s = Some b \<Longrightarrow> scroll_step s (s\<lparr>sc_box := Some b'\<rparr>)"
| scrolled: "scroll_step s (handle_scroll s)"
| new_content: "scroll_step s (maybe_auto_scroll ok force smooth now s)"
| button: "scroll_step s (scroll_and_resume ok smooth now s)"
| frame_ran: "scroll_step s (scroll_frame now s)"
| loading: "scroll_step s (s\<lparr>sc_suppress := b\<rparr>)"
| reset: "scroll_step s (reset_scroll s)"

inductive scroll_reachable :: "scroll \<Rightarrow> bool" where
  start: "scroll_reachable init_scroll"
| step: "scroll_reachable s \<Longrightarrow> scroll_step s s' \<Longrightarrow> scroll_reachable s'"

definition scroll_inv :: "scroll \<Rightarrow> bool" where
  "scroll_inv s \<longleftrightarrow> (sc_unread s \<longrightarrow> \<not> sc_auto s)
     \<and> (sc_ignore s \<longleftrightarrow> sc_frame s \<noteq> None)
     \<and> (sc_ignore s \<longrightarrow> sc_box s \<noteq> None)
     \<and> (sc_box s \<noteq> None \<longrightarrow> sc_button s = (\<not> sc_auto s \<or> sc_unread s, sc_unread s))"

lemma scroll_inv_button: "sc_unread s \<longrightarrow> \<not> sc_auto s \<Longrightarrow> sc_ignore s \<longleftrightarrow> sc_frame s \<noteq> None \<Longrightarrow>
    sc_ignore s \<longrightarrow> sc_box s \<noteq> None \<Longrightarrow> scroll_inv (update_scroll_button s)"
  by (auto simp: scroll_inv_def update_scroll_button_def)

lemma scroll_inv_cancel: "scroll_inv s \<Longrightarrow> scroll_inv (cancel_tracking s)"
  by (simp add: scroll_inv_def cancel_tracking_def)

lemma scroll_inv_handle:
  assumes "scroll_inv s"
  shows "scroll_inv (handle_scroll s)"
proof -
  have "scroll_inv (update_scroll_button ((cancel_tracking s)\<lparr>sc_auto := True, sc_unread := False\<rparr>))"
    by (rule scroll_inv_button) (simp_all add: cancel_tracking_def)
  moreover have "scroll_inv (update_scroll_button (s\<lparr>sc_auto := False\<rparr>))"
    by (rule scroll_inv_button) (use assms in \<open>simp_all add: scroll_inv_def\<close>)
  ultimately show ?thesis using assms by (simp add: handle_scroll_def)
qed

lemma scroll_inv_bottom: "scroll_inv s \<Longrightarrow> scroll_inv (scroll_to_bottom ok smooth now s)"
  by (cases "sc_box s") (auto simp: scroll_inv_def scroll_to_bottom_def cancel_tracking_def)

lemma scroll_inv_resume: "scroll_inv s \<Longrightarrow> scroll_inv (scroll_and_resume ok smooth now s)"
  unfolding scroll_and_resume_def
  by (intro scroll_inv_bottom scroll_inv_button) (simp_all add: scroll_inv_def)

lemma scroll_inv_auto:
  assumes "scroll_inv s"
  shows "scroll_inv (maybe_auto_scroll ok force smooth now s)"
proof -
  have "scroll_inv (scroll_to_bottom ok False now (update_scroll_button (s\<lparr>sc_auto := True, sc_unread := False\<rparr>)))"
    by (intro scroll_inv_bottom scroll_inv_button) (use assms in \<open>simp_all add: scroll_inv_def\<close>)
  moreover have "scroll_inv (update_scroll_button (s\<lparr>sc_unread := True\<rparr>))" if "\<not> sc_auto s"
    by (rule scroll_inv_button) (use assms that in \<open>simp_all add: scroll_inv_def\<close>)
  ultimately show ?thesis
    using assms scroll_inv_resume [OF assms] by (simp add: maybe_auto_scroll_def)
qed

lemma scroll_inv_frame: "scroll_inv s \<Longrightarrow> scroll_inv (scroll_frame now s)"
  using scroll_inv_handle [OF scroll_inv_cancel]
  by (cases "sc_frame s") (simp_all add: scroll_frame_def, simp add: scroll_inv_def)

lemma scroll_inv_reset: "scroll_inv s \<Longrightarrow> scroll_inv (reset_scroll s)"
  unfolding reset_scroll_def by (rule scroll_inv_button) (simp_all add: cancel_tracking_def)

lemma scroll_inv_step: "scroll_step s s' \<Longrightarrow> scroll_inv s \<Longrightarrow> scroll_inv s'"
proof (induction rule: scroll_step.induct)
  case (created s b)
  then show ?case by (simp add: scroll_inv_def scroll_defs)
qed (simp_all add: scroll_inv_handle scroll_inv_auto scroll_inv_resume scroll_inv_frame scroll_inv_reset,
     simp_all add: scroll_inv_def)

text \<open>
  C14. In every state the page can reach, the button says the truth: it is marked as having unread
  content exactly when there is some, it is visible exactly when the list does not follow, unread
  content exists only while the list does not follow, and the scroll events are ignored only while a
  frame is pending that will stop ignoring them.
\<close>

theorem scroll_button_truthful:
  assumes "scroll_reachable s"
  shows "(sc_box s \<noteq> None \<longrightarrow> sc_button s = (\<not> sc_auto s, sc_unread s))
    \<and> (sc_unread s \<longrightarrow> \<not> sc_auto s)
    \<and> (sc_ignore s \<longleftrightarrow> sc_frame s \<noteq> None)"
proof -
  have "scroll_inv s" using assms
  proof induction
    case start
    show ?case by (simp add: scroll_inv_def init_scroll_def)
  next
    case (step s s')
    then show ?case using scroll_inv_step by blast
  qed
  then show ?thesis by (auto simp: scroll_inv_def)
qed

definition demo_box :: box where
  "demo_box = \<lparr>bx_height = 2000, bx_top = 100, bx_client = 500\<rparr>"

definition demo_detached :: scroll where
  "demo_detached = maybe_auto_scroll True False False 0 (handle_scroll (create_container demo_box init_scroll))"

theorem scroll_button_truthful_witness: "sc_button demo_detached = (True, True) \<and> \<not> sc_ignore demo_detached"
proof -
  have "scroll_reachable demo_detached"
    unfolding demo_detached_def
    by (intro scroll_reachable.step [OF _ scroll_step.new_content] scroll_reachable.step [OF _ scroll_step.scrolled]
        scroll_reachable.step [OF _ scroll_step.created] scroll_reachable.start)
  from scroll_button_truthful [OF this] show ?thesis
    by (simp add: demo_detached_def demo_box_def scroll_defs box_distance_def bottom_threshold_def)
qed

text \<open>
  New content outside a load: a list that follows, or is near its end, is at its very end afterwards
  and follows; a list the reader has scrolled away keeps its position and marks the content as unread.
\<close>

theorem new_content_follow_or_mark:
  assumes "\<not> sc_suppress s" and "sc_box s = Some b" and "0 \<le> bx_client b" and "bx_client b \<le> bx_height b"
  shows "let s' = maybe_auto_scroll ok False smooth now s in
     (if sc_auto s \<or> box_distance b \<le> 48
      then sc_auto s' \<and> \<not> sc_unread s' \<and> map_option box_distance (sc_box s') = Some 0
      else sc_box s' = sc_box s \<and> sc_unread s' \<and> sc_button s' = (True, True))"
  using assms
  by (simp add: maybe_auto_scroll_def scroll_to_bottom_def update_scroll_button_def near_bottom_def
      bottom_threshold_def set_top_def box_distance_def Let_def)

theorem new_content_follow_or_mark_witness:
  "sc_box (maybe_auto_scroll True False False 0 (init_scroll\<lparr>sc_box := Some demo_box, sc_auto := False\<rparr>)) = Some demo_box"
  using new_content_follow_or_mark [of "init_scroll\<lparr>sc_box := Some demo_box, sc_auto := False\<rparr>" demo_box True False 0]
  by (simp add: init_scroll_def demo_box_def box_distance_def Let_def)

text \<open>
  A smooth return to the end never leaves the list deaf: the first frame more than 700 ms after its
  start, or the first one at the end of the list, ends the tracking, and the list follows exactly if it
  is near its end.
\<close>

theorem smooth_scroll_ends:
  assumes "sc_box s = Some b" and "now' - now > 700 \<or> box_distance b' \<le> 48"
  shows "let s' = scroll_frame now' ((scroll_and_resume True True now s)\<lparr>sc_box := Some b'\<rparr>) in
    \<not> sc_ignore s' \<and> sc_frame s' = None \<and> (sc_auto s' \<longleftrightarrow> box_distance b' \<le> 48)"
  using assms
  by (auto simp: scroll_defs bottom_threshold_def Let_def)

theorem smooth_scroll_ends_witness:
  "sc_auto (scroll_frame 900 ((scroll_and_resume True True 0 demo_detached)\<lparr>sc_box := Some demo_box\<rparr>)) = False"
proof -
  have "sc_box demo_detached = Some demo_box"
    by (simp add: demo_detached_def demo_box_def scroll_defs box_distance_def bottom_threshold_def)
  from smooth_scroll_ends [OF this, of 900 0 demo_box] show ?thesis
    by (simp add: demo_box_def box_distance_def Let_def)
qed

end
