(* ===== verification/ChatWidget.thy ===== *)
theory ChatWidget
  imports ChatSegments ChatScroll
begin

text \<open>
  \<^verbatim>\<open>frontend/js/components/chat-widget.js\<close>: the message list of the chat and the answer that is being
  streamed into it. An entry of \<open>cw_entries\<close> is an element of \<open>#chat-messages\<close>; the element
  \<open>#streaming-message\<close> is the first answer with \<open>an_streaming\<close>, and an answer keeps the two attributes the
  code reads back, \<open>data-raw-content\<close> and \<open>data-render-segments\<close>. The page is an environment: the height
  of a list of entries, the clock and whether \<^verbatim>\<open>scrollTo\<close> exists.
\<close>

datatype bubble = Spinner | ThinkingCard js js | Rendered "js list"

record answer =
  an_streaming :: bool
  an_raw :: string
  an_segs :: "js list"
  an_bubble :: bubble
  an_copy :: bool

datatype entry =
    UserEntry string "string list"
  | AnswerEntry answer
  | ThinkingEntry js js
  | ToolCardEntry string js js js   \<comment> \<open>element id, tool name, call id, what the card shows\<close>
  | ErrorEntry string
  | ApprovalEntry js bool

record insights =
  in_state :: js
  in_plan :: js
  in_conclusion :: js
  in_evidence :: js
  in_refs :: js

record widget =
  cw_entries :: "entry list"
  cw_content :: string
  cw_segs :: "js list"
  cw_streaming :: bool
  cw_thinking :: bool
  cw_phase :: js
  cw_message :: js
  cw_timer :: bool
  cw_busy :: bool
  cw_scroll :: scroll
  cw_pending :: "(js, string) jsmap"
  cw_cards :: "(string, js) jsmap"
  cw_visuals :: "(js, js) jsmap"
  cw_modes :: "(string, js) jsmap"
  cw_seq :: nat
  cw_insights :: insights

record page_env =
  pg_chat :: chat_env
  pg_height :: "entry list \<Rightarrow> int"
  pg_smooth :: bool
  pg_clock :: int

definition no_insights :: insights where
  "no_insights = \<lparr>in_state = JNull, in_plan = JNull, in_conclusion = JNull, in_evidence = JArr [], in_refs = JArr []\<rparr>"

definition init_widget :: widget where
  "init_widget = \<lparr>cw_entries = [], cw_content = [], cw_segs = [], cw_streaming = False, cw_thinking = False,
     cw_phase = JNull, cw_message = JStr [], cw_timer = False, cw_busy = False, cw_scroll = init_scroll,
     cw_pending = [], cw_cards = [], cw_visuals = [], cw_modes = [], cw_seq = 0, cw_insights = no_insights\<rparr>"

definition mounted :: "widget \<Rightarrow> bool" where
  "mounted w \<longleftrightarrow> sc_box (cw_scroll w) \<noteq> None"

fun is_streaming :: "entry \<Rightarrow> bool" where
  "is_streaming (AnswerEntry a) \<longleftrightarrow> an_streaming a"
| "is_streaming _ \<longleftrightarrow> False"

fun is_answer :: "entry \<Rightarrow> bool" where
  "is_answer (AnswerEntry a) \<longleftrightarrow> True"
| "is_answer _ \<longleftrightarrow> False"

fun is_thinking :: "entry \<Rightarrow> bool" where
  "is_thinking (ThinkingEntry p m) \<longleftrightarrow> True"
| "is_thinking _ \<longleftrightarrow> False"

fun is_card :: "string \<Rightarrow> entry \<Rightarrow> bool" where
  "is_card i (ToolCardEntry j n c s) \<longleftrightarrow> i = j"
| "is_card i _ \<longleftrightarrow> False"

fun on_answer :: "(answer \<Rightarrow> answer) \<Rightarrow> entry \<Rightarrow> entry" where
  "on_answer f (AnswerEntry a) = AnswerEntry (f a)"
| "on_answer f e = e"

definition has_streaming :: "widget \<Rightarrow> bool" where
  "has_streaming w \<longleftrightarrow> list_ex is_streaming (cw_entries w)"

fun change_first :: "('a \<Rightarrow> bool) \<Rightarrow> ('a \<Rightarrow> 'a) \<Rightarrow> 'a list \<Rightarrow> 'a list" where
  "change_first p f [] = []"
| "change_first p f (x # xs) = (if p x then f x # xs else x # change_first p f xs)"

fun remove_first :: "('a \<Rightarrow> bool) \<Rightarrow> 'a list \<Rightarrow> 'a list" where
  "remove_first p [] = []"
| "remove_first p (x # xs) = (if p x then xs else x # remove_first p xs)"

definition change_streaming :: "(answer \<Rightarrow> answer) \<Rightarrow> entry list \<Rightarrow> entry list" where
  "change_streaming f es = change_first is_streaming (on_answer f) es"

section \<open>Scrolling, timeout, buttons\<close>

definition refit :: "page_env \<Rightarrow> widget \<Rightarrow> scroll" where
  "refit env w = (cw_scroll w)\<lparr>sc_box :=
     map_option (\<lambda>b. b\<lparr>bx_height := max (bx_client b) (pg_height env (cw_entries w))\<rparr>) (sc_box (cw_scroll w))\<rparr>"

definition auto_scroll :: "page_env \<Rightarrow> widget \<Rightarrow> widget" where
  "auto_scroll env w = w\<lparr>cw_scroll := maybe_auto_scroll (pg_smooth env) False False (pg_clock env) (refit env w)\<rparr>"

definition resume_scroll :: "page_env \<Rightarrow> widget \<Rightarrow> widget" where
  "resume_scroll env w = w\<lparr>cw_scroll := scroll_and_resume (pg_smooth env) False (pg_clock env) (refit env w)\<rparr>"

definition reset_stream_timeout :: "widget \<Rightarrow> widget" where
  "reset_stream_timeout w = w\<lparr>cw_timer := cw_streaming w\<rparr>"

section \<open>The streamed answer\<close>

definition visual_key :: "js \<Rightarrow> js \<Rightarrow> js" where
  "visual_key call name = js_or call name"

definition note_visual :: "js \<Rightarrow> js \<Rightarrow> js \<Rightarrow> widget \<Rightarrow> widget" where
  "note_visual call name visual w =
     w\<lparr>cw_visuals := AList.update (visual_key call name)
        (JObj [(''toolName'', name), (''visualization'', visual)]) (cw_visuals w)\<rparr>"

text \<open>Rendering shows the normalized segments and notes the charts of their tool calls.\<close>

definition note_segments :: "page_env \<Rightarrow> js list \<Rightarrow> widget \<Rightarrow> widget" where
  "note_segments env segs w = foldl (\<lambda>w s.
      let t = tool_state_of (pg_chat env) s in
      if is_tool s \<and> truthy (ts_visualization t) then note_visual (ts_call t) (ts_name t) (ts_visualization t) w else w) w segs"

definition start_assistant :: "page_env \<Rightarrow> widget \<Rightarrow> widget" where
  "start_assistant env w =
     (if \<not> mounted w then w
      else auto_scroll env (reset_stream_timeout
        (w\<lparr>cw_content := [], cw_segs := [], cw_streaming := True, cw_thinking := False, cw_phase := JNull,
           cw_message := JStr [], cw_busy := True,
           cw_entries := cw_entries w @ [AnswerEntry \<lparr>an_streaming = True, an_raw = [], an_segs = [],
              an_bubble = Spinner, an_copy = False\<rparr>]\<rparr>)))"

text \<open>An answer element takes the current content and segments as its own and shows them.\<close>

definition show_current :: "widget \<Rightarrow> answer \<Rightarrow> answer" where
  "show_current w a = a\<lparr>an_bubble := Rendered (normalize_segments (JArr (cw_segs w)) (cw_content w)),
      an_raw := cw_content w, an_segs := clone_segments (cw_segs w)\<rparr>"

definition render_streaming :: "page_env \<Rightarrow> widget \<Rightarrow> widget" where
  "render_streaming env w =
     (if \<not> has_streaming w then w
      else auto_scroll env (note_segments env (normalize_segments (JArr (cw_segs w)) (cw_content w))
             (w\<lparr>cw_entries := change_streaming (show_current w) (cw_entries w)\<rparr>)))"

definition last_answer :: "entry list \<Rightarrow> answer option" where
  "last_answer es = (case filter is_answer (rev es) of AnswerEntry a # _ \<Rightarrow> Some a | _ \<Rightarrow> None)"

definition resume_assistant :: "page_env \<Rightarrow> string \<Rightarrow> js \<Rightarrow> widget \<Rightarrow> widget" where
  "resume_assistant env content segs w =
     (if \<not> mounted w then w
      else let w1 = (if has_streaming w then w
                     else (case last_answer (cw_entries w) of
                        Some a \<Rightarrow>
                          if an_raw a = content
                          then w\<lparr>cw_entries := rev (change_first is_answer
                                 (on_answer (\<lambda>a. a\<lparr>an_streaming := True, an_copy := False\<rparr>)) (rev (cw_entries w)))\<rparr>
                          else start_assistant env w
                      | None \<Rightarrow> start_assistant env w));
               norm = normalize_segments segs content;
               w2 = reset_stream_timeout (w1\<lparr>cw_segs := norm,
                      cw_content := (if content \<noteq> [] then content else extract_text norm),
                      cw_streaming := True, cw_thinking := False, cw_busy := True\<rparr>);
               w3 = (if norm \<noteq> [] \<or> cw_content w2 \<noteq> []
                     then note_segments env (normalize_segments (JArr norm) (cw_content w2)) w2 else w2)
           in auto_scroll env (w3\<lparr>cw_entries := change_streaming (\<lambda>a.
                (show_current w2 a)\<lparr>an_bubble := (if norm \<noteq> [] \<or> cw_content w2 \<noteq> []
                    then Rendered (normalize_segments (JArr norm) (cw_content w2)) else Spinner)\<rparr>) (cw_entries w3)\<rparr>))"

definition append_content :: "page_env \<Rightarrow> js \<Rightarrow> widget \<Rightarrow> widget" where
  "append_content env t w =
     render_streaming env (reset_stream_timeout
       (w\<lparr>cw_content := cw_content w @ js_string t, cw_segs := append_markdown (pg_chat env) (cw_segs w) t\<rparr>))"

section \<open>Thinking\<close>

definition start_thinking :: "page_env \<Rightarrow> js \<Rightarrow> js \<Rightarrow> widget \<Rightarrow> widget" where
  "start_thinking env phase msg w =
     (if \<not> has_streaming w then w
      else auto_scroll env (w\<lparr>cw_thinking := True, cw_phase := phase, cw_message := msg,
             cw_entries := change_streaming (\<lambda>a. a\<lparr>an_bubble := ThinkingCard phase msg\<rparr>) (cw_entries w)\<rparr>))"

definition hide_thinking :: "widget \<Rightarrow> widget" where
  "hide_thinking w = w\<lparr>cw_entries := remove_first is_thinking (cw_entries w), cw_phase := JNull, cw_message := JStr []\<rparr>"

definition show_thinking :: "page_env \<Rightarrow> js \<Rightarrow> js \<Rightarrow> widget \<Rightarrow> widget" where
  "show_thinking env phase msg w =
     (if \<not> mounted w then w
      else (let w1 = hide_thinking w
            in auto_scroll env (w1\<lparr>cw_phase := phase, cw_message := msg,
                 cw_entries := cw_entries w1 @ [ThinkingEntry phase msg]\<rparr>)))"

definition update_thinking :: "js \<Rightarrow> js \<Rightarrow> widget \<Rightarrow> widget" where
  "update_thinking phase msg w =
     w\<lparr>cw_phase := phase, cw_message := msg,
       cw_entries := change_first is_thinking (\<lambda>e. ThinkingEntry phase msg) (cw_entries w)\<rparr>"

record thinking_meta =
  tm_title :: string
  tm_subtitle :: string
  tm_icon :: string
  tm_tone :: string
  tm_badge :: string
  tm_message :: string

definition thinking_meta_of :: "chat_env \<Rightarrow> js \<Rightarrow> js \<Rightarrow> thinking_meta" where
  "thinking_meta_of env phase msg =
     (let mk = (\<lambda>title subtitle icon tone badge.
          \<lparr>tm_title = tr0 env title, tm_subtitle = tr0 env subtitle, tm_icon = icon, tm_tone = tone,
           tm_badge = tr0 env badge, tm_message = (if truthy msg then js_string msg else tr0 env subtitle)\<rparr>)
      in if phase = JStr ''intent_detection''
           then mk ''problemAnalysis'' ''identifyIntentAndFailureTypes'' ''search'' ''violet'' ''analysis''
         else if phase = JStr ''context_building''
           then mk ''contextualAssembly'' ''aggregateDatasourcesHistoricalConclusionsAndEnvironmentalInformation'' ''database'' ''blue'' ''context''
         else if phase = JStr ''skill_selection''
           then mk ''diagnosticPathPlanning'' ''chooseAppropriateDiagnosticSkillsAndSequencing'' ''git-branch'' ''cyan'' ''planning''
         else if phase = JStr ''tool_execution''
           then mk ''evidenceIsBeingCollected'' ''callingDatabaseOrHostDiagnosticTool'' ''wrench'' ''amber'' ''execute''
         else if phase = JStr ''llm_thinking''
           then mk ''conclusionIsBeingGenerated'' ''crossCheckEvidenceAndFormulateDiagnosticConclusions'' ''sparkles'' ''green'' ''summary''
         else mk ''aiThinking'' ''processingCurrentDiagnosticStep'' ''bot'' ''violet'' ''processing'')"

section \<open>The end of a stream\<close>

definition finish_assistant :: "widget \<Rightarrow> widget" where
  "finish_assistant w =
     (let w1 = hide_thinking (w\<lparr>cw_streaming := False, cw_thinking := False, cw_timer := False\<rparr>)
      in w1\<lparr>cw_entries := change_streaming (\<lambda>a. a\<lparr>an_streaming := False, an_raw := cw_content w1,
               an_segs := clone_segments (cw_segs w1), an_copy := True\<rparr>) (cw_entries w1),
            cw_busy := False\<rparr>)"

definition add_error :: "page_env \<Rightarrow> string \<Rightarrow> bool \<Rightarrow> widget \<Rightarrow> widget" where
  "add_error env msg force w =
     (if \<not> mounted w then w
      else (let w1 = w\<lparr>cw_entries := cw_entries w @ [ErrorEntry msg]\<rparr>
            in if force then resume_scroll env w1 else auto_scroll env w1))"

definition show_error :: "page_env \<Rightarrow> string \<Rightarrow> widget \<Rightarrow> widget" where
  "show_error env msg w =
     (add_error env msg False (w\<lparr>cw_entries := remove_first is_streaming (cw_entries w)\<rparr>))
       \<lparr>cw_streaming := False, cw_timer := False, cw_busy := False\<rparr>"

text \<open>Ten minutes pass without an event: the armed timer fires.\<close>

definition stream_timeout :: "page_env \<Rightarrow> widget \<Rightarrow> widget" where
  "stream_timeout env w =
     (if \<not> cw_timer w then w
      else if cw_streaming w then show_error env (tr0 (pg_chat env) ''aiTheResponseTimedOutAndNo'') (w\<lparr>cw_timer := False\<rparr>)
      else w\<lparr>cw_timer := False\<rparr>)"

definition add_user_message :: "page_env \<Rightarrow> js \<Rightarrow> js list \<Rightarrow> bool \<Rightarrow> widget \<Rightarrow> widget" where
  "add_user_message env t attachments force w =
     (if \<not> mounted w then w
      else (let w1 = w\<lparr>cw_entries := cw_entries w @
                   [UserEntry (text_or_empty t) (map (\<lambda>a. js_string (field a ''filename'')) attachments)]\<rparr>
            in if force then resume_scroll env w1 else w1))"

section \<open>Tool calls inside the answer\<close>

definition inline_call_patch :: "chat_env \<Rightarrow> js \<Rightarrow> js \<Rightarrow> (string \<times> js) list" where
  "inline_call_patch env args metadata =
     [(''status'', JStr ''running''), (''args'', js_or args (JObj [])),
      (''summary'', JStr (tr0 env ''theCallHasBeenInitiatedWaitingFor'')),
      (''metadata'', segment_metadata (JObj []) metadata)]"

definition result_summary :: "chat_env \<Rightarrow> parsed_result \<Rightarrow> string" where
  "result_summary env parsed =
     (if pr_summary parsed \<noteq> [] then pr_summary parsed
      else tr0 env (if pr_error parsed then ''executionFailed'' else ''executionCompleted''))"

definition inline_result_patch :: "chat_env \<Rightarrow> js \<Rightarrow> js \<Rightarrow> js \<Rightarrow> (string \<times> js) list" where
  "inline_result_patch env result time metadata =
     (let parsed = parse_tool_result env result in
      [(''status'', JStr (if pr_error parsed then ''failed'' else ''completed'')), (''result'', result),
       (''execution_time_ms'', time), (''summary'', JStr (result_summary env parsed)),
       (''metadata'', segment_metadata (JObj []) metadata),
       (''visualization'', js_or (field metadata ''visualization'') JNull)])"

definition approval_patch :: "chat_env \<Rightarrow> js \<Rightarrow> js \<Rightarrow> string \<Rightarrow> js \<Rightarrow> (string \<times> js) list" where
  "approval_patch env name args summary metadata =
     [(''status'', JStr ''waiting_approval''), (''args'', js_or args (JObj [])),
      (''summary'', JStr (if summary \<noteq> [] then summary
          else tr0 env ''skills'' @ '' '' @ js_string name @ '' '' @ tr0 env ''needToConfirmBeforeExecuting'')),
      (''metadata'', segment_metadata (JObj []) metadata)]"

definition upsert_current :: "page_env \<Rightarrow> js \<Rightarrow> js \<Rightarrow> (string \<times> js) list \<Rightarrow> widget \<Rightarrow> widget" where
  "upsert_current env name call patch w =
     w\<lparr>cw_segs := upsert_tool (pg_chat env) (cw_segs w) name call patch\<rparr>"

text \<open>None: there is no streamed answer to put the call into.\<close>

definition inline_tool_call :: "page_env \<Rightarrow> js \<Rightarrow> js \<Rightarrow> js \<Rightarrow> js \<Rightarrow> widget \<Rightarrow> widget option" where
  "inline_tool_call env name args call metadata w =
     (if \<not> has_streaming w then None
      else Some (render_streaming env (upsert_current env name call (inline_call_patch (pg_chat env) args metadata) w)))"

definition inline_tool_result :: "page_env \<Rightarrow> js \<Rightarrow> js \<Rightarrow> js \<Rightarrow> js \<Rightarrow> js \<Rightarrow> widget \<Rightarrow> widget option" where
  "inline_tool_result env name result time call metadata w =
     (if \<not> has_streaming w then None
      else let visual = js_or (field metadata ''visualization'') JNull;
               w1 = upsert_current env name call (inline_result_patch (pg_chat env) result time metadata) w;
               w2 = (if truthy visual then note_visual call name visual w1 else w1)
           in Some (render_streaming env w2))"

definition add_tool_approval :: "page_env \<Rightarrow> js \<Rightarrow> js \<Rightarrow> js \<Rightarrow> string \<Rightarrow> js \<Rightarrow> widget \<Rightarrow> widget option" where
  "add_tool_approval env name args call summary metadata w =
     (if \<not> has_streaming w then None
      else Some (render_streaming env (upsert_current env name call
             (approval_patch (pg_chat env) name args summary metadata) (reset_stream_timeout w))))"

section \<open>Tool cards of their own\<close>

definition move_streaming_to_tail :: "widget \<Rightarrow> widget" where
  "move_streaming_to_tail w =
     (case filter is_streaming (cw_entries w) of
        AnswerEntry a # _ \<Rightarrow>
          if mounted w \<and> trim (if an_raw a \<noteq> [] then an_raw a else cw_content w) = []
          then w\<lparr>cw_entries := remove_first is_streaming (cw_entries w) @ [AnswerEntry a]\<rparr> else w
      | _ \<Rightarrow> w)"

definition append_tool_entry :: "page_env \<Rightarrow> entry \<Rightarrow> widget \<Rightarrow> widget" where
  "append_tool_entry env e w =
     (if \<not> mounted w then w
      else auto_scroll env (move_streaming_to_tail (w\<lparr>cw_entries := cw_entries w @ [e]\<rparr>)))"

definition render_card :: "string \<Rightarrow> widget \<Rightarrow> widget" where
  "render_card i w =
     (case map_of (cw_cards w) i of
        Some st \<Rightarrow> w\<lparr>cw_entries := change_first (is_card i)
            (\<lambda>e. case e of ToolCardEntry j n c _ \<Rightarrow> ToolCardEntry j n c st | _ \<Rightarrow> e) (cw_entries w)\<rparr>
      | None \<Rightarrow> w)"

definition card_exists :: "widget \<Rightarrow> js \<Rightarrow> bool" where
  "card_exists w key \<longleftrightarrow> (case map_of (cw_pending w) key of
     Some i \<Rightarrow> list_ex (is_card i) (cw_entries w) | None \<Rightarrow> False)"

definition legacy_call_state :: "chat_env \<Rightarrow> string \<Rightarrow> js \<Rightarrow> js \<Rightarrow> js \<Rightarrow> js \<Rightarrow> js" where
  "legacy_call_state env i name args call prev =
     spread prev (JObj
       [(''toolId'', JStr i), (''toolName'', name), (''toolCallId'', call), (''args'', args),
        (''argsStr'', if args = JUndef then JUndef else JStr (stringify_data args)),
        (''statusLabel'', js_or (field prev ''statusLabel'') (JStr (tr0 env ''executing''))),
        (''statusClass'', js_or (field prev ''statusClass'') (JStr ''running'')),
        (''summary'', js_or (field prev ''summary'') (JStr (tr0 env ''theCallHasBeenInitiatedWaitingFor''))),
        (''executionTimeMs'', js_coalesce (field prev ''executionTimeMs'') JNull),
        (''metadata'', js_or (field prev ''metadata'') (JObj [])),
        (''displayResultStr'', js_or (field prev ''displayResultStr'') (JStr [])),
        (''resultStr'', js_or (field prev ''resultStr'') (JStr [])),
        (''isError'', js_or (field prev ''isError'') (JBool False)),
        (''isTruncated'', js_or (field prev ''isTruncated'') (JBool False)),
        (''visualization'', js_or (field prev ''visualization'') JNull)])"

definition legacy_result_state :: "chat_env \<Rightarrow> string \<Rightarrow> js \<Rightarrow> js \<Rightarrow> js \<Rightarrow> js \<Rightarrow> js \<Rightarrow> js \<Rightarrow> js" where
  "legacy_result_state env i name result time call metadata prev =
     (let parsed = parse_tool_result env result in
      spread prev (JObj
       [(''toolId'', JStr i), (''toolName'', name), (''toolCallId'', call),
        (''statusLabel'', JStr (tr0 env (if pr_error parsed then ''failed'' else ''complete''))),
        (''statusClass'', JStr (if pr_error parsed then ''error'' else ''success'')),
        (''summary'', JStr (result_summary env parsed)),
        (''executionTimeMs'', time),
        (''metadata'', spread (js_or (field prev ''metadata'') (JObj [])) metadata),
        (''displayResultStr'', JStr (pr_display parsed)), (''resultStr'', JStr (pr_text parsed)),
        (''isError'', JBool (pr_error parsed)), (''isTruncated'', JBool (pr_truncated parsed)),
        (''visualization'', js_or (field metadata ''visualization'') (js_or (field prev ''visualization'') JNull))]))"

definition card_state :: "widget \<Rightarrow> string \<Rightarrow> js" where
  "card_state w i = (case map_of (cw_cards w) i of Some st \<Rightarrow> st | None \<Rightarrow> JObj [])"

definition legacy_tool_call :: "page_env \<Rightarrow> js \<Rightarrow> js \<Rightarrow> js \<Rightarrow> widget \<Rightarrow> widget" where
  "legacy_tool_call env name args call w =
     (let w0 = reset_stream_timeout w; key = js_or call name;
          (i, w1) = (if card_exists w0 key then (the (map_of (cw_pending w0) key), w0)
                     else (let i = ''tool-card-'' @ ce_now (pg_chat env) @ ''-'' @ str_of_nat (cw_seq w0 + 1);
                               w' = append_tool_entry env (ToolCardEntry i name call JUndef) (w0\<lparr>cw_seq := cw_seq w0 + 1\<rparr>)
                           in (i, w'\<lparr>cw_pending := AList.update key i (cw_pending w')\<rparr>)));
          w2 = w1\<lparr>cw_cards := AList.update i (legacy_call_state (pg_chat env) i name args call (card_state w1 i)) (cw_cards w1)\<rparr>
      in auto_scroll env (move_streaming_to_tail (render_card i w2)))"

definition add_tool_call :: "page_env \<Rightarrow> js \<Rightarrow> js \<Rightarrow> js \<Rightarrow> js \<Rightarrow> widget \<Rightarrow> widget" where
  "add_tool_call env name args call metadata w =
     (let w0 = reset_stream_timeout w in
      case inline_tool_call env name args call metadata w0 of
        Some w' \<Rightarrow> w'
      | None \<Rightarrow> legacy_tool_call env name args call w0)"

definition legacy_tool_result :: "page_env \<Rightarrow> js \<Rightarrow> js \<Rightarrow> js \<Rightarrow> js \<Rightarrow> js \<Rightarrow> widget \<Rightarrow> widget" where
  "legacy_tool_result env name result time call metadata w =
     (let w0 = reset_stream_timeout w; key = js_or call name;
          w1 = (if card_exists w0 key then w0 else add_tool_call env name (JObj []) call (JObj []) w0)
      in case map_of (cw_pending w1) key of
           None \<Rightarrow> w1
         | Some i \<Rightarrow>
             (let prev = card_state w1 i;
                  visual = js_or (field metadata ''visualization'') (js_or (field prev ''visualization'') JNull);
                  w2 = w1\<lparr>cw_cards := AList.update i
                            (legacy_result_state (pg_chat env) i name result time call metadata prev) (cw_cards w1)\<rparr>;
                  w3 = (if truthy visual
                        then w2\<lparr>cw_visuals := AList.update (visual_key call name)
                               (JObj [(''toolName'', name), (''visualization'', visual), (''toolId'', JStr i)]) (cw_visuals w2)\<rparr>
                        else w2);
                  w4 = render_card i w3
              in auto_scroll env (w4\<lparr>cw_pending := AList.delete key (cw_pending w4)\<rparr>)))"

definition add_tool_result :: "page_env \<Rightarrow> js \<Rightarrow> js \<Rightarrow> js \<Rightarrow> js \<Rightarrow> js \<Rightarrow> widget \<Rightarrow> widget" where
  "add_tool_result env name result time call metadata w =
     (let w0 = reset_stream_timeout w in
      case inline_tool_result env name result time call metadata w0 of
        Some w' \<Rightarrow> w'
      | None \<Rightarrow> legacy_tool_result env name result time call metadata w0)"

section \<open>Approvals\<close>

text \<open>One answer of the list is patched; the flag tells whether it had the approval.\<close>

definition approve_entry :: "page_env \<Rightarrow> js \<Rightarrow> js \<Rightarrow> entry \<Rightarrow> widget \<Rightarrow> bool \<times> entry \<times> widget" where
  "approve_entry env approval patch e w =
     (case e of
        AnswerEntry a \<Rightarrow>
          (let (updated, segs) = patch_approval (an_segs a) approval patch;
               raw = (if an_raw a \<noteq> [] then an_raw a else extract_text segs);
               a' = a\<lparr>an_segs := clone_segments segs, an_raw := raw,
                      an_bubble := Rendered (normalize_segments (JArr segs) raw)\<rparr>;
               w1 = note_segments env (normalize_segments (JArr segs) raw) w;
               w2 = (if an_streaming a \<or> \<not> has_streaming w
                     then w1\<lparr>cw_segs := clone_segments segs, cw_content := raw\<rparr> else w1)
           in if updated then (True, AnswerEntry a', w2) else (False, e, w))
      | _ \<Rightarrow> (False, e, w))"

fun approve_entries :: "page_env \<Rightarrow> js \<Rightarrow> js \<Rightarrow> entry list \<Rightarrow> widget \<Rightarrow> bool \<times> entry list \<times> widget" where
  "approve_entries env approval patch [] w = (False, [], w)"
| "approve_entries env approval patch (e # es) w =
     (let (u, e', w1) = approve_entry env approval patch e w;
          (us, es', w2) = approve_entries env approval patch es w1
      in (u \<or> us, e' # es', w2))"

definition update_approval :: "page_env \<Rightarrow> js \<Rightarrow> js \<Rightarrow> widget \<Rightarrow> bool \<times> widget" where
  "update_approval env approval patch w =
     (if \<not> truthy approval then (False, w)
      else let (u, es, w') = approve_entries env approval patch (cw_entries w) w in (u, w'\<lparr>cw_entries := es\<rparr>))"

section \<open>Loading a conversation\<close>

definition reset_tool_panel :: "widget \<Rightarrow> widget" where
  "reset_tool_panel w = w\<lparr>cw_insights := no_insights, cw_segs := [], cw_pending := [], cw_cards := [],
     cw_visuals := [], cw_modes := []\<rparr>"

definition assistant_tools :: "(js \<Rightarrow> bool) \<Rightarrow> js list \<Rightarrow> js list" where
  "assistant_tools p msgs =
     map (\<lambda>s. field s ''tool_call_id'')
       (filter (\<lambda>s. is_tool s \<and> truthy (field s ''tool_call_id'') \<and> p s)
         (concat (map (\<lambda>m. elements (field m ''render_segments''))
           (filter (\<lambda>m. field m ''role'' = JStr ''assistant'') msgs))))"

definition embedded_tool_ids :: "js list \<Rightarrow> js list" where
  "embedded_tool_ids = assistant_tools (\<lambda>s. True)"

definition embedded_approval_ids :: "js list \<Rightarrow> js list" where
  "embedded_approval_ids = assistant_tools (\<lambda>s. truthy (field (field s ''metadata'') ''approval_id''))"

definition loaded_answer :: "js \<Rightarrow> answer" where
  "loaded_answer m =
     \<lparr>an_streaming = False, an_raw = text_or_empty (field m ''content''),
      an_segs = clone_segments (elements (field m ''render_segments'')),
      an_bubble = Rendered (normalize_segments (field m ''render_segments'') (text_or_empty (field m ''content''))),
      an_copy = True\<rparr>"

text \<open>\<^verbatim>\<open>JSON.parse(msg.content)\<close>; what does not parse, and null, is logged and skipped.\<close>

definition message_data :: "chat_env \<Rightarrow> js \<Rightarrow> js option" where
  "message_data env m =
     (case ce_parse env (js_string (field m ''content'')) of
        Some JNull \<Rightarrow> None | r \<Rightarrow> r)"

definition approval_resolved :: "js list \<Rightarrow> js \<Rightarrow> bool" where
  "approval_resolved msgs data =
     list_ex (\<lambda>m. field m ''role'' = JStr ''approval_response'' \<and> truthy (field m ''content'') \<and>
        includes_str (js_string (field m ''content'')) (js_string (field data ''approval_id''))) msgs"

text \<open>\<open>on_approval\<close> is the handler the page installs for approval requests, None when there is none.\<close>

definition load_message ::
  "page_env \<Rightarrow> (js \<Rightarrow> bool \<Rightarrow> widget \<Rightarrow> widget) option \<Rightarrow> js list \<Rightarrow> widget \<Rightarrow> js \<Rightarrow> widget" where
  "load_message env on_approval msgs w m =
     (let role = field m ''role'' in
      if role = JStr ''user''
      then add_user_message env (field m ''content'') (elements (field m ''attachments'')) False w
      else if role = JStr ''assistant''
      then (note_segments env (normalize_segments (field m ''render_segments'') (text_or_empty (field m ''content''))) w)
             \<lparr>cw_entries := cw_entries w @ [AnswerEntry (loaded_answer m)]\<rparr>
      else if role = JStr ''tool_call''
      then (case message_data (pg_chat env) m of
          None \<Rightarrow> w
        | Some data \<Rightarrow>
            (let call = js_or (field data ''tool_call_id'') (js_or (field m ''tool_call_id'') JNull) in
             if truthy call \<and> call \<in> set (embedded_tool_ids msgs) then w
             else legacy_tool_call env (field data ''tool_name'') (field data ''tool_args'') call w))
      else if role = JStr ''tool_result''
      then (case message_data (pg_chat env) m of
          None \<Rightarrow> w
        | Some data \<Rightarrow>
            (let call = js_or (field data ''tool_call_id'') (js_or (field m ''tool_call_id'') JNull) in
             if truthy call \<and> call \<in> set (embedded_tool_ids msgs) then w
             else legacy_tool_result env (field data ''tool_name'') (field data ''result'')
                    (if field data ''execution_time_ms'' = JUndef then JNull else field data ''execution_time_ms'') call
                    (JObj (map (\<lambda>k. (k, field data k))
                      [''skill_execution_id'', ''action_run_id'', ''action_title'', ''phase'', ''visualization''])) w))
      else if role = JStr ''approval_request''
      then (case message_data (pg_chat env) m of
          None \<Rightarrow> w
        | Some data \<Rightarrow>
            (let call = js_or (field data ''tool_call_id'') JNull; resolved = approval_resolved msgs data in
             if (truthy call \<and> call \<in> set (embedded_approval_ids msgs))
                \<or> (resolved \<and> truthy call \<and> call \<in> set (embedded_tool_ids msgs)) then w
             else (case on_approval of Some h \<Rightarrow> h data resolved w | None \<Rightarrow> w)))
      else w)"

definition load_messages ::
  "page_env \<Rightarrow> (js \<Rightarrow> bool \<Rightarrow> widget \<Rightarrow> widget) option \<Rightarrow> js list \<Rightarrow> widget \<Rightarrow> widget" where
  "load_messages env on_approval msgs w =
     (if \<not> mounted w then w
      else let w0 = reset_tool_panel (w\<lparr>cw_entries := [], cw_scroll := (reset_scroll (cw_scroll w))\<lparr>sc_suppress := True\<rparr>\<rparr>);
               w1 = foldl (load_message env on_approval msgs) w0 msgs
           in resume_scroll env (w1\<lparr>cw_scroll := (cw_scroll w1)\<lparr>sc_suppress := False\<rparr>\<rparr>))"

section \<open>Diagnostic insights\<close>

definition update_diagnosis_state :: "js \<Rightarrow> insights \<Rightarrow> insights" where
  "update_diagnosis_state s i = i\<lparr>in_state := spread (js_or (in_state i) (JObj [])) (js_or s (JObj []))\<rparr>"

definition update_diagnosis_plan :: "js \<Rightarrow> insights \<Rightarrow> insights" where
  "update_diagnosis_plan p i = i\<lparr>in_plan := js_or p JNull\<rparr>"

definition update_diagnosis_conclusion :: "js \<Rightarrow> insights \<Rightarrow> insights" where
  "update_diagnosis_conclusion c i =
     i\<lparr>in_conclusion := js_or c JNull,
       in_evidence := js_or (field c ''evidence_refs'') (in_evidence i),
       in_refs := (if is_arr (field c ''knowledge_refs'') then field c ''knowledge_refs'' else in_refs i)\<rparr>"

definition add_knowledge_ref :: "js \<Rightarrow> insights \<Rightarrow> insights" where
  "add_knowledge_ref ref i =
     (let title = js_or (field ref ''title'') (field ref ''document_title'');
          known = list_ex (\<lambda>x. strict_eq (field x ''title'') title
                    \<and> strict_eq (field x ''document_id'') (field ref ''document_id'')) (elements (in_refs i))
      in if \<not> truthy title \<or> known then i
         else i\<lparr>in_refs := JArr (elements (in_refs i) @
                [JObj [(''document_id'', js_or (field ref ''document_id'') JNull), (''title'', title)]])\<rparr>)"

definition load_insights :: "js \<Rightarrow> insights" where
  "load_insights x =
     \<lparr>in_state = js_or (field x ''latest_state'') JNull, in_plan = js_or (field x ''latest_plan'') JNull,
      in_conclusion = js_or (field x ''latest_conclusion'') JNull,
      in_evidence = js_or (field x ''evidence'') (js_or (field (field x ''latest_conclusion'') ''evidence_refs'') (JArr [])),
      in_refs = js_or (field x ''knowledge_refs'') (js_or (field (field x ''latest_conclusion'') ''knowledge_refs'') (JArr []))\<rparr>"

definition ref_known :: "js \<Rightarrow> js \<Rightarrow> js list \<Rightarrow> bool" where
  "ref_known title doc refs \<longleftrightarrow> list_ex (\<lambda>x. strict_eq (field x ''title'') title \<and> strict_eq (field x ''document_id'') doc) refs"

lemma add_ref_titled:
  assumes "field ref ''title'' = JStr t" and "t \<noteq> []"
  shows "elements (in_refs (add_knowledge_ref ref i)) = elements (in_refs i) @
    (if ref_known (JStr t) (field ref ''document_id'') (elements (in_refs i)) then []
     else [JObj [(''document_id'', js_or (field ref ''document_id'') JNull), (''title'', JStr t)]])"
  using assms by (simp add: add_knowledge_ref_def ref_known_def Let_def)

lemma knowledge_ref_with_id_once:
  assumes "field ref ''document_id'' = JStr d" and "d \<noteq> []" and "field ref ''title'' = JStr t" and "t \<noteq> []"
  shows "elements (in_refs (add_knowledge_ref ref (add_knowledge_ref ref i))) = elements (in_refs (add_knowledge_ref ref i))"
  using assms by (simp add: add_ref_titled) (simp add: ref_known_def)

text \<open>A reference without a document identifier is stored with a null one, which the next comparison
  with its missing one does not recognise: it is added every time.\<close>

lemma knowledge_ref_without_id_repeats:
  assumes "field ref ''document_id'' = JUndef" and "field ref ''title'' = JStr t" and "t \<noteq> []"
    and "list_all (\<lambda>x. field x ''document_id'' \<noteq> JUndef) (elements (in_refs i))"
  shows "length (elements (in_refs (add_knowledge_ref ref (add_knowledge_ref ref i)))) = length (elements (in_refs i)) + 2"
proof -
  have u: "\<not> ref_known (JStr t) JUndef xs" if "list_all (\<lambda>x. field x ''document_id'' \<noteq> JUndef) xs" for xs
    using that by (auto simp: ref_known_def list_ex_iff list_all_iff dest: strict_eq_imp)
  from assms u [of "elements (in_refs i)"] show ?thesis
    by (simp add: add_ref_titled u)
qed

section \<open>What the operations leave alone\<close>

text \<open>The part of the state a stream is about.\<close>

definition core :: "widget \<Rightarrow> string \<times> js list \<times> bool \<times> bool \<times> bool" where
  "core w = (cw_content w, cw_segs w, cw_streaming w, cw_timer w, cw_busy w)"

definition streaming_count :: "entry list \<Rightarrow> nat" where
  "streaming_count es = length (filter is_streaming es)"

definition answers :: "entry list \<Rightarrow> answer list" where
  "answers es = concat (map (\<lambda>e. case e of AnswerEntry a \<Rightarrow> [a] | _ \<Rightarrow> []) es)"

definition card_calls :: "entry list \<Rightarrow> js list" where
  "card_calls es = concat (map (\<lambda>e. case e of ToolCardEntry i n c s \<Rightarrow> [c] | _ \<Rightarrow> []) es)"

lemma entry_counts [simp]:
  "streaming_count [] = 0" "answers [] = []" "card_calls [] = []"
  "streaming_count (xs @ ys) = streaming_count xs + streaming_count ys"
  "answers (xs @ ys) = answers xs @ answers ys" "card_calls (xs @ ys) = card_calls xs @ card_calls ys"
  "streaming_count (e # xs) = (if is_streaming e then 1 else 0) + streaming_count xs"
  "answers (AnswerEntry a # xs) = a # answers xs"
  "card_calls (ToolCardEntry i n c s # xs) = c # card_calls xs"
  "card_calls (AnswerEntry a # xs) = card_calls xs" "card_calls (UserEntry t ats # xs) = card_calls xs"
  "card_calls (ThinkingEntry p m # xs) = card_calls xs" "card_calls (ErrorEntry t # xs) = card_calls xs"
  by (simp_all add: streaming_count_def answers_def card_calls_def split: entry.splits)

lemma answers_other [simp]: "\<not> is_answer e \<Longrightarrow> answers (e # xs) = answers xs"
  by (cases e) (simp_all add: answers_def)

lemma has_streaming_count: "has_streaming w \<longleftrightarrow> 0 < streaming_count (cw_entries w)"
  by (auto simp: has_streaming_def streaming_count_def list_ex_iff filter_empty_conv)

lemma no_answer_streaming: "list_all (\<lambda>a. \<not> an_streaming a) (answers es) \<Longrightarrow> streaming_count es = 0"
proof (induction es)
  case (Cons e es)
  then show ?case by (cases e) simp_all
qed simp

lemma count_on_answer: "\<forall>a. an_streaming (f a) = an_streaming a \<Longrightarrow> is_streaming (on_answer f e) = is_streaming e"
  by (cases e) simp_all

lemma count_change_first:
  "\<forall>a. an_streaming (f a) = an_streaming a \<Longrightarrow> streaming_count (change_first p (on_answer f) es) = streaming_count es"
  by (induction es) (simp_all add: count_on_answer)

lemma count_change_streaming [simp]:
  "\<forall>a. an_streaming (f a) = an_streaming a \<Longrightarrow> streaming_count (change_streaming f es) = streaming_count es"
  by (simp add: change_streaming_def count_change_first)

lemma auto_scroll_frame [simp]:
  "core (auto_scroll env w) = core w" "cw_entries (auto_scroll env w) = cw_entries w"
  "cw_pending (auto_scroll env w) = cw_pending w" "cw_content (auto_scroll env w) = cw_content w"
  "cw_segs (auto_scroll env w) = cw_segs w" "cw_streaming (auto_scroll env w) = cw_streaming w"
  "cw_timer (auto_scroll env w) = cw_timer w" "cw_busy (auto_scroll env w) = cw_busy w"
  by (simp_all add: auto_scroll_def core_def)

lemma resume_scroll_frame [simp]:
  "core (resume_scroll env w) = core w" "cw_entries (resume_scroll env w) = cw_entries w"
  by (simp_all add: resume_scroll_def core_def)

lemma maybe_auto_box: "sc_box (maybe_auto_scroll ok f sm now s) = None \<longleftrightarrow> sc_box s = None"
  by (auto simp: scroll_defs split: option.splits)

lemma auto_scroll_mounted [simp]: "mounted (auto_scroll env w) = mounted w"
  by (simp add: mounted_def auto_scroll_def maybe_auto_box refit_def)

lemma note_visual_frame [simp]:
  "core (note_visual c n v w) = core w" "cw_entries (note_visual c n v w) = cw_entries w"
  "cw_scroll (note_visual c n v w) = cw_scroll w"
  by (simp_all add: note_visual_def core_def)

lemma note_segments_frame [simp]:
  "core (note_segments env segs w) = core w" "cw_entries (note_segments env segs w) = cw_entries w"
  "cw_scroll (note_segments env segs w) = cw_scroll w"
proof (induction segs arbitrary: w)
  case (Cons s segs)
  { case 1 then show ?case using Cons(1) by (simp add: note_segments_def Let_def) }
  { case 2 then show ?case using Cons(2) by (simp add: note_segments_def Let_def) }
  { case 3 then show ?case using Cons(3) by (simp add: note_segments_def Let_def) }
qed (simp_all add: note_segments_def)

lemma show_current_streaming [simp]: "an_streaming (show_current w a) = an_streaming a"
  by (simp add: show_current_def)

lemma render_streaming_frame [simp]:
  "core (render_streaming env w) = core w"
  "streaming_count (cw_entries (render_streaming env w)) = streaming_count (cw_entries w)"
  by (simp_all add: render_streaming_def) (simp add: core_def)

lemma core_defs: "core w = core w' \<Longrightarrow> cw_content w = cw_content w' \<and> cw_segs w = cw_segs w' \<and>
    cw_streaming w = cw_streaming w' \<and> cw_timer w = cw_timer w' \<and> cw_busy w = cw_busy w'"
  by (simp add: core_def)

section \<open>A sink for streamed answers\<close>

text \<open>
  What a client of a streamed answer relies on: it begins empty where the sink is ready, and each valid
  event adds exactly its text. The widget provides it, and so does the page on top of it.
\<close>

locale answer_sink =
  fixes begin_answer :: "'w \<Rightarrow> 'w" and feed :: "'w \<Rightarrow> 'e \<Rightarrow> 'w"
    and holds :: "string \<Rightarrow> 'w \<Rightarrow> bool" and ready :: "'w \<Rightarrow> bool"
    and text_of :: "'e \<Rightarrow> string" and valid :: "'e \<Rightarrow> bool"
  assumes begin_empty: "ready w \<Longrightarrow> holds [] (begin_answer w)"
    and feed_adds: "holds t w \<Longrightarrow> valid e \<Longrightarrow> holds (t @ text_of e) (feed w e)"
begin

lemma feeds_add:
  "holds t w \<Longrightarrow> list_all valid es \<Longrightarrow> holds (t @ concat (map text_of es)) (foldl feed w es)"
proof (induction es arbitrary: t w)
  case (Cons e es)
  then have "holds (t @ text_of e) (feed w e)" using feed_adds by simp
  from Cons.IH [OF this] Cons.prems(2) show ?case by simp
qed simp

lemma whole_answer:
  "ready w \<Longrightarrow> list_all valid es \<Longrightarrow> holds (concat (map text_of es)) (foldl feed (begin_answer w) es)"
  using feeds_add [OF begin_empty] by simp

end

section \<open>A whole stream\<close>

text \<open>The events of one answer, as the server sends them.\<close>

datatype stream_event =
    TextEvent string
  | CallEvent js string js js
  | ResultEvent js string js js js
  | ApprovalEvent js string js string js
  | ThinkingEvent js js
  | IndicatorEvent js js

fun apply_event :: "page_env \<Rightarrow> widget \<Rightarrow> stream_event \<Rightarrow> widget" where
  "apply_event env w (TextEvent t) = append_content env (JStr t) w"
| "apply_event env w (CallEvent name i args metadata) = add_tool_call env name args (JStr i) metadata w"
| "apply_event env w (ResultEvent name i result time metadata) = add_tool_result env name result time (JStr i) metadata w"
| "apply_event env w (ApprovalEvent name i args summary metadata) =
     (case add_tool_approval env name args (JStr i) summary metadata w of Some w' \<Rightarrow> w' | None \<Rightarrow> w)"
| "apply_event env w (ThinkingEvent p m) = start_thinking env p m w"
| "apply_event env w (IndicatorEvent p m) = update_thinking p m (show_thinking env p m w)"

fun event_text :: "stream_event \<Rightarrow> string" where
  "event_text (TextEvent t) = t"
| "event_text _ = []"

definition json_or_undef :: "js \<Rightarrow> bool" where
  "json_or_undef v \<longleftrightarrow> v = JUndef \<or> is_json v"

text \<open>What arrives is JSON: a tool has a name and its call an identifier.\<close>

fun server_event :: "stream_event \<Rightarrow> bool" where
  "server_event (CallEvent name i args metadata) \<longleftrightarrow> is_json name \<and> i \<noteq> [] \<and> json_or_undef args \<and> is_json metadata"
| "server_event (ResultEvent name i result time metadata) \<longleftrightarrow>
     is_json name \<and> i \<noteq> [] \<and> json_or_undef result \<and> json_or_undef time \<and> is_json metadata"
| "server_event (ApprovalEvent name i args summary metadata) \<longleftrightarrow> is_json name \<and> i \<noteq> [] \<and> json_or_undef args \<and> is_json metadata"
| "server_event _ \<longleftrightarrow> True"

definition stream_inv :: "string \<Rightarrow> widget \<Rightarrow> bool" where
  "stream_inv t w \<longleftrightarrow> streaming_count (cw_entries w) = 1 \<and> cw_streaming w \<and> cw_timer w \<and> cw_busy w
     \<and> is_json_list (cw_segs w) \<and> cw_content w = t \<and> extract_text (cw_segs w) = t
     \<and> (\<forall>i. i \<noteq> [] \<longrightarrow> length (filter (is_call i) (cw_segs w)) \<le> 1)"

lemma stream_inv_core:
  assumes "core w' = core w" and "streaming_count (cw_entries w') = streaming_count (cw_entries w)"
  shows "stream_inv t w' = stream_inv t w"
  using core_defs [OF assms(1)] assms(2) by (simp add: stream_inv_def)

lemma json_filter: "is_json_fields kvs \<Longrightarrow> is_json_fields (filter p kvs)"
  by (auto simp: is_json_fields_iff)

lemma segment_metadata_json: "is_json m \<Longrightarrow> is_json (segment_metadata (JObj []) m)"
  unfolding segment_metadata_def by (rule json_spread) (simp_all add: json_filter json_obj_fields)

lemma json_or_undef_or: "json_or_undef v \<Longrightarrow> is_json (js_or v (JObj []))"
  unfolding json_or_undef_def by (rule json_or) simp_all

lemma call_patch_plain: "json_or_undef args \<Longrightarrow> is_json m \<Longrightarrow> plain_patch (inline_call_patch env args m)"
  by (simp add: inline_call_patch_def plain_patch_def segment_metadata_json json_or_undef_or)

lemma approval_patch_plain: "json_or_undef args \<Longrightarrow> is_json m \<Longrightarrow> plain_patch (approval_patch env name args s m)"
  by (simp add: approval_patch_def plain_patch_def segment_metadata_json json_or_undef_or)

lemma result_patch_plain:
  assumes "json_or_undef r" and "json_or_undef time" and "is_json m"
  shows "plain_patch (inline_result_patch env r time m)"
proof -
  have "is_json (js_or (field m ''visualization'') JNull)"
    by (rule json_or [OF json_field_or [OF assms(3)]]) simp
  with assms show ?thesis
    by (simp add: inline_result_patch_def plain_patch_def segment_metadata_json json_or_undef_def Let_def)
qed

lemma upsert_stream:
  assumes "stream_inv t w" and "plain_patch patch" and "i \<noteq> []" and "is_json name"
  shows "stream_inv t (upsert_current env name (JStr i) patch w)"
proof -
  have j: "is_json_list (cw_segs w)" using assms(1) by (simp add: stream_inv_def)
  have n: "length (filter (is_call k) (upsert_tool (pg_chat env) (cw_segs w) name (JStr i) patch)) \<le> 1" if "k \<noteq> []" for k
  proof -
    have le: "length (filter (is_call k) (cw_segs w)) \<le> 1" using assms(1) that by (simp add: stream_inv_def)
    show ?thesis
    proof (cases "k = i")
      case True
      then show ?thesis using upsert_count [OF j assms(2,3,4), of "pg_chat env"] le by simp
    next
      case False
      then show ?thesis using upsert_other_calls [OF j assms(2,3,4), of k "pg_chat env"] le by simp
    qed
  qed
  then show ?thesis
    using assms upsert_json [OF j assms(2,3,4)] upsert_text [OF j assms(2,3,4)]
    by (simp add: stream_inv_def upsert_current_def)
qed

lemma stream_streaming: "stream_inv t w \<Longrightarrow> has_streaming w"
  by (simp add: stream_inv_def has_streaming_count)

lemma stream_reset: "stream_inv t w \<Longrightarrow> stream_inv t (reset_stream_timeout w)"
  by (simp add: stream_inv_def reset_stream_timeout_def)

lemma stream_render: "stream_inv t (render_streaming env w) = stream_inv t w"
  by (rule stream_inv_core) simp_all

lemma stream_visual: "stream_inv t (note_visual c n v w) = stream_inv t w"
  by (rule stream_inv_core) simp_all

lemma stream_has_reset: "has_streaming (reset_stream_timeout w) = has_streaming w"
  by (simp add: has_streaming_def reset_stream_timeout_def)

lemma stream_call:
  assumes "stream_inv t w" and "server_event (CallEvent name i args m)"
  shows "stream_inv t (add_tool_call env name args (JStr i) m w)"
  using assms upsert_stream [OF stream_reset [OF assms(1)] call_patch_plain]
  by (simp add: add_tool_call_def inline_tool_call_def stream_has_reset stream_streaming stream_render Let_def)

lemma stream_result:
  assumes "stream_inv t w" and "server_event (ResultEvent name i r time m)"
  shows "stream_inv t (add_tool_result env name r time (JStr i) m w)"
  using assms upsert_stream [OF stream_reset [OF assms(1)] result_patch_plain]
  by (simp add: add_tool_result_def inline_tool_result_def stream_has_reset stream_streaming stream_render stream_visual Let_def)

lemma stream_approval:
  assumes "stream_inv t w" and "server_event (ApprovalEvent name i args s m)"
  shows "stream_inv t (apply_event env w (ApprovalEvent name i args s m))"
  using assms upsert_stream [OF stream_reset [OF assms(1)] approval_patch_plain]
  by (simp add: add_tool_approval_def stream_streaming stream_render)

lemma stream_text:
  assumes "stream_inv t w"
  shows "stream_inv (t @ s) (append_content env (JStr s) w)"
proof -
  have "is_json_list (cw_segs w)" using assms by (simp add: stream_inv_def)
  then have "length (filter (is_call k) (append_markdown (pg_chat env) (cw_segs w) (JStr s)))
      = length (filter (is_call k) (cw_segs w))" for k
    by (rule append_markdown_calls)
  with assms show ?thesis
    by (simp add: append_content_def stream_render reset_stream_timeout_def)
       (simp add: stream_inv_def append_markdown_text json_append_markdown)
qed

lemma count_remove_thinking [simp]: "streaming_count (remove_first is_thinking es) = streaming_count es"
proof (induction es)
  case (Cons e es)
  then show ?case by (cases e) simp_all
qed simp

lemma count_change_thinking [simp]: "streaming_count (change_first is_thinking (\<lambda>e. ThinkingEntry p m) es) = streaming_count es"
proof (induction es)
  case (Cons e es)
  then show ?case by (cases e) simp_all
qed simp

lemma stream_thinking: "stream_inv t w \<Longrightarrow> stream_inv t (start_thinking env p m w)"
  by (simp add: start_thinking_def stream_streaming) (simp add: stream_inv_def)

lemma stream_indicator: "stream_inv t w \<Longrightarrow> stream_inv t (update_thinking p m (show_thinking env p m w))"
  by (simp add: stream_inv_def update_thinking_def show_thinking_def hide_thinking_def Let_def)

lemma stream_apply:
  assumes "stream_inv t w" and "server_event ev"
  shows "stream_inv (t @ event_text ev) (apply_event env w ev)"
proof (cases ev)
  case (TextEvent s)
  then show ?thesis using stream_text [OF assms(1)] by simp
next
  case (CallEvent name i args m)
  then show ?thesis using stream_call assms by simp
next
  case (ResultEvent name i r time m)
  then show ?thesis using stream_result assms by simp
next
  case (ApprovalEvent name i args s m)
  then show ?thesis using stream_approval [of t w name i args s m] assms by simp
next
  case (ThinkingEvent p m)
  then show ?thesis using stream_thinking assms by simp
next
  case (IndicatorEvent p m)
  then show ?thesis using stream_indicator assms by simp
qed

lemma stream_start:
  assumes "mounted w" and "\<not> has_streaming w"
  shows "stream_inv [] (start_assistant env w)"
  using assms by (simp add: start_assistant_def reset_stream_timeout_def stream_inv_def has_streaming_count extract_text_def)

interpretation widget_sink: answer_sink "start_assistant env" "apply_event env" stream_inv
    "\<lambda>w. mounted w \<and> \<not> has_streaming w" event_text server_event for env
  by unfold_locales (simp_all add: stream_start stream_apply)

lemmas stream_events = widget_sink.whole_answer

lemma change_first_streaming_answer:
  "streaming_count es = 1 \<Longrightarrow> \<forall>a. \<not> an_streaming (f a) \<Longrightarrow>
     \<exists>a. an_streaming a \<and> f a \<in> set (answers (change_streaming f es)) \<and> streaming_count (change_streaming f es) = 0"
proof (induction es)
  case (Cons e es)
  show ?case
  proof (cases "is_streaming e")
    case True
    then obtain a where e: "e = AnswerEntry a" "an_streaming a" by (cases e) auto
    with Cons.prems have "streaming_count es = 0" by simp
    with e Cons.prems(2) have "f a \<in> set (answers (change_streaming f (e # es)))"
      "streaming_count (change_streaming f (e # es)) = 0"
      by (simp_all add: change_streaming_def)
    with e show ?thesis by blast
  next
    case False
    with Cons obtain a where "an_streaming a" "f a \<in> set (answers (change_streaming f es))"
      "streaming_count (change_streaming f es) = 0" by auto
    moreover have "set (answers (change_streaming f es)) \<subseteq> set (answers (change_streaming f (e # es)))"
      using False by (cases e) (auto simp: change_streaming_def)
    moreover have "streaming_count (change_streaming f (e # es)) = streaming_count (change_streaming f es)"
      using False by (simp add: change_streaming_def)
    ultimately show ?thesis by auto
  qed
qed simp

text \<open>
  C1. No text of an answer is lost, repeated or reordered: after the start of an answer and any sequence of
  events of the server (text, tool calls, results, requests for approval, thinking notes), the content is
  the concatenation of the texts, the markdown of the segments is the same text, and every tool call has
  at most one segment.
\<close>

theorem stream_text_preserved:
  assumes "mounted w" and "\<not> has_streaming w" and "list_all server_event evs"
  shows "let w' = foldl (apply_event env) (start_assistant env w) evs; t = concat (map event_text evs)
    in cw_content w' = t \<and> extract_text (cw_segs w') = t \<and> cw_busy w' \<and> cw_timer w'
     \<and> (\<forall>i. i \<noteq> [] \<longrightarrow> length (filter (is_call i) (cw_segs w')) \<le> 1)"
  using stream_events [of w evs env] assms by (simp add: stream_inv_def)

definition demo_page :: page_env where
  "demo_page = \<lparr>pg_chat = demo_chat_env, pg_height = (\<lambda>es. 100 * int (length es)), pg_smooth = True, pg_clock = 0\<rparr>"

definition demo_widget :: widget where
  "demo_widget = init_widget\<lparr>cw_scroll := create_container \<lparr>bx_height = 500, bx_top = 0, bx_client = 500\<rparr> init_scroll\<rparr>"

lemma demo_widget_ready: "mounted demo_widget" "\<not> has_streaming demo_widget" "streaming_count (cw_entries demo_widget) = 0"
  by (simp_all add: demo_widget_def mounted_def create_container_def has_streaming_def init_widget_def)

definition demo_events :: "stream_event list" where
  "demo_events = [TextEvent ''Looking. '', CallEvent (JStr ''execute_sql'') ''c1'' JUndef (JObj []),
     ResultEvent (JStr ''execute_sql'') ''c1'' (JStr ''[]'') JNull (JObj []), TextEvent ''Done.'']"

lemma demo_events_server: "list_all server_event demo_events"
  by (simp add: demo_events_def json_or_undef_def)

theorem stream_text_preserved_witness:
  "cw_content (foldl (apply_event demo_page) (start_assistant demo_page demo_widget) demo_events) = ''Looking. Done.''"
  using stream_text_preserved [OF demo_widget_ready(1,2) demo_events_server, of demo_page]
  by (simp add: demo_events_def Let_def)

text \<open>
  Finishing an answer keeps it: afterwards nothing is streaming, the input is free and the timeout is
  off, and the list holds a finished answer with exactly the streamed text and the streamed segments,
  which can be copied.
\<close>

theorem finish_keeps_answer:
  assumes "mounted w" and "\<not> has_streaming w" and "list_all server_event evs"
  shows "let w1 = foldl (apply_event env) (start_assistant env w) evs; w' = finish_assistant w1 in
     \<not> has_streaming w' \<and> \<not> cw_streaming w' \<and> \<not> cw_busy w' \<and> \<not> cw_timer w'
   \<and> (\<exists>a \<in> set (answers (cw_entries w')). an_raw a = concat (map event_text evs)
         \<and> extract_text (an_segs a) = an_raw a \<and> an_segs a = cw_segs w1 \<and> an_copy a)"
proof -
  let ?w = "foldl (apply_event env) (start_assistant env w) evs"
  let ?f = "\<lambda>a. a\<lparr>an_streaming := False, an_raw := cw_content ?w, an_segs := clone_segments (cw_segs ?w), an_copy := True\<rparr>"
  have s: "stream_inv (concat (map event_text evs)) ?w"
    using stream_events [of w evs env] assms by simp
  then have one: "streaming_count (remove_first is_thinking (cw_entries ?w)) = 1" by (simp add: stream_inv_def)
  have "\<forall>a. \<not> an_streaming (?f a)" by simp
  from change_first_streaming_answer [OF one this] obtain a where a: "?f a \<in> set (answers (change_streaming ?f (remove_first is_thinking (cw_entries ?w))))"
    "streaming_count (change_streaming ?f (remove_first is_thinking (cw_entries ?w))) = 0"
    by blast
  have e: "cw_entries (finish_assistant ?w) = change_streaming ?f (remove_first is_thinking (cw_entries ?w))"
    by (simp add: finish_assistant_def hide_thinking_def Let_def)
  have j: "is_json_list (cw_segs ?w)" "extract_text (cw_segs ?w) = cw_content ?w"
    "cw_content ?w = concat (map event_text evs)" using s by (simp_all add: stream_inv_def)
  have "\<not> has_streaming (finish_assistant ?w)" using a(2) e by (simp add: has_streaming_count)
  moreover have "\<not> cw_streaming (finish_assistant ?w)" "\<not> cw_busy (finish_assistant ?w)" "\<not> cw_timer (finish_assistant ?w)"
    by (simp_all add: finish_assistant_def hide_thinking_def Let_def)
  moreover have "an_raw (?f a) = concat (map event_text evs)" "extract_text (an_segs (?f a)) = an_raw (?f a)"
    "an_segs (?f a) = cw_segs ?w" "an_copy (?f a)" using j by (simp_all add: clone_id)
  ultimately show ?thesis using a(1) unfolding e [symmetric] Let_def by blast
qed

theorem finish_keeps_answer_witness:
  "\<exists>a \<in> set (answers (cw_entries (finish_assistant (foldl (apply_event demo_page) (start_assistant demo_page demo_widget) demo_events)))).
     an_raw a = ''Looking. Done.''"
  using finish_keeps_answer [OF demo_widget_ready(1,2) demo_events_server, of demo_page]
  by (auto simp: demo_events_def Let_def)

section \<open>A loaded conversation\<close>

text \<open>The entries of a widget, as far as a load is concerned.\<close>

definition shown :: "widget \<Rightarrow> answer list \<times> js set" where
  "shown w = (answers (cw_entries w), set (card_calls (cw_entries w)))"

lemma reset_stream_entries [simp]:
  "cw_entries (reset_stream_timeout w) = cw_entries w" "cw_seq (reset_stream_timeout w) = cw_seq w"
  by (simp_all add: reset_stream_timeout_def)

lemma shown_auto [simp]: "shown (auto_scroll env w) = shown w" "shown (resume_scroll env w) = shown w"
  "shown (note_segments env segs w) = shown w" "shown (reset_stream_timeout w) = shown w"
  by (simp_all add: shown_def reset_stream_timeout_def)

lemma shown_render_card [simp]: "shown (render_card i w) = shown w"
proof -
  let ?f = "\<lambda>st e. case e of ToolCardEntry j n c _ \<Rightarrow> ToolCardEntry j n c st | _ \<Rightarrow> e"
  have "answers (change_first (is_card i) (?f st) es) = answers es
      \<and> card_calls (change_first (is_card i) (?f st) es) = card_calls es" for st es
  proof (induction es)
    case (Cons e es)
    then show ?case by (cases e) (simp_all add: card_calls_def)
  qed simp
  then show ?thesis by (simp add: render_card_def shown_def split: option.split)
qed

lemma shown_quiet: "list_all (\<lambda>a. \<not> an_streaming a) (fst (shown w)) \<Longrightarrow> streaming_count (cw_entries w) = 0"
  by (simp add: shown_def no_answer_streaming)

lemma move_quiet: "streaming_count (cw_entries w) = 0 \<Longrightarrow> move_streaming_to_tail w = w"
  by (simp add: move_streaming_to_tail_def streaming_count_def)

lemma shown_append_card:
  assumes "streaming_count (cw_entries w) = 0"
  shows "fst (shown (append_tool_entry env (ToolCardEntry i n c s) w)) = fst (shown w)"
    and "snd (shown (append_tool_entry env (ToolCardEntry i n c s) w)) \<subseteq> insert c (snd (shown w))"
  using assms by (auto simp: append_tool_entry_def move_quiet shown_def)

lemma shown_update [simp]:
  "shown (w\<lparr>cw_cards := x\<rparr>) = shown w" "shown (w\<lparr>cw_pending := p\<rparr>) = shown w"
  "shown (w\<lparr>cw_visuals := v\<rparr>) = shown w" "shown (w\<lparr>cw_seq := n\<rparr>) = shown w"
  by (simp_all add: shown_def)

lemma shown_legacy_call:
  assumes "list_all (\<lambda>a. \<not> an_streaming a) (fst (shown w))"
  shows "fst (shown (legacy_tool_call env name args call w)) = fst (shown w)
    \<and> snd (shown (legacy_tool_call env name args call w)) \<subseteq> insert call (snd (shown w))"
proof -
  let ?i = "''tool-card-'' @ ce_now (pg_chat env) @ ''-'' @ str_of_nat (cw_seq w + 1)"
  let ?a = "append_tool_entry env (ToolCardEntry ?i name call JUndef) ((reset_stream_timeout w)\<lparr>cw_seq := cw_seq w + 1\<rparr>)"
  have q: "streaming_count (cw_entries w) = 0" by (rule shown_quiet [OF assms])
  have a: "fst (shown ?a) = fst (shown w)" "snd (shown ?a) \<subseteq> insert call (snd (shown w))"
    using shown_append_card [of "(reset_stream_timeout w)\<lparr>cw_seq := cw_seq w + 1\<rparr>" env ?i name call JUndef] q
    by simp_all
  have m: "fst (shown v) = fst (shown w) \<Longrightarrow> move_streaming_to_tail v = v" for v
    using assms by (intro move_quiet shown_quiet) simp
  show ?thesis
  proof (cases "card_exists (reset_stream_timeout w) (js_or call name)")
    case True
    then show ?thesis by (simp add: legacy_tool_call_def Let_def m) blast
  next
    case False
    with a show ?thesis by (simp add: legacy_tool_call_def Let_def m)
  qed
qed

lemma shown_add_call:
  assumes "list_all (\<lambda>a. \<not> an_streaming a) (fst (shown w))"
  shows "fst (shown (add_tool_call env name args call md w)) = fst (shown w)
    \<and> snd (shown (add_tool_call env name args call md w)) \<subseteq> insert call (snd (shown w))"
proof -
  have "\<not> has_streaming (reset_stream_timeout w)"
    using shown_quiet [OF assms] by (simp add: stream_has_reset has_streaming_count)
  moreover have "list_all (\<lambda>a. \<not> an_streaming a) (fst (shown (reset_stream_timeout w)))" using assms by simp
  ultimately show ?thesis
    using shown_legacy_call [of "reset_stream_timeout w" env name args call]
    by (simp add: add_tool_call_def inline_tool_call_def Let_def)
qed

lemma shown_legacy_result:
  assumes "list_all (\<lambda>a. \<not> an_streaming a) (fst (shown w))"
  shows "fst (shown (legacy_tool_result env name r time call md w)) = fst (shown w)
    \<and> snd (shown (legacy_tool_result env name r time call md w)) \<subseteq> insert call (snd (shown w))"
proof -
  let ?w0 = "reset_stream_timeout w"
  let ?w1 = "if card_exists ?w0 (js_or call name) then ?w0 else add_tool_call env name (JObj []) call (JObj []) ?w0"
  have "list_all (\<lambda>a. \<not> an_streaming a) (fst (shown ?w0))" using assms by simp
  from shown_add_call [OF this, of env name "JObj []" call "JObj []"]
  have w1: "fst (shown ?w1) = fst (shown w) \<and> snd (shown ?w1) \<subseteq> insert call (snd (shown w))" by auto
  have "shown (legacy_tool_result env name r time call md w) = shown ?w1"
    by (simp add: legacy_tool_result_def Let_def split: option.split)
  with w1 show ?thesis by simp
qed

text \<open>An approval handler that leaves finished answers and tool cards alone.\<close>

definition keeps_entries :: "(js \<Rightarrow> bool \<Rightarrow> widget \<Rightarrow> widget) option \<Rightarrow> bool" where
  "keeps_entries h = (case h of None \<Rightarrow> True
     | Some f \<Rightarrow> (\<forall>d r w. list_all (\<lambda>a. \<not> an_streaming a) (fst (shown w)) \<longrightarrow> shown (f d r w) = shown w))"

definition is_assistant_msg :: "js \<Rightarrow> bool" where
  "is_assistant_msg m \<longleftrightarrow> field m ''role'' = JStr ''assistant''"

lemma embedded_member:
  assumes "m \<in> set (filter is_assistant_msg msgs)" and "s \<in> set (elements (field m ''render_segments''))"
    and "is_tool s \<and> truthy (field s ''tool_call_id'')"
  shows "field s ''tool_call_id'' \<in> set (embedded_tool_ids msgs)"
  using assms by (auto simp: embedded_tool_ids_def assistant_tools_def is_assistant_msg_def)

lemma embedded_truthy: "call \<in> set (embedded_tool_ids msgs) \<Longrightarrow> truthy call"
  by (auto simp: embedded_tool_ids_def assistant_tools_def)

lemma shown_load_message:
  assumes "list_all (\<lambda>a. \<not> an_streaming a) (fst (shown w))" and "keeps_entries h"
    and "snd (shown w) \<inter> set (embedded_tool_ids msgs) = {}"
  shows "fst (shown (load_message env h msgs w m)) = fst (shown w) @ (if is_assistant_msg m then [loaded_answer m] else [])
    \<and> snd (shown (load_message env h msgs w m)) \<inter> set (embedded_tool_ids msgs) = {}"
proof -
  let ?E = "set (embedded_tool_ids msgs)"
  note calls = shown_legacy_call [OF assms(1)] shown_legacy_result [OF assms(1)]
  have fresh: "S \<inter> ?E = {}" if "S \<subseteq> insert c (snd (shown w))" "\<not> (truthy c \<and> c \<in> ?E)" for S c
    using that assms(3) embedded_truthy by blast
  consider "field m ''role'' = JStr ''user''" | "field m ''role'' = JStr ''assistant''"
    | "field m ''role'' = JStr ''tool_call''" | "field m ''role'' = JStr ''tool_result''"
    | "field m ''role'' \<notin> {JStr ''user'', JStr ''assistant'', JStr ''tool_call'', JStr ''tool_result''}" by blast
  then show ?thesis
  proof cases
    case 1
    then show ?thesis using assms(3) by (simp add: load_message_def is_assistant_msg_def add_user_message_def shown_def)
  next
    case 2
    then show ?thesis using assms(3) by (simp add: load_message_def is_assistant_msg_def shown_def)
  next
    case 3
    show ?thesis
    proof (cases "message_data (pg_chat env) m")
      case None
      with 3 assms(3) show ?thesis by (simp add: load_message_def is_assistant_msg_def)
    next
      case (Some data)
      let ?c = "js_or (field data ''tool_call_id'') (js_or (field m ''tool_call_id'') JNull)"
      show ?thesis
      proof (cases "truthy ?c \<and> ?c \<in> ?E")
        case True
        with 3 Some assms(3) show ?thesis by (simp add: load_message_def is_assistant_msg_def)
      next
        case False
        then have e: "load_message env h msgs w m
            = legacy_tool_call env (field data ''tool_name'') (field data ''tool_args'') ?c w"
          using 3 Some by (auto simp: load_message_def Let_def)
        show ?thesis unfolding e using 3 calls(1) fresh [OF _ False] by (simp add: is_assistant_msg_def)
      qed
    qed
  next
    case 4
    show ?thesis
    proof (cases "message_data (pg_chat env) m")
      case None
      with 4 assms(3) show ?thesis by (simp add: load_message_def is_assistant_msg_def)
    next
      case (Some data)
      let ?c = "js_or (field data ''tool_call_id'') (js_or (field m ''tool_call_id'') JNull)"
      show ?thesis
      proof (cases "truthy ?c \<and> ?c \<in> ?E")
        case True
        with 4 Some assms(3) show ?thesis by (simp add: load_message_def is_assistant_msg_def)
      next
        case False
        then obtain r time md where e: "load_message env h msgs w m
            = legacy_tool_result env (field data ''tool_name'') r time ?c md w"
          using 4 Some by (auto simp: load_message_def Let_def)
        show ?thesis unfolding e using 4 calls(2) fresh [OF _ False] by (simp add: is_assistant_msg_def)
      qed
    qed
  next
    case 5
    then have "shown (load_message env h msgs w m) = shown w"
      using assms(1,2) by (auto simp: load_message_def keeps_entries_def Let_def split: option.splits)
    with 5 assms(3) show ?thesis by (simp add: is_assistant_msg_def)
  qed
qed

lemma shown_load_fold:
  assumes "keeps_entries h"
  shows "list_all (\<lambda>a. \<not> an_streaming a) (fst (shown w)) \<Longrightarrow> snd (shown w) \<inter> set (embedded_tool_ids msgs) = {} \<Longrightarrow>
    fst (shown (foldl (load_message env h msgs) w ms)) = fst (shown w) @ map loaded_answer (filter is_assistant_msg ms)
    \<and> snd (shown (foldl (load_message env h msgs) w ms)) \<inter> set (embedded_tool_ids msgs) = {}"
proof (induction ms arbitrary: w)
  case (Cons m ms)
  note s = shown_load_message [OF Cons.prems(1) assms Cons.prems(2), of env m]
  have "list_all (\<lambda>a. \<not> an_streaming a) (fst (shown (load_message env h msgs w m)))"
    using s Cons.prems(1) by (simp add: loaded_answer_def)
  from Cons.IH [OF this] s show ?case by simp
qed simp

lemma load_messages_shown:
  assumes "mounted w" and "keeps_entries on_approval"
  shows "answers (cw_entries (load_messages env on_approval msgs w)) = map loaded_answer (filter is_assistant_msg msgs)"
    and "set (card_calls (cw_entries (load_messages env on_approval msgs w))) \<inter> set (embedded_tool_ids msgs) = {}"
proof -
  let ?w0 = "reset_tool_panel (w\<lparr>cw_entries := [], cw_scroll := (reset_scroll (cw_scroll w))\<lparr>sc_suppress := True\<rparr>\<rparr>)"
  have z: "shown ?w0 = ([], {})" by (simp add: shown_def reset_tool_panel_def)
  have s: "shown (load_messages env on_approval msgs w) = shown (foldl (load_message env on_approval msgs) ?w0 msgs)"
    using assms(1) by (simp add: load_messages_def Let_def) (simp add: shown_def)
  from shown_load_fold [OF assms(2), of ?w0 msgs env msgs] z s
  show "answers (cw_entries (load_messages env on_approval msgs w)) = map loaded_answer (filter is_assistant_msg msgs)"
    and "set (card_calls (cw_entries (load_messages env on_approval msgs w))) \<inter> set (embedded_tool_ids msgs) = {}"
    by (simp_all add: shown_def)
qed

text \<open>
  C5. Loading a conversation shows its answers, all of them, in order, with their stored text, and no tool
  call twice: a call that an answer embeds has no card of its own, whatever tool messages repeat it.
\<close>

theorem load_messages_no_duplicates:
  assumes "mounted w" and "keeps_entries on_approval"
  shows "answers (cw_entries (load_messages env on_approval msgs w)) = map loaded_answer (filter is_assistant_msg msgs)
    \<and> (\<forall>m \<in> set (filter is_assistant_msg msgs). \<forall>s \<in> set (elements (field m ''render_segments'')).
          is_tool s \<and> truthy (field s ''tool_call_id'')
            \<longrightarrow> field s ''tool_call_id'' \<notin> set (card_calls (cw_entries (load_messages env on_approval msgs w))))"
  using load_messages_shown [OF assms] embedded_member by blast

theorem load_messages_no_duplicates_witness:
  "map an_raw (answers (cw_entries (load_messages demo_page None
     [JObj [(''role'', JStr ''user''), (''content'', JStr ''hi'')],
      JObj [(''role'', JStr ''assistant''), (''content'', JStr ''hello'')]] demo_widget))) = [''hello'']"
proof -
  have "keeps_entries None" by (simp add: keeps_entries_def)
  from load_messages_no_duplicates [OF demo_widget_ready(1) this] show ?thesis
    by (simp add: is_assistant_msg_def loaded_answer_def)
qed

section \<open>The stream, its timeout and the input\<close>

text \<open>Every operation of the widget, in any order. An approval handler may add its own entries only.\<close>

inductive widget_step :: "page_env \<Rightarrow> widget \<Rightarrow> widget \<Rightarrow> bool" for env where
  started: "widget_step env w (start_assistant env w)"
| resumed: "widget_step env w (resume_assistant env content segs w)"
| appended: "widget_step env w (append_content env t w)"
| thinks: "widget_step env w (start_thinking env p m w)"
| shows_thinking: "widget_step env w (show_thinking env p m w)"
| updates_thinking: "widget_step env w (update_thinking p m w)"
| hides_thinking: "widget_step env w (hide_thinking w)"
| finished: "widget_step env w (finish_assistant w)"
| failed: "widget_step env w (show_error env msg w)"
| errs: "widget_step env w (add_error env msg force w)"
| asked: "widget_step env w (add_user_message env t ats force w)"
| called: "widget_step env w (add_tool_call env name args call md w)"
| returned: "widget_step env w (add_tool_result env name r time call md w)"
| needs_approval: "add_tool_approval env name args call sm md w = Some w' \<Longrightarrow> widget_step env w w'"
| approved: "update_approval env a patch w = (u, w') \<Longrightarrow> widget_step env w w'"
| loaded: "widget_step env w (load_messages env None msgs w)"
| timed_out: "widget_step env w (stream_timeout env w)"
| tools_reset: "widget_step env w (reset_tool_panel w)"
| scrolled_by: "widget_step env w (w\<lparr>cw_scroll := s\<rparr>)"

inductive widget_reachable :: "page_env \<Rightarrow> widget \<Rightarrow> bool" for env where
  initial: "widget_reachable env init_widget"
| further: "widget_reachable env w \<Longrightarrow> widget_step env w w' \<Longrightarrow> widget_reachable env w'"

definition input_inv :: "widget \<Rightarrow> bool" where
  "input_inv w \<longleftrightarrow> cw_busy w = cw_streaming w \<and> (cw_timer w \<longrightarrow> cw_streaming w)"

lemma input_core: "core w = core w' \<Longrightarrow> input_inv w = input_inv w'"
  by (simp add: core_def input_inv_def)

lemma input_frame [simp]:
  "input_inv (auto_scroll env w) = input_inv w" "input_inv (resume_scroll env w) = input_inv w"
  "input_inv (note_segments env segs w) = input_inv w" "input_inv (note_visual c n v w) = input_inv w"
  "input_inv (render_streaming env w) = input_inv w"
  by (rule input_core, simp)+

lemma input_update [simp]:
  "input_inv (w\<lparr>cw_entries := es\<rparr>) = input_inv w" "input_inv (w\<lparr>cw_segs := sg\<rparr>) = input_inv w"
  "input_inv (w\<lparr>cw_content := t\<rparr>) = input_inv w" "input_inv (w\<lparr>cw_cards := cs\<rparr>) = input_inv w"
  "input_inv (w\<lparr>cw_pending := ps\<rparr>) = input_inv w" "input_inv (w\<lparr>cw_visuals := vs\<rparr>) = input_inv w"
  "input_inv (w\<lparr>cw_seq := n\<rparr>) = input_inv w" "input_inv (w\<lparr>cw_scroll := s\<rparr>) = input_inv w"
  "input_inv (w\<lparr>cw_thinking := b\<rparr>) = input_inv w" "input_inv (w\<lparr>cw_phase := p\<rparr>) = input_inv w"
  "input_inv (w\<lparr>cw_message := p\<rparr>) = input_inv w" "input_inv (w\<lparr>cw_insights := i\<rparr>) = input_inv w"
  "input_inv (w\<lparr>cw_modes := ms\<rparr>) = input_inv w"
  by (simp_all add: input_inv_def)

lemma input_reset [simp]: "input_inv w \<Longrightarrow> input_inv (reset_stream_timeout w)"
  by (simp add: input_inv_def reset_stream_timeout_def)

lemma input_stopped: "\<not> cw_streaming w \<Longrightarrow> \<not> cw_busy w \<Longrightarrow> \<not> cw_timer w \<Longrightarrow> input_inv w"
  by (simp add: input_inv_def)

lemma input_running: "cw_streaming w \<Longrightarrow> cw_busy w \<Longrightarrow> input_inv w"
  by (simp add: input_inv_def)

lemma input_move [simp]: "input_inv (move_streaming_to_tail w) = input_inv w"
  by (simp add: move_streaming_to_tail_def split: list.split entry.split)

lemma input_append_card [simp]: "input_inv (append_tool_entry env e w) = input_inv w"
  by (simp add: append_tool_entry_def)

lemma input_render_card [simp]: "input_inv (render_card i w) = input_inv w"
  by (simp add: render_card_def split: option.split)

lemma input_upsert [simp]: "input_inv (upsert_current env n c p w) = input_inv w"
  by (simp add: upsert_current_def)

lemma input_hide [simp]: "input_inv (hide_thinking w) = input_inv w"
  by (simp add: hide_thinking_def)

lemma input_add_error [simp]: "input_inv (add_error env m f w) = input_inv w"
  by (simp add: add_error_def Let_def)

lemma input_user [simp]: "input_inv (add_user_message env t ats f w) = input_inv w"
  by (simp add: add_user_message_def Let_def)

lemma input_panel [simp]: "input_inv (reset_tool_panel w) = input_inv w"
  by (simp add: reset_tool_panel_def)

lemma input_legacy_call: "input_inv w \<Longrightarrow> input_inv (legacy_tool_call env name args call w)"
  by (simp add: legacy_tool_call_def Let_def split: prod.split)

lemma input_call: "input_inv w \<Longrightarrow> input_inv (add_tool_call env name args call md w)"
  by (simp add: add_tool_call_def inline_tool_call_def input_legacy_call Let_def)

lemma input_legacy_result: "input_inv w \<Longrightarrow> input_inv (legacy_tool_result env name r time call md w)"
  by (simp add: legacy_tool_result_def input_call Let_def split: option.split)

lemma input_result: "input_inv w \<Longrightarrow> input_inv (add_tool_result env name r time call md w)"
  by (simp add: add_tool_result_def inline_tool_result_def input_legacy_result Let_def)

lemma input_start: "input_inv w \<Longrightarrow> input_inv (start_assistant env w)"
  by (simp add: start_assistant_def) (simp add: input_inv_def reset_stream_timeout_def)

lemma input_resume: "input_inv w \<Longrightarrow> input_inv (resume_assistant env content segs w)"
  by (simp add: resume_assistant_def Let_def input_running reset_stream_timeout_def)

lemma input_error: "input_inv (show_error env msg w)"
  by (rule input_stopped) (simp_all add: show_error_def)

lemma input_finish: "input_inv (finish_assistant w)"
  by (rule input_stopped) (simp_all add: finish_assistant_def hide_thinking_def Let_def)

lemma input_approve_entry: "input_inv (snd (snd (approve_entry env a patch e w))) = input_inv w"
  by (simp add: approve_entry_def Let_def split: entry.split prod.split)

lemma input_approve_entries: "input_inv (snd (snd (approve_entries env a patch es w))) = input_inv w"
proof (induction es arbitrary: w)
  case (Cons e es)
  show ?case
    using Cons [of "snd (snd (approve_entry env a patch e w))"] input_approve_entry [of env a patch e w]
    by (simp add: split_beta Let_def)
qed simp

lemma input_approve: "update_approval env a patch w = (u, w') \<Longrightarrow> input_inv w \<Longrightarrow> input_inv w'"
  using input_approve_entries [of env a patch "cw_entries w" w]
  by (auto simp: update_approval_def split: if_splits prod.splits)

lemma input_load_message: "input_inv w \<Longrightarrow> input_inv (load_message env None msgs w m)"
  by (simp add: load_message_def input_legacy_call input_legacy_result Let_def split: option.split)

lemma input_load_fold: "input_inv w \<Longrightarrow> input_inv (foldl (load_message env None msgs) w ms)"
  by (induction ms arbitrary: w) (simp_all add: input_load_message)

lemma input_load: "input_inv w \<Longrightarrow> input_inv (load_messages env None msgs w)"
  by (simp add: load_messages_def input_load_fold Let_def)

lemma input_timeout: "input_inv w \<Longrightarrow> input_inv (stream_timeout env w)"
  by (simp add: stream_timeout_def input_error) (simp add: input_inv_def)

lemma input_step: "widget_step env w w' \<Longrightarrow> input_inv w \<Longrightarrow> input_inv w'"
proof (induction rule: widget_step.induct)
  case (needs_approval name args call sm md w w')
  then show ?case by (auto simp: add_tool_approval_def split: if_splits)
qed (simp_all add: input_start input_resume append_content_def start_thinking_def show_thinking_def update_thinking_def
   input_finish input_error input_call input_result input_approve input_load input_timeout Let_def)

lemma input_reachable: "widget_reachable env w \<Longrightarrow> input_inv w"
proof (induction rule: widget_reachable.induct)
  case initial
  show ?case by (simp add: init_widget_def input_inv_def)
next
  case (further w w')
  then show ?case using input_step by blast
qed



section \<open>Resuming\<close>

lemma mounted_update [simp]:
  "mounted (w\<lparr>cw_entries := es\<rparr>) = mounted w" "mounted (w\<lparr>cw_streaming := b\<rparr>) = mounted w"
  "mounted (w\<lparr>cw_busy := b\<rparr>) = mounted w" "mounted (w\<lparr>cw_content := t\<rparr>) = mounted w"
  "mounted (w\<lparr>cw_segs := sg\<rparr>) = mounted w" "mounted (w\<lparr>cw_thinking := b\<rparr>) = mounted w"
  "mounted (w\<lparr>cw_phase := x\<rparr>) = mounted w" "mounted (w\<lparr>cw_message := x\<rparr>) = mounted w"
  "mounted (w\<lparr>cw_insights := ins\<rparr>) = mounted w"
  "mounted (note_segments env segs w) = mounted w" "mounted (reset_stream_timeout w) = mounted w"
  by (simp_all add: mounted_def reset_stream_timeout_def)

lemma core_entries [simp]: "core (w\<lparr>cw_entries := es\<rparr>) = core w"
  by (simp add: core_def)

lemma core_restart [simp]:
  "core (reset_stream_timeout (w\<lparr>cw_segs := sg, cw_content := t, cw_streaming := True, cw_thinking := b, cw_busy := True\<rparr>))
    = (t, sg, True, True, True)"
  by (simp add: core_def reset_stream_timeout_def)

text \<open>The state after a resume, whatever was there.\<close>

lemma resume_core:
  assumes "mounted w"
  shows "core (resume_assistant env content segs w) =
    (let norm = normalize_segments segs content
     in (if content \<noteq> [] then content else extract_text norm, norm, True, True, True))"
  using assms
  by (simp add: resume_assistant_def Let_def)

lemma resume_mounted: "mounted (resume_assistant env content segs w) = mounted w"
  by (simp add: resume_assistant_def start_assistant_def Let_def split: option.split)

lemma thinking_core [simp]:
  "core (hide_thinking w) = core w" "core (show_thinking env p m w) = core w" "core (update_thinking p m w) = core w"
  by (simp_all add: hide_thinking_def show_thinking_def update_thinking_def Let_def) (simp_all add: core_def)

lemma normalize_json:
  assumes "is_json_list segs" and "segs \<noteq> []"
  shows "normalize_segments (JArr segs) content = segs"
  using assms clone_id [OF assms(1)] by (cases segs) (simp_all add: normalize_segments_def)

section \<open>The list stays\<close>

lemma mounted_more [simp]:
  "mounted (w\<lparr>cw_cards := cs\<rparr>) = mounted w" "mounted (w\<lparr>cw_pending := ps\<rparr>) = mounted w"
  "mounted (w\<lparr>cw_visuals := vs\<rparr>) = mounted w" "mounted (w\<lparr>cw_seq := n\<rparr>) = mounted w"
  "mounted (w\<lparr>cw_modes := ms\<rparr>) = mounted w" "mounted (w\<lparr>cw_timer := b\<rparr>) = mounted w"
  "mounted (note_visual c nm v w) = mounted w"
  by (simp_all add: mounted_def note_visual_def)

lemma mounted_resume [simp]: "mounted (resume_scroll env w) = mounted w"
  by (auto simp: mounted_def resume_scroll_def refit_def scroll_defs split: option.splits)

lemma mounted_steps [simp]:
  "mounted (move_streaming_to_tail w) = mounted w" "mounted (render_card i w) = mounted w"
  "mounted (upsert_current env n c p w) = mounted w" "mounted (render_streaming env w) = mounted w"
  "mounted (add_user_message env t ats f w) = mounted w" "mounted (reset_tool_panel w) = mounted w"
  by (simp_all add: move_streaming_to_tail_def render_card_def upsert_current_def render_streaming_def
      add_user_message_def reset_tool_panel_def Let_def split: list.split entry.split option.split)

lemma mounted_append_card [simp]: "mounted (append_tool_entry env e w) = mounted w"
  by (simp add: append_tool_entry_def)

lemma mounted_legacy_call [simp]: "mounted (legacy_tool_call env name args call w) = mounted w"
  by (simp add: legacy_tool_call_def Let_def split: prod.split)

lemma mounted_call [simp]: "mounted (add_tool_call env name args call md w) = mounted w"
  by (simp add: add_tool_call_def inline_tool_call_def Let_def)

lemma mounted_legacy_result [simp]: "mounted (legacy_tool_result env name r time call md w) = mounted w"
  by (simp add: legacy_tool_result_def Let_def split: option.split)

lemma mounted_load_message:
  assumes "\<And>d r w. mounted (h d r w) = mounted w"
  shows "mounted (load_message env (Some h) msgs w m) = mounted w"
  using assms by (simp add: load_message_def Let_def split: option.split)

lemma mounted_load:
  assumes "\<And>d r w. mounted (h d r w) = mounted w"
  shows "mounted (load_messages env (Some h) msgs w) = mounted w"
proof -
  have f: "mounted (foldl (load_message env (Some h) msgs) v ms) = mounted v" for v ms
    by (induction ms arbitrary: v) (simp_all add: mounted_load_message [OF assms])
  have s: "mounted (v\<lparr>cw_scroll := (cw_scroll v)\<lparr>sc_suppress := b\<rparr>\<rparr>) = mounted v" for v b by (simp add: mounted_def)
  have r: "mounted (v\<lparr>cw_entries := [], cw_scroll := (reset_scroll (cw_scroll v))\<lparr>sc_suppress := True\<rparr>\<rparr>) = mounted v" for v
    by (simp add: mounted_def scroll_defs)
  show ?thesis by (simp add: load_messages_def f s r Let_def)
qed

lemma load_nothing:
  "mounted w \<Longrightarrow> cw_entries (load_messages env h [] w) = []"
  "cw_busy (load_messages env h [] w) = cw_busy w" "cw_streaming (load_messages env h [] w) = cw_streaming w"
  by (simp_all add: load_messages_def reset_tool_panel_def resume_scroll_def Let_def)

end
