(* ===== verification/VisualChart.thy ===== *)
theory VisualChart
  imports ChatWidget JsNumber
begin

text \<open>
  \<^verbatim>\<open>frontend/js/components/chat-widget.js\<close>, the charts of a tool result: the points of a metric, their place in
  the drawing and the chart of every metric of a visualization. Numbers are exact. \<open>parse\<close> is the date
  parser (None is an invalid date). A function that throws returns \<open>Inl\<close>.
\<close>

datatype chart_error = ReferenceError string

record chart_point =
  pt_value :: rat
  pt_stamp :: rat

record geometry =
  gm_left :: rat
  gm_top :: rat
  gm_width :: rat
  gm_height :: rat
  gm_min_stamp :: rat
  gm_max_stamp :: rat
  gm_min_value :: rat
  gm_max_value :: rat

section \<open>Points\<close>

definition palette_strokes :: "string list" where
  "palette_strokes = [''#2f81f7'', ''#f59e0b'', ''#10b981'', ''#ef4444'', ''#8b5cf6'', ''#06b6d4'']"

definition visualization_stroke :: "nat \<Rightarrow> string" where
  "visualization_stroke i = palette_strokes ! (i mod length palette_strokes)"

fun finite_num :: "jnum \<Rightarrow> rat option" where
  "finite_num (Fin q) = Some q"
| "finite_num _ = None"

text \<open>The value of the mode, else the first finite one; \<^verbatim>\<open>Number(null)\<close> is 0 and so counts.\<close>

fun first_some :: "'a option list \<Rightarrow> 'a option" where
  "first_some [] = None"
| "first_some (None # xs) = first_some xs"
| "first_some (Some x # xs) = Some x"

definition metric_point_value :: "js \<Rightarrow> string \<Rightarrow> rat option" where
  "metric_point_value point mode =
     (if \<not> truthy point \<or> \<not> typeof_object point then None
      else first_some (map (\<lambda>k. finite_num (to_number (field point k))) [mode, ''avg'', ''last'', ''max'', ''min'']))"

definition point_stamp :: "(string \<Rightarrow> int option) \<Rightarrow> js \<Rightarrow> rat option" where
  "point_stamp parse v =
     (if \<not> truthy v then None
      else (case v of
        JStr s \<Rightarrow> map_option of_int (parse s)
      | JNum (Fin q) \<Rightarrow> Some q
      | _ \<Rightarrow> None))"

definition chart_points :: "(string \<Rightarrow> int option) \<Rightarrow> js list \<Rightarrow> string \<Rightarrow> chart_point list" where
  "chart_points parse points mode = List.map_filter (\<lambda>p.
     (case (metric_point_value p mode, point_stamp parse (field p ''time'')) of
        (Some v, Some t) \<Rightarrow> Some \<lparr>pt_value = v, pt_stamp = t\<rparr>
      | _ \<Rightarrow> None)) points"

section \<open>Geometry\<close>

definition list_min :: "rat list \<Rightarrow> rat" where "list_min xs = foldl min (hd xs) (tl xs)"
definition list_max :: "rat list \<Rightarrow> rat" where "list_max xs = foldl max (hd xs) (tl xs)"

definition chart_geometry :: "chart_point list \<Rightarrow> geometry" where
  "chart_geometry ps =
     (let lo = list_min (map pt_value ps); hi = list_max (map pt_value ps); base = hi - lo;
          padding = (if base > 0 then base * 8 / 100 else max (\<bar>hi\<bar> * 8 / 100) 1);
          mn = (if lo \<ge> 0 \<and> lo - padding < 0 then 0 else lo - padding); mx0 = hi + padding;
          mx = (if \<bar>mx0 - mn\<bar> < 1 / 10 ^ 9 then mn + 1 else mx0)
      in \<lparr>gm_left = 56, gm_top = 14, gm_width = 292, gm_height = 142,
          gm_min_stamp = list_min (map pt_stamp ps), gm_max_stamp = list_max (map pt_stamp ps),
          gm_min_value = mn, gm_max_value = mx\<rparr>)"

definition x_scale :: "geometry \<Rightarrow> rat \<Rightarrow> rat" where
  "x_scale g t =
     (if gm_min_stamp g = gm_max_stamp g then gm_left g + gm_width g / 2
      else gm_left g + (t - gm_min_stamp g) / max 1 (gm_max_stamp g - gm_min_stamp g) * gm_width g)"

definition y_scale :: "geometry \<Rightarrow> rat \<Rightarrow> rat" where
  "y_scale g v = gm_top g + gm_height g
     - (v - gm_min_value g) / max (1 / 10 ^ 9) (gm_max_value g - gm_min_value g) * gm_height g"

definition chart_coordinates :: "chart_point list \<Rightarrow> (rat \<times> rat) list" where
  "chart_coordinates ps = (let g = chart_geometry ps in map (\<lambda>p. (x_scale g (pt_stamp p), y_scale g (pt_value p))) ps)"

definition numeric_ticks :: "rat \<Rightarrow> rat \<Rightarrow> rat list" where
  "numeric_ticks mn mx = (if \<bar>mx - mn\<bar> < 1 / 10 ^ 9 then [mx, mn, mn] else [mx, (mx + mn) / 2, mn])"

definition time_ticks :: "rat \<Rightarrow> rat \<Rightarrow> rat list" where
  "time_ticks mn mx =
     (if mn = mx then [mn]
      else let mid = mn + (mx - mn) / 2
           in [mn] @ (if \<bar>mid - mn\<bar> > 60000 then [mid] else []) @ (if \<bar>mx - mid\<bar> > 60000 then [mx] else []))"

definition line_path :: "(rat \<times> rat) list \<Rightarrow> string" where
  "line_path cs = join '' '' (map (\<lambda>(i, x, y). (if i = 0 then ''M '' else ''L '') @ to_fixed 2 (Fin x) @ '' '' @ to_fixed 2 (Fin y))
     (enumerate (0 :: nat) cs))"

definition area_path :: "(rat \<times> rat) list \<Rightarrow> string" where
  "area_path cs = line_path cs @ '' L '' @ to_fixed 2 (Fin (fst (last cs))) @ '' 156.00 L ''
     @ to_fixed 2 (Fin (fst (hd cs))) @ '' 156.00 Z''"

section \<open>The model of a chart and the chart of every metric\<close>

record chart_model =
  cm_geometry :: geometry
  cm_coordinates :: "(rat \<times> rat) list"
  cm_line :: string
  cm_area :: string
  cm_yticks :: "rat list"
  cm_xticks :: "rat list"
  cm_gradient :: string

text \<open>
  The variables in scope where the gradient's name is built: the function has no \<open>palette\<close>, which is a
  parameter of its callers only.
\<close>

definition scope_lookup :: "(string \<times> 'v) list \<Rightarrow> string \<Rightarrow> chart_error + 'v" where
  "scope_lookup scope x = (case map_of scope x of Some v \<Rightarrow> Inr v | None \<Rightarrow> Inl (ReferenceError x))"

definition bind_sum :: "'e + 'a \<Rightarrow> ('a \<Rightarrow> 'e + 'b) \<Rightarrow> 'e + 'b" where
  "bind_sum r f = (case r of Inl e \<Rightarrow> Inl e | Inr a \<Rightarrow> f a)"

definition chart_model_of :: "(string \<times> string) list \<Rightarrow> (string \<Rightarrow> int option) \<Rightarrow> js list \<Rightarrow> string \<Rightarrow> chart_error + chart_model option" where
  "chart_model_of scope parse points mode =
     (let ps = chart_points parse points mode in
      if ps = [] then Inr None
      else let g = chart_geometry ps; cs = chart_coordinates ps
           in bind_sum (scope_lookup scope ''palette'') (\<lambda>stroke.
                Inr (Some \<lparr>cm_geometry = g, cm_coordinates = cs, cm_line = line_path cs, cm_area = area_path cs,
                  cm_yticks = numeric_ticks (gm_min_value g) (gm_max_value g),
                  cm_xticks = time_ticks (gm_min_stamp g) (gm_max_stamp g),
                  cm_gradient = ''chart-fill-'' @ str_of_rat (gm_min_stamp g) @ ''-'' @ str_of_rat (gm_max_stamp g) @ ''-''
                    @ str_of_nat (length ps) @ ''-'' @ mode @ ''-'' @ filter is_alnum stroke\<rparr>)))"

definition build_chart_model :: "(string \<Rightarrow> int option) \<Rightarrow> js list \<Rightarrow> string \<Rightarrow> chart_error + chart_model option" where
  "build_chart_model = chart_model_of []"

definition metric_mode :: "widget \<Rightarrow> string \<Rightarrow> string \<Rightarrow> string \<Rightarrow> string" where
  "metric_mode w vis panel name =
     (case map_of (cw_modes w) (vis @ '':'' @ panel @ '':'' @ name) of
        Some m \<Rightarrow> (if truthy m then js_string m else ''avg'') | None \<Rightarrow> ''avg'')"

definition set_metric_mode :: "string \<Rightarrow> string \<Rightarrow> string \<Rightarrow> string \<Rightarrow> widget \<Rightarrow> widget" where
  "set_metric_mode vis panel name mode w =
     w\<lparr>cw_modes := AList.update (vis @ '':'' @ panel @ '':'' @ name) (JStr mode) (cw_modes w)\<rparr>"

fun all_results :: "('e + 'a) list \<Rightarrow> 'e + 'a list" where
  "all_results [] = Inr []"
| "all_results (r # rs) = bind_sum r (\<lambda>a. bind_sum (all_results rs) (\<lambda>as. Inr (a # as)))"

definition metric_chart :: "(string \<Rightarrow> int option) \<Rightarrow> widget \<Rightarrow> string \<Rightarrow> string \<Rightarrow> js \<Rightarrow> chart_error + chart_model option" where
  "metric_chart parse w vis panel metric =
     build_chart_model parse (elements (field metric ''points'')) (metric_mode w vis panel (text_or_empty (field metric ''name'')))"

definition panel_key :: "nat \<Rightarrow> js \<Rightarrow> string" where
  "panel_key i panel = (if truthy (field panel ''panel_key'') then js_string (field panel ''panel_key'') else ''panel-'' @ str_of_nat i)"

definition panel_charts :: "(string \<Rightarrow> int option) \<Rightarrow> widget \<Rightarrow> string \<Rightarrow> nat \<Rightarrow> js \<Rightarrow> chart_error + chart_model option list" where
  "panel_charts parse w vis i panel =
     all_results (map (metric_chart parse w vis (panel_key i panel)) (elements (field panel ''metrics'')))"

definition visualization_charts :: "(string \<Rightarrow> int option) \<Rightarrow> widget \<Rightarrow> string \<Rightarrow> js \<Rightarrow> chart_error + chart_model option list list" where
  "visualization_charts parse w vis v =
     all_results (map (\<lambda>(i, panel). panel_charts parse w vis i panel) (enumerate 0 (elements (field v ''panels''))))"

definition find_metric :: "widget \<Rightarrow> js \<Rightarrow> string \<Rightarrow> string \<Rightarrow> (js \<times> js) option" where
  "find_metric w vis panel name =
     (case map_of (cw_visuals w) vis of
        None \<Rightarrow> None
      | Some st \<Rightarrow>
          (case List.find (\<lambda>x. text_or_empty (field x ''panel_key'') = panel) (elements (field (field st ''visualization'') ''panels'')) of
             None \<Rightarrow> None
           | Some p \<Rightarrow> map_option (Pair p) (List.find (\<lambda>m. text_or_empty (field m ''name'') = name) (elements (field p ''metrics'')))))"

text \<open>The point under the pointer: the first nearest one.\<close>

definition nearest_point :: "rat \<Rightarrow> (rat \<times> rat) list \<Rightarrow> rat \<times> rat" where
  "nearest_point x cs =
     fst (foldl (\<lambda>(b, d) c. if \<bar>fst c - x\<bar> < d then (c, \<bar>fst c - x\<bar>) else (b, d)) (hd cs, \<bar>fst (hd cs) - x\<bar>) (tl cs))"

section \<open>Points lie in the drawing\<close>

lemma foldl_min_le: "foldl min a xs \<le> a" "x \<in> set xs \<Longrightarrow> foldl min a xs \<le> x" for a x :: rat
proof (induction xs arbitrary: a)
  case (Cons y ys)
  { case 1 show ?case using Cons(1) [of "min a y"] by simp }
  { case 2 then show ?case using Cons(1) [of "min a y"] Cons(2) [of "min a y"] by auto }
qed simp_all

lemma foldl_max_ge: "a \<le> foldl max a xs" "x \<in> set xs \<Longrightarrow> x \<le> foldl max a xs" for a x :: rat
proof (induction xs arbitrary: a)
  case (Cons y ys)
  { case 1 show ?case using Cons(1) [of "max a y"] by simp }
  { case 2 then show ?case using Cons(1) [of "max a y"] Cons(2) [of "max a y"] by auto }
qed simp_all

lemma list_min_le: "x \<in> set xs \<Longrightarrow> list_min xs \<le> x"
  by (cases xs) (auto simp: list_min_def foldl_min_le)

lemma list_max_ge: "x \<in> set xs \<Longrightarrow> x \<le> list_max xs"
  by (cases xs) (auto simp: list_max_def foldl_max_ge)

lemma scaled_between:
  fixes v mn mx e h :: rat
  assumes "mn \<le> v" and "v \<le> mx" and "0 < e" and "0 \<le> h"
  shows "0 \<le> (v - mn) / max e (mx - mn) * h \<and> (v - mn) / max e (mx - mn) * h \<le> h"
proof -
  let ?q = "(v - mn) / max e (mx - mn)"
  have d: "0 < max e (mx - mn)" using assms(3) by simp
  have "0 \<le> ?q" using d assms(1) by simp
  moreover have "?q \<le> 1" using d assms(2) by (simp add: divide_le_eq le_max_iff_disj)
  ultimately have "0 \<le> ?q * h" "?q * h \<le> h"
    using assms(4) mult_left_le_one_le [of h ?q] by (simp_all only: mult_nonneg_nonneg)
  then show ?thesis ..
qed

lemma geometry_covers:
  assumes "p \<in> set ps"
  shows "gm_min_value (chart_geometry ps) \<le> pt_value p" and "pt_value p \<le> gm_max_value (chart_geometry ps)"
    and "gm_min_stamp (chart_geometry ps) \<le> pt_stamp p" and "pt_stamp p \<le> gm_max_stamp (chart_geometry ps)"
proof -
  let ?lo = "list_min (map pt_value ps)" and ?hi = "list_max (map pt_value ps)"
  have v: "?lo \<le> pt_value p" "pt_value p \<le> ?hi" using assms by (auto intro: list_min_le list_max_ge)
  define d where "d = (if ?hi - ?lo > 0 then (?hi - ?lo) * 8 / 100 else max (\<bar>?hi\<bar> * 8 / 100) 1)"
  have pad: "0 < d"
  proof (cases "?hi - ?lo > 0")
    case True
    then show ?thesis unfolding d_def by simp
  next
    case False
    have "1 \<le> max (\<bar>?hi\<bar> * 8 / 100) 1" by (rule max.cobounded2)
    then show ?thesis unfolding d_def if_not_P [OF False] by linarith
  qed
  define mn where "mn = (if ?lo \<ge> 0 \<and> ?lo - d < 0 then 0 else ?lo - d)"
  have g: "gm_min_value (chart_geometry ps) = mn"
    "gm_max_value (chart_geometry ps) = (if \<bar>?hi + d - mn\<bar> < 1 / 10 ^ 9 then mn + 1 else ?hi + d)"
    unfolding chart_geometry_def Let_def mn_def d_def geometry.select_convs by (rule refl)+
  have mn: "mn \<le> ?lo" unfolding mn_def using pad by simp
  show "gm_min_value (chart_geometry ps) \<le> pt_value p" using g(1) mn v by linarith
  have "?hi + d < mn + 1" if "\<bar>?hi + d - mn\<bar> < 1 / 10 ^ 9"
  proof -
    have "(1 :: rat) / 10 ^ 9 < 1" by simp
    with that show ?thesis by linarith
  qed
  then have "?hi \<le> gm_max_value (chart_geometry ps)" unfolding g(2) using pad by (cases "\<bar>?hi + d - mn\<bar> < 1 / 10 ^ 9") simp_all
  with v(2) show "pt_value p \<le> gm_max_value (chart_geometry ps)" by (rule order_trans)
  show "gm_min_stamp (chart_geometry ps) \<le> pt_stamp p" "pt_stamp p \<le> gm_max_stamp (chart_geometry ps)"
    unfolding chart_geometry_def Let_def geometry.select_convs using assms by (auto intro: list_min_le list_max_ge)
qed

text \<open>
  Every point of a chart is drawn inside its frame, for any values and times: the x coordinate between the
  left margin and the right edge, the y coordinate between the top margin and the axis.
\<close>

theorem chart_points_inside:
  "list_all (\<lambda>(x, y). 56 \<le> x \<and> x \<le> 348 \<and> 14 \<le> y \<and> y \<le> 156) (chart_coordinates ps)"
proof -
  let ?g = "chart_geometry ps"
  have f: "gm_left ?g = 56" "gm_top ?g = 14" "gm_width ?g = 292" "gm_height ?g = 142"
    unfolding chart_geometry_def Let_def geometry.select_convs by (rule refl)+
  have "56 \<le> x_scale ?g (pt_stamp p) \<and> x_scale ?g (pt_stamp p) \<le> 348
      \<and> 14 \<le> y_scale ?g (pt_value p) \<and> y_scale ?g (pt_value p) \<le> 156" if "p \<in> set ps" for p
    using scaled_between [OF geometry_covers(1,2) [OF that], of "1 / 10 ^ 9" 142]
      scaled_between [OF geometry_covers(3,4) [OF that], of 1 292]
    by (auto simp: x_scale_def y_scale_def f)
  then show ?thesis by (auto simp: chart_coordinates_def Let_def list_all_iff)
qed

section \<open>No chart is ever drawn\<close>

lemma build_fails: "chart_points parse points mode \<noteq> [] \<Longrightarrow> build_chart_model parse points mode = Inl (ReferenceError ''palette'')"
  by (simp add: build_chart_model_def chart_model_of_def scope_lookup_def bind_sum_def Let_def)

lemma all_results_fail:
  assumes "Inl e \<in> set rs" and "\<And>e'. Inl e' \<in> set rs \<Longrightarrow> e' = e"
  shows "all_results rs = Inl e"
  using assms
proof (induction rs)
  case (Cons a rs)
  show ?case
  proof (cases a)
    case (Inl e')
    with Cons.prems(2) [of e'] show ?thesis by (simp add: bind_sum_def)
  next
    case (Inr x)
    then have "Inl e \<in> set rs" using Cons.prems(1) by simp
    moreover have "e' = e" if "Inl e' \<in> set rs" for e' using Cons.prems(2) that by simp
    ultimately have "all_results rs = Inl e" by (rule Cons.IH)
    with Inr show ?thesis by (simp add: bind_sum_def)
  qed
qed simp

lemma build_error: "build_chart_model parse points mode = Inl e \<Longrightarrow> e = ReferenceError ''palette''"
  by (auto simp: build_chart_model_def chart_model_of_def scope_lookup_def bind_sum_def Let_def split: if_splits)

lemma all_results_error: "all_results rs = Inl e \<Longrightarrow> Inl e \<in> set rs"
  by (induction rs) (auto simp: bind_sum_def split: sum.splits)

lemma panel_error: "panel_charts parse w vis i panel = Inl e \<Longrightarrow> e = ReferenceError ''palette''"
proof -
  assume "panel_charts parse w vis i panel = Inl e"
  then obtain m where "metric_chart parse w vis (panel_key i panel) m = Inl e"
    unfolding panel_charts_def by (auto dest!: all_results_error)
  then show ?thesis unfolding metric_chart_def by (rule build_error)
qed

text \<open>
  A visualization with data is never drawn: as soon as one metric of one panel has a point with a time and a
  value, building its charts throws a reference error, because the chart's model names a palette that only
  its callers have.
\<close>

theorem visualization_with_data_throws:
  assumes "panel \<in> set (elements (field v ''panels''))" and "metric \<in> set (elements (field panel ''metrics''))"
    and "\<And>mode. chart_points parse (elements (field metric ''points'')) mode \<noteq> []"
  shows "visualization_charts parse w vis v = Inl (ReferenceError ''palette'')"
proof -
  obtain i where i: "i < length (elements (field v ''panels''))" "elements (field v ''panels'') ! i = panel"
    using assms(1) by (auto simp: in_set_conv_nth)
  have "metric_chart parse w vis (panel_key i panel) metric = Inl (ReferenceError ''palette'')"
    using build_fails [OF assms(3)] by (simp add: metric_chart_def)
  then have "Inl (ReferenceError ''palette'') \<in> set (map (metric_chart parse w vis (panel_key i panel)) (elements (field panel ''metrics'')))"
    using assms(2) by (metis image_eqI list.set_map)
  moreover have "e = ReferenceError ''palette''"
    if "Inl e \<in> set (map (metric_chart parse w vis (panel_key i panel)) (elements (field panel ''metrics'')))" for e
  proof -
    from that obtain m where "metric_chart parse w vis (panel_key i panel) m = Inl e" by (metis (no_types) ex_map_conv)
    then show ?thesis unfolding metric_chart_def by (rule build_error)
  qed
  ultimately have "panel_charts parse w vis i panel = Inl (ReferenceError ''palette'')"
    unfolding panel_charts_def by (rule all_results_fail)
  moreover have "(i, panel) \<in> set (enumerate 0 (elements (field v ''panels'')))"
    using i by (auto simp: in_set_enumerate_eq)
  ultimately have m: "Inl (ReferenceError ''palette'')
      \<in> set (map (\<lambda>(i, panel). panel_charts parse w vis i panel) (enumerate 0 (elements (field v ''panels''))))"
    by (metis (no_types, lifting) case_prod_conv image_eqI list.set_map)
  have "e = ReferenceError ''palette''"
    if "Inl e \<in> set (map (\<lambda>(i, panel). panel_charts parse w vis i panel) (enumerate 0 (elements (field v ''panels''))))" for e
  proof -
    from that obtain j x where "panel_charts parse w vis j x = Inl e" by auto
    then show ?thesis by (rule panel_error)
  qed
  with m show ?thesis unfolding visualization_charts_def by (rule all_results_fail)
qed

theorem visualization_with_data_throws_witness:
  "visualization_charts (\<lambda>s. Some 1000) init_widget ''v''
     (JObj [(''panels'', JArr [JObj [(''metrics'', JArr [JObj [(''points'',
        JArr [JObj [(''time'', JStr ''2024-01-01''), (''avg'', JInt 3)]])]])]])]) = Inl (ReferenceError ''palette'')"
proof -
  have v: "\<exists>y. metric_point_value (JObj [(''time'', JStr ''2024-01-01''), (''avg'', JInt 3)]) mode = Some y" for mode
    by (simp add: metric_point_value_def split: option.split) (metis finite_num.simps option.exhaust first_some.simps)
  have c: "chart_points (\<lambda>s. Some 1000) [JObj [(''time'', JStr ''2024-01-01''), (''avg'', JInt 3)]] mode \<noteq> []" for mode
  proof -
    from v [of mode] obtain y where "metric_point_value (JObj [(''time'', JStr ''2024-01-01''), (''avg'', JInt 3)]) mode = Some y" by blast
    then show ?thesis by (simp add: chart_points_def List.map_filter_def point_stamp_def)
  qed
  show ?thesis
    by (rule visualization_with_data_throws
        [of "JObj [(''metrics'', JArr [JObj [(''points'', JArr [JObj [(''time'', JStr ''2024-01-01''), (''avg'', JInt 3)]])]])]" _
            "JObj [(''points'', JArr [JObj [(''time'', JStr ''2024-01-01''), (''avg'', JInt 3)]])]"])
       (simp_all add: c [unfolded of_int_numeral])
qed

section \<open>The pointer\<close>

lemma nearest_fold:
  "\<bar>fst b - x\<bar> = d \<Longrightarrow> foldl (\<lambda>(b, d) c. if \<bar>fst c - x\<bar> < d then (c, \<bar>fst c - x\<bar>) else (b, d)) (b, d) cs = (b', d') \<Longrightarrow>
     (b' = b \<or> b' \<in> set cs) \<and> \<bar>fst b' - x\<bar> = d' \<and> d' \<le> d \<and> list_all (\<lambda>c. d' \<le> \<bar>fst c - x\<bar>) cs" for x d :: rat
proof (induction cs arbitrary: b d)
  case (Cons c cs)
  show ?case
  proof (cases "\<bar>fst c - x\<bar> < d")
    case True
    with Cons.IH [of c "\<bar>fst c - x\<bar>"] Cons.prems show ?thesis by auto
  next
    case False
    with Cons.IH [OF Cons.prems(1)] Cons.prems show ?thesis by auto
  qed
qed simp

text \<open>The tooltip shows a point of the chart, and none is nearer to the pointer.\<close>

lemma nearest_point_minimal:
  assumes "cs \<noteq> []"
  shows "nearest_point x cs \<in> set cs \<and> list_all (\<lambda>c. \<bar>fst (nearest_point x cs) - x\<bar> \<le> \<bar>fst c - x\<bar>) cs"
proof -
  obtain b d where r: "foldl (\<lambda>(b, d) c. if \<bar>fst c - x\<bar> < d then (c, \<bar>fst c - x\<bar>) else (b, d))
      (hd cs, \<bar>fst (hd cs) - x\<bar>) (tl cs) = (b, d)" by (rule prod.exhaust)
  have n: "nearest_point x cs = b" by (simp add: nearest_point_def r)
  from nearest_fold [OF _ r] have f: "(b = hd cs \<or> b \<in> set (tl cs)) \<and> \<bar>fst b - x\<bar> = d \<and> d \<le> \<bar>fst (hd cs) - x\<bar>
      \<and> list_all (\<lambda>c. d \<le> \<bar>fst c - x\<bar>) (tl cs)" by blast
  have "set cs = insert (hd cs) (set (tl cs))" using assms by (cases cs) simp_all
  with f show ?thesis unfolding n list_all_iff by auto
qed

end
