(* ===== verification/DiagnosisChat.thy ===== *)
theory DiagnosisChat
  imports DiagnosisContext ChatWidget WsManager
begin

text \<open>
  \<^verbatim>\<open>frontend/js/pages/diagnosis.js\<close>, the chat itself: the current session and its WebSocket, the sessions that
  are streaming, the state kept to resume a stream, sending, the messages of the server, approvals, switching
  sessions and leaving the page. The page drives the widget of \<open>ChatWidget\<close> and sends through the manager of
  \<open>WsManager\<close>. An asynchronous method has one definition up to its \<open>await\<close> and one for what follows.
\<close>

section \<open>State\<close>

datatype chat_handler = OnOpen | OnMessage | OnError | OnClose

datatype page_effect =
    Toast string string
  | LoginAfterDelay
  | ReloadSessions
  | Draft string
  | Welcome
  | ShowTokens
  | HideTokens
  | LoadFailed string

record tokens =
  tk_input :: rat
  tk_output :: rat
  tk_total :: rat

record chat_page =
  cp_ws :: "chat_handler wsm option"
  cp_session :: js
  cp_model :: js
  cp_auth :: js
  cp_catalog :: js
  cp_models :: "js list"
  cp_usage :: tokens
  cp_resume :: "js option"
  cp_auto :: "(js \<times> string) option"
  cp_ask_sent :: bool
  cp_streaming :: "js list"
  cp_options :: js
  cp_datasources :: "js list"
  cp_datasource :: js
  cp_sessions :: "js list"
  cp_widget :: widget
  cp_log :: "page_effect list"

record chat_page_env =
  pe_page :: page_env
  pe_tr :: "string \<Rightarrow> (string \<times> js) list \<Rightarrow> string"
  pe_loc :: page_loc

definition no_tokens :: tokens where
  "no_tokens = \<lparr>tk_input = 0, tk_output = 0, tk_total = 0\<rparr>"

definition init_page :: chat_page where
  "init_page = \<lparr>cp_ws = None, cp_session = JNull, cp_model = JNull, cp_auth = JNull, cp_catalog = JNull,
     cp_models = [], cp_usage = no_tokens, cp_resume = None, cp_auto = None, cp_ask_sent = False,
     cp_streaming = [], cp_options = JNull, cp_datasources = [], cp_datasource = JNull, cp_sessions = [],
     cp_widget = init_widget, cp_log = []\<rparr>"

definition log :: "page_effect \<Rightarrow> chat_page \<Rightarrow> chat_page" where
  "log e p = p\<lparr>cp_log := cp_log p @ [e]\<rparr>"

definition on_widget :: "(widget \<Rightarrow> widget) \<Rightarrow> chat_page \<Rightarrow> chat_page" where
  "on_widget f p = p\<lparr>cp_widget := f (cp_widget p)\<rparr>"

definition num_or_zero :: "js \<Rightarrow> rat" where
  "num_or_zero v = (case v of JNum (Fin q) \<Rightarrow> q | _ \<Rightarrow> 0)"

definition find_id :: "js list \<Rightarrow> js \<Rightarrow> js option" where
  "find_id xs i = List.find (\<lambda>x. strict_eq (field x ''id'') i) xs"

definition or_null :: "js option \<Rightarrow> js" where
  "or_null v = (case v of Some x \<Rightarrow> js_or x JNull | None \<Rightarrow> JNull)"

section \<open>Which sessions are streaming\<close>

definition session_streaming :: "chat_page \<Rightarrow> js \<Rightarrow> bool" where
  "session_streaming p s \<longleftrightarrow> truthy s \<and> s \<in> set (cp_streaming p)"

definition sync_streaming :: "chat_page \<Rightarrow> chat_page" where
  "sync_streaming p = (let b = session_streaming p (cp_session p)
     in on_widget (\<lambda>w. w\<lparr>cw_streaming := b, cw_busy := b\<rparr>) p)"

definition mark_streaming :: "js \<Rightarrow> chat_page \<Rightarrow> chat_page" where
  "mark_streaming s p = (if \<not> truthy s then p else sync_streaming (p\<lparr>cp_streaming := List.insert s (cp_streaming p)\<rparr>))"

definition clear_streaming :: "js \<Rightarrow> chat_page \<Rightarrow> chat_page" where
  "clear_streaming s p = (if \<not> truthy s then p else sync_streaming (p\<lparr>cp_streaming := removeAll s (cp_streaming p)\<rparr>))"

section \<open>Tokens and models\<close>

definition session_tokens :: "chat_page \<Rightarrow> js \<Rightarrow> tokens" where
  "session_tokens p s =
     (let x = (case find_id (cp_sessions p) s of Some x \<Rightarrow> x | None \<Rightarrow> JUndef)
      in \<lparr>tk_input = num_or_zero (field x ''input_tokens''), tk_output = num_or_zero (field x ''output_tokens''),
          tk_total = num_or_zero (field x ''total_tokens'')\<rparr>)"

definition selected_model :: "chat_page \<Rightarrow> js" where
  "selected_model p =
     (if cp_models p = [] then JNull
      else if truthy (cp_model p) then or_null (find_id (cp_models p) (cp_model p))
      else (case List.find (\<lambda>m. truthy (field m ''is_default'')) (cp_models p) of
              Some m \<Rightarrow> m | None \<Rightarrow> js_or (hd (cp_models p)) JNull))"

text \<open>Context window, warning level and warning text.\<close>

definition token_status :: "chat_page_env \<Rightarrow> chat_page \<Rightarrow> js \<times> string \<times> string" where
  "token_status env p =
     (let window = js_or (field (selected_model p) ''context_window'') JNull in
      case window of
        JNum (Fin c) \<Rightarrow>
          (let rate = tk_total (cp_usage p) / c in
           if rate \<ge> 95 / 100 then (window, ''critical'', pe_tr env ''theContextIsCloseToTheUpper'' [])
           else if rate \<ge> 85 / 100 then (window, ''danger'', pe_tr env ''theContextIsVeryCloseToThe'' [])
           else if rate \<ge> 7 / 10 then (window, ''warning'', pe_tr env ''theUsageOfContextIsHighIt'' [])
           else (window, ''normal'', []))
      | _ \<Rightarrow> (window, ''normal'', []))"

section \<open>The state a stream is resumed from\<close>

definition fresh_resume :: js where
  "fresh_resume = JObj [(''content'', JStr []), (''thinking_phase'', JNull), (''thinking_message'', JStr []),
     (''render_segments'', JArr []), (''run_id'', JNull), (''status'', JStr ''partial'')]"

definition resume_of :: "chat_page \<Rightarrow> js" where
  "resume_of p = (case cp_resume p of Some r \<Rightarrow> r | None \<Rightarrow> JNull)"

definition remember_resume :: "(string \<times> js) list \<Rightarrow> chat_page \<Rightarrow> chat_page" where
  "remember_resume patch p =
     p\<lparr>cp_resume := Some (spread (case cp_resume p of Some r \<Rightarrow> r | None \<Rightarrow> fresh_resume) (JObj patch))\<rparr>"

definition run_id_patch :: "js \<Rightarrow> chat_page \<Rightarrow> string \<times> js" where
  "run_id_patch data p = (''run_id'', js_or (field data ''run_id'') (js_or (field (resume_of p) ''run_id'') JNull))"

definition apply_resume :: "chat_page_env \<Rightarrow> chat_page \<Rightarrow> chat_page" where
  "apply_resume env p =
     (case cp_resume p of
        None \<Rightarrow> p
      | Some st \<Rightarrow>
          (let content = text_or_empty (field st ''content''); segs = js_or (field st ''render_segments'') (JArr []);
               p1 = on_widget (resume_assistant (pe_page env) content segs) p;
               rendered = (trim content \<noteq> [] \<or> elements (field st ''render_segments'') \<noteq> [])
           in if truthy (field st ''thinking_phase'') \<or> truthy (field st ''thinking_message'')
              then on_widget (show_thinking (pe_page env) (js_or (field st ''thinking_phase'') (JStr ''llm_thinking''))
                     (js_or (field st ''thinking_message'') (JStr (pe_tr env ''aiGenerating'' [])))) p1
              else if \<not> rendered \<and> field st ''status'' \<noteq> JStr ''awaiting_approval''
              then on_widget (show_thinking (pe_page env) (JStr ''llm_thinking'') (JStr (pe_tr env ''aiGenerating'' []))) p1
              else on_widget hide_thinking p1))"

section \<open>Sending\<close>

definition socket_open :: "chat_page \<Rightarrow> bool" where
  "socket_open p = (case cp_ws p of
     Some m \<Rightarrow> (case ws_cur m of Some i \<Rightarrow> ws_socks m ! i = Open | None \<Rightarrow> False) | None \<Rightarrow> False)"

definition send_ws :: "js \<Rightarrow> chat_page \<Rightarrow> chat_page" where
  "send_ws v p = p\<lparr>cp_ws := map_option (ws_send (json_text v)) (cp_ws p)\<rparr>"

definition message_payload :: "chat_page \<Rightarrow> string \<Rightarrow> js list \<Rightarrow> js" where
  "message_payload p t attachments = JObj
     [(''message'', JStr t),
      (''datasource_id'', js_or (field (cp_datasource p) ''id'') JNull),
      (''host_id'', js_or (field (cp_options p) ''fixedHostId'') JNull),
      (''model_id'', cp_model p), (''attachments'', JArr attachments),
      (''skill_authorizations'', normalize_authorizations (cp_catalog p) (cp_auth p) [])]"

definition send_message :: "chat_page_env \<Rightarrow> string \<Rightarrow> js list \<Rightarrow> bool \<Rightarrow> chat_page \<Rightarrow> chat_page" where
  "send_message env t attachments suppress p =
     (if t = [] \<and> attachments = [] then p
      else if session_streaming p (cp_session p) then p
      else if cp_ws p = None \<or> \<not> truthy (cp_session p)
      then log (Toast ''warning'' (pe_tr env ''chat.noActiveSession'' [])) p
      else (let payload = message_payload p t attachments;
                p1 = (if suppress then log (Draft []) p
                      else on_widget (add_user_message (pe_page env) (JStr t) attachments True) p);
                p2 = mark_streaming (cp_session p1) (on_widget (start_assistant (pe_page env)) p1);
                p3 = p2\<lparr>cp_resume := Some fresh_resume\<rparr>
            in send_ws payload p3))"

definition flush_auto_ask :: "chat_page_env \<Rightarrow> chat_page \<Rightarrow> chat_page" where
  "flush_auto_ask env p =
     (case cp_auto p of
        None \<Rightarrow> p
      | Some (s, t) \<Rightarrow>
          if cp_ask_sent p \<or> \<not> strict_eq (cp_session p) s \<or> \<not> socket_open p then p
          else send_message env t [] (truthy (field (cp_options p) ''hideInitialAskMessage''))
                 (p\<lparr>cp_auto := None, cp_ask_sent := True\<rparr>))"

definition queue_initial_ask :: "chat_page_env \<Rightarrow> js \<Rightarrow> js list \<Rightarrow> chat_page \<Rightarrow> chat_page" where
  "queue_initial_ask env s msgs p =
     (let ask = field (cp_options p) ''initialAsk'' in
      if \<not> truthy (field (cp_options p) ''autoSendInitialAsk'') \<or> \<not> truthy ask \<or> cp_ask_sent p then p
      else if msgs \<noteq> [] then p\<lparr>cp_ask_sent := True\<rparr>
      else flush_auto_ask env (p\<lparr>cp_auto := Some (s, js_string ask)\<rparr>))"

text \<open>The first user message that is the initial question is hidden.\<close>

fun drop_first_prompt :: "string \<Rightarrow> js list \<Rightarrow> js list" where
  "drop_first_prompt prompt [] = []"
| "drop_first_prompt prompt (m # ms) =
     (if field m ''role'' = JStr ''user'' \<and> trim (text_or_empty (field m ''content'')) = prompt then ms
      else m # drop_first_prompt prompt ms)"

definition visible_messages :: "chat_page \<Rightarrow> js list \<Rightarrow> js list" where
  "visible_messages p msgs =
     (let prompt = trim (text_or_empty (field (cp_options p) ''initialAsk'')) in
      if \<not> truthy (field (cp_options p) ''hideInitialAskMessage'') \<or> prompt = [] then msgs
      else drop_first_prompt prompt msgs)"

section \<open>Messages of the server\<close>

definition indicator_shown :: "chat_page \<Rightarrow> bool" where
  "indicator_shown p \<longleftrightarrow> list_ex is_thinking (cw_entries (cp_widget p))"

definition show_or_update_thinking :: "chat_page_env \<Rightarrow> js \<Rightarrow> js \<Rightarrow> chat_page \<Rightarrow> chat_page" where
  "show_or_update_thinking env phase msg p =
     (if indicator_shown p then on_widget (update_thinking phase msg) p
      else on_widget (show_thinking (pe_page env) phase msg) p)"

definition thinking_patch :: "chat_page_env \<Rightarrow> js \<Rightarrow> chat_page \<Rightarrow> (string \<times> js) list" where
  "thinking_patch env data p =
     [(''thinking_phase'', js_or (field data ''phase'') (JStr ''llm_thinking'')),
      (''thinking_message'', js_or (field data ''message'') (JStr (pe_tr env ''thinkingAndAnalyzing'' []))),
      run_id_patch data p]"

definition quiet_patch :: "js \<Rightarrow> chat_page \<Rightarrow> (string \<times> js) list" where
  "quiet_patch data p = [(''thinking_phase'', JNull), (''thinking_message'', JStr []), run_id_patch data p]"

text \<open>Content and segments of the widget, kept for a resume; \<open>fallback\<close> is used when there is no content.\<close>

definition content_patch :: "js \<Rightarrow> js \<Rightarrow> string \<Rightarrow> chat_page \<Rightarrow> (string \<times> js) list" where
  "content_patch data status fallback p =
     [(''content'', JStr (if cw_content (cp_widget p) \<noteq> [] then cw_content (cp_widget p) else fallback)),
      (''render_segments'', JArr (clone_segments (cw_segs (cp_widget p)))),
      (''thinking_phase'', JNull), (''thinking_message'', JStr []), run_id_patch data p, (''status'', status)]"

definition resume_content :: "chat_page \<Rightarrow> string" where
  "resume_content p = text_or_empty (field (resume_of p) ''content'')"

text \<open>A tool message that finds no stream continues the pending answer.\<close>

definition resume_if_idle :: "chat_page_env \<Rightarrow> chat_page \<Rightarrow> chat_page" where
  "resume_if_idle env p =
     (if cw_streaming (cp_widget p) then p
      else on_widget (resume_assistant (pe_page env)
             (if resume_content p \<noteq> [] then resume_content p else cw_content (cp_widget p))
             (js_or (field (resume_of p) ''render_segments'') (JArr (clone_segments (cw_segs (cp_widget p)))))) p)"

definition pick_fields :: "string list \<Rightarrow> js \<Rightarrow> js" where
  "pick_fields ks data = JObj (map (\<lambda>k. (k, field data k)) ks)"

definition resolved_patch :: "chat_page_env \<Rightarrow> bool \<Rightarrow> js" where
  "resolved_patch env approved = JObj
     [(''status'', JStr (if approved then ''running'' else ''failed'')),
      (''summary'', JStr (pe_tr env (if approved then ''approvedExecuting'' else ''userHasRefusedExecution'') [])),
      (''metadata'', JObj [(''approval_status'', JStr (if approved then ''approving'' else ''rejected''))])]"

definition remove_approval_card :: "js \<Rightarrow> widget \<Rightarrow> widget" where
  "remove_approval_card a w = w\<lparr>cw_entries :=
     remove_first (\<lambda>e. case e of ApprovalEntry b d \<Rightarrow> js_string b = js_string a | _ \<Rightarrow> False) (cw_entries w)\<rparr>"

definition undef_to :: "js \<Rightarrow> js \<Rightarrow> js" where
  "undef_to d v = (if v = JUndef then d else v)"

definition handle_tool_call :: "chat_page_env \<Rightarrow> js \<Rightarrow> chat_page \<Rightarrow> chat_page" where
  "handle_tool_call env data p =
     (let p1 = on_widget hide_thinking (resume_if_idle env p);
          p2 = on_widget (add_tool_call (pe_page env) (field data ''tool_name'') (field data ''tool_args'')
                 (undef_to JNull (field data ''tool_call_id'')) (JObj [])) p1
      in remember_resume (content_patch data (JStr ''partial'') (resume_content p2) p2) p2)"

definition handle_tool_result :: "chat_page_env \<Rightarrow> js \<Rightarrow> chat_page \<Rightarrow> chat_page" where
  "handle_tool_result env data p =
     (let p1 = on_widget (add_tool_result (pe_page env) (field data ''tool_name'') (field data ''result'')
                 (undef_to JNull (field data ''execution_time_ms'')) (undef_to JNull (field data ''tool_call_id''))
                 (pick_fields [''skill_execution_id'', ''action_run_id'', ''action_title'', ''phase'', ''visualization''] data))
                 (resume_if_idle env p)
      in remember_resume (content_patch data (JStr ''partial'') (resume_content p1) p1) p1)"

definition handle_approval_request :: "chat_page_env \<Rightarrow> js \<Rightarrow> chat_page \<Rightarrow> chat_page" where
  "handle_approval_request env data p =
     (let p1 = on_widget hide_thinking (resume_if_idle env p);
          md = JObj ([(''approval_id'', field data ''approval_id''), (''approval_status'', JStr ''pending'')] @
                 obj_fields (pick_fields [''risk_level'', ''risk_reason'', ''action_run_id'', ''action_title'', ''phase''] data));
          p2 = on_widget (\<lambda>w. case add_tool_approval (pe_page env) (field data ''tool_name'') (field data ''tool_args'')
                   (undef_to JNull (field data ''tool_call_id'')) (text_or_empty (field data ''summary'')) md w of
                   Some w' \<Rightarrow> w' | None \<Rightarrow> w) p1;
          p3 = remember_resume (content_patch data (JStr ''awaiting_approval'') (resume_content p2) p2) p2
      in on_widget finish_assistant (clear_streaming (cp_session p3) p3))"

definition handle_stream_resuming :: "chat_page_env \<Rightarrow> js \<Rightarrow> chat_page \<Rightarrow> chat_page" where
  "handle_stream_resuming env data p =
     (let st = JObj
            [(''content'', js_or (field data ''content'') (JStr [])),
             (''thinking_phase'', js_or (field data ''thinking_phase'') JNull),
             (''thinking_message'', js_or (field data ''thinking_message'')
                (js_or (field data ''message'') (JStr (pe_tr env ''aiGenerating'' [])))),
             (''render_segments'', js_or (field data ''render_segments'') (JArr [])),
             (''run_id'', js_or (field data ''run_id'') JNull),
             (''status'', js_or (field data ''status'') (JStr ''partial''))];
          p1 = p\<lparr>cp_resume := Some st\<rparr>;
          p2 = (if field st ''status'' = JStr ''awaiting_approval'' then clear_streaming (cp_session p1) p1
                else mark_streaming (cp_session p1) p1)
      in apply_resume env p2)"

definition handle_usage :: "js \<Rightarrow> chat_page \<Rightarrow> chat_page" where
  "handle_usage data p =
     (let u = field data ''usage''; t = cp_usage p
      in log ShowTokens (p\<lparr>cp_usage := \<lparr>tk_input = tk_input t + num_or_zero (field u ''input_tokens''),
           tk_output = tk_output t + num_or_zero (field u ''output_tokens''),
           tk_total = tk_total t + num_or_zero (field u ''total_tokens'')\<rparr>\<rparr>))"

definition handle_done :: "chat_page \<Rightarrow> chat_page" where
  "handle_done p =
     (let p1 = clear_streaming (cp_session p) (on_widget finish_assistant p); p2 = p1\<lparr>cp_resume := None\<rparr>
      in if \<not> truthy (field (cp_options p) ''hideSessionSidebar'') \<and> \<not> truthy (field (cp_options p) ''autoCreateSession'')
         then log ReloadSessions p2 else p2)"

definition on_insights :: "(insights \<Rightarrow> insights) \<Rightarrow> chat_page \<Rightarrow> chat_page" where
  "on_insights f = on_widget (\<lambda>w. w\<lparr>cw_insights := f (cw_insights w)\<rparr>)"

definition handle_ws_message :: "chat_page_env \<Rightarrow> js \<Rightarrow> chat_page \<Rightarrow> chat_page" where
  "handle_ws_message env data p =
     (let kind = field data ''type'' in
      if kind = JStr ''thinking_start''
      then on_widget (show_thinking (pe_page env) (field data ''phase'') (field data ''message''))
             (remember_resume (thinking_patch env data p) p)
      else if kind = JStr ''thinking_phase''
      then show_or_update_thinking env (field data ''phase'') (field data ''message'')
             (remember_resume (thinking_patch env data p) p)
      else if kind = JStr ''thinking_complete''
      then on_widget hide_thinking (remember_resume (quiet_patch data p) p)
      else if kind = JStr ''plan_step_status''
      then (if field data ''status'' = JStr ''running''
            then (let msg = JStr (pe_tr env ''executing'' [] @ '' '' @ js_string (field data ''tool_name'') @ ''...'')
                  in show_or_update_thinking env (JStr ''tool_execution'') msg
                       (remember_resume [(''thinking_phase'', JStr ''tool_execution''), (''thinking_message'', msg), run_id_patch data p] p))
            else on_widget hide_thinking (remember_resume (quiet_patch data p) p))
      else if kind = JStr ''content''
      then (let p1 = on_widget (\<lambda>w. append_content (pe_page env) (field data ''content'') (hide_thinking w)) p
            in remember_resume (content_patch data (js_or (field data ''status'') (JStr ''partial''))
                 (resume_content p1 @ text_or_empty (field data ''content'')) p1) p1)
      else if kind = JStr ''tool_call'' then handle_tool_call env data p
      else if kind = JStr ''tool_result'' then handle_tool_result env data p
      else if kind = JStr ''diagnosis_state'' then on_insights (update_diagnosis_state data) p
      else if kind \<in> {JStr ''plan_created'', JStr ''knowledge_plan_created'', JStr ''knowledge_replanned''}
      then on_insights (update_diagnosis_plan data) p
      else if kind \<in> {JStr ''knowledge_unit_activated'', JStr ''kb_document_selected'', JStr ''kb_document_read''}
      then on_insights (add_knowledge_ref data) p
      else if kind = JStr ''diagnosis_conclusion'' then on_insights (update_diagnosis_conclusion data) p
      else if kind = JStr ''approval_request'' then handle_approval_request env data p
      else if kind = JStr ''confirmation_resolved''
      then on_widget (\<lambda>w. remove_approval_card (field data ''approval_id'')
             (snd (update_approval (pe_page env) (field data ''approval_id'')
                (resolved_patch env (field data ''action'' = JStr ''approved'')) w))) p
      else if kind = JStr ''usage'' then handle_usage data p
      else if kind = JStr ''done'' then handle_done p
      else if kind = JStr ''stream_resuming'' then handle_stream_resuming env data p
      else if kind = JStr ''cancel_ack'' then clear_streaming (cp_session p) p
      else if kind = JStr ''error''
      then (clear_streaming (cp_session p) (on_widget (show_error (pe_page env)
             (if nullish (field data ''content'') then [] else js_string (field data ''content''))) p))
             \<lparr>cp_resume := None\<rparr>
      else p)"

section \<open>Approvals\<close>

text \<open>The card of its own that a loaded request gets; a resolved one is shown and removed again.\<close>

definition show_approval :: "page_env \<Rightarrow> js \<Rightarrow> widget \<Rightarrow> widget" where
  "show_approval env data w =
     (if \<not> mounted w then w
      else (let w1 = finish_assistant w
            in auto_scroll env (w1\<lparr>cw_entries := cw_entries w1 @ [ApprovalEntry (field data ''approval_id'') False]\<rparr>)))"

definition on_approval_request :: "page_env \<Rightarrow> js \<Rightarrow> bool \<Rightarrow> widget \<Rightarrow> widget" where
  "on_approval_request env data resolved w =
     (let w1 = show_approval env data w
      in if resolved then remove_approval_card (field data ''approval_id'') w1 else w1)"

definition disable_card :: "js \<Rightarrow> bool \<Rightarrow> widget \<Rightarrow> widget" where
  "disable_card a d w = w\<lparr>cw_entries := map (\<lambda>e. case e of
     ApprovalEntry b d' \<Rightarrow> if js_string b = js_string a then ApprovalEntry b d else e | _ \<Rightarrow> e) (cw_entries w)\<rparr>"

definition waiting_patch :: "chat_page_env \<Rightarrow> js" where
  "waiting_patch env = JObj
     [(''status'', JStr ''waiting_approval''), (''summary'', JStr (pe_tr env ''skillStillAwaitingConfirmation'' [])),
      (''metadata'', JObj [(''approval_status'', JStr ''pending'')])]"

definition resolve_begin :: "chat_page_env \<Rightarrow> js \<Rightarrow> bool \<Rightarrow> chat_page \<Rightarrow> chat_page" where
  "resolve_begin env a approved p =
     (if \<not> truthy (cp_session p) then p
      else (let p1 = on_widget (\<lambda>w. snd (update_approval (pe_page env) a (resolved_patch env approved) (disable_card a True w))) p
            in if approved
               then on_widget (\<lambda>w. resume_assistant (pe_page env)
                      (if resume_content p1 \<noteq> [] then resume_content p1 else cw_content w)
                      (JArr (clone_segments (cw_segs w))) w) p1
               else p1))"

text \<open>The answer of the server: on failure the request waits again.\<close>

definition resolve_end :: "chat_page_env \<Rightarrow> js \<Rightarrow> string option \<Rightarrow> chat_page \<Rightarrow> chat_page" where
  "resolve_end env a failure p =
     (case failure of
        None \<Rightarrow> p
      | Some msg \<Rightarrow> on_widget (\<lambda>w. snd (update_approval (pe_page env) a (waiting_patch env) (disable_card a False w)))
            (log (Toast ''error'' (if msg \<noteq> [] then msg else pe_tr env ''common.requestFailed'' [])) p))"

section \<open>Switching sessions, the connection, leaving\<close>

definition restore_session :: "js \<Rightarrow> bool \<Rightarrow> chat_page \<Rightarrow> chat_page" where
  "restore_session s preserve p =
     (case find_id (cp_sessions p) s of
        None \<Rightarrow> p
      | Some x \<Rightarrow>
          if \<not> truthy x then p
          else (let fixed = field (cp_options p) ''fixedDatasourceId'';
                    ds = (if \<not> nullish fixed then or_null (find_id (cp_datasources p) fixed)
                          else if \<not> nullish (field x ''datasource_id'')
                          then or_null (find_id (cp_datasources p) (field x ''datasource_id'')) else JNull);
                    model = (if \<not> nullish (field x ''ai_model_id'') then field x ''ai_model_id''
                             else (case List.find (\<lambda>m. truthy (field m ''is_default'')) (cp_models p) of
                                     Some m \<Rightarrow> js_or (field m ''id'') JNull | None \<Rightarrow> JNull))
                in p\<lparr>cp_datasource := ds, cp_model := model,
                     cp_auth := (if preserve then cp_auth p else normalize_authorizations (cp_catalog p) JNull [])\<rparr>))"

definition connect_session :: "chat_page_env \<Rightarrow> js \<Rightarrow> chat_page \<Rightarrow> chat_page" where
  "connect_session env s p =
     p\<lparr>cp_ws := Some (ws_connect (pe_loc env)
        (ws_on ''close'' OnClose (ws_on ''error'' OnError (ws_on ''message'' OnMessage (ws_on ''open'' OnOpen
           (ws_new (''/ws/chat/'' @ js_string s)))))))\<rparr>"

definition switch_begin :: "chat_page_env \<Rightarrow> js \<Rightarrow> chat_page \<Rightarrow> chat_page" where
  "switch_begin env s p =
     (let switching = (\<not> strict_eq (cp_session p) s);
          p1 = sync_streaming (p\<lparr>cp_session := s\<rparr>);
          p2 = connect_session env s (restore_session s (\<not> switching) (p1\<lparr>cp_resume := None\<rparr>))
      in on_widget (\<lambda>w. load_messages (pe_page env) (Some (on_approval_request (pe_page env))) []
            (w\<lparr>cw_scroll := reset_scroll (cw_scroll w)\<rparr>)) p2)"

definition has_tool_history :: "js list \<Rightarrow> bool" where
  "has_tool_history msgs = list_ex (\<lambda>m. field m ''role'' \<in>
     {JStr ''tool_call'', JStr ''tool_result'', JStr ''approval_request'', JStr ''approval_response''}) msgs"

text \<open>The welcome page replaces the messages.\<close>

definition show_welcome :: "chat_page_env \<Rightarrow> chat_page \<Rightarrow> chat_page" where
  "show_welcome env p = log Welcome (on_widget (\<lambda>w.
     if mounted w then resume_scroll (pe_page env) (w\<lparr>cw_entries := [], cw_scroll := reset_scroll (cw_scroll w)\<rparr>) else w) p)"

text \<open>The messages and insights of the session \<open>s\<close> arrive.\<close>

definition switch_loaded :: "chat_page_env \<Rightarrow> js \<Rightarrow> js list \<Rightarrow> js \<Rightarrow> chat_page \<Rightarrow> chat_page" where
  "switch_loaded env s msgs found p =
     (let visible = visible_messages p msgs;
          p1 = log ShowTokens (p\<lparr>cp_usage := session_tokens p s\<rparr>);
          p2 = (if visible \<noteq> []
                then on_widget (load_messages (pe_page env) (Some (on_approval_request (pe_page env))) visible) p1
                else if truthy (field (cp_options p) ''autoSendInitialAsk'') then p1
                else show_welcome env p1);
          p3 = (if has_tool_history visible then p2 else on_widget reset_tool_panel p2);
          p4 = (if truthy found then on_insights (\<lambda>_. load_insights found) p3 else p3)
      in queue_initial_ask env s msgs (apply_resume env p4))"

definition switch_failed :: "chat_page_env \<Rightarrow> string \<Rightarrow> chat_page \<Rightarrow> chat_page" where
  "switch_failed env msg p =
     (let p1 = log (LoadFailed msg) (log (Toast ''error'' (if msg \<noteq> [] then msg else pe_tr env ''common.requestFailed'' [])) p)
      in on_widget (\<lambda>w. if mounted w
           then reset_tool_panel (resume_scroll (pe_page env) (w\<lparr>cw_entries := [], cw_scroll := reset_scroll (cw_scroll w)\<rparr>))
           else w) p1)"

text \<open>The socket closed; the manager counts and schedules by itself.\<close>

definition handle_ws_close :: "chat_page_env \<Rightarrow> int \<Rightarrow> string \<Rightarrow> chat_page \<Rightarrow> chat_page" where
  "handle_ws_close env code reason p =
     (if code = 1008 then log LoginAfterDelay (log (Toast ''error'' (pe_tr env ''auth.sessionExpired'' [])) p)
      else if code = 1000 \<or> code = 1001 then p
      else if (case cp_ws p of Some m \<Rightarrow> ws_should m | None \<Rightarrow> False)
      then (let msg = ''Chat connection lost (code '' @ str_of_int code @ ''): ''
                  @ (if reason \<noteq> [] then reason else ''Unknown error'') @ ''. Please refresh the page.''
            in log (Toast ''error'' msg) (on_widget (show_error (pe_page env) msg) p))
      else p)"

definition stop_generation :: "chat_page_env \<Rightarrow> chat_page \<Rightarrow> chat_page" where
  "stop_generation env p =
     (let p1 = send_ws (JObj [(''type'', JStr ''cancel'')]) p
      in log (Toast ''info'' (pe_tr env ''chat.generationStopped'' []))
           (on_widget finish_assistant (clear_streaming (cp_session p1) p1)))"

text \<open>The session was cleared on the server, deleted, or the page is left.\<close>

definition session_cleared :: "chat_page_env \<Rightarrow> chat_page \<Rightarrow> chat_page" where
  "session_cleared env p =
     log (Toast ''success'' (pe_tr env ''chat.sessionCleared'' [])) (log ReloadSessions
       (show_welcome env (on_widget reset_tool_panel (log HideTokens (p\<lparr>cp_usage := no_tokens\<rparr>)))))"

definition session_deleted :: "chat_page_env \<Rightarrow> js \<Rightarrow> chat_page \<Rightarrow> chat_page" where
  "session_deleted env s p =
     log (Toast ''success'' (pe_tr env ''chat.sessionDeleted'' []))
       (log ReloadSessions (if strict_eq (cp_session p) s then p\<lparr>cp_session := JNull\<rparr> else p))"

definition cleanup_page :: "chat_page \<Rightarrow> chat_page" where
  "cleanup_page p = p\<lparr>cp_ws := None, cp_session := JNull, cp_auto := None, cp_ask_sent := False,
     cp_streaming := [], cp_options := JNull\<rparr>"

section \<open>Laws\<close>

lemma page_frames [simp]:
  "cp_widget (log e p) = cp_widget p" "cp_session (log e p) = cp_session p" "cp_streaming (log e p) = cp_streaming p"
  "cp_ws (log e p) = cp_ws p" "cp_resume (log e p) = cp_resume p" "cp_auto (log e p) = cp_auto p"
  "cp_ask_sent (log e p) = cp_ask_sent p" "cp_options (log e p) = cp_options p"
  "cp_widget (on_widget f p) = f (cp_widget p)" "cp_session (on_widget f p) = cp_session p"
  "cp_streaming (on_widget f p) = cp_streaming p" "cp_ws (on_widget f p) = cp_ws p"
  "cp_resume (on_widget f p) = cp_resume p" "cp_auto (on_widget f p) = cp_auto p"
  "cp_ask_sent (on_widget f p) = cp_ask_sent p" "cp_options (on_widget f p) = cp_options p"
  by (simp_all add: log_def on_widget_def)

lemma streaming_cong: "cp_streaming p = cp_streaming q \<Longrightarrow> session_streaming p = session_streaming q"
  by (simp add: session_streaming_def fun_eq_iff)

lemma sync_frames [simp]:
  "cp_session (sync_streaming p) = cp_session p" "cp_streaming (sync_streaming p) = cp_streaming p"
  "cp_ws (sync_streaming p) = cp_ws p" "cp_resume (sync_streaming p) = cp_resume p"
  "cp_options (sync_streaming p) = cp_options p" "cp_auto (sync_streaming p) = cp_auto p"
  "cp_ask_sent (sync_streaming p) = cp_ask_sent p"
  "cw_busy (cp_widget (sync_streaming p)) = session_streaming p (cp_session p)"
  "cw_streaming (cp_widget (sync_streaming p)) = session_streaming p (cp_session p)"
  "cw_entries (cp_widget (sync_streaming p)) = cw_entries (cp_widget p)"
  "cw_scroll (cp_widget (sync_streaming p)) = cw_scroll (cp_widget p)"
  by (simp_all add: sync_streaming_def Let_def)

lemma mark_frames [simp]:
  "cp_session (mark_streaming s p) = cp_session p" "cp_ws (mark_streaming s p) = cp_ws p"
  "cp_resume (mark_streaming s p) = cp_resume p" "cp_options (mark_streaming s p) = cp_options p"
  "cp_auto (mark_streaming s p) = cp_auto p" "cp_ask_sent (mark_streaming s p) = cp_ask_sent p"
  by (simp_all add: mark_streaming_def)

lemma clear_frames [simp]:
  "cp_session (clear_streaming s p) = cp_session p" "cp_ws (clear_streaming s p) = cp_ws p"
  "cp_resume (clear_streaming s p) = cp_resume p" "cp_options (clear_streaming s p) = cp_options p"
  by (simp_all add: clear_streaming_def)

lemma mark_streams: "truthy s \<Longrightarrow> session_streaming (mark_streaming s p) s"
  by (simp add: mark_streaming_def session_streaming_def)

lemma clear_stops: "\<not> session_streaming (clear_streaming s p) s"
  by (simp add: clear_streaming_def session_streaming_def)

lemma mark_busy: "truthy s \<Longrightarrow> cp_session p = s \<Longrightarrow>
    cw_busy (cp_widget (mark_streaming s p)) \<and> cw_streaming (cp_widget (mark_streaming s p))"
  by (simp add: mark_streaming_def) (simp add: session_streaming_def)

lemma clear_idle: "truthy s \<Longrightarrow> cp_session p = s \<Longrightarrow>
    \<not> cw_busy (cp_widget (clear_streaming s p)) \<and> \<not> cw_streaming (cp_widget (clear_streaming s p))"
  by (simp add: clear_streaming_def) (simp add: session_streaming_def)

definition sent :: "chat_page \<Rightarrow> (nat \<times> string) list" where
  "sent p = (case cp_ws p of Some m \<Rightarrow> ws_sent m | None \<Rightarrow> [])"

lemma sent_ws: "sent (send_ws v p) = sent p @
   (if socket_open p then [(the (ws_cur (the (cp_ws p))), json_text v)] else [])"
  by (cases "cp_ws p") (simp_all add: sent_def send_ws_def socket_open_def ws_send_def split: option.split)

text \<open>What a send does, with its payload.\<close>

lemma send_message_effect:
  assumes "t \<noteq> [] \<or> attachments \<noteq> []" and "\<not> session_streaming p (cp_session p)" and "cp_ws p \<noteq> None"
    and "truthy (cp_session p)"
  shows "session_streaming (send_message env t attachments hid p) (cp_session p)"
    and "cp_session (send_message env t attachments hid p) = cp_session p"
    and "cw_busy (cp_widget (send_message env t attachments hid p))"
    and "sent (send_message env t attachments hid p) = sent p @
       (if socket_open p then [(the (ws_cur (the (cp_ws p))), json_text (message_payload p t attachments))] else [])"
proof -
  let ?p1 = "if hid then log (Draft []) p else on_widget (add_user_message (pe_page env) (JStr t) attachments True) p"
  let ?p2 = "mark_streaming (cp_session ?p1) (on_widget (start_assistant (pe_page env)) ?p1)"
  have e: "send_message env t attachments hid p = send_ws (message_payload p t attachments) (?p2\<lparr>cp_resume := Some fresh_resume\<rparr>)"
    using assms by (auto simp: send_message_def Let_def)
  have s1: "cp_session ?p1 = cp_session p" "cp_ws ?p2 = cp_ws p" by simp_all
  have c: "cp_streaming (send_ws v q) = cp_streaming q" "cp_session (send_ws v q) = cp_session q"
    "cp_widget (send_ws v q) = cp_widget q" for v q by (simp_all add: send_ws_def)
  have st: "session_streaming ?p2 (cp_session p)" "cw_busy (cp_widget ?p2)"
    using mark_streams [of "cp_session p"] mark_busy [of "cp_session p" "on_widget (start_assistant (pe_page env)) ?p1"] assms(4) s1
    by simp_all
  then show "session_streaming (send_message env t attachments hid p) (cp_session p)"
    unfolding e by (simp add: session_streaming_def c)
  show "cp_session (send_message env t attachments hid p) = cp_session p"
    unfolding e by (simp add: c)
  show "cw_busy (cp_widget (send_message env t attachments hid p))"
    unfolding e using st by (simp add: c)
  have o: "socket_open (?p2\<lparr>cp_resume := Some fresh_resume\<rparr>) = socket_open p"
    using s1(2) by (simp add: socket_open_def)
  show "sent (send_message env t attachments hid p) = sent p @
       (if socket_open p then [(the (ws_cur (the (cp_ws p))), json_text (message_payload p t attachments))] else [])"
    unfolding e sent_ws o using s1(2) by (simp add: sent_def)
qed

lemma send_blocked: "session_streaming p (cp_session p) \<Longrightarrow> send_message env t ats hid p = p"
  by (simp add: send_message_def)

text \<open>
  C3. One question, one message: a question of an idle session with an open socket sends exactly one message,
  the payload with the session's model, datasource and permissions, and blocks the input; asking again before
  the answer has ended sends nothing and changes nothing.
\<close>

theorem send_message_once:
  assumes "t \<noteq> [] \<or> attachments \<noteq> []" and "\<not> session_streaming p (cp_session p)" and "truthy (cp_session p)"
    and "socket_open p"
  shows "let p' = send_message env t attachments hid p in
     map snd (sent p') = map snd (sent p) @ [json_text (message_payload p t attachments)]
   \<and> session_streaming p' (cp_session p) \<and> cw_busy (cp_widget p')
   \<and> send_message env t2 attachments2 hid2 p' = p'"
proof -
  have ws: "cp_ws p \<noteq> None" using assms(4) by (auto simp: socket_open_def split: option.splits)
  note eff = send_message_effect [OF assms(1,2) ws assms(3), of env hid]
  show ?thesis
    using eff assms(4) send_blocked [of "send_message env t attachments hid p"] by (simp add: Let_def)
qed

definition demo_page_env :: chat_page_env where
  "demo_page_env = \<lparr>pe_page = demo_page, pe_tr = (\<lambda>k ps. k), pe_loc = \<lparr>pl_protocol = ''https:'', pl_host = ''h'', pl_locale = ''zh-CN''\<rparr>\<rparr>"

definition demo_chat :: chat_page where
  "demo_chat = init_page\<lparr>cp_session := JInt 5, cp_widget := demo_widget,
     cp_ws := Some ((ws_new ''/ws/chat/5'')\<lparr>ws_socks := [Open], ws_cur := Some 0\<rparr>)\<rparr>"

lemma demo_chat_ready: "\<not> session_streaming demo_chat (cp_session demo_chat)" "truthy (cp_session demo_chat)"
  "socket_open demo_chat" "cp_ws demo_chat \<noteq> None" "cp_session demo_chat = JInt 5"
  by (simp_all add: demo_chat_def session_streaming_def socket_open_def init_page_def)

theorem send_message_once_witness:
  "length (sent (send_message demo_page_env ''hi'' [] False demo_chat)) = 1"
proof -
  have "sent demo_chat = []" by (simp add: sent_def demo_chat_def ws_new_def)
  with send_message_once [of "''hi''" "[]" demo_chat demo_page_env False] demo_chat_ready show ?thesis
    by (metis append_Nil length_map list.map(1) list.size(3) list.size(4) list.distinct(1) One_nat_def plus_1_eq_Suc add.commute)
qed

text \<open>
  A question asked while the socket is not open is lost: nothing is sent, yet the question is shown, the
  session counts as streaming and the input is blocked; when the stream's timeout has shown its error and
  freed the input, every further question is still silently dropped.
\<close>

theorem question_lost_without_socket:
  assumes "t \<noteq> [] \<or> attachments \<noteq> []" and "\<not> session_streaming p (cp_session p)" and "truthy (cp_session p)"
    and "cp_ws p \<noteq> None" and "\<not> socket_open p"
  shows "let p1 = send_message env t attachments hid p; p2 = on_widget (stream_timeout (pe_page env)) p1 in
     sent p1 = sent p \<and> cw_busy (cp_widget p1)
   \<and> send_message env t2 attachments2 hid2 p2 = p2"
proof -
  note eff = send_message_effect [OF assms(1,2,4,3), of env hid]
  let ?p1 = "send_message env t attachments hid p"
  have "session_streaming (on_widget (stream_timeout (pe_page env)) ?p1) (cp_session ?p1)"
    using eff(1,2) by (simp add: session_streaming_def)
  then show ?thesis
    using eff assms(5) send_blocked [of "on_widget (stream_timeout (pe_page env)) ?p1"] by (simp add: Let_def)
qed

theorem question_lost_without_socket_witness:
  "sent (send_message demo_page_env ''hi'' [] False (demo_chat\<lparr>cp_ws := Some (ws_new ''/ws/chat/5'')\<rparr>)) = []"
proof -
  let ?p = "demo_chat\<lparr>cp_ws := Some (ws_new ''/ws/chat/5'')\<rparr>"
  have "\<not> session_streaming ?p (cp_session ?p)" "truthy (cp_session ?p)" "cp_ws ?p \<noteq> None" "\<not> socket_open ?p"
    by (simp_all add: demo_chat_def session_streaming_def socket_open_def init_page_def ws_new_def)
  from question_lost_without_socket [OF _ this, of "''hi''" "[]" demo_page_env False] show ?thesis
    by (simp add: sent_def ws_new_def Let_def)
qed

section \<open>The end of a run\<close>

lemma finish_idle [simp]: "\<not> cw_busy (finish_assistant w)" "\<not> cw_streaming (finish_assistant w)"
  by (simp_all add: finish_assistant_def hide_thinking_def Let_def)

lemma remember_frames [simp]:
  "cp_session (remember_resume ps p) = cp_session p" "cp_widget (remember_resume ps p) = cp_widget p"
  "cp_streaming (remember_resume ps p) = cp_streaming p" "cp_options (remember_resume ps p) = cp_options p"
  by (simp_all add: remember_resume_def)

lemma resume_idle_session [simp]: "cp_session (resume_if_idle env p) = cp_session p"
  by (simp add: resume_if_idle_def)

definition run_end :: "js \<Rightarrow> bool" where
  "run_end data \<longleftrightarrow> field data ''type'' \<in> {JStr ''done'', JStr ''error'', JStr ''cancel_ack'', JStr ''approval_request''}"

text \<open>
  C4. Every end of a run frees the chat: when the server says that a run is done, failed, was cancelled or
  waits for an approval, the session no longer counts as streaming and the input is free.
\<close>

theorem run_end_frees_input:
  assumes "run_end data" and "truthy (cp_session p)"
  shows "let p' = handle_ws_message env data p in
     \<not> session_streaming p' (cp_session p') \<and> \<not> cw_busy (cp_widget p') \<and> \<not> cw_streaming (cp_widget p')
   \<and> cp_session p' = cp_session p"
proof -
  consider "field data ''type'' = JStr ''done''" | "field data ''type'' = JStr ''error''"
    | "field data ''type'' = JStr ''cancel_ack''" | "field data ''type'' = JStr ''approval_request''"
    using assms(1) by (auto simp: run_end_def)
  then show ?thesis
  proof cases
    case 1
    then have e: "handle_ws_message env data p = handle_done p" by (simp add: handle_ws_message_def)
    let ?p1 = "clear_streaming (cp_session p) (on_widget finish_assistant p)"
    have s: "\<not> session_streaming ?p1 (cp_session p)" by (rule clear_stops)
    have w: "\<not> cw_busy (cp_widget ?p1) \<and> \<not> cw_streaming (cp_widget ?p1)" by (rule clear_idle) (simp_all add: assms(2))
    show ?thesis unfolding e
      using s w by (simp add: handle_done_def session_streaming_def Let_def)
  next
    case 2
    then obtain m where e: "handle_ws_message env data p
        = (clear_streaming (cp_session p) (on_widget (show_error (pe_page env) m) p))\<lparr>cp_resume := None\<rparr>"
      by (simp add: handle_ws_message_def)
    let ?p1 = "clear_streaming (cp_session p) (on_widget (show_error (pe_page env) m) p)"
    have s: "\<not> session_streaming ?p1 (cp_session p)" by (rule clear_stops)
    have w: "\<not> cw_busy (cp_widget ?p1) \<and> \<not> cw_streaming (cp_widget ?p1)" by (rule clear_idle) (simp_all add: assms(2))
    show ?thesis unfolding e using s w by (simp add: session_streaming_def)
  next
    case 3
    then have e: "handle_ws_message env data p = clear_streaming (cp_session p) p" by (simp add: handle_ws_message_def)
    show ?thesis unfolding e using clear_stops [of "cp_session p" p] clear_idle [OF assms(2), of p] by simp
  next
    case 4
    then have e: "handle_ws_message env data p = handle_approval_request env data p" by (simp add: handle_ws_message_def)
    show ?thesis unfolding e
      using clear_stops by (simp add: handle_approval_request_def session_streaming_def Let_def)
  qed
qed

theorem run_end_frees_input_witness:
  "\<not> cw_busy (cp_widget (handle_ws_message demo_page_env (JObj [(''type'', JStr ''done'')])
      (send_message demo_page_env ''hi'' [] False demo_chat)))"
proof -
  have "cp_session (send_message demo_page_env ''hi'' [] False demo_chat) = JInt 5"
    using send_message_effect(2) [of "''hi''" "[]" demo_chat demo_page_env False] demo_chat_ready by simp
  then have "truthy (cp_session (send_message demo_page_env ''hi'' [] False demo_chat))" by simp
  moreover have "run_end (JObj [(''type'', JStr ''done'')])" by (simp add: run_end_def)
  ultimately show ?thesis using run_end_frees_input by (metis (full_types))
qed

section \<open>The initial question\<close>

datatype ask_event = SocketOpened | HistoryLoaded js "js list"

fun ask_step :: "chat_page_env \<Rightarrow> chat_page \<Rightarrow> ask_event \<Rightarrow> chat_page" where
  "ask_step env p SocketOpened = flush_auto_ask env p"
| "ask_step env p (HistoryLoaded s msgs) = queue_initial_ask env s msgs p"

lemma sent_session: "length (sent (send_message env t ats hid p)) \<le> length (sent p) + 1"
proof (cases "(t \<noteq> [] \<or> ats \<noteq> []) \<and> \<not> session_streaming p (cp_session p) \<and> cp_ws p \<noteq> None \<and> truthy (cp_session p)")
  case True
  then show ?thesis using send_message_effect(4) [of t ats p env hid] by simp
next
  case False
  then have "send_message env t ats hid p = p \<or> (\<exists>e. send_message env t ats hid p = log e p)"
    by (auto simp: send_message_def)
  then show ?thesis by (auto simp: sent_def)
qed

lemma send_keeps_ask: "cp_ask_sent (send_message env t ats hid p) = cp_ask_sent p"
  by (simp add: send_message_def send_ws_def Let_def)

lemma flush_effect: "(cp_ask_sent (flush_auto_ask env p) \<and> \<not> cp_ask_sent p \<and> length (sent (flush_auto_ask env p)) \<le> length (sent p) + 1)
    \<or> flush_auto_ask env p = p"
proof (cases "cp_auto p")
  case (Some st)
  obtain s t where st: "st = (s, t)" by (cases st)
  show ?thesis
  proof (cases "cp_ask_sent p \<or> \<not> strict_eq (cp_session p) s \<or> \<not> socket_open p")
    case False
    then have "flush_auto_ask env p = send_message env t [] (truthy (field (cp_options p) ''hideInitialAskMessage''))
                 (p\<lparr>cp_auto := None, cp_ask_sent := True\<rparr>)" using Some st by (simp add: flush_auto_ask_def)
    moreover have "sent (p\<lparr>cp_auto := None, cp_ask_sent := True\<rparr>) = sent p" by (simp add: sent_def)
    ultimately show ?thesis using False sent_session [of env t "[]" _ "p\<lparr>cp_auto := None, cp_ask_sent := True\<rparr>"] send_keeps_ask
      by simp
  qed (simp add: flush_auto_ask_def Some st)
qed (simp add: flush_auto_ask_def)

lemma ask_step_effect:
  "if cp_ask_sent p then ask_step env p ev = p
   else sent (ask_step env p ev) = sent p
     \<or> (cp_ask_sent (ask_step env p ev) \<and> length (sent (ask_step env p ev)) \<le> length (sent p) + 1)"
proof (cases ev)
  case SocketOpened
  then show ?thesis using flush_effect [of env p] by auto
next
  case (HistoryLoaded s msgs)
  let ?p = "p\<lparr>cp_auto := Some (s, js_string (field (cp_options p) ''initialAsk''))\<rparr>"
  have "sent ?p = sent p" "cp_ask_sent ?p = cp_ask_sent p" by (simp_all add: sent_def)
  then show ?thesis using HistoryLoaded flush_effect [of env ?p]
    by (auto simp: queue_initial_ask_def Let_def sent_def)
qed


section \<open>Resuming a stream\<close>

lemma core_busy: "core w = (c, sg, b, tm, bz) \<Longrightarrow> cw_content w = c \<and> cw_segs w = sg \<and> cw_streaming w = b \<and> cw_timer w = tm \<and> cw_busy w = bz"
  by (simp add: core_def)

lemma apply_resume_core:
  assumes "cp_resume p = Some st" and "mounted (cp_widget p)"
  shows "core (cp_widget (apply_resume env p)) =
    (let content = text_or_empty (field st ''content'');
         norm = normalize_segments (js_or (field st ''render_segments'') (JArr [])) content
     in (if content \<noteq> [] then content else extract_text norm, norm, True, True, True))"
  using resume_core [OF assms(2)] by (simp add: apply_resume_def assms(1) Let_def)

lemma apply_resume_frames [simp]:
  "cp_session (apply_resume env p) = cp_session p" "cp_streaming (apply_resume env p) = cp_streaming p"
  "cp_resume (apply_resume env p) = cp_resume p" "cp_options (apply_resume env p) = cp_options p"
  "cp_ws (apply_resume env p) = cp_ws p"
  by (simp_all add: apply_resume_def Let_def split: option.split)

text \<open>
  A page that is opened again while a request waits for an approval locks its input: the resumed answer
  makes the widget stream and arms its timeout although the session is not streaming, so that the card with
  the approval is replaced by an error when the timeout fires; the same request arriving live frees the input.
\<close>

theorem awaiting_resume_locks_input:
  assumes "field data ''type'' = JStr ''stream_resuming''" and "field data ''status'' = JStr ''awaiting_approval''"
    and "mounted (cp_widget p)" and "truthy (cp_session p)"
  shows "let p' = handle_ws_message env data p in
     \<not> session_streaming p' (cp_session p') \<and> cw_busy (cp_widget p') \<and> cw_timer (cp_widget p')"
proof -
  have e: "handle_ws_message env data p = handle_stream_resuming env data p"
    using assms(1) by (simp add: handle_ws_message_def)
  obtain st p1 where h: "handle_stream_resuming env data p = apply_resume env (clear_streaming (cp_session p) p1)"
    and st: "cp_resume p1 = Some st" "cp_session p1 = cp_session p" "cp_widget p1 = cp_widget p"
    using assms(2) by (auto simp: handle_stream_resuming_def Let_def)
  have m: "mounted (cp_widget (clear_streaming (cp_session p) p1))"
    using assms(3) st(3) by (simp add: mounted_def clear_streaming_def)
  have r: "cp_resume (clear_streaming (cp_session p) p1) = Some st" using st(1) by simp
  have "cw_busy (cp_widget (apply_resume env (clear_streaming (cp_session p) p1)))"
    "cw_timer (cp_widget (apply_resume env (clear_streaming (cp_session p) p1)))"
    using core_busy [OF apply_resume_core [OF r m, of env, unfolded Let_def]] by simp_all
  moreover have "\<not> session_streaming (apply_resume env (clear_streaming (cp_session p) p1)) (cp_session p)"
    using clear_stops [of "cp_session p" p1] by (simp add: session_streaming_def)
  ultimately show ?thesis unfolding e h using st(2) by simp
qed

theorem awaiting_resume_locks_input_witness:
  "cw_busy (cp_widget (handle_ws_message demo_page_env
     (JObj [(''type'', JStr ''stream_resuming''), (''status'', JStr ''awaiting_approval'')]) demo_chat))"
proof -
  have "mounted (cp_widget demo_chat)" using demo_widget_ready by (simp add: demo_chat_def)
  from awaiting_resume_locks_input [OF _ _ this demo_chat_ready(2)] show ?thesis by (simp add: Let_def)
qed

section \<open>Switching sessions\<close>

lemma shown_finish: "list_all (\<lambda>a. \<not> an_streaming a) (fst (shown w)) \<Longrightarrow> shown (finish_assistant w) = shown w"
proof -
  assume "list_all (\<lambda>a. \<not> an_streaming a) (fst (shown w))"
  then have z: "streaming_count (cw_entries w) = 0" by (rule shown_quiet)
  have c: "change_streaming f es = es" if "streaming_count es = 0" for f es
    using that by (induction es) (auto simp: change_streaming_def split: if_splits)
  have t: "answers (remove_first is_thinking es) = answers es \<and> card_calls (remove_first is_thinking es) = card_calls es" for es
  proof (induction es)
    case (Cons e es)
    then show ?case by (cases e) (simp_all add: card_calls_def)
  qed simp
  show ?thesis using z t [of "cw_entries w"]
    by (simp add: finish_assistant_def hide_thinking_def shown_def c Let_def)
qed

lemma shown_remove_card: "shown (remove_approval_card a w) = shown w"
proof -
  let ?q = "\<lambda>e. case e of ApprovalEntry b d \<Rightarrow> js_string b = js_string a | _ \<Rightarrow> False"
  have "answers (remove_first ?q es) = answers es \<and> card_calls (remove_first ?q es) = card_calls es" for es
  proof (induction es)
    case (Cons e es)
    then show ?case by (cases e) (simp_all add: card_calls_def)
  qed simp
  then show ?thesis by (simp add: remove_approval_card_def shown_def)
qed

lemma shown_approval_entry: "shown (w\<lparr>cw_entries := cw_entries w @ [ApprovalEntry a d]\<rparr>) = shown w"
  by (simp add: shown_def card_calls_def)

lemma page_handler_keeps: "keeps_entries (Some (on_approval_request env))"
  by (simp add: keeps_entries_def on_approval_request_def show_approval_def shown_remove_card shown_finish
      shown_approval_entry Let_def)

lemma mounted_finish [simp]: "mounted (finish_assistant w) = mounted w"
  by (simp add: finish_assistant_def hide_thinking_def Let_def)

lemma mounted_handler: "mounted (on_approval_request env d r w) = mounted w"
  by (simp add: on_approval_request_def remove_approval_card_def show_approval_def Let_def)

lemma restore_frames [simp]:
  "cp_session (restore_session s b p) = cp_session p" "cp_streaming (restore_session s b p) = cp_streaming p"
  "cp_widget (restore_session s b p) = cp_widget p" "cp_resume (restore_session s b p) = cp_resume p"
  "cp_options (restore_session s b p) = cp_options p"
  by (simp_all add: restore_session_def Let_def split: option.split)

lemma connect_frames [simp]:
  "cp_session (connect_session env s p) = cp_session p" "cp_streaming (connect_session env s p) = cp_streaming p"
  "cp_widget (connect_session env s p) = cp_widget p" "cp_resume (connect_session env s p) = cp_resume p"
  "cp_options (connect_session env s p) = cp_options p" "cp_auth (connect_session env s p) = cp_auth p"
  by (simp_all add: connect_session_def)

lemma switch_frames [simp]:
  "cp_session (switch_begin env s p) = s" "cp_streaming (switch_begin env s p) = cp_streaming p"
  "cp_resume (switch_begin env s p) = None" "cp_options (switch_begin env s p) = cp_options p"
  by (simp_all add: switch_begin_def Let_def)

lemma switch_mounted: "mounted (cp_widget (switch_begin env s p)) = mounted (cp_widget p)"
proof -
  have "mounted (w\<lparr>cw_scroll := reset_scroll (cw_scroll w)\<rparr>) = mounted w" for w by (simp add: mounted_def scroll_defs)
  then show ?thesis by (simp add: switch_begin_def mounted_load mounted_handler Let_def) (simp add: mounted_def)
qed

definition session_known :: "js \<Rightarrow> chat_page \<Rightarrow> bool" where
  "session_known s p = (case find_id (cp_sessions p) s of Some x \<Rightarrow> truthy x | None \<Rightarrow> False)"

text \<open>
  C8. Switching shows the session it switches to: the messages of the old one are gone, the state kept to
  resume it is dropped, the input is blocked exactly if the new session counts as streaming, no session
  starts or stops streaming, and the permissions go back to their defaults when another session of the
  list is opened; a session that is not in the list keeps those of the previous one.
\<close>

theorem switch_session_state:
  "let p' = switch_begin env s p in
     cp_session p' = s \<and> cp_streaming p' = cp_streaming p \<and> cp_resume p' = None
   \<and> cw_busy (cp_widget p') = session_streaming p s
   \<and> (if mounted (cp_widget p) then cw_entries (cp_widget p') = [] else mounted (cp_widget p') = False)
   \<and> cp_auth p' = (if session_known s p \<and> \<not> strict_eq (cp_session p) s
                   then normalize_authorizations (cp_catalog p) JNull [] else cp_auth p)"
proof -
  have mm: "mounted (v\<lparr>cw_scroll := reset_scroll (cw_scroll (cp_widget p))\<rparr>) = mounted (cp_widget p)" for v
    by (simp add: mounted_def scroll_defs)
  have ss: "session_streaming (p\<lparr>cp_session := s\<rparr>) s = session_streaming p s" by (simp add: session_streaming_def)
  have b: "cw_busy (cp_widget (switch_begin env s p)) = session_streaming p s"
    by (simp add: switch_begin_def load_nothing ss Let_def)
  have e: "if mounted (cp_widget p) then cw_entries (cp_widget (switch_begin env s p)) = []
      else mounted (cp_widget (switch_begin env s p)) = False"
    using switch_mounted [of env s p] by (simp add: switch_begin_def load_nothing(1) mm Let_def)
  have "cp_auth (sync_streaming q) = cp_auth q" "cp_catalog (sync_streaming q) = cp_catalog q"
    "cp_sessions (sync_streaming q) = cp_sessions q" "cp_auth (on_widget f q) = cp_auth q" for q f
    by (simp_all add: sync_streaming_def on_widget_def Let_def)
  then have a: "cp_auth (switch_begin env s p) = (if session_known s p \<and> \<not> strict_eq (cp_session p) s
                   then normalize_authorizations (cp_catalog p) JNull [] else cp_auth p)"
    by (simp add: switch_begin_def restore_session_def session_known_def Let_def split: option.split)
  show ?thesis using a b e by (simp add: Let_def)
qed

text \<open>
  Late messages win over the current session: when the messages of the session left arrive after the
  switch to another one, the list shows the answers of the old session under the new one.
\<close>

theorem late_messages_shown_in_other_session:
  assumes "mounted (cp_widget p)" and "visible_messages p msgs = msgs" and "msgs \<noteq> []"
    and "\<not> truthy (field (cp_options p) ''autoSendInitialAsk'')"
  shows "let p' = switch_loaded env old msgs JNull (switch_begin env new (switch_begin env old p)) in
     cp_session p' = new
   \<and> answers (cw_entries (cp_widget p')) = map loaded_answer (filter is_assistant_msg msgs)"
proof -
  let ?q = "switch_begin env new (switch_begin env old p)"
  have v: "visible_messages ?q msgs = msgs" using assms(2) by (simp add: visible_messages_def)
  have v2: "visible_messages (log e (?q\<lparr>cp_usage := u\<rparr>)) msgs = msgs" for e u
    using v by (simp add: visible_messages_def)
  have m: "mounted (cp_widget ?q)" using assms(1) by (simp add: switch_mounted)
  let ?l = "load_messages (pe_page env) (Some (on_approval_request (pe_page env))) msgs (cp_widget ?q)"
  have l: "answers (cw_entries ?l) = map loaded_answer (filter is_assistant_msg msgs)"
    by (rule load_messages_shown [OF m page_handler_keeps])
  have r: "cw_entries (reset_tool_panel w) = cw_entries w" for w by (simp add: reset_tool_panel_def)
  show ?thesis
    using assms(3,4) v l r
    by (simp add: switch_loaded_def apply_resume_def queue_initial_ask_def Let_def)
qed

theorem late_messages_shown_in_other_session_witness:
  "let p' = switch_loaded demo_page_env (JInt 5) [JObj [(''role'', JStr ''assistant''), (''content'', JStr ''old'')]] JNull
       (switch_begin demo_page_env (JInt 6) (switch_begin demo_page_env (JInt 5) demo_chat)) in
   cp_session p' = JInt 6 \<and> map an_raw (answers (cw_entries (cp_widget p'))) = [''old'']"
proof -
  have m: "mounted (cp_widget demo_chat)" using demo_widget_ready by (simp add: demo_chat_def)
  have o: "cp_options demo_chat = JNull" by (simp add: demo_chat_def init_page_def)
  have v: "visible_messages demo_chat msgs = msgs" for msgs by (simp add: visible_messages_def o)
  from late_messages_shown_in_other_session [OF m v, of "[JObj [(''role'', JStr ''assistant''), (''content'', JStr ''old'')]]"
      demo_page_env "JInt 5" "JInt 6"]
  show ?thesis by (simp add: o is_assistant_msg_def loaded_answer_def Let_def)
qed

section \<open>Approvals\<close>

definition seg_metadata :: "js \<Rightarrow> js" where
  "seg_metadata seg = js_or (field seg ''metadata'') (JObj [])"

lemma spread_truthy [simp]: "truthy (spread a b)"
  by (simp add: spread_def)

lemma patched_fields:
  assumes "field patch ''status'' = JStr st" and "field patch ''summary'' = JStr sm"
    and "field patch ''metadata'' = JObj [(''approval_status'', v)]"
  shows "field (patch_one_approval a patch seg) ''status'' = JStr st"
    and "seg_metadata (patch_one_approval a patch seg) = spread (seg_metadata seg) (JObj [(''approval_status'', v)])"
    and "field (patch_one_approval a patch seg) ''type'' = field seg ''type''"
  using assms by (simp_all add: patch_one_approval_def seg_metadata_def Let_def)

lemma metadata_spread:
  "field (spread m (JObj [(''approval_status'', v)])) ''approval_status'' = v"
  "k \<noteq> ''approval_status'' \<Longrightarrow> field (spread m (JObj [(''approval_status'', v)])) k = field m k"
  by (simp_all add: field_spread has_field_def)

lemma approval_of_state:
  "ts_approval (tool_state_of env seg) = js_or (field (seg_metadata seg) ''approval_id'') JNull"
  "ts_risk_reason (tool_state_of env seg) = js_or (field (seg_metadata seg) ''risk_reason'') (JStr [])"
  "field seg ''status'' = JStr st \<Longrightarrow> st \<noteq> [] \<Longrightarrow> ts_class (tool_state_of env seg) = snd (status_view env (JStr st))"
  "truthy (field (seg_metadata seg) ''approval_status'') \<Longrightarrow>
     ts_approval_status (tool_state_of env seg) = field (seg_metadata seg) ''approval_status''"
  by (simp_all add: tool_state_of_def seg_metadata_def Let_def)

text \<open>
  C9. The card of an approval follows the decision: approving shows it as running, refusing as refused, and
  when the decision could not be delivered the same buttons, for the same approval and with the same reason,
  are there again.
\<close>

theorem approval_card_follows:
  assumes "has_approval a seg" and "truthy a"
  shows "approval_view_of (tool_state_of ce (patch_one_approval a (resolved_patch env True) seg)) = ApprovalRunning
    \<and> approval_view_of (tool_state_of ce (patch_one_approval a (resolved_patch env False) seg)) = ApprovalRejected
    \<and> approval_view_of (tool_state_of ce (patch_one_approval a (waiting_patch env)
          (patch_one_approval a (resolved_patch env ok) seg)))
      = ApprovalButtons (js_string (js_or (field (seg_metadata seg) ''risk_reason'') (JStr []))) a"
proof -
  have id: "field (seg_metadata seg) ''approval_id'' = a"
    using assms(1) strict_eq_imp by (auto simp: has_approval_def seg_metadata_def)
  have r: "field (resolved_patch env b) ''status'' = JStr (if b then ''running'' else ''failed'')"
    "\<exists>sm. field (resolved_patch env b) ''summary'' = JStr sm"
    "field (resolved_patch env b) ''metadata'' = JObj [(''approval_status'', JStr (if b then ''approving'' else ''rejected''))]" for b
    by (simp_all add: resolved_patch_def)
  have w: "field (waiting_patch env) ''status'' = JStr ''waiting_approval''"
    "\<exists>sm. field (waiting_patch env) ''summary'' = JStr sm"
    "field (waiting_patch env) ''metadata'' = JObj [(''approval_status'', JStr ''pending'')]"
    by (simp_all add: waiting_patch_def)
  have sr: "field (patch_one_approval a (resolved_patch env b) seg) ''status'' = JStr (if b then ''running'' else ''failed'')"
    "seg_metadata (patch_one_approval a (resolved_patch env b) seg)
       = spread (seg_metadata seg) (JObj [(''approval_status'', JStr (if b then ''approving'' else ''rejected''))])" for b
  proof -
    from r(2) [of b] obtain sm where s: "field (resolved_patch env b) ''summary'' = JStr sm" by blast
    show "field (patch_one_approval a (resolved_patch env b) seg) ''status'' = JStr (if b then ''running'' else ''failed'')"
      by (rule patched_fields(1) [OF r(1) s r(3)])
    show "seg_metadata (patch_one_approval a (resolved_patch env b) seg)
       = spread (seg_metadata seg) (JObj [(''approval_status'', JStr (if b then ''approving'' else ''rejected''))])"
      by (rule patched_fields(2) [OF r(1) s r(3)])
  qed
  have sw: "field (patch_one_approval a (waiting_patch env) x) ''status'' = JStr ''waiting_approval''"
    "seg_metadata (patch_one_approval a (waiting_patch env) x)
       = spread (seg_metadata x) (JObj [(''approval_status'', JStr ''pending'')])" for x
  proof -
    from w(2) obtain sm where s: "field (waiting_patch env) ''summary'' = JStr sm" by blast
    show "field (patch_one_approval a (waiting_patch env) x) ''status'' = JStr ''waiting_approval''"
      by (rule patched_fields(1) [OF w(1) s w(3)])
    show "seg_metadata (patch_one_approval a (waiting_patch env) x)
       = spread (seg_metadata x) (JObj [(''approval_status'', JStr ''pending'')])"
      by (rule patched_fields(2) [OF w(1) s w(3)])
  qed
  note st = approval_of_state(3) [OF sr(1)] approval_of_state(3) [OF sw(1)]
  have "approval_view_of (tool_state_of ce (patch_one_approval a (resolved_patch env True) seg)) = ApprovalRunning"
    using st(1) [of True ce] assms(2)
    by (simp add: approval_view_of_def approval_of_state(1,2,4) sr metadata_spread id status_view_def)
  moreover have "approval_view_of (tool_state_of ce (patch_one_approval a (resolved_patch env False) seg)) = ApprovalRejected"
    using st(1) [of False ce] assms(2)
    by (simp add: approval_view_of_def approval_of_state(1,2,4) sr metadata_spread id status_view_def)
  moreover have "approval_view_of (tool_state_of ce (patch_one_approval a (waiting_patch env)
          (patch_one_approval a (resolved_patch env ok) seg)))
      = ApprovalButtons (js_string (js_or (field (seg_metadata seg) ''risk_reason'') (JStr []))) a"
    using st(2) [of ce "patch_one_approval a (resolved_patch env ok) seg"] assms(2)
    by (simp add: approval_view_of_def approval_of_state(1,2,4) sr sw metadata_spread id status_view_def)
  ultimately show ?thesis by blast
qed

definition demo_approval :: js where
  "demo_approval = JObj [(''type'', JStr ''tool''), (''status'', JStr ''waiting_approval''),
     (''metadata'', JObj [(''approval_id'', JStr ''a1''), (''approval_status'', JStr ''pending''), (''risk_reason'', JStr ''drops a table'')])]"

theorem approval_card_follows_witness:
  "approval_view_of (tool_state_of demo_chat_env (patch_one_approval (JStr ''a1'') (waiting_patch demo_page_env)
      (patch_one_approval (JStr ''a1'') (resolved_patch demo_page_env True) demo_approval)))
     = ApprovalButtons ''drops a table'' (JStr ''a1'')"
proof -
  have "has_approval (JStr ''a1'') demo_approval" by (simp add: has_approval_def is_tool_def demo_approval_def)
  from approval_card_follows [OF this, of demo_chat_env demo_page_env True] show ?thesis
    by (simp add: seg_metadata_def demo_approval_def)
qed

definition stream_bits :: "widget \<Rightarrow> bool \<times> bool \<times> bool" where
  "stream_bits w = (cw_streaming w, cw_timer w, cw_busy w)"

lemma bits_core: "core w = core w' \<Longrightarrow> stream_bits w = stream_bits w'"
  by (simp add: core_def stream_bits_def)

lemma approve_entry_bits: "stream_bits (snd (snd (approve_entry env a patch e w))) = stream_bits w"
proof -
  have "stream_bits (v\<lparr>cw_segs := sg, cw_content := t\<rparr>) = stream_bits v" for v sg t by (simp add: stream_bits_def)
  moreover have "stream_bits (note_segments env sg v) = stream_bits v" for v sg by (rule bits_core) simp
  ultimately show ?thesis by (simp add: approve_entry_def Let_def split: entry.split prod.split)
qed

lemma approve_entries_bits: "stream_bits (snd (snd (approve_entries env a patch es w))) = stream_bits w"
proof (induction es arbitrary: w)
  case (Cons e es)
  show ?case
    using Cons [of "snd (snd (approve_entry env a patch e w))"] approve_entry_bits [of env a patch e w]
    by (simp add: split_beta Let_def)
qed simp

lemma update_approval_bits: "stream_bits (snd (update_approval env a patch w)) = stream_bits w"
proof -
  have "stream_bits (v\<lparr>cw_entries := es\<rparr>) = stream_bits v" for v es by (simp add: stream_bits_def)
  then show ?thesis
    using approve_entries_bits [of env a patch "cw_entries w" w]
    by (simp add: update_approval_def split_beta Let_def)
qed

lemma disable_card_bits: "stream_bits (disable_card a d w) = stream_bits w"
  by (simp add: disable_card_def stream_bits_def)

lemma approve_mounted: "mounted (snd (snd (approve_entry env a patch e w))) = mounted w"
  by (simp add: approve_entry_def Let_def split: entry.split prod.split)

lemma approves_mounted: "mounted (snd (snd (approve_entries env a patch es w))) = mounted w"
proof (induction es arbitrary: w)
  case (Cons e es)
  show ?case
    using Cons [of "snd (snd (approve_entry env a patch e w))"] approve_mounted [of env a patch e w]
    by (simp add: split_beta Let_def)
qed simp

lemma update_approval_mounted: "mounted (snd (update_approval env a patch w)) = mounted w"
  using approves_mounted [of env a patch "cw_entries w" w]
  by (simp add: update_approval_def split_beta Let_def)

text \<open>
  An approval that could not be delivered leaves the input locked: the request waits again, yet the widget
  goes on as if the answer were streaming, blocks the input and keeps the timeout armed that will replace the
  card by an error, although no session started to stream.
\<close>

theorem failed_approval_locks_input:
  assumes "truthy (cp_session p)" and "mounted (cp_widget p)"
  shows "let p' = resolve_end env a (Some msg) (resolve_begin env a True p) in
     cw_busy (cp_widget p') \<and> cw_timer (cp_widget p') \<and> cp_streaming p' = cp_streaming p"
proof -
  let ?w1 = "snd (update_approval (pe_page env) a (resolved_patch env True) (disable_card a True (cp_widget p)))"
  have m: "mounted ?w1" using assms(2) by (simp add: update_approval_mounted disable_card_def)
  have "stream_bits (resume_assistant (pe_page env) c sg ?w1) = (True, True, True)" for c sg
    using resume_core [OF m, of "pe_page env" c sg] by (auto simp: core_def stream_bits_def Let_def)
  then have b: "stream_bits (cp_widget (resolve_begin env a True p)) = (True, True, True)"
    using assms(1) by (simp add: resolve_begin_def Let_def)
  have "stream_bits (cp_widget (resolve_end env a (Some msg) (resolve_begin env a True p))) = (True, True, True)"
    using b by (simp add: resolve_end_def update_approval_bits disable_card_bits)
  moreover have "cp_streaming (resolve_end env a (Some msg) (resolve_begin env a True p)) = cp_streaming p"
    using assms(1) by (simp add: resolve_end_def resolve_begin_def Let_def)
  ultimately show ?thesis by (simp add: stream_bits_def Let_def)
qed

theorem failed_approval_locks_input_witness:
  "cw_busy (cp_widget (resolve_end demo_page_env (JStr ''a1'') (Some ''offline'') (resolve_begin demo_page_env (JStr ''a1'') True demo_chat)))"
proof -
  have "mounted (cp_widget demo_chat)" using demo_widget_ready by (simp add: demo_chat_def)
  from failed_approval_locks_input [OF demo_chat_ready(2) this] show ?thesis by (simp add: Let_def)
qed

section \<open>The hidden question\<close>

text \<open>
  Hiding the initial question hides nothing else: what is shown is the history without at most one
  message, the first one of the user that is the initial question.
\<close>

theorem visible_messages_hide_one:
  "visible_messages p msgs = msgs
   \<or> (\<exists>a m b. msgs = a @ m # b \<and> visible_messages p msgs = a @ b \<and> field m ''role'' = JStr ''user''
        \<and> trim (text_or_empty (field m ''content'')) = trim (text_or_empty (field (cp_options p) ''initialAsk'')))"
proof -
  have "drop_first_prompt q ms = ms \<or> (\<exists>a m b. ms = a @ m # b \<and> drop_first_prompt q ms = a @ b
      \<and> field m ''role'' = JStr ''user'' \<and> trim (text_or_empty (field m ''content'')) = q)" for q ms
  proof (induction ms)
    case (Cons m ms)
    show ?case
    proof (cases "field m ''role'' = JStr ''user'' \<and> trim (text_or_empty (field m ''content'')) = q")
      case True
      then have "m # ms = [] @ m # ms \<and> drop_first_prompt q (m # ms) = [] @ ms" by simp
      with True show ?thesis by blast
    next
      case False
      then have d: "drop_first_prompt q (m # ms) = m # drop_first_prompt q ms" by auto
      from Cons show ?thesis
      proof
        assume "drop_first_prompt q ms = ms"
        with d show ?thesis by simp
      next
        assume "\<exists>a x b. ms = a @ x # b \<and> drop_first_prompt q ms = a @ b \<and> field x ''role'' = JStr ''user''
            \<and> trim (text_or_empty (field x ''content'')) = q"
        then obtain a x b where "ms = a @ x # b" "drop_first_prompt q ms = a @ b" "field x ''role'' = JStr ''user''"
          "trim (text_or_empty (field x ''content'')) = q" by blast
        with d have "m # ms = (m # a) @ x # b \<and> drop_first_prompt q (m # ms) = (m # a) @ b" by simp
        with \<open>field x ''role'' = JStr ''user''\<close> \<open>trim (text_or_empty (field x ''content'')) = q\<close> show ?thesis by blast
      qed
    qed
  qed simp
  then show ?thesis unfolding visible_messages_def Let_def by auto
qed

section \<open>A whole answer on the page\<close>

definition content_message :: "string \<Rightarrow> js" where
  "content_message t = JObj [(''type'', JStr ''content''), (''content'', JStr t)]"

text \<open>The page holds an answer: the widget streams it and the state to resume from has the same text.\<close>

definition page_holds :: "string \<Rightarrow> chat_page \<Rightarrow> bool" where
  "page_holds t p \<longleftrightarrow> stream_inv t (cp_widget p) \<and> resume_content p = t"

definition page_ready :: "chat_page \<Rightarrow> bool" where
  "page_ready p \<longleftrightarrow> mounted (cp_widget p) \<and> \<not> has_streaming (cp_widget p) \<and> \<not> session_streaming p (cp_session p)
     \<and> cp_ws p \<noteq> None \<and> truthy (cp_session p)"

lemma stream_hide: "stream_inv t w \<Longrightarrow> stream_inv t (hide_thinking w)"
  by (simp add: stream_inv_def hide_thinking_def)

lemma stream_sync: "stream_inv t w \<Longrightarrow> stream_inv t (w\<lparr>cw_streaming := True, cw_busy := True\<rparr>)"
  by (simp add: stream_inv_def)

lemma remember_content: "resume_content (remember_resume (content_patch data st fb p) q)
    = (if cw_content (cp_widget p) \<noteq> [] then cw_content (cp_widget p) else fb)"
proof -
  have d: "distinct (map fst (content_patch data st fb p))" by (simp add: content_patch_def run_id_patch_def)
  have "field (spread r (JObj (content_patch data st fb p))) ''content''
      = JStr (if cw_content (cp_widget p) \<noteq> [] then cw_content (cp_widget p) else fb)" for r
  proof -
    have h: "map_of (content_patch data st fb p) ''content'' = Some (JStr (if cw_content (cp_widget p) \<noteq> [] then cw_content (cp_widget p) else fb))"
      by (simp add: content_patch_def)
    then have "has_field (JObj (content_patch data st fb p)) ''content''" by (simp add: has_field_def)
    with h show ?thesis
      using field_spread [of "JObj (content_patch data st fb p)" r "''content''"] d by (simp add: field_def)
  qed
  then show ?thesis by (simp add: resume_content_def resume_of_def remember_resume_def)
qed

lemma page_begin:
  assumes "page_ready p"
  shows "page_holds [] (send_message env (q # qs) [] False p)"
proof -
  let ?p1 = "on_widget (add_user_message (pe_page env) (JStr (q # qs)) [] True) p"
  let ?p2 = "on_widget (start_assistant (pe_page env)) ?p1"
  have e: "send_message env (q # qs) [] False p
      = send_ws (message_payload p (q # qs) []) ((mark_streaming (cp_session p) ?p2)\<lparr>cp_resume := Some fresh_resume\<rparr>)"
    using assms by (auto simp: send_message_def page_ready_def Let_def)
  have "mounted (cp_widget ?p1)" "\<not> has_streaming (cp_widget ?p1)"
    using assms by (simp_all add: page_ready_def) (simp add: add_user_message_def has_streaming_def Let_def)
  from stream_start [OF this, of "pe_page env"] have s: "stream_inv [] (cp_widget ?p2)" by simp
  have t: "truthy (cp_session p)" using assms by (simp add: page_ready_def)
  have "cp_widget (mark_streaming (cp_session p) ?p2) = (cp_widget ?p2)\<lparr>cw_streaming := True, cw_busy := True\<rparr>"
    using t by (simp add: mark_streaming_def sync_streaming_def) (simp add: session_streaming_def on_widget_def)
  with stream_sync [OF s] have "stream_inv [] (cp_widget (send_message env (q # qs) [] False p))"
    unfolding e by (simp add: send_ws_def)
  moreover have "resume_content (send_message env (q # qs) [] False p) = []"
    unfolding e by (simp add: resume_content_def resume_of_def send_ws_def fresh_resume_def text_or_empty_def)
  ultimately show ?thesis by (simp add: page_holds_def)
qed

lemma page_feed:
  assumes "page_holds t p"
  shows "page_holds (t @ s) (handle_ws_message env (content_message s) p)"
proof -
  let ?p1 = "on_widget (\<lambda>w. append_content (pe_page env) (JStr s) (hide_thinking w)) p"
  have e: "handle_ws_message env (content_message s) p
      = remember_resume (content_patch (content_message s) (JStr ''partial'') (resume_content ?p1 @ s) ?p1) ?p1"
    by (simp add: handle_ws_message_def content_message_def Let_def)
  have w: "stream_inv (t @ s) (cp_widget ?p1)"
    using assms stream_text [OF stream_hide] by (simp add: page_holds_def)
  then have "cw_content (cp_widget ?p1) = t @ s" by (simp add: stream_inv_def)
  moreover have "resume_content ?p1 = t" using assms by (simp add: page_holds_def resume_content_def resume_of_def)
  ultimately have "resume_content (handle_ws_message env (content_message s) p) = t @ s"
    unfolding e remember_content by (cases "t @ s = []") simp_all
  with w show ?thesis unfolding page_holds_def e by simp
qed

interpretation page_sink: answer_sink "send_message env (q # qs) [] False" "\<lambda>p s. handle_ws_message env (content_message s) p"
    page_holds page_ready "\<lambda>s. s" "\<lambda>s. True" for env q qs
  by unfold_locales (simp_all add: page_begin page_feed)

end
