(* ===== verification/Spec2Isabelle.thy ===== *)
theory Spec2Isabelle
  imports AiPrompts AlertSilence AlertTemplates AlertsPage ApiCalls AppRouter
  BaselineProfiles BusyGuards Calendar ChartPanel DatasourceForm DatasourceSelector
  DatasourceTable DatePicker Format HostDetail HostMetrics HostNetwork
  HostTable HtmlForm HtmlText HttpClient I18n InspectionConfig
  InspectionPage InstanceDetail InstanceTables InstanceTraffic Integrations JsNumber
  JsSort JsValue Listeners MonitorBatch MonitorMetrics MonitorPage
  PageLinks Pager Prelude ScheduledTasks SchemaCache SqlCompletion
  SqlConsole StateStore SystemConfigs TableSort TopologyView UrlCodec
  WsManager ChatSegments ChatScroll ChatWidget DiagnosisContext VisualChart
  DiagnosisChat
begin

text \<open>
  Verification of the browser client of dbclaw (src/frontend/js), the part of the repository written in
  JavaScript by the project itself.  The client is a single-page application: a hash router shows one page at
  a time, every page talks to the server through one HTTP client and, in the chat, through a web socket, and
  shared widgets (chat, charts, date picker, datasource selector, modals) draw the answers.  The theories
  follow that structure; each opens with a description of its own.

  \<^bold>\<open>Values and strings.\<close>
  \<^item> Prelude: lists, maps with insertion order (\<open>jsmap\<close>, the JS \<open>Map\<close> and \<open>Set\<close>), splitting and joining of strings.
  \<^item> JsValue: JSON and JS values (\<open>js\<close>), property access with \<open>undefined\<close>, truthiness, \<open>||\<close>, \<open>===\<close>, string conversion.
  \<^item> JsNumber: decimal printing and \<open>parseInt\<close>; numbers are rationals with NaN and the infinities (no rounding).
  \<^item> UrlCodec: percent encoding, \<open>encodeURIComponent\<close>, \<open>URLSearchParams\<close>; characters are bytes of UTF-8 text.

  \<^bold>\<open>State shared by the pages.\<close>
  \<^item> Listeners: the locale \<open>listener_registry\<close>, the contract of subscribe, unsubscribe and notify, interpreted by the two registries of the code.
  \<^item> StateStore: state.js, the \<open>Store\<close> object.
  \<^item> WsManager: utils/websocket.js, socket, reconnect timer, listeners.
  \<^item> AppRouter: router.js and app.js, routes, login guard, cleanup of the previous page, asynchronous handlers.
  \<^item> HttpClient: the request core of api.js, session mark, error texts, downloads.
  \<^item> ApiCalls: the endpoints of api.js.
  \<^item> SchemaCache: utils/schema-cache.js with the locale \<open>ttl_cache\<close>.
  \<^item> SqlCompletion: utils/sql-completion-provider.js.
  \<^item> I18n: i18n.js.
  \<^item> Format: utils/format.js.

  \<^bold>\<open>Widgets.\<close>
  \<^item> Calendar and DatePicker: components/date-picker.js over a proleptic Gregorian calendar.
  \<^item> BusyGuards: utils/dom.js, components/modal.js, utils/version-checker.js with the locale \<open>inflight_guard\<close>.
  \<^item> ChartPanel: components/chart-panel.js.
  \<^item> DatasourceSelector: components/datasource-selector.js.
  \<^item> ChatSegments, ChatScroll, ChatWidget, VisualChart: components/chat-widget.js, the segments of an answer, the
    scroll behaviour, the message list with streaming, tools, approvals and history, the charts of monitoring tools.

  \<^bold>\<open>The diagnosis page\<close> (pages/diagnosis.js).
  \<^item> DiagnosisContext: authorizations, context of alerts and reports, sidebar, welcome texts, links.
  \<^item> DiagnosisChat: sessions, socket messages, resume state, approvals, sending.

  \<^bold>\<open>The monitor page\<close> (pages/monitor.js).
  \<^item> MonitorMetrics: times, rates from counters, the points of a sample, live and batch updates of the charts.
  \<^item> MonitorBatch: a batch of samples drawn at once shows what the live updates would, one by one.
  \<^item> MonitorPage: the page as a step relation: history, live socket, buffer of live samples, ranges, refresh.

  \<^bold>\<open>The SQL console.\<close>
  \<^item> SqlConsole: pages/sqlConsole.js, components/query-editor.js, components/table.js: drafts, context, the query in flight, the grid.

  \<^bold>\<open>The page of an instance\<close> (pages/instance-detail.js).
  \<^item> JsSort: the stable sort of arrays and the locale \<open>comparator\<close> of its comparison functions.
  \<^item> InstanceTables: parameters, sessions, expensive statements: filters and orders, with \<open>comparator\<close> interpreted by the order of the sessions.
  \<^item> InstanceDetail: route, address, list of instances, summary, tabs; rendering as operations between the awaits.
  \<^item> AiPrompts: the questions asked on behalf of the user, here and in the SQL console, and the dialogs of their chats.

  \<^bold>\<open>The page of the datasources\<close> (pages/datasources.js, components/datasource-form.js).
  \<^item> DatasourceTable: the table with its filters and order, the metrics that arrive later, the menu of a row.
  \<^item> InspectionConfig: the dialog of the inspection and its draft.
  \<^item> BaselineProfiles: slots of a week, heat maps, ranges; \<open>comparator\<close> interpreted by the order of the slots.
  \<^item> DatasourceForm: the form of a datasource, what its late answers change, what saving sends.

  \<^bold>\<open>The page of a host\<close> (pages/host-detail.js).
  \<^item> HostMetrics: health, sizes, durations, disks, processes.
  \<^item> HostDetail: route, list, tabs with their timers, custom ranges.

  \<^bold>\<open>Alerts.\<close>
  \<^item> AlertSilence: silencing a datasource, shared by two pages.
  \<^item> AlertsPage: pages/alerts.js, the list of events, labels, the editor of a subscription.

  \<^bold>\<open>Lists and tables.\<close>
  \<^item> TableSort: the comparison of the columns of two tables, with \<open>comparator\<close> interpreted by it.
  \<^item> HostTable: pages/hosts.js, the list of hosts with its form; SystemConfigs: pages/system-configs.js, the parameters.
  \<^item> Pager and PageLinks: the buttons below a list and the links between pages, each shared by several of them.
  \<^item> InspectionPage: pages/inspection.js, the reports: filters, pages, the interval that asks again, labels, links.

  \<^bold>\<open>Drawings of connections.\<close>
  \<^item> TopologyView: what pages/instance-traffic.js and pages/host-network.js share: requests, timers, animation frames,
    the layout; the locale \<open>view_data\<close> is the contract of the data of a drawing.
  \<^item> InstanceTraffic and HostNetwork: the data of each, with \<open>view_data\<close> interpreted on it.

  \<^bold>\<open>Forms.\<close>
  \<^item> HtmlText: character references of attributes and texts, as the browser reads them back.
  \<^item> Integrations: pages/integrations.js, names, groups, bindings of bots, the editor, the test and the login.
  \<^item> HtmlForm: what the browser's controls make of the text written into them and what they give back.
  \<^item> ScheduledTasks: pages/scheduled-tasks.js, the editor of a task: stored task, form, payload.
  \<^item> AlertTemplates: pages/alert-templates.js, the editor of a template: rules, levels, built-in texts, checks.

  How the parts meet: DiagnosisChat drives ChatWidget through the locale \<open>answer_sink\<close> (a question opens an
  answer, every delta appends to it); it is interpreted on the widget alone (\<open>widget_sink\<close>) and on the page
  behind the socket (\<open>page_sink\<close>).  Properties that span components are proved below.

  \<^bold>\<open>What the lemmas show.\<close>  Each component has lemmas for the invariant of its state and for every branch of
  its operations; the properties are listed with their ids in the text before each theorem.  Several properties
  state where the code loses data or locks a control: they describe the code as it is.

  \<^bold>\<open>Asynchrony.\<close>  A function that awaits is split at the await: one definition up to the call (\<open>*_begin\<close>),
  one for its completion (\<open>*_end\<close>, \<open>*_loaded\<close>, \<open>*_failed\<close>, \<open>*_settle\<close>), so that other operations can run in between.
  Timers are explicit fire operations; the clock is an argument.

  \<^bold>\<open>Environments.\<close>  Records of functions (\<open>page_env\<close>, \<open>context_env\<close>, \<open>chat_page_env\<close>) stand for what is not
  under src/frontend/js or is supplied by the browser: translation tables, \<open>JSON.parse\<close>, the locale-dependent
  printing of dates, the Markdown renderer.  Nothing is assumed of them unless a property says so.

  \<^bold>\<open>Bounds and fuel.\<close>  Scanners recurse on the remaining text (\<open>function\<close> with \<open>measure length\<close>); the smooth
  scroll runs at most as many frames as its duration allows, redirects at most two hops; both are proved.

  \<^bold>\<open>Not modelled.\<close>  Markup and styling of the pages; the document tree beyond what a component reads back;
  \<open>frontend/lib\<close> (Monaco, xterm, highlight.js, CodeMirror and other vendored code); the server (Python).
  The rendering of messages is taken not to throw in ChatWidget; VisualChart shows that a chart with data does.
\<close>

section \<open>The chat, from the socket to the reader\<close>





section \<open>Links between pages\<close>

text \<open>
  C11. The link from an alert event opens the diagnosis of that event: the router finds the diagnosis page, and
  the page reads back the event, its datasource and the question exactly, for any question.
\<close>

theorem event_link_roundtrip:
  assumes "prompt \<noteq> []"
  shows "case route_parse (event_diagnosis_link (JObj [(''id'', JStr (str_of_nat e)), (''datasource_id'', JStr (str_of_nat d))]) prompt) of
      (page, param) \<Rightarrow> page = ''diagnosis''
        \<and> field (route_options param) ''initialEventId'' = JNum (Fin (of_nat e))
        \<and> field (route_options param) ''initialDatasourceId'' = JNum (Fin (of_nat d))
        \<and> field (route_options param) ''initialAsk'' = JStr prompt
        \<and> field (route_options param) ''preferFreshSession'' = JBool True"
proof -
  let ?kvs = "[(''datasource'', str_of_nat d), (''event'', str_of_nat e), (''ask'', prompt)]"
  have "event_diagnosis_link (JObj [(''id'', JStr (str_of_nat e)), (''datasource_id'', JStr (str_of_nat d))]) prompt
      = page_link ''diagnosis'' ?kvs"
    by (simp add: event_diagnosis_link_def page_link_def)
  moreover have "route_parse (page_link ''diagnosis'' ?kvs) = (''diagnosis'', form_serialize ?kvs)"
    by (rule route_parse_link) simp_all
  moreover have "form_parse (form_serialize ?kvs) = ?kvs" by (rule form_parse_serialize)
  ultimately show ?thesis
    using assms parse_int_of_nat by (simp add: route_options_def id_param_def params_get_def opt_js_def Let_def)
qed

theorem event_link_roundtrip_witness:
  "case route_parse (event_diagnosis_link (JObj [(''id'', JStr (str_of_nat 17)), (''datasource_id'', JStr (str_of_nat 3))]) ''why? a&b'') of
      (page, param) \<Rightarrow> field (route_options param) ''initialAsk'' = JStr ''why? a&b''"
  using event_link_roundtrip [of "''why? a&b''" 17 3] by (simp split: prod.splits)


text \<open>
  The question of an alert is lost on the way to the chat of its instance: the link of an alert on the page of
  an instance opens the chat with the question, but the page takes the question out of the address, the router
  renders it again, and the chat it ends with has no question.
\<close>

theorem alert_question_lost:
  assumes "field event ''datasource_id'' = JNum (Fin (of_nat k))" and "field event ''id'' = JNum (Fin (of_nat e))"
    and "prompt \<noteq> []" and "0 < k" and "numbered dss" and "d \<in> set dss" and "field d ''id'' = JNum (Fin (of_nat k))"
    and "\<forall>d \<in> set dss. answer_id (summary (field d ''id'')) (field d ''id'') = field d ''id''"
  shows "case route_parse (embedded_diagnosis_link event prompt) of (page, param) \<Rightarrow>
      page = ''instance-detail''
    \<and> (let q = render_instance param dss alerts summary p; param' = snd (route_parse (tl (ip_hash q)));
            q' = render_instance param' dss alerts summary q
        in (\<exists>opts. ip_view q = Embedded ''ai'' opts \<and> field opts ''initialAsk'' = JStr prompt)
         \<and> field (ip_current q) ''id'' = JNum (Fin (of_nat k)) \<and> param' \<noteq> param
         \<and> (\<exists>opts. ip_view q' = Embedded ''ai'' opts \<and> field opts ''initialAsk'' = JNull))"
proof -
  let ?r = "\<lparr>rr_datasource = JNull, rr_tab = [], rr_alert = JNull, rr_event = JStr (str_of_nat e), rr_report = JNull, rr_ask = JStr prompt\<rparr>"
  have r: "route_params ?r" using assms(3) by (simp add: route_params_def is_param_def)
  have n: "js_string (JNum (Fin (of_nat i))) = str_of_nat i" for i
    using str_of_rat_int [of "int i"] by (simp add: str_of_int_def)
  have l: "embedded_diagnosis_link event prompt = build_inst_url (JNum (Fin (of_nat k))) ''ai'' (route_extras ?r) p"
    using assms(1-3) n by (simp add: embedded_diagnosis_link_def build_inst_url_def route_extras_def set_extra_def nullish_def)
  define param where "param = form_serialize (fold set_extra (route_extras ?r) [(''datasource'', str_of_nat k), (''tab'', ''ai'')])"
  have b: "route_parse (embedded_diagnosis_link event prompt) = (''instance-detail'', param)"
    unfolding l param_def by (rule build_parse(1) [OF _ r]) simp
  have pr: "parse_inst_route param = ?r\<lparr>rr_datasource := JNum (Fin (of_nat k)), rr_tab := ''ai''\<rparr>"
    unfolding param_def by (rule build_parse(2) [OF _ r]) simp
  have t: "rr_tab (parse_inst_route param) = ''ai''" "rr_ask (parse_inst_route param) = JStr prompt"
    "rr_datasource (parse_inst_route param) = JNum (Fin (of_nat k))" by (simp_all add: pr)
  have ne: "dss \<noteq> []" using assms(6) by auto
  have f: "find_datasource (JNum (Fin (of_nat k))) dss \<noteq> None"
    using find_datasource_known [OF assms(6,7)] by auto
  have c: "field (ip_current (render_instance param dss alerts summary p)) ''id'' = JNum (Fin (of_nat k))"
    using render_shape(1) [OF ne assms(5,8), of param alerts p] t(3) f assms(4) by auto
  show ?thesis
    using link_question_replaced [OF ne assms(5,8) t(1,2), of alerts p] c unfolding b Let_def by auto
qed

theorem alert_question_lost_witness:
  "case route_parse (embedded_diagnosis_link (JObj [(''datasource_id'', JNum (Fin (of_nat 3))), (''id'', JNum (Fin (of_nat 9)))]) ''why?'') of
      (page, param) \<Rightarrow> page = ''instance-detail''"
proof -
  have n: "numbered [demo_ds 3]" by (auto simp: numbered_def demo_ds_def field_def intro: exI [of _ 3])
  have a: "\<forall>d \<in> set [demo_ds 3]. answer_id (JObj []) (field d ''id'') = field d ''id''" by (simp add: answer_id_def field_def)
  have f: "field (demo_ds 3) ''id'' = JNum (Fin (of_nat 3))" by (simp add: demo_ds_def field_def)
  have e: "field (JObj [(''datasource_id'', JNum (Fin (of_nat 3))), (''id'', JNum (Fin (of_nat 9)))]) ''datasource_id'' = JNum (Fin (of_nat 3))"
    "field (JObj [(''datasource_id'', JNum (Fin (of_nat 3))), (''id'', JNum (Fin (of_nat 9)))]) ''id'' = JNum (Fin (of_nat 9))"
    by (simp_all add: field_def)
  show ?thesis
    using alert_question_lost [OF e _ _ n _ f a, of "''why?''" "JArr []" demo_inst_page] by (auto split: prod.splits)
qed

end
